(* ===== verification/Prelude.thy ===== *)
theory Prelude
  imports Complex_Main "HOL-Library.Product_Lexorder"
begin

section \<open>Prelude: tables, queries, JSON and strings\<close>

text \<open>
  Shared vocabulary of the development. A Postgres table is a list of rows in insertion order;
  the SQL statements the TypeScript sources embed are the operations below: \<open>update_where\<close> is
  \<^verbatim>\<open>UPDATE ... SET ... WHERE\<close>, \<open>delete_where\<close> is \<^verbatim>\<open>DELETE ... WHERE\<close>, \<open>find_row\<close> is a
  \<^verbatim>\<open>SELECT ... WHERE\<close> whose result is destructured as \<^verbatim>\<open>const [row] = ...\<close>, and \<open>order_by\<close> is
  \<^verbatim>\<open>ORDER BY\<close> (rows that tie keep their table order; SQL leaves their order open). JSON values are
  a datatype; a JavaScript object is an association list, read by \<open>obj_get\<close>. Time stamps are
  integers (milliseconds since the epoch), as \<^verbatim>\<open>Date.getTime()\<close> returns them.

  The collection \<open>table_simps\<close> holds the frame laws the component proofs rewrite with.
\<close>

named_theorems table_simps \<open>how queries see a table after an update, a delete or an insert\<close>

type_synonym timestamp = int

definition coalesce :: "'a option \<Rightarrow> 'a option \<Rightarrow> 'a option" where
  "coalesce a b = (case a of None \<Rightarrow> b | Some x \<Rightarrow> Some x)"

lemma coalesce_simps [simp]: "coalesce None b = b" "coalesce (Some x) b = Some x"
  by (simp_all add: coalesce_def)

subsection \<open>Tables\<close>

definition update_where :: "('r \<Rightarrow> bool) \<Rightarrow> ('r \<Rightarrow> 'r) \<Rightarrow> 'r list \<Rightarrow> 'r list" where
  "update_where P f rows = map (\<lambda>r. if P r then f r else r) rows"

definition delete_where :: "('r \<Rightarrow> bool) \<Rightarrow> 'r list \<Rightarrow> 'r list" where
  "delete_where P rows = filter (\<lambda>r. \<not> P r) rows"

fun find_row :: "('r \<Rightarrow> bool) \<Rightarrow> 'r list \<Rightarrow> 'r option" where
  "find_row P [] = None"
| "find_row P (r # rows) = (if P r then Some r else find_row P rows)"

definition order_by :: "('r \<Rightarrow> 'k::linorder) \<Rightarrow> 'r list \<Rightarrow> 'r list" where
  "order_by k rows = sort_key k rows"

definition first_row :: "'r list \<Rightarrow> 'r option" where
  "first_row rows = (case rows of [] \<Rightarrow> None | r # _ \<Rightarrow> Some r)"

definition exists_row :: "('r \<Rightarrow> bool) \<Rightarrow> 'r list \<Rightarrow> bool" where
  "exists_row P rows = list_ex P rows"

lemma length_update_where [simp]: "length (update_where P f rows) = length rows"
  by (simp add: update_where_def)

lemma update_where_Nil [simp]: "update_where P f [] = []"
  by (simp add: update_where_def)

lemma update_where_Cons [simp]:
  "update_where P f (r # rows) = (if P r then f r else r) # update_where P f rows"
  by (simp add: update_where_def)

lemma update_where_append [simp]:
  "update_where P f (xs @ ys) = update_where P f xs @ update_where P f ys"
  by (simp add: update_where_def)

lemma set_update_where: "set (update_where P f rows) = (\<lambda>r. if P r then f r else r) ` set rows"
  by (simp add: update_where_def)

lemma in_set_update_whereE:
  assumes "r \<in> set (update_where P f rows)"
  obtains r0 where "r0 \<in> set rows" and "r = (if P r0 then f r0 else r0)"
  using assms by (auto simp: set_update_where)

lemma set_delete_where [simp]: "set (delete_where P rows) = {r \<in> set rows. \<not> P r}"
  by (simp add: delete_where_def)

lemma map_update_where [table_simps]:
  "(\<And>r. P r \<Longrightarrow> k (f r) = k r) \<Longrightarrow> map k (update_where P f rows) = map k rows"
  by (induction rows) auto

lemma image_update_where [table_simps]:
  "(\<And>r. P r \<Longrightarrow> k (f r) = k r) \<Longrightarrow> k ` set (update_where P f rows) = k ` set rows"
  by (metis list.set_map map_update_where)

lemma distinct_map_delete_where [table_simps]:
  "distinct (map k rows) \<Longrightarrow> distinct (map k (delete_where P rows))"
  by (simp add: delete_where_def distinct_map_filter)

lemma find_row_Some: "find_row P rows = Some r \<Longrightarrow> r \<in> set rows \<and> P r"
  by (induction rows) (auto split: if_splits)

lemma find_row_None: "find_row P rows = None \<longleftrightarrow> (\<forall>r \<in> set rows. \<not> P r)"
  by (induction rows) auto

lemma find_row_append [simp]:
  "find_row P (xs @ ys) = (case find_row P xs of None \<Rightarrow> find_row P ys | Some r \<Rightarrow> Some r)"
  by (induction xs) auto

lemma find_row_key [table_simps]:
  "distinct (map k rows) \<Longrightarrow> r \<in> set rows \<Longrightarrow> find_row (\<lambda>x. k x = k r) rows = Some r"
  by (induction rows) force+

lemma find_row_key_iff:
  "distinct (map k rows) \<Longrightarrow> find_row (\<lambda>x. k x = v) rows = Some r \<longleftrightarrow> r \<in> set rows \<and> k r = v"
  using find_row_Some find_row_key by fastforce

text \<open>What a key lookup returns after an update that keeps the key.\<close>

lemma find_row_update_where [table_simps]:
  assumes "\<And>r. P r \<Longrightarrow> k (f r) = k r"
  shows "find_row (\<lambda>x. k x = v) (update_where P f rows) =
    map_option (\<lambda>r. if P r then f r else r) (find_row (\<lambda>x. k x = v) rows)"
  using assms by (induction rows) auto

lemma filter_update_where [table_simps]:
  assumes "\<And>r. P r \<Longrightarrow> Q (f r) = Q r"
  shows "filter Q (update_where P f rows) = update_where P f (filter Q rows)"
  using assms by (induction rows) auto

lemma update_where_False: "(\<And>r. r \<in> set rows \<Longrightarrow> \<not> P r) \<Longrightarrow> update_where P f rows = rows"
  by (induction rows) auto

lemma find_row_delete_where:
  "(\<And>r. Q r \<Longrightarrow> \<not> P r) \<Longrightarrow> find_row Q (delete_where P rows) = find_row Q rows"
  by (induction rows) (auto simp: delete_where_def)

lemma set_order_by [simp]: "set (order_by k rows) = set rows"
  by (simp add: order_by_def)

lemma length_order_by [simp]: "length (order_by k rows) = length rows"
  by (simp add: order_by_def)

lemma sorted_order_by: "sorted (map k (order_by k rows))"
  by (simp add: order_by_def)

lemma order_by_Nil [simp]: "order_by k [] = []"
  by (simp add: order_by_def)

lemma order_by_singleton [simp]: "order_by k [r] = [r]"
  by (simp add: order_by_def)

lemma order_by_eq_Nil [simp]: "order_by k rows = [] \<longleftrightarrow> rows = []"
  by (metis length_0_conv length_order_by)

lemma first_row_Nil [simp]: "first_row [] = None"
  by (simp add: first_row_def)

lemma first_row_Cons [simp]: "first_row (r # rows) = Some r"
  by (simp add: first_row_def)

lemma first_row_None [simp]: "first_row rows = None \<longleftrightarrow> rows = []"
  by (simp add: first_row_def split: list.split)

lemma first_row_mem: "first_row rows = Some r \<Longrightarrow> r \<in> set rows"
  by (auto simp: first_row_def split: list.splits)

text \<open>\<^verbatim>\<open>ORDER BY k LIMIT 1\<close> returns a row that is least under the order.\<close>

lemma first_row_order_by_least:
  assumes "first_row (order_by k rows) = Some r"
  shows "r \<in> set rows" and "\<forall>r' \<in> set rows. k r \<le> k r'"
proof -
  from assms obtain rs where eq: "order_by k rows = r # rs"
    by (auto simp: first_row_def split: list.splits)
  have set_eq: "set rows = insert r (set rs)"
    using eq by (metis list.simps(15) set_order_by)
  then show "r \<in> set rows" by simp
  from sorted_order_by [of k rows] eq have "sorted (k r # map k rs)" by simp
  then show "\<forall>r' \<in> set rows. k r \<le> k r'" by (auto simp: set_eq)
qed

lemma exists_row_iff [simp]: "exists_row P rows \<longleftrightarrow> (\<exists>r \<in> set rows. P r)"
  by (simp add: exists_row_def list_ex_iff)

subsection \<open>JSON\<close>

datatype json =
    JNull
  | JBool bool
  | JNum rat
  | JStr string
  | JArr "json list"
  | JObj "(string \<times> json) list"

type_synonym jobject = "(string \<times> json) list"

text \<open>Property access on an object: an absent property reads as undefined, here \<open>None\<close>.\<close>

definition obj_get :: "jobject \<Rightarrow> string \<Rightarrow> json option" where
  "obj_get kvs k = map_of kvs k"

fun json_get :: "json \<Rightarrow> string \<Rightarrow> json option" where
  "json_get (JObj kvs) k = obj_get kvs k"
| "json_get _ k = None"

fun json_string :: "json option \<Rightarrow> string option" where
  "json_string (Some (JStr s)) = Some s"
| "json_string _ = None"

text \<open>JavaScript truthiness of a property that may be absent.\<close>

fun json_truthy :: "json option \<Rightarrow> bool" where
  "json_truthy None = False"
| "json_truthy (Some JNull) = False"
| "json_truthy (Some (JBool b)) = b"
| "json_truthy (Some (JNum n)) = (n \<noteq> 0)"
| "json_truthy (Some (JStr s)) = (s \<noteq> [])"
| "json_truthy (Some (JArr _)) = True"
| "json_truthy (Some (JObj _)) = True"

text \<open>
  Postgres \<^verbatim>\<open>a || b\<close> on jsonb objects: the right operand wins, key by key. An object is kept with
  its keys in the left operand's order, the new keys behind them.
\<close>

definition obj_set :: "string \<Rightarrow> json \<Rightarrow> jobject \<Rightarrow> jobject" where
  "obj_set k v kvs =
     (if k \<in> fst ` set kvs then map (\<lambda>(k', v'). if k' = k then (k, v) else (k', v')) kvs
      else kvs @ [(k, v)])"

definition obj_del :: "string \<Rightarrow> jobject \<Rightarrow> jobject" where
  "obj_del k kvs = filter (\<lambda>(k', _). k' \<noteq> k) kvs"

definition jsonb_concat :: "jobject \<Rightarrow> jobject \<Rightarrow> jobject" where
  "jsonb_concat a b = fold (\<lambda>(k, v) acc. obj_set k v acc) b a"

lemma obj_get_Nil [simp]: "obj_get [] k = None"
  by (simp add: obj_get_def)

lemma obj_get_Cons [simp]: "obj_get ((k', v) # kvs) k = (if k' = k then Some v else obj_get kvs k)"
  by (simp add: obj_get_def)

lemma obj_get_eq_None: "obj_get kvs k = None \<longleftrightarrow> k \<notin> fst ` set kvs"
  by (simp add: obj_get_def map_of_eq_None_iff)

lemma obj_get_append: "obj_get (xs @ ys) k = coalesce (obj_get xs k) (obj_get ys k)"
  by (induction xs) auto

lemma obj_get_absent: "k \<notin> fst ` set kvs \<Longrightarrow> obj_get kvs k = None"
  by (simp add: obj_get_eq_None)

lemma obj_get_replace:
  "obj_get (map (\<lambda>(k', v'). if k' = k then (k, v) else (k', v')) kvs) k' =
     (if k' = k \<and> k \<in> fst ` set kvs then Some v else obj_get kvs k')"
proof (induction kvs)
  case (Cons p kvs)
  then show ?case by (cases p; cases "k' = k") simp_all
qed simp

lemma obj_get_set: "obj_get (obj_set k v kvs) k' = (if k' = k then Some v else obj_get kvs k')"
  by (simp add: obj_set_def obj_get_replace obj_get_append obj_get_absent coalesce_def
      split: option.split)

lemma obj_get_del: "obj_get (obj_del k kvs) k' = (if k' = k then None else obj_get kvs k')"
  by (induction kvs) (auto simp: obj_del_def)

lemma obj_get_concat:
  "obj_get (jsonb_concat a b) k = coalesce (obj_get (rev b) k) (obj_get a k)"
  unfolding jsonb_concat_def
proof (induction b arbitrary: a)
  case Nil
  then show ?case by simp
next
  case (Cons p b)
  obtain k0 v0 where p: "p = (k0, v0)" by force
  have rev: "obj_get (rev b @ [(k0, v0)]) k =
      coalesce (obj_get (rev b) k) (if k = k0 then Some v0 else None)"
    by (simp add: obj_get_append)
  show ?case
    using Cons.IH [of "obj_set k0 v0 a"] by (auto simp: p rev obj_get_set coalesce_def split: option.splits)
qed

subsection \<open>Strings\<close>

definition starts_with :: "string \<Rightarrow> string \<Rightarrow> bool" where
  "starts_with p s = (take (length p) s = p)"

definition ends_with :: "string \<Rightarrow> string \<Rightarrow> bool" where
  "ends_with q s = (length q \<le> length s \<and> drop (length s - length q) s = q)"

lemma starts_with_iff: "starts_with p s \<longleftrightarrow> (\<exists>t. s = p @ t)"
  by (metis append_eq_conv_conj append_take_drop_id starts_with_def)

lemma ends_with_iff: "ends_with q s \<longleftrightarrow> (\<exists>t. s = t @ q)"
proof
  assume "ends_with q s"
  then show "\<exists>t. s = t @ q" by (metis append_take_drop_id ends_with_def)
next
  assume "\<exists>t. s = t @ q"
  then show "ends_with q s" by (auto simp: ends_with_def)
qed

text \<open>\<^verbatim>\<open>String.prototype.split\<close> with a one-character separator.\<close>

fun split_on :: "char \<Rightarrow> string \<Rightarrow> string list" where
  "split_on c [] = [[]]"
| "split_on c (x # xs) =
     (if x = c then [] # split_on c xs
      else case split_on c xs of [] \<Rightarrow> [[x]] | p # ps \<Rightarrow> (x # p) # ps)"

fun join_with :: "string \<Rightarrow> string list \<Rightarrow> string" where
  "join_with sep [] = []"
| "join_with sep [s] = s"
| "join_with sep (s # t # ss) = s @ sep @ join_with sep (t # ss)"

lemma split_on_not_Nil [simp]: "split_on c s \<noteq> []"
  by (cases s) (auto split: list.split)

lemma split_on_no_sep: "c \<notin> set s \<Longrightarrow> split_on c s = [s]"
  by (induction s) auto

lemma split_on_append_sep: "split_on c (s @ c # t) = split_on c s @ split_on c t"
  by (induction s) (auto split: list.split)

lemma length_split_on: "length (split_on c s) = Suc (count_list s c)"
  by (induction s) (auto split: list.split)

lemma join_split_on: "join_with [c] (split_on c s) = s"
proof (induction s)
  case Nil
  then show ?case by simp
next
  case (Cons x s)
  obtain p ps where sp: "split_on c s = p # ps" by (cases "split_on c s") auto
  with Cons.IH show ?case by (cases ps) auto
qed

lemma split_on_parts: "t \<in> set (split_on c s) \<Longrightarrow> c \<notin> set t"
proof (induction s arbitrary: t)
  case (Cons x s)
  then show ?case by (cases "split_on c s") (auto split: if_splits)
qed simp

lemma split_join: "\<lbrakk>ss \<noteq> []; \<And>t. t \<in> set ss \<Longrightarrow> c \<notin> set t\<rbrakk> \<Longrightarrow> split_on c (join_with [c] ss) = ss"
proof (induction ss)
  case (Cons s ss)
  then show ?case by (cases ss) (auto simp: split_on_append_sep split_on_no_sep)
qed simp

text \<open>Decimal rendering of a natural number, as string interpolation prints it.\<close>

definition digit_char :: "nat \<Rightarrow> char" where
  "digit_char d = char_of (48 + d)"

fun show_nat :: "nat \<Rightarrow> string" where
  "show_nat n = (if n < 10 then [digit_char n] else show_nat (n div 10) @ [digit_char (n mod 10)])"

declare show_nat.simps [simp del]

definition show_int :: "int \<Rightarrow> string" where
  "show_int i = (if i < 0 then CHR ''-'' # show_nat (nat (- i)) else show_nat (nat i))"

definition digit_value :: "char \<Rightarrow> nat option" where
  "digit_value c = (let n = of_char c :: nat in if 48 \<le> n \<and> n \<le> 57 then Some (n - 48) else None)"

fun read_digits :: "nat \<Rightarrow> string \<Rightarrow> nat option" where
  "read_digits acc [] = Some acc"
| "read_digits acc (c # cs) =
     (case digit_value c of None \<Rightarrow> None | Some d \<Rightarrow> read_digits (10 * acc + d) cs)"

definition read_nat :: "string \<Rightarrow> nat option" where
  "read_nat s = (if s = [] then None else read_digits 0 s)"

lemma digit_value_char: "d < 10 \<Longrightarrow> digit_value (digit_char d) = Some d"
  by (simp add: digit_value_def digit_char_def of_char_of)

lemma read_digits_append:
  "read_digits acc (s @ t) = (case read_digits acc s of None \<Rightarrow> None | Some n \<Rightarrow> read_digits n t)"
  by (induction s arbitrary: acc) (auto split: option.split)

lemma read_digits_show_nat: "read_digits 0 (show_nat n) = Some n"
proof (induction n rule: show_nat.induct)
  case (1 n)
  show ?case
  proof (cases "n < 10")
    case True
    then show ?thesis by (simp add: show_nat.simps [of n] digit_value_char)
  next
    case False
    with 1 show ?thesis
      by (simp add: show_nat.simps [of n] read_digits_append digit_value_char)
  qed
qed

lemma show_nat_not_Nil [simp]: "show_nat n \<noteq> []"
  by (subst show_nat.simps) simp

lemma read_nat_show_nat [simp]: "read_nat (show_nat n) = Some n"
  by (simp add: read_nat_def read_digits_show_nat)

lemma show_nat_inject [simp]: "show_nat m = show_nat n \<longleftrightarrow> m = n"
  by (metis option.inject read_nat_show_nat)

lemma show_nat_digits: "c \<in> set (show_nat n) \<Longrightarrow> digit_value c \<noteq> None"
proof (induction n rule: show_nat.induct)
  case (1 n)
  then show ?case
    by (cases "n < 10") (auto simp: show_nat.simps [of n] digit_value_char)
qed

lemma dot_not_in_show_nat [simp]: "CHR ''.'' \<notin> set (show_nat n)"
  using show_nat_digits by (fastforce simp: digit_value_def)

subsection \<open>Dates\<close>

text \<open>
  \<^verbatim>\<open>Date.prototype.toJSON\<close>: the ISO 8601 form of a time stamp, in UTC with milliseconds, for the years
  0 to 9999. The calendar date is computed in eras of 400 years that start on the first of March.
\<close>

definition pad_nat :: "nat \<Rightarrow> nat \<Rightarrow> string" where
  "pad_nat w n = (let d = show_nat n in replicate (w - length d) (CHR ''0'') @ d)"

definition civil_date :: "int \<Rightarrow> int \<times> int \<times> int" where
  "civil_date days =
     (let z = days + 719468; era = z div 146097; doe = z mod 146097;
          yoe = (doe - doe div 1460 + doe div 36524 - doe div 146096) div 365;
          doy = doe - (365 * yoe + yoe div 4 - yoe div 100);
          mp = (5 * doy + 2) div 153;
          d = doy - (153 * mp + 2) div 5 + 1;
          m = (if mp < 10 then mp + 3 else mp - 9)
      in (yoe + era * 400 + (if m \<le> 2 then 1 else 0), m, d))"

definition iso_date :: "timestamp \<Rightarrow> string" where
  "iso_date t =
     (let (y, m, d) = civil_date (t div 86400000); ms = t mod 86400000
      in pad_nat 4 (nat y) @ ''-'' @ pad_nat 2 (nat m) @ ''-'' @ pad_nat 2 (nat d) @ ''T''
         @ pad_nat 2 (nat (ms div 3600000)) @ '':'' @ pad_nat 2 (nat (ms div 60000 mod 60)) @ '':''
         @ pad_nat 2 (nat (ms div 1000 mod 60)) @ ''.'' @ pad_nat 3 (nat (ms mod 1000)) @ ''Z'')"

definition json_date :: "timestamp option \<Rightarrow> json" where
  "json_date t = (case t of None \<Rightarrow> JNull | Some t \<Rightarrow> JStr (iso_date t))"

subsection \<open>Runs of a transition system\<close>

text \<open>What every step keeps, every run keeps.\<close>

locale run_invariant =
  fixes step :: "'s \<Rightarrow> 's \<Rightarrow> bool" and inv :: "'s \<Rightarrow> bool"
  assumes step_keeps: "step s s' \<Longrightarrow> inv s \<Longrightarrow> inv s'"
begin

lemma run_keeps: "step\<^sup>*\<^sup>* s s' \<Longrightarrow> inv s \<Longrightarrow> inv s'"
  by (induction rule: rtranclp_induct) (auto intro: step_keeps)

end

end
