(* ===== verification/Concurrency.thy ===== *)
theory Concurrency
  imports Prelude
begin

section \<open>Concurrency: the limiter, its tuner and the dispatch slots\<close>

text \<open>
  \<^verbatim>\<open>apps/orchestrator/src/loop\<close>: \<^verbatim>\<open>concurrency-limiter.ts\<close>, \<^verbatim>\<open>concurrency-tuner.ts\<close>,
  \<^verbatim>\<open>cgroup-metrics.ts\<close>, and the slot handling of \<^verbatim>\<open>loop.service.ts\<close> (the dispatch loop of \<^verbatim>\<open>tick\<close>,
  \<^verbatim>\<open>dispatchPipeline\<close>, \<^verbatim>\<open>dispatchJob\<close>) and \<^verbatim>\<open>recovery.service.ts\<close>
  (\<^verbatim>\<open>releaseInFlightDispatchForWatchdog\<close>). Fractions and thresholds are rationals.
\<close>

subsection \<open>The limiter\<close>

record limiter =
  inFlight :: int
  limit :: int

definition newLimiter :: "int \<Rightarrow> string + limiter" where
  "newLimiter n =
     (if n < 1 then Inl ''Concurrency limit must be >= 1'' else Inr \<lparr>inFlight = 0, limit = n\<rparr>)"

definition hasCapacity :: "limiter \<Rightarrow> bool" where
  "hasCapacity l = (inFlight l < limit l)"

definition tryAcquire :: "limiter \<Rightarrow> bool \<times> limiter" where
  "tryAcquire l = (if limit l \<le> inFlight l then (False, l) else (True, l\<lparr>inFlight := inFlight l + 1\<rparr>))"

definition release_slot :: "limiter \<Rightarrow> string + limiter" where
  "release_slot l =
     (if inFlight l \<le> 0 then Inl ''ConcurrencyLimiter: release called with no in-flight tasks''
      else Inr (l\<lparr>inFlight := inFlight l - 1\<rparr>))"

definition setLimit :: "int \<Rightarrow> limiter \<Rightarrow> string + limiter" where
  "setLimit n l = (if n < 1 then Inl ''Concurrency limit must be >= 1'' else Inr (l\<lparr>limit := n\<rparr>))"

text \<open>
  \<^verbatim>\<open>drain\<close> polls: the list holds the time and the number of tasks in flight at each test of the loop;
  \<open>None\<close> is a call that still waits.
\<close>

fun drain_until :: "timestamp \<Rightarrow> (timestamp \<times> int) list \<Rightarrow> bool option" where
  "drain_until deadline [] = None"
| "drain_until deadline ((t, n) # polls) =
     (if \<not> 0 < n then Some True
      else if deadline \<le> t then Some False
      else drain_until deadline polls)"

definition drain :: "int \<Rightarrow> timestamp \<Rightarrow> (timestamp \<times> int) list \<Rightarrow> bool option" where
  "drain timeoutMs start polls = drain_until (start + timeoutMs) polls"

subsection \<open>Cgroup metrics\<close>

record cgroup_metrics =
  cpuUsage :: "rat option"
  memoryUsage :: "rat option"
  available :: bool

record metrics_reader =
  lastCpuUsec :: "nat option"
  lastTimestamp :: "timestamp option"

definition is_space :: "char \<Rightarrow> bool" where
  "is_space c = ((of_char c :: nat) \<in> {9, 10, 11, 12, 13, 32, 160})"

definition is_digit :: "char \<Rightarrow> bool" where
  "is_digit c = (digit_value c \<noteq> None)"

definition js_trim :: "string \<Rightarrow> string" where
  "js_trim t = rev (dropWhile is_space (rev (dropWhile is_space t)))"

lemma js_trim_id:
  assumes "t \<noteq> []" "\<not> is_space (hd t)" "\<not> is_space (last t)"
  shows "js_trim t = t"
proof -
  have d: "dropWhile is_space t = t" using assms(1,2) by (cases t) auto
  have "dropWhile is_space (rev t) = rev t" using assms(1,3) by (cases t rule: rev_cases) auto
  then show ?thesis by (simp add: js_trim_def d)
qed

text \<open>\<^verbatim>\<open>parseInt(s, 10)\<close>: optional white space and sign, then the longest run of digits; \<open>None\<close> is NaN.\<close>

definition parse_int :: "string \<Rightarrow> int option" where
  "parse_int t =
     (let u = dropWhile is_space t;
          (neg, v) = (case u of
              [] \<Rightarrow> (False, [])
            | c # cs \<Rightarrow> if c = CHR ''-'' then (True, cs) else if c = CHR ''+'' then (False, cs) else (False, u))
      in map_option (\<lambda>n. if neg then - int n else int n) (read_nat (takeWhile is_digit v)))"

text \<open>The match of \<^verbatim>\<open>/usage_usec\s+(\d+)/\<close>: the first position where it matches.\<close>

definition usage_here :: "string \<Rightarrow> nat option" where
  "usage_here t =
     (if starts_with ''usage_usec'' t then
        (let u = drop 10 t in
         if u \<noteq> [] \<and> is_space (hd u) then read_nat (takeWhile is_digit (dropWhile is_space u)) else None)
      else None)"

fun match_usage :: "string \<Rightarrow> nat option" where
  "match_usage [] = None"
| "match_usage (c # cs) = (case usage_here (c # cs) of Some n \<Rightarrow> Some n | None \<Rightarrow> match_usage cs)"

definition readCpuUsage ::
  "string option \<Rightarrow> timestamp \<Rightarrow> metrics_reader \<Rightarrow> rat option \<times> metrics_reader" where
  "readCpuUsage content now r =
     (case content of
        None \<Rightarrow> (None, r)
      | Some text \<Rightarrow>
          (case match_usage text of
             None \<Rightarrow> (None, r)
           | Some currentUsec \<Rightarrow>
               let r' = \<lparr>lastCpuUsec = Some currentUsec, lastTimestamp = Some now\<rparr>
               in (case (lastCpuUsec r, lastTimestamp r) of
                     (Some c, Some t) \<Rightarrow>
                       let cpuDelta = int currentUsec - int c; wallDelta = (now - t) * 1000
                       in if wallDelta \<le> 0 then (None, r')
                          else (Some (min (of_int cpuDelta / of_int wallDelta) 1), r')
                   | _ \<Rightarrow> (None, r'))))"

definition readMemoryUsage :: "string option \<Rightarrow> string option \<Rightarrow> rat option" where
  "readMemoryUsage currentStr maxStr =
     (case (currentStr, maxStr) of
        (Some c, Some m) \<Rightarrow>
          if js_trim m = ''max'' then None
          else (case (parse_int (js_trim c), parse_int (js_trim m)) of
                  (Some cur, Some mx) \<Rightarrow> if mx \<le> 0 then None else Some (of_int cur / of_int mx)
                | _ \<Rightarrow> None)
      | _ \<Rightarrow> None)"

text \<open>The files as they are read, \<open>None\<close> when reading fails; \<open>probe\<close> is the read of \<^verbatim>\<open>isAvailable\<close>.\<close>

definition read_metrics ::
  "string option \<Rightarrow> string option \<Rightarrow> string option \<Rightarrow> string option \<Rightarrow> timestamp \<Rightarrow> metrics_reader \<Rightarrow>
    cgroup_metrics \<times> metrics_reader" where
  "read_metrics probe cpuStat memCurrent memMax now r =
     (if probe = None then (\<lparr>cpuUsage = None, memoryUsage = None, available = False\<rparr>, r)
      else let (cpu, r') = readCpuUsage cpuStat now r
           in (\<lparr>cpuUsage = cpu, memoryUsage = readMemoryUsage memCurrent memMax, available = True\<rparr>, r'))"

subsection \<open>The tuner\<close>

record tuner_config =
  enabled :: bool
  tmin :: int
  tmax :: int
  intervalMs :: int
  cpuThreshold :: rat
  memoryThreshold :: rat

record tuner =
  config :: tuner_config
  running :: bool
  interval :: "int option"
  lastMetrics :: "cgroup_metrics option"
  lastAdjustment :: "timestamp option"
  adjustmentCount :: nat

definition above :: "rat option \<Rightarrow> rat \<Rightarrow> bool" where
  "above v t = (case v of None \<Rightarrow> False | Some x \<Rightarrow> t \<le> x)"

definition well_below :: "rat option \<Rightarrow> rat \<Rightarrow> bool" where
  "well_below v t = (case v of None \<Rightarrow> True | Some x \<Rightarrow> x < t * 7 / 10)"

definition tuned_limit :: "tuner_config \<Rightarrow> cgroup_metrics \<Rightarrow> limiter \<Rightarrow> int" where
  "tuned_limit c m l =
     (let currentLimit = limit l
      in if above (cpuUsage m) (cpuThreshold c) \<or> above (memoryUsage m) (memoryThreshold c)
         then max (tmin c) (currentLimit - 1)
         else if \<not> hasCapacity l \<or> currentLimit \<le> inFlight l then
           (if well_below (cpuUsage m) (cpuThreshold c) \<and> well_below (memoryUsage m) (memoryThreshold c)
            then min (tmax c) (currentLimit + 1) else currentLimit)
         else currentLimit)"

text \<open>One iteration on the metrics that were read; an error of \<^verbatim>\<open>setLimit\<close> rejects the promise.\<close>

definition tuner_tick ::
  "cgroup_metrics \<Rightarrow> timestamp \<Rightarrow> tuner \<Rightarrow> limiter \<Rightarrow> (string + unit) \<times> tuner \<times> limiter" where
  "tuner_tick m now t l =
     (let t1 = t\<lparr>lastMetrics := Some m\<rparr>
      in if \<not> available m then (Inr (), t1, l)
         else let newLimit = tuned_limit (config t) m l
              in if newLimit = limit l then (Inr (), t1, l)
                 else case setLimit newLimit l of
                     Inl e \<Rightarrow> (Inl e, t1, l)
                   | Inr l' \<Rightarrow>
                       (Inr (), t1\<lparr>lastAdjustment := Some now, adjustmentCount := adjustmentCount t + 1\<rparr>, l'))"

definition tuner_start :: "tuner \<Rightarrow> tuner" where
  "tuner_start t =
     (if \<not> enabled (config t) \<or> running t then t
      else t\<lparr>running := True, interval := Some (intervalMs (config t))\<rparr>)"

definition tuner_stop :: "tuner \<Rightarrow> tuner" where
  "tuner_stop t = t\<lparr>interval := None, running := False\<rparr>"

text \<open>\<^verbatim>\<open>updateConfig\<close> with the merged configuration and the interval the caller passed, if any.\<close>

definition updateConfig :: "tuner_config \<Rightarrow> int option \<Rightarrow> tuner \<Rightarrow> tuner" where
  "updateConfig merged newInterval t =
     (let wasEnabled = enabled (config t);
          t1 = t\<lparr>config := merged\<rparr>;
          t2 = (if enabled merged \<and> \<not> wasEnabled then tuner_start t1
                else if \<not> enabled merged \<and> wasEnabled then tuner_stop t1 else t1)
      in (case newInterval of
            None \<Rightarrow> t2
          | Some i \<Rightarrow> if i \<noteq> 0 \<and> running t2 then tuner_start (tuner_stop t2) else t2))"

subsection \<open>The semaphore interface\<close>

text \<open>What the dispatch loop relies on: a slot is granted below the limit only, and counting is exact.\<close>

locale semaphore =
  fixes count :: "'l \<Rightarrow> int"
    and cap :: "'l \<Rightarrow> int"
    and acquire :: "'l \<Rightarrow> bool \<times> 'l"
    and free :: "'l \<Rightarrow> 'e + 'l"
  assumes acquire_iff: "fst (acquire l) \<longleftrightarrow> count l < cap l"
    and acquire_count: "count (snd (acquire l)) = count l + (if fst (acquire l) then 1 else 0)"
    and acquire_cap: "cap (snd (acquire l)) = cap l"
    and free_ok: "0 < count l \<Longrightarrow> \<exists>l'. free l = Inr l' \<and> count l' = count l - 1 \<and> cap l' = cap l"
    and free_error: "count l \<le> 0 \<Longrightarrow> \<exists>e. free l = Inl e"
begin

lemma acquire_free:
  assumes "fst (acquire l)" and "0 \<le> count l"
  shows "\<exists>l'. free (snd (acquire l)) = Inr l' \<and> count l' = count l \<and> cap l' = cap l"
  using free_ok [of "snd (acquire l)"] acquire_count [of l] acquire_cap [of l] assms by auto

lemma acquire_bound: "count l \<le> cap l \<Longrightarrow> count (snd (acquire l)) \<le> cap (snd (acquire l))"
  using acquire_iff [of l] acquire_count [of l] acquire_cap [of l] by auto

end

interpretation slots: semaphore inFlight limit tryAcquire release_slot
  by unfold_locales (auto simp: tryAcquire_def release_slot_def)

lemma hasCapacity_acquire: "hasCapacity l \<longleftrightarrow> fst (tryAcquire l)"
  by (simp add: hasCapacity_def slots.acquire_iff)

end
