(* ===== verification/Job_Model.thy ===== *)
theory Job_Model
  imports Prelude
begin

section \<open>The job store: tables and rows\<close>

text \<open>
  The rows of \<^verbatim>\<open>jobs\<close>, \<^verbatim>\<open>job_attempts\<close>, \<^verbatim>\<open>job_relations\<close>, \<^verbatim>\<open>job_gates\<close>, \<^verbatim>\<open>audit_log\<close>,
  \<^verbatim>\<open>pipeline_runs\<close>, \<^verbatim>\<open>pipeline_step_runs\<close> and \<^verbatim>\<open>execution_logs\<close> as the types of
  \<^verbatim>\<open>packages/db/src/queries\<close> and the migrations declare them, the columns of \<^verbatim>\<open>thread_messages\<close> the loop reads,
  and the database state \<open>db\<close>. Column names carry the table's first letter (\<open>j_id\<close> is \<^verbatim>\<open>jobs.id\<close>). The columns of a job
  that only \<^verbatim>\<open>create\<close> writes and no operation of the store reads are the record \<open>job_spec\<close>.

  The clock and \<^verbatim>\<open>gen_random_uuid()\<close> belong to Postgres: an operation takes the time \<open>now\<close> at which
  it runs and the identifier a new row gets as arguments. The statements of one call read one value
  of the clock.
\<close>

datatype phase = Idea | Backlog | Ready | Active | Review | Done | Cancelled

datatype review_required = ReviewNone | ReviewHuman | ReviewAgent

datatype review_status = ReviewPending | ReviewApproved | ReviewRejected

datatype attempt_status = AttPending | AttRunning | AttSucceeded | AttFailed | AttCancelled

datatype trigger_type = TriggerManual | TriggerAutoRetry | TriggerScheduled

datatype execution_type = ExecAgent | ExecScript | ExecAction

datatype failure_disposition = DispCancelled | DispFailed | DispUpstreamFailed

datatype relation_type = Blocks | Conditional_blocks | Waits_for | Related | Discovered_from

fun phase_name :: "phase \<Rightarrow> string" where
  "phase_name Idea = ''idea''"
| "phase_name Backlog = ''backlog''"
| "phase_name Ready = ''ready''"
| "phase_name Active = ''active''"
| "phase_name Review = ''review''"
| "phase_name Done = ''done''"
| "phase_name Cancelled = ''cancelled''"

fun review_status_name :: "review_status \<Rightarrow> string" where
  "review_status_name ReviewPending = ''pending''"
| "review_status_name ReviewApproved = ''approved''"
| "review_status_name ReviewRejected = ''rejected''"

definition terminal_phase :: "phase \<Rightarrow> bool" where
  "terminal_phase p = (p \<in> {Done, Cancelled})"

definition blocking_relation :: "relation_type \<Rightarrow> bool" where
  "blocking_relation t = (t \<in> {Blocks, Conditional_blocks, Waits_for})"

definition relation_type_of :: "string \<Rightarrow> relation_type option" where
  "relation_type_of s =
     (if s = ''blocks'' then Some Blocks
      else if s = ''conditional_blocks'' then Some Conditional_blocks
      else if s = ''waits_for'' then Some Waits_for
      else if s = ''related'' then Some Related
      else if s = ''discovered_from'' then Some Discovered_from
      else None)"

record job_git =
  git_ref :: "string option"
  git_ref_policy :: "string option"
  git_branch :: "string option"
  git_create_branch :: "string option"
  git_commit :: "string option"
  git_commit_message :: "string option"
  git_push :: "string option"
  git_remote :: "string option"

record job_spec =
  sp_title :: string
  sp_description :: "string option"
  sp_issue_type :: string
  sp_due_at :: "timestamp option"
  sp_harness_profile :: "string option"
  sp_harness_options :: "json option"
  sp_harness_profile_override :: "json option"
  sp_env_overrides :: "json option"
  sp_token_scope :: "json option"
  sp_token_permissions :: "string list option"
  sp_workspace_json :: "json option"
  sp_execution_mode :: string
  sp_action_input :: "json option"
  sp_script_command :: "string option"
  sp_script_timeout_seconds :: "rat option"
  sp_target :: "json option"
  sp_resource_refs :: "json list"
  sp_content_hash :: "string option"
  sp_actor_user_id :: "string option"

record job =
  j_id :: string
  j_project_id :: string
  j_parent_id :: "string option"
  j_depth :: int
  j_labels :: "string list"
  j_phase :: phase
  j_priority :: int
  j_assignee :: "string option"
  j_review_required :: review_required
  j_review_status :: "review_status option"
  j_reviewer :: "string option"
  j_defer_until :: "timestamp option"
  j_ready_at :: "timestamp option"
  j_hints :: jobject
  j_harness :: "string option"
  j_harness_profile_source :: "string option"
  j_harness_profile_hash :: "string option"
  j_git_json :: "job_git option"
  j_resolved_git_json :: "json option"
  j_blocked_on_gates :: "string list"
  j_env_name :: "string option"
  j_execution_type :: execution_type
  j_run_id :: "string option"
  j_step_name :: "string option"
  j_action_type :: "string option"
  j_failure_disposition :: "failure_disposition option"
  j_created_at :: timestamp
  j_updated_at :: timestamp
  j_closed_at :: "timestamp option"
  j_close_reason :: "string option"
  j_spec :: job_spec

record attempt =
  a_id :: string
  a_job_id :: string
  a_attempt_number :: int
  a_status :: attempt_status
  a_trigger_type :: trigger_type
  a_harness :: "string option"
  a_agent_id :: "string option"
  a_started_at :: timestamp
  a_execution_started_at :: "timestamp option"
  a_ended_at :: "timestamp option"
  a_result_summary :: "string option"
  a_runtime_meta :: jobject
  a_git_json :: "json option"
  a_exit_code :: "int option"
  a_result_text :: "string option"
  a_result_json :: "jobject option"
  a_duration_ms :: "int option"
  a_token_input :: "int option"
  a_token_output :: "int option"
  a_error_message :: "string option"
  a_receipt_json :: "json option"
  a_receipt_base_total_usd :: "rat option"
  a_receipt_billed_total :: "rat option"
  a_receipt_billed_currency :: "string option"
  a_harness_profile_source :: "string option"
  a_harness_profile_hash :: "string option"

record job_relation =
  r_id :: string
  r_job_id :: string
  r_related_job_id :: string
  r_relation_type :: relation_type

record job_gate =
  g_gate_key :: string
  g_job_id :: string
  g_acquired_at :: timestamp
  g_ttl_expires_at :: timestamp
  g_context :: jobject

record audit_entry =
  l_entity_type :: string
  l_entity_id :: string
  l_action :: string
  l_actor :: "string option"
  l_actor_type :: string
  l_changes :: jobject
  l_context :: jobject
  l_created_at :: timestamp

record project =
  p_id :: string
  p_slug :: string
  p_org_id :: string

record pipeline_run =
  pr_id :: string
  pr_project_id :: string
  pr_pipeline_name :: string
  pr_env_name :: "string option"
  pr_git_sha :: "string option"
  pr_manifest_hash :: "string option"
  pr_inputs_json :: "jobject option"
  pr_step_outputs_json :: "jobject option"
  pr_status :: string
  pr_started_at :: "timestamp option"
  pr_completed_at :: "timestamp option"
  pr_error_message :: "string option"
  pr_requested_by :: "string option"
  pr_run_mode :: "string option"
  pr_dedupe_key :: "string option"
  pr_created_at :: timestamp
  pr_updated_at :: timestamp

record step_run =
  st_id :: string
  st_pipeline_run_id :: string
  st_step_index :: int
  st_step_name :: string
  st_step_type :: string
  st_status :: string
  st_started_at :: "timestamp option"
  st_completed_at :: "timestamp option"
  st_error_message :: "string option"
  st_logs_ref :: "string option"
  st_input_json :: "jobject option"
  st_output_json :: "jobject option"
  st_result_text :: "string option"
  st_result_json :: "jobject option"
  st_exit_code :: "int option"
  st_duration_ms :: "int option"
  st_created_at :: timestamp
  st_updated_at :: timestamp

record execution_log =
  e_id :: string
  e_attempt_id :: "string option"
  e_step_run_id :: "string option"
  e_seq :: int
  e_type :: string
  e_content :: jobject
  e_created_at :: timestamp

record thread_message =
  m_thread_id :: string
  m_created_at :: timestamp

record db =
  jobs :: "job list"
  job_attempts :: "attempt list"
  job_relations :: "job_relation list"
  job_gates :: "job_gate list"
  audit_log :: "audit_entry list"
  projects :: "project list"
  pipeline_runs :: "pipeline_run list"
  pipeline_step_runs :: "step_run list"
  execution_logs :: "execution_log list"
  thread_messages :: "thread_message list"

text \<open>Errors Postgres raises for a statement that breaks a constraint of the schema.\<close>

datatype db_error =
    Unique_violation
  | Foreign_key_violation
  | Check_violation
  | Numeric_out_of_range
  | String_too_long
  | Invalid_text_representation

text \<open>What a method throws: an error of its own, with its message, or the database's.\<close>

datatype exn = Error string | Db_error db_error

subsection \<open>JSON fragments of the audit log\<close>

definition json_opt :: "string option \<Rightarrow> json" where
  "json_opt v = (case v of None \<Rightarrow> JNull | Some s \<Rightarrow> JStr s)"

definition change :: "json \<Rightarrow> json \<Rightarrow> json" where
  "change old new = JObj [(''old'', old), (''new'', new)]"

definition phase_json :: "phase \<Rightarrow> json" where
  "phase_json p = JStr (phase_name p)"

definition audit ::
  "string \<Rightarrow> string \<Rightarrow> string \<Rightarrow> string \<Rightarrow> string \<Rightarrow> jobject \<Rightarrow> jobject \<Rightarrow> timestamp \<Rightarrow> db \<Rightarrow> db"
where
  "audit entity_type entity_id action actor actor_type changes context now s =
     s\<lparr>audit_log := audit_log s @
        [\<lparr>l_entity_type = entity_type, l_entity_id = entity_id, l_action = action,
          l_actor = Some actor, l_actor_type = actor_type, l_changes = changes,
          l_context = context, l_created_at = now\<rparr>]\<rparr>"

lemma audit_frame [simp]:
  "jobs (audit a b c d e f g n s) = jobs s"
  "job_attempts (audit a b c d e f g n s) = job_attempts s"
  "job_relations (audit a b c d e f g n s) = job_relations s"
  "job_gates (audit a b c d e f g n s) = job_gates s"
  "projects (audit a b c d e f g n s) = projects s"
  "pipeline_runs (audit a b c d e f g n s) = pipeline_runs s"
  "pipeline_step_runs (audit a b c d e f g n s) = pipeline_step_runs s"
  "execution_logs (audit a b c d e f g n s) = execution_logs s"
  "thread_messages (audit a b c d e f g n s) = thread_messages s"
  by (simp_all add: audit_def)

subsection \<open>Row access and statement helpers\<close>

definition findById :: "string \<Rightarrow> db \<Rightarrow> job option" where
  "findById jobId s = find_row (\<lambda>j. j_id j = jobId) (jobs s)"

definition update_jobs :: "(job \<Rightarrow> bool) \<Rightarrow> (job \<Rightarrow> job) \<Rightarrow> db \<Rightarrow> db" where
  "update_jobs P f s = s\<lparr>jobs := update_where P f (jobs s)\<rparr>"

definition update_attempts :: "(attempt \<Rightarrow> bool) \<Rightarrow> (attempt \<Rightarrow> attempt) \<Rightarrow> db \<Rightarrow> db" where
  "update_attempts P f s = s\<lparr>job_attempts := update_where P f (job_attempts s)\<rparr>"

definition attempts_of :: "string \<Rightarrow> db \<Rightarrow> attempt list" where
  "attempts_of jobId s = filter (\<lambda>a. a_job_id a = jobId) (job_attempts s)"

text \<open>
  \<^verbatim>\<open>INSERT INTO job_attempts\<close>: \<^verbatim>\<open>attempt_number\<close> is a SMALLINT, \<^verbatim>\<open>id\<close> the primary key,
  \<^verbatim>\<open>(job_id, attempt_number)\<close> unique and \<^verbatim>\<open>job_id\<close> a reference to \<^verbatim>\<open>jobs\<close>.
\<close>

definition smallint :: "int \<Rightarrow> bool" where
  "smallint n = (- 32768 \<le> n \<and> n \<le> 32767)"

definition insert_attempt :: "attempt \<Rightarrow> db \<Rightarrow> db_error + db" where
  "insert_attempt a s =
     (if \<not> smallint (a_attempt_number a) then Inl Numeric_out_of_range
      else if exists_row (\<lambda>b. a_id b = a_id a \<or>
          (a_job_id b = a_job_id a \<and> a_attempt_number b = a_attempt_number a)) (job_attempts s)
        then Inl Unique_violation
      else if \<not> exists_row (\<lambda>j. j_id j = a_job_id a) (jobs s) then Inl Foreign_key_violation
      else Inr (s\<lparr>job_attempts := job_attempts s @ [a]\<rparr>))"

lemma update_frame [simp]:
  "jobs (update_jobs P f s) = update_where P f (jobs s)"
  "job_attempts (update_jobs P f s) = job_attempts s"
  "job_relations (update_jobs P f s) = job_relations s"
  "job_gates (update_jobs P f s) = job_gates s"
  "audit_log (update_jobs P f s) = audit_log s"
  "projects (update_jobs P f s) = projects s"
  "jobs (update_attempts Q g s) = jobs s"
  "job_attempts (update_attempts Q g s) = update_where Q g (job_attempts s)"
  "job_relations (update_attempts Q g s) = job_relations s"
  "job_gates (update_attempts Q g s) = job_gates s"
  "audit_log (update_attempts Q g s) = audit_log s"
  "projects (update_attempts Q g s) = projects s"
  "pipeline_runs (update_jobs P f s) = pipeline_runs s"
  "pipeline_step_runs (update_jobs P f s) = pipeline_step_runs s"
  "execution_logs (update_jobs P f s) = execution_logs s"
  "thread_messages (update_jobs P f s) = thread_messages s"
  "pipeline_runs (update_attempts Q g s) = pipeline_runs s"
  "pipeline_step_runs (update_attempts Q g s) = pipeline_step_runs s"
  "execution_logs (update_attempts Q g s) = execution_logs s"
  "thread_messages (update_attempts Q g s) = thread_messages s"
  by (simp_all add: update_jobs_def update_attempts_def)

lemma findById_Some: "findById i s = Some j \<Longrightarrow> j \<in> set (jobs s) \<and> j_id j = i"
  unfolding findById_def using find_row_Some by fastforce

lemma findById_frame [simp]:
  "findById i (update_attempts Q g s) = findById i s"
  "findById i (audit a b c d e f h n s) = findById i s"
  by (simp_all add: findById_def)

lemma findById_update_jobs [table_simps]:
  assumes "\<And>j. P j \<Longrightarrow> j_id (f j) = j_id j"
  shows "findById i (update_jobs P f s) = map_option (\<lambda>j. if P j then f j else j) (findById i s)"
  using find_row_update_where [where k = j_id and P = P and f = f, OF assms]
  by (simp add: findById_def)

lemma findById_gates [simp]: "findById i (s\<lparr>job_gates := g\<rparr>) = findById i s"
  by (simp add: findById_def)

lemma terminal_phase_simps [simp]:
  "terminal_phase Done" "terminal_phase Cancelled" "\<not> terminal_phase Idea"
  "\<not> terminal_phase Backlog" "\<not> terminal_phase Ready" "\<not> terminal_phase Active"
  "\<not> terminal_phase Review"
  by (simp_all add: terminal_phase_def)

end
