(* ===== verification/Loop_Control.thy ===== *)
theory Loop_Control
  imports Concurrency Job_Model "HOL-Library.Char_ord" "HOL-Library.List_Lexorder"
begin

section \<open>Control decisions of the loop\<close>

text \<open>
  The functions at the head of \<^verbatim>\<open>apps/orchestrator/src/loop/loop.service.ts\<close>, \<^verbatim>\<open>job-gates.ts\<close>,
  \<^verbatim>\<open>readPositiveTimeoutSeconds\<close> of \<^verbatim>\<open>packages/shared/src/lib/timing.ts\<close> and \<^verbatim>\<open>resolveHarnessName\<close> of
  \<^verbatim>\<open>packages/shared/src/harnesses/registry.ts\<close>. JavaScript numbers are rationals (the rounding of doubles is
  left out), strings are over 8-bit characters, \<^verbatim>\<open>undefined\<close> and \<^verbatim>\<open>null\<close> are \<open>None\<close>.
\<close>

subsection \<open>Timeouts and intervals\<close>

definition WAITING_BACKOFF_MS :: int where
  "WAITING_BACKOFF_MS = 15000"

definition readPositiveNumber :: "json option \<Rightarrow> rat option" where
  "readPositiveNumber v = (case v of Some (JNum n) \<Rightarrow> if n < 0 then None else Some n | _ \<Rightarrow> None)"

text \<open>
  \<^verbatim>\<open>/^\d+(\.\d+)?$/\<close> and the value \<^verbatim>\<open>parseFloat\<close> gives for a string that matches it.
\<close>

definition decimal :: "string \<Rightarrow> rat option" where
  "decimal t =
     (let ds = takeWhile is_digit t; rest = dropWhile is_digit t
      in if ds = [] then None
         else case rest of
             [] \<Rightarrow> map_option (\<lambda>n. of_nat n) (read_nat ds)
           | c # fs \<Rightarrow>
               if c = CHR ''.'' \<and> fs \<noteq> [] \<and> list_all is_digit fs
               then (case (read_nat ds, read_nat fs) of
                       (Some n, Some f) \<Rightarrow> Some (of_nat n + of_nat f / 10 ^ length fs)
                     | _ \<Rightarrow> None)
               else None)"

definition readPositiveTimeoutSeconds :: "json option \<Rightarrow> rat option" where
  "readPositiveTimeoutSeconds v =
     (case v of
        Some (JNum n) \<Rightarrow> if 0 < n then Some n else None
      | Some (JStr t) \<Rightarrow>
          (case decimal (js_trim t) of
             None \<Rightarrow> None
           | Some parsed \<Rightarrow> if 0 < parsed then Some parsed else None)
      | _ \<Rightarrow> None)"

definition or_default :: "'a \<Rightarrow> 'a option \<Rightarrow> 'a" where
  "or_default d v = (case v of None \<Rightarrow> d | Some x \<Rightarrow> x)"

definition resolveWorkerPollTimeoutMs :: "job \<Rightarrow> execution_type \<Rightarrow> rat" where
  "resolveWorkerPollTimeoutMs job executionType =
     (let hintTimeoutSeconds = readPositiveTimeoutSeconds (obj_get (j_hints job) ''timeout_seconds'')
      in if executionType = ExecScript then
           or_default 1800 (coalesce
             (readPositiveTimeoutSeconds (map_option JNum (sp_script_timeout_seconds (j_spec job))))
             hintTimeoutSeconds) * 1000 + 60000
         else if executionType = ExecAction \<and> j_action_type job = Some ''run'' then
           (let actionInput = or_default (JObj []) (sp_action_input (j_spec job))
            in or_default 1800 (coalesce (readPositiveTimeoutSeconds (json_get actionInput ''timeout_seconds''))
                 (coalesce (readPositiveTimeoutSeconds (json_get actionInput ''timeout''))
                   hintTimeoutSeconds)) * 1000 + 60000)
         else or_default 1800 hintTimeoutSeconds * 1000)"

text \<open>\<^verbatim>\<open>Math.round\<close> rounds halves up.\<close>

definition js_round :: "rat \<Rightarrow> int" where
  "js_round x = \<lfloor>x + 1 / 2\<rfloor>"

definition ticksForIntervalMs :: "rat \<Rightarrow> rat \<Rightarrow> int" where
  "ticksForIntervalMs loopIntervalMs targetIntervalMs =
     (let safeLoopMs = max 100 loopIntervalMs; safeTargetMs = max safeLoopMs targetIntervalMs
      in max 1 (js_round (safeTargetMs / safeLoopMs)))"

subsection \<open>What the worker asked for\<close>

datatype control_status = CtlWaiting | CtlSuccess | CtlFailed | CtlPrepared

record eve_control =
  ec_status :: "control_status option"
  ec_summary :: "string option"
  ec_wakeOn :: "string list option"

definition lower_char :: "char \<Rightarrow> char" where
  "lower_char c = (let n = of_char c :: nat in if 65 \<le> n \<and> n \<le> 90 then char_of (n + 32) else c)"

definition to_lower :: "string \<Rightarrow> string" where
  "to_lower t = map lower_char t"

definition control_status_of :: "string \<Rightarrow> control_status option" where
  "control_status_of t =
     (if t = ''waiting'' then Some CtlWaiting
      else if t = ''success'' then Some CtlSuccess
      else if t = ''failed'' then Some CtlFailed
      else if t = ''prepared'' then Some CtlPrepared
      else None)"

fun strings_of :: "json list \<Rightarrow> string list" where
  "strings_of [] = []"
| "strings_of (JStr t # vs) = t # strings_of vs"
| "strings_of (_ # vs) = strings_of vs"

definition no_control :: eve_control where
  "no_control = \<lparr>ec_status = None, ec_summary = None, ec_wakeOn = None\<rparr>"

definition is_object :: "json \<Rightarrow> bool" where
  "is_object v = (case v of JObj _ \<Rightarrow> True | JArr _ \<Rightarrow> True | _ \<Rightarrow> False)"

definition wake_on_of :: "json \<Rightarrow> string list option" where
  "wake_on_of eve =
     (case json_get eve ''wait'' of
        Some wait \<Rightarrow>
          if is_object wait then
            (case json_get wait ''wake_on'' of Some (JArr vs) \<Rightarrow> Some (strings_of vs) | _ \<Rightarrow> None)
          else None
      | None \<Rightarrow> None)"

definition extractEveControl :: "jobject option \<Rightarrow> eve_control" where
  "extractEveControl resultJson =
     (case resultJson of
        None \<Rightarrow> no_control
      | Some o' \<Rightarrow>
          (case obj_get o' ''eve'' of
             None \<Rightarrow> no_control
           | Some eve \<Rightarrow>
               if \<not> is_object eve then no_control
               else
                 let statusRaw = json_string (json_get eve ''status'');
                     summary = json_string (json_get eve ''summary'')
                 in (case Option.bind (map_option to_lower statusRaw) control_status_of of
                       Some st \<Rightarrow> \<lparr>ec_status = Some st, ec_summary = summary, ec_wakeOn = wake_on_of eve\<rparr>
                     | None \<Rightarrow> \<lparr>ec_status = None, ec_summary = summary, ec_wakeOn = None\<rparr>)))"

record harness_result =
  hr_success :: bool
  hr_exitCode :: int
  hr_resultText :: "string option"
  hr_resultJson :: "jobject option"
  hr_durationMs :: "int option"
  hr_tokenInput :: "int option"
  hr_tokenOutput :: "int option"
  hr_error :: "string option"

definition resolveOrchestrationOutcome :: "bool \<Rightarrow> control_status option \<Rightarrow> control_status" where
  "resolveOrchestrationOutcome result_success status =
     (case status of Some st \<Rightarrow> st | None \<Rightarrow> if result_success then CtlSuccess else CtlFailed)"

definition computeWaitingDeferUntil :: "bool \<Rightarrow> timestamp \<Rightarrow> timestamp option" where
  "computeWaitingDeferUntil blocked now = (if blocked then None else Some (now + WAITING_BACKOFF_MS))"

subsection \<open>Harness specifications\<close>

definition HARNESS_REGISTRY :: "(string \<times> string list) list" where
  "HARNESS_REGISTRY =
     [(''mclaude'', []), (''claude'', []), (''zai'', []), (''gemini'', []), (''code'', [''coder'']),
      (''codex'', []), (''pi'', [])]"

definition resolveHarnessName :: "string \<Rightarrow> string option" where
  "resolveHarnessName name =
     (let normalized = to_lower (js_trim name)
      in map_option fst (find_row (\<lambda>(n, aliases). n = normalized \<or> normalized \<in> set aliases) HARNESS_REGISTRY))"

definition parseHarnessSpec :: "string option \<Rightarrow> string option \<times> string option" where
  "parseHarnessSpec spec =
     (let trimmed = js_trim (or_default [] spec)
      in if trimmed = [] then (None, None)
         else
           let harnessName = takeWhile (\<lambda>c. c \<noteq> CHR '':'') trimmed;
               variantRaw = drop (Suc (length harnessName)) trimmed
           in (resolveHarnessName harnessName, if variantRaw = [] then None else Some variantRaw))"

subsection \<open>Gates a job needs\<close>

definition truthy_string :: "string option \<Rightarrow> bool" where
  "truthy_string v = (v \<noteq> None \<and> v \<noteq> Some [])"

definition needsBranchGate :: "job_git option \<Rightarrow> bool" where
  "needsBranchGate gitConfig =
     (case gitConfig of
        None \<Rightarrow> False
      | Some g \<Rightarrow>
          truthy_string (git_branch g) \<and>
          ((truthy_string (git_push g) \<and> git_push g \<noteq> Some ''never'') \<or>
           (truthy_string (git_commit g) \<and> git_commit g \<noteq> Some ''never'' \<and> git_commit g \<noteq> Some ''manual'')))"

definition explicit_gates :: "job \<Rightarrow> string list" where
  "explicit_gates job = (case obj_get (j_hints job) ''gates'' of Some (JArr vs) \<Rightarrow> strings_of vs | _ \<Rightarrow> [])"

definition resolveRequiredJobGates :: "job \<Rightarrow> string list" where
  "resolveRequiredJobGates job =
     (let envGate = (if truthy_string (j_env_name job) \<and> truthy_string (j_action_type job)
                     then [''env:'' @ j_project_id job @ '':'' @ the (j_env_name job)] else []);
          branchGate = (if needsBranchGate (j_git_json job)
                        then [''git:branch:'' @ j_project_id job @ '':'' @ the (git_branch (the (j_git_json job)))]
                        else [])
      in explicit_gates job @ envGate @ branchGate)"

subsection \<open>Scoped paths of the org file system\<close>

text \<open>\<^verbatim>\<open>path.posix.normalize\<close> of an absolute path.\<close>

fun normal_segments :: "string list \<Rightarrow> string list \<Rightarrow> string list" where
  "normal_segments [] acc = rev acc"
| "normal_segments (seg # segs) acc =
     (if seg = [] \<or> seg = ''.'' then normal_segments segs acc
      else if seg = ''..'' then normal_segments segs (tl acc)
      else normal_segments segs (seg # acc))"

definition normalize_absolute :: "string \<Rightarrow> string" where
  "normalize_absolute p =
     (let segs = normal_segments (split_on (CHR ''/'') p) []
      in if segs = [] then ''/''
         else ''/'' @ join_with ''/'' segs @ (if ends_with ''/'' p then ''/'' else []))"

definition strip_slashes :: "string \<Rightarrow> string" where
  "strip_slashes t = rev (dropWhile (\<lambda>c. c = CHR ''/'') (rev t))"

definition normalizeScopedPrefix :: "string \<Rightarrow> string option" where
  "normalizeScopedPrefix prefix =
     (let trimmed = js_trim prefix
      in if trimmed = [] then None
         else
           let wildcard = ends_with ''/**'' trimmed;
               rawBase = (if wildcard then take (length trimmed - 3) trimmed else trimmed);
               normalizedBase = normalize_absolute (if starts_with ''/'' rawBase then rawBase else ''/'' @ rawBase)
           in if ''..'' \<in> set (split_on (CHR ''/'') normalizedBase) then None
              else if wildcard then
                Some (if normalizedBase = ''/'' then ''/**'' else strip_slashes normalizedBase @ ''/**'')
              else Some (if normalizedBase = [] then ''/'' else normalizedBase))"

definition scopePrefixBasePath :: "string \<Rightarrow> string" where
  "scopePrefixBasePath prefix =
     (if prefix = ''/**'' then ''/''
      else if ends_with ''/**'' prefix then
        (let base = strip_slashes (take (length prefix - 3) prefix) in if base = [] then ''/'' else base)
      else prefix)"

definition matchesScopedPrefix :: "string \<Rightarrow> string \<Rightarrow> bool" where
  "matchesScopedPrefix pathValue prefix =
     (if prefix = ''/**'' then True
      else let base = scopePrefixBasePath prefix
           in pathValue = base \<or> starts_with (base @ ''/'') pathValue)"

definition keep_some :: "'a option list \<Rightarrow> 'a list" where
  "keep_some vs = concat (map (\<lambda>v. case v of None \<Rightarrow> [] | Some x \<Rightarrow> [x]) vs)"

definition sorted_set :: "string list \<Rightarrow> string list" where
  "sorted_set vs = sort (remdups vs)"

definition normalizeScopedPrefixes :: "json option \<Rightarrow> string list" where
  "normalizeScopedPrefixes raw =
     (case raw of
        Some (JArr vs) \<Rightarrow> sorted_set (keep_some (map normalizeScopedPrefix (strings_of vs)))
      | _ \<Rightarrow> [])"

record scope_permissions =
  sc_read :: bool
  sc_write :: bool

definition scopeHasOrgFsPermissions :: "string list \<Rightarrow> scope_permissions" where
  "scopeHasOrgFsPermissions permissions =
     (let w = (''orgfs:write'' \<in> set permissions \<or> ''orgfs:admin'' \<in> set permissions)
      in \<lparr>sc_read = (w \<or> ''orgfs:read'' \<in> set permissions), sc_write = w\<rparr>)"

datatype mount_mode = MountNone | MountRead | MountWrite

record mount_context =
  mc_mode :: mount_mode
  mc_allow_prefixes :: "string list"
  mc_read_only_prefixes :: "string list"

definition NO_ORG_FS_MOUNT :: mount_context where
  "NO_ORG_FS_MOUNT = \<lparr>mc_mode = MountNone, mc_allow_prefixes = [], mc_read_only_prefixes = []\<rparr>"

record binding =
  b_role_permissions :: "string list"
  b_scope_json :: "json option"

text \<open>The three sets one binding contributes to: readable, writable and explicitly read-only prefixes.\<close>

definition binding_prefixes :: "binding \<Rightarrow> string list \<times> string list \<times> string list" where
  "binding_prefixes b =
     (let perms = scopeHasOrgFsPermissions (b_role_permissions b);
          orgfsScope = Option.bind (b_scope_json b) (\<lambda>sc. json_get sc ''orgfs'')
      in if \<not> sc_read perms \<or> \<not> json_truthy orgfsScope then ([], [], [])
         else
           let scope = the orgfsScope;
               allowPrefixes = normalizeScopedPrefixes (json_get scope ''allow_prefixes'');
               ro = filter (\<lambda>prefix. list_ex (\<lambda>allow.
                        matchesScopedPrefix (scopePrefixBasePath prefix) allow \<or>
                        matchesScopedPrefix (scopePrefixBasePath allow) prefix) allowPrefixes)
                      (normalizeScopedPrefixes (json_get scope ''read_only_prefixes''))
           in if allowPrefixes = [] then ([], [], [])
              else if sc_write perms then (allowPrefixes, allowPrefixes, ro)
              else (allowPrefixes, [], allowPrefixes @ ro))"

definition deriveOrgFsMountContext :: "binding list \<Rightarrow> mount_context" where
  "deriveOrgFsMountContext bindings =
     (let parts = map binding_prefixes bindings;
          readable = concat (map fst parts);
          writable = concat (map (fst \<circ> snd) parts);
          explicitReadOnly = concat (map (snd \<circ> snd) parts)
      in if readable = [] then NO_ORG_FS_MOUNT
         else \<lparr>mc_mode = (if writable = [] then MountRead else MountWrite),
               mc_allow_prefixes = sorted_set readable,
               mc_read_only_prefixes =
                 sorted_set (explicitReadOnly @ filter (\<lambda>p. p \<notin> set writable) readable)\<rparr>)"

definition deriveOrgFsMountContextFromTokenScope :: "json option \<Rightarrow> mount_context" where
  "deriveOrgFsMountContextFromTokenScope scope =
     (let orgfsScope = Option.bind scope (\<lambda>sc. json_get sc ''orgfs'')
      in if \<not> json_truthy orgfsScope then NO_ORG_FS_MOUNT
         else
           let allowPrefixes = normalizeScopedPrefixes (json_get (the orgfsScope) ''allow_prefixes'');
               readOnlyPrefixes = normalizeScopedPrefixes (json_get (the orgfsScope) ''read_only_prefixes'')
           in if allowPrefixes = [] \<and> readOnlyPrefixes = [] then NO_ORG_FS_MOUNT
              else \<lparr>mc_mode = (if allowPrefixes = [] then MountRead else MountWrite),
                    mc_allow_prefixes = sorted_set (allowPrefixes @ readOnlyPrefixes),
                    mc_read_only_prefixes = readOnlyPrefixes\<rparr>)"

subsection \<open>Laws\<close>

definition plain_segment :: "string \<Rightarrow> bool" where
  "plain_segment seg = (seg \<noteq> [] \<and> seg \<noteq> ''.'' \<and> seg \<noteq> ''..'' \<and> CHR ''/'' \<notin> set seg)"

lemma normal_segments_plain:
  "\<lbrakk>\<And>seg. seg \<in> set segs \<Longrightarrow> CHR ''/'' \<notin> set seg; list_all plain_segment acc\<rbrakk> \<Longrightarrow>
   list_all plain_segment (normal_segments segs acc)"
proof (induction segs acc rule: normal_segments.induct)
  case (2 s segs acc)
  have "list_all plain_segment (tl acc)" using 2(5) by (cases acc) auto
  moreover have "plain_segment s" if "s \<noteq> []" "s \<noteq> ''.''" "s \<noteq> ''..''"
    using that 2(4) by (simp add: plain_segment_def)
  ultimately show ?case using 2 by auto
qed simp

text \<open>The normal form of an absolute path: plain segments, and perhaps a slash at the end.\<close>

definition path_of :: "string list \<Rightarrow> string" where
  "path_of segs = ''/'' @ join_with ''/'' segs"

lemma normalize_absolute_form:
  obtains segs where "list_all plain_segment segs"
    and "normalize_absolute p = path_of segs \<or> segs \<noteq> [] \<and> normalize_absolute p = path_of segs @ ''/''"
proof
  let ?segs = "normal_segments (split_on (CHR ''/'') p) []"
  show "list_all plain_segment ?segs"
    by (rule normal_segments_plain) (simp_all add: split_on_parts)
  show "normalize_absolute p = path_of ?segs \<or> ?segs \<noteq> [] \<and> normalize_absolute p = path_of ?segs @ ''/''"
    by (auto simp: normalize_absolute_def path_of_def Let_def)
qed

lemma split_path_of:
  assumes "list_all plain_segment segs" "segs \<noteq> []"
  shows "split_on (CHR ''/'') (path_of segs) = [] # segs"
  using split_join [OF assms(2), of "CHR ''/''"] assms(1)
  by (auto simp: path_of_def plain_segment_def list_all_iff)

lemma dotdot_not_in_normal: "''..'' \<notin> set (split_on (CHR ''/'') (normalize_absolute p))"
proof -
  obtain segs where plain: "list_all plain_segment segs"
    and eq: "normalize_absolute p = path_of segs \<or> segs \<noteq> [] \<and> normalize_absolute p = path_of segs @ ''/''"
    by (rule normalize_absolute_form)
  have nd: "''..'' \<notin> set segs" using plain by (auto simp: plain_segment_def list_all_iff)
  show ?thesis
  proof (cases "segs = []")
    case True
    then show ?thesis using eq by (auto simp: path_of_def)
  next
    case False
    have "split_on (CHR ''/'') (path_of segs @ ''/'') = split_on (CHR ''/'') (path_of segs) @ [[]]"
      using split_on_append_sep [of "CHR ''/''" "path_of segs" "[]"] by simp
    then show ?thesis using eq nd split_path_of [OF plain False] by auto
  qed
qed

lemma join_with_append_plain:
  "segs \<noteq> [] \<Longrightarrow> rest \<noteq> [] \<Longrightarrow> join_with t (segs @ rest) = join_with t segs @ t @ join_with t rest"
proof (induction t segs rule: join_with.induct)
  case (2 sep s)
  then show ?case by (cases rest) auto
qed auto

lemma path_of_append: "segs \<noteq> [] \<Longrightarrow> rest \<noteq> [] \<Longrightarrow> path_of (segs @ rest) = path_of segs @ path_of rest"
  by (simp add: path_of_def join_with_append_plain)

lemma path_of_root: "list_all plain_segment us \<Longrightarrow> path_of us = ''/'' \<longleftrightarrow> us = []"
  by (cases us; cases "tl us") (auto simp: path_of_def plain_segment_def)

lemma path_of_inject:
  assumes "list_all plain_segment ss" "list_all plain_segment ts"
  shows "path_of ss = path_of ts \<longleftrightarrow> ss = ts"
proof (cases "ss = [] \<or> ts = []")
  case True
  then show ?thesis using path_of_root [OF assms(1)] path_of_root [OF assms(2)] by (auto simp: path_of_def)
next
  case False
  then show ?thesis using split_path_of [OF assms(1)] split_path_of [OF assms(2)] by (metis list.inject)
qed

text \<open>A path lies below another one exactly when its segments extend the other's.\<close>

lemma below_iff_segments:
  assumes ss: "list_all plain_segment ss" and ps: "list_all plain_segment ps" and ne: "ss \<noteq> []"
  shows "path_of ps = path_of ss \<or> starts_with (path_of ss @ ''/'') (path_of ps) \<longleftrightarrow> (\<exists>rest. ps = ss @ rest)"
proof
  assume "path_of ps = path_of ss \<or> starts_with (path_of ss @ ''/'') (path_of ps)"
  then show "\<exists>rest. ps = ss @ rest"
  proof
    assume "path_of ps = path_of ss"
    then show ?thesis using path_of_inject [OF ps ss] by auto
  next
    assume "starts_with (path_of ss @ ''/'') (path_of ps)"
    then obtain t where t: "path_of ps = path_of ss @ CHR ''/'' # t" by (auto simp: starts_with_iff)
    have "ps \<noteq> []" using t by (auto simp: path_of_def)
    then have "[] # ps = ([] # ss) @ split_on (CHR ''/'') t"
      using split_path_of [OF ps] split_path_of [OF ss ne] t split_on_append_sep [of "CHR ''/''" "path_of ss" t]
      by simp
    then show ?thesis by auto
  qed
next
  assume "\<exists>rest. ps = ss @ rest"
  then obtain rest where "ps = ss @ rest" by blast
  then show "path_of ps = path_of ss \<or> starts_with (path_of ss @ ''/'') (path_of ps)"
    using path_of_append [OF ne, of rest] by (cases "rest = []") (auto simp: starts_with_iff path_of_def)
qed

lemma path_of_last: "ss \<noteq> [] \<Longrightarrow> \<exists>t. path_of ss = t @ last ss"
proof (induction ss rule: rev_induct)
  case (snoc s ss)
  then show ?case by (cases "ss = []") (auto simp: path_of_def join_with_append_plain)
qed simp

lemma strip_path_of:
  assumes "list_all plain_segment ss" "ss \<noteq> []"
  shows "strip_slashes (path_of ss) = path_of ss"
proof -
  obtain t where t: "path_of ss = t @ last ss" using path_of_last [OF assms(2)] by blast
  have "plain_segment (last ss)" using assms by (simp add: list_all_iff)
  then have "last ss \<noteq> []" "CHR ''/'' \<notin> set (last ss)" by (auto simp: plain_segment_def)
  then show ?thesis unfolding t strip_slashes_def
    by (cases "last ss" rule: rev_cases) auto
qed

lemma base_of_wildcard:
  assumes "list_all plain_segment ss" "ss \<noteq> []"
  shows "scopePrefixBasePath (path_of ss @ ''/**'') = path_of ss"
proof -
  have "path_of ss \<noteq> []" by (simp add: path_of_def)
  then show ?thesis
    using strip_path_of [OF assms] by (auto simp: scopePrefixBasePath_def ends_with_def Let_def)
qed

lemma sorted_set_simps [simp]: "set (sorted_set vs) = set vs" "sorted (sorted_set vs)" "distinct (sorted_set vs)"
  by (simp_all add: sorted_set_def)

end
