(* ===== verification/Step_Execution.thy ===== *)
theory Step_Execution
  imports Loop_Control
begin

section \<open>Steps of pipelines and workflows\<close>

text \<open>
  \<^verbatim>\<open>packages/shared/src/workflow/step-execution.ts\<close> (how a step of a manifest is executed) and the environment
  overrides of \<^verbatim>\<open>packages/shared/src/schemas/job.ts\<close>. A step is the object the YAML parser returned. A regular
  expression of the sources is the recursive function that decides it.
\<close>

subsection \<open>What a step executes\<close>

fun object_of :: "json option \<Rightarrow> jobject option" where
  "object_of (Some (JObj kvs)) = Some kvs"
| "object_of _ = None"

fun number_of :: "json option \<Rightarrow> rat option" where
  "number_of (Some (JNum n)) = Some n"
| "number_of _ = None"

record script_config =
  sc_command :: string
  sc_timeoutSeconds :: "rat option"
  sc_config :: jobject

record step_execution =
  se_executionType :: execution_type
  se_scriptCommand :: "string option"
  se_scriptTimeoutSeconds :: "rat option"
  se_actionType :: "string option"
  se_actionInput :: "jobject option"
  se_agentConfig :: "jobject option"

definition script_block :: "jobject \<Rightarrow> script_config option" where
  "script_block step =
     (case object_of (obj_get step ''script'') of
        None \<Rightarrow> None
      | Some script \<Rightarrow>
          (case coalesce (json_string (obj_get script ''run'')) (json_string (obj_get script ''command'')) of
             None \<Rightarrow> None
           | Some command \<Rightarrow>
               if js_trim command = [] then None
               else Some \<lparr>sc_command = command,
                  sc_timeoutSeconds = coalesce (number_of (obj_get script ''timeout'')) (number_of (obj_get script ''timeout_seconds'')),
                  sc_config = script\<rparr>))"

definition getScriptConfig :: "jobject \<Rightarrow> script_config option" where
  "getScriptConfig step =
     (case script_block step of
        Some c \<Rightarrow> Some c
      | None \<Rightarrow>
          (case json_string (obj_get step ''run'') of
             None \<Rightarrow> None
           | Some run \<Rightarrow>
               if js_trim run = [] then None
               else Some \<lparr>sc_command = run, sc_timeoutSeconds = None, sc_config = [(''run'', JStr run)]\<rparr>))"

definition parseStepExecution :: "jobject \<Rightarrow> string \<Rightarrow> string + step_execution" where
  "parseStepExecution step stepName =
     (case object_of (obj_get step ''action'') of
        Some action \<Rightarrow>
          (case json_string (obj_get action ''type'') of
             Some ty \<Rightarrow>
               if js_trim ty = [] then Inl (''Step \"'' @ stepName @ ''\" action must define a non-empty type'')
               else Inr \<lparr>se_executionType = ExecAction, se_scriptCommand = None, se_scriptTimeoutSeconds = None,
                      se_actionType = Some ty, se_actionInput = Some (obj_del ''type'' action), se_agentConfig = None\<rparr>
           | None \<Rightarrow> Inl (''Step \"'' @ stepName @ ''\" action must define a non-empty type''))
      | None \<Rightarrow>
          (case getScriptConfig step of
             Some c \<Rightarrow> Inr \<lparr>se_executionType = ExecScript, se_scriptCommand = Some (sc_command c),
                 se_scriptTimeoutSeconds = sc_timeoutSeconds c, se_actionType = None, se_actionInput = None, se_agentConfig = None\<rparr>
           | None \<Rightarrow>
               (case object_of (obj_get step ''agent'') of
                  Some agent \<Rightarrow> Inr \<lparr>se_executionType = ExecAgent, se_scriptCommand = None, se_scriptTimeoutSeconds = None,
                     se_actionType = None, se_actionInput = None, se_agentConfig = Some agent\<rparr>
                | None \<Rightarrow> Inl (''Step \"'' @ stepName @ ''\" has no recognized execution type (action, script, run, or agent)''))))"

subsection \<open>Environment overrides\<close>

type_synonym env = "(string \<times> string) list"

definition RESERVED_ENV_KEYS :: "string list" where
  "RESERVED_ENV_KEYS =
     [''PATH'', ''HOME'', ''SHELL'', ''USER'', ''TMPDIR'', ''NODE_OPTIONS'', ''CLAUDE_CONFIG_DIR'', ''CODEX_HOME'', ''PI_HOME'']"

definition isReservedEnvKey :: "string \<Rightarrow> bool" where
  "isReservedEnvKey key = (key \<in> set RESERVED_ENV_KEYS \<or> starts_with ''EVE_'' key)"

definition upper_char :: "char \<Rightarrow> bool" where
  "upper_char c = (let n = of_char c :: nat in (65 \<le> n \<and> n \<le> 90) \<or> c = CHR ''_'')"

definition env_key :: "string \<Rightarrow> bool" where
  "env_key k = (case k of [] \<Rightarrow> False
     | c # cs \<Rightarrow> upper_char c \<and> list_all (\<lambda>d. upper_char d \<or> digit_value d \<noteq> None) cs)"

definition secret_expr :: "string \<Rightarrow> bool" where
  "secret_expr e = (starts_with ''secret.'' e \<and> env_key (drop 7 e))"

text \<open>What the groups of the successive matches of \<^verbatim>\<open>EXPR_SCAN\<close> hold.\<close>

function scan_exprs :: "string \<Rightarrow> string list" where
  "scan_exprs t =
     (case t of
        [] \<Rightarrow> []
      | c # cs \<Rightarrow>
          if starts_with ''${'' t then
            (let body = drop 2 t; e = takeWhile (\<lambda>d. d \<noteq> CHR ''}'') body
             in if length e < length body then e # scan_exprs (drop (length e + 1) body) else scan_exprs cs)
          else scan_exprs cs)"
  by pat_completeness auto
termination by (relation "measure length") auto

declare scan_exprs.simps [simp del]

text \<open>The length of the JSON text of a string.\<close>

definition char_json_length :: "char \<Rightarrow> nat" where
  "char_json_length c =
     (let n = of_char c :: nat
      in if n = 34 \<or> n = 92 \<or> n \<in> {8, 9, 10, 12, 13} then 2 else if n < 32 then 6 else 1)"

definition string_json_length :: "string \<Rightarrow> nat" where
  "string_json_length t = 2 + sum_list (map char_json_length t)"

definition env_json_length :: "env \<Rightarrow> nat" where
  "env_json_length e = 2 + (length e - 1) + sum_list (map (\<lambda>(k, v). string_json_length k + 1 + string_json_length v) e)"

fun env_shape :: "jobject \<Rightarrow> env option" where
  "env_shape [] = Some []"
| "env_shape ((k, v) # kvs) =
     (case (v, env_shape kvs) of
        (JStr t, Some e) \<Rightarrow> if env_key k \<and> length t \<le> 2048 then Some ((k, t) # e) else None
      | _ \<Rightarrow> None)"

definition env_accepted :: "env \<Rightarrow> bool" where
  "env_accepted e =
     (env_json_length e \<le> 4096 \<and>
      list_all (\<lambda>(k, v). \<not> isReservedEnvKey k \<and> list_all secret_expr (scan_exprs v)) e)"

definition EnvOverridesSchema :: "json \<Rightarrow> env option" where
  "EnvOverridesSchema raw =
     (case raw of
        JObj kvs \<Rightarrow> (case env_shape kvs of Some e \<Rightarrow> if env_accepted e then Some e else None | None \<Rightarrow> None)
      | _ \<Rightarrow> None)"

definition env_json :: "env \<Rightarrow> jobject" where
  "env_json e = map (\<lambda>(k, v). (k, JStr v)) e"

definition env_or_empty :: "env option \<Rightarrow> jobject" where
  "env_or_empty e = (case e of None \<Rightarrow> [] | Some e \<Rightarrow> env_json e)"

text \<open>\<open>Inl\<close> is the error that \<^verbatim>\<open>EnvOverridesSchema.parse\<close> throws on the merged record.\<close>

definition mergeEnvOverrides :: "env option \<Rightarrow> env option \<Rightarrow> env option \<Rightarrow> unit + env option" where
  "mergeEnvOverrides workflowEnv stepEnv invocationEnv =
     (let merged = jsonb_concat (jsonb_concat (env_or_empty workflowEnv) (env_or_empty stepEnv)) (env_or_empty invocationEnv)
      in if merged = [] then Inr None
         else case EnvOverridesSchema (JObj merged) of None \<Rightarrow> Inl () | Some e \<Rightarrow> Inr (Some e))"

definition envOverridesReferenceSecrets :: "env option \<Rightarrow> bool" where
  "envOverridesReferenceSecrets e =
     (case e of None \<Rightarrow> False | Some e \<Rightarrow> list_ex (\<lambda>(_, v). list_ex (\<lambda>i.
        starts_with ''${secret.'' (drop i v) \<and>
        (let name = takeWhile (\<lambda>d. upper_char d \<or> digit_value d \<noteq> None) (drop (i + 9) v)
         in env_key name \<and> starts_with ''}'' (drop (i + 9 + length name) v))) [0..<length v]) e)"

end
