(* ===== verification/Job_Crud.thy ===== *)
theory Job_Crud
  imports Job_Model
begin

section \<open>Job CRUD and the phase machine\<close>

text \<open>
  \<^verbatim>\<open>packages/db/src/queries/jobs/crud.ts\<close>: creation, the validated phase update and the listing
  queries. \<^verbatim>\<open>updatePhase\<close> reads the job, validates, and writes with a guard on the phase it read; the
  read, the validation and the write are separate definitions, so that the interleaving with another
  client between the read and the write can be stated.
\<close>

subsection \<open>Phase transitions\<close>

fun valid_transitions :: "phase \<Rightarrow> phase list" where
  "valid_transitions Idea = [Backlog, Cancelled]"
| "valid_transitions Backlog = [Ready, Cancelled]"
| "valid_transitions Ready = [Active, Backlog, Cancelled]"
| "valid_transitions Active = [Review, Done, Ready, Cancelled]"
| "valid_transitions Review = [Done, Active, Cancelled]"
| "valid_transitions Done = []"
| "valid_transitions Cancelled = []"

definition canTransition :: "phase \<Rightarrow> phase \<Rightarrow> bool" where
  "canTransition from to = (to \<in> set (valid_transitions from))"

definition open_blocker :: "db \<Rightarrow> string \<Rightarrow> job_relation \<Rightarrow> bool" where
  "open_blocker s jobId r =
     (r_job_id r = jobId \<and> blocking_relation (r_relation_type r) \<and>
      exists_row (\<lambda>b. j_id b = r_related_job_id r \<and> \<not> terminal_phase (j_phase b)) (jobs s))"

definition isBlocked :: "string \<Rightarrow> db \<Rightarrow> bool" where
  "isBlocked jobId s = exists_row (open_blocker s jobId) (job_relations s)"

definition new_row :: "job \<Rightarrow> timestamp \<Rightarrow> job" where
  "new_row job now = job\<lparr>
     j_ready_at := (if j_phase job = Ready then Some now else None),
     j_resolved_git_json := None,
     j_blocked_on_gates := [],
     j_failure_disposition := None,
     j_created_at := now,
     j_updated_at := now\<rparr>"

text \<open>\<^verbatim>\<open>create\<close> with the constraints the schema puts on the inserted row.\<close>

definition create :: "job \<Rightarrow> timestamp \<Rightarrow> db \<Rightarrow> (db_error + job) \<times> db" where
  "create job now s =
     (if 64 < length (j_id job) then (Inl String_too_long, s)
      else if \<not> (0 \<le> j_priority job \<and> j_priority job \<le> 4 \<and> 0 \<le> j_depth job \<and> j_depth job \<le> 3 \<and>
            sp_execution_mode (j_spec job) \<in> {''persistent'', ''ephemeral''})
        then (Inl Check_violation, s)
      else if exists_row (\<lambda>j. j_id j = j_id job) (jobs s) then (Inl Unique_violation, s)
      else if \<not> exists_row (\<lambda>p. p_id p = j_project_id job) (projects s)
          \<or> (case j_parent_id job of None \<Rightarrow> False
              | Some p \<Rightarrow> p \<noteq> j_id job \<and> \<not> exists_row (\<lambda>j. j_id j = p) (jobs s))
          \<or> (case j_run_id job of None \<Rightarrow> False
              | Some r \<Rightarrow> \<not> exists_row (\<lambda>p. pr_id p = r) (pipeline_runs s))
        then (Inl Foreign_key_violation, s)
      else (let row = new_row job now in (Inr row, s\<lparr>jobs := jobs s @ [row]\<rparr>)))"

definition updatePhase_check :: "job \<Rightarrow> phase \<Rightarrow> string option" where
  "updatePhase_check cur newPhase =
     (if \<not> canTransition (j_phase cur) newPhase then
        Some (''Invalid phase transition: '' @ phase_name (j_phase cur) @ '' -> '' @ phase_name newPhase)
      else if newPhase = Done \<and> j_review_required cur \<noteq> ReviewNone \<and> j_phase cur \<noteq> Review then
        Some (''Job requires review before completion. Current phase: '' @ phase_name (j_phase cur)
          @ '', must be in 'review' phase first.'')
      else None)"

definition set_phase :: "phase \<Rightarrow> timestamp \<Rightarrow> job \<Rightarrow> job" where
  "set_phase newPhase now j = j\<lparr>
     j_phase := newPhase,
     j_ready_at := (if newPhase = Ready then Some now else j_ready_at j),
     j_updated_at := now,
     j_closed_at := (if newPhase = Done \<or> newPhase = Cancelled then Some now else None)\<rparr>"

definition updatePhase_write ::
  "string \<Rightarrow> phase \<Rightarrow> phase \<Rightarrow> timestamp \<Rightarrow> db \<Rightarrow> (string + job) \<times> db"
where
  "updatePhase_write jobId currentPhase newPhase now s =
     (let s' = update_jobs (\<lambda>j. j_id j = jobId \<and> j_phase j = currentPhase) (set_phase newPhase now) s
      in case findById jobId s of
           Some j \<Rightarrow>
             if j_phase j = currentPhase then (Inr (set_phase newPhase now j), s')
             else (Inl (''Job '' @ jobId @ '' changed phase during transition from ''
                    @ phase_name currentPhase @ '' to '' @ phase_name newPhase), s')
         | None \<Rightarrow> (Inl (''Job '' @ jobId @ '' changed phase during transition from ''
                    @ phase_name currentPhase @ '' to '' @ phase_name newPhase), s'))"

definition updatePhase :: "string \<Rightarrow> phase \<Rightarrow> timestamp \<Rightarrow> db \<Rightarrow> (string + job) \<times> db" where
  "updatePhase jobId newPhase now s =
     (case findById jobId s of
        None \<Rightarrow> (Inl (''Job not found: '' @ jobId), s)
      | Some cur \<Rightarrow>
          (case updatePhase_check cur newPhase of
             Some e \<Rightarrow> (Inl e, s)
           | None \<Rightarrow> updatePhase_write jobId (j_phase cur) newPhase now s))"

definition updateResolvedGit :: "string \<Rightarrow> json \<Rightarrow> timestamp \<Rightarrow> db \<Rightarrow> db" where
  "updateResolvedGit jobId resolvedGit now s =
     update_jobs (\<lambda>j. j_id j = jobId)
       (\<lambda>j. j\<lparr>j_resolved_git_json := Some resolvedGit, j_updated_at := now\<rparr>) s"

subsection \<open>Listing queries\<close>

record list_options =
  lo_orgId :: "string option"
  lo_projectId :: "string option"
  lo_phase :: "phase option"
  lo_assignee :: "string option"
  lo_createdAfter :: "timestamp option"
  lo_stuck :: bool
  lo_stuckMinutes :: "int option"
  lo_execution_type :: "execution_type option"
  lo_label :: "string option"
  lo_parentId :: "string option option"
  lo_failureDisposition :: "failure_disposition option"
  lo_limit :: "nat option"
  lo_offset :: "nat option"

text \<open>A filter given as an empty string is falsy, so the source adds no condition for it.\<close>

definition given :: "string option \<Rightarrow> (string \<Rightarrow> bool) \<Rightarrow> bool" where
  "given opt P = (case opt of None \<Rightarrow> True | Some v \<Rightarrow> v = [] \<or> P v)"

definition on_some :: "'a option \<Rightarrow> ('a \<Rightarrow> bool) \<Rightarrow> bool" where
  "on_some opt P = (case opt of None \<Rightarrow> True | Some v \<Rightarrow> P v)"

definition parent_cond :: "string option option \<Rightarrow> job \<Rightarrow> bool" where
  "parent_cond opt j = on_some opt (\<lambda>p. j_parent_id j = p)"

definition stuck_cond :: "list_options \<Rightarrow> timestamp \<Rightarrow> db \<Rightarrow> job \<Rightarrow> bool" where
  "stuck_cond opts now s j =
     (lo_stuck opts \<longrightarrow>
        j_phase j = Active \<and>
        exists_row (\<lambda>a. a_job_id a = j_id j \<and> a_status a = AttRunning \<and>
          a_started_at a < now - (case lo_stuckMinutes opts of None \<Rightarrow> 5 | Some m \<Rightarrow> m) * 60000)
          (job_attempts s))"

definition page :: "list_options \<Rightarrow> job list \<Rightarrow> job list" where
  "page opts rows =
     take (case lo_limit opts of None \<Rightarrow> 50 | Some l \<Rightarrow> l)
       (drop (case lo_offset opts of None \<Rightarrow> 0 | Some ofs \<Rightarrow> ofs) rows)"

definition list_cond :: "string \<Rightarrow> list_options \<Rightarrow> timestamp \<Rightarrow> db \<Rightarrow> job \<Rightarrow> bool" where
  "list_cond projectId opts now s j =
     (j_project_id j = projectId
      \<and> on_some (lo_phase opts) (\<lambda>p. j_phase j = p)
      \<and> given (lo_assignee opts) (\<lambda>a. j_assignee j = Some a)
      \<and> on_some (lo_createdAfter opts) (\<lambda>t. t \<le> j_created_at j)
      \<and> on_some (lo_execution_type opts) (\<lambda>t. j_execution_type j = t)
      \<and> given (lo_label opts) (\<lambda>l. l \<in> set (j_labels j))
      \<and> parent_cond (lo_parentId opts) j
      \<and> on_some (lo_failureDisposition opts) (\<lambda>d. j_failure_disposition j = Some d)
      \<and> stuck_cond opts now s j)"

definition list_jobs :: "string \<Rightarrow> list_options \<Rightarrow> timestamp \<Rightarrow> db \<Rightarrow> job list" where
  "list_jobs projectId opts now s =
     page opts (order_by (\<lambda>j. - j_created_at j) (filter (list_cond projectId opts now s) (jobs s)))"

definition listByRunId :: "string \<Rightarrow> db \<Rightarrow> job list" where
  "listByRunId runId s = order_by j_created_at (filter (\<lambda>j. j_run_id j = Some runId) (jobs s))"

definition findNextRunnableJobForRun :: "string \<Rightarrow> db \<Rightarrow> job option" where
  "findNextRunnableJobForRun runId s =
     first_row (order_by j_created_at
       (filter (\<lambda>j. j_run_id j = Some runId \<and> j_phase j = Ready \<and>
          \<not> exists_row (open_blocker s (j_id j)) (job_relations s)) (jobs s)))"

definition project_of :: "job \<Rightarrow> db \<Rightarrow> project option" where
  "project_of j s = find_row (\<lambda>p. p_id p = j_project_id j) (projects s)"

definition listAll_cond :: "list_options \<Rightarrow> db \<Rightarrow> job \<Rightarrow> bool" where
  "listAll_cond opts s j =
     (case project_of j s of
        None \<Rightarrow> False
      | Some p \<Rightarrow>
          given (lo_orgId opts) (\<lambda>v. p_org_id p = v)
          \<and> given (lo_projectId opts) (\<lambda>v. j_project_id j = v)
          \<and> on_some (lo_phase opts) (\<lambda>v. j_phase j = v)
          \<and> on_some (lo_execution_type opts) (\<lambda>t. j_execution_type j = t)
          \<and> given (lo_label opts) (\<lambda>l. l \<in> set (j_labels j))
          \<and> parent_cond (lo_parentId opts) j
          \<and> on_some (lo_failureDisposition opts) (\<lambda>d. j_failure_disposition j = Some d))"

definition listAll :: "list_options \<Rightarrow> db \<Rightarrow> job list" where
  "listAll opts s =
     page opts (order_by (\<lambda>j. - j_created_at j) (filter (listAll_cond opts s) (jobs s)))"

definition superseded :: "job \<Rightarrow> bool" where
  "superseded j = (obj_get (j_hints j) ''workflow_retry_superseded_by'' \<noteq> None)"

definition findSiblingByStepName :: "string \<Rightarrow> string \<Rightarrow> db \<Rightarrow> job option" where
  "findSiblingByStepName parentId stepName s =
     first_row (order_by (\<lambda>j. - j_created_at j)
       (filter (\<lambda>j. j_parent_id j = Some parentId \<and> j_step_name j = Some stepName \<and> \<not> superseded j)
         (jobs s)))"

subsection \<open>Laws\<close>

lemma canTransition_terminal [simp]: "terminal_phase p \<Longrightarrow> \<not> canTransition p q"
  by (cases p) (auto simp: canTransition_def)

lemma canTransition_irrefl [simp]: "\<not> canTransition p p"
  by (cases p) (auto simp: canTransition_def)

lemma set_phase_simps [simp]:
  "j_id (set_phase p now j) = j_id j"
  "j_phase (set_phase p now j) = p"
  "j_review_required (set_phase p now j) = j_review_required j"
  "j_assignee (set_phase p now j) = j_assignee j"
  "j_parent_id (set_phase p now j) = j_parent_id j"
  "j_blocked_on_gates (set_phase p now j) = j_blocked_on_gates j"
  "j_closed_at (set_phase p now j) = (if terminal_phase p then Some now else None)"
  by (auto simp: set_phase_def terminal_phase_def)

lemma new_row_simps [simp]:
  "j_id (new_row j now) = j_id j"
  "j_phase (new_row j now) = j_phase j"
  "j_parent_id (new_row j now) = j_parent_id j"
  "j_closed_at (new_row j now) = j_closed_at j"
  "j_project_id (new_row j now) = j_project_id j"
  by (simp_all add: new_row_def)

lemma updatePhase_check_None:
  "updatePhase_check cur p = None \<longleftrightarrow>
     canTransition (j_phase cur) p \<and> (p = Done \<longrightarrow> j_review_required cur = ReviewNone \<or> j_phase cur = Review)"
  by (auto simp: updatePhase_check_def)

lemma updatePhase_write_state:
  "snd (updatePhase_write i cur new now s) =
     update_jobs (\<lambda>j. j_id j = i \<and> j_phase j = cur) (set_phase new now) s"
  by (simp add: updatePhase_write_def Let_def split: option.split)

lemma updatePhase_write_Inr:
  "fst (updatePhase_write i cur new now s) = Inr j \<longleftrightarrow>
     (\<exists>j0. findById i s = Some j0 \<and> j_phase j0 = cur \<and> j = set_phase new now j0)"
  by (auto simp: updatePhase_write_def Let_def split: option.splits)

lemma updatePhase_state:
  "snd (updatePhase i new now s) =
     (case findById i s of
        Some cur \<Rightarrow>
          if updatePhase_check cur new = None
          then update_jobs (\<lambda>j. j_id j = i \<and> j_phase j = j_phase cur) (set_phase new now) s else s
      | None \<Rightarrow> s)"
  by (simp add: updatePhase_def updatePhase_write_state split: option.split)

lemma isBlocked_iff:
  "isBlocked i s \<longleftrightarrow>
     (\<exists>r \<in> set (job_relations s). r_job_id r = i \<and> blocking_relation (r_relation_type r) \<and>
        (\<exists>b \<in> set (jobs s). j_id b = r_related_job_id r \<and> \<not> terminal_phase (j_phase b)))"
  by (auto simp: isBlocked_def open_blocker_def)

end
