(* ===== verification/Job_Attempts.thy ===== *)
theory Job_Attempts
  imports Job_Crud
begin

section \<open>Job attempts\<close>

text \<open>
  \<^verbatim>\<open>packages/db/src/queries/jobs/attempts.ts\<close>: the queries and updates on \<^verbatim>\<open>job_attempts\<close>.
  \<^verbatim>\<open>completeAttempt\<close> is guarded by \<^verbatim>\<open>status = 'running'\<close>, so an attempt is finished at most once; the
  other updates are keyed by the attempt's id alone.
\<close>

definition getCurrentAttempt :: "string \<Rightarrow> db \<Rightarrow> attempt option" where
  "getCurrentAttempt jobId s =
     first_row (order_by (\<lambda>a. - a_attempt_number a)
       (filter (\<lambda>a. a_status a = AttRunning) (attempts_of jobId s)))"

definition listAttempts :: "string \<Rightarrow> db \<Rightarrow> attempt list" where
  "listAttempts jobId s = order_by (\<lambda>a. - a_attempt_number a) (attempts_of jobId s)"

definition getLatestAttempt :: "string \<Rightarrow> db \<Rightarrow> attempt option" where
  "getLatestAttempt jobId s =
     first_row (order_by (\<lambda>a. - a_attempt_number a) (attempts_of jobId s))"

definition getLatestRejectionReason :: "string \<Rightarrow> db \<Rightarrow> string option" where
  "getLatestRejectionReason jobId s =
     (case first_row (order_by (\<lambda>l. - l_created_at l)
         (filter (\<lambda>l. l_entity_type l = ''job'' \<and> l_entity_id l = jobId \<and>
            json_string (obj_get (l_context l) ''action'') = Some ''reject_review'') (audit_log s))) of
        None \<Rightarrow> None
      | Some l \<Rightarrow> json_string (obj_get (l_context l) ''reason''))"

record attempt_result =
  ar_exitCode :: "int option"
  ar_resultText :: "string option"
  ar_resultJson :: "jobject option"
  ar_durationMs :: "int option"
  ar_tokenInput :: "int option"
  ar_tokenOutput :: "int option"
  ar_errorMessage :: "string option"
  ar_resultSummary :: "string option"

definition no_result :: attempt_result where
  "no_result = \<lparr>ar_exitCode = None, ar_resultText = None, ar_resultJson = None,
     ar_durationMs = None, ar_tokenInput = None, ar_tokenOutput = None,
     ar_errorMessage = None, ar_resultSummary = None\<rparr>"

definition finish_attempt ::
  "attempt_status \<Rightarrow> attempt_result \<Rightarrow> timestamp \<Rightarrow> attempt \<Rightarrow> attempt" where
  "finish_attempt status result now a = a\<lparr>
     a_status := status,
     a_ended_at := Some now,
     a_exit_code := coalesce (ar_exitCode result) (a_exit_code a),
     a_result_text := coalesce (ar_resultText result) (a_result_text a),
     a_result_json := coalesce (ar_resultJson result) (a_result_json a),
     a_result_summary := coalesce (ar_resultSummary result) (a_result_summary a),
     a_duration_ms := coalesce (ar_durationMs result) (a_duration_ms a),
     a_token_input := coalesce (ar_tokenInput result) (a_token_input a),
     a_token_output := coalesce (ar_tokenOutput result) (a_token_output a),
     a_error_message := coalesce (ar_errorMessage result) (a_error_message a)\<rparr>"

definition completeAttempt ::
  "string \<Rightarrow> attempt_status \<Rightarrow> attempt_result \<Rightarrow> timestamp \<Rightarrow> db \<Rightarrow> attempt option \<times> db" where
  "completeAttempt attemptId status result now s =
     (map_option (finish_attempt status result now)
        (find_row (\<lambda>a. a_id a = attemptId \<and> a_status a = AttRunning) (job_attempts s)),
      update_attempts (\<lambda>a. a_id a = attemptId \<and> a_status a = AttRunning)
        (finish_attempt status result now) s)"

definition updateRuntimeMeta :: "string \<Rightarrow> jobject \<Rightarrow> db \<Rightarrow> attempt option \<times> db" where
  "updateRuntimeMeta attemptId runtimeMeta s =
     (let f = (\<lambda>a. a\<lparr>a_runtime_meta := jsonb_concat (a_runtime_meta a) runtimeMeta\<rparr>)
      in (map_option f (find_row (\<lambda>a. a_id a = attemptId) (job_attempts s)),
          update_attempts (\<lambda>a. a_id a = attemptId) f s))"

definition markExecutionStarted :: "string \<Rightarrow> timestamp \<Rightarrow> db \<Rightarrow> db" where
  "markExecutionStarted attemptId now s =
     update_attempts (\<lambda>a. a_id a = attemptId \<and> a_execution_started_at a = None)
       (\<lambda>a. a\<lparr>a_execution_started_at := Some now\<rparr>) s"

definition updateAttemptReceipt ::
  "string \<Rightarrow> json \<Rightarrow> rat \<Rightarrow> rat \<Rightarrow> string \<Rightarrow> db \<Rightarrow> db" where
  "updateAttemptReceipt attemptId receiptJson baseTotalUsd billedTotal billedCurrency s =
     update_attempts (\<lambda>a. a_id a = attemptId)
       (\<lambda>a. a\<lparr>a_receipt_json := Some receiptJson,
               a_receipt_base_total_usd := Some baseTotalUsd,
               a_receipt_billed_total := Some billedTotal,
               a_receipt_billed_currency := Some billedCurrency\<rparr>) s"

definition updateAttemptResultJson :: "string \<Rightarrow> jobject \<Rightarrow> db \<Rightarrow> attempt option \<times> db" where
  "updateAttemptResultJson attemptId resultJson s =
     (let f = (\<lambda>a. a\<lparr>a_result_json :=
                 Some (jsonb_concat (case a_result_json a of None \<Rightarrow> [] | Some o' \<Rightarrow> o') resultJson)\<rparr>)
      in (map_option f (find_row (\<lambda>a. a_id a = attemptId) (job_attempts s)),
          update_attempts (\<lambda>a. a_id a = attemptId) f s))"

record attempt_result_data =
  rd_exitCode :: "int option"
  rd_resultText :: "string option"
  rd_resultJson :: "jobject option"
  rd_durationMs :: "int option"
  rd_tokenInput :: "int option"
  rd_tokenOutput :: "int option"
  rd_errorMessage :: "string option"
  rd_status :: attempt_status

definition getAttemptResult :: "string \<Rightarrow> db \<Rightarrow> attempt_result_data option" where
  "getAttemptResult attemptId s =
     (case find_row (\<lambda>a. a_id a = attemptId) (job_attempts s) of
        None \<Rightarrow> None
      | Some a \<Rightarrow> Some \<lparr>rd_exitCode = a_exit_code a, rd_resultText = a_result_text a,
          rd_resultJson = a_result_json a, rd_durationMs = a_duration_ms a,
          rd_tokenInput = a_token_input a, rd_tokenOutput = a_token_output a,
          rd_errorMessage = a_error_message a, rd_status = a_status a\<rparr>)"

subsection \<open>Laws\<close>

lemma finish_attempt_simps [simp]:
  "a_id (finish_attempt st r now a) = a_id a"
  "a_job_id (finish_attempt st r now a) = a_job_id a"
  "a_attempt_number (finish_attempt st r now a) = a_attempt_number a"
  "a_status (finish_attempt st r now a) = st"
  "a_ended_at (finish_attempt st r now a) = Some now"
  by (simp_all add: finish_attempt_def)

lemma attempts_of_frame [simp]:
  "attempts_of i (update_jobs P f s) = attempts_of i s"
  "attempts_of i (audit a b c d e g h n s) = attempts_of i s"
  by (simp_all add: attempts_of_def)

lemma attempts_of_update [table_simps]:
  assumes "\<And>a. P a \<Longrightarrow> a_job_id (f a) = a_job_id a"
  shows "attempts_of i (update_attempts P f s) = update_where P f (attempts_of i s)"
  using filter_update_where [where Q = "\<lambda>a. a_job_id a = i" and P = P and f = f] assms
  by (simp add: attempts_of_def)

lemma getCurrentAttempt_Some:
  assumes "getCurrentAttempt i s = Some a"
  shows "a \<in> set (job_attempts s)" "a_job_id a = i" "a_status a = AttRunning"
    and "\<And>b. b \<in> set (job_attempts s) \<Longrightarrow> a_job_id b = i \<Longrightarrow> a_status b = AttRunning \<Longrightarrow>
      a_attempt_number b \<le> a_attempt_number a"
  using first_row_order_by_least [OF assms [unfolded getCurrentAttempt_def]]
  by (auto simp: attempts_of_def)

lemma getCurrentAttempt_None:
  "getCurrentAttempt i s = None \<longleftrightarrow>
     (\<forall>a \<in> set (job_attempts s). a_job_id a = i \<longrightarrow> a_status a \<noteq> AttRunning)"
  by (auto simp: getCurrentAttempt_def attempts_of_def filter_empty_conv)

lemma getLatestAttempt_Some:
  assumes "getLatestAttempt i s = Some a"
  shows "a \<in> set (job_attempts s)" "a_job_id a = i"
    and "\<And>b. b \<in> set (job_attempts s) \<Longrightarrow> a_job_id b = i \<Longrightarrow>
      a_attempt_number b \<le> a_attempt_number a"
  using first_row_order_by_least [OF assms [unfolded getLatestAttempt_def]]
  by (auto simp: attempts_of_def)

end
