(* ===== verification/Pipeline_Runs.thy ===== *)
theory Pipeline_Runs
  imports Job_Attempts
begin

section \<open>Pipeline runs, step runs and execution logs\<close>

text \<open>
  \<^verbatim>\<open>packages/db/src/queries/pipeline-runs.ts\<close> and \<^verbatim>\<open>execution-logs.ts\<close>. An update takes a record of optional
  fields: \<open>None\<close> is an absent field, \<open>Some None\<close> a null. At most one run that is not finished has a given
  dedupe key (a partial unique index of the schema).
\<close>

definition run_terminal :: "string \<Rightarrow> bool" where
  "run_terminal st = (st \<in> {''succeeded'', ''failed'', ''cancelled''})"

definition dedupe_conflict :: "pipeline_run \<Rightarrow> db \<Rightarrow> bool" where
  "dedupe_conflict run s =
     (pr_dedupe_key run \<noteq> None \<and> \<not> run_terminal (pr_status run) \<and>
      exists_row (\<lambda>r. pr_dedupe_key r = pr_dedupe_key run \<and> \<not> run_terminal (pr_status r) \<and> pr_id r \<noteq> pr_id run)
        (pipeline_runs s))"

definition createRun :: "pipeline_run \<Rightarrow> timestamp \<Rightarrow> db \<Rightarrow> (db_error + pipeline_run) \<times> db" where
  "createRun run now s =
     (if exists_row (\<lambda>r. pr_id r = pr_id run) (pipeline_runs s) \<or> dedupe_conflict run s
        then (Inl Unique_violation, s)
      else if \<not> exists_row (\<lambda>p. p_id p = pr_project_id run) (projects s) then (Inl Foreign_key_violation, s)
      else let row = run\<lparr>pr_created_at := now, pr_updated_at := now\<rparr>
           in (Inr row, s\<lparr>pipeline_runs := pipeline_runs s @ [row]\<rparr>))"

definition findRunById :: "string \<Rightarrow> db \<Rightarrow> pipeline_run option" where
  "findRunById i s = find_row (\<lambda>r. pr_id r = i) (pipeline_runs s)"

definition findActiveRunByDedupeKey :: "string \<Rightarrow> db \<Rightarrow> pipeline_run option" where
  "findActiveRunByDedupeKey dedupeKey s =
     first_row (order_by (\<lambda>r. - pr_created_at r)
       (filter (\<lambda>r. pr_dedupe_key r = Some dedupeKey \<and> \<not> run_terminal (pr_status r)) (pipeline_runs s)))"

definition findActiveByEnv :: "string \<Rightarrow> string \<Rightarrow> db \<Rightarrow> pipeline_run option" where
  "findActiveByEnv projectId envName s =
     first_row (order_by (\<lambda>r. - pr_created_at r)
       (filter (\<lambda>r. pr_project_id r = projectId \<and> pr_env_name r = Some envName \<and>
          pr_status r \<in> {''pending'', ''running''}) (pipeline_runs s)))"

definition listRuns :: "string \<Rightarrow> string \<Rightarrow> nat option \<Rightarrow> nat option \<Rightarrow> db \<Rightarrow> pipeline_run list" where
  "listRuns project_id pipeline_name max_rows ofs s =
     take (case max_rows of None \<Rightarrow> 20 | Some l \<Rightarrow> l) (drop (case ofs of None \<Rightarrow> 0 | Some n \<Rightarrow> n)
       (order_by (\<lambda>r. - pr_created_at r)
         (filter (\<lambda>r. pr_project_id r = project_id \<and> pr_pipeline_name r = pipeline_name) (pipeline_runs s))))"

record run_update =
  ru_status :: "string option"
  ru_started_at :: "timestamp option option"
  ru_completed_at :: "timestamp option option"
  ru_error_message :: "string option option"
  ru_inputs_json :: "jobject option option"
  ru_step_outputs_json :: "jobject option option"
  ru_run_mode :: "string option option"

definition no_update :: run_update where
  "no_update = \<lparr>ru_status = None, ru_started_at = None, ru_completed_at = None, ru_error_message = None,
     ru_inputs_json = None, ru_step_outputs_json = None, ru_run_mode = None\<rparr>"

definition or_keep :: "'a option \<Rightarrow> 'a \<Rightarrow> 'a" where
  "or_keep u old = (case u of None \<Rightarrow> old | Some v \<Rightarrow> v)"

definition apply_run_update :: "run_update \<Rightarrow> timestamp \<Rightarrow> pipeline_run \<Rightarrow> pipeline_run" where
  "apply_run_update u now r = r\<lparr>
     pr_status := or_keep (ru_status u) (pr_status r),
     pr_started_at := or_keep (ru_started_at u) (pr_started_at r),
     pr_completed_at := or_keep (ru_completed_at u) (pr_completed_at r),
     pr_error_message := or_keep (ru_error_message u) (pr_error_message r),
     pr_inputs_json := or_keep (ru_inputs_json u) (pr_inputs_json r),
     pr_step_outputs_json := or_keep (ru_step_outputs_json u) (pr_step_outputs_json r),
     pr_run_mode := or_keep (ru_run_mode u) (pr_run_mode r),
     pr_updated_at := now\<rparr>"

definition updateRun ::
  "string \<Rightarrow> run_update \<Rightarrow> timestamp \<Rightarrow> db \<Rightarrow> (db_error + pipeline_run option) \<times> db" where
  "updateRun i u now s =
     (if u = no_update then (Inr (findRunById i s), s)
      else case findRunById i s of
          None \<Rightarrow> (Inr None, s)
        | Some r \<Rightarrow>
            if dedupe_conflict (apply_run_update u now r) s then (Inl Unique_violation, s)
            else (Inr (Some (apply_run_update u now r)),
                  s\<lparr>pipeline_runs := update_where (\<lambda>r. pr_id r = i) (apply_run_update u now) (pipeline_runs s)\<rparr>))"

definition setStepOutput ::
  "string \<Rightarrow> string \<Rightarrow> jobject \<Rightarrow> timestamp \<Rightarrow> db \<Rightarrow> pipeline_run option \<times> db" where
  "setStepOutput runId stepName output now s =
     (let f = (\<lambda>r. r\<lparr>pr_step_outputs_json :=
                 Some (jsonb_concat (case pr_step_outputs_json r of None \<Rightarrow> [] | Some kvs \<Rightarrow> kvs)
                   [(stepName, JObj output)]),
                 pr_updated_at := now\<rparr>)
      in (map_option f (findRunById runId s),
          s\<lparr>pipeline_runs := update_where (\<lambda>r. pr_id r = runId) f (pipeline_runs s)\<rparr>))"

definition createStepRun :: "step_run \<Rightarrow> timestamp \<Rightarrow> db \<Rightarrow> (db_error + step_run) \<times> db" where
  "createStepRun step now s =
     (if exists_row (\<lambda>r. st_id r = st_id step) (pipeline_step_runs s) then (Inl Unique_violation, s)
      else if \<not> exists_row (\<lambda>r. pr_id r = st_pipeline_run_id step) (pipeline_runs s)
        then (Inl Foreign_key_violation, s)
      else let row = step\<lparr>st_created_at := now, st_updated_at := now\<rparr>
           in (Inr row, s\<lparr>pipeline_step_runs := pipeline_step_runs s @ [row]\<rparr>))"

definition listStepRuns :: "string \<Rightarrow> db \<Rightarrow> step_run list" where
  "listStepRuns runId s =
     order_by st_step_index (filter (\<lambda>r. st_pipeline_run_id r = runId) (pipeline_step_runs s))"

definition findStepRunById :: "string \<Rightarrow> db \<Rightarrow> step_run option" where
  "findStepRunById i s = find_row (\<lambda>r. st_id r = i) (pipeline_step_runs s)"

text \<open>
  Deleting runs cascades to their step runs; it fails when a job still refers to a run or an
  execution log to a step run.
\<close>

definition hardDeleteByPipelineName :: "string \<Rightarrow> string \<Rightarrow> db \<Rightarrow> (db_error + nat) \<times> db" where
  "hardDeleteByPipelineName projectId pipelineName s =
     (let P = (\<lambda>r. pr_project_id r = projectId \<and> pr_pipeline_name r = pipelineName);
          gone = map pr_id (filter P (pipeline_runs s));
          steps = map st_id (filter (\<lambda>r. st_pipeline_run_id r \<in> set gone) (pipeline_step_runs s))
      in if exists_row (\<lambda>j. case j_run_id j of None \<Rightarrow> False | Some r \<Rightarrow> r \<in> set gone) (jobs s) \<or>
            exists_row (\<lambda>l. case e_step_run_id l of None \<Rightarrow> False | Some r \<Rightarrow> r \<in> set steps) (execution_logs s)
         then (Inl Foreign_key_violation, s)
         else (Inr (length gone),
               s\<lparr>pipeline_runs := delete_where P (pipeline_runs s),
                 pipeline_step_runs := delete_where (\<lambda>r. st_pipeline_run_id r \<in> set gone) (pipeline_step_runs s)\<rparr>))"

record step_update =
  su_status :: "string option"
  su_started_at :: "timestamp option option"
  su_completed_at :: "timestamp option option"
  su_error_message :: "string option option"
  su_logs_ref :: "string option option"
  su_input_json :: "jobject option option"
  su_output_json :: "jobject option option"
  su_result_text :: "string option option"
  su_result_json :: "jobject option option"
  su_exit_code :: "int option option"
  su_duration_ms :: "int option option"

definition no_step_update :: step_update where
  "no_step_update = \<lparr>su_status = None, su_started_at = None, su_completed_at = None, su_error_message = None,
     su_logs_ref = None, su_input_json = None, su_output_json = None, su_result_text = None,
     su_result_json = None, su_exit_code = None, su_duration_ms = None\<rparr>"

definition apply_step_update :: "step_update \<Rightarrow> timestamp \<Rightarrow> step_run \<Rightarrow> step_run" where
  "apply_step_update u now r = r\<lparr>
     st_status := or_keep (su_status u) (st_status r),
     st_started_at := or_keep (su_started_at u) (st_started_at r),
     st_completed_at := or_keep (su_completed_at u) (st_completed_at r),
     st_error_message := or_keep (su_error_message u) (st_error_message r),
     st_logs_ref := or_keep (su_logs_ref u) (st_logs_ref r),
     st_input_json := or_keep (su_input_json u) (st_input_json r),
     st_output_json := or_keep (su_output_json u) (st_output_json r),
     st_result_text := or_keep (su_result_text u) (st_result_text r),
     st_result_json := or_keep (su_result_json u) (st_result_json r),
     st_exit_code := or_keep (su_exit_code u) (st_exit_code r),
     st_duration_ms := or_keep (su_duration_ms u) (st_duration_ms r),
     st_updated_at := now\<rparr>"

definition updateStepRun :: "string \<Rightarrow> step_update \<Rightarrow> timestamp \<Rightarrow> db \<Rightarrow> step_run option \<times> db" where
  "updateStepRun i u now s =
     (if u = no_step_update then (findStepRunById i s, s)
      else (map_option (apply_step_update u now) (findStepRunById i s),
            s\<lparr>pipeline_step_runs := update_where (\<lambda>r. st_id r = i) (apply_step_update u now) (pipeline_step_runs s)\<rparr>))"

subsection \<open>Execution logs\<close>

definition max_seq :: "execution_log list \<Rightarrow> int" where
  "max_seq rows = (case map e_seq rows of [] \<Rightarrow> 0 | n # ns \<Rightarrow> fold max ns n)"

definition logs_of :: "string \<Rightarrow> db \<Rightarrow> execution_log list" where
  "logs_of attemptId s = filter (\<lambda>l. e_attempt_id l = Some attemptId) (execution_logs s)"

definition step_logs_of :: "string \<Rightarrow> db \<Rightarrow> execution_log list" where
  "step_logs_of stepRunId s = filter (\<lambda>l. e_step_run_id l = Some stepRunId) (execution_logs s)"

definition appendLog ::
  "string \<Rightarrow> string \<Rightarrow> jobject \<Rightarrow> timestamp \<Rightarrow> string \<Rightarrow> db \<Rightarrow> (db_error + execution_log) \<times> db" where
  "appendLog attemptId type content now uuid s =
     (let row = \<lparr>e_id = uuid, e_attempt_id = Some attemptId, e_step_run_id = None,
                 e_seq = max_seq (logs_of attemptId s) + 1, e_type = type, e_content = content,
                 e_created_at = now\<rparr>
      in if exists_row (\<lambda>l. e_id l = uuid) (execution_logs s) then (Inl Unique_violation, s)
         else (Inr row, s\<lparr>execution_logs := execution_logs s @ [row]\<rparr>))"

definition appendStepLog ::
  "string \<Rightarrow> string \<Rightarrow> jobject \<Rightarrow> timestamp \<Rightarrow> string \<Rightarrow> db \<Rightarrow> (db_error + execution_log) \<times> db" where
  "appendStepLog stepRunId type content now uuid s =
     (let row = \<lparr>e_id = uuid, e_attempt_id = None, e_step_run_id = Some stepRunId,
                 e_seq = max_seq (step_logs_of stepRunId s) + 1, e_type = type, e_content = content,
                 e_created_at = now\<rparr>
      in if exists_row (\<lambda>l. e_id l = uuid) (execution_logs s) then (Inl Unique_violation, s)
         else if findStepRunById stepRunId s = None then (Inl Foreign_key_violation, s)
         else (Inr row, s\<lparr>execution_logs := execution_logs s @ [row]\<rparr>))"

fun appendLogsBatch ::
  "string \<Rightarrow> (string \<times> jobject) list \<Rightarrow> timestamp \<Rightarrow> string list \<Rightarrow> db \<Rightarrow>
    (db_error + execution_log list) \<times> db" where
  "appendLogsBatch attemptId ((type, content) # entries) now (uuid # uuids) s =
     (case appendLog attemptId type content now uuid s of
        (Inl e, s1) \<Rightarrow> (Inl e, s1)
      | (Inr row, s1) \<Rightarrow>
          (case appendLogsBatch attemptId entries now uuids s1 of
             (Inl e, s2) \<Rightarrow> (Inl e, s2)
           | (Inr rows, s2) \<Rightarrow> (Inr (row # rows), s2)))"
| "appendLogsBatch attemptId _ now _ s = (Inr [], s)"

definition listLogs :: "string \<Rightarrow> int option \<Rightarrow> db \<Rightarrow> execution_log list" where
  "listLogs attemptId afterSeq s =
     order_by e_seq (filter (\<lambda>l. case afterSeq of None \<Rightarrow> True | Some n \<Rightarrow> n < e_seq l) (logs_of attemptId s))"

definition listStepLogs :: "string \<Rightarrow> int option \<Rightarrow> db \<Rightarrow> execution_log list" where
  "listStepLogs stepRunId afterSeq s =
     order_by e_seq (filter (\<lambda>l. case afterSeq of None \<Rightarrow> True | Some n \<Rightarrow> n < e_seq l) (step_logs_of stepRunId s))"

subsection \<open>Laws\<close>

definition same_live_key :: "pipeline_run \<Rightarrow> pipeline_run \<Rightarrow> bool" where
  "same_live_key r r' =
     (pr_dedupe_key r \<noteq> None \<and> pr_dedupe_key r = pr_dedupe_key r' \<and>
      \<not> run_terminal (pr_status r) \<and> \<not> run_terminal (pr_status r'))"

definition dedupe_unique :: "db \<Rightarrow> bool" where
  "dedupe_unique s =
     (distinct (map pr_id (pipeline_runs s)) \<and>
      (\<forall>r \<in> set (pipeline_runs s). \<forall>r' \<in> set (pipeline_runs s). same_live_key r r' \<longrightarrow> pr_id r = pr_id r'))"

lemma same_live_key_sym: "same_live_key r r' \<Longrightarrow> same_live_key r' r"
  by (auto simp: same_live_key_def)

lemma conflict_iff:
  "dedupe_conflict run s \<longleftrightarrow> (\<exists>r \<in> set (pipeline_runs s). same_live_key run r \<and> pr_id r \<noteq> pr_id run)"
  unfolding dedupe_conflict_def same_live_key_def exists_row_iff by metis

lemma no_conflictD:
  assumes "\<not> dedupe_conflict run s" "r \<in> set (pipeline_runs s)" "same_live_key run r"
  shows "pr_id r = pr_id run"
  using assms unfolding conflict_iff by blast

lemma dedupe_uniqueD:
  "dedupe_unique s \<Longrightarrow> r \<in> set (pipeline_runs s) \<Longrightarrow> r' \<in> set (pipeline_runs s) \<Longrightarrow> same_live_key r r' \<Longrightarrow>
   pr_id r = pr_id r'"
  unfolding dedupe_unique_def by blast

text \<open>One row changes or is new; it conflicts with no other row.\<close>

lemma dedupe_unique_change:
  assumes old: "dedupe_unique s"
    and ids: "distinct (map pr_id (pipeline_runs s'))"
    and rows: "\<And>r. r \<in> set (pipeline_runs s') \<Longrightarrow> r = new \<or> r \<in> set (pipeline_runs s)"
    and new: "\<And>r. r \<in> set (pipeline_runs s) \<Longrightarrow> same_live_key new r \<Longrightarrow> pr_id r = pr_id new"
  shows "dedupe_unique s'"
  unfolding dedupe_unique_def
proof (intro conjI ballI impI ids)
  fix a b assume a: "a \<in> set (pipeline_runs s')" and b: "b \<in> set (pipeline_runs s')" and ab: "same_live_key a b"
  from rows [OF a] show "pr_id a = pr_id b"
  proof
    assume "a = new" then show ?thesis using rows [OF b] new [of b] ab by auto
  next
    assume a: "a \<in> set (pipeline_runs s)"
    from rows [OF b] show ?thesis
      using new [OF a] same_live_key_sym [OF ab] dedupe_uniqueD [OF old a _ ab] by auto
  qed
qed

lemma createRun_dedupe:
  assumes "dedupe_unique s"
  shows "dedupe_unique (snd (createRun run now s))"
proof (cases "fst (createRun run now s)")
  case (Inl e)
  then show ?thesis using assms by (auto simp: createRun_def Let_def split: if_splits)
next
  case (Inr row)
  let ?row = "run\<lparr>pr_created_at := now, pr_updated_at := now\<rparr>"
  have c: "\<not> dedupe_conflict run s" and fresh: "\<forall>r \<in> set (pipeline_runs s). pr_id r \<noteq> pr_id run"
    and eq: "snd (createRun run now s) = s\<lparr>pipeline_runs := pipeline_runs s @ [?row]\<rparr>"
    using Inr by (auto simp: createRun_def Let_def split: if_splits)
  show ?thesis unfolding eq
  proof (rule dedupe_unique_change [OF assms, where new = ?row])
    show "distinct (map pr_id (pipeline_runs (s\<lparr>pipeline_runs := pipeline_runs s @ [?row]\<rparr>)))"
      using assms fresh by (auto simp: dedupe_unique_def)
  next
    fix r assume "r \<in> set (pipeline_runs s)" "same_live_key ?row r"
    then show "pr_id r = pr_id ?row" using no_conflictD [OF c, of r] by (auto simp: same_live_key_def)
  qed auto
qed

lemma apply_run_update_id [simp]:
  "pr_id (apply_run_update u now r) = pr_id r"
  "pr_dedupe_key (apply_run_update u now r) = pr_dedupe_key r"
  by (simp_all add: apply_run_update_def)

lemma update_run_dedupe:
  assumes old: "dedupe_unique s" and keep: "\<And>r. pr_id (f r) = pr_id r"
    and r: "findRunById i s = Some r" and c: "\<not> dedupe_conflict (f r) s"
  shows "dedupe_unique (s\<lparr>pipeline_runs := update_where (\<lambda>r. pr_id r = i) f (pipeline_runs s)\<rparr>)" (is "dedupe_unique ?s'")
proof (rule dedupe_unique_change [OF old, where new = "f r"])
  have d: "distinct (map pr_id (pipeline_runs s))" using old by (simp add: dedupe_unique_def)
  then show "distinct (map pr_id (pipeline_runs ?s'))" by (simp add: map_update_where keep)
  have uniq: "x = r" if "x \<in> set (pipeline_runs s)" "pr_id x = i" for x
    using find_row_key [OF d that(1)] r that(2) by (simp add: findRunById_def)
  show "x = f r \<or> x \<in> set (pipeline_runs s)" if "x \<in> set (pipeline_runs ?s')" for x
    using that uniq by (auto elim!: in_set_update_whereE split: if_splits)
  show "pr_id x = pr_id (f r)" if "x \<in> set (pipeline_runs s)" "same_live_key (f r) x" for x
    using no_conflictD [OF c] that by blast
qed

lemma updateRun_dedupe:
  assumes "dedupe_unique s"
  shows "dedupe_unique (snd (updateRun i u now s))"
  using assms by (auto simp: updateRun_def intro!: update_run_dedupe split: option.split)

lemma setStepOutput_dedupe:
  assumes "dedupe_unique s"
  shows "dedupe_unique (snd (setStepOutput runId stepName out now s))"
proof (cases "findRunById runId s")
  case None
  then have "\<forall>r \<in> set (pipeline_runs s). pr_id r \<noteq> runId" by (simp add: findRunById_def find_row_None)
  then show ?thesis using assms by (simp add: setStepOutput_def Let_def update_where_False)
next
  case (Some r)
  then have "r \<in> set (pipeline_runs s)" using find_row_Some by (fastforce simp: findRunById_def)
  then have "\<not> dedupe_conflict r s"
    using dedupe_uniqueD [OF assms, of r] unfolding conflict_iff by metis
  then show ?thesis unfolding setStepOutput_def Let_def snd_conv
    by (intro update_run_dedupe [OF assms _ Some]) (simp_all add: dedupe_conflict_def)
qed

text \<open>The lines of an attempt are numbered in the order they were appended.\<close>

lemma max_seq_ge: "l \<in> set rows \<Longrightarrow> e_seq l \<le> max_seq rows"
proof -
  have ge: "(n :: int) \<le> fold max ns n" for ns n 
  proof (induction ns arbitrary: n)
    case (Cons y ns)
    then show ?case by (metis fold_simps(2) max.bounded_iff)
  qed simp
  have mem: "x \<in> set ns \<Longrightarrow> x \<le> fold max ns (n :: int)" for x ns n
  proof (induction ns arbitrary: n)
    case (Cons y ns)
    then show ?case using ge [of "max y n" ns] by (auto simp: max.commute)
  qed simp
  show "l \<in> set rows \<Longrightarrow> e_seq l \<le> max_seq rows"
    using ge mem by (cases rows) (auto simp: max_seq_def)
qed

end
