(* ===== verification/Job_Hierarchy.thy ===== *)
theory Job_Hierarchy
  imports Job_Crud
begin

section \<open>Job hierarchy and dependencies\<close>

text \<open>
  \<^verbatim>\<open>packages/db/src/queries/jobs/hierarchy.ts\<close>. \<^verbatim>\<open>getHierarchy\<close> is a recursive query with
  \<^verbatim>\<open>UNION ALL\<close>: it adds the children of the last level until a level is empty. The model runs the levels
  with a fuel; \<open>None\<close> is a query that is still running when the fuel is spent.
\<close>

definition children_of_level :: "db \<Rightarrow> job list \<Rightarrow> job list" where
  "children_of_level s level =
     concat (map (\<lambda>jt. filter (\<lambda>j. j_parent_id j = Some (j_id jt)) (jobs s)) level)"

fun job_tree :: "nat \<Rightarrow> db \<Rightarrow> job list \<Rightarrow> job list option" where
  "job_tree 0 s level = None"
| "job_tree (Suc fuel) s level =
     (if level = [] then Some []
      else map_option (\<lambda>rest. level @ rest) (job_tree fuel s (children_of_level s level)))"

definition getHierarchy :: "nat \<Rightarrow> string \<Rightarrow> db \<Rightarrow> job list option" where
  "getHierarchy fuel rootId s =
     map_option (order_by (\<lambda>j. (j_depth j, j_created_at j)))
       (job_tree fuel s (filter (\<lambda>j. j_id j = rootId) (jobs s)))"

definition getChildren :: "string \<Rightarrow> db \<Rightarrow> job list" where
  "getChildren jobId s = order_by j_created_at (filter (\<lambda>j. j_parent_id j = Some jobId) (jobs s))"

definition addDependency ::
  "string \<Rightarrow> string \<Rightarrow> string \<Rightarrow> string \<Rightarrow> db \<Rightarrow> (exn + string) \<times> db" where
  "addDependency fromId toId relationType uuid s =
     (if findById fromId s = None then (Inl (Error (''Job not found: '' @ fromId)), s)
      else if findById toId s = None then (Inl (Error (''Job not found: '' @ toId)), s)
      else case relation_type_of relationType of
          None \<Rightarrow> (Inl (Db_error Check_violation), s)
        | Some t \<Rightarrow>
            if fromId = toId then (Inl (Db_error Check_violation), s)
            else if exists_row (\<lambda>r. r_job_id r = fromId \<and> r_related_job_id r = toId \<and>
                r_relation_type r = t) (job_relations s)
              then (Inr [], s)
            else if exists_row (\<lambda>r. r_id r = uuid) (job_relations s)
              then (Inl (Db_error Unique_violation), s)
            else (Inr uuid, s\<lparr>job_relations := job_relations s @
                [\<lparr>r_id = uuid, r_job_id = fromId, r_related_job_id = toId, r_relation_type = t\<rparr>]\<rparr>))"

definition removeDependency :: "string \<Rightarrow> string \<Rightarrow> db \<Rightarrow> bool \<times> db" where
  "removeDependency fromId toId s =
     (let P = (\<lambda>r. r_job_id r = fromId \<and> r_related_job_id r = toId)
      in (exists_row P (job_relations s),
          s\<lparr>job_relations := delete_where P (job_relations s)\<rparr>))"

text \<open>The rank of a phase in alphabetical order, for \<^verbatim>\<open>ORDER BY j.phase DESC\<close>.\<close>

fun phase_alpha :: "phase \<Rightarrow> int" where
  "phase_alpha Active = 0"
| "phase_alpha Backlog = 1"
| "phase_alpha Cancelled = 2"
| "phase_alpha Done = 3"
| "phase_alpha Idea = 4"
| "phase_alpha Ready = 5"
| "phase_alpha Review = 6"

definition join_jobs ::
  "(job_relation \<Rightarrow> bool) \<Rightarrow> (job_relation \<Rightarrow> string) \<Rightarrow> db \<Rightarrow> (job \<times> relation_type) list" where
  "join_jobs P other s =
     concat (map (\<lambda>r. map (\<lambda>j. (j, r_relation_type r)) (filter (\<lambda>j. j_id j = other r) (jobs s)))
       (filter P (job_relations s)))"

definition getDependencies :: "string \<Rightarrow> db \<Rightarrow> (job \<times> relation_type) list" where
  "getDependencies jobId s =
     order_by (\<lambda>(j, _). (- phase_alpha (j_phase j), j_priority j))
       (join_jobs (\<lambda>r. r_job_id r = jobId) r_related_job_id s)"

definition getDependents :: "string \<Rightarrow> db \<Rightarrow> (job \<times> relation_type) list" where
  "getDependents jobId s =
     order_by (\<lambda>(j, _). (- phase_alpha (j_phase j), j_priority j))
       (join_jobs (\<lambda>r. r_related_job_id r = jobId) r_job_id s)"

definition getBlockingJobs :: "string \<Rightarrow> db \<Rightarrow> (job \<times> relation_type) list" where
  "getBlockingJobs jobId s =
     order_by (\<lambda>(j, _). (j_priority j, j_created_at j))
       (filter (\<lambda>(j, _). \<not> terminal_phase (j_phase j))
         (join_jobs (\<lambda>r. r_job_id r = jobId \<and> blocking_relation (r_relation_type r)) r_related_job_id s))"

subsection \<open>Laws\<close>

lemma set_join_jobs:
  "set (join_jobs P other s) =
     {(j, t). j \<in> set (jobs s) \<and> (\<exists>r \<in> set (job_relations s). P r \<and> j_id j = other r \<and> t = r_relation_type r)}"
  by (auto simp: join_jobs_def)

lemma getBlockingJobs_empty_iff: "getBlockingJobs i s = [] \<longleftrightarrow> \<not> isBlocked i s"
proof -
  have "getBlockingJobs i s = [] \<longleftrightarrow> set (getBlockingJobs i s) = {}" by simp
  then show ?thesis by (auto simp: getBlockingJobs_def set_join_jobs isBlocked_iff)
qed

text \<open>
  In a table whose jobs come after their parents (which is how \<^verbatim>\<open>create\<close> fills it) the levels of the
  hierarchy move towards the end of the table, so the recursion ends.
\<close>

definition parents_first :: "db \<Rightarrow> bool" where
  "parents_first s = (\<forall>i < length (jobs s). \<forall>p. j_parent_id (jobs s ! i) = Some p \<longrightarrow>
     (\<forall>k < length (jobs s). j_id (jobs s ! k) = p \<longrightarrow> k < i))"

definition level_from :: "db \<Rightarrow> nat \<Rightarrow> job list \<Rightarrow> bool" where
  "level_from s n level =
     (\<forall>j \<in> set level. \<exists>i. n \<le> i \<and> i < length (jobs s) \<and> jobs s ! i = j)"

lemma children_of_level_from:
  assumes "parents_first s" and "level_from s n level"
  shows "level_from s (Suc n) (children_of_level s level)"
  unfolding level_from_def
proof
  fix c assume "c \<in> set (children_of_level s level)"
  then obtain p where p: "p \<in> set level" "c \<in> set (jobs s)" "j_parent_id c = Some (j_id p)"
    by (auto simp: children_of_level_def)
  obtain i where i: "n \<le> i" "i < length (jobs s)" "jobs s ! i = p"
    using assms(2) p(1) by (auto simp: level_from_def)
  obtain k where k: "k < length (jobs s)" "jobs s ! k = c"
    using p(2) by (auto simp: in_set_conv_nth)
  have "i < k" using assms(1) i k p(3) by (auto simp: parents_first_def)
  with i k show "\<exists>k. Suc n \<le> k \<and> k < length (jobs s) \<and> jobs s ! k = c"
    by (intro exI [of _ k]) simp
qed

lemma job_tree_terminates:
  assumes "parents_first s" and "level_from s n level" and "n \<le> length (jobs s)"
    and "length (jobs s) < fuel + n"
  shows "\<exists>t. job_tree fuel s level = Some t"
  using assms(2-)
proof (induction fuel arbitrary: n level)
  case (Suc fuel)
  show ?case
  proof (cases "level = []")
    case False
    then have "n < length (jobs s)" using Suc.prems(1) by (cases level) (auto simp: level_from_def)
    then have "\<exists>t. job_tree fuel s (children_of_level s level) = Some t"
      using Suc.IH [OF children_of_level_from [OF assms(1) Suc.prems(1)]] Suc.prems(3) by simp
    with False show ?thesis by auto
  qed simp
qed simp

inductive descendant :: "db \<Rightarrow> string \<Rightarrow> job \<Rightarrow> bool" for s rid where
  self: "j \<in> set (jobs s) \<Longrightarrow> j_id j = rid \<Longrightarrow> descendant s rid j"
| child: "descendant s rid p \<Longrightarrow> c \<in> set (jobs s) \<Longrightarrow> j_parent_id c = Some (j_id p) \<Longrightarrow>
    descendant s rid c"

inductive_cases descendantE: "descendant s rid j"

lemma job_tree_sound:
  assumes "job_tree fuel s level = Some t" and "\<forall>j \<in> set level. descendant s rid j"
  shows "\<forall>j \<in> set t. descendant s rid j"
  using assms
proof (induction fuel arbitrary: level t)
  case (Suc fuel)
  have kids: "\<forall>j \<in> set (children_of_level s level). descendant s rid j"
    using Suc.prems(2) by (auto simp: children_of_level_def intro: descendant.child)
  show ?case
  proof (cases "level = []")
    case False
    then obtain t' where t': "job_tree fuel s (children_of_level s level) = Some t'" "t = level @ t'"
      using Suc.prems(1) by auto
    with Suc.IH [OF t'(1) kids] Suc.prems(2) show ?thesis by auto
  qed (use Suc.prems in simp)
qed simp

lemma job_tree_closed:
  assumes "job_tree fuel s level = Some t" and "p \<in> set t" and "c \<in> set (jobs s)"
    and "j_parent_id c = Some (j_id p)"
  shows "c \<in> set t"
  using assms(1,2)
proof (induction fuel arbitrary: level t)
  case (Suc fuel)
  show ?case
  proof (cases "level = []")
    case False
    then obtain t' where t': "job_tree fuel s (children_of_level s level) = Some t'" "t = level @ t'"
      using Suc.prems(1) by auto
    show ?thesis
    proof (cases "p \<in> set level")
      case True
      then have "c \<in> set (children_of_level s level)"
        using assms(3,4) by (auto simp: children_of_level_def)
      moreover have "set (children_of_level s level) \<subseteq> set t'"
        using t'(1) by (cases fuel) (auto split: if_splits)
      ultimately show ?thesis using t'(2) by auto
    next
      case no: False
      then show ?thesis using Suc.IH [OF t'(1)] Suc.prems(2) t'(2) by auto
    qed
  qed (use Suc.prems in simp)
qed simp

lemma getHierarchy_set:
  assumes "getHierarchy fuel rid s = Some t"
  shows "set t = {j. descendant s rid j}"
proof -
  let ?roots = "filter (\<lambda>j. j_id j = rid) (jobs s)"
  obtain u where u: "job_tree fuel s ?roots = Some u" "set t = set u"
    using assms by (auto simp: getHierarchy_def)
  have sub: "set ?roots \<subseteq> set u"
    using u(1) by (cases fuel) (auto simp: filter_empty_conv split: if_splits)
  have "j \<in> set u" if "descendant s rid j" for j
    using that
  proof induction
    case (self j)
    then show ?case using sub by auto
  next
    case (child p c)
    then show ?case using job_tree_closed [OF u(1)] by blast
  qed
  moreover have "\<forall>j \<in> set u. descendant s rid j"
    using job_tree_sound [OF u(1)] by (auto intro: descendant.self)
  ultimately show ?thesis using u(2) by auto
qed

end
