(* ===== verification/Job_Ids.thy ===== *)
theory Job_Ids
  imports Job_Model
begin

section \<open>Job identifiers\<close>

text \<open>
  \<^verbatim>\<open>packages/db/src/queries/jobs/ids.ts\<close>. A root id is \<^verbatim>\<open>slug-hash\<close>, a child id \<^verbatim>\<open>parent.n\<close>. The
  hashes drawn by successive retries are the list \<open>hashes\<close> (the first eight hex digits of the SHA-256
  of the slug, the clock and random bytes); \<open>None\<close> is a call that has not returned when the list
  is used up.
\<close>

definition jobExists :: "string \<Rightarrow> db \<Rightarrow> bool" where
  "jobExists i s = exists_row (\<lambda>j. j_id j = i) (jobs s)"

definition resolveProjectForJobId :: "string \<Rightarrow> db \<Rightarrow> exn + string \<times> string" where
  "resolveProjectForJobId projectInput s =
     (if starts_with ''proj_'' projectInput then
        (case find_row (\<lambda>p. p_id p = projectInput) (projects s) of
           None \<Rightarrow> Inl (Error (''Project not found: '' @ projectInput))
         | Some p \<Rightarrow> Inr (p_id p, p_slug p))
      else
        (case find_row (\<lambda>p. p_slug p = projectInput) (projects s) of
           None \<Rightarrow> Inl (Error (''Project not found: '' @ projectInput))
         | Some p \<Rightarrow> Inr (p_id p, p_slug p)))"

definition resolveProjectSlug :: "string \<Rightarrow> db \<Rightarrow> exn + string" where
  "resolveProjectSlug projectInput s =
     (if starts_with ''proj_'' projectInput then
        (case find_row (\<lambda>p. p_id p = projectInput) (projects s) of
           None \<Rightarrow> Inl (Error (''Project not found: '' @ projectInput))
         | Some p \<Rightarrow> Inr (p_id p))
      else
        (case find_row (\<lambda>p. p_slug p = projectInput) (projects s) of
           None \<Rightarrow> Inl (Error (''Project not found: '' @ projectInput))
         | Some p \<Rightarrow> Inr (p_id p)))"

text \<open>\<^verbatim>\<open>CAST(... AS INT)\<close> of an optionally signed decimal numeral, within 32 bits.\<close>

definition read_int :: "string \<Rightarrow> int option" where
  "read_int t =
     (case t of
        [] \<Rightarrow> None
      | c # cs \<Rightarrow>
          if c = CHR ''-'' then map_option (\<lambda>n. - int n) (read_nat cs)
          else if c = CHR ''+'' then map_option int (read_nat cs)
          else map_option int (read_nat (c # cs)))"

definition int4 :: "int \<Rightarrow> bool" where
  "int4 n = (- 2147483648 \<le> n \<and> n \<le> 2147483647)"

definition cast_int :: "string \<Rightarrow> db_error + int" where
  "cast_int t =
     (case read_int t of
        None \<Rightarrow> Inl Invalid_text_representation
      | Some n \<Rightarrow> if int4 n then Inr n else Inl Numeric_out_of_range)"

definition last_part :: "string \<Rightarrow> string" where
  "last_part i = last (split_on (CHR ''.'') i)"

fun max_child :: "int option \<Rightarrow> string list \<Rightarrow> db_error + int option" where
  "max_child acc [] = Inr acc"
| "max_child acc (i # is) =
     (case cast_int (last_part i) of
        Inl e \<Rightarrow> Inl e
      | Inr n \<Rightarrow> max_child (Some (case acc of None \<Rightarrow> n | Some m \<Rightarrow> max m n)) is)"

definition getNextChildSequence :: "string \<Rightarrow> db \<Rightarrow> db_error + int" where
  "getNextChildSequence parentId s =
     (case max_child None (map j_id (filter (\<lambda>j. j_parent_id j = Some parentId) (jobs s))) of
        Inl e \<Rightarrow> Inl e
      | Inr m \<Rightarrow>
          let n = (case m of None \<Rightarrow> 0 | Some m \<Rightarrow> m) + 1
          in if int4 n then Inr n else Inl Numeric_out_of_range)"

fun fresh_root_id :: "string \<Rightarrow> string list \<Rightarrow> db \<Rightarrow> string option" where
  "fresh_root_id slug [] s = None"
| "fresh_root_id slug (h # hs) s =
     (let i = slug @ ''-'' @ take 8 h
      in if jobExists i s then fresh_root_id slug hs s else Some i)"

definition generateJobId ::
  "string \<Rightarrow> string option \<Rightarrow> string list \<Rightarrow> db \<Rightarrow> (exn + string \<times> string) option" where
  "generateJobId projectInput parentId hashes s =
     (case resolveProjectForJobId projectInput s of
        Inl e \<Rightarrow> Some (Inl e)
      | Inr (projectId, slug) \<Rightarrow>
          (case parentId of
             Some (p # ps) \<Rightarrow>
               let parent = p # ps
               in if 3 \<le> length (split_on (CHR ''.'') parent)
                  then Some (Inl (Error ''Max hierarchy depth (3) exceeded''))
                  else (case getNextChildSequence parent s of
                          Inl e \<Rightarrow> Some (Inl (Db_error e))
                        | Inr n \<Rightarrow> Some (Inr (parent @ ''.'' @ show_int n, projectId)))
           | _ \<Rightarrow> map_option (\<lambda>i. Inr (i, projectId)) (fresh_root_id slug hashes s)))"

subsection \<open>Laws\<close>

lemma last_part_child: "last_part (p @ CHR ''.'' # show_nat n) = show_nat n"
  by (simp add: last_part_def split_on_append_sep split_on_no_sep)

lemma read_int_show_nat: "read_int (show_nat n) = Some (int n)"
proof -
  obtain c cs where c: "show_nat n = c # cs" by (cases "show_nat n") auto
  then have "digit_value c \<noteq> None" using show_nat_digits [of c n] by simp
  then have "c \<noteq> CHR ''-'' \<and> c \<noteq> CHR ''+''" by (auto simp: digit_value_def)
  then show ?thesis using read_nat_show_nat [of n] c by (simp add: read_int_def)
qed

lemma max_child_bound:
  assumes "max_child acc is = Inr m"
  shows "(\<forall>i \<in> set is. \<exists>n. cast_int (last_part i) = Inr n \<and> (\<exists>k. m = Some k \<and> n \<le> k)) \<and>
    (\<forall>a. acc = Some a \<longrightarrow> (\<exists>k. m = Some k \<and> a \<le> k))"
  using assms
proof (induction "is" arbitrary: acc)
  case (Cons i "is")
  obtain n where n: "cast_int (last_part i) = Inr n"
    using Cons.prems by (auto split: sum.splits)
  let ?acc = "Some (case acc of None \<Rightarrow> n | Some m \<Rightarrow> max m n)"
  have rest: "max_child ?acc is = Inr m" using Cons.prems n by simp
  from Cons.IH [OF rest] show ?case
    using n by (auto split: option.splits)
qed simp

text \<open>The next sequence number exceeds the number of every child that has one.\<close>

lemma getNextChildSequence_fresh:
  assumes "getNextChildSequence p s = Inr n" and "j \<in> set (jobs s)" and "j_parent_id j = Some p"
  shows "j_id j \<noteq> p @ ''.'' @ show_int n"
proof
  assume eq: "j_id j = p @ ''.'' @ show_int n"
  obtain m where m: "max_child None (map j_id (filter (\<lambda>j. j_parent_id j = Some p) (jobs s))) = Inr m"
      "n = (case m of None \<Rightarrow> 0 | Some m \<Rightarrow> m) + 1"
    using assms(1) by (auto simp: getNextChildSequence_def Let_def split: sum.splits if_splits)
  from max_child_bound [OF m(1)] assms(2,3) obtain k v where
    kv: "m = Some k" "cast_int (last_part (j_id j)) = Inr v" "v \<le> k" by fastforce
  show False
  proof (cases "0 \<le> n")
    case True
    then have "cast_int (last_part (j_id j)) = (if int4 n then Inr n else Inl Numeric_out_of_range)"
      by (simp add: eq show_int_def last_part_child cast_int_def read_int_show_nat)
    then show False using kv m(2) by (auto split: if_splits)
  next
    case False
    have dots: "CHR ''.'' \<notin> set (show_int n)" by (simp add: show_int_def)
    have "last_part (j_id j) = show_int n"
      using dots by (simp add: eq last_part_def split_on_append_sep split_on_no_sep)
    moreover have "cast_int (show_int n) = (if int4 n then Inr n else Inl Numeric_out_of_range)"
      using False by (simp add: show_int_def cast_int_def read_int_def)
    ultimately show False using kv m(2) by (auto split: if_splits)
  qed
qed

lemma fresh_root_id_fresh: "fresh_root_id slug hs s = Some i \<Longrightarrow> \<not> jobExists i s"
  by (induction hs) (auto simp: Let_def split: if_splits)

lemma fresh_root_id_returns:
  "(\<exists>h \<in> set hs. \<not> jobExists (slug @ ''-'' @ take 8 h) s) \<longleftrightarrow> (\<exists>i. fresh_root_id slug hs s = Some i)"
  by (induction hs) (auto simp: Let_def)

end
