(* ===== verification/Access_Scopes.thy ===== *)
theory Access_Scopes
  imports Loop_Control
begin

section \<open>Resource scopes\<close>

text \<open>
  The scope of a grant (\<^verbatim>\<open>packages/shared/src/schemas/access-scope.ts\<close>), how \<^verbatim>\<open>evaluateScope\<close> of
  \<^verbatim>\<open>apps/api/src/auth/access.service.ts\<close> decides a resource by it, and the intersection of scopes in
  \<^verbatim>\<open>apps/api/src/workflows/scope-algebra.ts\<close>. A JavaScript regular expression is the list of its atoms: the
  sources escape every character that is not a star.
\<close>

record prefix_scope =
  allow_prefixes :: "string list option"
  read_only_prefixes :: "string list option"

record envdb_scope =
  schemas :: "string list option"
  tables :: "string list option"

record cloud_fs_scope =
  allow_mount_ids :: "string list option"

record access_scope =
  s_orgfs :: "prefix_scope option"
  s_orgdocs :: "prefix_scope option"
  s_envdb :: "envdb_scope option"
  s_cloud_fs :: "cloud_fs_scope option"

datatype resource_type = Orgfs | Orgdocs | Envdb | Cloud_fs

datatype resource_action = Act_read | Act_write | Act_admin

record resource =
  r_type :: resource_type
  r_id :: string
  r_action :: resource_action

record scope_evaluation =
  scope_required :: bool
  scope_matched :: bool
  se_reason :: "string option"

fun resource_name :: "resource_type \<Rightarrow> string" where
  "resource_name Orgfs = ''orgfs''"
| "resource_name Orgdocs = ''orgdocs''"
| "resource_name Envdb = ''envdb''"
| "resource_name Cloud_fs = ''cloud_fs''"

definition permissionResourceType :: "string \<Rightarrow> resource_type option" where
  "permissionResourceType permission =
     (if starts_with ''orgfs:'' permission then Some Orgfs
      else if starts_with ''orgdocs:'' permission then Some Orgdocs
      else if starts_with ''envdb:'' permission then Some Envdb
      else if starts_with ''cloud_fs:'' permission then Some Cloud_fs
      else None)"

definition scopeRequiredForPermission :: "string \<Rightarrow> bool" where
  "scopeRequiredForPermission permission = (permissionResourceType permission \<noteq> None)"

subsection \<open>Patterns\<close>

text \<open>\<^verbatim>\<open>replace(/\/+/g, '/')\<close>.\<close>

fun collapse_slashes :: "string \<Rightarrow> string" where
  "collapse_slashes [] = []"
| "collapse_slashes [c] = [c]"
| "collapse_slashes (c # d # cs) =
     (if c = CHR ''/'' \<and> d = CHR ''/'' then collapse_slashes (d # cs) else c # collapse_slashes (d # cs))"

definition normalizeScopedPath :: "string \<Rightarrow> string" where
  "normalizeScopedPath path =
     (let trimmed = js_trim path
      in if trimmed = [] then ''/''
         else collapse_slashes (if starts_with ''/'' trimmed then trimmed else ''/'' @ trimmed))"

text \<open>The atoms \<^verbatim>\<open>c\<close> (escaped), \<^verbatim>\<open>[^/]*\<close> and \<^verbatim>\<open>.*\<close>; a dot matches no line terminator.\<close>

datatype atom = Chr char | Seg_star | Any_star

definition line_terminator :: "char \<Rightarrow> bool" where
  "line_terminator c = (c = CHR 10 \<or> c = CHR 13)"

function rx_test :: "atom list \<Rightarrow> string \<Rightarrow> bool" where
  "rx_test [] t = (t = [])"
| "rx_test (Chr c # r) [] = False"
| "rx_test (Chr c # r) (d # t) = (c = d \<and> rx_test r t)"
| "rx_test (Seg_star # r) [] = rx_test r []"
| "rx_test (Seg_star # r) (d # t) = (rx_test r (d # t) \<or> d \<noteq> CHR ''/'' \<and> rx_test (Seg_star # r) t)"
| "rx_test (Any_star # r) [] = rx_test r []"
| "rx_test (Any_star # r) (d # t) = (rx_test r (d # t) \<or> \<not> line_terminator d \<and> rx_test (Any_star # r) t)"
  by pat_completeness auto
termination by (relation "measure (\<lambda>(r, t). length r + length t)") auto

fun wildcardPathToRegExpSource :: "string \<Rightarrow> atom list" where
  "wildcardPathToRegExpSource [] = []"
| "wildcardPathToRegExpSource [c] = [if c = CHR ''*'' then Seg_star else Chr c]"
| "wildcardPathToRegExpSource (c # d # cs) =
     (if c = CHR ''*'' then
        if d = CHR ''*'' then Any_star # wildcardPathToRegExpSource cs
        else Seg_star # wildcardPathToRegExpSource (d # cs)
      else Chr c # wildcardPathToRegExpSource (d # cs))"

definition matchesPathPattern :: "string \<Rightarrow> string \<Rightarrow> bool" where
  "matchesPathPattern pattern value =
     (let normalizedPattern = normalizeScopedPath pattern; normalizedValue = normalizeScopedPath value
      in if CHR ''*'' \<notin> set normalizedPattern then
           normalizedValue = normalizedPattern \<or>
           starts_with (if ends_with ''/'' normalizedPattern then normalizedPattern else normalizedPattern @ ''/'') normalizedValue
         else rx_test (wildcardPathToRegExpSource normalizedPattern) normalizedValue)"

definition matchesIdentifierPattern :: "string \<Rightarrow> string \<Rightarrow> bool" where
  "matchesIdentifierPattern pattern value =
     (pattern = ''*'' \<or> rx_test (map (\<lambda>c. if c = CHR ''*'' then Any_star else Chr c) pattern) value)"

subsection \<open>Evaluation\<close>

definition required :: "bool \<Rightarrow> string \<Rightarrow> scope_evaluation" where
  "required ok reason = \<lparr>scope_required = True, scope_matched = ok, se_reason = Some reason\<rparr>"

definition wrong_type :: "resource \<Rightarrow> resource_type \<Rightarrow> scope_evaluation" where
  "wrong_type res t = required False (''resource type '' @ resource_name (r_type res) @ '' does not match required '' @ resource_name t)"

definition evaluatePrefixScope :: "resource_type \<Rightarrow> prefix_scope option \<Rightarrow> resource option \<Rightarrow> scope_evaluation" where
  "evaluatePrefixScope t scope resource =
     (let allowPrefixes = or_default [] (Option.bind scope allow_prefixes);
          readOnlyPrefixes = or_default [] (Option.bind scope read_only_prefixes)
      in if allowPrefixes = [] \<and> readOnlyPrefixes = [] then required False (''missing '' @ resource_name t @ '' scope prefixes'')
         else case resource of
           None \<Rightarrow> required True (resource_name t @ '' scope present'')
         | Some res \<Rightarrow>
             if r_type res \<noteq> t then wrong_type res t
             else
               let resourcePath = normalizeScopedPath (r_id res);
                   matchesAllow = list_ex (\<lambda>pattern. matchesPathPattern pattern resourcePath) allowPrefixes;
                   matchesReadOnly = list_ex (\<lambda>pattern. matchesPathPattern pattern resourcePath) readOnlyPrefixes
               in if r_action res = Act_read then
                    if matchesAllow \<or> matchesReadOnly
                    then required True (''resource path '' @ resourcePath @ '' is in allowed scope'')
                    else required False (''resource path '' @ resourcePath @ '' is outside allowed scope'')
                  else if matchesAllow then required True (''resource path '' @ resourcePath @ '' is writable in scope'')
                  else if matchesReadOnly then required False (''resource path '' @ resourcePath @ '' is read-only'')
                  else required False (''resource path '' @ resourcePath @ '' is outside writable scope''))"

definition evaluateEnvDbScope :: "envdb_scope option \<Rightarrow> resource option \<Rightarrow> scope_evaluation" where
  "evaluateEnvDbScope scope resource =
     (let ss = or_default [] (Option.bind scope schemas); ts = or_default [] (Option.bind scope tables)
      in if ss = [] \<and> ts = [] then required False ''missing envdb schema/table scope''
         else case resource of
           None \<Rightarrow> required True ''envdb scope present''
         | Some res \<Rightarrow>
             if r_type res \<noteq> Envdb then wrong_type res Envdb
             else
               let identifier = js_trim (r_id res)
               in if identifier = [] then required False ''envdb resource id cannot be empty''
                  else
                    let parts = split_on (CHR ''.'') identifier;
                        schema = js_trim (hd parts);
                        tableName = js_trim (join_with ''.'' (tl parts));
                        schemaMatched = list_ex (\<lambda>pattern. matchesIdentifierPattern pattern schema) ss
                    in if tableName = [] then
                         required schemaMatched
                           (if schemaMatched then ''schema '' @ schema @ '' is in envdb scope''
                            else ''schema '' @ schema @ '' is outside envdb scope'')
                       else
                         let tableIdentifier = schema @ ''.'' @ tableName;
                             tableMatched = list_ex (\<lambda>pattern. matchesIdentifierPattern pattern tableIdentifier) ts
                         in if schemaMatched \<or> tableMatched
                            then required True (''table '' @ tableIdentifier @ '' is in envdb scope'')
                            else required False (''table '' @ tableIdentifier @ '' is outside envdb scope''))"

definition evaluateCloudFsScope :: "cloud_fs_scope option \<Rightarrow> resource option \<Rightarrow> scope_evaluation" where
  "evaluateCloudFsScope scope resource =
     (let allow = or_default [] (Option.bind scope allow_mount_ids)
      in if allow = [] then required False ''missing cloud_fs.allow_mount_ids''
         else case resource of
           None \<Rightarrow> required True ''cloud_fs scope present''
         | Some res \<Rightarrow>
             if r_type res \<noteq> Cloud_fs then wrong_type res Cloud_fs
             else if ''*'' \<in> set allow \<or> r_id res \<in> set allow
             then required True (''mount '' @ r_id res @ '' is in cloud_fs scope'')
             else required False (''mount '' @ r_id res @ '' is outside cloud_fs scope''))"

text \<open>Both an absent and a null scope are \<open>None\<close> here.\<close>

definition evaluateScope :: "access_scope option \<Rightarrow> string \<Rightarrow> resource option \<Rightarrow> scope_evaluation" where
  "evaluateScope scope permission resource =
     (case permissionResourceType permission of
        None \<Rightarrow> \<lparr>scope_required = False, scope_matched = True, se_reason = None\<rparr>
      | Some t \<Rightarrow>
          (case scope of
             None \<Rightarrow> required False (''missing '' @ resource_name t @ '' scope on grant'')
           | Some sc \<Rightarrow>
               (case t of
                  Orgfs \<Rightarrow> evaluatePrefixScope Orgfs (s_orgfs sc) resource
                | Orgdocs \<Rightarrow> evaluatePrefixScope Orgdocs (s_orgdocs sc) resource
                | Envdb \<Rightarrow> evaluateEnvDbScope (s_envdb sc) resource
                | Cloud_fs \<Rightarrow> evaluateCloudFsScope (s_cloud_fs sc) resource)))"

definition scope_passes :: "access_scope option \<Rightarrow> string \<Rightarrow> resource option \<Rightarrow> bool" where
  "scope_passes scope permission resource =
     (let e = evaluateScope scope permission resource in \<not> scope_required e \<or> scope_matched e)"

subsection \<open>Intersection\<close>

definition strip_suffix :: "string \<Rightarrow> string \<Rightarrow> string" where
  "strip_suffix q t = (if ends_with q t then take (length t - length q) t else t)"

definition pathPatternBase :: "string \<Rightarrow> string" where
  "pathPatternBase pattern =
     (let trimmed = js_trim pattern
      in if trimmed = ''*'' \<or> trimmed = [] then ''/''
         else let base = strip_slashes (strip_suffix ''/*'' (strip_suffix ''/**'' trimmed))
              in if base = [] then ''/'' else base)"

definition intersectPathPattern :: "string \<Rightarrow> string \<Rightarrow> string option" where
  "intersectPathPattern a b =
     (if a = ''*'' then Some b
      else if b = ''*'' then Some a
      else
        let aBase = pathPatternBase a; bBase = pathPatternBase b
        in if aBase = bBase then Some (if length b \<le> length a then a else b)
           else if starts_with (bBase @ ''/'') aBase then Some a
           else if starts_with (aBase @ ''/'') bBase then Some b
           else None)"

definition truthy_pattern :: "string option \<Rightarrow> string list" where
  "truthy_pattern p = (case p of None \<Rightarrow> [] | Some t \<Rightarrow> if t = [] then [] else [t])"

definition intersectPathPatterns :: "string list option \<Rightarrow> string list option \<Rightarrow> string list" where
  "intersectPathPatterns left right =
     (case left of
        None \<Rightarrow> sorted_set (or_default [] right)
      | Some ls \<Rightarrow>
          (case right of
             None \<Rightarrow> sorted_set ls
           | Some rs \<Rightarrow> sorted_set (concat (map (\<lambda>a. concat (map (\<lambda>b. truthy_pattern (intersectPathPattern a b)) rs)) ls))))"

definition intersectStringSets :: "string list option \<Rightarrow> string list option \<Rightarrow> string list" where
  "intersectStringSets left right =
     (case left of
        None \<Rightarrow> sorted_set (or_default [] right)
      | Some ls \<Rightarrow>
          (case right of
             None \<Rightarrow> sorted_set ls
           | Some rs \<Rightarrow>
               if ''*'' \<in> set ls then sorted_set rs
               else if ''*'' \<in> set rs then sorted_set ls
               else sorted_set (filter (\<lambda>x. x \<in> set rs) ls)))"

definition intersectPrefixScope :: "prefix_scope option \<Rightarrow> prefix_scope option \<Rightarrow> prefix_scope" where
  "intersectPrefixScope left right =
     \<lparr>allow_prefixes = Some (intersectPathPatterns (Option.bind left allow_prefixes) (Option.bind right allow_prefixes)),
      read_only_prefixes = Some (intersectPathPatterns (Option.bind left read_only_prefixes) (Option.bind right read_only_prefixes))\<rparr>"

definition intersectScopes :: "access_scope \<Rightarrow> access_scope \<Rightarrow> access_scope" where
  "intersectScopes left right =
     \<lparr>s_orgfs = (if s_orgfs left \<noteq> None \<or> s_orgfs right \<noteq> None
        then Some (intersectPrefixScope (s_orgfs left) (s_orgfs right)) else None),
      s_orgdocs = (if s_orgdocs left \<noteq> None \<or> s_orgdocs right \<noteq> None
        then Some (intersectPrefixScope (s_orgdocs left) (s_orgdocs right)) else None),
      s_envdb = (if s_envdb left \<noteq> None \<or> s_envdb right \<noteq> None
        then Some \<lparr>schemas = Some (intersectStringSets (Option.bind (s_envdb left) schemas) (Option.bind (s_envdb right) schemas)),
                   tables = Some (intersectStringSets (Option.bind (s_envdb left) tables) (Option.bind (s_envdb right) tables))\<rparr>
        else None),
      s_cloud_fs = (if s_cloud_fs left \<noteq> None \<or> s_cloud_fs right \<noteq> None
        then Some \<lparr>allow_mount_ids = Some (intersectStringSets
               (Option.bind (s_cloud_fs left) allow_mount_ids) (Option.bind (s_cloud_fs right) allow_mount_ids))\<rparr>
        else None)\<rparr>"

text \<open>\<^verbatim>\<open>mergeStepTokenScope\<close> of \<^verbatim>\<open>workflows.service.ts\<close>: the scopes that are given, intersected from the left.\<close>

definition mergeStepTokenScope :: "access_scope option \<Rightarrow> access_scope option \<Rightarrow> access_scope option \<Rightarrow> access_scope option" where
  "mergeStepTokenScope workflowScope stepScope invocationScope =
     (case keep_some [workflowScope, stepScope, invocationScope] of
        [] \<Rightarrow> None
      | s # ss \<Rightarrow> Some (foldl intersectScopes s ss))"

end
