(* ===== verification/Access_Store.thy ===== *)
theory Access_Store
  imports Access_Scopes
begin

section \<open>Roles, bindings, groups, memberships and service principals\<close>

text \<open>
  \<^verbatim>\<open>packages/db/src/queries\<close>: \<^verbatim>\<open>access-roles.ts\<close>, \<^verbatim>\<open>access-groups.ts\<close>, \<^verbatim>\<open>service-principals.ts\<close> and the
  membership rows of \<^verbatim>\<open>memberships.ts\<close>, with the unique indexes, references and cascades of the migrations
  \<^verbatim>\<open>00018\<close>, \<^verbatim>\<open>00046\<close>, \<^verbatim>\<open>00047\<close> and \<^verbatim>\<open>00061\<close>; the references to \<^verbatim>\<open>orgs\<close> and \<^verbatim>\<open>users\<close> are taken as met.
  A statement that violates an index or a reference is \<open>Db_error\<close>. The scope of a binding has passed
  \<^verbatim>\<open>AccessBindingScopeSchema\<close>.
\<close>

datatype api_error =
    Bad_request string
  | Not_found string
  | Forbidden string
  | Unauthorized string
  | Db_error string

datatype principal_type = User | Service_principal | Group

record access_role =
  ar_id :: string
  ar_org_id :: string
  ar_name :: string
  ar_scope :: string
  ar_permissions :: "string list"
  ar_description :: "string option"
  ar_created_by :: "string option"
  ar_created_at :: timestamp
  ar_updated_at :: timestamp

record access_binding =
  ab_id :: string
  ab_role_id :: string
  ab_principal_type :: principal_type
  ab_principal_id :: string
  ab_project_id :: "string option"
  ab_scope_json :: "access_scope option"
  ab_created_by :: "string option"
  ab_created_at :: timestamp

record binding_with_role =
  br_binding :: access_binding
  br_role_name :: string
  br_role_permissions :: "string list"
  br_matched_via :: "string option"
  br_matched_group_id :: "string option"
  br_matched_group_slug :: "string option"

record access_group =
  ag_id :: string
  ag_org_id :: string
  ag_name :: string
  ag_slug :: string
  ag_description :: "string option"
  ag_created_by :: "string option"
  ag_created_at :: timestamp
  ag_updated_at :: timestamp

record group_member =
  gm_group_id :: string
  gm_principal_type :: principal_type
  gm_principal_id :: string
  gm_added_by :: "string option"
  gm_created_at :: timestamp

record membership =
  mb_scope_id :: string
  mb_user_id :: string
  mb_role :: string
  mb_created_at :: timestamp
  mb_updated_at :: timestamp

record project_row =
  pr_id :: string
  pr_slug :: string
  pr_org_id :: string
  pr_deleted_at :: "timestamp option"

record service_principal =
  sv_id :: string
  sv_org_id :: string
  sv_name :: string
  sv_description :: "string option"
  sv_created_by :: "string option"
  sv_created_at :: timestamp

record principal_token =
  tk_id :: string
  tk_principal_id :: string
  tk_token_hash :: string
  tk_scopes :: "string list"
  tk_expires_at :: timestamp
  tk_last_used_at :: "timestamp option"
  tk_created_at :: timestamp

text \<open>The resources a project owns, by kind: rows of \<^verbatim>\<open>jobs\<close>, \<^verbatim>\<open>pipeline_runs\<close>, \<^verbatim>\<open>build_specs\<close> and \<^verbatim>\<open>threads\<close>.\<close>

datatype owned_kind = Kind_job | Kind_pipeline_run | Kind_build | Kind_thread

record owned_row =
  ow_kind :: owned_kind
  ow_id :: string
  ow_project_id :: string

text \<open>The rows of \<^verbatim>\<open>org_memberships\<close> and \<^verbatim>\<open>project_memberships\<close> differ only in what \<open>mb_scope_id\<close> names.\<close>

record access_db =
  roles :: "access_role list"
  bindings :: "access_binding list"
  groups :: "access_group list"
  members :: "group_member list"
  org_memberships :: "membership list"
  project_memberships :: "membership list"
  project_rows :: "project_row list"
  principals :: "service_principal list"
  tokens :: "principal_token list"
  owned_rows :: "owned_row list"

subsection \<open>Roles\<close>

definition createRole ::
  "string \<Rightarrow> string \<Rightarrow> string \<Rightarrow> string \<Rightarrow> string list \<Rightarrow> string option \<Rightarrow> string option \<Rightarrow> timestamp \<Rightarrow> access_db \<Rightarrow>
   (api_error + access_role) \<times> access_db" where
  "createRole i org name scope permissions description createdBy now d =
     (if exists_row (\<lambda>r. ar_id r = i) (roles d) then (Inl (Db_error ''access_roles_pkey''), d)
      else if exists_row (\<lambda>r. ar_org_id r = org \<and> ar_name r = name) (roles d)
      then (Inl (Db_error ''access_roles_org_id_name_key''), d)
      else if scope \<notin> {''org'', ''project''} then (Inl (Db_error ''access_roles_scope_check''), d)
      else let row = \<lparr>ar_id = i, ar_org_id = org, ar_name = name, ar_scope = scope, ar_permissions = permissions,
                      ar_description = description, ar_created_by = createdBy, ar_created_at = now, ar_updated_at = now\<rparr>
           in (Inr row, d\<lparr>roles := roles d @ [row]\<rparr>))"

definition listRoles :: "string \<Rightarrow> access_db \<Rightarrow> access_role list" where
  "listRoles org d = order_by ar_name (filter (\<lambda>r. ar_org_id r = org) (roles d))"

definition getRole :: "string \<Rightarrow> string \<Rightarrow> access_db \<Rightarrow> access_role option" where
  "getRole org i d = find_row (\<lambda>r. ar_org_id r = org \<and> ar_id r = i) (roles d)"

definition getRoleByName :: "string \<Rightarrow> string \<Rightarrow> access_db \<Rightarrow> access_role option" where
  "getRoleByName org name d = find_row (\<lambda>r. ar_org_id r = org \<and> ar_name r = name) (roles d)"

text \<open>A field of the updates is \<open>None\<close> when it is undefined.\<close>

definition updateRole ::
  "string \<Rightarrow> string \<Rightarrow> string list option \<Rightarrow> string option option \<Rightarrow> timestamp \<Rightarrow> access_db \<Rightarrow> access_role option \<times> access_db" where
  "updateRole org i permissions description now d =
     (let P = (\<lambda>r. ar_org_id r = org \<and> ar_id r = i);
          f = (\<lambda>r. r\<lparr>ar_permissions := or_default (ar_permissions r) permissions,
                     ar_description := or_default (ar_description r) description, ar_updated_at := now\<rparr>);
          d' = d\<lparr>roles := update_where P f (roles d)\<rparr>
      in (find_row P (roles d'), d'))"

text \<open>Deleting a role deletes its bindings.\<close>

definition deleteRole :: "string \<Rightarrow> string \<Rightarrow> access_db \<Rightarrow> bool \<times> access_db" where
  "deleteRole org i d =
     (let P = (\<lambda>r. ar_org_id r = org \<and> ar_id r = i); gone = exists_row P (roles d)
      in (gone, d\<lparr>roles := delete_where P (roles d),
                  bindings := (if gone then delete_where (\<lambda>b. ab_role_id b = i) (bindings d) else bindings d)\<rparr>))"

subsection \<open>Bindings\<close>

definition createBinding ::
  "string \<Rightarrow> string \<Rightarrow> principal_type \<Rightarrow> string \<Rightarrow> string option \<Rightarrow> access_scope option \<Rightarrow> string option \<Rightarrow> timestamp \<Rightarrow> access_db \<Rightarrow>
   (api_error + access_binding) \<times> access_db" where
  "createBinding i roleId ptype pid projectId scopeJson createdBy now d =
     (if exists_row (\<lambda>b. ab_id b = i) (bindings d) then (Inl (Db_error ''access_bindings_pkey''), d)
      else if exists_row (\<lambda>b. ab_role_id b = roleId \<and> ab_principal_type b = ptype \<and> ab_principal_id b = pid \<and>
             or_default [] (ab_project_id b) = or_default [] projectId) (bindings d)
      then (Inl (Db_error ''idx_access_bindings_unique''), d)
      else if \<not> exists_row (\<lambda>r. ar_id r = roleId) (roles d) then (Inl (Db_error ''access_bindings_role_id_fkey''), d)
      else if projectId \<noteq> None \<and> \<not> exists_row (\<lambda>p. Some (pr_id p) = projectId) (project_rows d)
      then (Inl (Db_error ''access_bindings_project_id_fkey''), d)
      else let row = \<lparr>ab_id = i, ab_role_id = roleId, ab_principal_type = ptype, ab_principal_id = pid,
                      ab_project_id = projectId, ab_scope_json = scopeJson, ab_created_by = createdBy, ab_created_at = now\<rparr>
           in (Inr row, d\<lparr>bindings := bindings d @ [row]\<rparr>))"

text \<open>The join with the role, which the reference makes exactly one row.\<close>

definition with_role :: "string option \<Rightarrow> string option \<Rightarrow> string option \<Rightarrow> access_binding \<Rightarrow> access_role \<Rightarrow> binding_with_role" where
  "with_role via gid slug b r =
     \<lparr>br_binding = b, br_role_name = ar_name r, br_role_permissions = ar_permissions r,
      br_matched_via = via, br_matched_group_id = gid, br_matched_group_slug = slug\<rparr>"

definition listBindings ::
  "string option \<Rightarrow> string option \<Rightarrow> principal_type option \<Rightarrow> string option \<Rightarrow> access_db \<Rightarrow> binding_with_role list" where
  "listBindings orgId projectId ptype pid d =
     order_by (ab_created_at \<circ> br_binding)
       [with_role None None None b r. b \<leftarrow> bindings d, r \<leftarrow> roles d, ar_id r = ab_role_id b,
          orgId = None \<or> Some (ar_org_id r) = orgId,
          projectId = None \<or> ab_project_id b = projectId,
          ptype = None \<or> Some (ab_principal_type b) = ptype,
          pid = None \<or> Some (ab_principal_id b) = pid]"

definition for_project :: "string option \<Rightarrow> access_binding \<Rightarrow> bool" where
  "for_project projectId b = (ab_project_id b = None \<or> projectId \<noteq> None \<and> ab_project_id b = projectId)"

definition direct_bindings :: "string \<Rightarrow> principal_type \<Rightarrow> string \<Rightarrow> access_db \<Rightarrow> binding_with_role list" where
  "direct_bindings orgId ptype pid d =
     [with_role (Some ''direct'') None None b r. b \<leftarrow> bindings d, r \<leftarrow> roles d, ar_id r = ab_role_id b, ar_org_id r = orgId,
        ab_principal_type b = ptype, ab_principal_id b = pid]"

definition inherited_group_bindings :: "string \<Rightarrow> principal_type \<Rightarrow> string \<Rightarrow> access_db \<Rightarrow> binding_with_role list" where
  "inherited_group_bindings orgId ptype pid d =
     [with_role (Some ''group'') (Some (ag_id g)) (Some (ag_slug g)) b r.
        b \<leftarrow> bindings d, r \<leftarrow> roles d, ar_id r = ab_role_id b,
        g \<leftarrow> groups d, ag_id g = ab_principal_id b, ag_org_id g = ar_org_id r,
        gm \<leftarrow> members d, gm_group_id gm = ag_id g,
        ar_org_id r = orgId, ab_principal_type b = Group, gm_principal_type gm = ptype, gm_principal_id gm = pid]"

definition listApplicableBindings :: "string \<Rightarrow> principal_type \<Rightarrow> string \<Rightarrow> string option \<Rightarrow> access_db \<Rightarrow> binding_with_role list" where
  "listApplicableBindings orgId ptype pid projectId d =
     order_by (ab_created_at \<circ> br_binding)
       (filter (\<lambda>x. for_project projectId (br_binding x))
         (if ptype = Group then direct_bindings orgId Group pid d
          else direct_bindings orgId ptype pid d @ inherited_group_bindings orgId ptype pid d))"

definition deleteBinding :: "string \<Rightarrow> access_db \<Rightarrow> bool \<times> access_db" where
  "deleteBinding i d =
     (exists_row (\<lambda>b. ab_id b = i) (bindings d), d\<lparr>bindings := delete_where (\<lambda>b. ab_id b = i) (bindings d)\<rparr>)"

definition deleteBindingsForPrincipal :: "string \<Rightarrow> principal_type \<Rightarrow> string \<Rightarrow> access_db \<Rightarrow> nat \<times> access_db" where
  "deleteBindingsForPrincipal orgId ptype pid d =
     (let P = (\<lambda>b. exists_row (\<lambda>r. ar_id r = ab_role_id b \<and> ar_org_id r = orgId) (roles d) \<and>
                   ab_principal_type b = ptype \<and> ab_principal_id b = pid)
      in (length (filter P (bindings d)), d\<lparr>bindings := delete_where P (bindings d)\<rparr>))"

definition deleteBindingByMatch :: "string \<Rightarrow> principal_type \<Rightarrow> string \<Rightarrow> string option \<Rightarrow> access_db \<Rightarrow> bool \<times> access_db" where
  "deleteBindingByMatch roleId ptype pid projectId d =
     (let P = (\<lambda>b. ab_role_id b = roleId \<and> ab_principal_type b = ptype \<and> ab_principal_id b = pid \<and>
                   or_default [] (ab_project_id b) = or_default [] projectId)
      in (exists_row P (bindings d), d\<lparr>bindings := delete_where P (bindings d)\<rparr>))"

definition getEffectiveCustomPermissions :: "principal_type \<Rightarrow> string \<Rightarrow> string \<Rightarrow> string option \<Rightarrow> access_db \<Rightarrow> string list" where
  "getEffectiveCustomPermissions ptype pid orgId projectId d =
     remdups (concat (map br_role_permissions (listApplicableBindings orgId ptype pid projectId d)))"

subsection \<open>Groups\<close>

definition createGroup ::
  "string \<Rightarrow> string \<Rightarrow> string \<Rightarrow> string \<Rightarrow> string option \<Rightarrow> string option \<Rightarrow> timestamp \<Rightarrow> access_db \<Rightarrow>
   (api_error + access_group) \<times> access_db" where
  "createGroup i org name slug description createdBy now d =
     (if exists_row (\<lambda>g. ag_id g = i) (groups d) then (Inl (Db_error ''access_groups_pkey''), d)
      else if exists_row (\<lambda>g. ag_org_id g = org \<and> ag_name g = name) (groups d)
      then (Inl (Db_error ''access_groups_org_id_name_key''), d)
      else if exists_row (\<lambda>g. ag_org_id g = org \<and> ag_slug g = slug) (groups d)
      then (Inl (Db_error ''access_groups_org_id_slug_key''), d)
      else let row = \<lparr>ag_id = i, ag_org_id = org, ag_name = name, ag_slug = slug, ag_description = description,
                      ag_created_by = createdBy, ag_created_at = now, ag_updated_at = now\<rparr>
           in (Inr row, d\<lparr>groups := groups d @ [row]\<rparr>))"

definition listGroups :: "string \<Rightarrow> access_db \<Rightarrow> access_group list" where
  "listGroups org d = order_by (\<lambda>g. (ag_slug g, ag_created_at g)) (filter (\<lambda>g. ag_org_id g = org) (groups d))"

definition findGroupById :: "string \<Rightarrow> string \<Rightarrow> access_db \<Rightarrow> access_group option" where
  "findGroupById org i d = find_row (\<lambda>g. ag_org_id g = org \<and> ag_id g = i) (groups d)"

definition findGroupBySlug :: "string \<Rightarrow> string \<Rightarrow> access_db \<Rightarrow> access_group option" where
  "findGroupBySlug org slug d = find_row (\<lambda>g. ag_org_id g = org \<and> ag_slug g = slug) (groups d)"

definition updateGroup ::
  "string \<Rightarrow> string \<Rightarrow> string option \<Rightarrow> string option \<Rightarrow> string option option \<Rightarrow> timestamp \<Rightarrow> access_db \<Rightarrow>
   (api_error + access_group option) \<times> access_db" where
  "updateGroup org i name slug description now d =
     (let P = (\<lambda>g. ag_org_id g = org \<and> ag_id g = i);
          f = (\<lambda>g. g\<lparr>ag_name := or_default (ag_name g) name, ag_slug := or_default (ag_slug g) slug,
                     ag_description := or_default (ag_description g) description, ag_updated_at := now\<rparr>);
          d' = d\<lparr>groups := update_where P f (groups d)\<rparr>
      in if distinct (map (\<lambda>g. (ag_org_id g, ag_name g)) (groups d')) \<and> distinct (map (\<lambda>g. (ag_org_id g, ag_slug g)) (groups d'))
         then (Inr (find_row P (groups d')), d')
         else (Inl (Db_error ''access_groups_unique''), d))"

text \<open>Deleting a group deletes its members; bindings of the group have no reference to it and stay.\<close>

definition deleteGroup :: "string \<Rightarrow> string \<Rightarrow> access_db \<Rightarrow> bool \<times> access_db" where
  "deleteGroup org i d =
     (let P = (\<lambda>g. ag_org_id g = org \<and> ag_id g = i); gone = exists_row P (groups d)
      in (gone, d\<lparr>groups := delete_where P (groups d),
                  members := (if gone then delete_where (\<lambda>m. gm_group_id m = i) (members d) else members d)\<rparr>))"

definition is_member :: "string \<Rightarrow> principal_type \<Rightarrow> string \<Rightarrow> group_member \<Rightarrow> bool" where
  "is_member groupId ptype pid m = (gm_group_id m = groupId \<and> gm_principal_type m = ptype \<and> gm_principal_id m = pid)"

definition addMember ::
  "string \<Rightarrow> principal_type \<Rightarrow> string \<Rightarrow> string option \<Rightarrow> timestamp \<Rightarrow> access_db \<Rightarrow> (api_error + group_member option) \<times> access_db" where
  "addMember groupId ptype pid addedBy now d =
     (if ptype = Group then (Inl (Db_error ''access_group_members_principal_type_check''), d)
      else if \<not> exists_row (\<lambda>g. ag_id g = groupId) (groups d) then (Inl (Db_error ''access_group_members_group_id_fkey''), d)
      else let d' = (if exists_row (is_member groupId ptype pid) (members d)
                     then d\<lparr>members := update_where (is_member groupId ptype pid)
                            (\<lambda>m. m\<lparr>gm_added_by := coalesce addedBy (gm_added_by m)\<rparr>) (members d)\<rparr>
                     else d\<lparr>members := members d @ [\<lparr>gm_group_id = groupId, gm_principal_type = ptype, gm_principal_id = pid,
                            gm_added_by = addedBy, gm_created_at = now\<rparr>]\<rparr>)
           in (Inr (find_row (is_member groupId ptype pid) (members d')), d'))"

fun ptype_name :: "principal_type \<Rightarrow> string" where
  "ptype_name User = ''user''"
| "ptype_name Service_principal = ''service_principal''"
| "ptype_name Group = ''group''"

definition listMembers :: "string \<Rightarrow> access_db \<Rightarrow> group_member list" where
  "listMembers groupId d =
     order_by (\<lambda>m. (ptype_name (gm_principal_type m), gm_principal_id m)) (filter (\<lambda>m. gm_group_id m = groupId) (members d))"

definition removeMember :: "string \<Rightarrow> principal_type \<Rightarrow> string \<Rightarrow> access_db \<Rightarrow> bool \<times> access_db" where
  "removeMember groupId ptype pid d =
     (exists_row (is_member groupId ptype pid) (members d),
      d\<lparr>members := delete_where (is_member groupId ptype pid) (members d)\<rparr>)"

definition listGroupsForPrincipal :: "string \<Rightarrow> principal_type \<Rightarrow> string \<Rightarrow> access_db \<Rightarrow> access_group list" where
  "listGroupsForPrincipal org ptype pid d =
     order_by ag_slug
       [g. m \<leftarrow> members d, g \<leftarrow> groups d, ag_id g = gm_group_id m, ag_org_id g = org,
          gm_principal_type m = ptype, gm_principal_id m = pid]"

definition listGroupIdsForPrincipal :: "string \<Rightarrow> principal_type \<Rightarrow> string \<Rightarrow> access_db \<Rightarrow> string list" where
  "listGroupIdsForPrincipal org ptype pid d =
     [gm_group_id m. m \<leftarrow> members d, g \<leftarrow> groups d, ag_id g = gm_group_id m, ag_org_id g = org,
        gm_principal_type m = ptype, gm_principal_id m = pid]"

subsection \<open>Memberships\<close>

definition find_membership :: "string \<Rightarrow> string \<Rightarrow> membership list \<Rightarrow> membership option" where
  "find_membership user scope rows = find_row (\<lambda>m. mb_user_id m = user \<and> mb_scope_id m = scope) rows"

definition findOrgMembership :: "string \<Rightarrow> string \<Rightarrow> access_db \<Rightarrow> membership option" where
  "findOrgMembership user org d = find_membership user org (org_memberships d)"

definition findProjectMembership :: "string \<Rightarrow> string \<Rightarrow> access_db \<Rightarrow> membership option" where
  "findProjectMembership user project d = find_membership user project (project_memberships d)"

definition upsert_membership :: "string \<Rightarrow> string \<Rightarrow> string \<Rightarrow> timestamp \<Rightarrow> membership list \<Rightarrow> membership list" where
  "upsert_membership scope user role now rows =
     (if exists_row (\<lambda>m. mb_scope_id m = scope \<and> mb_user_id m = user) rows
      then update_where (\<lambda>m. mb_scope_id m = scope \<and> mb_user_id m = user) (\<lambda>m. m\<lparr>mb_role := role, mb_updated_at := now\<rparr>) rows
      else rows @ [\<lparr>mb_scope_id = scope, mb_user_id = user, mb_role = role, mb_created_at = now, mb_updated_at = now\<rparr>])"

definition upsertOrgMembership :: "string \<Rightarrow> string \<Rightarrow> string \<Rightarrow> timestamp \<Rightarrow> access_db \<Rightarrow> access_db" where
  "upsertOrgMembership org user role now d = d\<lparr>org_memberships := upsert_membership org user role now (org_memberships d)\<rparr>"

definition upsertProjectMembership :: "string \<Rightarrow> string \<Rightarrow> string \<Rightarrow> timestamp \<Rightarrow> access_db \<Rightarrow> access_db" where
  "upsertProjectMembership project user role now d =
     d\<lparr>project_memberships := upsert_membership project user role now (project_memberships d)\<rparr>"

definition removeOrgMembership :: "string \<Rightarrow> string \<Rightarrow> access_db \<Rightarrow> bool \<times> access_db" where
  "removeOrgMembership org user d =
     (let P = (\<lambda>m. mb_scope_id m = org \<and> mb_user_id m = user)
      in (exists_row P (org_memberships d), d\<lparr>org_memberships := delete_where P (org_memberships d)\<rparr>))"

definition removeProjectMembership :: "string \<Rightarrow> string \<Rightarrow> access_db \<Rightarrow> bool \<times> access_db" where
  "removeProjectMembership project user d =
     (let P = (\<lambda>m. mb_scope_id m = project \<and> mb_user_id m = user)
      in (exists_row P (project_memberships d), d\<lparr>project_memberships := delete_where P (project_memberships d)\<rparr>))"

definition listProjectMembershipsForUser :: "string \<Rightarrow> string option \<Rightarrow> access_db \<Rightarrow> membership list" where
  "listProjectMembershipsForUser user orgId d =
     [m. m \<leftarrow> project_memberships d, p \<leftarrow> project_rows d, pr_id p = mb_scope_id m, mb_user_id m = user,
        orgId = None \<or> Some (pr_org_id p) = orgId]"

subsection \<open>Service principals\<close>

definition createServicePrincipal ::
  "string \<Rightarrow> string \<Rightarrow> string \<Rightarrow> string option \<Rightarrow> string option \<Rightarrow> timestamp \<Rightarrow> access_db \<Rightarrow> (api_error + service_principal) \<times> access_db" where
  "createServicePrincipal i org name description createdBy now d =
     (if exists_row (\<lambda>p. sv_id p = i) (principals d) then (Inl (Db_error ''service_principals_pkey''), d)
      else if exists_row (\<lambda>p. sv_org_id p = org \<and> sv_name p = name) (principals d)
      then (Inl (Db_error ''service_principals_org_id_name_key''), d)
      else let row = \<lparr>sv_id = i, sv_org_id = org, sv_name = name, sv_description = description, sv_created_by = createdBy, sv_created_at = now\<rparr>
           in (Inr row, d\<lparr>principals := principals d @ [row]\<rparr>))"

definition listServicePrincipals :: "string \<Rightarrow> access_db \<Rightarrow> service_principal list" where
  "listServicePrincipals org d = order_by sv_created_at (filter (\<lambda>p. sv_org_id p = org) (principals d))"

definition getServicePrincipal :: "string \<Rightarrow> string \<Rightarrow> access_db \<Rightarrow> service_principal option" where
  "getServicePrincipal org i d = find_row (\<lambda>p. sv_org_id p = org \<and> sv_id p = i) (principals d)"

definition getServicePrincipalByName :: "string \<Rightarrow> string \<Rightarrow> access_db \<Rightarrow> service_principal option" where
  "getServicePrincipalByName org name d = find_row (\<lambda>p. sv_org_id p = org \<and> sv_name p = name) (principals d)"

definition deleteServicePrincipal :: "string \<Rightarrow> string \<Rightarrow> access_db \<Rightarrow> bool \<times> access_db" where
  "deleteServicePrincipal org i d =
     (let P = (\<lambda>p. sv_org_id p = org \<and> sv_id p = i); gone = exists_row P (principals d)
      in (gone, d\<lparr>principals := delete_where P (principals d),
                  tokens := (if gone then delete_where (\<lambda>t. tk_principal_id t = i) (tokens d) else tokens d)\<rparr>))"

definition createToken ::
  "string \<Rightarrow> string \<Rightarrow> string \<Rightarrow> string list \<Rightarrow> timestamp \<Rightarrow> timestamp \<Rightarrow> access_db \<Rightarrow> (api_error + principal_token) \<times> access_db" where
  "createToken i principalId hash scopes expiresAt now d =
     (if exists_row (\<lambda>t. tk_id t = i) (tokens d) then (Inl (Db_error ''service_principal_tokens_pkey''), d)
      else if \<not> exists_row (\<lambda>p. sv_id p = principalId) (principals d)
      then (Inl (Db_error ''service_principal_tokens_principal_id_fkey''), d)
      else let row = \<lparr>tk_id = i, tk_principal_id = principalId, tk_token_hash = hash, tk_scopes = scopes, tk_expires_at = expiresAt,
                      tk_last_used_at = None, tk_created_at = now\<rparr>
           in (Inr row, d\<lparr>tokens := tokens d @ [row]\<rparr>))"

definition listTokens :: "string \<Rightarrow> access_db \<Rightarrow> principal_token list" where
  "listTokens principalId d = order_by tk_created_at (filter (\<lambda>t. tk_principal_id t = principalId) (tokens d))"

definition revokeToken :: "string \<Rightarrow> string \<Rightarrow> access_db \<Rightarrow> bool \<times> access_db" where
  "revokeToken principalId tokenId d =
     (let P = (\<lambda>t. tk_principal_id t = principalId \<and> tk_id t = tokenId)
      in (exists_row P (tokens d), d\<lparr>tokens := delete_where P (tokens d)\<rparr>))"

definition findByTokenHash :: "string \<Rightarrow> timestamp \<Rightarrow> access_db \<Rightarrow> (service_principal \<times> principal_token) option" where
  "findByTokenHash hash now d =
     first_row [(p, t). t \<leftarrow> tokens d, p \<leftarrow> principals d, sv_id p = tk_principal_id t, tk_token_hash t = hash, now < tk_expires_at t]"

definition updateLastUsed :: "string \<Rightarrow> timestamp \<Rightarrow> access_db \<Rightarrow> access_db" where
  "updateLastUsed tokenId now d =
     d\<lparr>tokens := update_where (\<lambda>t. tk_id t = tokenId) (\<lambda>t. t\<lparr>tk_last_used_at := Some now\<rparr>) (tokens d)\<rparr>"

end
