(* ===== verification/Access.thy ===== *)
theory Access
  imports Access_Store
begin

section \<open>Permission checks\<close>

text \<open>
  \<^verbatim>\<open>packages/shared/src/permissions.ts\<close> and \<^verbatim>\<open>apps/api/src/auth/permissions.ts\<close> (the catalogue and the roles),
  \<^verbatim>\<open>access.service.ts\<close> (\<^verbatim>\<open>can\<close>, \<^verbatim>\<open>explain\<close>, \<^verbatim>\<open>memberships\<close>), \<^verbatim>\<open>scoped-access.service.ts\<close>, and the two checks of
  \<^verbatim>\<open>workflows.service.ts\<close> that an actor may hand out a scope and permissions. What throws is \<open>Inl\<close> of the
  error; the time is an argument.
\<close>

subsection \<open>The catalogue and the roles\<close>

definition ALL_PERMISSIONS :: "string list" where
  "ALL_PERMISSIONS =
    [''jobs:read'', ''jobs:write'', ''jobs:admin'', ''jobs:harness_override'',
     ''threads:read'', ''threads:write'', ''threads:admin'',
     ''projects:read'', ''projects:create'', ''projects:write'', ''projects:admin'',
     ''envs:read'', ''envs:write'', ''envs:admin'',
     ''envdb:read'', ''envdb:write'',
     ''orgfs:read'', ''orgfs:write'', ''orgfs:admin'',
     ''orgdocs:read'', ''orgdocs:write'', ''orgdocs:admin'',
     ''secrets:read'', ''secrets:write'', ''secrets:admin'',
     ''builds:read'', ''builds:write'', ''builds:admin'',
     ''releases:read'', ''releases:write'', ''releases:admin'',
     ''pipelines:read'', ''pipelines:write'', ''pipelines:admin'',
     ''agents:read'', ''agents:write'', ''agents:admin'',
     ''workflows:read'', ''workflows:write'',
     ''orgs:read'', ''orgs:create'', ''orgs:write'', ''orgs:admin'', ''orgs:members:read'', ''orgs:invite'',
     ''integrations:read'', ''integrations:write'',
     ''cloud_fs:read'', ''cloud_fs:write'', ''cloud_fs:admin'',
     ''events:read'', ''events:write'', ''chat:write'', ''notifications:send'',
     ''endpoints:read'', ''endpoints:write'', ''system:read'', ''system:admin'']"

definition MEMBER_PERMISSIONS :: "string list" where
  "MEMBER_PERMISSIONS =
    [''jobs:read'', ''jobs:write'', ''jobs:harness_override'', ''threads:read'', ''threads:write'',
     ''projects:read'', ''projects:create'', ''orgs:read'', ''orgs:create'', ''orgs:members:read'',
     ''envs:read'', ''envdb:read'', ''secrets:read'', ''builds:read'', ''pipelines:read'', ''workflows:read'',
     ''integrations:read'', ''endpoints:read'', ''events:read'', ''cloud_fs:read'']"

definition ADMIN_EXTRA :: "string list" where
  "ADMIN_EXTRA =
    [''projects:write'', ''projects:admin'', ''envs:write'', ''envs:admin'', ''envdb:write'',
     ''secrets:write'', ''secrets:admin'', ''builds:write'', ''builds:admin'', ''releases:admin'',
     ''pipelines:write'', ''pipelines:admin'', ''workflows:write'', ''orgs:write'', ''orgs:invite'',
     ''integrations:write'', ''endpoints:write'', ''events:write'', ''chat:write'', ''notifications:send'',
     ''jobs:admin'', ''agents:admin'', ''threads:admin'', ''cloud_fs:write'', ''cloud_fs:admin'', ''system:read'']"

definition OWNER_EXTRA :: "string list" where
  "OWNER_EXTRA = [''orgs:admin'']"

definition expandPermissions :: "string \<Rightarrow> string list" where
  "expandPermissions role =
     (if role = ''member'' then MEMBER_PERMISSIONS
      else if role = ''admin'' then MEMBER_PERMISSIONS @ ADMIN_EXTRA
      else if role = ''owner'' then MEMBER_PERMISSIONS @ ADMIN_EXTRA @ OWNER_EXTRA
      else [])"

definition hasAnyPermission :: "string list \<Rightarrow> string list \<Rightarrow> bool" where
  "hasAnyPermission permissions wanted = list_ex (\<lambda>p. p \<in> set permissions) wanted"

subsection \<open>Evaluating grants\<close>

text \<open>A scope that is undefined is \<open>None\<close>, one that is null is \<open>Some None\<close>.\<close>

record raw_grant =
  rg_source :: string
  rg_role :: "string option"
  rg_permissions :: "string list"
  rg_scope_json :: "access_scope option option"

record explain_grant =
  eg_source :: string
  eg_role :: "string option"
  eg_permissions :: "string list"
  eg_has_permission :: bool
  eg_scope_json :: "access_scope option option"
  eg_scope_match :: "bool option"
  eg_scope_reason :: "string option"

record permission_evaluation =
  pe_allowed :: bool
  pe_source :: string
  pe_permissionMatched :: bool
  pe_scopeRequired :: bool
  pe_scopeMatched :: bool
  pe_deniedByScope :: bool
  pe_grants :: "explain_grant list"

definition explained_grant :: "string \<Rightarrow> resource option \<Rightarrow> raw_grant \<Rightarrow> explain_grant" where
  "explained_grant permission resource g =
     (let has = permission \<in> set (rg_permissions g);
          e = evaluateScope (or_default None (rg_scope_json g)) permission resource;
          shown = has \<and> scope_required e
      in \<lparr>eg_source = rg_source g, eg_role = rg_role g, eg_permissions = rg_permissions g, eg_has_permission = has,
          eg_scope_json = (if shown then Some (or_default None (rg_scope_json g)) else rg_scope_json g),
          eg_scope_match = (if shown then Some (scope_matched e) else None),
          eg_scope_reason = (if shown then se_reason e else None)\<rparr>)"

definition evaluate_grant :: "string \<Rightarrow> resource option \<Rightarrow> permission_evaluation \<Rightarrow> raw_grant \<Rightarrow> permission_evaluation" where
  "evaluate_grant permission resource st g =
     (let e = evaluateScope (or_default None (rg_scope_json g)) permission resource;
          st' = (if permission \<notin> set (rg_permissions g) then st
                 else if \<not> scope_required e \<or> scope_matched e then
                   st\<lparr>pe_permissionMatched := True, pe_allowed := True,
                      pe_source := (if pe_allowed st then pe_source st else rg_source g),
                      pe_scopeMatched := (if scope_required e then True else pe_scopeMatched st)\<rparr>
                 else
                   st\<lparr>pe_permissionMatched := True, pe_deniedByScope := True,
                      pe_source := (if pe_allowed st then pe_source st else ''permission grant found but resource scope denied'')\<rparr>)
      in st'\<lparr>pe_grants := pe_grants st' @ [explained_grant permission resource g]\<rparr>)"

definition evaluatePermission :: "string \<Rightarrow> raw_grant list \<Rightarrow> resource option \<Rightarrow> permission_evaluation" where
  "evaluatePermission permission grants resource =
     (let scopeRequired = scopeRequiredForPermission permission;
          st = foldl (evaluate_grant permission resource)
            \<lparr>pe_allowed = False, pe_source = ''no grant found'', pe_permissionMatched = False, pe_scopeRequired = scopeRequired,
             pe_scopeMatched = \<not> scopeRequired, pe_deniedByScope = False, pe_grants = []\<rparr> grants;
          st1 = (if pe_permissionMatched st then st else st\<lparr>pe_source := ''no grant found'', pe_scopeMatched := False\<rparr>)
      in if scopeRequired then st1 else st1\<lparr>pe_scopeMatched := pe_allowed st1\<rparr>)"

subsection \<open>Collecting grants\<close>

definition BUILT_IN_ROLE_SCOPE :: access_scope where
  "BUILT_IN_ROLE_SCOPE =
     \<lparr>s_orgfs = Some \<lparr>allow_prefixes = Some [''*''], read_only_prefixes = None\<rparr>,
      s_orgdocs = Some \<lparr>allow_prefixes = Some [''*''], read_only_prefixes = None\<rparr>,
      s_envdb = Some \<lparr>schemas = Some [''*''], tables = Some [''*'']\<rparr>,
      s_cloud_fs = Some \<lparr>allow_mount_ids = Some [''*'']\<rparr>\<rparr>"

definition BUILT_IN_ROLES :: "string list" where
  "BUILT_IN_ROLES = [''owner'', ''admin'', ''member'']"

definition membership_grant :: "string \<Rightarrow> string \<Rightarrow> raw_grant" where
  "membership_grant source role =
     \<lparr>rg_source = source, rg_role = Some role, rg_permissions = expandPermissions role,
      rg_scope_json = (if role \<in> set BUILT_IN_ROLES then Some (Some BUILT_IN_ROLE_SCOPE) else None)\<rparr>"

definition find_project_by_id :: "string \<Rightarrow> access_db \<Rightarrow> project_row option" where
  "find_project_by_id i d = find_row (\<lambda>p. pr_id p = i \<and> pr_deleted_at p = None) (project_rows d)"

definition resolveProject :: "string \<Rightarrow> access_db \<Rightarrow> project_row option" where
  "resolveProject projectInput d =
     (if starts_with ''proj_'' projectInput then find_project_by_id projectInput d
      else find_row (\<lambda>p. pr_slug p = projectInput \<and> pr_deleted_at p = None) (project_rows d))"

definition resolveGroup :: "string \<Rightarrow> string \<Rightarrow> access_db \<Rightarrow> access_group option" where
  "resolveGroup orgId groupInput d =
     (case findGroupById orgId groupInput d of Some g \<Rightarrow> Some g | None \<Rightarrow> findGroupBySlug orgId groupInput d)"

definition describeBindingScope :: "access_binding \<Rightarrow> string \<Rightarrow> string" where
  "describeBindingScope b orgId =
     (if truthy_string (ab_project_id b) then ''on project '' @ the (ab_project_id b) else ''on org '' @ orgId)"

definition quoted :: "string \<Rightarrow> string" where
  "quoted t = [CHR 39] @ t @ [CHR 39]"

definition describeBindingSource :: "binding_with_role \<Rightarrow> string \<Rightarrow> string" where
  "describeBindingSource x scopeLabel =
     (if br_matched_via x = Some ''group'' then
        ''custom role '' @ quoted (br_role_name x) @ '' via group '' @
        quoted (or_default ''group'' (coalesce (br_matched_group_slug x) (br_matched_group_id x))) @ '' '' @ scopeLabel
      else ''custom role '' @ quoted (br_role_name x) @ '' '' @ scopeLabel)"

definition binding_grant :: "string \<Rightarrow> binding_with_role \<Rightarrow> raw_grant" where
  "binding_grant orgId x =
     \<lparr>rg_source = describeBindingSource x (describeBindingScope (br_binding x) orgId), rg_role = Some (br_role_name x),
      rg_permissions = br_role_permissions x, rg_scope_json = Some (ab_scope_json (br_binding x))\<rparr>"

definition project_grants :: "string \<Rightarrow> string \<Rightarrow> string option \<Rightarrow> access_db \<Rightarrow> raw_grant list" where
  "project_grants orgId userId projectId d =
     (if truthy_string projectId then
        case resolveProject (the projectId) d of
          None \<Rightarrow> []
        | Some p \<Rightarrow>
            if pr_org_id p = orgId then
              case findProjectMembership userId (pr_id p) d of
                None \<Rightarrow> []
              | Some m \<Rightarrow> [membership_grant (''project membership ('' @ pr_id p @ '')'') (mb_role m)]
            else []
      else [])"

definition collectUserGrants :: "string \<Rightarrow> string \<Rightarrow> string option \<Rightarrow> access_db \<Rightarrow> raw_grant list" where
  "collectUserGrants orgId userId projectId d =
     project_grants orgId userId projectId d @
     (case findOrgMembership userId orgId d of
        None \<Rightarrow> []
      | Some m \<Rightarrow> [membership_grant (''org membership ('' @ orgId @ '')'') (mb_role m)]) @
     map (binding_grant orgId) (listApplicableBindings orgId User userId projectId d)"

definition live_tokens :: "string \<Rightarrow> timestamp \<Rightarrow> access_db \<Rightarrow> principal_token list" where
  "live_tokens principalId now d = filter (\<lambda>t. \<not> tk_expires_at t \<le> now) (listTokens principalId d)"

definition collectServicePrincipalGrants :: "string \<Rightarrow> string \<Rightarrow> timestamp \<Rightarrow> access_db \<Rightarrow> raw_grant list" where
  "collectServicePrincipalGrants orgId principalId now d =
     map (\<lambda>t. \<lparr>rg_source = ''token '' @ tk_id t @ '' (expires '' @ iso_date (tk_expires_at t) @ '')'', rg_role = None,
               rg_permissions = tk_scopes t, rg_scope_json = None\<rparr>) (live_tokens principalId now d) @
     map (binding_grant orgId) (listApplicableBindings orgId Service_principal principalId None d)"

definition collectGroupGrants :: "string \<Rightarrow> string \<Rightarrow> string option \<Rightarrow> access_db \<Rightarrow> raw_grant list" where
  "collectGroupGrants orgId groupId projectId d = map (binding_grant orgId) (listApplicableBindings orgId Group groupId projectId d)"

subsection \<open>can\<close>

definition not_found_evaluation :: "string \<Rightarrow> string \<Rightarrow> permission_evaluation" where
  "not_found_evaluation source permission =
     \<lparr>pe_allowed = False, pe_source = source, pe_permissionMatched = False,
      pe_scopeRequired = scopeRequiredForPermission permission, pe_scopeMatched = False, pe_deniedByScope = False, pe_grants = []\<rparr>"

definition canUser :: "string \<Rightarrow> string \<Rightarrow> string option \<Rightarrow> string \<Rightarrow> resource option \<Rightarrow> access_db \<Rightarrow> permission_evaluation" where
  "canUser orgId userId projectId permission resource d =
     evaluatePermission permission (collectUserGrants orgId userId projectId d) resource"

definition canServicePrincipal :: "string \<Rightarrow> string \<Rightarrow> string \<Rightarrow> resource option \<Rightarrow> timestamp \<Rightarrow> access_db \<Rightarrow> permission_evaluation" where
  "canServicePrincipal orgId principalId permission resource now d =
     (case getServicePrincipal orgId principalId d of
        None \<Rightarrow> not_found_evaluation ''service principal not found'' permission
      | Some sp \<Rightarrow> evaluatePermission permission (collectServicePrincipalGrants orgId (sv_id sp) now d) resource)"

definition canGroup :: "string \<Rightarrow> string \<Rightarrow> string option \<Rightarrow> string \<Rightarrow> resource option \<Rightarrow> access_db \<Rightarrow> permission_evaluation" where
  "canGroup orgId groupInput projectId permission resource d =
     (case resolveGroup orgId groupInput d of
        None \<Rightarrow> not_found_evaluation ''group not found'' permission
      | Some g \<Rightarrow> evaluatePermission permission (collectGroupGrants orgId (ag_id g) projectId d) resource)"

record access_params =
  ap_org_id :: string
  ap_principal_type :: principal_type
  ap_principal_id :: string
  ap_project_id :: "string option"
  ap_permission :: string
  ap_resource :: "resource option"

record resource_answer =
  ra_resource :: resource
  ra_scope_required :: bool
  ra_scope_matched :: bool

record can_response =
  cr_allowed :: bool
  cr_source :: string
  cr_resource :: "resource_answer option"

definition validatePermission :: "string \<Rightarrow> api_error + unit" where
  "validatePermission permission =
     (if permission \<in> set ALL_PERMISSIONS then Inr ()
      else Inl (Bad_request (''Unknown permission: '' @ permission @ ''. Valid permissions: '' @ join_with '', '' ALL_PERMISSIONS)))"

definition evaluate_for :: "access_params \<Rightarrow> timestamp \<Rightarrow> access_db \<Rightarrow> permission_evaluation" where
  "evaluate_for a now d =
     (case ap_principal_type a of
        Service_principal \<Rightarrow> canServicePrincipal (ap_org_id a) (ap_principal_id a) (ap_permission a) (ap_resource a) now d
      | Group \<Rightarrow> canGroup (ap_org_id a) (ap_principal_id a) (ap_project_id a) (ap_permission a) (ap_resource a) d
      | User \<Rightarrow> canUser (ap_org_id a) (ap_principal_id a) (ap_project_id a) (ap_permission a) (ap_resource a) d)"

definition access_can :: "access_params \<Rightarrow> timestamp \<Rightarrow> access_db \<Rightarrow> api_error + can_response" where
  "access_can a now d =
     (case validatePermission (ap_permission a) of
        Inl e \<Rightarrow> Inl e
      | Inr _ \<Rightarrow>
          (let ev = evaluate_for a now d
           in Inr \<lparr>cr_allowed = pe_allowed ev, cr_source = pe_source ev,
                   cr_resource = map_option (\<lambda>res. \<lparr>ra_resource = res, ra_scope_required = pe_scopeRequired ev,
                      ra_scope_matched = pe_scopeMatched ev\<rparr>) (ap_resource a)\<rparr>))"

subsection \<open>explain\<close>

record explain_response =
  xr_permission :: string
  xr_result :: string
  xr_grants :: "explain_grant list"
  xr_missing_reason :: "string option"
  xr_resource :: "resource_answer option"

definition scopeMissingReason :: "string \<Rightarrow> resource option \<Rightarrow> string" where
  "scopeMissingReason permission resource =
     (case permissionResourceType permission of
        None \<Rightarrow> ''missing required permission '' @ permission
      | Some t \<Rightarrow>
          (case resource of
             Some res \<Rightarrow> permission @ '' grant found but resource '' @ quoted (r_id res) @ '' is outside '' @ resource_name t @ '' scope''
           | None \<Rightarrow> permission @ '' requires an explicit '' @ resource_name t @ '' scoped grant''))"

definition suggestRequiredRole :: "string \<Rightarrow> string" where
  "suggestRequiredRole permission =
     (case find (\<lambda>role. permission \<in> set (expandPermissions role)) [''member'', ''admin'', ''owner''] of
        Some role \<Rightarrow> permission @ '' requires '' @ role @ '' role or higher''
      | None \<Rightarrow> permission @ '' is not granted by any standard role'')"

definition explanation :: "string \<Rightarrow> resource option \<Rightarrow> (permission_evaluation \<Rightarrow> string) \<Rightarrow> permission_evaluation \<Rightarrow> explain_response" where
  "explanation permission resource missing ev =
     \<lparr>xr_permission = permission, xr_result = (if pe_allowed ev then ''ALLOWED'' else ''DENIED''), xr_grants = pe_grants ev,
      xr_missing_reason = (if pe_allowed ev then None
        else Some (if pe_permissionMatched ev \<and> pe_deniedByScope ev then scopeMissingReason permission resource else missing ev)),
      xr_resource = None\<rparr>"

definition denied :: "string \<Rightarrow> string \<Rightarrow> explain_response" where
  "denied permission reason =
     \<lparr>xr_permission = permission, xr_result = ''DENIED'', xr_grants = [], xr_missing_reason = Some reason, xr_resource = None\<rparr>"

definition explainUser :: "string \<Rightarrow> string \<Rightarrow> string option \<Rightarrow> string \<Rightarrow> resource option \<Rightarrow> access_db \<Rightarrow> explain_response" where
  "explainUser orgId userId projectId permission resource d =
     explanation permission resource (\<lambda>_. suggestRequiredRole permission)
       (evaluatePermission permission (collectUserGrants orgId userId projectId d) resource)"

definition explainServicePrincipal :: "string \<Rightarrow> string \<Rightarrow> string \<Rightarrow> resource option \<Rightarrow> timestamp \<Rightarrow> access_db \<Rightarrow> explain_response" where
  "explainServicePrincipal orgId principalId permission resource now d =
     (case getServicePrincipal orgId principalId d of
        None \<Rightarrow> denied permission (''service principal '' @ principalId @ '' not found in org '' @ orgId)
      | Some sp \<Rightarrow>
          explanation permission resource
            (\<lambda>ev. if pe_grants ev = [] then ''no active tokens on service principal '' @ sv_name sp
                  else ''no active token or custom role includes '' @ permission)
            (evaluatePermission permission (collectServicePrincipalGrants orgId (sv_id sp) now d) resource))"

definition explainGroup :: "string \<Rightarrow> string \<Rightarrow> string option \<Rightarrow> string \<Rightarrow> resource option \<Rightarrow> access_db \<Rightarrow> explain_response" where
  "explainGroup orgId groupInput projectId permission resource d =
     (case resolveGroup orgId groupInput d of
        None \<Rightarrow> denied permission (''group '' @ groupInput @ '' not found in org '' @ orgId)
      | Some g \<Rightarrow>
          explanation permission resource (\<lambda>_. ''group '' @ ag_id g @ '' is missing '' @ permission)
            (evaluatePermission permission (collectGroupGrants orgId (ag_id g) projectId d) resource))"

definition explain_for :: "access_params \<Rightarrow> timestamp \<Rightarrow> access_db \<Rightarrow> explain_response" where
  "explain_for a now d =
     (case ap_principal_type a of
        Service_principal \<Rightarrow> explainServicePrincipal (ap_org_id a) (ap_principal_id a) (ap_permission a) (ap_resource a) now d
      | Group \<Rightarrow> explainGroup (ap_org_id a) (ap_principal_id a) (ap_project_id a) (ap_permission a) (ap_resource a) d
      | User \<Rightarrow> explainUser (ap_org_id a) (ap_principal_id a) (ap_project_id a) (ap_permission a) (ap_resource a) d)"

definition access_explain :: "access_params \<Rightarrow> timestamp \<Rightarrow> access_db \<Rightarrow> api_error + explain_response" where
  "access_explain a now d =
     (case validatePermission (ap_permission a) of
        Inl e \<Rightarrow> Inl e
      | Inr _ \<Rightarrow>
          (let r = explain_for a now d;
               scopeRequired = scopeRequiredForPermission (ap_permission a);
               scopeMatched = (if scopeRequired then list_ex (\<lambda>g. eg_has_permission g \<and> eg_scope_match g = Some True) (xr_grants r)
                               else xr_result r = ''ALLOWED'')
           in Inr (r\<lparr>xr_resource := map_option (\<lambda>res. \<lparr>ra_resource = res, ra_scope_required = scopeRequired,
                      ra_scope_matched = scopeMatched\<rparr>) (ap_resource a)\<rparr>)))"

end
