(* ===== verification/Access_Guard.thy ===== *)
theory Access_Guard
  imports Access
begin

section \<open>The permission guard\<close>

text \<open>
  \<^verbatim>\<open>apps/api/src/auth\<close>: \<^verbatim>\<open>rbac.service.ts\<close>, \<^verbatim>\<open>permission.guard.ts\<close>, \<^verbatim>\<open>scoped-access.service.ts\<close> and the membership
  report of \<^verbatim>\<open>access.service.ts\<close>, and what \<^verbatim>\<open>workflows.service.ts\<close> checks before a job token is minted. Sets of
  permissions are lists; the metadata of a handler and the route of a request are records.
\<close>

subsection \<open>Roles of a user\<close>

definition ROLE_RANK :: "string \<Rightarrow> nat option" where
  "ROLE_RANK role = map_of [(''member'', 1), (''admin'', 2), (''owner'', 3)] role"

text \<open>A comparison with the rank of an unknown role is false.\<close>

definition rank_below :: "string \<Rightarrow> string \<Rightarrow> bool" where
  "rank_below role wanted = (case (ROLE_RANK role, ROLE_RANK wanted) of (Some m, Some n) \<Rightarrow> m < n | _ \<Rightarrow> False)"

definition requireOrgRole :: "string \<Rightarrow> string \<Rightarrow> string \<Rightarrow> access_db \<Rightarrow> api_error + unit" where
  "requireOrgRole userId orgId wanted d =
     (case findOrgMembership userId orgId d of
        None \<Rightarrow> Inl (Forbidden ''User is not a member of this org'')
      | Some m \<Rightarrow> if rank_below (mb_role m) wanted then Inl (Forbidden ''Insufficient org permissions'') else Inr ())"

definition requireProjectRole :: "string \<Rightarrow> string \<Rightarrow> string \<Rightarrow> access_db \<Rightarrow> api_error + unit" where
  "requireProjectRole userId projectInput wanted d =
     (case resolveProject projectInput d of
        None \<Rightarrow> Inl (Not_found ''Project not found'')
      | Some p \<Rightarrow>
          (case findProjectMembership userId (pr_id p) d of
             Some m \<Rightarrow> if rank_below (mb_role m) wanted then Inl (Forbidden ''Insufficient project permissions'') else Inr ()
           | None \<Rightarrow> requireOrgRole userId (pr_org_id p) wanted d))"

definition project_role :: "string \<Rightarrow> string option \<Rightarrow> access_db \<Rightarrow> string option" where
  "project_role userId projectId d =
     (if truthy_string projectId then
        case resolveProject (the projectId) d of
          None \<Rightarrow> None
        | Some p \<Rightarrow> map_option mb_role (findProjectMembership userId (pr_id p) d)
      else None)"

definition base_role :: "string \<Rightarrow> string \<Rightarrow> string option \<Rightarrow> access_db \<Rightarrow> string option" where
  "base_role userId orgId projectId d =
     (if truthy_string (project_role userId projectId d) then project_role userId projectId d
      else map_option mb_role (findOrgMembership userId orgId d))"

definition getEffectivePermissions :: "string \<Rightarrow> string \<Rightarrow> string option \<Rightarrow> access_db \<Rightarrow> string list" where
  "getEffectivePermissions userId orgId projectId d =
     (let baseRole = base_role userId orgId projectId d
      in (if truthy_string baseRole then expandPermissions (the baseRole) else []) @
         getEffectiveCustomPermissions User userId orgId projectId d)"

definition getProjectOrgId :: "string \<Rightarrow> access_db \<Rightarrow> api_error + string" where
  "getProjectOrgId projectInput d =
     (case resolveProject projectInput d of None \<Rightarrow> Inl (Not_found ''Project not found'') | Some p \<Rightarrow> Inr (pr_org_id p))"

fun owned_label :: "owned_kind \<Rightarrow> string" where
  "owned_label Kind_job = ''Job''"
| "owned_label Kind_pipeline_run = ''Pipeline run''"
| "owned_label Kind_build = ''Build''"
| "owned_label Kind_thread = ''Thread''"

definition getResourceProjectContext :: "owned_kind \<Rightarrow> string \<Rightarrow> access_db \<Rightarrow> api_error + string \<times> string" where
  "getResourceProjectContext kind i d =
     (case first_row [(ow_project_id r, pr_org_id p). r \<leftarrow> owned_rows d, p \<leftarrow> project_rows d, pr_id p = ow_project_id r,
             ow_kind r = kind, ow_id r = i] of
        None \<Rightarrow> Inl (Not_found (owned_label kind @ '' not found''))
      | Some owner \<Rightarrow> Inr owner)"

subsection \<open>Callers and requests\<close>

record auth_user =
  au_user_id :: string
  au_is_admin :: bool
  au_org_id :: "string option"
  au_is_job_token :: bool
  au_job_id :: "string option"
  au_project_id :: "string option"
  au_permissions :: "string list option"
  au_scope :: "access_scope option"
  au_is_service_principal :: bool
  au_is_service_token :: bool

definition is_token :: "auth_user \<Rightarrow> bool" where
  "is_token u = (au_is_job_token u \<or> au_is_service_token u \<or> au_is_service_principal u)"

definition resolveEffectivePermissions :: "auth_user \<Rightarrow> string option \<Rightarrow> access_db \<Rightarrow> string list" where
  "resolveEffectivePermissions u projectInput d =
     (if au_is_admin u then ALL_PERMISSIONS
      else if is_token u then or_default [] (au_permissions u)
      else if truthy_string projectInput then
        case getProjectOrgId (the projectInput) d of
          Inr orgId \<Rightarrow> getEffectivePermissions (au_user_id u) orgId projectInput d
        | Inl _ \<Rightarrow> expandPermissions ''member''
      else expandPermissions ''member'')"

definition requirePermissions :: "auth_user \<Rightarrow> string option \<Rightarrow> string list \<Rightarrow> access_db \<Rightarrow> api_error + unit" where
  "requirePermissions u projectInput wanted d =
     (case find (\<lambda>p. p \<notin> set (resolveEffectivePermissions u projectInput d)) wanted of
        Some p \<Rightarrow> Inl (Forbidden (''Missing required permission: '' @ p))
      | None \<Rightarrow> Inr ())"

record http_request =
  rq_params :: "(string \<times> string) list"
  rq_route_url :: "string option"
  rq_url :: "string option"
  rq_body_org_id :: "string option"

record endpoint =
  ep_public :: bool
  ep_permissions :: "string list option"

definition rq_param :: "string \<Rightarrow> http_request \<Rightarrow> string option" where
  "rq_param k rq = (case map_of (rq_params rq) k of Some v \<Rightarrow> if v = [] then None else Some v | None \<Rightarrow> None)"

definition rq_path :: "http_request \<Rightarrow> string" where
  "rq_path rq = or_default [] (coalesce (rq_route_url rq) (rq_url rq))"

definition extractProjectId :: "http_request \<Rightarrow> string option" where
  "extractProjectId rq =
     (case rq_param ''project_id'' rq of
        Some p \<Rightarrow> Some p
      | None \<Rightarrow> if rq_param ''id'' rq \<noteq> None \<and> starts_with ''/projects/'' (rq_path rq) then rq_param ''id'' rq else None)"

definition extractResourceRef :: "http_request \<Rightarrow> (owned_kind \<times> string) option" where
  "extractResourceRef rq =
     (if rq_param ''job_id'' rq \<noteq> None then Some (Kind_job, the (rq_param ''job_id'' rq))
      else if rq_param ''runId'' rq \<noteq> None \<and> starts_with ''/pipeline-runs/'' (rq_path rq)
      then Some (Kind_pipeline_run, the (rq_param ''runId'' rq))
      else if rq_param ''build_id'' rq \<noteq> None \<and> starts_with ''/builds/'' (rq_path rq)
      then Some (Kind_build, the (rq_param ''build_id'' rq))
      else if rq_param ''thread_id'' rq \<noteq> None \<and> starts_with ''/threads/'' (rq_path rq)
      then Some (Kind_thread, the (rq_param ''thread_id'' rq))
      else None)"

definition extractOrgId :: "http_request \<Rightarrow> string option" where
  "extractOrgId rq =
     (case rq_param ''org_id'' rq of
        Some v \<Rightarrow> Some v
      | None \<Rightarrow>
          if rq_param ''id'' rq \<noteq> None \<and> starts_with ''/orgs/'' (rq_path rq) then rq_param ''id'' rq
          else if truthy_string (rq_body_org_id rq) then rq_body_org_id rq else None)"

subsection \<open>The guard\<close>

definition assertTokenMayAddressResource :: "auth_user \<Rightarrow> owned_kind \<times> string \<Rightarrow> access_db \<Rightarrow> api_error + unit" where
  "assertTokenMayAddressResource u ref d =
     (if fst ref = Kind_job \<and> truthy_string (au_job_id u) \<and>
         (snd ref = the (au_job_id u) \<or> starts_with (the (au_job_id u) @ ''.'') (snd ref)) then Inr ()
      else
        case getResourceProjectContext (fst ref) (snd ref) d of
          Inl e \<Rightarrow> Inl e
        | Inr (project, org) \<Rightarrow>
            if truthy_string (au_project_id u) then
              if au_project_id u \<noteq> Some project
              then Inl (Forbidden ''Token is not scoped to the project that owns this resource'') else Inr ()
            else if truthy_string (au_org_id u) then
              if au_org_id u \<noteq> Some org
              then Inl (Forbidden ''Token is not scoped to the org that owns this resource'') else Inr ()
            else Inl (Forbidden ''Token carries no project or org scope for this resource''))"

text \<open>The org and the project the permissions of a user are resolved in, if there is an org.\<close>

definition permission_context :: "http_request \<Rightarrow> access_db \<Rightarrow> api_error + string option \<times> string option" where
  "permission_context rq d =
     (case extractProjectId rq of
        Some p \<Rightarrow> (case getProjectOrgId p d of Inl e \<Rightarrow> Inl e | Inr org \<Rightarrow> Inr (Some org, Some p))
      | None \<Rightarrow>
          (case extractResourceRef rq of
             Some ref \<Rightarrow> (case getResourceProjectContext (fst ref) (snd ref) d of
                 Inl e \<Rightarrow> Inl e | Inr (project, org) \<Rightarrow> Inr (Some org, Some project))
           | None \<Rightarrow> Inr (extractOrgId rq, None)))"

definition resolvePermissions :: "auth_user \<Rightarrow> http_request \<Rightarrow> access_db \<Rightarrow> api_error + string list" where
  "resolvePermissions u rq d =
     (if is_token u then
        case (if extractProjectId rq = None then extractResourceRef rq else None) of
          None \<Rightarrow> Inr (or_default [] (au_permissions u))
        | Some ref \<Rightarrow> (case assertTokenMayAddressResource u ref d of
              Inl e \<Rightarrow> Inl e | Inr _ \<Rightarrow> Inr (or_default [] (au_permissions u)))
      else
        case permission_context rq d of
          Inl e \<Rightarrow> Inl e
        | Inr (org, project) \<Rightarrow>
            if truthy_string org then Inr (getEffectivePermissions (au_user_id u) (the org) project d)
            else Inr (expandPermissions ''member''))"

definition canActivate :: "bool \<Rightarrow> endpoint \<Rightarrow> auth_user option \<Rightarrow> http_request \<Rightarrow> access_db \<Rightarrow> api_error + unit" where
  "canActivate authEnabled ep user rq d =
     (if \<not> authEnabled \<or> ep_public ep then Inr ()
      else case user of
        None \<Rightarrow> Inl (Unauthorized ''Missing user context'')
      | Some u \<Rightarrow>
          if au_user_id u = [] then Inl (Unauthorized ''Missing user context'')
          else if au_is_admin u then Inr ()
          else if or_default [] (ep_permissions ep) = [] then
            if au_is_job_token u then Inl (Forbidden ''Job tokens require explicit permission grants for this endpoint'')
            else if au_is_service_token u then Inl (Forbidden ''Service tokens require explicit permission grants for this endpoint'')
            else if au_is_service_principal u
            then Inl (Forbidden ''Service principal tokens require explicit permission grants for this endpoint'')
            else Inr ()
          else
            case resolvePermissions u rq d of
              Inl e \<Rightarrow> Inl e
            | Inr effective \<Rightarrow>
                if hasAnyPermission effective (or_default [] (ep_permissions ep)) then Inr ()
                else Inl (Forbidden (''Missing required permission: '' @ join_with '' or '' (or_default [] (ep_permissions ep)))))"

subsection \<open>Access to a resource\<close>

definition resolvePrincipal :: "bool \<Rightarrow> auth_user option \<Rightarrow> api_error + (principal_type \<times> string) option" where
  "resolvePrincipal authEnabled user =
     (if \<not> authEnabled then Inr None
      else case user of
        None \<Rightarrow> Inl (Unauthorized ''Missing user context'')
      | Some u \<Rightarrow>
          if au_user_id u = [] then Inl (Unauthorized ''Missing user context'')
          else Inr (Some (if au_is_service_principal u then Service_principal else User, au_user_id u)))"

definition job_token_permissions :: "auth_user option \<Rightarrow> string list option" where
  "job_token_permissions user =
     (case user of Some u \<Rightarrow> if au_is_job_token u then au_permissions u else None | None \<Rightarrow> None)"

definition scoped_can ::
  "bool \<Rightarrow> string \<Rightarrow> string \<Rightarrow> auth_user option \<Rightarrow> string option \<Rightarrow> resource option \<Rightarrow> timestamp \<Rightarrow> access_db \<Rightarrow> api_error + bool" where
  "scoped_can authEnabled orgId permission user projectId resource now d =
     (case job_token_permissions user of
        Some permissions \<Rightarrow>
          Inr (permission \<in> set permissions \<and>
               (au_scope (the user) = None \<or> scope_passes (au_scope (the user)) permission resource))
      | None \<Rightarrow>
          (case resolvePrincipal authEnabled user of
             Inl e \<Rightarrow> Inl e
           | Inr None \<Rightarrow> Inr True
           | Inr (Some (ptype, pid)) \<Rightarrow>
               (case access_can \<lparr>ap_org_id = orgId, ap_principal_type = ptype, ap_principal_id = pid, ap_project_id = projectId,
                       ap_permission = permission, ap_resource = resource\<rparr> now d of
                  Inl e \<Rightarrow> Inl e
                | Inr r \<Rightarrow> Inr (cr_allowed r))))"

definition scoped_assert ::
  "bool \<Rightarrow> string \<Rightarrow> string \<Rightarrow> auth_user option \<Rightarrow> string option \<Rightarrow> resource option \<Rightarrow> timestamp \<Rightarrow> access_db \<Rightarrow> api_error + unit" where
  "scoped_assert authEnabled orgId permission user projectId resource now d =
     (case scoped_can authEnabled orgId permission user projectId resource now d of
        Inl e \<Rightarrow> Inl e
      | Inr True \<Rightarrow> Inr ()
      | Inr False \<Rightarrow> Inl (Forbidden (case resource of
            Some res \<Rightarrow> ''Access denied for resource: '' @ resource_name (r_type res) @ '':'' @ r_id res
          | None \<Rightarrow> ''Access denied for permission: '' @ permission)))"

subsection \<open>Minting job tokens\<close>

text \<open>
  Both checks of the services are skipped where \<^verbatim>\<open>this.accessService\<close>, an optional dependency, is not injected. The argument
  \<open>accessService\<close> is the injected service, given by the rows it reads, or \<open>None\<close>.
\<close>

definition scope_checks :: "access_scope \<Rightarrow> (string \<times> resource) list" where
  "scope_checks sc =
     (let paths = (\<lambda>p t a ps. map (\<lambda>prefix. (p, \<lparr>r_type = t, r_id = pathPatternBase prefix, r_action = a\<rparr>)) (or_default [] ps));
          ids = (\<lambda>p t is. map (\<lambda>i. (p, \<lparr>r_type = t, r_id = i, r_action = Act_read\<rparr>)) (or_default [] is))
      in paths ''orgfs:write'' Orgfs Act_write (Option.bind (s_orgfs sc) allow_prefixes) @
         paths ''orgfs:read'' Orgfs Act_read (Option.bind (s_orgfs sc) read_only_prefixes) @
         paths ''orgdocs:write'' Orgdocs Act_write (Option.bind (s_orgdocs sc) allow_prefixes) @
         paths ''orgdocs:read'' Orgdocs Act_read (Option.bind (s_orgdocs sc) read_only_prefixes) @
         ids ''cloud_fs:read'' Cloud_fs (Option.bind (s_cloud_fs sc) allow_mount_ids) @
         ids ''envdb:read'' Envdb (Option.bind (s_envdb sc) schemas) @
         ids ''envdb:read'' Envdb (Option.bind (s_envdb sc) tables))"

definition actor_can :: "string \<Rightarrow> string \<Rightarrow> string \<Rightarrow> string \<Rightarrow> resource option \<Rightarrow> timestamp \<Rightarrow> access_db \<Rightarrow> api_error + bool" where
  "actor_can orgId projectId userId permission resource now d =
     (case access_can \<lparr>ap_org_id = orgId, ap_principal_type = User, ap_principal_id = userId, ap_project_id = Some projectId,
             ap_permission = permission, ap_resource = resource\<rparr> now d of
        Inl e \<Rightarrow> Inl e
      | Inr r \<Rightarrow> Inr (cr_allowed r))"

fun run_checks :: "(string \<times> resource option \<Rightarrow> api_error + bool) \<Rightarrow> (string \<times> resource option \<Rightarrow> string) \<Rightarrow>
    (string \<times> resource option) list \<Rightarrow> api_error + unit" where
  "run_checks can message [] = Inr ()"
| "run_checks can message (c # cs) =
     (case can c of Inl e \<Rightarrow> Inl e
      | Inr True \<Rightarrow> run_checks can message cs
      | Inr False \<Rightarrow> Inl (Bad_request (message c)))"

definition assertActorCanUseScope ::
  "string \<Rightarrow> string \<Rightarrow> string option \<Rightarrow> access_scope option \<Rightarrow> string \<Rightarrow> timestamp \<Rightarrow> access_db option \<Rightarrow> api_error + unit" where
  "assertActorCanUseScope orgId projectId userId scope ctxt now accessService =
     (if \<not> truthy_string userId \<or> scope = None \<or> accessService = None then Inr ()
      else run_checks (\<lambda>(p, res). actor_can orgId projectId (the userId) p res now (the accessService))
             (\<lambda>(p, res). ctxt @ '' is outside the invoking actor'' @ [CHR 39] @ ''s access scope: '' @ p @ '' '' @ r_id (the res))
             (map (\<lambda>(p, res). (p, Some res)) (filter (\<lambda>(p, res). r_id res \<noteq> ''*'') (scope_checks (the scope)))))"

definition assertActorCanGrantPermissions ::
  "string \<Rightarrow> string \<Rightarrow> string option \<Rightarrow> string list option \<Rightarrow> string \<Rightarrow> timestamp \<Rightarrow> access_db option \<Rightarrow> api_error + unit" where
  "assertActorCanGrantPermissions orgId projectId userId permissions ctxt now accessService =
     (if \<not> truthy_string userId \<or> permissions = None \<or> accessService = None then Inr ()
      else run_checks (\<lambda>(p, res). actor_can orgId projectId (the userId) p res now (the accessService))
             (\<lambda>(p, res). ctxt @ '' requests permission '' @ [CHR 34] @ p @ [CHR 34] @ '' that the invoking actor does not hold'')
             (map (\<lambda>p. (p, None)) (the permissions)))"

definition mergeStepTokenPermissions :: "string list option \<Rightarrow> string list option \<Rightarrow> string list option \<Rightarrow> string list option" where
  "mergeStepTokenPermissions workflowPermissions stepPermissions invocationPermissions =
     map_option sorted_set (coalesce stepPermissions (coalesce invocationPermissions workflowPermissions))"

subsection \<open>Removing access\<close>

text \<open>\<^verbatim>\<open>removeMember\<close> of \<^verbatim>\<open>orgs.service.ts\<close> and \<^verbatim>\<open>projects.service.ts\<close>: the last owner stays.\<close>

definition last_owner :: "string \<Rightarrow> string \<Rightarrow> membership list \<Rightarrow> bool" where
  "last_owner scope user rows =
     (let owners = filter (\<lambda>m. mb_scope_id m = scope \<and> mb_role m = ''owner'') rows
      in list_ex (\<lambda>m. mb_user_id m = user) owners \<and> length owners \<le> 1)"

definition org_removeMember :: "string \<Rightarrow> string \<Rightarrow> access_db \<Rightarrow> (api_error + unit) \<times> access_db" where
  "org_removeMember orgId userId d =
     (if last_owner orgId userId (org_memberships d)
      then (Inl (Forbidden ''Cannot remove the last owner of an organization''), d)
      else let (removed, d') = removeOrgMembership orgId userId d
           in (if removed then Inr () else Inl (Not_found (''Member '' @ userId @ '' not found in org '' @ orgId)), d'))"

definition project_removeMember :: "string \<Rightarrow> string \<Rightarrow> access_db \<Rightarrow> (api_error + unit) \<times> access_db" where
  "project_removeMember projectId userId d =
     (if last_owner projectId userId (project_memberships d)
      then (Inl (Forbidden ''Cannot remove the last owner of a project''), d)
      else let (removed, d') = removeProjectMembership projectId userId d
           in (if removed then Inr () else Inl (Not_found (''Member '' @ userId @ '' not found in project '' @ projectId)), d'))"

text \<open>The delete of \<^verbatim>\<open>auth.access-groups.controller.ts\<close>, behind the guard.\<close>

definition group_delete :: "string \<Rightarrow> string \<Rightarrow> auth_user option \<Rightarrow> access_db \<Rightarrow> (api_error + unit) \<times> access_db" where
  "group_delete orgId groupInput caller d =
     (case caller of
        None \<Rightarrow> (Inl (Unauthorized ''Authorization required''), d)
      | Some u \<Rightarrow>
          if au_user_id u = [] then (Inl (Unauthorized ''Authorization required''), d)
          else
            case (if au_is_admin u then Inr () else requireOrgRole (au_user_id u) orgId ''admin'' d) of
              Inl e \<Rightarrow> (Inl e, d)
            | Inr _ \<Rightarrow>
                (case resolveGroup orgId groupInput d of
                   None \<Rightarrow> (Inl (Not_found (''Access group not found: '' @ groupInput)), d)
                 | Some g \<Rightarrow>
                     (let (_, d1) = deleteBindingsForPrincipal orgId Group (ag_id g) d;
                          (deleted, d2) = deleteGroup orgId (ag_id g) d1
                      in (if deleted then Inr () else Inl (Not_found ''Access group not found''), d2))))"

subsection \<open>The membership report\<close>

record scope_summary =
  ss_orgfs :: "string list \<times> string list"
  ss_orgdocs :: "string list \<times> string list"
  ss_envdb :: "string list \<times> string list"

definition summarizeScopes :: "binding_with_role list \<Rightarrow> scope_summary" where
  "summarizeScopes xs =
     (let scopes = keep_some (map (ab_scope_json \<circ> br_binding) xs);
          gather = (\<lambda>sel. sorted_set (concat (map (\<lambda>sc. or_default [] (sel sc)) scopes)))
      in \<lparr>ss_orgfs = (gather (\<lambda>sc. Option.bind (s_orgfs sc) allow_prefixes), gather (\<lambda>sc. Option.bind (s_orgfs sc) read_only_prefixes)),
          ss_orgdocs = (gather (\<lambda>sc. Option.bind (s_orgdocs sc) allow_prefixes), gather (\<lambda>sc. Option.bind (s_orgdocs sc) read_only_prefixes)),
          ss_envdb = (gather (\<lambda>sc. Option.bind (s_envdb sc) schemas), gather (\<lambda>sc. Option.bind (s_envdb sc) tables))\<rparr>)"

record memberships_response =
  mr_principal :: "principal_type \<times> string"
  mr_org_role :: "string option"
  mr_project_roles :: "(string \<times> string) list"
  mr_token_scopes :: "string list"
  mr_groups :: "(string \<times> string \<times> string) list"
  mr_direct_bindings :: "access_binding list"
  mr_effective_bindings :: "binding_with_role list"
  mr_effective_permissions :: "string list"
  mr_effective_scopes :: scope_summary

definition group_ref :: "access_group \<Rightarrow> string \<times> string \<times> string" where
  "group_ref g = (ag_id g, ag_slug g, ag_name g)"

definition membershipsForUser :: "string \<Rightarrow> string \<Rightarrow> access_db \<Rightarrow> memberships_response" where
  "membershipsForUser orgId userId d =
     (let orgMembership = findOrgMembership userId orgId d;
          projectMemberships = listProjectMembershipsForUser userId (Some orgId) d;
          effective = listApplicableBindings orgId User userId None d
      in \<lparr>mr_principal = (User, userId), mr_org_role = map_option mb_role orgMembership,
          mr_project_roles = map (\<lambda>m. (mb_scope_id m, mb_role m)) projectMemberships, mr_token_scopes = [],
          mr_groups = map group_ref (listGroupsForPrincipal orgId User userId d),
          mr_direct_bindings = map br_binding (listBindings (Some orgId) None (Some User) (Some userId) d),
          mr_effective_bindings = effective,
          mr_effective_permissions = sorted_set
            ((case orgMembership of None \<Rightarrow> [] | Some m \<Rightarrow> expandPermissions (mb_role m)) @
             concat (map (expandPermissions \<circ> mb_role) projectMemberships) @ concat (map br_role_permissions effective)),
          mr_effective_scopes = summarizeScopes effective\<rparr>)"

definition membershipsForServicePrincipal :: "string \<Rightarrow> string \<Rightarrow> timestamp \<Rightarrow> access_db \<Rightarrow> api_error + memberships_response" where
  "membershipsForServicePrincipal orgId principalId now d =
     (case getServicePrincipal orgId principalId d of
        None \<Rightarrow> Inl (Not_found (''Service principal '' @ principalId @ '' not found in org '' @ orgId))
      | Some sp \<Rightarrow>
          (let effective = listApplicableBindings orgId Service_principal (sv_id sp) None d;
               tokenScopes = concat (map tk_scopes (live_tokens (sv_id sp) now d))
           in Inr \<lparr>mr_principal = (Service_principal, sv_id sp), mr_org_role = None, mr_project_roles = [],
                   mr_token_scopes = sorted_set tokenScopes,
                   mr_groups = map group_ref (listGroupsForPrincipal orgId Service_principal (sv_id sp) d),
                   mr_direct_bindings = map br_binding (listBindings (Some orgId) None (Some Service_principal) (Some (sv_id sp)) d),
                   mr_effective_bindings = effective,
                   mr_effective_permissions = sorted_set (tokenScopes @ concat (map br_role_permissions effective)),
                   mr_effective_scopes = summarizeScopes effective\<rparr>))"

definition membershipsForGroup :: "string \<Rightarrow> string \<Rightarrow> access_db \<Rightarrow> api_error + memberships_response" where
  "membershipsForGroup orgId groupInput d =
     (case resolveGroup orgId groupInput d of
        None \<Rightarrow> Inl (Not_found (''Access group '' @ groupInput @ '' not found in org '' @ orgId))
      | Some g \<Rightarrow>
          (let effective = listApplicableBindings orgId Group (ag_id g) None d
           in Inr \<lparr>mr_principal = (Group, ag_id g), mr_org_role = None, mr_project_roles = [], mr_token_scopes = [], mr_groups = [],
                   mr_direct_bindings = map br_binding (listBindings (Some orgId) None (Some Group) (Some (ag_id g)) d),
                   mr_effective_bindings = effective,
                   mr_effective_permissions = sorted_set (concat (map br_role_permissions effective)),
                   mr_effective_scopes = summarizeScopes effective\<rparr>))"

definition access_memberships :: "string \<Rightarrow> principal_type \<Rightarrow> string \<Rightarrow> timestamp \<Rightarrow> access_db \<Rightarrow> api_error + memberships_response" where
  "access_memberships orgId ptype principalId now d =
     (case ptype of
        Service_principal \<Rightarrow> membershipsForServicePrincipal orgId principalId now d
      | Group \<Rightarrow> membershipsForGroup orgId principalId d
      | User \<Rightarrow> Inr (membershipsForUser orgId principalId d))"

end
