(* ===== verification/Pipeline_Expander.thy ===== *)
theory Pipeline_Expander
  imports Step_Execution Pipeline_Runs Job_Hierarchy Job_Crud Job_Ids Access_Guard
begin

section \<open>Expanding a pipeline into jobs\<close>

text \<open>
  \<^verbatim>\<open>apps/api/src/pipelines/pipeline-expander.service.ts\<close> and the two lookups of
  \<^verbatim>\<open>packages/db/src/queries/project-manifests.ts\<close> it makes. A manifest has passed its schema, so a pipeline and a step are
  objects and the entries of \<^verbatim>\<open>depends_on\<close> are strings. The YAML parser, the schema of access scopes, the drawn run id, the
  hashes tried for the id of a step's job and the ids of relations are the record \<open>expander_ext\<close>; \<open>Drawing\<close> is a call that
  still draws hashes when the given ones are used up. The argument \<open>service\<close> is the access service, an optional dependency, by
  the rows it reads: \<open>None\<close> when it is not injected, as in \<^verbatim>\<open>PipelinesModule\<close>, which neither provides nor imports it.
  Projects are not deleted. The statements of an expansion
  commit one by one: an error leaves what was written before it.
\<close>

record project_manifest =
  pm_id :: string
  pm_project_id :: string
  pm_manifest_yaml :: string
  pm_manifest_hash :: string
  pm_git_sha :: "string option"
  pm_created_at :: timestamp
  pm_updated_at :: timestamp

definition latest_manifest :: "project_manifest list \<Rightarrow> project_manifest option" where
  "latest_manifest rows = first_row (order_by (\<lambda>m. (- pm_updated_at m, - pm_created_at m)) rows)"

definition findLatestByProject :: "string \<Rightarrow> project_manifest list \<Rightarrow> project_manifest option" where
  "findLatestByProject projectId ms = latest_manifest (filter (\<lambda>m. pm_project_id m = projectId) ms)"

definition findByProjectAndGitSha :: "string \<Rightarrow> string \<Rightarrow> project_manifest list \<Rightarrow> project_manifest option" where
  "findByProjectAndGitSha projectId gitSha ms =
     latest_manifest (filter (\<lambda>m. pm_project_id m = projectId \<and> pm_git_sha m = Some gitSha) ms)"

record expand_request =
  xq_pipeline_name :: string
  xq_env_name :: "string option"
  xq_git_sha :: string
  xq_inputs :: "jobject option"
  xq_only :: "string option"
  xq_dedupe_key :: "string option"
  xq_dry_run :: bool

record expander_ext =
  px_yaml :: "string \<Rightarrow> json option"
  px_scope_schema :: "json \<Rightarrow> json option"
  px_run_id :: string
  px_hashes :: "nat \<Rightarrow> string list"
  px_uuids :: "string \<times> string \<Rightarrow> string"

datatype expand_exn = Http api_error | Zod_error | Internal exn

datatype 'a expansion = Expanded 'a | Refused expand_exn | Drawing

text \<open>\<^verbatim>\<open>Invalid <path>: <issues>\<close>: the issues are left out.\<close>

definition invalid_at :: "string \<Rightarrow> expand_exn" where
  "invalid_at path = Http (Bad_request (''Invalid '' @ path))"

subsection \<open>Fields of a pipeline and of a step\<close>

definition null_or_absent :: "json option \<Rightarrow> bool" where
  "null_or_absent v = (v = None \<or> v = Some JNull)"

definition parseTokenScope :: "expander_ext \<Rightarrow> json option \<Rightarrow> string \<Rightarrow> expand_exn + json option" where
  "parseTokenScope x v path =
     (if null_or_absent v then Inr None
      else case px_scope_schema x (the v) of None \<Rightarrow> Inl (invalid_at path) | Some sc \<Rightarrow> Inr (Some sc))"

fun string_entries :: "json list \<Rightarrow> string list option" where
  "string_entries [] = Some []"
| "string_entries (JStr (c # cs) # es) = map_option ((#) (c # cs)) (string_entries es)"
| "string_entries (_ # es) = None"

definition parseTokenPermissions :: "json option \<Rightarrow> string \<Rightarrow> expand_exn + string list option" where
  "parseTokenPermissions v path =
     (if null_or_absent v then Inr None
      else case v of
        Some (JArr es) \<Rightarrow>
          (case string_entries es of
             None \<Rightarrow> Inl (invalid_at path)
           | Some ps \<Rightarrow> if list_all (\<lambda>p. p \<in> set ALL_PERMISSIONS) ps then Inr (Some (sorted_set ps)) else Inl (invalid_at path))
      | _ \<Rightarrow> Inl (invalid_at path))"

definition VALID_TOOLCHAINS :: "string list" where
  "VALID_TOOLCHAINS = [''python'', ''media'', ''rust'', ''java'', ''kotlin'', ''browser'']"

definition first_occurrences :: "string list \<Rightarrow> string list" where
  "first_occurrences ts = rev (remdups (rev ts))"

definition parseToolchains :: "json option \<Rightarrow> string \<Rightarrow> expand_exn + string list option" where
  "parseToolchains v path =
     (if null_or_absent v then Inr None
      else case v of
        Some (JArr es) \<Rightarrow>
          (case string_entries es of
             None \<Rightarrow> Inl (invalid_at path)
           | Some ts \<Rightarrow> if list_all (\<lambda>t. t \<in> set VALID_TOOLCHAINS) ts then Inr (Some (first_occurrences ts)) else Inl (invalid_at path))
      | _ \<Rightarrow> Inl (invalid_at path))"

definition parseEnvOverrides :: "json option \<Rightarrow> string \<Rightarrow> expand_exn + env option" where
  "parseEnvOverrides v path =
     (if null_or_absent v then Inr None
      else case EnvOverridesSchema (the v) of None \<Rightarrow> Inl (invalid_at path) | Some e \<Rightarrow> Inr (Some e))"

definition nonempty :: "'a list option \<Rightarrow> bool" where
  "nonempty v = (case v of Some (_ # _) \<Rightarrow> True | _ \<Rightarrow> False)"

definition resolveStepToolchains :: "string list option \<Rightarrow> string list option \<Rightarrow> string list" where
  "resolveStepToolchains pipelineToolchains stepToolchains =
     (if nonempty stepToolchains then the stepToolchains
      else if nonempty pipelineToolchains then the pipelineToolchains else [])"

definition resolvePipelineStepToolchains ::
  "string list option \<Rightarrow> string list option \<Rightarrow> jobject \<Rightarrow> step_execution \<Rightarrow> string \<Rightarrow> expand_exn + string list" where
  "resolvePipelineStepToolchains pipelineToolchains stepToolchains step execution path =
     (if (case object_of (obj_get step ''action'') of Some a \<Rightarrow> ''toolchains'' \<in> fst ` set a | None \<Rightarrow> False)
      then Inl (invalid_at (path @ ''.action.toolchains''))
      else if se_executionType execution = ExecAction \<and> se_actionType execution \<noteq> Some ''run'' then
        (if nonempty stepToolchains then Inl (invalid_at (path @ ''.toolchains'')) else Inr [])
      else Inr (resolveStepToolchains pipelineToolchains stepToolchains))"

definition pipeline_step_name :: "jobject \<Rightarrow> nat \<Rightarrow> string" where
  "pipeline_step_name step index =
     (case obj_get step ''name'' of Some (JStr (c # cs)) \<Rightarrow> c # cs | _ \<Rightarrow> ''step-'' @ show_nat (index + 1))"

definition labelled :: "jobject list \<Rightarrow> (nat \<times> string \<times> jobject) list" where
  "labelled steps = map (\<lambda>i. (i, pipeline_step_name (steps ! i) i, steps ! i)) [0..<length steps]"

definition step_depends_on :: "jobject \<Rightarrow> string list" where
  "step_depends_on step =
     (case obj_get step ''depends_on'' of
        Some (JArr ds) \<Rightarrow> concat (map (\<lambda>d. case d of JStr t \<Rightarrow> [t] | _ \<Rightarrow> []) ds)
      | _ \<Rightarrow> [])"

definition shared_execution :: "jobject \<Rightarrow> string \<Rightarrow> expand_exn + step_execution" where
  "shared_execution step stepName =
     (case parseStepExecution step stepName of Inl m \<Rightarrow> Inl (Http (Bad_request m)) | Inr e \<Rightarrow> Inr e)"

definition pipeline_path :: "string \<Rightarrow> string \<Rightarrow> string" where
  "pipeline_path pipelineName field = ''Pipeline \"'' @ pipelineName @ ''\".'' @ field"

definition step_path :: "string \<Rightarrow> string \<Rightarrow> string" where
  "step_path pipelineName stepName = ''Pipeline \"'' @ pipelineName @ ''\" step \"'' @ stepName @ ''\"''"

fun env_overrides_by_step ::
  "string \<Rightarrow> env option \<Rightarrow> (nat \<times> string \<times> jobject) list \<Rightarrow> (string \<times> env option) list \<Rightarrow> expand_exn + (string \<times> env option) list" where
  "env_overrides_by_step pipelineName pipelineEnv [] byStep = Inr byStep"
| "env_overrides_by_step pipelineName pipelineEnv ((index, stepName, step) # rest) byStep =
     (case parseEnvOverrides (obj_get step ''env_overrides'') (step_path pipelineName stepName @ ''.env_overrides'') of
        Inl e \<Rightarrow> Inl e
      | Inr stepEnv \<Rightarrow>
          (case shared_execution step stepName of
             Inl e \<Rightarrow> Inl e
           | Inr execution \<Rightarrow>
               if se_executionType execution = ExecAction \<and> se_actionType execution = Some ''run'' then
                 (case mergeEnvOverrides pipelineEnv stepEnv None of
                    Inl _ \<Rightarrow> Inl Zod_error
                  | Inr v \<Rightarrow> env_overrides_by_step pipelineName pipelineEnv rest ((stepName, v) # byStep))
               else env_overrides_by_step pipelineName pipelineEnv rest ((stepName, None) # byStep)))"

definition resolvePipelineActionRunEnvOverrides ::
  "string \<Rightarrow> env option \<Rightarrow> jobject list \<Rightarrow> expand_exn + (string \<times> env option) list" where
  "resolvePipelineActionRunEnvOverrides pipelineName pipelineEnv steps =
     env_overrides_by_step pipelineName pipelineEnv (labelled steps) []"

definition pipeline_step_scope :: "json option \<Rightarrow> json option \<Rightarrow> json option" where
  "pipeline_step_scope pipelineScope stepScope = coalesce stepScope pipelineScope"

definition pipeline_step_permissions :: "string list option \<Rightarrow> string list option \<Rightarrow> string list option" where
  "pipeline_step_permissions pipelinePermissions stepPermissions =
     map_option sorted_set (coalesce stepPermissions pipelinePermissions)"

subsection \<open>The pipeline of a manifest\<close>

definition resolveManifestForRun :: "string \<Rightarrow> string \<Rightarrow> project_manifest list \<Rightarrow> project_manifest option" where
  "resolveManifestForRun projectId gitSha ms =
     (case (if gitSha = [] then None else findByProjectAndGitSha projectId gitSha ms) of
        Some m \<Rightarrow> Some m
      | None \<Rightarrow> findLatestByProject projectId ms)"

definition getPipelineFromManifest :: "expander_ext \<Rightarrow> string \<Rightarrow> string \<Rightarrow> expand_exn + jobject" where
  "getPipelineFromManifest x manifestYaml pipelineName =
     (case px_yaml x manifestYaml of
        None \<Rightarrow> Inl (Http (Bad_request ''Invalid manifest YAML''))
      | Some parsed \<Rightarrow>
          (case json_get parsed ''pipelines'' of
             Some (JObj pipelines) \<Rightarrow>
               (case object_of (obj_get pipelines pipelineName) of
                  None \<Rightarrow> Inl (Http (Not_found (''Pipeline \"'' @ pipelineName @ ''\" not found in manifest'')))
                | Some p \<Rightarrow> Inr p)
           | Some (JArr _) \<Rightarrow> Inl (Http (Not_found (''Pipeline \"'' @ pipelineName @ ''\" not found in manifest'')))
           | _ \<Rightarrow> Inl (Http (Not_found ''No pipelines defined in manifest''))))"

definition isRemediationPipeline :: "jobject \<Rightarrow> bool" where
  "isRemediationPipeline pipeline =
     (case Option.bind (obj_get pipeline ''trigger'') (\<lambda>t. Option.bind (json_get t ''system'') (\<lambda>s. json_get s ''event'')) of
        Some (JStr e) \<Rightarrow> e = ''pipeline.failed'' \<or> e = ''system.pipeline.failed''
      | _ \<Rightarrow> False)"

definition action_type_of :: "jobject \<Rightarrow> json option" where
  "action_type_of step = Option.bind (obj_get step ''action'') (\<lambda>a. json_get a ''type'')"

definition ensureRemediationPipelinePolicy :: "string \<Rightarrow> jobject \<Rightarrow> jobject list \<Rightarrow> expand_exn + unit" where
  "ensureRemediationPipelinePolicy pipelineName pipeline steps =
     (if \<not> isRemediationPipeline pipeline then Inr ()
      else let actionSteps = filter (\<lambda>s. case obj_get s ''action'' of Some (JObj _) \<Rightarrow> True | Some (JArr _) \<Rightarrow> True | _ \<Rightarrow> False) steps
        in if filter (\<lambda>s. action_type_of s = Some (JStr ''create-pr'')) actionSteps = [] then
             Inl (Http (Bad_request (''Remediation pipeline \"'' @ pipelineName @ ''\" must include a create-pr action step'')))
           else case find_row (\<lambda>s. action_type_of s \<noteq> Some (JStr ''create-pr'')) actionSteps of
             Some bad \<Rightarrow>
               if json_truthy (action_type_of bad) then
                 Inl (Http (Bad_request (''Remediation pipeline \"'' @ pipelineName @ ''\" action \"'' @
                   (case action_type_of bad of Some (JStr t) \<Rightarrow> t | _ \<Rightarrow> []) @ ''\" is not allowed; use create-pr'')))
               else Inr ()
           | None \<Rightarrow> Inr ())"

subsection \<open>Running only one step\<close>

text \<open>\<^verbatim>\<open>visit\<close> as a loop over the names still to visit; the dependencies of a step are visited before what follows it.\<close>

definition unvisited :: "(string \<times> jobject) list \<Rightarrow> string list \<Rightarrow> nat" where
  "unvisited stepMap included = card (fst ` set stepMap - set included)"

function visit_steps :: "(string \<times> jobject) list \<Rightarrow> string list \<Rightarrow> string list \<Rightarrow> string + string list" where
  "visit_steps stepMap [] included = Inr included"
| "visit_steps stepMap (name # names) included =
     (case map_of stepMap name of
        None \<Rightarrow> Inl name
      | Some step \<Rightarrow>
          if name \<in> set included then visit_steps stepMap names included
          else visit_steps stepMap (step_depends_on step @ names) (included @ [name]))"
  by pat_completeness auto
termination visit_steps
proof (relation "measures [\<lambda>(m, names, inc). unvisited m inc, \<lambda>(m, names, inc). length names]", goal_cases)
  case (3 m name names inc step)
  have "name \<in> fst ` set m" using 3(1) by (metis map_of_eq_None_iff option.distinct(1))
  then have "unvisited m (inc @ [name]) < unvisited m inc"
    unfolding unvisited_def using 3(2) by (intro psubset_card_mono) auto
  then show ?case by simp
qed simp_all

definition named_steps :: "jobject list \<Rightarrow> jobject list" where
  "named_steps steps = map (\<lambda>(i, name, step). obj_set ''name'' (JStr name) step) (labelled steps)"

definition filterStepsForOnly :: "jobject list \<Rightarrow> string \<Rightarrow> expand_exn + jobject list" where
  "filterStepsForOnly steps only =
     (let stepMap = rev (map (\<lambda>(_, name, step). (name, step)) (labelled steps))
      in case visit_steps stepMap [only] [] of
           Inl name \<Rightarrow> Inl (Http (Bad_request (''Pipeline step \"'' @ name @ ''\" not found'')))
         | Inr included \<Rightarrow> Inr (map snd (filter (\<lambda>((_, name, _), _). name \<in> set included) (zip (labelled steps) (named_steps steps)))))"

subsection \<open>Jobs of the steps\<close>

fun exec_name :: "execution_type \<Rightarrow> string" where
  "exec_name ExecAgent = ''agent''"
| "exec_name ExecScript = ''script''"
| "exec_name ExecAction = ''action''"

definition or_empty :: "'a list option \<Rightarrow> 'a list" where
  "or_empty v = (case v of None \<Rightarrow> [] | Some xs \<Rightarrow> xs)"

text \<open>Title, description and metadata of a step's job. The three types of execution are all there are.\<close>

definition describePipelineStepExecution :: "jobject \<Rightarrow> step_execution \<Rightarrow> string \<Rightarrow> string \<times> string \<times> jobject" where
  "describePipelineStepExecution step execution stepName =
     (case se_executionType execution of
        ExecAction \<Rightarrow>
          (''[Action] '' @ stepName, ''Execute action: '' @ or_empty (se_actionType execution),
           [(''action_type'', json_opt (se_actionType execution)), (''action_input'', JObj (or_empty (se_actionInput execution)))])
      | ExecScript \<Rightarrow>
          (''[Script] '' @ stepName, or_empty (se_scriptCommand execution),
           [(''script_command'', JStr (or_empty (se_scriptCommand execution))),
            (''script_config'', JObj (case getScriptConfig step of None \<Rightarrow> [] | Some c \<Rightarrow> sc_config c))])
      | ExecAgent \<Rightarrow>
          (let config = or_empty (se_agentConfig execution); prompt = obj_get config ''prompt''
           in (''[Agent] '' @ stepName, or_empty (json_string prompt),
               (case prompt of None \<Rightarrow> [] | Some p \<Rightarrow> [(''agent_prompt'', p)]) @ [(''agent_config'', JObj config)])))"

definition step_hints :: "string \<Rightarrow> string \<Rightarrow> nat \<Rightarrow> execution_type \<Rightarrow> string \<Rightarrow> jobject \<Rightarrow> string list \<Rightarrow> jobject" where
  "step_hints runId stepName index executionType gitSha metadata toolchains =
     [(''pipeline_run_id'', JStr runId), (''step_name'', JStr stepName), (''step_index'', JNum (of_nat index)),
      (''execution_type'', JStr (exec_name executionType)), (''git_sha'', JStr gitSha)] @ metadata
     @ (if toolchains = [] then [] else [(''toolchains'', JArr (map JStr toolchains))])"

definition step_labels :: "string \<Rightarrow> string \<Rightarrow> string \<Rightarrow> execution_type \<Rightarrow> string list" where
  "step_labels pipelineName runId stepName executionType =
     [''pipeline:'' @ pipelineName, ''run:'' @ runId, ''step:'' @ stepName, ''execution:'' @ exec_name executionType]"

definition step_review :: "jobject \<Rightarrow> string" where
  "step_review step =
     (case Option.bind (obj_get step ''action'') (\<lambda>a. json_get a ''review_required'') of
        Some (JStr r) \<Rightarrow> r
      | _ \<Rightarrow> if action_type_of step = Some (JStr ''create-pr'') then ''human'' else ''none'')"

text \<open>The column is a VARCHAR(10) with a check.\<close>

definition review_column :: "string \<Rightarrow> db_error + review_required" where
  "review_column r =
     (if 10 < length r then Inl String_too_long
      else if r = ''none'' then Inr ReviewNone
      else if r = ''human'' then Inr ReviewHuman
      else if r = ''agent'' then Inr ReviewAgent
      else Inl Check_violation)"

definition truthy_action :: "jobject \<Rightarrow> json option" where
  "truthy_action step = (if json_truthy (obj_get step ''action'') then obj_get step ''action'' else None)"

record step_plan =
  pl_index :: nat
  pl_name :: string
  pl_step :: jobject
  pl_execution :: step_execution
  pl_toolchains :: "string list"
  pl_env :: "env option"

text \<open>What both the expansion and the dry run compute of a step before its job.\<close>

definition plan_step ::
  "string \<Rightarrow> string list option \<Rightarrow> (string \<times> env option) list \<Rightarrow> nat \<times> string \<times> jobject \<Rightarrow> expand_exn + step_plan" where
  "plan_step pipelineName pipelineToolchains byStep labelled_step =
     (case labelled_step of (index, stepName, step) \<Rightarrow>
        case shared_execution step stepName of
          Inl e \<Rightarrow> Inl e
        | Inr execution \<Rightarrow>
            (case parseToolchains (obj_get step ''toolchains'') (step_path pipelineName stepName @ ''.toolchains'') of
               Inl e \<Rightarrow> Inl e
             | Inr stepToolchains \<Rightarrow>
                 (case resolvePipelineStepToolchains pipelineToolchains stepToolchains step execution (step_path pipelineName stepName) of
                    Inl e \<Rightarrow> Inl e
                  | Inr toolchains \<Rightarrow>
                      Inr \<lparr>pl_index = index, pl_name = stepName, pl_step = step, pl_execution = execution, pl_toolchains = toolchains,
                           pl_env = (case map_of byStep stepName of None \<Rightarrow> None | Some v \<Rightarrow> v)\<rparr>)))"

definition step_job ::
  "expand_request \<Rightarrow> string \<Rightarrow> string \<Rightarrow> string option \<Rightarrow> string option \<Rightarrow> timestamp \<Rightarrow> string \<Rightarrow> step_plan \<Rightarrow>
    review_required \<Rightarrow> json option \<Rightarrow> string list option \<Rightarrow> job" where
  "step_job request projectId runId envName userId now jobId p review scope permissions =
     (let execution = pl_execution p; step = pl_step p;
          (title, description, metadata) = describePipelineStepExecution step execution (pl_name p)
      in \<lparr>j_id = jobId, j_project_id = projectId, j_parent_id = None, j_depth = 0,
          j_labels = step_labels (xq_pipeline_name request) runId (pl_name p) (se_executionType execution),
          j_phase = Ready, j_priority = min (int (pl_index p)) 4, j_assignee = None,
          j_review_required = review, j_review_status = None, j_reviewer = None, j_defer_until = None, j_ready_at = None,
          j_hints = step_hints runId (pl_name p) (pl_index p) (se_executionType execution) (xq_git_sha request) metadata (pl_toolchains p),
          j_harness = None, j_harness_profile_source = None, j_harness_profile_hash = None, j_git_json = None,
          j_resolved_git_json = None, j_blocked_on_gates = [], j_env_name = envName,
          j_execution_type = se_executionType execution, j_run_id = Some runId, j_step_name = Some (pl_name p),
          j_action_type = json_string (action_type_of step), j_failure_disposition = None, j_created_at = now,
          j_updated_at = now, j_closed_at = None, j_close_reason = None,
          j_spec = \<lparr>sp_title = title, sp_description = Some description, sp_issue_type = ''task'', sp_due_at = None,
            sp_harness_profile = None, sp_harness_options = None, sp_harness_profile_override = None,
            sp_env_overrides = map_option (\<lambda>e. JObj (env_json e)) (pl_env p), sp_token_scope = scope,
            sp_token_permissions = permissions, sp_workspace_json = None, sp_execution_mode = ''ephemeral'',
            sp_action_input = truthy_action step, sp_script_command = se_scriptCommand execution,
            sp_script_timeout_seconds = se_scriptTimeoutSeconds execution, sp_target = None, sp_resource_refs = [],
            sp_content_hash = None, sp_actor_user_id = userId\<rparr>\<rparr>)"

record expansion_context =
  cx_request :: expand_request
  cx_project_id :: string
  cx_org_id :: string
  cx_run_id :: string
  cx_env_name :: "string option"
  cx_user_id :: "string option"
  cx_toolchains :: "string list option"
  cx_by_step :: "(string \<times> env option) list"
  cx_scope :: "json option"
  cx_permissions :: "string list option"

text \<open>The checks of a step's token after its job id is drawn.\<close>

definition step_token ::
  "expander_ext \<Rightarrow> expansion_context \<Rightarrow> string \<Rightarrow> jobject \<Rightarrow> timestamp \<Rightarrow> access_db option \<Rightarrow> expand_exn + json option \<times> string list option" where
  "step_token x c stepName step now service =
     (let path = step_path (xq_pipeline_name (cx_request c)) stepName
      in case parseTokenScope x (obj_get step ''scope'') (path @ ''.scope'') of
           Inl e \<Rightarrow> Inl e
         | Inr stepScope \<Rightarrow>
             (case parseTokenPermissions (obj_get step ''permissions'') (path @ ''.permissions'') of
                Inl e \<Rightarrow> Inl e
              | Inr stepPermissions \<Rightarrow>
                  (let permissions = pipeline_step_permissions (cx_permissions c) stepPermissions
                   in case assertActorCanGrantPermissions (cx_org_id c) (cx_project_id c) (cx_user_id c) permissions
                          (path @ '' permissions'') now service of
                        Inl e \<Rightarrow> Inl (Http e)
                      | Inr _ \<Rightarrow> Inr (pipeline_step_scope (cx_scope c) stepScope, permissions))))"

fun create_step_jobs ::
  "expander_ext \<Rightarrow> expansion_context \<Rightarrow> timestamp \<Rightarrow> access_db option \<Rightarrow> (nat \<times> string \<times> jobject) list \<Rightarrow> job list \<Rightarrow> (string \<times> string) list \<Rightarrow> db \<Rightarrow>
    (job list \<times> (string \<times> string) list) expansion \<times> db" where
  "create_step_jobs x c now service [] createdJobs ids s = (Expanded (createdJobs, ids), s)"
| "create_step_jobs x c now service ((index, stepName, step) # rest) createdJobs ids s =
     (case plan_step (xq_pipeline_name (cx_request c)) (cx_toolchains c) (cx_by_step c) (index, stepName, step) of
        Inl e \<Rightarrow> (Refused e, s)
      | Inr p \<Rightarrow>
          (case generateJobId (cx_project_id c) None (px_hashes x index) s of
             None \<Rightarrow> (Drawing, s)
           | Some (Inl e) \<Rightarrow> (Refused (Internal e), s)
           | Some (Inr (jobId, _)) \<Rightarrow>
               (case step_token x c stepName step now service of
                  Inl e \<Rightarrow> (Refused e, s)
                | Inr (scope, permissions) \<Rightarrow>
                    (case review_column (step_review step) of
                       Inl e \<Rightarrow> (Refused (Internal (Job_Model.Db_error e)), s)
                     | Inr review \<Rightarrow>
                         (case create (step_job (cx_request c) (cx_project_id c) (cx_run_id c) (cx_env_name c) (cx_user_id c) now jobId p
                                review scope permissions) now s of
                            (Inl e, _) \<Rightarrow> (Refused (Internal (Job_Model.Db_error e)), s)
                          | (Inr job, s') \<Rightarrow>
                              create_step_jobs x c now service rest (createdJobs @ [job]) ((stepName, jobId) # ids) s')))))"

definition step_links :: "(nat \<times> string \<times> jobject) list \<Rightarrow> (string \<times> string) list" where
  "step_links steps = concat (map (\<lambda>(_, stepName, step). map (\<lambda>d. (stepName, d)) (step_depends_on step)) steps)"

fun relate_steps ::
  "expander_ext \<Rightarrow> (string \<times> string) list \<Rightarrow> (string \<times> string) list \<Rightarrow> (string \<times> string) list \<Rightarrow> db \<Rightarrow> (string \<times> string) list expansion \<times> db" where
  "relate_steps x ids [] relations s = (Expanded relations, s)"
| "relate_steps x ids ((stepName, depName) # links) relations s =
     (case map_of ids stepName of
        None \<Rightarrow> relate_steps x ids links relations s
      | Some jobId \<Rightarrow>
          (case map_of ids depName of
             None \<Rightarrow> (Refused (Http (Bad_request (''Step \"'' @ stepName @ ''\" depends on unknown step \"'' @ depName @ ''\"''))), s)
           | Some depJobId \<Rightarrow>
               (case addDependency jobId depJobId ''blocks'' (px_uuids x (stepName, depName)) s of
                  (Inl e, s') \<Rightarrow> (Refused (Internal e), s')
                | (Inr _, s') \<Rightarrow> relate_steps x ids links (relations @ [(jobId, depJobId)]) s')))"

subsection \<open>Responses\<close>

record job_response =
  jr_id :: string
  jr_project_id :: string
  jr_parent_id :: "string option"
  jr_depth :: int
  jr_title :: string
  jr_description :: "string option"
  jr_issue_type :: string
  jr_labels :: "string list"
  jr_phase :: string
  jr_priority :: int
  jr_assignee :: "string option"
  jr_review_required :: string
  jr_review_status :: "string option"
  jr_reviewer :: "string option"
  jr_defer_until :: json
  jr_due_at :: json
  jr_hints :: jobject
  jr_env_name :: "string option"
  jr_execution_mode :: string
  jr_execution_type :: string
  jr_run_id :: "string option"
  jr_step_name :: "string option"
  jr_action_type :: "string option"
  jr_action_input :: "json option"
  jr_script_command :: "string option"
  jr_script_timeout_seconds :: "rat option"
  jr_env_overrides :: "json option"
  jr_created_at :: string
  jr_updated_at :: string
  jr_closed_at :: json
  jr_close_reason :: "string option"

fun review_name :: "review_required \<Rightarrow> string" where
  "review_name ReviewNone = ''none''"
| "review_name ReviewHuman = ''human''"
| "review_name ReviewAgent = ''agent''"

definition toJobResponse :: "job \<Rightarrow> job_response" where
  "toJobResponse j =
     \<lparr>jr_id = j_id j, jr_project_id = j_project_id j, jr_parent_id = j_parent_id j, jr_depth = j_depth j,
      jr_title = sp_title (j_spec j), jr_description = sp_description (j_spec j), jr_issue_type = sp_issue_type (j_spec j),
      jr_labels = j_labels j, jr_phase = phase_name (j_phase j), jr_priority = j_priority j, jr_assignee = j_assignee j,
      jr_review_required = review_name (j_review_required j), jr_review_status = map_option review_status_name (j_review_status j),
      jr_reviewer = j_reviewer j, jr_defer_until = json_date (j_defer_until j), jr_due_at = json_date (sp_due_at (j_spec j)),
      jr_hints = j_hints j, jr_env_name = j_env_name j, jr_execution_mode = sp_execution_mode (j_spec j),
      jr_execution_type = exec_name (j_execution_type j), jr_run_id = j_run_id j, jr_step_name = j_step_name j,
      jr_action_type = j_action_type j, jr_action_input = sp_action_input (j_spec j),
      jr_script_command = sp_script_command (j_spec j), jr_script_timeout_seconds = sp_script_timeout_seconds (j_spec j),
      jr_env_overrides = sp_env_overrides (j_spec j), jr_created_at = iso_date (j_created_at j),
      jr_updated_at = iso_date (j_updated_at j), jr_closed_at = json_date (j_closed_at j), jr_close_reason = j_close_reason j\<rparr>"

record expand_response =
  er_run :: pipeline_run
  er_jobs :: "job_response list"
  er_relations :: "(string \<times> string) list"

subsection \<open>Dry run\<close>

definition dry_id :: "string \<Rightarrow> nat \<Rightarrow> string" where
  "dry_id stepName index = ''dry-'' @ stepName @ ''-'' @ show_nat index"

definition dry_job :: "expand_request \<Rightarrow> string \<Rightarrow> string \<Rightarrow> string option \<Rightarrow> timestamp \<Rightarrow> step_plan \<Rightarrow> job_response" where
  "dry_job request projectId runId envName now p =
     (let execution = pl_execution p; step = pl_step p;
          (title, description, metadata) = describePipelineStepExecution step execution (pl_name p)
      in \<lparr>jr_id = dry_id (pl_name p) (pl_index p), jr_project_id = projectId, jr_parent_id = None, jr_depth = 0,
          jr_title = title, jr_description = Some description, jr_issue_type = ''task'',
          jr_labels = step_labels (xq_pipeline_name request) runId (pl_name p) (se_executionType execution),
          jr_phase = (if step_depends_on step = [] then ''ready'' else ''backlog''), jr_priority = min (int (pl_index p)) 4,
          jr_assignee = None, jr_review_required = step_review step, jr_review_status = None, jr_reviewer = None,
          jr_defer_until = JNull, jr_due_at = JNull,
          jr_hints = step_hints runId (pl_name p) (pl_index p) (se_executionType execution) (xq_git_sha request) metadata (pl_toolchains p),
          jr_env_name = envName, jr_execution_mode = ''ephemeral'', jr_execution_type = exec_name (se_executionType execution),
          jr_run_id = Some runId, jr_step_name = Some (pl_name p), jr_action_type = json_string (action_type_of step),
          jr_action_input = truthy_action step, jr_script_command = se_scriptCommand execution,
          jr_script_timeout_seconds = se_scriptTimeoutSeconds execution,
          jr_env_overrides = map_option (\<lambda>e. JObj (env_json e)) (pl_env p), jr_created_at = iso_date now,
          jr_updated_at = iso_date now, jr_closed_at = JNull, jr_close_reason = None\<rparr>)"

fun plan_steps ::
  "string \<Rightarrow> string list option \<Rightarrow> (string \<times> env option) list \<Rightarrow> (nat \<times> string \<times> jobject) list \<Rightarrow> expand_exn + step_plan list" where
  "plan_steps pipelineName toolchains byStep [] = Inr []"
| "plan_steps pipelineName toolchains byStep (st # rest) =
     (case plan_step pipelineName toolchains byStep st of
        Inl e \<Rightarrow> Inl e
      | Inr p \<Rightarrow> (case plan_steps pipelineName toolchains byStep rest of Inl e \<Rightarrow> Inl e | Inr ps \<Rightarrow> Inr (p # ps)))"

fun dry_relations :: "(string \<times> nat) list \<Rightarrow> (nat \<times> string \<times> string) list \<Rightarrow> expand_exn + (string \<times> string) list" where
  "dry_relations indices [] = Inr []"
| "dry_relations indices ((index, stepName, depName) # links) =
     (case map_of indices depName of
        None \<Rightarrow> Inl (Http (Bad_request (''Step \"'' @ stepName @ ''\" depends on unknown step \"'' @ depName @ ''\"'')))
      | Some depIndex \<Rightarrow>
          (case dry_relations indices links of
             Inl e \<Rightarrow> Inl e
           | Inr rs \<Rightarrow> Inr ((dry_id stepName index, dry_id depName depIndex) # rs)))"

definition buildDryRunResponse ::
  "string \<Rightarrow> expand_request \<Rightarrow> string \<Rightarrow> jobject list \<Rightarrow> string option \<Rightarrow> string list option \<Rightarrow> (string \<times> env option) list \<Rightarrow>
    timestamp \<Rightarrow> expand_exn + expand_response" where
  "buildDryRunResponse projectId request manifestHash steps envName toolchains byStep now =
     (let runId = ''dry-run-'' @ show_int now;
          ls = labelled steps
      in case plan_steps (xq_pipeline_name request) toolchains byStep ls of
           Inl e \<Rightarrow> Inl e
         | Inr plans \<Rightarrow>
             (case dry_relations (rev (map (\<lambda>(i, name, _). (name, i)) ls))
                 (concat (map (\<lambda>(i, name, step). map (\<lambda>d. (i, name, d)) (step_depends_on step)) ls)) of
                Inl e \<Rightarrow> Inl e
              | Inr relations \<Rightarrow>
                  Inr \<lparr>er_run = \<lparr>pipeline_run.pr_id = runId, pr_project_id = projectId, pr_pipeline_name = xq_pipeline_name request,
                         pr_env_name = envName, pr_git_sha = Some (xq_git_sha request), pr_manifest_hash = Some manifestHash,
                         pr_inputs_json = xq_inputs request, pr_step_outputs_json = None, pr_status = ''dry_run'',
                         pr_started_at = None, pr_completed_at = None, pr_error_message = None, pr_requested_by = None,
                         pr_run_mode = Some ''dry_run'', pr_dedupe_key = xq_dedupe_key request, pr_created_at = now,
                         pr_updated_at = now\<rparr>,
                       er_jobs = map (dry_job request projectId runId envName now) plans, er_relations = relations\<rparr>))"

subsection \<open>Expansion\<close>

definition isStepTerminal :: "string \<Rightarrow> bool" where
  "isStepTerminal status = (status \<in> {''succeeded'', ''failed'', ''cancelled''})"

definition cancelExistingRunForDedupeKey :: "string \<Rightarrow> timestamp \<Rightarrow> db \<Rightarrow> (db_error + unit) \<times> db" where
  "cancelExistingRunForDedupeKey dedupeKey now s =
     (case findActiveRunByDedupeKey dedupeKey s of
        None \<Rightarrow> (Inr (), s)
      | Some run \<Rightarrow>
          (case updateRun (pipeline_run.pr_id run) (no_update\<lparr>ru_status := Some ''cancelled'', ru_completed_at := Some (Some now),
                  ru_error_message := Some (Some ''Superseded by new run with same dedupe key'')\<rparr>) now s of
             (Inl e, s1) \<Rightarrow> (Inl e, s1)
           | (Inr _, s1) \<Rightarrow>
               (Inr (), fold (\<lambda>st s. snd (updateStepRun (st_id st)
                    (no_step_update\<lparr>su_status := Some ''cancelled'', su_completed_at := Some (Some now)\<rparr>) now s))
                  (filter (\<lambda>st. \<not> isStepTerminal (st_status st)) (listStepRuns (pipeline_run.pr_id run) s1)) s1)))"

definition resolve_project_id :: "string \<Rightarrow> db \<Rightarrow> expand_exn + string" where
  "resolve_project_id projectId s =
     (if exists_row (\<lambda>p. p_id p = projectId) (projects s) then Inr projectId
      else case find_row (\<lambda>p. p_slug p = projectId) (projects s) of
          None \<Rightarrow> Inl (Http (Not_found (''Project '' @ projectId @ '' not found'')))
        | Some p \<Rightarrow> Inr (p_id p))"

record pipeline_plan =
  pp_project_id :: string
  pp_manifest_hash :: string
  pp_pipeline :: jobject
  pp_toolchains :: "string list option"
  pp_env :: "env option"
  pp_env_name :: "string option"

text \<open>The part of \<^verbatim>\<open>expandPipeline\<close> before its first write.\<close>

definition load_pipeline ::
  "expander_ext \<Rightarrow> string \<Rightarrow> expand_request \<Rightarrow> project_manifest list \<Rightarrow> db \<Rightarrow> expand_exn + pipeline_plan" where
  "load_pipeline x projectInput request ms s =
     (case resolve_project_id projectInput s of
        Inl e \<Rightarrow> Inl e
      | Inr projectId \<Rightarrow>
          (case resolveManifestForRun projectId (xq_git_sha request) ms of
             None \<Rightarrow> Inl (Http (Not_found (''No manifest synced for project '' @ projectId)))
           | Some m \<Rightarrow>
               (case getPipelineFromManifest x (pm_manifest_yaml m) (xq_pipeline_name request) of
                  Inl e \<Rightarrow> Inl e
                | Inr pipeline \<Rightarrow>
                    (case parseToolchains (obj_get pipeline ''toolchains'') (pipeline_path (xq_pipeline_name request) ''toolchains'') of
                       Inl e \<Rightarrow> Inl e
                     | Inr toolchains \<Rightarrow>
                         (case parseEnvOverrides (obj_get pipeline ''env_overrides'') (pipeline_path (xq_pipeline_name request) ''env_overrides'') of
                            Inl e \<Rightarrow> Inl e
                          | Inr env \<Rightarrow>
                              Inr \<lparr>pp_project_id = projectId, pp_manifest_hash = pm_manifest_hash m, pp_pipeline = pipeline,
                                pp_toolchains = toolchains, pp_env = env,
                                pp_env_name = coalesce (xq_env_name request) (json_string (obj_get pipeline ''env''))\<rparr>)))))"

definition select_steps :: "expand_request \<Rightarrow> jobject \<Rightarrow> expand_exn + jobject list" where
  "select_steps request pipeline =
     (case obj_get pipeline ''steps'' of
        Some (JArr (v # vs)) \<Rightarrow>
          (let steps = map (\<lambda>v. case v of JObj kvs \<Rightarrow> kvs | _ \<Rightarrow> []) (v # vs)
           in if truthy_string (xq_only request) then filterStepsForOnly steps (the (xq_only request)) else Inr steps)
      | _ \<Rightarrow> Inl (Http (Bad_request (''Pipeline \"'' @ xq_pipeline_name request @ ''\" has no steps''))))"

text \<open>Steps 4 to 7 of \<^verbatim>\<open>expandPipeline\<close>: the run, the jobs and their relations.\<close>

definition persist_run ::
  "expander_ext \<Rightarrow> expand_request \<Rightarrow> pipeline_plan \<Rightarrow> jobject list \<Rightarrow> (string \<times> env option) list \<Rightarrow> string option \<Rightarrow>
    timestamp \<Rightarrow> access_db option \<Rightarrow> db \<Rightarrow> expand_response expansion \<times> db" where
  "persist_run x request pl steps byStep userId now service s =
     (case createRun \<lparr>pipeline_run.pr_id = px_run_id x, pr_project_id = pp_project_id pl, pr_pipeline_name = xq_pipeline_name request,
            pr_env_name = pp_env_name pl, pr_git_sha = Some (xq_git_sha request), pr_manifest_hash = Some (pp_manifest_hash pl),
            pr_inputs_json = xq_inputs request, pr_step_outputs_json = None, pr_status = ''pending'', pr_started_at = None,
            pr_completed_at = None, pr_error_message = None, pr_requested_by = None, pr_run_mode = Some ''jobs'',
            pr_dedupe_key = xq_dedupe_key request, pr_created_at = now, pr_updated_at = now\<rparr> now s of
        (Inl e, s1) \<Rightarrow> (Refused (Internal (Job_Model.Db_error e)), s1)
      | (Inr run, s1) \<Rightarrow>
          (case (parseTokenScope x (obj_get (pp_pipeline pl) ''scope'') (pipeline_path (xq_pipeline_name request) ''scope''),
                 parseTokenPermissions (obj_get (pp_pipeline pl) ''permissions'') (pipeline_path (xq_pipeline_name request) ''permissions''),
                 find_row (\<lambda>p. p_id p = pp_project_id pl) (projects s1)) of
             (Inl e, _, _) \<Rightarrow> (Refused e, s1)
           | (Inr _, Inl e, _) \<Rightarrow> (Refused e, s1)
           | (Inr _, Inr _, None) \<Rightarrow> (Refused (Http (Not_found (''Project '' @ pp_project_id pl @ '' not found''))), s1)
           | (Inr scope, Inr permissions, Some project) \<Rightarrow>
               (case create_step_jobs x
                   \<lparr>cx_request = request, cx_project_id = pp_project_id pl, cx_org_id = p_org_id project, cx_run_id = px_run_id x,
                    cx_env_name = pp_env_name pl, cx_user_id = userId, cx_toolchains = pp_toolchains pl, cx_by_step = byStep,
                    cx_scope = scope, cx_permissions = permissions\<rparr> now service (labelled steps) [] [] s1 of
                  (Refused e, s2) \<Rightarrow> (Refused e, s2)
                | (Drawing, s2) \<Rightarrow> (Drawing, s2)
                | (Expanded (createdJobs, ids), s2) \<Rightarrow>
                    (case relate_steps x ids (step_links (labelled steps)) [] s2 of
                       (Refused e, s3) \<Rightarrow> (Refused e, s3)
                     | (Drawing, s3) \<Rightarrow> (Drawing, s3)
                     | (Expanded relations, s3) \<Rightarrow>
                         (Expanded \<lparr>er_run = run, er_jobs = map toJobResponse createdJobs, er_relations = relations\<rparr>, s3)))))"

definition expandPipeline ::
  "expander_ext \<Rightarrow> string \<Rightarrow> expand_request \<Rightarrow> string option \<Rightarrow> timestamp \<Rightarrow> project_manifest list \<Rightarrow> access_db option \<Rightarrow> db \<Rightarrow>
    expand_response expansion \<times> db" where
  "expandPipeline x projectInput request userId now ms service s =
     (case load_pipeline x projectInput request ms s of
        Inl e \<Rightarrow> (Refused e, s)
      | Inr pl \<Rightarrow>
          (case (if truthy_string (xq_dedupe_key request) then cancelExistingRunForDedupeKey (the (xq_dedupe_key request)) now s
                 else (Inr (), s)) of
             (Inl e, s1) \<Rightarrow> (Refused (Internal (Job_Model.Db_error e)), s1)
           | (Inr _, s1) \<Rightarrow>
               (case select_steps request (pp_pipeline pl) of
                  Inl e \<Rightarrow> (Refused e, s1)
                | Inr steps \<Rightarrow>
                    (case ensureRemediationPipelinePolicy (xq_pipeline_name request) (pp_pipeline pl) steps of
                       Inl e \<Rightarrow> (Refused e, s1)
                     | Inr _ \<Rightarrow>
                         (case resolvePipelineActionRunEnvOverrides (xq_pipeline_name request) (pp_env pl) steps of
                            Inl e \<Rightarrow> (Refused e, s1)
                          | Inr byStep \<Rightarrow>
                              if xq_dry_run request then
                                (case buildDryRunResponse (pp_project_id pl) request (pp_manifest_hash pl) steps (pp_env_name pl)
                                    (pp_toolchains pl) byStep now of
                                   Inl e \<Rightarrow> (Refused e, s1)
                                 | Inr r \<Rightarrow> (Expanded r, s1))
                              else persist_run x request pl steps byStep userId now service s1)))))"

subsection \<open>Reading a run\<close>

definition run_of_project :: "string \<Rightarrow> string \<Rightarrow> db \<Rightarrow> expand_exn + pipeline_run" where
  "run_of_project projectId runId s =
     (if \<not> exists_row (\<lambda>p. p_id p = projectId) (projects s) then Inl (Http (Not_found (''Project '' @ projectId @ '' not found'')))
      else case findRunById runId s of
          Some run \<Rightarrow>
            if pr_project_id run = projectId then Inr run
            else Inl (Http (Not_found (''Pipeline run '' @ runId @ '' not found'')))
        | None \<Rightarrow> Inl (Http (Not_found (''Pipeline run '' @ runId @ '' not found''))))"

definition jobs_of_run :: "string \<Rightarrow> string \<Rightarrow> db \<Rightarrow> job list" where
  "jobs_of_run projectId runId s =
     order_by j_priority (filter (\<lambda>j. j_project_id j = projectId \<and> (''run:'' @ runId) \<in> set (j_labels j)) (jobs s))"

definition getRunWithJobs :: "string \<Rightarrow> string \<Rightarrow> db \<Rightarrow> expand_exn + expand_response" where
  "getRunWithJobs projectId runId s =
     (case run_of_project projectId runId s of
        Inl e \<Rightarrow> Inl e
      | Inr run \<Rightarrow>
          (let js = jobs_of_run projectId runId s; is = map j_id js
           in Inr \<lparr>er_run = run, er_jobs = map toJobResponse js,
                er_relations = map (\<lambda>r. (r_job_id r, r_related_job_id r))
                  (filter (\<lambda>r. r_job_id r \<in> set is \<and> r_related_job_id r \<in> set is) (job_relations s))\<rparr>))"

definition listJobsForRun :: "string \<Rightarrow> string \<Rightarrow> db \<Rightarrow> expand_exn + job_response list" where
  "listJobsForRun projectId runId s =
     (case run_of_project projectId runId s of
        Inl e \<Rightarrow> Inl e
      | Inr _ \<Rightarrow> Inr (map toJobResponse (jobs_of_run projectId runId s)))"

end
