(* ===== verification/Dispatch.thy ===== *)
theory Dispatch
  imports Concurrency
begin

section \<open>Dispatch slots of the orchestrator loop\<close>

text \<open>
  \<^verbatim>\<open>loop.service.ts\<close>: \<^verbatim>\<open>requestTick\<close> and \<^verbatim>\<open>runScheduledTicks\<close>, the dispatch loop of \<^verbatim>\<open>tick\<close>,
  \<^verbatim>\<open>dispatchPipeline\<close> and \<^verbatim>\<open>dispatchJob\<close>, and \<^verbatim>\<open>releaseInFlightDispatchForWatchdog\<close> of
  \<^verbatim>\<open>recovery.service.ts\<close>. JavaScript runs the code between two awaits without interruption, so a step
  of \<open>orch_step\<close> is one such stretch; the steps of the tick, of the dispatches in flight, of the
  watchdog and of the tuner interleave freely. \<open>tick_loop\<close> is the dispatch loop, whose claims carry what others do while it waits.
\<close>

subsection \<open>Scheduling of ticks\<close>

record ticker =
  t_stopping :: bool
  tickInProgress :: bool
  tickRerunRequested :: bool

text \<open>\<^verbatim>\<open>requestTick\<close>; the result says whether \<^verbatim>\<open>runScheduledTicks\<close> is started.\<close>

definition requestTick :: "ticker \<Rightarrow> bool \<times> ticker" where
  "requestTick t =
     (if t_stopping t then (False, t)
      else if tickInProgress t then (False, t\<lparr>tickRerunRequested := True\<rparr>)
      else (True, t\<lparr>tickInProgress := True\<rparr>))"

text \<open>
  \<^verbatim>\<open>runScheduledTicks\<close>: \<open>ticks\<close> is what each tick does to the flags and whether it throws; \<open>None\<close> when the
  list is used up while the loop goes on. The result has the number of ticks run.
\<close>

fun runScheduledTicks :: "(ticker \<Rightarrow> bool \<times> ticker) list \<Rightarrow> ticker \<Rightarrow> (nat \<times> ticker) option" where
  "runScheduledTicks [] t = None"
| "runScheduledTicks (tick # ticks) t =
     (let (threw, t1) = tick (t\<lparr>tickRerunRequested := False\<rparr>)
      in if \<not> threw \<and> tickRerunRequested t1 \<and> \<not> t_stopping t1
         then map_option (\<lambda>(n, t'). (Suc n, t')) (runScheduledTicks ticks t1)
         else Some (1, t1\<lparr>tickInProgress := False\<rparr>))"

subsection \<open>The dispatch loop\<close>

text \<open>
  The loop awaits its claims, and while it waits any other code may run: dispatches that finish, the tuner, the
  shutdown. A claim is therefore a function of the whole state of the loop (the limiter, the flag \<^verbatim>\<open>_stopping\<close> and the
  rest of the world), and its new state holds what it did and what others did meanwhile; it throws, finds nothing or returns
  the claimed item. \<open>cl_dispatch\<close> is what a dispatch does before its first await.
\<close>

record 'w tick_state =
  lp_lim :: limiter
  lp_stopping :: bool
  lp_world :: 'w

datatype dispatched = DPipeline string | DJob string

record 'w claims =
  cl_pipeline :: "'w tick_state \<Rightarrow> (unit + string option) \<times> 'w tick_state"
  cl_job :: "'w tick_state \<Rightarrow> (unit + string option) \<times> 'w tick_state"
  cl_assigned :: "'w tick_state \<Rightarrow> (unit + string option) \<times> 'w tick_state"
  cl_dispatch :: "dispatched \<Rightarrow> 'w \<Rightarrow> 'w"

datatype tick_end = Idle | At_capacity | Threw | Condition_false

text \<open>One round: a slot for a pipeline; when there is none, the slot goes undone and one is taken for a job.\<close>

datatype 'w round = Dispatched dispatched "'w tick_state" | Ended tick_end "'w tick_state"

definition start_item :: "'w claims \<Rightarrow> dispatched \<Rightarrow> 'w tick_state \<Rightarrow> 'w round" where
  "start_item c d s = Dispatched d (s\<lparr>lp_world := cl_dispatch c d (lp_world s)\<rparr>)"

definition job_round :: "'w claims \<Rightarrow> 'w tick_state \<Rightarrow> 'w round" where
  "job_round c s =
     (case tryAcquire (lp_lim s) of
        (False, l) \<Rightarrow> Ended At_capacity (s\<lparr>lp_lim := l\<rparr>)
      | (True, l) \<Rightarrow>
          (case cl_job c (s\<lparr>lp_lim := l\<rparr>) of
             (Inl _, s1) \<Rightarrow> Ended Threw s1
           | (Inr (Some j), s1) \<Rightarrow> start_item c (DJob j) s1
           | (Inr None, s1) \<Rightarrow>
               (case cl_assigned c s1 of
                  (Inl _, s2) \<Rightarrow> Ended Threw s2
                | (Inr (Some j), s2) \<Rightarrow> start_item c (DJob j) s2
                | (Inr None, s2) \<Rightarrow>
                    (case release_slot (lp_lim s2) of
                       Inl _ \<Rightarrow> Ended Threw s2
                     | Inr l \<Rightarrow> Ended Idle (s2\<lparr>lp_lim := l\<rparr>)))))"

definition tick_round :: "'w claims \<Rightarrow> 'w tick_state \<Rightarrow> 'w round" where
  "tick_round c s =
     (case tryAcquire (lp_lim s) of
        (False, l) \<Rightarrow> job_round c (s\<lparr>lp_lim := l\<rparr>)
      | (True, l) \<Rightarrow>
          (case cl_pipeline c (s\<lparr>lp_lim := l\<rparr>) of
             (Inl _, s1) \<Rightarrow> Ended Threw s1
           | (Inr (Some p), s1) \<Rightarrow> start_item c (DPipeline p) s1
           | (Inr None, s1) \<Rightarrow>
               (case release_slot (lp_lim s1) of
                  Inl _ \<Rightarrow> Ended Threw s1
                | Inr l \<Rightarrow> job_round c (s1\<lparr>lp_lim := l\<rparr>))))"

text \<open>The loop; \<open>None\<close> when it never ends.\<close>

partial_function (option) tick_loop :: "'w claims \<Rightarrow> 'w tick_state \<Rightarrow> (dispatched list \<times> tick_end \<times> 'w tick_state) option" where
  "tick_loop c s =
     (if hasCapacity (lp_lim s) \<and> \<not> lp_stopping s then
        (case tick_round c s of
           Ended e s' \<Rightarrow> Some ([], e, s')
         | Dispatched d s' \<Rightarrow> Option.bind (tick_loop c s') (\<lambda>(ds, e, s''). Some (d # ds, e, s'')))
      else Some ([], Condition_false, s))"

text \<open>
  What others do while a claim waits. \<open>uses_up\<close>: a claim that returns an item leaves less work waiting, and nothing
  adds work. \<open>only_releases\<close>: others give slots undone, but not the one the loop holds, and leave the limit.
  \<open>keeps_limiter\<close>: nobody touches the limiter.
\<close>

definition claim_set :: "'w claims \<Rightarrow> ('w tick_state \<Rightarrow> (unit + string option) \<times> 'w tick_state) set" where
  "claim_set c = {cl_pipeline c, cl_job c, cl_assigned c}"

definition uses_up :: "'w claims \<Rightarrow> ('w \<Rightarrow> nat) \<Rightarrow> bool" where
  "uses_up c waiting \<longleftrightarrow>
     (\<forall>f \<in> claim_set c. \<forall>s r s'. f s = (r, s') \<longrightarrow>
        (if \<exists>i. r = Inr (Some i) then waiting (lp_world s') < waiting (lp_world s) else waiting (lp_world s') \<le> waiting (lp_world s))) \<and>
     (\<forall>d w. waiting (cl_dispatch c d w) \<le> waiting w)"

definition only_releases :: "'w claims \<Rightarrow> bool" where
  "only_releases c \<longleftrightarrow>
     (\<forall>f \<in> claim_set c. \<forall>s r s'. f s = (r, s') \<longrightarrow> 0 < inFlight (lp_lim s) \<longrightarrow>
        0 < inFlight (lp_lim s') \<and> inFlight (lp_lim s') \<le> inFlight (lp_lim s) \<and> limit (lp_lim s') = limit (lp_lim s))"

definition keeps_limiter :: "'w claims \<Rightarrow> bool" where
  "keeps_limiter c \<longleftrightarrow> (\<forall>f \<in> claim_set c. \<forall>s r s'. f s = (r, s') \<longrightarrow> lp_lim s' = lp_lim s)"

text \<open>What one round does to the slots, when \<open>d\<close> of them stay taken.\<close>

definition round_slots :: "'w claims \<Rightarrow> limiter \<Rightarrow> int \<Rightarrow> limiter \<Rightarrow> bool" where
  "round_slots c l d l' \<longleftrightarrow>
     0 \<le> inFlight l' \<and> inFlight l' \<le> inFlight l + d \<and> inFlight l' \<le> limit l' \<and> limit l' = limit l \<and>
     (keeps_limiter c \<longrightarrow> inFlight l' = inFlight l + d)"

lemma claim_slots:
  assumes "only_releases c" "f \<in> claim_set c" "f s = (r, s')" "0 < inFlight (lp_lim s)" "inFlight (lp_lim s) \<le> limit (lp_lim s)"
  shows "0 < inFlight (lp_lim s') \<and> round_slots c (lp_lim s) 0 (lp_lim s')"
proof -
  have "0 < inFlight (lp_lim s') \<and> inFlight (lp_lim s') \<le> inFlight (lp_lim s) \<and> limit (lp_lim s') = limit (lp_lim s)"
    using assms(1-4) unfolding only_releases_def by blast
  moreover have "lp_lim s' = lp_lim s" if "keeps_limiter c" using that assms(2,3) unfolding keeps_limiter_def by blast
  ultimately show ?thesis using assms(5) by (auto simp: round_slots_def)
qed

lemma claim_work:
  assumes "uses_up c waiting" "f \<in> claim_set c" "f s = (r, s')"
  shows "waiting (lp_world s') \<le> waiting (lp_world s)" "r = Inr (Some i) \<Longrightarrow> waiting (lp_world s') < waiting (lp_world s)"
  using assms unfolding uses_up_def by (metis less_imp_le, metis)

lemma start_item_simp: "start_item c d s = Dispatched d' s' \<longleftrightarrow> d' = d \<and> s' = s\<lparr>lp_world := cl_dispatch c d (lp_world s)\<rparr>"
  "start_item c d s \<noteq> Ended e s'"
  by (auto simp: start_item_def)

lemma dispatch_work: "uses_up c waiting \<Longrightarrow> waiting (cl_dispatch c d w) \<le> waiting w"
  by (simp add: uses_up_def)

lemma claim_in_set [simp]: "cl_pipeline c \<in> claim_set c" "cl_job c \<in> claim_set c" "cl_assigned c \<in> claim_set c"
  by (simp_all add: claim_set_def)

lemma job_round_work:
  assumes "uses_up c waiting" "job_round c s = Dispatched d s'"
  shows "waiting (lp_world s') < waiting (lp_world s)"
proof -
  obtain l where l: "tryAcquire (lp_lim s) = (True, l)" using assms(2)
    by (cases "tryAcquire (lp_lim s)") (auto simp: job_round_def split: bool.splits)
  obtain r1 s1 where r1: "cl_job c (s\<lparr>lp_lim := l\<rparr>) = (r1, s1)" by force
  note w1 = claim_work [OF assms(1) claim_in_set(2) r1]
  show ?thesis
  proof (cases "r1 = Inr None")
    case True
    obtain r2 s2 where r2: "cl_assigned c s1 = (r2, s2)" by force
    note w2 = claim_work [OF assms(1) claim_in_set(3) r2]
    from assms(2) l r1 r2 True obtain j where "r2 = Inr (Some j)" "s' = s2\<lparr>lp_world := cl_dispatch c (DJob j) (lp_world s2)\<rparr>"
      by (auto simp: job_round_def start_item_simp split: sum.splits option.splits)
    then show ?thesis using w1(1) w2(2) [of j] dispatch_work [OF assms(1), of "DJob j" "lp_world s2"] by simp
  next
    case False
    from assms(2) l r1 False obtain j where "r1 = Inr (Some j)" "s' = s1\<lparr>lp_world := cl_dispatch c (DJob j) (lp_world s1)\<rparr>"
      by (auto simp: job_round_def start_item_simp split: sum.splits option.splits)
    then show ?thesis using w1(2) [of j] dispatch_work [OF assms(1), of "DJob j" "lp_world s1"] by simp
  qed
qed

lemma tick_round_work:
  assumes "uses_up c waiting" "tick_round c s = Dispatched d s'"
  shows "waiting (lp_world s') < waiting (lp_world s)"
proof (cases "tryAcquire (lp_lim s)")
  case (Pair got l)
  show ?thesis
  proof (cases got)
    case False
    then show ?thesis using assms job_round_work [OF assms(1), of "s\<lparr>lp_lim := l\<rparr>"] Pair by (simp add: tick_round_def)
  next
    case True
    obtain r1 s1 where r1: "cl_pipeline c (s\<lparr>lp_lim := l\<rparr>) = (r1, s1)" by force
    note w1 = claim_work [OF assms(1) claim_in_set(1) r1]
    show ?thesis
    proof (cases "r1 = Inr None")
      case True
      with assms(2) Pair \<open>got\<close> r1 obtain l1 where "job_round c (s1\<lparr>lp_lim := l1\<rparr>) = Dispatched d s'"
        by (auto simp: tick_round_def split: sum.splits)
      then show ?thesis using job_round_work [OF assms(1)] w1(1) by fastforce
    next
      case False
      with assms(2) Pair \<open>got\<close> r1 obtain p where "r1 = Inr (Some p)" "s' = s1\<lparr>lp_world := cl_dispatch c (DPipeline p) (lp_world s1)\<rparr>"
        by (auto simp: tick_round_def start_item_simp split: sum.splits option.splits)
      then show ?thesis using w1(2) [of p] dispatch_work [OF assms(1), of "DPipeline p" "lp_world s1"] by simp
    qed
  qed
qed

lemma tick_loop_ends:
  assumes "uses_up c waiting"
  shows "\<exists>ds e s'. tick_loop c s = Some (ds, e, s') \<and> length ds \<le> waiting (lp_world s)"
proof (induction "waiting (lp_world s)" arbitrary: s rule: less_induct)
  case less
  show ?case
  proof (cases "hasCapacity (lp_lim s) \<and> \<not> lp_stopping s")
    case False
    then have "tick_loop c s = Some ([], Condition_false, s)" by (subst tick_loop.simps) auto
    then show ?thesis by simp
  next
    case True
    show ?thesis
    proof (cases "tick_round c s")
      case (Dispatched d s1)
      note w = tick_round_work [OF assms Dispatched]
      from less [OF w] obtain ds e s' where "tick_loop c s1 = Some (ds, e, s')" "length ds \<le> waiting (lp_world s1)" by blast
      then show ?thesis using True Dispatched w by (subst tick_loop.simps) simp
    next
      case (Ended e s1)
      then show ?thesis using True by (subst tick_loop.simps) simp
    qed
  qed
qed

lemma job_round_slots:
  assumes "only_releases c" "0 \<le> inFlight (lp_lim s)" "inFlight (lp_lim s) < limit (lp_lim s)"
  shows "job_round c s = Dispatched d s' \<Longrightarrow> round_slots c (lp_lim s) 1 (lp_lim s')"
    and "job_round c s = Ended e s' \<Longrightarrow> round_slots c (lp_lim s) (if e = Threw then 1 else 0) (lp_lim s')"
proof -
  define l where "l = (lp_lim s)\<lparr>inFlight := inFlight (lp_lim s) + 1\<rparr>"
  have l: "tryAcquire (lp_lim s) = (True, l)" using assms(3) by (simp add: tryAcquire_def l_def)
  obtain r1 s1 where r1: "cl_job c (s\<lparr>lp_lim := l\<rparr>) = (r1, s1)" by force
  obtain r2 s2 where r2: "cl_assigned c s1 = (r2, s2)" by force
  have s1: "0 < inFlight (lp_lim s1) \<and> round_slots c l 0 (lp_lim s1)"
    using claim_slots [OF assms(1) claim_in_set(2) r1] assms(2,3) by (simp add: l_def)
  then have "0 < inFlight (lp_lim s2) \<and> round_slots c (lp_lim s1) 0 (lp_lim s2)"
    using claim_slots [OF assms(1) claim_in_set(3) r2] by (simp add: round_slots_def)
  with s1 have s2: "0 < inFlight (lp_lim s2) \<and> round_slots c l 0 (lp_lim s2)" by (auto simp: round_slots_def)
  have up: "0 < inFlight l' \<and> round_slots c l 0 l' \<Longrightarrow> round_slots c (lp_lim s) 1 l'" for l'
    by (auto simp: round_slots_def l_def)
  have undone: "round_slots c (lp_lim s) 0 ((lp_lim s2)\<lparr>inFlight := inFlight (lp_lim s2) - 1\<rparr>)"
    using s2 by (auto simp: round_slots_def l_def)
  have unf: "job_round c s = (case r1 of Inl _ \<Rightarrow> Ended Threw s1 | Inr (Some j) \<Rightarrow> start_item c (DJob j) s1
      | Inr None \<Rightarrow> (case r2 of Inl _ \<Rightarrow> Ended Threw s2 | Inr (Some j) \<Rightarrow> start_item c (DJob j) s2
        | Inr None \<Rightarrow> Ended Idle (s2\<lparr>lp_lim := (lp_lim s2)\<lparr>inFlight := inFlight (lp_lim s2) - 1\<rparr>\<rparr>)))"
    using s2 by (auto simp: job_round_def l r1 r2 release_slot_def split: sum.split option.split)
  show "job_round c s = Dispatched d s' \<Longrightarrow> round_slots c (lp_lim s) 1 (lp_lim s')"
    using up [OF s1] up [OF s2] by (auto simp: unf start_item_simp split: sum.splits option.splits)
  show "job_round c s = Ended e s' \<Longrightarrow> round_slots c (lp_lim s) (if e = Threw then 1 else 0) (lp_lim s')"
    using up [OF s1] up [OF s2] undone by (auto simp: unf start_item_simp split: sum.splits option.splits)
qed

lemma tick_round_slots:
  assumes "only_releases c" "0 \<le> inFlight (lp_lim s)" "inFlight (lp_lim s) < limit (lp_lim s)"
  shows "tick_round c s = Dispatched d s' \<Longrightarrow> round_slots c (lp_lim s) 1 (lp_lim s')"
    and "tick_round c s = Ended e s' \<Longrightarrow> round_slots c (lp_lim s) (if e = Threw then 1 else 0) (lp_lim s')"
proof -
  define l where "l = (lp_lim s)\<lparr>inFlight := inFlight (lp_lim s) + 1\<rparr>"
  have l: "tryAcquire (lp_lim s) = (True, l)" using assms(3) by (simp add: tryAcquire_def l_def)
  obtain r1 s1 where r1: "cl_pipeline c (s\<lparr>lp_lim := l\<rparr>) = (r1, s1)" by force
  have s1: "0 < inFlight (lp_lim s1) \<and> round_slots c l 0 (lp_lim s1)"
    using claim_slots [OF assms(1) claim_in_set(1) r1] assms(2,3) by (simp add: l_def)
  define s2 where "s2 = s1\<lparr>lp_lim := (lp_lim s1)\<lparr>inFlight := inFlight (lp_lim s1) - 1\<rparr>\<rparr>"
  have up: "round_slots c (lp_lim s) 1 (lp_lim s1)" using s1 by (auto simp: round_slots_def l_def)
  have undone: "round_slots c (lp_lim s) 0 (lp_lim s2)" using s1 by (auto simp: round_slots_def l_def s2_def)
  have low: "0 \<le> inFlight (lp_lim s2)" "inFlight (lp_lim s2) < limit (lp_lim s2)"
    using s1 by (auto simp: round_slots_def s2_def)
  have unf: "tick_round c s = (case r1 of Inl _ \<Rightarrow> Ended Threw s1 | Inr (Some p) \<Rightarrow> start_item c (DPipeline p) s1
      | Inr None \<Rightarrow> job_round c s2)"
    using s1 by (auto simp: tick_round_def l r1 release_slot_def s2_def split: sum.split option.split)
  have step: "round_slots c (lp_lim s) n l'" if "round_slots c (lp_lim s2) n l'" for n l'
    using that undone by (auto simp: round_slots_def)
  show "tick_round c s = Dispatched d s' \<Longrightarrow> round_slots c (lp_lim s) 1 (lp_lim s')"
    using up step job_round_slots(1) [OF assms(1) low]
    by (auto simp: unf start_item_simp split: sum.splits option.splits)
  show "tick_round c s = Ended e s' \<Longrightarrow> round_slots c (lp_lim s) (if e = Threw then 1 else 0) (lp_lim s')"
    using up step job_round_slots(2) [OF assms(1) low]
    by (auto simp: unf start_item_simp split: sum.splits option.splits)
qed

lemma tick_loop_slots:
  assumes "only_releases c" "tick_loop c s = Some (ds, e, s')" "0 \<le> inFlight (lp_lim s)" "inFlight (lp_lim s) \<le> limit (lp_lim s)"
  shows "round_slots c (lp_lim s) (int (length ds) + (if e = Threw then 1 else 0)) (lp_lim s')"
  using assms(2-4)
proof (induction ds arbitrary: s)
  case Nil
  show ?case
  proof (cases "hasCapacity (lp_lim s) \<and> \<not> lp_stopping s")
    case False
    then have "tick_loop c s = Some ([], Condition_false, s)" by (subst tick_loop.simps) auto
    then show ?thesis using Nil by (simp add: round_slots_def)
  next
    case True
    then obtain e1 s1 where t: "tick_round c s = Ended e1 s1"
      using Nil(1) by (subst (asm) tick_loop.simps) (auto split: round.splits Option.bind_splits prod.splits)
    then have "e = e1" "s' = s1" using Nil(1) True by (subst (asm) tick_loop.simps, simp)+
    then show ?thesis using tick_round_slots(2) [OF assms(1) Nil(2) _ t] True by (simp add: hasCapacity_def)
  qed
next
  case (Cons d ds)
  have cap: "hasCapacity (lp_lim s)" using Cons.prems(1) by (subst (asm) tick_loop.simps) (auto split: if_splits)
  obtain s1 where t: "tick_round c s = Dispatched d s1" "tick_loop c s1 = Some (ds, e, s')"
    using Cons.prems(1) by (subst (asm) tick_loop.simps) (auto split: if_splits round.splits Option.bind_splits)
  note r = tick_round_slots(1) [OF assms(1) Cons.prems(2) _ t(1)]
  have r: "round_slots c (lp_lim s) 1 (lp_lim s1)" using r cap by (simp add: hasCapacity_def)
  then have "round_slots c (lp_lim s1) (int (length ds) + (if e = Threw then 1 else 0)) (lp_lim s')"
    using Cons.IH [OF t(2)] by (simp add: round_slots_def)
  then show ?case using r by (auto simp: round_slots_def)
qed

lemma tick_loop_reason:
  "tick_loop c s = Some (ds, e, s') \<Longrightarrow> (e = Condition_false \<longrightarrow> \<not> hasCapacity (lp_lim s') \<or> lp_stopping s') \<and>
     (lp_stopping s \<longrightarrow> ds = [] \<and> s' = s)"
proof (induction ds arbitrary: s)
  case Nil
  have "job_round c t \<noteq> Ended Condition_false r" for t r
    by (simp add: job_round_def start_item_def split: prod.split bool.split sum.split option.split)
  then have "tick_round c s \<noteq> Ended Condition_false r" for r
    by (simp add: tick_round_def start_item_def split: prod.split bool.split sum.split option.split)
  then show ?case using Nil by (subst (asm) tick_loop.simps) (auto split: if_splits round.splits Option.bind_splits prod.splits)
next
  case (Cons d ds)
  have run: "\<not> lp_stopping s" using Cons.prems by (subst (asm) tick_loop.simps) (auto split: if_splits)
  obtain s1 where "tick_loop c s1 = Some (ds, e, s')"
    using Cons.prems by (subst (asm) tick_loop.simps) (auto split: if_splits round.splits Option.bind_splits)
  then show ?case using Cons.IH run by blast
qed

text \<open>Alone, the loop ends because every round that goes on fills a slot.\<close>

lemma keeps_releases: "keeps_limiter c \<Longrightarrow> only_releases c"
  unfolding keeps_limiter_def only_releases_def by (metis order_refl)

lemma tick_loop_alone:
  assumes "keeps_limiter c" "0 \<le> inFlight (lp_lim s)"
  shows "tick_loop c s \<noteq> None"
  using assms(2)
proof (induction "nat (limit (lp_lim s) - inFlight (lp_lim s))" arbitrary: s rule: less_induct)
  case less
  show ?case
  proof (cases "hasCapacity (lp_lim s) \<and> \<not> lp_stopping s")
    case True
    show ?thesis
    proof (cases "tick_round c s")
      case (Dispatched d s1)
      have "round_slots c (lp_lim s) 1 (lp_lim s1)"
        using tick_round_slots(1) [OF keeps_releases [OF assms(1)] less.prems _ Dispatched] True by (simp add: hasCapacity_def)
      then have "tick_loop c s1 \<noteq> None" using assms(1) True by (intro less.hyps) (auto simp: round_slots_def hasCapacity_def)
      then show ?thesis using True Dispatched by (subst tick_loop.simps) (auto split: prod.splits)
    next
      case (Ended e s1)
      then show ?thesis using True by (subst tick_loop.simps) simp
    qed
  qed (subst tick_loop.simps, auto)
qed

subsection \<open>Slots of the dispatches in flight\<close>

text \<open>
  \<^verbatim>\<open>inFlightJobs\<close> is a JavaScript map from job id to the start of the dispatch. \<open>slot\<close> tells that the
  running tick holds a slot it has not handed to a dispatch; \<open>pipelines\<close> counts the pipeline dispatches in
  flight. \<open>lost\<close> counts the slots that nobody will release: it is no state of the program and exists
  for the accounting.
\<close>

record orch =
  lim :: limiter
  inFlightJobs :: "(string \<times> timestamp) list"
  slot :: bool
  pipelines :: nat
  lost :: nat

definition map_has :: "'k \<Rightarrow> ('k \<times> 'v) list \<Rightarrow> bool" where
  "map_has k m = (k \<in> fst ` set m)"

definition map_set :: "'k \<Rightarrow> 'v \<Rightarrow> ('k \<times> 'v) list \<Rightarrow> ('k \<times> 'v) list" where
  "map_set k v m =
     (if map_has k m then map (\<lambda>(k', v'). if k' = k then (k, v) else (k', v')) m else m @ [(k, v)])"

definition map_delete :: "'k \<Rightarrow> ('k \<times> 'v) list \<Rightarrow> ('k \<times> 'v) list" where
  "map_delete k m = filter (\<lambda>(k', _). k' \<noteq> k) m"

definition dispatchPipeline_finish :: "orch \<Rightarrow> string + orch" where
  "dispatchPipeline_finish s =
     (case release_slot (lim s) of
        Inl e \<Rightarrow> Inl e
      | Inr l \<Rightarrow> Inr (s\<lparr>lim := l, pipelines := pipelines s - 1\<rparr>))"

definition dispatchJob_start :: "string \<Rightarrow> timestamp \<Rightarrow> orch \<Rightarrow> orch" where
  "dispatchJob_start i now s =
     s\<lparr>inFlightJobs := map_set i now (inFlightJobs s), slot := False,
       lost := lost s + (if map_has i (inFlightJobs s) then 1 else 0)\<rparr>"

definition dispatchJob_finish :: "string \<Rightarrow> orch \<Rightarrow> string + orch" where
  "dispatchJob_finish i s =
     (let s1 = s\<lparr>inFlightJobs := map_delete i (inFlightJobs s)\<rparr>
      in if map_has i (inFlightJobs s) then
           (case release_slot (lim s) of Inl e \<Rightarrow> Inl e | Inr l \<Rightarrow> Inr (s1\<lparr>lim := l\<rparr>))
         else Inr s1)"

text \<open>The watchdog frees the slot of a dispatch that is still in flight; it logs an error of the release.\<close>

definition releaseInFlightDispatchForWatchdog :: "string \<Rightarrow> orch \<Rightarrow> orch" where
  "releaseInFlightDispatchForWatchdog i s =
     (if map_has i (inFlightJobs s) then
        let s1 = s\<lparr>inFlightJobs := map_delete i (inFlightJobs s)\<rparr>
        in (case release_slot (lim s) of Inl _ \<Rightarrow> s1 | Inr l \<Rightarrow> s1\<lparr>lim := l\<rparr>)
      else s)"

inductive orch_step :: "orch \<Rightarrow> orch \<Rightarrow> bool" where
  take_slot: "\<not> slot s \<Longrightarrow> tryAcquire (lim s) = (True, l) \<Longrightarrow> orch_step s (s\<lparr>lim := l, slot := True\<rparr>)"
| give_back: "slot s \<Longrightarrow> release_slot (lim s) = Inr l \<Longrightarrow> orch_step s (s\<lparr>lim := l, slot := False\<rparr>)"
| pipeline_claimed: "slot s \<Longrightarrow> orch_step s (s\<lparr>slot := False, pipelines := pipelines s + 1\<rparr>)"
| job_claimed: "slot s \<Longrightarrow> orch_step s (dispatchJob_start i now s)"
| claim_threw: "slot s \<Longrightarrow> orch_step s (s\<lparr>slot := False, lost := lost s + 1\<rparr>)"
| pipeline_finished: "0 < pipelines s \<Longrightarrow> dispatchPipeline_finish s = Inr s' \<Longrightarrow> orch_step s s'"
| job_finished: "dispatchJob_finish i s = Inr s' \<Longrightarrow> orch_step s s'"
| watchdog: "orch_step s (releaseInFlightDispatchForWatchdog i s)"
| new_limit: "setLimit n (lim s) = Inr l \<Longrightarrow> orch_step s (s\<lparr>lim := l\<rparr>)"

definition accounted :: "orch \<Rightarrow> bool" where
  "accounted s =
     (inFlight (lim s) = int (pipelines s + length (inFlightJobs s) + (if slot s then 1 else 0) + lost s) \<and>
      distinct (map fst (inFlightJobs s)))"

lemma map_set_keys: "map fst (map_set k v m) = (if map_has k m then map fst m else map fst m @ [k])"
  by (auto simp: map_set_def intro: map_cong)

lemma length_map_set: "length (map_set k v m) = length m + (if map_has k m then 0 else 1)"
  by (simp add: map_set_def)

lemma length_map_delete:
  "distinct (map fst m) \<Longrightarrow> length (map_delete k m) = length m - (if map_has k m then 1 else 0)"
proof (induction m)
  case (Cons p m)
  obtain k' v where p: "p = (k', v)" by force
  show ?case
  proof (cases "k' = k")
    case True
    then have "\<not> map_has k m" using Cons.prems by (simp add: map_has_def p)
    then have "map_delete k m = m" by (auto simp: map_delete_def map_has_def intro!: filter_True) force
    then show ?thesis using True by (simp add: map_delete_def map_has_def p)
  next
    case False
    have "m \<noteq> []" if "map_has k m" using that by (auto simp: map_has_def)
    then show ?thesis using Cons False by (auto simp: map_delete_def map_has_def p Suc_diff_le)
  qed
qed (simp add: map_delete_def)

lemma distinct_map_delete: "distinct (map fst m) \<Longrightarrow> distinct (map fst (map_delete k m))"
  by (simp add: map_delete_def distinct_map_filter)

lemma map_has_length: "map_has k m \<Longrightarrow> \<exists>n. length m = Suc n"
  by (cases m) (auto simp: map_has_def)

lemma release_slot_Inr: "release_slot l = Inr l' \<longleftrightarrow> 0 < inFlight l \<and> l' = l\<lparr>inFlight := inFlight l - 1\<rparr>"
  by (auto simp: release_slot_def)

lemma accounted_delete:
  assumes "accounted s" and "map_has i (inFlightJobs s)"
  shows "0 < inFlight (lim s)"
    and "accounted (s\<lparr>inFlightJobs := map_delete i (inFlightJobs s), lim := (lim s)\<lparr>inFlight := inFlight (lim s) - 1\<rparr>\<rparr>)"
  using assms map_has_length [OF assms(2)]
  by (auto simp: accounted_def length_map_delete distinct_map_delete of_nat_diff)

lemma map_delete_absent: "\<not> map_has k m \<Longrightarrow> map_delete k m = m"
  by (force simp: map_has_def map_delete_def intro: filter_True)

lemma orch_step_accounted: "orch_step s s' \<Longrightarrow> accounted s \<Longrightarrow> accounted s'"
proof (induction rule: orch_step.induct)
  case (job_finished i s s')
  then show ?case using accounted_delete [of s i]
    by (auto simp: dispatchJob_finish_def Let_def release_slot_Inr map_delete_absent
        split: if_splits sum.splits)
next
  case (watchdog s i)
  then show ?case using accounted_delete [of s i]
    by (auto simp: releaseInFlightDispatchForWatchdog_def Let_def release_slot_Inr release_slot_def
        split: sum.splits)
next
  case (job_claimed s i now)
  then show ?case
    by (auto simp: accounted_def dispatchJob_start_def length_map_set map_set_keys map_has_def)
qed (auto simp: accounted_def tryAcquire_def release_slot_Inr dispatchPipeline_finish_def setLimit_def
    of_nat_diff split: if_splits sum.splits)

definition idle_orch :: "limiter \<Rightarrow> orch" where
  "idle_orch l = \<lparr>lim = l, inFlightJobs = [], slot = False, pipelines = 0, lost = 0\<rparr>"

lemma idle_accounted: "newLimiter n = Inr l \<Longrightarrow> accounted (idle_orch l)"
  by (auto simp: newLimiter_def accounted_def idle_orch_def split: if_splits)

lemma lost_grows: "orch_step s s' \<Longrightarrow> lost s \<le> lost s'"
  by (induction rule: orch_step.induct)
     (auto simp: dispatchJob_start_def dispatchPipeline_finish_def dispatchJob_finish_def
        releaseInFlightDispatchForWatchdog_def Let_def split: sum.splits if_splits)

interpretation orch_run: run_invariant orch_step accounted
  by unfold_locales (rule orch_step_accounted)

lemma accounted_releases:
  assumes "accounted s"
  shows "0 < pipelines s \<Longrightarrow> \<exists>s'. dispatchPipeline_finish s = Inr s'"
    and "\<exists>s'. dispatchJob_finish i s = Inr s'"
    and "slot s \<Longrightarrow> \<exists>l. release_slot (lim s) = Inr l"
  using assms accounted_delete(1) [OF assms, of i]
  by (auto simp: dispatchPipeline_finish_def dispatchJob_finish_def release_slot_def Let_def accounted_def
      split: sum.split)

end
