(* ===== verification/Job_Claim.thy ===== *)
theory Job_Claim
  imports Job_Attempts
begin

section \<open>Claiming and releasing a job\<close>

text \<open>
  \<^verbatim>\<open>packages/db/src/queries/jobs/claim.ts\<close>. \<^verbatim>\<open>claim\<close> reads the job first and works on that copy
  (\<open>currentJob\<close>) afterwards; \<open>claim_after_read\<close> is the rest of the method, so that what another client
  does after the read can be stated. A result \<open>Inr (Inl e)\<close> is \<^verbatim>\<open>{ success: false, error: e }\<close>,
  \<open>Inl e\<close> an error the database throws. \<open>uuid\<close> is the identifier a new attempt would get.
\<close>

type_synonym 'a outcome = "(db_error + (string + 'a)) \<times> db"

definition pending_attempt :: "string \<Rightarrow> db \<Rightarrow> attempt option" where
  "pending_attempt jobId s =
     first_row (order_by (\<lambda>a. - a_attempt_number a)
       (filter (\<lambda>a. a_status a = AttPending) (attempts_of jobId s)))"

definition start_attempt ::
  "job \<Rightarrow> string \<Rightarrow> string option \<Rightarrow> timestamp \<Rightarrow> attempt \<Rightarrow> attempt" where
  "start_attempt currentJob agentId harness now a = a\<lparr>
     a_status := AttRunning,
     a_harness := coalesce harness (a_harness a),
     a_agent_id := Some agentId,
     a_started_at := now,
     a_harness_profile_source := coalesce (a_harness_profile_source a) (j_harness_profile_source currentJob),
     a_harness_profile_hash := coalesce (a_harness_profile_hash a) (j_harness_profile_hash currentJob)\<rparr>"

definition activate :: "string \<Rightarrow> timestamp \<Rightarrow> job \<Rightarrow> job" where
  "activate agentId now j = j\<lparr>j_phase := Active, j_assignee := Some agentId, j_updated_at := now\<rparr>"

definition new_attempt ::
  "string \<Rightarrow> string \<Rightarrow> int \<Rightarrow> attempt_status \<Rightarrow> trigger_type \<Rightarrow> timestamp \<Rightarrow> attempt" where
  "new_attempt uuid jobId n status trigger now =
     \<lparr>a_id = uuid, a_job_id = jobId, a_attempt_number = n, a_status = status,
      a_trigger_type = trigger, a_harness = None, a_agent_id = None, a_started_at = now,
      a_execution_started_at = None, a_ended_at = None, a_result_summary = None,
      a_runtime_meta = [], a_git_json = None, a_exit_code = None, a_result_text = None,
      a_result_json = None, a_duration_ms = None, a_token_input = None, a_token_output = None,
      a_error_message = None, a_receipt_json = None, a_receipt_base_total_usd = None,
      a_receipt_billed_total = None, a_receipt_billed_currency = None,
      a_harness_profile_source = None, a_harness_profile_hash = None\<rparr>"

definition claim_pending ::
  "job \<Rightarrow> attempt \<Rightarrow> string \<Rightarrow> string \<Rightarrow> string option \<Rightarrow> timestamp \<Rightarrow> db \<Rightarrow> attempt outcome" where
  "claim_pending currentJob pending jobId agentId harness now s =
     (case find_row (\<lambda>a. a_id a = a_id pending \<and> a_status a = AttPending) (job_attempts s) of
        None \<Rightarrow> (Inr (Inl (''Pending attempt was already claimed for job: '' @ jobId)), s)
      | Some a0 \<Rightarrow>
          let attempt = start_attempt currentJob agentId harness now a0;
              s1 = update_attempts (\<lambda>a. a_id a = a_id pending \<and> a_status a = AttPending)
                     (start_attempt currentJob agentId harness now) s;
              s2 = update_jobs (\<lambda>j. j_id j = jobId) (activate agentId now) s1;
              s3 = audit ''job'' jobId ''updated'' agentId ''agent''
                     [(''phase'', change (phase_json (j_phase currentJob)) (JStr ''active'')),
                      (''assignee'', change (json_opt (j_assignee currentJob)) (JStr agentId))]
                     [(''claim_attempt'', JStr (a_id attempt)), (''claim_mode'', JStr ''pending_attempt'')]
                     now s2;
              s4 = audit ''job_attempt'' (a_id attempt) ''updated'' agentId ''agent''
                     [(''status'', change (JStr ''pending'') (JStr ''running'')),
                      (''agent_id'', change (json_opt (a_agent_id pending)) (JStr agentId)),
                      (''harness'', change (json_opt (a_harness pending))
                         (json_opt (coalesce harness (a_harness pending))))]
                     [(''job_id'', JStr jobId)] now s3
          in (Inr (Inr attempt), s4))"

definition claim_insert ::
  "job \<Rightarrow> int \<Rightarrow> string \<Rightarrow> string \<Rightarrow> string option \<Rightarrow> timestamp \<Rightarrow> string \<Rightarrow> db \<Rightarrow> attempt outcome" where
  "claim_insert currentJob nextAttemptNumber jobId agentId harness now uuid s =
     (let attempt = (new_attempt uuid jobId nextAttemptNumber AttRunning TriggerManual now)\<lparr>
            a_harness := harness, a_agent_id := Some agentId,
            a_harness_profile_source := j_harness_profile_source currentJob,
            a_harness_profile_hash := j_harness_profile_hash currentJob\<rparr>
      in case insert_attempt attempt s of
           Inl e \<Rightarrow> (Inl e, s)
         | Inr s1 \<Rightarrow>
             let s2 = update_jobs (\<lambda>j. j_id j = jobId) (activate agentId now) s1;
                 s3 = audit ''job'' jobId ''updated'' agentId ''agent''
                        [(''phase'', change (phase_json (j_phase currentJob)) (JStr ''active'')),
                         (''assignee'', change (json_opt (j_assignee currentJob)) (JStr agentId))]
                        [(''claim_attempt'', JStr (a_id attempt))] now s2;
                 s4 = audit ''job_attempt'' (a_id attempt) ''created'' agentId ''agent''
                        [(''attempt_number'', change JNull (JNum (of_int nextAttemptNumber))),
                         (''status'', change JNull (JStr ''running''))]
                        [(''job_id'', JStr jobId)] now s3
             in (Inr (Inr attempt), s4))"

definition claim_after_read ::
  "job \<Rightarrow> string \<Rightarrow> string \<Rightarrow> string option \<Rightarrow> timestamp \<Rightarrow> string \<Rightarrow> db \<Rightarrow> attempt outcome" where
  "claim_after_read currentJob jobId agentId harness now uuid s =
     (if j_phase currentJob \<noteq> Ready \<and> j_phase currentJob \<noteq> Active then
        (Inr (Inl (''Job must be in 'ready' or 'active' phase to claim (current: ''
           @ phase_name (j_phase currentJob) @ '')'')), s)
      else case pending_attempt jobId s of
        Some pending \<Rightarrow> claim_pending currentJob pending jobId agentId harness now s
      | None \<Rightarrow>
          if j_phase currentJob \<noteq> Ready then
            (Inr (Inl (''Job must be in 'ready' phase to claim (current: ''
               @ phase_name (j_phase currentJob) @ '')'')), s)
          else claim_insert currentJob (int (length (attempts_of jobId s)) + 1)
            jobId agentId harness now uuid s)"

definition claim ::
  "string \<Rightarrow> string \<Rightarrow> string option \<Rightarrow> timestamp \<Rightarrow> string \<Rightarrow> db \<Rightarrow> attempt outcome" where
  "claim jobId agentId harness now uuid s =
     (case findById jobId s of
        None \<Rightarrow> (Inr (Inl (''Job not found: '' @ jobId)), s)
      | Some currentJob \<Rightarrow> claim_after_read currentJob jobId agentId harness now uuid s)"

definition back_to_ready :: "timestamp \<Rightarrow> job \<Rightarrow> job" where
  "back_to_ready now j =
     j\<lparr>j_phase := Ready, j_ready_at := Some now, j_assignee := None, j_updated_at := now\<rparr>"

definition end_attempt :: "attempt_status \<Rightarrow> string \<Rightarrow> timestamp \<Rightarrow> attempt \<Rightarrow> attempt" where
  "end_attempt status summary now a =
     a\<lparr>a_status := status, a_ended_at := Some now, a_result_summary := Some summary\<rparr>"

definition release_no_attempt ::
  "job \<Rightarrow> string \<Rightarrow> string \<Rightarrow> string option \<Rightarrow> timestamp \<Rightarrow> db \<Rightarrow> job outcome" where
  "release_no_attempt currentJob jobId agentId reason now s =
     (case find_row (\<lambda>j. j_id j = jobId \<and> j_phase j = Active) (jobs s) of
        None \<Rightarrow> (Inr (Inl (''No running attempt found for job: '' @ jobId)), s)
      | Some j \<Rightarrow>
          (Inr (Inr (back_to_ready now j)),
           audit ''job'' jobId ''updated'' agentId ''agent''
             [(''phase'', change (JStr ''active'') (JStr ''ready'')),
              (''assignee'', change (json_opt (j_assignee currentJob)) JNull)]
             [(''reason'', JStr (case reason of None \<Rightarrow> ''Job released by agent'' | Some r \<Rightarrow> r)),
              (''release_mode'', JStr ''no_running_attempt'')] now
             (update_jobs (\<lambda>j. j_id j = jobId \<and> j_phase j = Active) (back_to_ready now) s)))"

definition release_attempt ::
  "job \<Rightarrow> attempt \<Rightarrow> string \<Rightarrow> string \<Rightarrow> string option \<Rightarrow> timestamp \<Rightarrow> db \<Rightarrow> job outcome" where
  "release_attempt currentJob currentAttempt jobId agentId reason now s =
     (let summary = (case reason of None \<Rightarrow> ''Job released by agent'' | Some r \<Rightarrow> r);
          s1 = update_attempts (\<lambda>a. a_id a = a_id currentAttempt) (end_attempt AttCancelled summary now) s;
          s2 = update_jobs (\<lambda>j. j_id j = jobId) (back_to_ready now) s1;
          s3 = audit ''job_attempt'' (a_id currentAttempt) ''updated'' agentId ''agent''
                 [(''status'', change (JStr ''running'') (JStr ''cancelled'')),
                  (''ended_at'', change JNull (json_date (Some now)))]
                 ((''job_id'', JStr jobId) # (case reason of None \<Rightarrow> [] | Some r \<Rightarrow> [(''reason'', JStr r)]))
                 now s2;
          s4 = audit ''job'' jobId ''updated'' agentId ''agent''
                 [(''phase'', change (JStr ''active'') (JStr ''ready'')),
                  (''assignee'', change (json_opt (j_assignee currentJob)) JNull)]
                 [(''release_attempt'', JStr (a_id currentAttempt))] now s3
      in (Inr (Inr (back_to_ready now currentJob)), s4))"

definition release ::
  "string \<Rightarrow> string \<Rightarrow> string option \<Rightarrow> timestamp \<Rightarrow> db \<Rightarrow> job outcome" where
  "release jobId agentId reason now s =
     (case findById jobId s of
        None \<Rightarrow> (Inr (Inl (''Job not found: '' @ jobId)), s)
      | Some currentJob \<Rightarrow>
          if j_phase currentJob \<noteq> Active then
            (Inr (Inl (''Job must be in 'active' phase to release (current: ''
               @ phase_name (j_phase currentJob) @ '')'')), s)
          else case getCurrentAttempt jobId s of
              None \<Rightarrow> release_no_attempt currentJob jobId agentId reason now s
            | Some currentAttempt \<Rightarrow>
                release_attempt currentJob currentAttempt jobId agentId reason now s)"

end
