(* ===== verification/Job_Review.thy ===== *)
theory Job_Review
  imports Job_Claim
begin

section \<open>Review workflow and terminal transitions\<close>

text \<open>
  \<^verbatim>\<open>packages/db/src/queries/jobs/review.ts\<close>. Methods that throw return \<open>Inl\<close> with the error.
  The failure cascade of \<^verbatim>\<open>markJobFailed\<close> walks the blocking relations with a recursive query that
  removes duplicates (\<^verbatim>\<open>UNION\<close>): each round adds the jobs that depend on a job of the last round and
  have not been seen, until a round adds nothing.
\<close>

definition submit_row :: "timestamp \<Rightarrow> job \<Rightarrow> job" where
  "submit_row now j = j\<lparr>j_phase := Review, j_review_status := Some ReviewPending, j_updated_at := now\<rparr>"

definition review_json :: "review_status option \<Rightarrow> json" where
  "review_json r = json_opt (map_option review_status_name r)"

definition submittable :: "attempt \<Rightarrow> bool" where
  "submittable a = (a_status a \<in> {AttRunning, AttSucceeded})"

definition active_attempt :: "string \<Rightarrow> db \<Rightarrow> attempt option" where
  "active_attempt jobId s =
     first_row (order_by (\<lambda>a. - a_attempt_number a) (filter submittable (attempts_of jobId s)))"

definition submitForReview ::
  "string \<Rightarrow> string \<Rightarrow> string \<Rightarrow> timestamp \<Rightarrow> db \<Rightarrow> (exn + job) \<times> db" where
  "submitForReview jobId agentId summary now s =
     (case findById jobId s of
        None \<Rightarrow> (Inl (Error (''Job not found: '' @ jobId)), s)
      | Some currentJob \<Rightarrow>
          if j_phase currentJob \<noteq> Active then
            (Inl (Error (''Cannot submit for review. Job must be in 'active' phase, currently: ''
               @ phase_name (j_phase currentJob))), s)
          else case active_attempt jobId s of
              None \<Rightarrow> (Inl (Error (''No active attempt found for job: '' @ jobId)), s)
            | Some activeAttempt \<Rightarrow>
                let s1 = update_attempts (\<lambda>a. a_id a = a_id activeAttempt \<and> submittable a)
                           (end_attempt AttSucceeded summary now) s
                in case find_row (\<lambda>j. j_id j = jobId \<and> j_phase j = Active) (jobs s1) of
                     None \<Rightarrow> (Inl (Error (''Job '' @ jobId @ '' changed phase during review submission'')), s1)
                   | Some j \<Rightarrow>
                       (Inr (submit_row now j),
                        audit ''job'' jobId ''updated'' agentId ''agent''
                          [(''phase'', change (JStr ''active'') (JStr ''review'')),
                           (''review_status'', change (review_json (j_review_status currentJob)) (JStr ''pending''))]
                          [(''action'', JStr ''submit_for_review''), (''attempt_id'', JStr (a_id activeAttempt)),
                           (''summary'', JStr summary)] now
                          (update_jobs (\<lambda>j. j_id j = jobId \<and> j_phase j = Active) (submit_row now) s1)))"

definition approve_row :: "string \<Rightarrow> string option \<Rightarrow> timestamp \<Rightarrow> job \<Rightarrow> job" where
  "approve_row reviewerId comment now j = j\<lparr>
     j_phase := Done, j_review_status := Some ReviewApproved, j_reviewer := Some reviewerId,
     j_closed_at := Some now,
     j_close_reason := Some (case comment of None \<Rightarrow> ''Review approved'' | Some c \<Rightarrow> c),
     j_updated_at := now\<rparr>"

definition approveReview ::
  "string \<Rightarrow> string \<Rightarrow> string option \<Rightarrow> timestamp \<Rightarrow> db \<Rightarrow> (exn + job) \<times> db" where
  "approveReview jobId reviewerId comment now s =
     (case findById jobId s of
        None \<Rightarrow> (Inl (Error (''Job not found: '' @ jobId)), s)
      | Some currentJob \<Rightarrow>
          if j_phase currentJob \<noteq> Review then
            (Inl (Error (''Cannot approve. Job must be in 'review' phase, currently: ''
               @ phase_name (j_phase currentJob))), s)
          else
            (Inr (approve_row reviewerId comment now currentJob),
             audit ''job'' jobId ''updated'' reviewerId ''user''
               [(''phase'', change (JStr ''review'') (JStr ''done'')),
                (''review_status'', change (JStr ''pending'') (JStr ''approved'')),
                (''reviewer'', change (json_opt (j_reviewer currentJob)) (JStr reviewerId))]
               [(''action'', JStr ''approve_review''),
                (''comment'', JStr (case comment of None \<Rightarrow> [] | Some c \<Rightarrow> c))] now
               (update_jobs (\<lambda>j. j_id j = jobId) (approve_row reviewerId comment now) s)))"

definition reject_row :: "string \<Rightarrow> timestamp \<Rightarrow> job \<Rightarrow> job" where
  "reject_row reviewerId now j = j\<lparr>
     j_phase := Active, j_review_status := Some ReviewRejected, j_reviewer := Some reviewerId,
     j_updated_at := now\<rparr>"

definition max_attempt_number :: "string \<Rightarrow> db \<Rightarrow> int" where
  "max_attempt_number jobId s =
     (case map a_attempt_number (attempts_of jobId s) of [] \<Rightarrow> 0 | n # ns \<Rightarrow> fold max ns n)"

text \<open>The statements commit one by one: when the insert fails, the phase has already changed.\<close>

definition rejectReview ::
  "string \<Rightarrow> string \<Rightarrow> string \<Rightarrow> timestamp \<Rightarrow> string \<Rightarrow> db \<Rightarrow> (exn + job) \<times> db" where
  "rejectReview jobId reviewerId reason now uuid s =
     (case findById jobId s of
        None \<Rightarrow> (Inl (Error (''Job not found: '' @ jobId)), s)
      | Some currentJob \<Rightarrow>
          if j_phase currentJob \<noteq> Review then
            (Inl (Error (''Cannot reject. Job must be in 'review' phase, currently: ''
               @ phase_name (j_phase currentJob))), s)
          else
            let s1 = update_jobs (\<lambda>j. j_id j = jobId) (reject_row reviewerId now) s;
                next_num = max_attempt_number jobId s1 + 1;
                attempt = (new_attempt uuid jobId next_num AttPending TriggerAutoRetry now)\<lparr>
                  a_harness_profile_source := j_harness_profile_source currentJob,
                  a_harness_profile_hash := j_harness_profile_hash currentJob,
                  a_result_summary := Some (''Retry after rejection: '' @ reason)\<rparr>
            in case insert_attempt attempt s1 of
                 Inl e \<Rightarrow> (Inl (Db_error e), s1)
               | Inr s2 \<Rightarrow>
                   (Inr (reject_row reviewerId now currentJob),
                    audit ''job'' jobId ''updated'' reviewerId ''user''
                      [(''phase'', change (JStr ''review'') (JStr ''active'')),
                       (''review_status'', change (JStr ''pending'') (JStr ''rejected'')),
                       (''reviewer'', change (json_opt (j_reviewer currentJob)) (JStr reviewerId))]
                      [(''action'', JStr ''reject_review''), (''reason'', JStr reason),
                       (''new_attempt_number'', JNum (of_int next_num))] now s2))"

definition orchestrator_or :: "string option \<Rightarrow> string" where
  "orchestrator_or a = (case a of None \<Rightarrow> ''orchestrator'' | Some x \<Rightarrow> x)"

definition markJobDone ::
  "string \<Rightarrow> string option \<Rightarrow> timestamp \<Rightarrow> db \<Rightarrow> (exn + job option) \<times> db" where
  "markJobDone jobId summary now s =
     (case findById jobId s of
        None \<Rightarrow> (Inr None, s)
      | Some job \<Rightarrow>
          if terminal_phase (j_phase job) then (Inr (Some job), s)
          else if j_review_required job \<noteq> ReviewNone then
            (if j_phase job = Active then
               (case submitForReview jobId (orchestrator_or (j_assignee job))
                   (case summary of None \<Rightarrow> ''Completed'' | Some t \<Rightarrow> t) now s of
                  (Inl e, s1) \<Rightarrow> (Inl e, s1)
                | (Inr _, s1) \<Rightarrow> (Inr (findById jobId s1), s1))
             else (Inr (findById jobId s), s))
          else (case updatePhase jobId Done now s of
                  (Inl e, s1) \<Rightarrow> (Inr None, s1)
                | (Inr j, s1) \<Rightarrow> (Inr (Some j), s1)))"

definition close_row :: "failure_disposition \<Rightarrow> string \<Rightarrow> timestamp \<Rightarrow> job \<Rightarrow> job" where
  "close_row disposition reason now j = j\<lparr>
     j_phase := Cancelled, j_closed_at := Some now, j_close_reason := Some reason,
     j_failure_disposition := Some disposition, j_updated_at := now\<rparr>"

definition clear_gates_row :: "timestamp \<Rightarrow> job \<Rightarrow> job" where
  "clear_gates_row now j = j\<lparr>j_blocked_on_gates := [], j_updated_at := now\<rparr>"

definition drop_gates :: "string list \<Rightarrow> timestamp \<Rightarrow> db \<Rightarrow> db" where
  "drop_gates ids now s =
     update_jobs (\<lambda>j. j_id j \<in> set ids) (clear_gates_row now)
       (s\<lparr>job_gates := delete_where (\<lambda>g. g_job_id g \<in> set ids) (job_gates s)\<rparr>)"

definition end_current ::
  "attempt_status \<Rightarrow> string \<Rightarrow> string \<Rightarrow> timestamp \<Rightarrow> db \<Rightarrow> db" where
  "end_current status jobId summary now s =
     (case getCurrentAttempt jobId s of
        None \<Rightarrow> s
      | Some cur \<Rightarrow> update_attempts (\<lambda>a. a_id a = a_id cur) (end_attempt status summary now) s)"

definition close_backlog_children ::
  "failure_disposition \<Rightarrow> string \<Rightarrow> string \<Rightarrow> timestamp \<Rightarrow> db \<Rightarrow> db" where
  "close_backlog_children disposition reason jobId now s =
     update_jobs (\<lambda>j. j_parent_id j = Some jobId \<and> j_phase j = Backlog)
       (close_row disposition reason now) s"

definition cancelJob :: "string \<Rightarrow> string option \<Rightarrow> timestamp \<Rightarrow> db \<Rightarrow> job option \<times> db" where
  "cancelJob jobId reason now s =
     (case findById jobId s of
        None \<Rightarrow> (None, s)
      | Some job \<Rightarrow>
          if terminal_phase (j_phase job) then (Some job, s)
          else
            let why = (case reason of None \<Rightarrow> ''Job cancelled'' | Some r \<Rightarrow> r);
                s1 = end_current AttCancelled jobId why now s;
                updated = find_row (\<lambda>j. j_id j = jobId \<and> \<not> terminal_phase (j_phase j)) (jobs s1);
                s2 = update_jobs (\<lambda>j. j_id j = jobId \<and> \<not> terminal_phase (j_phase j))
                       (close_row DispCancelled why now) s1;
                s3 = drop_gates [jobId] now s2
            in (case updated of
                  None \<Rightarrow> (None, s3)
                | Some j \<Rightarrow>
                    (Some (close_row DispCancelled why now j),
                     close_backlog_children DispCancelled (''Parent job '' @ jobId @ '' cancelled'')
                       jobId now s3)))"

definition dependents_of :: "string list \<Rightarrow> db \<Rightarrow> string list" where
  "dependents_of ids s =
     map r_job_id (filter (\<lambda>r. r_related_job_id r \<in> set ids \<and> blocking_relation (r_relation_type r))
       (job_relations s))"

fun downstream :: "nat \<Rightarrow> db \<Rightarrow> string list \<Rightarrow> string list \<Rightarrow> string list option" where
  "downstream 0 s seen working = None"
| "downstream (Suc fuel) s seen working =
     (let new = remdups (filter (\<lambda>i. i \<notin> set seen) (dependents_of working s))
      in if new = [] then Some seen else downstream fuel s (seen @ new) new)"

definition cascade :: "string \<Rightarrow> db \<Rightarrow> string list option" where
  "cascade jobId s = downstream (length (job_relations s) + 1) s [] [jobId]"

definition cascade_cancel :: "string \<Rightarrow> timestamp \<Rightarrow> db \<Rightarrow> db option" where
  "cascade_cancel jobId now s =
     (case cascade jobId s of
        None \<Rightarrow> None
      | Some ids \<Rightarrow>
          let P = (\<lambda>j. j_id j \<in> set ids \<and> \<not> terminal_phase (j_phase j));
              cancelled = map j_id (filter P (jobs s));
              s1 = update_jobs P (close_row DispUpstreamFailed (''Upstream job '' @ jobId @ '' failed'') now) s
          in Some (if cancelled \<noteq> [] then drop_gates cancelled now s1 else s1))"

definition markJobFailed :: "string \<Rightarrow> string option \<Rightarrow> timestamp \<Rightarrow> db \<Rightarrow> (job option \<times> db) option" where
  "markJobFailed jobId reason now s =
     (case findById jobId s of
        None \<Rightarrow> Some (None, s)
      | Some job \<Rightarrow>
          if terminal_phase (j_phase job) then Some (Some job, s)
          else
            let why = (case reason of None \<Rightarrow> ''Job failed'' | Some r \<Rightarrow> r);
                s1 = end_current AttFailed jobId why now s;
                updated = find_row (\<lambda>j. j_id j = jobId \<and> \<not> terminal_phase (j_phase j)) (jobs s1);
                s2 = update_jobs (\<lambda>j. j_id j = jobId \<and> \<not> terminal_phase (j_phase j))
                       (close_row DispFailed why now) s1;
                s3 = drop_gates [jobId] now s2
            in (case updated of
                  None \<Rightarrow> Some (None, s3)
                | Some j \<Rightarrow>
                    map_option (\<lambda>s4.
                      (Some (close_row DispFailed why now j),
                       close_backlog_children DispUpstreamFailed (''Parent job '' @ jobId @ '' failed'')
                         jobId now s4))
                      (cascade_cancel jobId now s3)))"

definition json_name_in :: "json option \<Rightarrow> string list \<Rightarrow> bool" where
  "json_name_in v names = (case json_string v of None \<Rightarrow> False | Some n \<Rightarrow> n \<in> set names)"

definition review_entry :: "string \<Rightarrow> audit_entry \<Rightarrow> bool" where
  "review_entry jobId l =
     (l_entity_type l = ''job'' \<and> l_entity_id l = jobId \<and>
      (case obj_get (l_changes l) ''phase'' of
         None \<Rightarrow> False
       | Some p \<Rightarrow> json_name_in (json_get p ''new'') [''review'', ''done'', ''active''] \<or>
                   json_name_in (json_get p ''old'') [''review'']))"

definition getReviewHistory :: "string \<Rightarrow> db \<Rightarrow> audit_entry list" where
  "getReviewHistory jobId s = order_by l_created_at (filter (review_entry jobId) (audit_log s))"

subsection \<open>The failure cascade is the transitive closure of the blocking relations\<close>

text \<open>\<open>depends_on s i d\<close>: job \<open>d\<close> waits, directly or through other jobs, for job \<open>i\<close>.\<close>

inductive depends_on :: "db \<Rightarrow> string \<Rightarrow> string \<Rightarrow> bool" for s i where
  direct: "d \<in> set (dependents_of [i] s) \<Longrightarrow> depends_on s i d"
| indirect: "depends_on s i m \<Longrightarrow> d \<in> set (dependents_of [m] s) \<Longrightarrow> depends_on s i d"

inductive_simps depends_on_iff: "depends_on s i d"

lemma dependents_of_iff:
  "d \<in> set (dependents_of ids s) \<longleftrightarrow>
     (\<exists>r \<in> set (job_relations s). r_job_id r = d \<and> r_related_job_id r \<in> set ids \<and>
        blocking_relation (r_relation_type r))"
  by (auto simp: dependents_of_def)

lemma downstream_total:
  assumes "set seen \<subseteq> r_job_id ` set (job_relations s)" and "distinct seen"
    and "card (r_job_id ` set (job_relations s)) < fuel + length seen"
  shows "\<exists>ids. downstream fuel s seen working = Some ids"
  using assms
proof (induction fuel arbitrary: seen working)
  case 0
  have "length seen \<le> card (r_job_id ` set (job_relations s))"
    using 0(1,2) by (metis card_mono distinct_card finite_imageI finite_set)
  with 0(3) show ?case by simp
next
  case (Suc fuel)
  let ?new = "remdups (filter (\<lambda>i. i \<notin> set seen) (dependents_of working s))"
  show ?case
  proof (cases "?new = []")
    case True
    then show ?thesis by simp
  next
    case False
    then have "0 < length ?new" by simp
    moreover have "set (seen @ ?new) \<subseteq> r_job_id ` set (job_relations s)"
      using Suc.prems(1) by (auto simp: dependents_of_iff)
    moreover have "distinct (seen @ ?new)" using Suc.prems(2) by auto
    ultimately have "\<exists>ids. downstream fuel s (seen @ ?new) ?new = Some ids"
      using Suc.prems(3) by (intro Suc.IH) (auto simp del: length_greater_0_conv)
    then show ?thesis using False by (simp add: Let_def del: remdups_eq_nil_iff)
  qed
qed

lemma cascade_total: "\<exists>ids. cascade i s = Some ids"
proof -
  have "card (r_job_id ` set (job_relations s)) \<le> length (job_relations s)"
    using card_image_le [of "set (job_relations s)" r_job_id] card_length [of "job_relations s"] by simp
  then show ?thesis unfolding cascade_def by (intro downstream_total) auto
qed

lemma downstream_sound:
  assumes "downstream fuel s seen working = Some ids"
    and "\<forall>d \<in> set seen. depends_on s i d" and "\<forall>w \<in> set working. w = i \<or> depends_on s i w"
  shows "\<forall>d \<in> set ids. depends_on s i d"
  using assms
proof (induction fuel arbitrary: seen working)
  case (Suc fuel)
  let ?new = "remdups (filter (\<lambda>i. i \<notin> set seen) (dependents_of working s))"
  have new: "\<forall>d \<in> set ?new. depends_on s i d"
  proof
    fix d assume "d \<in> set ?new"
    then have "d \<in> set (dependents_of working s)" by simp
    then obtain r where r: "r \<in> set (job_relations s)" "r_job_id r = d"
        "r_related_job_id r \<in> set working" "blocking_relation (r_relation_type r)"
      unfolding dependents_of_iff by blast
    then have d: "d \<in> set (dependents_of [r_related_job_id r] s)"
      unfolding dependents_of_iff by auto
    from Suc.prems(3) r(3) have "r_related_job_id r = i \<or> depends_on s i (r_related_job_id r)" by simp
    then show "depends_on s i d"
    proof
      assume "r_related_job_id r = i"
      with d show ?thesis by (intro depends_on.direct) simp
    next
      assume "depends_on s i (r_related_job_id r)"
      then show ?thesis using d by (rule depends_on.indirect)
    qed
  qed
  show ?case
  proof (cases "?new = []")
    case True
    then show ?thesis using Suc.prems by simp
  next
    case False
    then have "downstream fuel s (seen @ ?new) ?new = Some ids"
      using Suc.prems(1) by (simp add: Let_def del: remdups_eq_nil_iff)
    then show ?thesis using Suc.IH Suc.prems(2) new by fastforce
  qed
qed simp

text \<open>
  Completeness: everything that depends on a seen job that is not in the working set has been seen,
  and the rounds keep this until the working set has no new dependents.
\<close>

lemma downstream_complete:
  assumes "downstream fuel s seen working = Some ids"
    and "\<forall>m \<in> insert i (set seen). m \<notin> set working \<longrightarrow> set (dependents_of [m] s) \<subseteq> set seen"
  shows "\<forall>m \<in> insert i (set ids). set (dependents_of [m] s) \<subseteq> set ids"
  using assms
proof (induction fuel arbitrary: seen working)
  case (Suc fuel)
  let ?new = "remdups (filter (\<lambda>i. i \<notin> set seen) (dependents_of working s))"
  have work: "set (dependents_of [m] s) \<subseteq> set seen \<union> set ?new" if "m \<in> set working" for m
    using that by (auto simp: dependents_of_iff)
  show ?case
  proof (cases "?new = []")
    case True
    then have "ids = seen" using Suc.prems(1) by simp
    then show ?thesis using Suc.prems(2) work True by (auto simp: filter_empty_conv)
  next
    case False
    have "\<forall>m \<in> insert i (set (seen @ ?new)). m \<notin> set ?new \<longrightarrow>
        set (dependents_of [m] s) \<subseteq> set (seen @ ?new)"
      using Suc.prems(2) work by (auto simp del: set_filter)
    moreover have "downstream fuel s (seen @ ?new) ?new = Some ids"
      using Suc.prems(1) False by (simp add: Let_def del: remdups_eq_nil_iff)
    ultimately show ?thesis by (rule Suc.IH [rotated])
  qed
qed simp

lemma cascade_closure: "cascade i s = Some ids \<Longrightarrow> set ids = {d. depends_on s i d}"
proof -
  assume c: "cascade i s = Some ids"
  have closed: "\<forall>m \<in> insert i (set ids). set (dependents_of [m] s) \<subseteq> set ids"
    by (rule downstream_complete [OF c [unfolded cascade_def]]) simp
  have "d \<in> set ids" if "depends_on s i d" for d
    using that by induction (use closed in auto)
  moreover have "\<forall>d \<in> set ids. depends_on s i d"
    by (rule downstream_sound [OF c [unfolded cascade_def]]) auto
  ultimately show ?thesis by auto
qed

end
