(* ===== verification/Job_Scheduling.thy ===== *)
theory Job_Scheduling
  imports Job_Claim
begin

section \<open>Scheduling queries\<close>

text \<open>
  \<^verbatim>\<open>packages/db/src/queries/jobs/scheduling.ts\<close>: the ready and blocked queries, the requeue and the
  claim-next wrappers. \<^verbatim>\<open>getReadyJobs\<close> is called with an assignee or with none; \<open>None\<close> selects the
  unassigned jobs.
\<close>

definition in_project :: "string \<Rightarrow> job \<Rightarrow> bool" where
  "in_project projectId j = (projectId = [] \<or> j_project_id j = projectId)"

definition not_deferred :: "timestamp \<Rightarrow> job \<Rightarrow> bool" where
  "not_deferred now j = (case j_defer_until j of None \<Rightarrow> True | Some t \<Rightarrow> t \<le> now)"

definition schedulable :: "string \<Rightarrow> timestamp \<Rightarrow> db \<Rightarrow> job \<Rightarrow> bool" where
  "schedulable projectId now s j =
     (exists_row (\<lambda>p. p_id p = j_project_id j) (projects s) \<and> in_project projectId j \<and>
      j_phase j \<in> {Ready, Active} \<and> not_deferred now j \<and>
      \<not> exists_row (open_blocker s (j_id j)) (job_relations s))"

definition getReadyJobs ::
  "string \<Rightarrow> string option \<Rightarrow> nat option \<Rightarrow> timestamp \<Rightarrow> db \<Rightarrow> job list" where
  "getReadyJobs projectId assignee limit now s =
     take (case limit of None \<Rightarrow> 10 | Some l \<Rightarrow> l)
       (order_by (\<lambda>j. (j_priority j, j_created_at j))
         (filter (\<lambda>j. schedulable projectId now s j \<and> j_assignee j = assignee) (jobs s)))"

definition getReadyAssignedJobs :: "string \<Rightarrow> nat option \<Rightarrow> timestamp \<Rightarrow> db \<Rightarrow> job list" where
  "getReadyAssignedJobs projectId limit now s =
     take (case limit of None \<Rightarrow> 10 | Some l \<Rightarrow> l)
       (order_by (\<lambda>j. (j_priority j, j_created_at j))
         (filter (\<lambda>j. schedulable projectId now s j \<and> j_assignee j \<noteq> None \<and>
            j_execution_type j = ExecAgent) (jobs s)))"

definition getBlockedJobs :: "string \<Rightarrow> db \<Rightarrow> job list" where
  "getBlockedJobs projectId s =
     order_by (\<lambda>j. (j_priority j, j_created_at j))
       (filter (\<lambda>j. exists_row (\<lambda>p. p_id p = j_project_id j) (projects s) \<and>
          j_project_id j = projectId \<and> j_phase j \<in> {Ready, Active} \<and>
          exists_row (open_blocker s (j_id j)) (job_relations s)) (jobs s))"

text \<open>
  The option \<^verbatim>\<open>deferUntil\<close> has three forms: absent (\<open>None\<close>, the column is kept), null
  (\<open>Some None\<close>, the column is cleared) and a date.
\<close>

definition requeue_row :: "timestamp option option \<Rightarrow> timestamp \<Rightarrow> job \<Rightarrow> job" where
  "requeue_row deferUntil now j =
     (let j1 = back_to_ready now j
      in case deferUntil of None \<Rightarrow> j1 | Some d \<Rightarrow> j1\<lparr>j_defer_until := d\<rparr>)"

definition requeueReady ::
  "string \<Rightarrow> string \<Rightarrow> timestamp option option \<Rightarrow> string option \<Rightarrow> timestamp \<Rightarrow> db \<Rightarrow> job option \<times> db" where
  "requeueReady jobId actor deferUntil reason now s =
     (case findById jobId s of
        None \<Rightarrow> (None, s)
      | Some currentJob \<Rightarrow>
          (Some (requeue_row deferUntil now currentJob),
           audit ''job'' jobId ''updated'' actor ''agent''
             ([(''phase'', change (phase_json (j_phase currentJob)) (JStr ''ready'')),
               (''assignee'', change (json_opt (j_assignee currentJob)) JNull)] @
              (case deferUntil of None \<Rightarrow> []
               | Some d \<Rightarrow> [(''defer_until'', change (json_date (j_defer_until currentJob)) (json_date d))]))
             [(''reason'', json_opt reason)] now
             (update_jobs (\<lambda>j. j_id j = jobId) (requeue_row deferUntil now) s)))"

definition hint_harness :: "job \<Rightarrow> string option" where
  "hint_harness j = json_string (obj_get (j_hints j) ''harness'')"

definition claimNextJob ::
  "string option \<Rightarrow> string \<Rightarrow> string option \<Rightarrow> timestamp \<Rightarrow> string \<Rightarrow> db \<Rightarrow>
    (db_error + (job \<times> attempt) option) \<times> db" where
  "claimNextJob projectId agentId harness now uuid s =
     (case getReadyJobs (case projectId of None \<Rightarrow> [] | Some p \<Rightarrow> p) None (Some 1) now s of
        [] \<Rightarrow> (Inr None, s)
      | job # _ \<Rightarrow>
          (case claim (j_id job) agentId (coalesce harness (coalesce (j_harness job) (hint_harness job)))
              now uuid s of
             (Inl e, s1) \<Rightarrow> (Inl e, s1)
           | (Inr (Inl e), s1) \<Rightarrow> (Inr None, s1)
           | (Inr (Inr attempt), s1) \<Rightarrow>
               (Inr (map_option (\<lambda>j. (j, attempt)) (findById (j_id job) s1)), s1)))"

definition claimNextAssignedJob ::
  "string option \<Rightarrow> timestamp \<Rightarrow> string \<Rightarrow> db \<Rightarrow> (db_error + (job \<times> attempt) option) \<times> db" where
  "claimNextAssignedJob projectId now uuid s =
     (case getReadyAssignedJobs (case projectId of None \<Rightarrow> [] | Some p \<Rightarrow> p) (Some 1) now s of
        [] \<Rightarrow> (Inr None, s)
      | job # _ \<Rightarrow>
          (case claim (j_id job) (case j_assignee job of None \<Rightarrow> ''orchestrator'' | Some a \<Rightarrow> a)
              (coalesce (j_harness job) (hint_harness job)) now uuid s of
             (Inl e, s1) \<Rightarrow> (Inl e, s1)
           | (Inr (Inl e), s1) \<Rightarrow> (Inr None, s1)
           | (Inr (Inr attempt), s1) \<Rightarrow>
               (Inr (map_option (\<lambda>j. (j, attempt)) (findById (j_id job) s1)), s1)))"

end
