(* ===== verification/Job_Gates.thy ===== *)
theory Job_Gates
  imports Job_Model
begin

section \<open>Job gates: named leases\<close>

text \<open>
  \<^verbatim>\<open>packages/db/src/queries/gates.ts\<close>. A gate is a row of \<^verbatim>\<open>job_gates\<close> whose primary key is
  \<^verbatim>\<open>gate_key\<close>, so at most one job holds it. \<^verbatim>\<open>acquireGates\<close> runs several statements, each committed on
  its own: \<open>env n\<close> is what the other clients of the database do before its \<open>n\<close>-th statement
  (after the first), and the identity when the call runs alone. The server and the client read one
  clock \<open>now\<close> during the call.
\<close>

record acquire_result =
  success :: bool
  acquired :: "string list"
  blocked_by :: "string list"

definition cleanupExpiredGates :: "timestamp \<Rightarrow> db \<Rightarrow> nat \<times> db" where
  "cleanupExpiredGates now s =
     (length (filter (\<lambda>g. g_ttl_expires_at g \<le> now) (job_gates s)),
      s\<lparr>job_gates := delete_where (\<lambda>g. g_ttl_expires_at g \<le> now) (job_gates s)\<rparr>)"

definition held_by_others :: "string \<Rightarrow> string list \<Rightarrow> timestamp \<Rightarrow> db \<Rightarrow> job_gate list" where
  "held_by_others jobId gateKeys now s =
     filter (\<lambda>g. g_gate_key g \<in> set gateKeys \<and> g_job_id g \<noteq> jobId \<and> now < g_ttl_expires_at g)
       (job_gates s)"

definition upsert_gate ::
  "string \<Rightarrow> string \<Rightarrow> timestamp \<Rightarrow> timestamp \<Rightarrow> jobject \<Rightarrow> db \<Rightarrow> db_error + bool \<times> db" where
  "upsert_gate gateKey jobId now ttlExpiresAt context s =
     (case find_row (\<lambda>g. g_gate_key g = gateKey) (job_gates s) of
        None \<Rightarrow>
          if exists_row (\<lambda>j. j_id j = jobId) (jobs s) then
            Inr (True, s\<lparr>job_gates := job_gates s @
              [\<lparr>g_gate_key = gateKey, g_job_id = jobId, g_acquired_at = now,
                g_ttl_expires_at = ttlExpiresAt, g_context = context\<rparr>]\<rparr>)
          else Inl Foreign_key_violation
      | Some g \<Rightarrow>
          if g_job_id g = jobId then
            Inr (True, s\<lparr>job_gates := update_where (\<lambda>g. g_gate_key g = gateKey)
              (\<lambda>g. g\<lparr>g_ttl_expires_at := ttlExpiresAt, g_context := context\<rparr>) (job_gates s)\<rparr>)
          else Inr (False, s))"

definition releaseGates :: "string \<Rightarrow> string list option \<Rightarrow> db \<Rightarrow> nat \<times> db" where
  "releaseGates jobId gateKeys s =
     (case gateKeys of
        Some keys \<Rightarrow>
          if keys = [] then (0, s)
          else (length (filter (\<lambda>g. g_job_id g = jobId \<and> g_gate_key g \<in> set keys) (job_gates s)),
            s\<lparr>job_gates := delete_where (\<lambda>g. g_job_id g = jobId \<and> g_gate_key g \<in> set keys)
                (job_gates s)\<rparr>)
      | None \<Rightarrow>
          (length (filter (\<lambda>g. g_job_id g = jobId) (job_gates s)),
           s\<lparr>job_gates := delete_where (\<lambda>g. g_job_id g = jobId) (job_gates s)\<rparr>))"

text \<open>The acquisition loop; an error of a statement leaves the gates acquired before it in place.\<close>

fun acquire_loop ::
  "(nat \<Rightarrow> db \<Rightarrow> db) \<Rightarrow> nat \<Rightarrow> string \<Rightarrow> string list \<Rightarrow> timestamp \<Rightarrow> timestamp \<Rightarrow> jobject \<Rightarrow>
    string list \<Rightarrow> db \<Rightarrow> (db_error + string list) \<times> db" where
  "acquire_loop env n jobId [] now ttlExpiresAt context acq s = (Inr acq, s)"
| "acquire_loop env n jobId (gateKey # gateKeys) now ttlExpiresAt context acq s =
     (case upsert_gate gateKey jobId now ttlExpiresAt context (env n s) of
        Inl e \<Rightarrow> (Inl e, env n s)
      | Inr (got, s') \<Rightarrow>
          acquire_loop env (Suc n) jobId gateKeys now ttlExpiresAt context
            (if got then acq @ [gateKey] else acq) s')"

definition acquireGates ::
  "(nat \<Rightarrow> db \<Rightarrow> db) \<Rightarrow> string \<Rightarrow> string list \<Rightarrow> int \<Rightarrow> jobject \<Rightarrow> timestamp \<Rightarrow> db \<Rightarrow>
    (db_error + acquire_result) \<times> db" where
  "acquireGates env jobId gateKeys ttlSeconds context now s =
     (if gateKeys = [] then (Inr \<lparr>success = True, acquired = [], blocked_by = []\<rparr>, s)
      else
        let s1 = env 0 (snd (cleanupExpiredGates now s));
            heldGates = held_by_others jobId gateKeys now s1
        in if heldGates \<noteq> [] then
             (Inr \<lparr>success = False, acquired = [], blocked_by = map g_gate_key heldGates\<rparr>, s1)
           else case acquire_loop env 1 jobId gateKeys now (now + ttlSeconds * 1000) context [] s1 of
               (Inl e, s2) \<Rightarrow> (Inl e, s2)
             | (Inr acq, s2) \<Rightarrow>
                 if length acq = length gateKeys then
                   (Inr \<lparr>success = True, acquired = acq, blocked_by = []\<rparr>, s2)
                 else
                   let s3 = (if acq \<noteq> [] then
                               snd (releaseGates jobId (Some acq) (env (1 + length gateKeys) s2))
                             else s2);
                       s4 = env (2 + length gateKeys) s3
                   in (Inr \<lparr>success = False, acquired = [],
                        blocked_by = map g_gate_key (held_by_others jobId gateKeys now s4)\<rparr>, s4))"

definition alone :: "nat \<Rightarrow> db \<Rightarrow> db" where
  "alone n s = s"

definition getGatesForJob :: "string \<Rightarrow> db \<Rightarrow> job_gate list" where
  "getGatesForJob jobId s = order_by g_acquired_at (filter (\<lambda>g. g_job_id g = jobId) (job_gates s))"

text \<open>The map built by \<^verbatim>\<open>new Map(entries)\<close>: a later entry for a key wins.\<close>

definition checkGatesAvailable ::
  "string list \<Rightarrow> string option \<Rightarrow> timestamp \<Rightarrow> db \<Rightarrow> string \<Rightarrow> string option" where
  "checkGatesAvailable gateKeys excludeJobId now s =
     (if gateKeys = [] then Map.empty
      else map_of (rev (map (\<lambda>g. (g_gate_key g, g_job_id g))
        (filter (\<lambda>g. g_gate_key g \<in> set gateKeys \<and>
             (case excludeJobId of None \<Rightarrow> True | Some e \<Rightarrow> e = [] \<or> g_job_id g \<noteq> e) \<and>
             now < g_ttl_expires_at g) (job_gates s)))))"

definition refreshGatesTTL :: "string \<Rightarrow> int \<Rightarrow> timestamp \<Rightarrow> db \<Rightarrow> nat \<times> db" where
  "refreshGatesTTL jobId ttlSeconds now s =
     (length (filter (\<lambda>g. g_job_id g = jobId) (job_gates s)),
      s\<lparr>job_gates := update_where (\<lambda>g. g_job_id g = jobId)
          (\<lambda>g. g\<lparr>g_ttl_expires_at := now + ttlSeconds * 1000\<rparr>) (job_gates s)\<rparr>)"

definition updateBlockedOnGates :: "string \<Rightarrow> string list \<Rightarrow> timestamp \<Rightarrow> db \<Rightarrow> db" where
  "updateBlockedOnGates jobId blockedOnGates now s =
     update_jobs (\<lambda>j. j_id j = jobId)
       (\<lambda>j. j\<lparr>j_blocked_on_gates := blockedOnGates, j_updated_at := now\<rparr>) s"

definition clearBlockedOnGates :: "string \<Rightarrow> timestamp \<Rightarrow> db \<Rightarrow> db" where
  "clearBlockedOnGates jobId now s =
     update_jobs (\<lambda>j. j_id j = jobId)
       (\<lambda>j. j\<lparr>j_blocked_on_gates := [], j_updated_at := now\<rparr>) s"

definition getJobsBlockedOnGates :: "db \<Rightarrow> (string \<times> string list) list" where
  "getJobsBlockedOnGates s =
     map (\<lambda>j. (j_id j, j_blocked_on_gates j))
       (filter (\<lambda>j. j_blocked_on_gates j \<noteq> [] \<and> j_phase j \<in> {Ready, Active}) (jobs s))"

subsection \<open>Who holds a gate\<close>

text \<open>The abstract view of the table: the job that holds a gate whose lease has not run out.\<close>

definition holder :: "timestamp \<Rightarrow> db \<Rightarrow> string \<Rightarrow> string option" where
  "holder now s k =
     map_option g_job_id (find_row (\<lambda>g. g_gate_key g = k \<and> now < g_ttl_expires_at g) (job_gates s))"

definition unique_gates :: "db \<Rightarrow> bool" where
  "unique_gates s = distinct (map g_gate_key (job_gates s))"

definition own_gates :: "string \<Rightarrow> db \<Rightarrow> job_gate list" where
  "own_gates jobId s = filter (\<lambda>g. g_job_id g = jobId) (job_gates s)"

text \<open>What the other clients may do between two statements: anything but touch the job's own gates.\<close>

definition rely :: "string \<Rightarrow> (nat \<Rightarrow> db \<Rightarrow> db) \<Rightarrow> bool" where
  "rely jobId env =
     (\<forall>n s. (unique_gates s \<longrightarrow> unique_gates (env n s)) \<and>
            own_gates jobId (env n s) = own_gates jobId s \<and>
            (exists_row (\<lambda>j. j_id j = jobId) (jobs s) \<longrightarrow> exists_row (\<lambda>j. j_id j = jobId) (jobs (env n s))))"

lemma rely_alone: "rely jobId alone"
  by (simp add: rely_def alone_def)

lemma alone_id [simp]: "alone n = (\<lambda>s. s)"
  by (simp add: alone_def fun_eq_iff)

lemma unique_gates_key:
  "unique_gates s \<Longrightarrow> g \<in> set (job_gates s) \<Longrightarrow> h \<in> set (job_gates s) \<Longrightarrow>
     g_gate_key g = g_gate_key h \<Longrightarrow> g = h"
  unfolding unique_gates_def by (metis find_row_key option.inject)

lemma holder_iff:
  "unique_gates s \<Longrightarrow> holder now s k = Some i \<longleftrightarrow>
     (\<exists>g \<in> set (job_gates s). g_gate_key g = k \<and> now < g_ttl_expires_at g \<and> g_job_id g = i)"
proof
  assume "holder now s k = Some i"
  then obtain g where "find_row (\<lambda>g. g_gate_key g = k \<and> now < g_ttl_expires_at g) (job_gates s) = Some g"
    "g_job_id g = i" by (auto simp: holder_def)
  then show "\<exists>g \<in> set (job_gates s). g_gate_key g = k \<and> now < g_ttl_expires_at g \<and> g_job_id g = i"
    using find_row_Some by fastforce
next
  assume u: "unique_gates s"
    and "\<exists>g \<in> set (job_gates s). g_gate_key g = k \<and> now < g_ttl_expires_at g \<and> g_job_id g = i"
  then obtain g where g: "g \<in> set (job_gates s)" "g_gate_key g = k" "now < g_ttl_expires_at g" "g_job_id g = i"
    by auto
  obtain h where h: "find_row (\<lambda>g. g_gate_key g = k \<and> now < g_ttl_expires_at g) (job_gates s) = Some h"
    using g find_row_None [of "\<lambda>g. g_gate_key g = k \<and> now < g_ttl_expires_at g" "job_gates s"]
    by (cases "find_row (\<lambda>g. g_gate_key g = k \<and> now < g_ttl_expires_at g) (job_gates s)") auto
  have "h = g" using unique_gates_key [OF u] find_row_Some [OF h] g by auto
  with h g show "holder now s k = Some i" by (simp add: holder_def)
qed

lemma held_by_others_iff:
  "unique_gates s \<Longrightarrow> k \<in> g_gate_key ` set (held_by_others i keys now s) \<longleftrightarrow>
     k \<in> set keys \<and> (\<exists>i'. i' \<noteq> i \<and> holder now s k = Some i')"
  by (auto simp: held_by_others_def holder_iff)

subsection \<open>The statements\<close>

lemma cleanup_gates [simp]:
  "job_gates (snd (cleanupExpiredGates now s)) = filter (\<lambda>g. now < g_ttl_expires_at g) (job_gates s)"
  by (auto simp: cleanupExpiredGates_def delete_where_def not_le intro: filter_cong)

lemma cleanup_frame [simp]:
  "jobs (snd (cleanupExpiredGates now s)) = jobs s"
  "job_attempts (snd (cleanupExpiredGates now s)) = job_attempts s"
  by (simp_all add: cleanupExpiredGates_def)

lemma unique_gates_cleanup: "unique_gates s \<Longrightarrow> unique_gates (snd (cleanupExpiredGates now s))"
  by (simp add: unique_gates_def distinct_map_filter)

lemma find_row_filter: "find_row P (filter Q rows) = find_row (\<lambda>r. Q r \<and> P r) rows"
  by (induction rows) auto

lemma holder_cleanup [simp]:
  "now \<le> t \<Longrightarrow> holder t (snd (cleanupExpiredGates now s)) k = holder t s k"
proof -
  assume le: "now \<le> t"
  have "(\<lambda>g. now < g_ttl_expires_at g \<and> g_gate_key g = k \<and> t < g_ttl_expires_at g) =
    (\<lambda>g. g_gate_key g = k \<and> t < g_ttl_expires_at g)" using le by auto
  then show ?thesis unfolding holder_def cleanup_gates find_row_filter by (rule arg_cong)
qed

lemma unique_gates_release: "unique_gates s \<Longrightarrow> unique_gates (snd (releaseGates i ks s))"
  by (auto simp: releaseGates_def unique_gates_def distinct_map_delete_where split: option.split)

lemma upsert_gate_unique:
  "unique_gates s \<Longrightarrow> upsert_gate k i now t c s = Inr (got, s') \<Longrightarrow> unique_gates s'"
  by (auto simp: upsert_gate_def unique_gates_def find_row_None map_update_where
      split: option.splits if_splits)

text \<open>After an upsert that returned a row, the job holds the gate until \<open>t\<close>.\<close>

definition holds_until :: "string \<Rightarrow> timestamp \<Rightarrow> string \<Rightarrow> db \<Rightarrow> bool" where
  "holds_until i t k s =
     list_ex (\<lambda>g. g_gate_key g = k \<and> g_ttl_expires_at g = t) (own_gates i s)"

lemma holds_until_holder:
  "unique_gates s \<Longrightarrow> holds_until i t k s \<Longrightarrow> now < t \<Longrightarrow> holder now s k = Some i"
  by (auto simp: holds_until_def own_gates_def list_ex_iff holder_iff)

text \<open>The three outcomes of the statement that returns.\<close>

lemma upsert_gate_cases:
  assumes "upsert_gate k i now t c s = Inr (got, s')"
  obtains
    (inserted) "got" "\<forall>g \<in> set (job_gates s). g_gate_key g \<noteq> k"
      "job_gates s' = job_gates s @ [\<lparr>g_gate_key = k, g_job_id = i, g_acquired_at = now,
         g_ttl_expires_at = t, g_context = c\<rparr>]"
  | (extended) g where "got" "g \<in> set (own_gates i s)" "g_gate_key g = k"
      "job_gates s' = update_where (\<lambda>g. g_gate_key g = k)
         (\<lambda>g. g\<lparr>g_ttl_expires_at := t, g_context := c\<rparr>) (job_gates s)"
  | (refused) g where "\<not> got" "s' = s" "g \<in> set (job_gates s)" "g_gate_key g = k" "g_job_id g \<noteq> i"
proof (cases "find_row (\<lambda>g. g_gate_key g = k) (job_gates s)")
  case None
  with assms have "got" "job_gates s' = job_gates s @ [\<lparr>g_gate_key = k, g_job_id = i,
      g_acquired_at = now, g_ttl_expires_at = t, g_context = c\<rparr>]"
    by (auto simp: upsert_gate_def split: if_splits)
  then show thesis using None by (intro inserted) (auto simp: find_row_None)
next
  case (Some g)
  note g = find_row_Some [OF Some]
  show thesis
  proof (cases "g_job_id g = i")
    case True
    with assms Some have "got" "job_gates s' = update_where (\<lambda>g. g_gate_key g = k)
        (\<lambda>g. g\<lparr>g_ttl_expires_at := t, g_context := c\<rparr>) (job_gates s)"
      by (auto simp: upsert_gate_def)
    then show thesis using True g by (intro extended [of g]) (auto simp: own_gates_def)
  next
    case False
    with assms Some have "\<not> got" "s' = s" by (auto simp: upsert_gate_def)
    then show thesis using False g by (intro refused [of g]) auto
  qed
qed

lemma holds_until_iff:
  "holds_until i t k s \<longleftrightarrow>
     (\<exists>g \<in> set (job_gates s). g_job_id g = i \<and> g_gate_key g = k \<and> g_ttl_expires_at g = t)"
  by (auto simp: holds_until_def own_gates_def list_ex_iff)

lemma holds_until_update:
  assumes "job_gates s' = update_where P (\<lambda>g. g\<lparr>g_ttl_expires_at := t, g_context := c\<rparr>) (job_gates s)"
    and "g \<in> set (job_gates s)" and "P g \<or> g_ttl_expires_at g = t"
  shows "holds_until (g_job_id g) t (g_gate_key g) s'"
proof -
  let ?f = "\<lambda>g. if P g then g\<lparr>g_ttl_expires_at := t, g_context := c\<rparr> else g"
  have "?f g \<in> set (job_gates s')" using assms(1,2) by (simp add: set_update_where)
  with assms(3) show ?thesis unfolding holds_until_iff by (intro bexI [of _ "?f g"]) auto
qed

lemma upsert_gate_holds:
  assumes "upsert_gate k i now t c s = Inr (True, s')"
  shows "holds_until i t k s'"
  using assms
proof (cases rule: upsert_gate_cases)
  case (extended g)
  then show ?thesis using holds_until_update [OF extended(4), of g] by (auto simp: own_gates_def)
qed (auto simp: holds_until_iff)

lemma upsert_gate_holds_keep:
  assumes "upsert_gate k' i now t c s = Inr (got, s')" and "holds_until i t k s"
  shows "holds_until i t k s'"
  using assms(1)
proof (cases rule: upsert_gate_cases)
  case (extended g)
  then show ?thesis using holds_until_update [OF extended(4)] assms(2) by (auto simp: holds_until_iff)
qed (use assms(2) in \<open>auto simp: holds_until_iff\<close>)

lemma upsert_gate_not_got:
  assumes "unique_gates s" and "upsert_gate k i now t c s = Inr (False, s')"
  shows "s' = s" and "\<forall>g \<in> set (own_gates i s). g_gate_key g \<noteq> k"
proof -
  from assms(2) obtain g where g: "find_row (\<lambda>g. g_gate_key g = k) (job_gates s) = Some g"
      "g_job_id g \<noteq> i" and "s' = s"
    by (auto simp: upsert_gate_def split: option.splits if_splits)
  then show "s' = s" by simp
  show "\<forall>g \<in> set (own_gates i s). g_gate_key g \<noteq> k"
    using unique_gates_key [OF assms(1)] find_row_Some [OF g(1)] g(2) by (auto simp: own_gates_def)
qed

lemma upsert_gate_own_keys:
  assumes "upsert_gate k i now t c s = Inr (got, s')"
  shows "g_gate_key ` set (own_gates i s') \<subseteq> g_gate_key ` set (own_gates i s) \<union> (if got then {k} else {})"
  using assms
proof (cases rule: upsert_gate_cases)
  case (extended g)
  then show ?thesis by (auto simp: own_gates_def elim!: in_set_update_whereE split: if_splits)
qed (auto simp: own_gates_def)

subsection \<open>The acquisition loop under interference\<close>

lemma holds_until_rely: "rely i env \<Longrightarrow> holds_until i t k (env n s) = holds_until i t k s"
  by (simp add: rely_def holds_until_def)

lemma acquire_loop_unique:
  assumes "rely i env" and "unique_gates s" and "acquire_loop env n i ks now t c acq s = (r, s')"
  shows "unique_gates s'"
  using assms(2,3)
proof (induction ks arbitrary: n acq s)
  case (Cons k ks)
  have u: "unique_gates (env n s)" using assms(1) Cons.prems(1) by (simp add: rely_def)
  show ?case
  proof (cases "upsert_gate k i now t c (env n s)")
    case (Inl e)
    with Cons.prems(2) u show ?thesis by simp
  next
    case (Inr p)
    obtain got s1 where p: "p = (got, s1)" by force
    show ?thesis
      using Cons.IH [OF upsert_gate_unique [OF u Inr [unfolded p]]] Cons.prems(2) Inr p by simp
  qed
qed simp

text \<open>
  What the loop has established when it ends: the gates in \<open>acq\<close> are held to the new expiry, and of
  the requested gates the job owns none but those.
\<close>

lemma acquire_loop_result:
  assumes "rely i env" and "unique_gates s"
    and "acquire_loop env n i ks now t c acq s = (Inr acq', s')"
    and "\<forall>k \<in> set acq. holds_until i t k s"
    and "g_gate_key ` set (own_gates i s) \<inter> K \<subseteq> set acq \<union> set ks"
  shows "(\<forall>k \<in> set acq'. holds_until i t k s') \<and>
    g_gate_key ` set (own_gates i s') \<inter> K \<subseteq> set acq' \<and>
    (length acq' = length acq + length ks \<longrightarrow> acq' = acq @ ks) \<and>
    length acq' \<le> length acq + length ks"
  using assms(2-)
proof (induction ks arbitrary: n acq s)
  case Nil
  then show ?case by auto
next
  case (Cons k ks)
  let ?s0 = "env n s"
  have u: "unique_gates ?s0" and own: "own_gates i ?s0 = own_gates i s"
    using assms(1) Cons.prems(1) by (simp_all add: rely_def)
  obtain got s1 where up: "upsert_gate k i now t c ?s0 = Inr (got, s1)"
    using Cons.prems(2) by (auto split: sum.splits)
  let ?acq = "if got then acq @ [k] else acq"
  have u1: "unique_gates s1" by (rule upsert_gate_unique [OF u up])
  have run: "acquire_loop env (Suc n) i ks now t c ?acq s1 = (Inr acq', s')"
    using Cons.prems(2) up by simp
  have held: "\<forall>k' \<in> set ?acq. holds_until i t k' s1"
    using upsert_gate_holds_keep [OF up] Cons.prems(3) upsert_gate_holds up
    by (auto simp: holds_until_rely [OF assms(1)])
  have sub: "g_gate_key ` set (own_gates i s1) \<inter> K \<subseteq> set ?acq \<union> set ks"
  proof (cases got)
    case True
    then show ?thesis using upsert_gate_own_keys [OF up] Cons.prems(4) own by auto
  next
    case False
    with up have "upsert_gate k i now t c ?s0 = Inr (False, s1)" by simp
    from upsert_gate_not_got [OF u this] have "s1 = ?s0" "k \<notin> g_gate_key ` set (own_gates i ?s0)"
      by auto
    then show ?thesis using Cons.prems(4) own by auto
  qed
  from Cons.IH [OF u1 run held sub] show ?case by (cases got) auto
qed

lemma release_own:
  "own_gates i (snd (releaseGates i (Some ks) s)) = filter (\<lambda>g. g_gate_key g \<notin> set ks) (own_gates i s)"
  by (auto simp: releaseGates_def own_gates_def delete_where_def intro: filter_cong)

lemma acquireGates_unique:
  assumes "rely i env" and "unique_gates s" and "acquireGates env i ks ttl c now s = (r, s')"
  shows "unique_gates s'"
proof -
  have u: "unique_gates (env n x)" if "unique_gates x" for n x using assms(1) that by (simp add: rely_def)
  have "unique_gates (env 0 (snd (cleanupExpiredGates now s)))"
    by (intro u unique_gates_cleanup assms(2))
  note loop = acquire_loop_unique [OF assms(1) this]
  show ?thesis
    using assms(2,3) unique_gates_cleanup [OF assms(2)]
    by (auto simp: acquireGates_def Let_def split: if_splits prod.splits sum.splits
        intro!: u unique_gates_release dest: loop)
qed

text \<open>The result of an acquisition among other clients: every requested gate, or none.\<close>

lemma acquireGates_all_or_nothing:
  assumes "rely i env" and "unique_gates s" and "acquireGates env i ks ttl c now s = (Inr r, s')"
  shows "if success r then acquired r = ks \<and> (\<forall>k \<in> set ks. holds_until i (now + ttl * 1000) k s')
    else acquired r = [] \<and>
      (own_gates i s' = own_gates i (snd (cleanupExpiredGates now s)) \<or>
       (\<forall>g \<in> set (own_gates i s'). g_gate_key g \<notin> set ks))"
proof (cases "ks = []")
  case True
  then show ?thesis using assms(3) by (auto simp: acquireGates_def)
next
  case ks: False
  let ?t = "now + ttl * 1000"
  let ?s1 = "env 0 (snd (cleanupExpiredGates now s))"
  have own: "own_gates i (env n x) = own_gates i x" for n x using assms(1) by (simp add: rely_def)
  have u1: "unique_gates ?s1"
    using assms(1) unique_gates_cleanup [OF assms(2)] by (simp add: rely_def)
  show ?thesis
  proof (cases "held_by_others i ks now ?s1 = []")
    case False
    then show ?thesis using assms(3) ks own by (auto simp: acquireGates_def Let_def)
  next
    case True
    obtain acq s2 where loop: "acquire_loop env 1 i ks now ?t c [] ?s1 = (Inr acq, s2)"
      using assms(3) ks True by (auto simp: acquireGates_def Let_def split: prod.splits sum.splits)
    note res = acquire_loop_result [OF assms(1) u1 loop, of "set ks", simplified]
    show ?thesis
    proof (cases "length acq = length ks")
      case eq: True
      then show ?thesis using assms(3) ks True loop res by (auto simp: acquireGates_def Let_def)
    next
      case ne: False
      have "acquired r = [] \<and> \<not> success r"
        using assms(3) ks True loop ne by (auto simp: acquireGates_def Let_def)
      moreover have "own_gates i s' = filter (\<lambda>g. g_gate_key g \<notin> set acq) (own_gates i s2)"
        using assms(3) ks True loop ne own release_own
        by (auto simp: acquireGates_def Let_def)
      ultimately show ?thesis using res by auto
    qed
  qed
qed

subsection \<open>A call that runs alone\<close>

lemma upsert_gate_free:
  assumes "\<forall>g \<in> set (job_gates s). g_gate_key g = k \<longrightarrow> g_job_id g = i"
    and "\<exists>j \<in> set (jobs s). j_id j = i"
  shows "\<exists>s'. upsert_gate k i now t c s = Inr (True, s') \<and> jobs s' = jobs s \<and>
    (\<forall>g \<in> set (job_gates s'). g_job_id g = i \<or> g \<in> set (job_gates s)) \<and>
    (\<forall>g. g_gate_key g \<noteq> k \<longrightarrow> (g \<in> set (job_gates s') \<longleftrightarrow> g \<in> set (job_gates s)))"
proof (cases "find_row (\<lambda>g. g_gate_key g = k) (job_gates s)")
  case None
  then show ?thesis using assms(2) by (auto simp: upsert_gate_def)
next
  case (Some g)
  with find_row_Some [OF Some] assms(1) have "g_job_id g = i" by auto
  then show ?thesis using Some assms(1)
    by (auto simp: upsert_gate_def set_update_where image_iff)
qed

lemma acquire_loop_alone:
  assumes "\<forall>g \<in> set (job_gates s). g_gate_key g \<in> set ks \<longrightarrow> g_job_id g = i"
    and "\<exists>j \<in> set (jobs s). j_id j = i"
  shows "\<exists>s'. acquire_loop alone n i ks now t c acq s = (Inr (acq @ ks), s') \<and> jobs s' = jobs s \<and>
    (\<forall>g. g_gate_key g \<notin> set ks \<longrightarrow> (g \<in> set (job_gates s') \<longleftrightarrow> g \<in> set (job_gates s)))"
  using assms
proof (induction ks arbitrary: n acq s)
  case (Cons k ks)
  obtain s1 where s1: "upsert_gate k i now t c s = Inr (True, s1)" "jobs s1 = jobs s"
    "\<forall>g \<in> set (job_gates s1). g_job_id g = i \<or> g \<in> set (job_gates s)"
    "\<forall>g. g_gate_key g \<noteq> k \<longrightarrow> (g \<in> set (job_gates s1) \<longleftrightarrow> g \<in> set (job_gates s))"
    using upsert_gate_free [of s k i now t c] Cons.prems by auto
  have "\<forall>g \<in> set (job_gates s1). g_gate_key g \<in> set ks \<longrightarrow> g_job_id g = i"
    using s1(3) Cons.prems(1) by auto
  from Cons.IH [OF this, of "Suc n" "acq @ [k]"] s1 Cons.prems(2) show ?case by auto
qed simp

text \<open>
  The abstract lease: a map from keys to owners. A request is granted when no requested key has
  another owner, and then all of them belong to the requester.
\<close>

definition lease_conflict :: "'o \<Rightarrow> 'k set \<Rightarrow> ('k \<rightharpoonup> 'o) \<Rightarrow> bool" where
  "lease_conflict i ks h = (\<exists>k \<in> ks. \<exists>i'. h k = Some i' \<and> i' \<noteq> i)"

definition lease_acquire :: "'o \<Rightarrow> 'k set \<Rightarrow> ('k \<rightharpoonup> 'o) \<Rightarrow> ('k \<rightharpoonup> 'o)" where
  "lease_acquire i ks h = (if lease_conflict i ks h then h else (\<lambda>k. if k \<in> ks then Some i else h k))"

definition lease_release :: "'o \<Rightarrow> 'k set \<Rightarrow> ('k \<rightharpoonup> 'o) \<Rightarrow> ('k \<rightharpoonup> 'o)" where
  "lease_release i ks h = (\<lambda>k. if k \<in> ks \<and> h k = Some i then None else h k)"

definition lease_ok :: "int \<Rightarrow> string \<Rightarrow> db \<Rightarrow> bool" where
  "lease_ok ttl i s = (0 < ttl \<and> unique_gates s \<and> exists_row (\<lambda>j. j_id j = i) (jobs s))"

lemma held_by_others_conflict:
  "unique_gates s \<Longrightarrow> held_by_others i ks now s \<noteq> [] \<longleftrightarrow> lease_conflict i (set ks) (holder now s)"
  by (auto simp: lease_conflict_def holder_iff held_by_others_def filter_empty_conv)

lemma holder_frame:
  assumes "unique_gates s" "unique_gates s'"
    and "\<forall>g. g_gate_key g = k \<longrightarrow> (g \<in> set (job_gates s') \<longleftrightarrow> g \<in> set (job_gates s))"
  shows "holder now s' k = holder now s k"
proof -
  have "holder now s' k = Some i \<longleftrightarrow> holder now s k = Some i" for i
    using assms by (auto simp: holder_iff)
  then show ?thesis by (metis not_None_eq)
qed

lemma acquireGates_refines:
  assumes "lease_ok ttl i s"
  shows "\<exists>r s'. acquireGates alone i ks ttl c now s = (Inr r, s') \<and>
    success r = (\<not> lease_conflict i (set ks) (holder now s)) \<and>
    set (blocked_by r) = {k \<in> set ks. \<exists>i'. i' \<noteq> i \<and> holder now s k = Some i'} \<and>
    holder now s' = lease_acquire i (set ks) (holder now s) \<and> jobs s' = jobs s \<and> unique_gates s'"
proof (cases "ks = []")
  case True
  then show ?thesis using assms
    by (auto simp: acquireGates_def lease_conflict_def lease_acquire_def lease_ok_def)
next
  case ks: False
  let ?t = "now + ttl * 1000"
  let ?s1 = "snd (cleanupExpiredGates now s)"
  have u: "unique_gates s" and u1: "unique_gates ?s1" and ttl: "0 < ttl"
    using assms unique_gates_cleanup by (auto simp: lease_ok_def)
  have h1: "holder now ?s1 = holder now s" by (rule ext) simp
  show ?thesis
  proof (cases "held_by_others i ks now ?s1 = []")
    case False
    then have conf: "lease_conflict i (set ks) (holder now s)"
      using held_by_others_conflict [OF u1, of i ks now] h1 by auto
    have "acquireGates alone i ks ttl c now s =
      (Inr \<lparr>success = False, acquired = [], blocked_by = map g_gate_key (held_by_others i ks now ?s1)\<rparr>, ?s1)"
      using False ks by (simp add: acquireGates_def Let_def)
    then show ?thesis using conf u1 h1 held_by_others_iff [OF u1, where i = i and keys = ks and now = now]
      by (auto simp: lease_acquire_def)
  next
    case True
    then have conf: "\<not> lease_conflict i (set ks) (holder now s)"
      using held_by_others_conflict [OF u1, of i ks now] h1 by auto
    have free: "\<forall>g \<in> set (job_gates ?s1). g_gate_key g \<in> set ks \<longrightarrow> g_job_id g = i"
      using True by (auto simp: held_by_others_def filter_empty_conv)
    obtain s' where s': "acquire_loop alone 1 i ks now ?t c [] ?s1 = (Inr ks, s')" "jobs s' = jobs s"
      "\<forall>g. g_gate_key g \<notin> set ks \<longrightarrow> (g \<in> set (job_gates s') \<longleftrightarrow> g \<in> set (job_gates ?s1))"
      using acquire_loop_alone [OF free, of 1 now ?t c "[]"] assms by (auto simp: lease_ok_def)
    have run: "acquireGates alone i ks ttl c now s =
      (Inr \<lparr>success = True, acquired = ks, blocked_by = []\<rparr>, s')"
      using True ks s'(1) by (simp add: acquireGates_def Let_def)
    have u': "unique_gates s'" by (rule acquireGates_unique [OF rely_alone u run])
    have "\<forall>k \<in> set ks. holds_until i ?t k s'"
      using acquireGates_all_or_nothing [OF rely_alone u run] by simp
    then have "holder now s' k = Some i" if "k \<in> set ks" for k
      using that holds_until_holder [OF u', of i ?t k now] ttl by simp
    moreover have "holder now s' k = holder now s k" if "k \<notin> set ks" for k
      using holder_frame [OF u1 u', of k] s'(3) that h1 by auto
    ultimately have "holder now s' = lease_acquire i (set ks) (holder now s)"
      using conf by (auto simp: lease_acquire_def fun_eq_iff)
    then show ?thesis using run conf s'(2) u' by (auto simp: lease_conflict_def)
  qed
qed

lemma releaseGates_refines:
  assumes "unique_gates s" and "ks \<noteq> []"
  shows "holder now (snd (releaseGates i (Some ks) s)) = lease_release i (set ks) (holder now s)"
proof -
  let ?s' = "snd (releaseGates i (Some ks) s)"
  have u': "unique_gates ?s'" by (rule unique_gates_release [OF assms(1)])
  have mem: "g \<in> set (job_gates ?s') \<longleftrightarrow>
      g \<in> set (job_gates s) \<and> \<not> (g_job_id g = i \<and> g_gate_key g \<in> set ks)" for g
    using assms(2) by (auto simp: releaseGates_def)
  have "holder now ?s' k = Some i' \<longleftrightarrow> lease_release i (set ks) (holder now s) k = Some i'" for k i'
  proof -
    have "holder now ?s' k = Some i' \<longleftrightarrow> holder now s k = Some i' \<and> \<not> (i' = i \<and> k \<in> set ks)"
      using holder_iff [OF u'] holder_iff [OF assms(1)] mem by auto
    then show ?thesis by (auto simp: lease_release_def)
  qed
  then have "holder now ?s' k = lease_release i (set ks) (holder now s) k" for k
    by (metis not_None_eq)
  then show ?thesis by blast
qed

subsection \<open>The lease interface\<close>

text \<open>
  What the scheduler relies on: the calls, the owners they show at one moment, and that the calls act
  on the owners as the abstract lease does.
\<close>

locale lease =
  fixes view :: "'s \<Rightarrow> 'k \<rightharpoonup> 'o"
    and ok :: "'o \<Rightarrow> 's \<Rightarrow> bool"
    and acquire :: "'o \<Rightarrow> 'k list \<Rightarrow> 's \<Rightarrow> bool \<times> 's"
    and release :: "'o \<Rightarrow> 'k list \<Rightarrow> 's \<Rightarrow> 's"
  assumes acquire_granted: "ok i s \<Longrightarrow> fst (acquire i ks s) = (\<not> lease_conflict i (set ks) (view s))"
    and acquire_view: "ok i s \<Longrightarrow> view (snd (acquire i ks s)) = lease_acquire i (set ks) (view s)"
    and acquire_ok: "ok i s \<Longrightarrow> ok i' s \<Longrightarrow> ok i' (snd (acquire i ks s))"
    and release_view: "ok i s \<Longrightarrow> view (release i ks s) = lease_release i (set ks) (view s)"
    and release_ok: "ok i s \<Longrightarrow> ok i' s \<Longrightarrow> ok i' (release i ks s)"
begin

lemma exclusion:
  assumes "ok a s" "ok b s" "a \<noteq> b" "fst (acquire a ks s)" "k \<in> set ks" "k \<in> set ks'"
  shows "\<not> fst (acquire b ks' (snd (acquire a ks s)))"
proof -
  have "view (snd (acquire a ks s)) k = Some a"
    using assms acquire_granted acquire_view by (simp add: lease_acquire_def)
  then have "lease_conflict b (set ks') (view (snd (acquire a ks s)))"
    using assms(3,6) by (auto simp: lease_conflict_def)
  then show ?thesis using acquire_granted acquire_ok [OF assms(1,2)] by simp
qed

lemma reentrant:
  assumes "ok a s" "fst (acquire a ks s)" "set ks' \<subseteq> set ks"
  shows "fst (acquire a ks' (snd (acquire a ks s)))"
proof -
  have "view (snd (acquire a ks s)) = (\<lambda>k. if k \<in> set ks then Some a else view s k)"
    using assms acquire_granted acquire_view by (simp add: lease_acquire_def)
  then have "\<not> lease_conflict a (set ks') (view (snd (acquire a ks s)))"
    using assms(3) by (auto simp: lease_conflict_def)
  then show ?thesis using acquire_granted acquire_ok [OF assms(1,1)] by simp
qed

lemma handover:
  assumes "ok a s" "ok b s" "fst (acquire a ks s)"
  shows "fst (acquire b ks (release a ks (snd (acquire a ks s))))"
proof -
  let ?s1 = "snd (acquire a ks s)"
  have ok: "ok a ?s1" "ok b ?s1" using acquire_ok assms by blast+
  have "view ?s1 = (\<lambda>k. if k \<in> set ks then Some a else view s k)"
    using assms acquire_granted acquire_view by (simp add: lease_acquire_def)
  then have "\<not> lease_conflict b (set ks) (view (release a ks ?s1))"
    using release_view [OF ok(1)] by (auto simp: lease_conflict_def lease_release_def)
  then show ?thesis using acquire_granted release_ok [OF ok(1,2)] by simp
qed

end

definition try_acquire ::
  "int \<Rightarrow> jobject \<Rightarrow> timestamp \<Rightarrow> string \<Rightarrow> string list \<Rightarrow> db \<Rightarrow> bool \<times> db" where
  "try_acquire ttl c now i ks s =
     (case acquireGates alone i ks ttl c now s of
        (Inl e, s') \<Rightarrow> (False, s')
      | (Inr r, s') \<Rightarrow> (success r, s'))"

lemma release_jobs [simp]: "jobs (snd (releaseGates i ks s)) = jobs s"
  by (simp add: releaseGates_def split: option.split)

interpretation gate: lease "holder now" "lease_ok ttl" "try_acquire ttl c now"
    "\<lambda>i ks s. snd (releaseGates i (Some ks) s)" for now ttl c
proof unfold_locales
  fix i s ks
  assume ok: "lease_ok ttl i s"
  obtain r s' where run: "acquireGates alone i ks ttl c now s = (Inr r, s')"
    "success r = (\<not> lease_conflict i (set ks) (holder now s))"
    "holder now s' = lease_acquire i (set ks) (holder now s)" "jobs s' = jobs s" "unique_gates s'"
    using acquireGates_refines [OF ok, of ks c now] by blast
  show "fst (try_acquire ttl c now i ks s) = (\<not> lease_conflict i (set ks) (holder now s))"
    and "holder now (snd (try_acquire ttl c now i ks s)) = lease_acquire i (set ks) (holder now s)"
    by (simp_all add: try_acquire_def run)
  show "lease_ok ttl i' (snd (try_acquire ttl c now i ks s))" if "lease_ok ttl i' s" for i'
    using that run by (simp add: try_acquire_def lease_ok_def)
  show "holder now (snd (releaseGates i (Some ks) s)) = lease_release i (set ks) (holder now s)"
  proof (cases "ks = []")
    case True
    then show ?thesis by (auto simp: releaseGates_def lease_release_def)
  next
    case False
    then show ?thesis using ok releaseGates_refines by (simp add: lease_ok_def)
  qed
  show "lease_ok ttl i' (snd (releaseGates i (Some ks) s))" if "lease_ok ttl i' s" for i'
    using that unique_gates_release by (simp add: lease_ok_def)
qed

lemma acquired_until:
  assumes "lease_ok ttl a s" "fst (try_acquire ttl c now a ks s)" "k \<in> set ks"
  shows "holder later (snd (try_acquire ttl c now a ks s)) k = (if later < now + ttl * 1000 then Some a else None)"
proof -
  obtain r s' where run: "acquireGates alone a ks ttl c now s = (Inr r, s')" "unique_gates s'"
    using acquireGates_refines [OF assms(1), of ks c now] by blast
  have "unique_gates s" using assms(1) by (simp add: lease_ok_def)
  then have "holds_until a (now + ttl * 1000) k s'"
    using acquireGates_all_or_nothing [OF rely_alone _ run(1)] assms(2,3) run(1) by (simp add: try_acquire_def split: if_splits)
  then obtain g where g: "g \<in> set (job_gates s')" "g_job_id g = a" "g_gate_key g = k" "g_ttl_expires_at g = now + ttl * 1000"
    by (auto simp: holds_until_iff)
  have u: "g' = g" if "g' \<in> set (job_gates s')" "g_gate_key g' = k" for g'
    using that g run(2) unfolding unique_gates_def distinct_map by (metis inj_onD)
  have "find_row (\<lambda>g. g_gate_key g = k \<and> later < g_ttl_expires_at g) (job_gates s') = None"
    if "\<not> later < now + ttl * 1000"
    unfolding find_row_None
  proof (intro ballI notI)
    fix g' assume g': "g' \<in> set (job_gates s')" "g_gate_key g' = k \<and> later < g_ttl_expires_at g'"
    then have "g' = g" using u by blast
    then show False using g'(2) g(4) that by simp
  qed
  moreover have "later < now + ttl * 1000 \<Longrightarrow> holder later s' k = Some a"
    using g run(2) by (auto simp: holder_iff)
  ultimately show ?thesis by (simp add: try_acquire_def run(1) holder_def)
qed

lemma acquired_ok:
  assumes "lease_ok ttl a s" "lease_ok ttl' b s"
  shows "lease_ok ttl' b (snd (try_acquire ttl c now a ks s))"
proof -
  have "lease_ok ttl b s" using assms by (simp add: lease_ok_def)
  from gate.acquire_ok [OF assms(1) this] show ?thesis using assms(2) by (simp add: lease_ok_def)
qed

text \<open>The lease runs until its end and not longer, whoever asks in between.\<close>

lemma lease_runs:
  assumes "lease_ok ttl a s" "lease_ok ttl' b s" "a \<noteq> b" "fst (try_acquire ttl c now a ks s)" "set ks \<inter> set ks' \<noteq> {}"
    "later < now + ttl * 1000"
  shows "\<not> fst (try_acquire ttl' c' later b ks' (snd (try_acquire ttl c now a ks s)))"
proof -
  let ?s1 = "snd (try_acquire ttl c now a ks s)"
  have "lease_ok ttl' b ?s1" using assms(1,2) by (rule acquired_ok)
  moreover have "lease_conflict b (set ks') (holder later ?s1)"
    using acquired_until [OF assms(1,4), of _ later] assms(3,5,6) by (auto simp: lease_conflict_def)
  ultimately show ?thesis using gate.acquire_granted by blast
qed

lemma lease_ends:
  assumes "lease_ok ttl a s" "lease_ok ttl' b s" "fst (try_acquire ttl c now a ks s)" "now + ttl * 1000 \<le> later"
  shows "fst (try_acquire ttl' c' later b ks (snd (try_acquire ttl c now a ks s)))"
proof -
  let ?s1 = "snd (try_acquire ttl c now a ks s)"
  have "lease_ok ttl' b ?s1" using assms(1,2) by (rule acquired_ok)
  moreover have "\<not> lease_conflict b (set ks) (holder later ?s1)"
    using acquired_until [OF assms(1,3), of _ later] assms(4) by (auto simp: lease_conflict_def)
  ultimately show ?thesis using gate.acquire_granted by blast
qed

lemma lease_handed_over:
  assumes "lease_ok ttl a s" "lease_ok ttl' b s" "fst (try_acquire ttl c now a ks s)"
  shows "fst (try_acquire ttl' c' later b ks (snd (releaseGates a (Some ks) (snd (try_acquire ttl c now a ks s)))))"
proof -
  let ?s1 = "snd (try_acquire ttl c now a ks s)"
  let ?s2 = "snd (releaseGates a (Some ks) ?s1)"
  have ok1: "lease_ok ttl a ?s1" "lease_ok ttl' b ?s1" using assms(1,2) by (auto intro: acquired_ok)
  then have "lease_ok ttl b ?s1" by (simp add: lease_ok_def)
  then have "lease_ok ttl' b ?s2" using gate.release_ok [OF ok1(1), of b ks] ok1(2) by (simp add: lease_ok_def)
  moreover have "holder later ?s2 = lease_release a (set ks) (holder later ?s1)" by (rule gate.release_view [OF ok1(1)])
  then have "\<not> lease_conflict b (set ks) (holder later ?s2)"
    using acquired_until [OF assms(1,3), of _ later] by (auto simp: lease_conflict_def lease_release_def)
  ultimately show ?thesis using gate.acquire_granted by blast
qed

end
