(* ===== verification/Job_Lifecycle.thy ===== *)
theory Job_Lifecycle
  imports Job_Review Job_Scheduling Job_Gates Job_Hierarchy Job_Ids
begin

section \<open>The life of a job: the store's invariant and its steps\<close>

text \<open>
  The operations of the store as one transition system. \<open>store_wf\<close> is the well-formedness of the
  tables: the schema's keys and references, and the numbering of the attempts of a job from 1
  without a gap, on which the two ways of numbering a new attempt rely (\<^verbatim>\<open>COUNT(*) + 1\<close> in
  \<^verbatim>\<open>claim\<close>, \<^verbatim>\<open>MAX + 1\<close> in \<^verbatim>\<open>rejectReview\<close>). \<open>legal_move\<close> is what an operation may do to a job.

  The interface \<open>store_update\<close> is the contract of an operation that changes rows in place;
  \<open>lawful_update\<close> extends it with the phase machine. Each operation of the store is an
  interpretation of one of them, or has the lemmas of an insertion.
\<close>

definition job_known :: "db \<Rightarrow> string \<Rightarrow> bool" where
  "job_known s i = exists_row (\<lambda>j. j_id j = i) (jobs s)"

definition numbered :: "db \<Rightarrow> string \<Rightarrow> bool" where
  "numbered s i =
     (map a_attempt_number (attempts_of i s) = map int [1..<Suc (length (attempts_of i s))])"

definition relation_key :: "job_relation \<Rightarrow> string \<times> string \<times> relation_type" where
  "relation_key r = (r_job_id r, r_related_job_id r, r_relation_type r)"

definition store_wf :: "db \<Rightarrow> bool" where
  "store_wf s =
     (distinct (map j_id (jobs s)) \<and>
      (\<forall>j \<in> set (jobs s). \<forall>p \<in> set_option (j_parent_id j). job_known s p) \<and>
      (\<forall>j \<in> set (jobs s). exists_row (\<lambda>p. p_id p = j_project_id j) (projects s)) \<and>
      distinct (map a_id (job_attempts s)) \<and>
      (\<forall>a \<in> set (job_attempts s). job_known s (a_job_id a) \<and> numbered s (a_job_id a)) \<and>
      distinct (map relation_key (job_relations s)) \<and>
      (\<forall>r \<in> set (job_relations s). job_known s (r_job_id r) \<and> job_known s (r_related_job_id r) \<and>
         r_job_id r \<noteq> r_related_job_id r) \<and>
      unique_gates s \<and> (\<forall>g \<in> set (job_gates s). job_known s (g_job_id g)))"

definition same_job :: "job \<Rightarrow> job \<Rightarrow> bool" where
  "same_job j j' =
     (j_id j' = j_id j \<and> j_project_id j' = j_project_id j \<and> j_parent_id j' = j_parent_id j \<and>
      j_review_required j' = j_review_required j)"

definition legal_move :: "job \<Rightarrow> job \<Rightarrow> bool" where
  "legal_move j j' =
     (same_job j j' \<and>
      (j_phase j' = j_phase j \<and> j_closed_at j' = j_closed_at j \<or>
       canTransition (j_phase j) (j_phase j') \<and>
       (j_phase j' = Done \<longrightarrow> j_review_required j = ReviewNone \<or> j_phase j = Review) \<and>
       (terminal_phase (j_phase j') \<longrightarrow> j_closed_at j' \<noteq> None)))"

definition same_attempt :: "attempt \<Rightarrow> attempt \<Rightarrow> bool" where
  "same_attempt a a' =
     (a_id a' = a_id a \<and> a_job_id a' = a_job_id a \<and> a_attempt_number a' = a_attempt_number a)"

definition gate_key :: "job_gate \<Rightarrow> string \<times> string" where
  "gate_key g = (g_gate_key g, g_job_id g)"

text \<open>No gate changes hands or appears.\<close>

definition gates_kept :: "db \<Rightarrow> db \<Rightarrow> bool" where
  "gates_kept s s' =
     (gate_key ` set (job_gates s') \<subseteq> gate_key ` set (job_gates s) \<and> (unique_gates s \<longrightarrow> unique_gates s'))"

lemma same_job_refl [simp]: "same_job j j"
  by (simp add: same_job_def)

lemma legal_move_refl [simp]: "legal_move j j"
  by (simp add: legal_move_def)

lemma same_attempt_refl [simp]: "same_attempt a a"
  by (simp add: same_attempt_def)

lemma legal_move_same_job: "legal_move j j' \<Longrightarrow> same_job j j'"
  by (simp add: legal_move_def)

lemma all2_update_where:
  assumes "\<And>r. R r r" and "\<And>r. r \<in> set rows \<Longrightarrow> P r \<Longrightarrow> R r (f r)"
  shows "list_all2 R rows (update_where P f rows)"
  using assms(2) by (induction rows) (auto simp: assms(1))

lemma all2_refl: "(\<And>r. R r r) \<Longrightarrow> list_all2 R rows rows"
  by (simp add: list.rel_refl)

lemma all2_map_eq: "list_all2 R xs ys \<Longrightarrow> (\<And>x y. R x y \<Longrightarrow> k y = k x) \<Longrightarrow> map k ys = map k xs"
  by (induction rule: list_all2_induct) auto

lemma all2_filter:
  "list_all2 R xs ys \<Longrightarrow> (\<And>x y. R x y \<Longrightarrow> Q y = Q x) \<Longrightarrow> list_all2 R (filter Q xs) (filter Q ys)"
  by (induction rule: list_all2_induct) auto

lemma all2_in_right: "list_all2 R xs ys \<Longrightarrow> y \<in> set ys \<Longrightarrow> \<exists>x \<in> set xs. R x y"
  by (metis in_set_conv_nth list_all2_conv_all_nth)

lemma all2_in_left: "list_all2 R xs ys \<Longrightarrow> x \<in> set xs \<Longrightarrow> \<exists>y \<in> set ys. R x y"
  by (metis in_set_conv_nth list_all2_conv_all_nth)

lemma store_wf_job:
  assumes "store_wf s" and "findById i s = Some j" and "r \<in> set (jobs s)" and "j_id r = i"
  shows "r = j"
proof -
  have "distinct (map j_id (jobs s))" using assms(1) by (simp add: store_wf_def)
  from find_row_key [OF this assms(3)] assms(2,4) show ?thesis by (simp add: findById_def)
qed

lemma findById_iff: "store_wf s \<Longrightarrow> findById i s = Some j \<longleftrightarrow> j \<in> set (jobs s) \<and> j_id j = i"
  using find_row_key_iff [of j_id "jobs s" i j] by (simp add: findById_def store_wf_def)

text \<open>Attempts with the same job, numbers and ids are numbered alike.\<close>

lemma attempts_of_all2:
  assumes "list_all2 same_attempt (job_attempts s) (job_attempts s')"
  shows "list_all2 same_attempt (attempts_of i s) (attempts_of i s')"
  unfolding attempts_of_def by (rule all2_filter [OF assms]) (auto simp: same_attempt_def)

lemma numbered_all2:
  assumes "list_all2 same_attempt (job_attempts s) (job_attempts s')"
  shows "numbered s' i = numbered s i"
proof -
  note eq = attempts_of_all2 [OF assms, of i]
  have "map a_attempt_number (attempts_of i s') = map a_attempt_number (attempts_of i s)"
    by (rule all2_map_eq [OF eq]) (simp add: same_attempt_def)
  then show ?thesis using list_all2_lengthD [OF eq] by (simp add: numbered_def)
qed

lemma job_known_all2: "list_all2 same_job (jobs s) (jobs s') \<Longrightarrow> job_known s' = job_known s"
proof
  fix i
  assume "list_all2 same_job (jobs s) (jobs s')"
  then have "map j_id (jobs s') = map j_id (jobs s)" by (rule all2_map_eq) (simp add: same_job_def)
  then have "j_id ` set (jobs s') = j_id ` set (jobs s)" by (metis list.set_map)
  then show "job_known s' i = job_known s i"
    unfolding job_known_def exists_row_iff by (metis (no_types, lifting) imageE image_eqI)
qed

subsection \<open>Updates in place\<close>

locale store_update =
  fixes f :: "db \<Rightarrow> db"
  assumes update_jobs: "store_wf s \<Longrightarrow> list_all2 same_job (jobs s) (jobs (f s))"
    and update_attempts: "store_wf s \<Longrightarrow> list_all2 same_attempt (job_attempts s) (job_attempts (f s))"
    and update_relations: "store_wf s \<Longrightarrow> \<exists>P. job_relations (f s) = filter P (job_relations s)"
    and update_gates: "store_wf s \<Longrightarrow> gates_kept s (f s)"
    and update_projects: "store_wf s \<Longrightarrow> projects (f s) = projects s"
begin

lemma known: "store_wf s \<Longrightarrow> job_known (f s) = job_known s"
  by (rule job_known_all2 [OF update_jobs])

lemma keeps_wf:
  assumes wf: "store_wf s"
  shows "store_wf (f s)"
proof -
  note jobs' = update_jobs [OF wf] and atts' = update_attempts [OF wf]
  obtain P where P: "job_relations (f s) = filter P (job_relations s)" using update_relations [OF wf] ..
  have "unique_gates (f s)" using update_gates [OF wf] wf by (simp add: gates_kept_def store_wf_def)
  moreover have "\<forall>g \<in> set (job_gates (f s)). job_known s (g_job_id g)"
  proof
    fix g assume "g \<in> set (job_gates (f s))"
    then obtain g0 where "g0 \<in> set (job_gates s)" "gate_key g = gate_key g0"
      using update_gates [OF wf] unfolding gates_kept_def by blast
    then show "job_known s (g_job_id g)" using wf by (simp add: store_wf_def gate_key_def)
  qed
  moreover have "map j_id (jobs (f s)) = map j_id (jobs s)"
    by (rule all2_map_eq [OF jobs']) (simp add: same_job_def)
  moreover have "map a_id (job_attempts (f s)) = map a_id (job_attempts s)"
    by (rule all2_map_eq [OF atts']) (simp add: same_attempt_def)
  moreover have "\<forall>j \<in> set (jobs (f s)). (\<forall>p \<in> set_option (j_parent_id j). job_known s p) \<and>
      exists_row (\<lambda>p. p_id p = j_project_id j) (projects s)"
    using all2_in_right [OF jobs'] wf unfolding store_wf_def same_job_def by metis
  moreover have "\<forall>a \<in> set (job_attempts (f s)). job_known s (a_job_id a) \<and> numbered s (a_job_id a)"
    using all2_in_right [OF atts'] wf unfolding store_wf_def same_attempt_def by metis
  moreover have "distinct (map relation_key (job_relations (f s)))"
    using wf P by (simp add: store_wf_def distinct_map_filter)
  ultimately show ?thesis
    using wf P unfolding store_wf_def known [OF wf] update_projects [OF wf] numbered_all2 [OF atts']
    by auto
qed

end

locale lawful_update = store_update +
  assumes update_legal: "store_wf s \<Longrightarrow> list_all2 legal_move (jobs s) (jobs (f s))"

text \<open>Operations that only touch the columns of attempts, or only those of jobs that no law speaks of.\<close>

lemma all2_same: "list_all2 same_job (jobs s) (jobs s)" "list_all2 legal_move (jobs s) (jobs s)"
  "list_all2 same_attempt (job_attempts s) (job_attempts s)"
  by (simp_all add: all2_refl)

lemma filter_all: "\<exists>P. xs = filter P xs"
  by (rule exI [of _ "\<lambda>_. True"]) simp

named_theorems rows \<open>what a row update does to a job or an attempt\<close>

lemma row_moves [rows]:
  "canTransition (j_phase j) p \<Longrightarrow>
     (p = Done \<longrightarrow> j_review_required j = ReviewNone \<or> j_phase j = Review) \<Longrightarrow> legal_move j (set_phase p now j)"
  "j_phase j = Active \<Longrightarrow> legal_move j (back_to_ready now j)"
  "j_phase j \<in> {Ready, Active} \<Longrightarrow> legal_move j (activate agent now j)"
  "j_phase j = Active \<Longrightarrow> legal_move j (submit_row now j)"
  "j_phase j = Review \<Longrightarrow> legal_move j (approve_row reviewer comment now j)"
  "j_phase j = Review \<Longrightarrow> legal_move j (reject_row reviewer now j)"
  "legal_move j (clear_gates_row now j)"
  "same_job j (requeue_row u now j)"
  "same_attempt a (finish_attempt st res now a)"
  "same_attempt a (start_attempt cur agent h now a)"
  "same_attempt a (end_attempt st summary now a)"
  by (auto simp: legal_move_def same_job_def same_attempt_def set_phase_def back_to_ready_def
      activate_def submit_row_def approve_row_def reject_row_def close_row_def clear_gates_row_def
      requeue_row_def finish_attempt_def start_attempt_def end_attempt_def canTransition_def
      terminal_phase_def Let_def split: option.split)

text \<open>
  The closing of jobs by a cancellation or a failure runs in several statements; \<open>closing\<close> is what
  they do together to a job.
\<close>

definition closing :: "job \<Rightarrow> job \<Rightarrow> bool" where
  "closing j j' =
     (same_job j j' \<and>
      (j_phase j' = j_phase j \<and> j_closed_at j' = j_closed_at j \<or>
       \<not> terminal_phase (j_phase j) \<and> j_phase j' = Cancelled \<and> j_closed_at j' \<noteq> None))"

lemma closing_refl [simp]: "closing j j"
  by (simp add: closing_def)

lemma closing_trans: "closing a b \<Longrightarrow> closing b c \<Longrightarrow> closing a c"
  by (auto simp: closing_def same_job_def)

lemma closing_legal: "closing j j' \<Longrightarrow> legal_move j j'"
  by (cases "j_phase j") (auto simp: closing_def legal_move_def canTransition_def)

lemma closing_rows [rows]:
  "\<not> terminal_phase (j_phase j) \<Longrightarrow> closing j (close_row d reason now j)"
  "closing j (clear_gates_row now j)"
  by (auto simp: closing_def same_job_def close_row_def clear_gates_row_def)

definition closes :: "db \<Rightarrow> db \<Rightarrow> bool" where
  "closes s s' =
     (list_all2 closing (jobs s) (jobs s') \<and>
      list_all2 same_attempt (job_attempts s) (job_attempts s') \<and>
      job_relations s' = job_relations s \<and> projects s' = projects s \<and>
      (\<exists>P. job_gates s' = filter P (job_gates s)))"

lemma same_attempt_trans: "same_attempt a b \<Longrightarrow> same_attempt b c \<Longrightarrow> same_attempt a c"
  by (simp add: same_attempt_def)

lemma closes_trans: "closes a b \<Longrightarrow> closes b c \<Longrightarrow> closes a c"
proof -
  assume ab: "closes a b" and bc: "closes b c"
  then obtain P Q where "job_gates b = filter P (job_gates a)" "job_gates c = filter Q (job_gates b)"
    by (auto simp: closes_def)
  then have "job_gates c = filter (\<lambda>g. P g \<and> Q g) (job_gates a)" by (simp add: conj_commute)
  moreover have "list_all2 closing (jobs a) (jobs c)"
    using ab bc unfolding closes_def by (blast intro: list_all2_trans closing_trans)
  moreover have "list_all2 same_attempt (job_attempts a) (job_attempts c)"
    using ab bc unfolding closes_def by (blast intro: list_all2_trans same_attempt_trans)
  ultimately show ?thesis using ab bc unfolding closes_def by auto
qed

lemma closes_update_jobs:
  "(\<And>j. P j \<Longrightarrow> closing j (f j)) \<Longrightarrow> closes s (update_jobs P f s)"
  by (auto simp: closes_def filter_all all2_same intro: all2_update_where)

lemma closes_refl [simp]: "closes s s"
  by (auto simp: closes_def filter_all all2_same all2_refl)

lemma closes_end_current: "closes s (end_current st i why now s)"
  by (auto simp: closes_def end_current_def filter_all all2_refl all2_update_where rows
      split: option.split)

lemma closes_drop_gates: "closes s (drop_gates ids now s)"
  by (auto simp: closes_def drop_gates_def delete_where_def all2_refl all2_update_where rows)

lemma closes_backlog: "closes s s' \<Longrightarrow> closes s (close_backlog_children d why i now s')"
  unfolding close_backlog_children_def
  by (erule closes_trans, intro closes_update_jobs rows) auto

lemma closes_close:
  "closes s (drop_gates [i] now (update_jobs (\<lambda>j. j_id j = i \<and> \<not> terminal_phase (j_phase j))
     (close_row d why now) (end_current st i why now s)))"
proof (rule closes_trans [OF closes_end_current [of s st i why now]])
  let ?s1 = "end_current st i why now s"
  let ?s2 = "update_jobs (\<lambda>j. j_id j = i \<and> \<not> terminal_phase (j_phase j)) (close_row d why now) ?s1"
  have "closes ?s1 ?s2" by (rule closes_update_jobs) (simp add: closing_rows)
  then show "closes ?s1 (drop_gates [i] now ?s2)" by (rule closes_trans) (rule closes_drop_gates)
qed

lemma cancelJob_closes: "closes s (snd (cancelJob i reason now s))"
  by (simp add: cancelJob_def Let_def closes_backlog closes_close split: option.split)

definition markJobFailed_state :: "string \<Rightarrow> string option \<Rightarrow> timestamp \<Rightarrow> db \<Rightarrow> db" where
  "markJobFailed_state i reason now s =
     (case markJobFailed i reason now s of None \<Rightarrow> s | Some (r, s') \<Rightarrow> s')"

lemma cascade_cancel_closes:
  assumes "cascade_cancel i now s = Some s'"
  shows "closes s s'"
proof -
  obtain ids where ids: "cascade i s = Some ids" using cascade_total by blast
  let ?P = "\<lambda>j. j_id j \<in> set ids \<and> \<not> terminal_phase (j_phase j)"
  let ?s1 = "update_jobs ?P (close_row DispUpstreamFailed (''Upstream job '' @ i @ '' failed'') now) s"
  have s1: "closes s ?s1" by (rule closes_update_jobs) (simp add: closing_rows)
  have "s' = ?s1 \<or> s' = drop_gates (map j_id (filter ?P (jobs s))) now ?s1"
    using assms unfolding cascade_cancel_def ids by (simp add: Let_def split: if_splits)
  then show ?thesis using s1 closes_trans [OF s1 closes_drop_gates] by auto
qed

lemma markJobFailed_closes: "closes s (markJobFailed_state i reason now s)"
proof -
  have "closes s (close_backlog_children d why i now s4)"
    if "cascade_cancel i now (drop_gates [i] now (update_jobs
        (\<lambda>j. j_id j = i \<and> \<not> terminal_phase (j_phase j)) (close_row d' why' now)
        (end_current st i why' now s))) = Some s4" for d why d' why' st s4
    by (rule closes_backlog [OF closes_trans [OF closes_close cascade_cancel_closes [OF that]]])
  then show ?thesis
    by (auto simp: markJobFailed_state_def markJobFailed_def Let_def closes_close split: option.split)
qed

subsection \<open>Every operation keeps the contract\<close>

definition updates :: "(job \<Rightarrow> job \<Rightarrow> bool) \<Rightarrow> db \<Rightarrow> db \<Rightarrow> bool" where
  "updates R s s' =
     (list_all2 R (jobs s) (jobs s') \<and>
      list_all2 same_attempt (job_attempts s) (job_attempts s') \<and>
      (\<exists>P. job_relations s' = filter P (job_relations s)) \<and>
      gates_kept s s' \<and>
      projects s' = projects s)"

lemma store_updateI: "(\<And>s. store_wf s \<Longrightarrow> updates same_job s (f s)) \<Longrightarrow> store_update f"
  unfolding store_update_def updates_def by blast

lemma lawful_updateI:
  assumes "\<And>s. store_wf s \<Longrightarrow> updates legal_move s (f s)"
  shows "lawful_update f"
proof -
  have "updates same_job s (f s)" if "store_wf s" for s
    using assms [OF that] unfolding updates_def by (blast intro: list_all2_mono legal_move_same_job)
  then have "store_update f" by (rule store_updateI)
  then show ?thesis using assms
    unfolding lawful_update_def lawful_update_axioms_def updates_def by blast
qed

lemma updates_refl [simp]: "updates legal_move s s" "updates same_job s s"
  by (simp_all add: updates_def all2_refl filter_all gates_kept_def)

lemma updates_audit [simp]: "updates R s (audit a b c d e f g n s') = updates R s s'"
  by (simp add: updates_def gates_kept_def unique_gates_def)

lemma updates_rows:
  assumes "\<And>j. R j j" and "\<And>j. j \<in> set (jobs s) \<Longrightarrow> P j \<Longrightarrow> R j (f j)"
    and "\<And>a. Q a \<Longrightarrow> same_attempt a (g a)"
  shows "updates R s (update_jobs P f s)" "updates R s (update_attempts Q g s)"
    "updates R s (update_jobs P f (update_attempts Q g s))"
  using assms by (auto simp: updates_def all2_refl filter_all gates_kept_def unique_gates_def
      intro!: all2_update_where)

lemma closes_updates: "closes s s' \<Longrightarrow> updates legal_move s s'"
  unfolding closes_def updates_def gates_kept_def unique_gates_def
  by (auto intro: list_all2_mono closing_legal filter_all simp: distinct_map_filter)

lemma updatePhase_updates: "store_wf s \<Longrightarrow> updates legal_move s (snd (updatePhase i p now s))"
proof -
  assume wf: "store_wf s"
  have "legal_move j (set_phase p now j)"
    if "findById i s = Some cur" "updatePhase_check cur p = None" "j \<in> set (jobs s)" "j_id j = i" for j cur
    using that store_wf_job [OF wf that(1,3,4)] by (intro row_moves) (auto simp: updatePhase_check_None)
  then show ?thesis unfolding updatePhase_state
    by (auto split: option.split intro!: updates_rows(1))
qed

lemma release_updates: "store_wf s \<Longrightarrow> updates legal_move s (snd (release i agent reason now s))"
proof -
  assume wf: "store_wf s"
  have row: "legal_move j (back_to_ready now j)"
    if "findById i s = Some cur" "j_phase cur = Active" "j \<in> set (jobs s)" "j_id j = i" for j cur
    using that store_wf_job [OF wf that(1,3,4)] by (simp add: row_moves)
  then show ?thesis
    by (auto simp: release_def release_no_attempt_def release_attempt_def Let_def rows
        split: option.split intro!: updates_rows(1,3))
qed

lemma submitForReview_updates:
  "updates legal_move s (snd (submitForReview i agent summary now s))"
  by (auto simp: submitForReview_def Let_def rows split: option.split intro!: updates_rows(2,3))

lemma approveReview_updates:
  "store_wf s \<Longrightarrow> updates legal_move s (snd (approveReview i reviewer comment now s))"
proof -
  assume wf: "store_wf s"
  have row: "legal_move j (approve_row reviewer comment now j)"
    if "findById i s = Some cur" "j_phase cur = Review" "j \<in> set (jobs s)" "j_id j = i" for j cur
    using that store_wf_job [OF wf that(1,3,4)] by (simp add: row_moves)
  then show ?thesis
    by (auto simp: approveReview_def split: option.split intro!: updates_rows(1))
qed

lemma markJobDone_state:
  "snd (markJobDone i summary now s) =
     (case findById i s of
        None \<Rightarrow> s
      | Some job \<Rightarrow>
          if terminal_phase (j_phase job) then s
          else if j_review_required job \<noteq> ReviewNone then
            (if j_phase job = Active then
               snd (submitForReview i (orchestrator_or (j_assignee job))
                 (case summary of None \<Rightarrow> ''Completed'' | Some t \<Rightarrow> t) now s)
             else s)
          else snd (updatePhase i Done now s))"
  by (auto simp: markJobDone_def split: option.split prod.split sum.split)

lemma markJobDone_updates: "store_wf s \<Longrightarrow> updates legal_move s (snd (markJobDone i summary now s))"
  unfolding markJobDone_state
  by (auto simp: updatePhase_updates submitForReview_updates split: option.split)

lemma requeueReady_updates:
  "updates same_job s (snd (requeueReady i actor d reason now s))"
  by (auto simp: requeueReady_def rows split: option.split intro!: updates_rows(1))

interpretation phase_update: lawful_update "\<lambda>s. snd (updatePhase i p now s)" for i p now
  by (rule lawful_updateI) (rule updatePhase_updates)

interpretation release_update: lawful_update "\<lambda>s. snd (release i agent reason now s)" for i agent reason now
  by (rule lawful_updateI) (rule release_updates)

interpretation submit_update: lawful_update "\<lambda>s. snd (submitForReview i agent summary now s)"
  for i agent summary now
  by (rule lawful_updateI) (rule submitForReview_updates)

interpretation approve_update: lawful_update "\<lambda>s. snd (approveReview i reviewer comment now s)"
  for i reviewer comment now
  by (rule lawful_updateI) (rule approveReview_updates)

interpretation done_update: lawful_update "\<lambda>s. snd (markJobDone i summary now s)" for i summary now
  by (rule lawful_updateI) (rule markJobDone_updates)

interpretation cancel_update: lawful_update "\<lambda>s. snd (cancelJob i reason now s)" for i reason now
  by (rule lawful_updateI) (rule closes_updates [OF cancelJob_closes])

interpretation fail_update: lawful_update "markJobFailed_state i reason now" for i reason now
  by (rule lawful_updateI) (rule closes_updates [OF markJobFailed_closes])

interpretation requeue_update: store_update "\<lambda>s. snd (requeueReady i actor d reason now s)"
  for i actor d reason now
  by (rule store_updateI) (rule requeueReady_updates)

interpretation git_update: lawful_update "updateResolvedGit i g now" for i g now
  by (rule lawful_updateI)
     (auto simp: updateResolvedGit_def legal_move_def same_job_def intro!: updates_rows(1))

interpretation complete_update: lawful_update "\<lambda>s. snd (completeAttempt i st res now s)" for i st res now
  by (rule lawful_updateI) (auto simp: completeAttempt_def rows intro!: updates_rows(2))

interpretation meta_update: lawful_update "\<lambda>s. snd (updateRuntimeMeta i meta s)" for i meta
  by (rule lawful_updateI)
     (auto simp: updateRuntimeMeta_def Let_def same_attempt_def intro!: updates_rows(2))

interpretation started_update: lawful_update "markExecutionStarted i now" for i now
  by (rule lawful_updateI)
     (auto simp: markExecutionStarted_def same_attempt_def intro!: updates_rows(2))

interpretation receipt_update: lawful_update "updateAttemptReceipt i js base billed currency"
  for i js base billed currency
  by (rule lawful_updateI)
     (auto simp: updateAttemptReceipt_def same_attempt_def intro!: updates_rows(2))

interpretation result_update: lawful_update "\<lambda>s. snd (updateAttemptResultJson i js s)" for i js
  by (rule lawful_updateI)
     (auto simp: updateAttemptResultJson_def Let_def same_attempt_def intro!: updates_rows(2))

interpretation blocked_update: lawful_update "updateBlockedOnGates i ks now" for i ks now
  by (rule lawful_updateI)
     (auto simp: updateBlockedOnGates_def legal_move_def same_job_def intro!: updates_rows(1))

interpretation unblocked_update: lawful_update "clearBlockedOnGates i now" for i now
  by (rule lawful_updateI)
     (auto simp: clearBlockedOnGates_def legal_move_def same_job_def intro!: updates_rows(1))

lemma updates_gates:
  assumes "gates_kept s (s\<lparr>job_gates := gs\<rparr>)"
  shows "updates legal_move s (s\<lparr>job_gates := gs\<rparr>)"
  using assms by (simp add: updates_def all2_refl filter_all)

lemma gates_kept_delete: "gates_kept s (s\<lparr>job_gates := delete_where P (job_gates s)\<rparr>)"
  by (auto simp: gates_kept_def unique_gates_def distinct_map_delete_where)

interpretation cleanup_update: lawful_update "\<lambda>s. snd (cleanupExpiredGates now s)" for now
  by (rule lawful_updateI) (simp add: cleanupExpiredGates_def updates_gates gates_kept_delete)

interpretation gates_update: lawful_update "\<lambda>s. snd (releaseGates i ks s)" for i ks
  by (rule lawful_updateI)
     (simp add: releaseGates_def updates_gates gates_kept_delete split: option.split)

interpretation ttl_update: lawful_update "\<lambda>s. snd (refreshGatesTTL i ttl now s)" for i ttl now
  by (rule lawful_updateI)
     (simp add: refreshGatesTTL_def gates_kept_def unique_gates_def map_update_where
        image_update_where gate_key_def updates_gates)

interpretation undepend_update: lawful_update "\<lambda>s. snd (removeDependency i k s)" for i k
  by (rule lawful_updateI)
     (auto simp: removeDependency_def Let_def updates_def all2_refl gates_kept_def unique_gates_def
        delete_where_def)

subsection \<open>Operations that insert rows\<close>

lemma attempts_of_append:
  "attempts_of i (s\<lparr>job_attempts := job_attempts s @ [a]\<rparr>) =
     attempts_of i s @ (if a_job_id a = i then [a] else [])"
  by (simp add: attempts_of_def)

lemma numbered_all: "store_wf s \<Longrightarrow> numbered s i"
proof (cases "attempts_of i s")
  case Nil
  then show ?thesis by (simp add: numbered_def)
next
  case (Cons a as)
  assume "store_wf s"
  moreover have "a \<in> set (job_attempts s)" "a_job_id a = i"
    using Cons unfolding attempts_of_def by (auto simp: filter_eq_Cons_iff)
  ultimately show ?thesis by (auto simp: store_wf_def)
qed

lemma insert_attempt_wf:
  assumes "store_wf s" and "insert_attempt a s = Inr s'"
    and "a_attempt_number a = int (length (attempts_of (a_job_id a) s)) + 1"
  shows "store_wf s'"
proof -
  have s': "s' = s\<lparr>job_attempts := job_attempts s @ [a]\<rparr>"
    and fresh: "a_id a \<notin> a_id ` set (job_attempts s)" and known: "job_known s (a_job_id a)"
    using assms(2) by (auto simp: insert_attempt_def job_known_def split: if_splits)
  have num: "numbered s' i" for i
    using numbered_all [OF assms(1), of i] assms(3)
    unfolding numbered_def s' attempts_of_append by (auto simp: algebra_simps)
  have "job_known s' = job_known s" by (simp add: job_known_def s' fun_eq_iff)
  then show ?thesis using assms(1) fresh known num
    unfolding store_wf_def by (simp add: s' unique_gates_def)
qed

lemma max_attempt_number_count:
  assumes "store_wf s"
  shows "max_attempt_number i s = int (length (attempts_of i s))"
proof -
  let ?n = "length (attempts_of i s)"
  have eq: "map a_attempt_number (attempts_of i s) = map int [1..<Suc ?n]"
    using numbered_all [OF assms, of i] by (simp add: numbered_def)
  have fold: "fold max (map int [2..<Suc m]) 1 = int m" if "1 \<le> m" for m
    using that by (induction m rule: dec_induct) (simp_all add: numeral_2_eq_2)
  show ?thesis
  proof (cases "?n")
    case 0
    then show ?thesis by (simp add: max_attempt_number_def)
  next
    case (Suc m)
    then have "[1..<Suc ?n] = 1 # [2..<Suc ?n]" by (simp add: upt_conv_Cons numeral_2_eq_2 del: upt_Suc)
    then show ?thesis using fold [of ?n] Suc unfolding max_attempt_number_def eq by simp
  qed
qed

text \<open>
  Claims: the job moves legally, the attempt keeps or gets the next number. The claim of a job that
  was read earlier (\<open>claim_after_read\<close>) is covered as far as the tables' keys go.
\<close>

lemma updates_wf:
  assumes "store_wf s" and "updates same_job s s'"
  shows "store_wf s'"
proof -
  have "store_update (\<lambda>x. if x = s then s' else x)"
    by (rule store_updateI) (use assms(2) in simp)
  from store_update.keeps_wf [OF this assms(1)] show ?thesis by simp
qed

lemma updates_mono: "updates legal_move s s' \<Longrightarrow> updates same_job s s'"
  unfolding updates_def by (blast intro: list_all2_mono legal_move_same_job)

lemma same_job_activate: "same_job j (activate agent now j)" "same_job j (reject_row r now j)"
  by (simp_all add: activate_def reject_row_def same_job_def)

lemma audit_wf [simp]: "store_wf (audit a b c d e f g n s) = store_wf s"
proof -
  have "job_known (audit a b c d e f g n s) = job_known s" "numbered (audit a b c d e f g n s) = numbered s"
    by (simp_all add: job_known_def numbered_def fun_eq_iff)
  then show ?thesis by (simp add: store_wf_def unique_gates_def)
qed

lemma update_jobs_wf:
  "store_wf s \<Longrightarrow> (\<And>j. same_job j (f j)) \<Longrightarrow> store_wf (update_jobs P f s)"
  by (rule updates_wf, assumption, rule updates_rows(1)) auto

lemma update_attempts_wf:
  "store_wf s \<Longrightarrow> (\<And>a. same_attempt a (f a)) \<Longrightarrow> store_wf (update_attempts P f s)"
  by (rule updates_wf, assumption, rule updates_rows(2)) auto

lemma claim_pending_wf: "store_wf s \<Longrightarrow> store_wf (snd (claim_pending cur p i agent h now s))"
  by (auto simp: claim_pending_def Let_def same_job_activate rows split: option.split
      intro!: update_jobs_wf update_attempts_wf)

lemma claim_insert_wf:
  assumes "store_wf s"
  shows "store_wf (snd (claim_insert cur (int (length (attempts_of i s)) + 1) i agent h now uuid s))"
  using assms by (auto simp: claim_insert_def Let_def same_job_activate new_attempt_def split: sum.split
      intro!: update_jobs_wf dest: insert_attempt_wf)

lemma claim_after_read_wf: "store_wf s \<Longrightarrow> store_wf (snd (claim_after_read cur i agent h now uuid s))"
  by (auto simp: claim_after_read_def claim_pending_wf claim_insert_wf split: option.split)

lemma claim_wf: "store_wf s \<Longrightarrow> store_wf (snd (claim i agent h now uuid s))"
  by (auto simp: claim_def claim_after_read_wf split: option.split)

lemma rejectReview_wf: "store_wf s \<Longrightarrow> store_wf (snd (rejectReview i reviewer reason now uuid s))"
proof -
  assume wf: "store_wf s"
  let ?s1 = "update_jobs (\<lambda>j. j_id j = i) (reject_row reviewer now) s"
  have wf1: "store_wf ?s1" using wf by (rule update_jobs_wf) (simp add: same_job_activate)
  have "store_wf s2" if "insert_attempt ((new_attempt uuid i (max_attempt_number i ?s1 + 1) st tr now)
      \<lparr>a_harness_profile_source := src, a_harness_profile_hash := hash, a_result_summary := summary\<rparr>) ?s1
      = Inr s2" for st tr src hash summary s2
    by (rule insert_attempt_wf [OF wf1 that]) (simp add: new_attempt_def max_attempt_number_count [OF wf1])
  then show ?thesis using wf wf1
    by (auto simp: rejectReview_def Let_def split: option.split sum.split)
qed

lemma create_wf: "store_wf s \<Longrightarrow> store_wf (snd (create job now s))"
proof (cases "fst (create job now s)")
  case (Inl e)
  assume "store_wf s"
  with Inl show ?thesis by (auto simp: create_def Let_def split: if_splits)
next
  case (Inr row)
  assume wf: "store_wf s"
  let ?s' = "s\<lparr>jobs := jobs s @ [new_row job now]\<rparr>"
  have s': "snd (create job now s) = ?s'" and fresh: "j_id job \<notin> j_id ` set (jobs s)"
    and proj: "exists_row (\<lambda>p. p_id p = j_project_id job) (projects s)"
    and par: "\<forall>p \<in> set_option (j_parent_id job). p = j_id job \<or> job_known s p"
    using Inr by (auto simp: create_def Let_def job_known_def split: if_splits option.splits)
  have known: "job_known ?s' i \<longleftrightarrow> job_known s i \<or> i = j_id job" for i
    by (auto simp: job_known_def)
  have num: "numbered ?s' = numbered s" by (simp add: numbered_def attempts_of_def fun_eq_iff)
  show ?thesis using wf fresh proj par unfolding s' store_wf_def known num
    by (auto simp: unique_gates_def)
qed

lemma addDependency_wf: "store_wf s \<Longrightarrow> store_wf (snd (addDependency i k t uuid s))"
proof (cases "snd (addDependency i k t uuid s) = s")
  case False
  assume wf: "store_wf s"
  let ?r = "\<lambda>ty. \<lparr>r_id = uuid, r_job_id = i, r_related_job_id = k, r_relation_type = ty\<rparr>"
  from False obtain ty where
      s': "snd (addDependency i k t uuid s) = s\<lparr>job_relations := job_relations s @ [?r ty]\<rparr>"
    and r: "i \<noteq> k" "findById i s \<noteq> None" "findById k s \<noteq> None"
    and fresh: "\<forall>r \<in> set (job_relations s). relation_key r \<noteq> (i, k, ty)"
    by (auto simp: addDependency_def relation_key_def split: if_splits option.splits)
  have "job_known s i" "job_known s k"
    using r findById_Some by (fastforce simp: job_known_def)+
  moreover have "job_known (s\<lparr>job_relations := rs\<rparr>) = job_known s"
      "numbered (s\<lparr>job_relations := rs\<rparr>) = numbered s" for rs
    by (simp_all add: job_known_def numbered_def attempts_of_def fun_eq_iff)
  moreover have "relation_key (?r ty) \<notin> relation_key ` set (job_relations s)"
    using fresh by (auto simp: relation_key_def)
  ultimately show ?thesis using wf r unfolding s' store_wf_def by (auto simp: unique_gates_def)
qed simp

definition known_gates :: "db \<Rightarrow> bool" where
  "known_gates s = (\<forall>g \<in> set (job_gates s). job_known s (g_job_id g))"

lemma upsert_gate_frame:
  assumes "upsert_gate k i now t c s = Inr (got, s')"
  shows "s' = s\<lparr>job_gates := job_gates s'\<rparr> \<and> (known_gates s \<longrightarrow> known_gates s')"
  using assms
  by (auto simp: upsert_gate_def known_gates_def job_known_def set_update_where
      split: option.splits if_splits) blast

lemma acquire_loop_frame:
  assumes "acquire_loop alone n i ks now t c acq s = (r, s')"
  shows "s' = s\<lparr>job_gates := job_gates s'\<rparr> \<and> (known_gates s \<longrightarrow> known_gates s')"
  using assms
proof (induction ks arbitrary: n acq s)
  case (Cons k ks)
  show ?case
  proof (cases "upsert_gate k i now t c s")
    case (Inl e)
    with Cons.prems show ?thesis by simp
  next
    case (Inr p)
    obtain got s1 where p: "p = (got, s1)" by force
    note up = upsert_gate_frame [OF Inr [unfolded p]]
    have "s' = s1\<lparr>job_gates := job_gates s'\<rparr> \<and> (known_gates s1 \<longrightarrow> known_gates s')"
      using Cons.IH Cons.prems Inr p by simp
    with up show ?thesis by (metis db.surjective db.update_convs(4))
  qed
qed simp

lemma known_gates_filter: "known_gates s \<Longrightarrow> known_gates (s\<lparr>job_gates := filter P (job_gates s)\<rparr>)"
  by (simp add: known_gates_def job_known_def)

lemma gates_only_wf:
  assumes "store_wf s" and "s' = s\<lparr>job_gates := job_gates s'\<rparr>" and "unique_gates s'" and "known_gates s'"
  shows "store_wf s'"
proof -
  have "jobs s' = jobs s" "job_attempts s' = job_attempts s" "job_relations s' = job_relations s"
      "projects s' = projects s"
    by (subst assms(2), simp)+
  then show ?thesis using assms(1,3,4)
    by (simp add: store_wf_def known_gates_def job_known_def numbered_def attempts_of_def)
qed

lemma acquireGates_wf:
  assumes "store_wf s"
  shows "store_wf (snd (acquireGates alone i ks ttl c now s))"
proof -
  obtain r s' where run: "acquireGates alone i ks ttl c now s = (r, s')" by force
  have u: "unique_gates s'"
    using acquireGates_unique [OF rely_alone _ run] assms by (simp add: store_wf_def)
  have kg: "known_gates s" using assms by (simp add: store_wf_def known_gates_def)
  let ?s1 = "snd (cleanupExpiredGates now s)"
  have s1: "?s1 = s\<lparr>job_gates := job_gates ?s1\<rparr> \<and> known_gates ?s1"
    using kg by (simp add: cleanupExpiredGates_def known_gates_def job_known_def)
  have "s' = s\<lparr>job_gates := job_gates s'\<rparr> \<and> known_gates s'"
  proof (cases "ks = [] \<or> held_by_others i ks now ?s1 \<noteq> []")
    case True
    then show ?thesis using run kg s1 by (auto simp: acquireGates_def Let_def split: if_splits)
  next
    case False
    obtain q s2 where loop: "acquire_loop alone 1 i ks now (now + ttl * 1000) c [] ?s1 = (q, s2)" by force
    have s2: "s2 = s\<lparr>job_gates := job_gates s2\<rparr> \<and> known_gates s2"
      using acquire_loop_frame [OF loop] s1 by (metis db.surjective db.update_convs(4))
    have "s' = s2 \<or> (\<exists>acq. s' = snd (releaseGates i (Some acq) s2))"
      using run False loop by (auto simp: acquireGates_def Let_def split: sum.splits if_splits)
    then show ?thesis
    proof
      assume "\<exists>acq. s' = snd (releaseGates i (Some acq) s2)"
      then obtain P where "s' = s2 \<or> s' = s2\<lparr>job_gates := filter P (job_gates s2)\<rparr>"
        by (auto simp: releaseGates_def delete_where_def split: if_splits)
      then show ?thesis using s2 known_gates_filter by (metis db.surjective db.update_convs(4) db.select_convs(4))
    qed (use s2 in simp)
  qed
  then show ?thesis using gates_only_wf [OF assms _ u] run by simp
qed

subsection \<open>The transition system\<close>

text \<open>
  One step is one call on the store that runs alone. \<open>lawful_step\<close> has a rule per operation; the
  requeue, which writes the phase without reading it, is the only step outside it.
\<close>

inductive lawful_step :: "db \<Rightarrow> db \<Rightarrow> bool" where
  step_create: "lawful_step s (snd (create job now s))"
| step_updatePhase: "lawful_step s (snd (updatePhase i p now s))"
| step_updateResolvedGit: "lawful_step s (updateResolvedGit i g now s)"
| step_claim: "lawful_step s (snd (claim i agent h now uuid s))"
| step_release: "lawful_step s (snd (release i agent reason now s))"
| step_submitForReview: "lawful_step s (snd (submitForReview i agent summary now s))"
| step_approveReview: "lawful_step s (snd (approveReview i reviewer comment now s))"
| step_rejectReview: "lawful_step s (snd (rejectReview i reviewer why now uuid s))"
| step_markJobDone: "lawful_step s (snd (markJobDone i result now s))"
| step_cancelJob: "lawful_step s (snd (cancelJob i reason now s))"
| step_markJobFailed: "lawful_step s (markJobFailed_state i reason now s)"
| step_completeAttempt: "lawful_step s (snd (completeAttempt i st res now s))"
| step_updateRuntimeMeta: "lawful_step s (snd (updateRuntimeMeta i meta s))"
| step_markExecutionStarted: "lawful_step s (markExecutionStarted i now s)"
| step_updateAttemptReceipt: "lawful_step s (updateAttemptReceipt i js base billed currency s)"
| step_updateAttemptResultJson: "lawful_step s (snd (updateAttemptResultJson i meta s))"
| step_addDependency: "lawful_step s (snd (addDependency i k rel uuid s))"
| step_removeDependency: "lawful_step s (snd (removeDependency i k s))"
| step_acquireGates: "lawful_step s (snd (acquireGates alone i keys ttl meta now s))"
| step_releaseGates: "lawful_step s (snd (releaseGates i some_keys s))"
| step_cleanupExpiredGates: "lawful_step s (snd (cleanupExpiredGates now s))"
| step_refreshGatesTTL: "lawful_step s (snd (refreshGatesTTL i ttl now s))"
| step_updateBlockedOnGates: "lawful_step s (updateBlockedOnGates i keys now s)"
| step_clearBlockedOnGates: "lawful_step s (clearBlockedOnGates i now s)"

inductive store_step :: "db \<Rightarrow> db \<Rightarrow> bool" where
  step_lawful: "lawful_step s s' \<Longrightarrow> store_step s s'"
| step_requeueReady: "store_step s (snd (requeueReady i actor d reason now s))"

inductive_cases store_stepE: "store_step s s'"

text \<open>The composed claims are steps: they claim the job they selected.\<close>

lemma claimNextJob_state:
  "snd (claimNextJob pr agent h now uuid s) = s \<or>
   (\<exists>i h'. snd (claimNextJob pr agent h now uuid s) = snd (claim i agent h' now uuid s))"
proof (cases "getReadyJobs (case pr of None \<Rightarrow> [] | Some p \<Rightarrow> p) None (Some 1) now s")
  case (Cons job rest)
  then have "snd (claimNextJob pr agent h now uuid s) =
      snd (claim (j_id job) agent (coalesce h (coalesce (j_harness job) (hint_harness job))) now uuid s)"
    by (simp add: claimNextJob_def split: prod.split sum.split)
  then show ?thesis by blast
qed (simp add: claimNextJob_def)

lemma claimNextAssignedJob_state:
  "snd (claimNextAssignedJob pr now uuid s) = s \<or>
   (\<exists>i agent h. snd (claimNextAssignedJob pr now uuid s) = snd (claim i agent h now uuid s))"
proof (cases "getReadyAssignedJobs (case pr of None \<Rightarrow> [] | Some p \<Rightarrow> p) (Some 1) now s")
  case (Cons job rest)
  then have "snd (claimNextAssignedJob pr now uuid s) =
      snd (claim (j_id job) (case j_assignee job of None \<Rightarrow> ''orchestrator'' | Some a \<Rightarrow> a)
        (coalesce (j_harness job) (hint_harness job)) now uuid s)"
    by (simp add: claimNextAssignedJob_def split: prod.split sum.split)
  then show ?thesis by blast
qed (simp add: claimNextAssignedJob_def)

lemmas update_wf =
  phase_update.keeps_wf release_update.keeps_wf submit_update.keeps_wf approve_update.keeps_wf
  done_update.keeps_wf cancel_update.keeps_wf fail_update.keeps_wf git_update.keeps_wf
  complete_update.keeps_wf meta_update.keeps_wf started_update.keeps_wf receipt_update.keeps_wf
  result_update.keeps_wf blocked_update.keeps_wf unblocked_update.keeps_wf cleanup_update.keeps_wf
  gates_update.keeps_wf ttl_update.keeps_wf undepend_update.keeps_wf requeue_update.keeps_wf

lemmas insert_wf = create_wf claim_wf rejectReview_wf addDependency_wf acquireGates_wf

lemma lawful_step_wf: "lawful_step s s' \<Longrightarrow> store_wf s \<Longrightarrow> store_wf s'"
  by (induction rule: lawful_step.induct) (rule update_wf insert_wf, assumption)+

lemma store_step_wf: "store_step s s' \<Longrightarrow> store_wf s \<Longrightarrow> store_wf s'"
  by (erule store_stepE) (auto intro: lawful_step_wf requeue_update.keeps_wf)

text \<open>Jobs are never deleted, and a lawful step moves each of them legally.\<close>

definition evolves :: "db \<Rightarrow> db \<Rightarrow> bool" where
  "evolves s s' = (\<exists>old new. jobs s' = old @ new \<and> list_all2 legal_move (jobs s) old)"

lemma evolvesI: "list_all2 legal_move (jobs s) (jobs s') \<Longrightarrow> evolves s s'"
  unfolding evolves_def by (intro exI [of _ "jobs s'"] exI [of _ "[]"]) simp

lemmas update_legal_moves =
  phase_update.update_legal release_update.update_legal submit_update.update_legal
  approve_update.update_legal done_update.update_legal cancel_update.update_legal
  fail_update.update_legal git_update.update_legal complete_update.update_legal
  meta_update.update_legal started_update.update_legal receipt_update.update_legal
  result_update.update_legal blocked_update.update_legal unblocked_update.update_legal
  cleanup_update.update_legal gates_update.update_legal ttl_update.update_legal
  undepend_update.update_legal

lemma insert_attempt_jobs: "insert_attempt a s = Inr s' \<Longrightarrow> jobs s' = jobs s"
  by (auto simp: insert_attempt_def split: if_splits)

lemma claim_legal:
  assumes "store_wf s"
  shows "list_all2 legal_move (jobs s) (jobs (snd (claim i agent h now uuid s)))"
proof (cases "findById i s")
  case None
  then show ?thesis by (simp add: claim_def all2_refl)
next
  case (Some cur)
  have "list_all2 legal_move (jobs s) (update_where (\<lambda>j. j_id j = i) (activate agent now) (jobs s))"
    if "j_phase cur \<in> {Ready, Active}"
    using that store_wf_job [OF assms Some] by (intro all2_update_where) (auto intro: row_moves)
  then have "list_all2 legal_move (jobs s) (jobs (snd (claim_after_read cur i agent h now uuid s)))"
    by (auto simp: claim_after_read_def claim_pending_def claim_insert_def Let_def all2_refl
        split: option.split sum.split dest: insert_attempt_jobs)
  then show ?thesis using Some by (simp add: claim_def)
qed

lemma rejectReview_legal:
  assumes "store_wf s"
  shows "list_all2 legal_move (jobs s) (jobs (snd (rejectReview i reviewer why now uuid s)))"
proof (cases "findById i s")
  case None
  then show ?thesis by (simp add: rejectReview_def all2_refl)
next
  case (Some cur)
  have "list_all2 legal_move (jobs s) (update_where (\<lambda>j. j_id j = i) (reject_row reviewer now) (jobs s))"
    if "j_phase cur = Review"
    using that store_wf_job [OF assms Some] by (intro all2_update_where) (auto intro: row_moves)
  then show ?thesis using Some
    by (auto simp: rejectReview_def Let_def all2_refl split: sum.split dest: insert_attempt_jobs)
qed

lemma acquireGates_jobs [simp]: "jobs (snd (acquireGates alone i ks ttl c now s)) = jobs s"
proof -
  have loop: "jobs s2 = jobs s1" if "acquire_loop alone n i ks now t c acq s1 = (r, s2)" for n t acq s1 r s2
    using acquire_loop_frame [OF that] by (metis db.select_convs(1) db.surjective db.update_convs(4))
  show ?thesis
    by (auto simp: acquireGates_def Let_def split: prod.split sum.split dest: loop)
qed

lemma addDependency_jobs [simp]: "jobs (snd (addDependency i k t uuid s)) = jobs s"
  by (simp add: addDependency_def split: option.split)

lemma create_evolves: "evolves s (snd (create job now s))"
proof -
  have "\<exists>new. jobs (snd (create job now s)) = jobs s @ new" by (simp add: create_def Let_def)
  then show ?thesis unfolding evolves_def using all2_refl legal_move_refl by blast
qed

lemma lawful_step_evolves: "lawful_step s s' \<Longrightarrow> store_wf s \<Longrightarrow> evolves s s'"
  by (induction rule: lawful_step.induct)
     (rule create_evolves evolvesI update_legal_moves claim_legal rejectReview_legal
        | simp add: all2_refl)+

subsection \<open>Runs\<close>

interpretation store_run: run_invariant store_step store_wf
  by unfold_locales (rule store_step_wf)

interpretation lawful_run: run_invariant lawful_step store_wf
  by unfold_locales (rule lawful_step_wf)

lemma legal_move_terminal:
  "legal_move j j' \<Longrightarrow> terminal_phase (j_phase j) \<Longrightarrow> j_phase j' = j_phase j \<and> j_closed_at j' = j_closed_at j"
  by (auto simp: legal_move_def)

text \<open>A closed job, as it was closed.\<close>

definition closed_job :: "string \<Rightarrow> phase \<Rightarrow> timestamp option \<Rightarrow> db \<Rightarrow> bool" where
  "closed_job i p c s =
     (store_wf s \<and> terminal_phase p \<and>
      exists_row (\<lambda>j. j_id j = i \<and> j_phase j = p \<and> j_closed_at j = c) (jobs s))"

lemma evolves_job:
  assumes "evolves s s'" and "j \<in> set (jobs s)"
  obtains j' where "j' \<in> set (jobs s')" "legal_move j j'"
  using assms all2_in_left unfolding evolves_def by (metis Un_iff set_append)

lemma closed_job_step:
  assumes "lawful_step s s'" and "closed_job i p c s"
  shows "closed_job i p c s'"
proof -
  from assms(2) obtain j where j: "store_wf s" "terminal_phase p" "j \<in> set (jobs s)" "j_id j = i"
      "j_phase j = p" "j_closed_at j = c"
    by (auto simp: closed_job_def)
  obtain j' where j': "j' \<in> set (jobs s')" "legal_move j j'"
    using evolves_job [OF lawful_step_evolves [OF assms(1) j(1)] j(3)] .
  have "j_id j' = i \<and> j_phase j' = p \<and> j_closed_at j' = c"
    using legal_move_terminal [OF j'(2)] legal_move_same_job [OF j'(2)] j by (simp add: same_job_def)
  then show ?thesis using j' j(2) lawful_step_wf [OF assms(1) j(1)] by (auto simp: closed_job_def)
qed

interpretation closed_run: run_invariant lawful_step "closed_job i p c" for i p c
  by unfold_locales (rule closed_job_step)

definition job_in :: "db \<Rightarrow> string \<Rightarrow> phase \<Rightarrow> bool" where
  "job_in s i p = exists_row (\<lambda>j. j_id j = i \<and> j_phase j = p) (jobs s)"

definition needs_review :: "db \<Rightarrow> string \<Rightarrow> bool" where
  "needs_review s i = exists_row (\<lambda>j. j_id j = i \<and> j_review_required j \<noteq> ReviewNone) (jobs s)"

lemma job_in_unique: "store_wf s \<Longrightarrow> job_in s i p \<Longrightarrow> job_in s i q \<Longrightarrow> p = q"
  unfolding job_in_def store_wf_def exists_row_iff by (metis find_row_key option.inject)

lemma review_gate_step:
  assumes "lawful_step s s'" and wf: "store_wf s" and "needs_review s i" and "job_in s' i Done"
  shows "needs_review s' i \<and> (job_in s i Done \<or> job_in s i Review)"
proof -
  obtain j where j: "j \<in> set (jobs s)" "j_id j = i" "j_review_required j \<noteq> ReviewNone"
    using assms(3) by (auto simp: needs_review_def)
  obtain j' where j': "j' \<in> set (jobs s')" "legal_move j j'"
    using evolves_job [OF lawful_step_evolves [OF assms(1) wf] j(1)] .
  have wf': "store_wf s'" by (rule lawful_step_wf [OF assms(1) wf])
  have same: "j_id j' = i" "j_review_required j' = j_review_required j"
    using legal_move_same_job [OF j'(2)] j by (auto simp: same_job_def)
  have "job_in s' i (j_phase j')" using j' same by (auto simp: job_in_def)
  then have "j_phase j' = Done" using job_in_unique [OF wf'] assms(4) by blast
  then have "j_phase j = Done \<or> j_phase j = Review" using j'(2) j(3) by (auto simp: legal_move_def)
  then show ?thesis using j j' same by (auto simp: job_in_def needs_review_def)
qed

lemma needs_review_step:
  assumes "lawful_step s s'" and "store_wf s" and "needs_review s i"
  shows "needs_review s' i"
proof -
  obtain j where j: "j \<in> set (jobs s)" "j_id j = i" "j_review_required j \<noteq> ReviewNone"
    using assms(3) by (auto simp: needs_review_def)
  obtain j' where "j' \<in> set (jobs s')" "legal_move j j'"
    using evolves_job [OF lawful_step_evolves [OF assms(1,2)] j(1)] .
  then show ?thesis using j by (auto simp: needs_review_def legal_move_def same_job_def)
qed

lemma review_gate_sequence:
  assumes "successively lawful_step ss" and "ss \<noteq> []" and "store_wf (hd ss)" and "needs_review (hd ss) i"
    and "\<not> job_in (hd ss) i Done" and "n < length ss" and "job_in (ss ! n) i Done"
  shows "\<exists>m < n. job_in (ss ! m) i Review \<and> job_in (ss ! Suc m) i Done"
  using assms(6,7)
proof (induction n)
  case 0
  then show ?case using assms(2,5) by (simp add: hd_conv_nth)
next
  case (Suc n)
  have steps: "lawful_step (ss ! k) (ss ! Suc k)" if "Suc k < length ss" for k
    using assms(1) that by (simp add: successively_conv_nth)
  have inv: "store_wf (ss ! k) \<and> needs_review (ss ! k) i" if "k < length ss" for k
    using that by (induction k)
      (use assms(2-4) in \<open>auto simp: hd_conv_nth intro: lawful_step_wf needs_review_step steps\<close>)
  show ?case
  proof (cases "job_in (ss ! n) i Done")
    case True
    then show ?thesis using Suc.IH Suc.prems(1) by (auto intro: less_SucI)
  next
    case False
    then have "job_in (ss ! n) i Review"
      using review_gate_step [OF steps] inv [of n] Suc.prems by auto
    then show ?thesis using Suc.prems(2) by blast
  qed
qed

end
