(* ===== verification/World.thy ===== *)
theory World
  imports Pipeline_Runs Dispatch Loop_Control Job_Lifecycle
begin

section \<open>The state the orchestrator works on\<close>

text \<open>
  The job store together with the tables \<^verbatim>\<open>events\<close>, \<^verbatim>\<open>ingest_records\<close>, \<^verbatim>\<open>org_balances\<close> and
  \<^verbatim>\<open>balance_transactions\<close> (rows as in \<^verbatim>\<open>packages/db/src/queries/events.ts\<close>, \<^verbatim>\<open>ingest-records.ts\<close> and
  \<^verbatim>\<open>balance-ledger.ts\<close>, of \<^verbatim>\<open>orgs\<close> only the ids), and the dispatch state of the orchestrator process.
  Amounts of money are rationals, as Postgres' NUMERIC holds them.
\<close>

record event =
  v_id :: string
  v_project_id :: string
  v_type :: string
  v_source :: string
  v_env_name :: "string option"
  v_ref_sha :: "string option"
  v_ref_branch :: "string option"
  v_actor_type :: "string option"
  v_actor_id :: "string option"
  v_payload_json :: "jobject option"
  v_dedupe_key :: "string option"
  v_job_id :: "string option"
  v_trigger_match_count :: "int option"
  v_triggers_evaluated :: "json option"
  v_status :: string
  v_processed_at :: "timestamp option"
  v_created_at :: timestamp
  v_updated_at :: timestamp

record ingest_record =
  i_id :: string
  i_org_id :: string
  i_project_id :: string
  i_file_name :: string
  i_mime_type :: string
  i_size_bytes :: int
  i_storage_key :: string
  i_actor_type :: string
  i_actor_id :: "string option"
  i_source_channel :: string
  i_title :: "string option"
  i_description :: "string option"
  i_instructions :: "string option"
  i_tags :: "string list option"
  i_callback_url :: "string option"
  i_status :: string
  i_error_message :: "string option"
  i_event_id :: "string option"
  i_job_id :: "string option"
  i_created_at :: timestamp
  i_updated_at :: timestamp
  i_completed_at :: "timestamp option"

record org_balance =
  ob_org_id :: string
  ob_balance :: rat
  ob_currency :: string
  ob_lifetime_in :: rat
  ob_lifetime_out :: rat
  ob_updated_at :: timestamp

record balance_transaction =
  bt_id :: string
  bt_org_id :: string
  bt_type :: string
  bt_amount :: rat
  bt_currency :: string
  bt_description :: "string option"
  bt_source_type :: string
  bt_source_id :: string
  bt_created_at :: timestamp

record world =
  store :: db
  events :: "event list"
  ingest_records :: "ingest_record list"
  org_ids :: "string list"
  org_balances :: "org_balance list"
  balance_transactions :: "balance_transaction list"
  proc :: orch

definition on_store :: "(db \<Rightarrow> 'a \<times> db) \<Rightarrow> world \<Rightarrow> 'a \<times> world" where
  "on_store f w = (let (r, s) = f (store w) in (r, w\<lparr>store := s\<rparr>))"

lemma on_store_frame [simp]:
  "store (snd (on_store f w)) = snd (f (store w))"
  "fst (on_store f w) = fst (f (store w))"
  "events (snd (on_store f w)) = events w"
  "ingest_records (snd (on_store f w)) = ingest_records w"
  "org_ids (snd (on_store f w)) = org_ids w"
  "org_balances (snd (on_store f w)) = org_balances w"
  "balance_transactions (snd (on_store f w)) = balance_transactions w"
  "proc (snd (on_store f w)) = proc w"
  by (simp_all add: on_store_def split: prod.split)

end
