(* ===== verification/Ledger.thy ===== *)
theory Ledger
  imports World
begin

section \<open>The balance ledger\<close>

text \<open>
  \<^verbatim>\<open>packages/db/src/queries/balance-ledger.ts\<close>. \<^verbatim>\<open>createTransaction\<close> is split where its SQL transaction
  begins: \<open>ledger_transact\<close> is the transaction, which other clients see as one step.
\<close>

definition quoted :: "string \<Rightarrow> string" where
  "quoted t = [CHR 0x27] @ t @ [CHR 0x27]"

definition getBalance :: "string \<Rightarrow> world \<Rightarrow> org_balance option" where
  "getBalance orgId w = find_row (\<lambda>b. ob_org_id b = orgId) (org_balances w)"

definition ensureBalance :: "string \<Rightarrow> string \<Rightarrow> timestamp \<Rightarrow> world \<Rightarrow> (exn + org_balance) \<times> world" where
  "ensureBalance orgId currency now w =
     (let normalized = to_lower currency;
          n = length (filter (\<lambda>t. bt_org_id t = orgId) (balance_transactions w))
      in case getBalance orgId w of
          Some existing \<Rightarrow>
            if ob_currency existing \<noteq> normalized then
              if 0 < n then
                (Inl (Error (''Cannot change currency from '' @ quoted (ob_currency existing) @ '' to '' @ quoted normalized
                   @ '' for org '' @ orgId @ '': '' @ show_nat n @ '' transaction(s) already exist'')), w)
              else
                let f = (\<lambda>b. b\<lparr>ob_currency := normalized, ob_updated_at := now\<rparr>)
                in (Inr (f existing),
                    w\<lparr>org_balances := update_where (\<lambda>b. ob_org_id b = orgId) f (org_balances w)\<rparr>)
            else (Inr existing, w)
        | None \<Rightarrow>
            if orgId \<notin> set (org_ids w) then (Inl (Db_error Foreign_key_violation), w)
            else
              let row = \<lparr>ob_org_id = orgId, ob_balance = 0, ob_currency = normalized, ob_lifetime_in = 0,
                         ob_lifetime_out = 0, ob_updated_at = now\<rparr>
              in (Inr row, w\<lparr>org_balances := org_balances w @ [row]\<rparr>))"

record tx_input =
  ti_id :: string
  ti_org_id :: string
  ti_type :: string
  ti_amount :: rat
  ti_currency :: string
  ti_description :: "string option"
  ti_source_type :: string
  ti_source_id :: string

text \<open>
  What a transaction adds to the balance and to the two lifetime sums. For a charge the code writes
  a minus sign in front of the amount's text; in front of a negative amount that is not a number.
\<close>

definition tx_delta :: "string \<Rightarrow> rat \<Rightarrow> rat \<times> rat \<times> rat" where
  "tx_delta type amount =
     (if type = ''charge'' then (- amount, 0, amount)
      else if type = ''adjustment'' then (amount, max amount 0, \<bar>min amount 0\<bar>)
      else (amount, amount, 0))"

definition post :: "rat \<times> rat \<times> rat \<Rightarrow> timestamp \<Rightarrow> org_balance \<Rightarrow> org_balance" where
  "post d now b =
     b\<lparr>ob_balance := ob_balance b + fst d, ob_lifetime_in := ob_lifetime_in b + fst (snd d),
       ob_lifetime_out := ob_lifetime_out b + snd (snd d), ob_updated_at := now\<rparr>"

definition tx_row :: "tx_input \<Rightarrow> timestamp \<Rightarrow> balance_transaction" where
  "tx_row t now =
     \<lparr>bt_id = ti_id t, bt_org_id = ti_org_id t, bt_type = ti_type t, bt_amount = ti_amount t,
      bt_currency = to_lower (ti_currency t), bt_description = ti_description t,
      bt_source_type = ti_source_type t, bt_source_id = ti_source_id t, bt_created_at = now\<rparr>"

definition getTransactionBySource :: "string \<Rightarrow> string \<Rightarrow> string \<Rightarrow> world \<Rightarrow> balance_transaction option" where
  "getTransactionBySource orgId sourceType sourceId w =
     find_row (\<lambda>t. bt_org_id t = orgId \<and> bt_source_type t = sourceType \<and> bt_source_id t = sourceId)
       (balance_transactions w)"

definition ledger_transact :: "tx_input \<Rightarrow> timestamp \<Rightarrow> world \<Rightarrow> (exn + balance_transaction) \<times> world" where
  "ledger_transact t now w =
     (case getBalance (ti_org_id t) w of
        None \<Rightarrow> (Inl (Error (''No org_balances row for org '' @ ti_org_id t @ ''. Call ensureBalance() first.'')), w)
      | Some locked \<Rightarrow>
          if ob_currency locked \<noteq> to_lower (ti_currency t) then
            (Inl (Error (''Currency mismatch: org balance is '' @ quoted (ob_currency locked)
               @ '' but transaction uses '' @ quoted (to_lower (ti_currency t)))), w)
          else if exists_row (\<lambda>r. bt_id r = ti_id t) (balance_transactions w) \<or>
              getTransactionBySource (ti_org_id t) (ti_source_type t) (ti_source_id t) w \<noteq> None then
            (Inl (Db_error Unique_violation), w)
          else if ti_org_id t \<notin> set (org_ids w) then (Inl (Db_error Foreign_key_violation), w)
          else if ti_type t = ''charge'' \<and> ti_amount t < 0 then (Inl (Db_error Invalid_text_representation), w)
          else (Inr (tx_row t now),
                w\<lparr>balance_transactions := balance_transactions w @ [tx_row t now],
                  org_balances := update_where (\<lambda>b. ob_org_id b = ti_org_id t)
                    (post (tx_delta (ti_type t) (ti_amount t)) now) (org_balances w)\<rparr>))"

definition createTransaction :: "tx_input \<Rightarrow> timestamp \<Rightarrow> world \<Rightarrow> (exn + balance_transaction) \<times> world" where
  "createTransaction t now w =
     (case getTransactionBySource (ti_org_id t) (ti_source_type t) (ti_source_id t) w of
        Some existing \<Rightarrow> (Inr existing, w)
      | None \<Rightarrow>
          if ti_type t \<notin> {''credit'', ''refund'', ''charge'', ''adjustment''} then
            (Inl (Error (''Unknown transaction type: '' @ ti_type t)), w)
          else ledger_transact t now w)"

definition page_limit :: "rat option \<Rightarrow> nat" where
  "page_limit l = (case l of None \<Rightarrow> 50 | Some n \<Rightarrow> if n = 0 then 50 else nat (max 1 \<lfloor>n\<rfloor>))"

definition page_offset :: "rat option \<Rightarrow> nat" where
  "page_offset l = (case l of None \<Rightarrow> 0 | Some n \<Rightarrow> nat (max 0 \<lfloor>n\<rfloor>))"

definition listTransactions ::
  "string \<Rightarrow> timestamp option \<Rightarrow> timestamp option \<Rightarrow> rat option \<Rightarrow> rat option \<Rightarrow> world \<Rightarrow>
    balance_transaction list" where
  "listTransactions orgId since until max_rows ofs w =
     take (page_limit max_rows) (drop (page_offset ofs)
       (order_by (\<lambda>t. - bt_created_at t)
         (filter (\<lambda>t. bt_org_id t = orgId \<and>
            (case since of None \<Rightarrow> True | Some d \<Rightarrow> d \<le> bt_created_at t) \<and>
            (case until of None \<Rightarrow> True | Some d \<Rightarrow> bt_created_at t \<le> d)) (balance_transactions w))))"

subsection \<open>Laws\<close>

text \<open>
  The books: every balance is what the transactions of its organisation add up to, and every
  transaction belongs to an organisation with a balance, in its currency.
\<close>

definition signed_amount :: "balance_transaction \<Rightarrow> rat" where
  "signed_amount t = (if bt_type t = ''charge'' then - bt_amount t else bt_amount t)"

definition total_of :: "string \<Rightarrow> world \<Rightarrow> rat" where
  "total_of orgId w = sum_list (map signed_amount (filter (\<lambda>t. bt_org_id t = orgId) (balance_transactions w)))"

definition books_balance :: "world \<Rightarrow> bool" where
  "books_balance w =
     (distinct (map ob_org_id (org_balances w)) \<and>
      (\<forall>b \<in> set (org_balances w).
         ob_balance b = total_of (ob_org_id b) w \<and> ob_balance b = ob_lifetime_in b - ob_lifetime_out b) \<and>
      (\<forall>t \<in> set (balance_transactions w). \<exists>b \<in> set (org_balances w).
         ob_org_id b = bt_org_id t \<and> ob_currency b = bt_currency t) \<and>
      distinct (map (\<lambda>t. (bt_org_id t, bt_source_type t, bt_source_id t)) (balance_transactions w)))"

lemma tx_delta_sum: "fst (tx_delta type a) = fst (snd (tx_delta type a)) - snd (snd (tx_delta type a))"
  by (auto simp: tx_delta_def)

lemma post_simps [simp]:
  "ob_org_id (post d now b) = ob_org_id b" "ob_currency (post d now b) = ob_currency b"
  "ob_balance (post d now b) = ob_balance b + fst d"
  "ob_lifetime_in (post d now b) = ob_lifetime_in b + fst (snd d)"
  "ob_lifetime_out (post d now b) = ob_lifetime_out b + snd (snd d)"
  by (simp_all add: post_def)

lemma ledger_transact_cases:
  obtains e where "ledger_transact t now w = (Inl e, w)"
  | b where "b \<in> set (org_balances w)" "ob_org_id b = ti_org_id t" "ob_currency b = to_lower (ti_currency t)"
      "getTransactionBySource (ti_org_id t) (ti_source_type t) (ti_source_id t) w = None"
      "ledger_transact t now w = (Inr (tx_row t now),
         w\<lparr>balance_transactions := balance_transactions w @ [tx_row t now],
           org_balances := update_where (\<lambda>b. ob_org_id b = ti_org_id t)
             (post (tx_delta (ti_type t) (ti_amount t)) now) (org_balances w)\<rparr>)"
proof (cases "fst (ledger_transact t now w)")
  case (Inl e)
  then have "ledger_transact t now w = (Inl e, w)"
    by (auto simp: ledger_transact_def split: option.splits if_splits)
  then show ?thesis by (rule that(1))
next
  case (Inr r)
  then obtain b where b: "getBalance (ti_org_id t) w = Some b"
    by (auto simp: ledger_transact_def split: option.splits)
  then have "b \<in> set (org_balances w)" "ob_org_id b = ti_org_id t"
    using find_row_Some by (fastforce simp: getBalance_def)+
  then show ?thesis
    using Inr b by (intro that(2)) (auto simp: ledger_transact_def split: if_splits)
qed

lemma signed_tx_row: "signed_amount (tx_row t now) = fst (tx_delta (ti_type t) (ti_amount t))"
  by (simp add: signed_amount_def tx_row_def tx_delta_def)

lemma ledger_transact_books:
  assumes "books_balance w"
  shows "books_balance (snd (ledger_transact t now w))"
proof (cases rule: ledger_transact_cases [of t now w])
  case (1 e)
  then show ?thesis using assms by simp
next
  case (2 b)
  let ?d = "tx_delta (ti_type t) (ti_amount t)"
  let ?w = "snd (ledger_transact t now w)"
  have total: "total_of o' ?w = total_of o' w + (if o' = ti_org_id t then fst ?d else 0)" for o'
    by (simp add: total_of_def 2(5) signed_tx_row) (simp add: tx_row_def)
  show ?thesis unfolding books_balance_def
  proof (intro conjI ballI)
    show "distinct (map ob_org_id (org_balances ?w))"
      using assms by (simp add: 2(5) map_update_where books_balance_def)
  next
    fix c assume "c \<in> set (org_balances ?w)"
    then obtain c0 where c0: "c0 \<in> set (org_balances w)" "c = (if ob_org_id c0 = ti_org_id t then post ?d now c0 else c0)"
      by (auto simp: 2(5) elim: in_set_update_whereE)
    then show "ob_balance c = total_of (ob_org_id c) ?w" "ob_balance c = ob_lifetime_in c - ob_lifetime_out c"
      using assms tx_delta_sum [of "ti_type t" "ti_amount t"] by (auto simp: total books_balance_def)
  next
    fix r assume "r \<in> set (balance_transactions ?w)"
    then consider "r = tx_row t now" | "r \<in> set (balance_transactions w)" by (auto simp: 2(5))
    then obtain c where "c \<in> set (org_balances w)" "ob_org_id c = bt_org_id r" "ob_currency c = bt_currency r"
      using assms 2(1-3) by cases (auto simp: books_balance_def tx_row_def)
    then show "\<exists>b \<in> set (org_balances ?w). ob_org_id b = bt_org_id r \<and> ob_currency b = bt_currency r"
      by (intro bexI [of _ "if ob_org_id c = ti_org_id t then post ?d now c else c"])
         (auto simp: 2(5) set_update_where)
  next
    show "distinct (map (\<lambda>t. (bt_org_id t, bt_source_type t, bt_source_id t)) (balance_transactions ?w))"
      using assms 2(4) by (auto simp: 2(5) books_balance_def getTransactionBySource_def find_row_None tx_row_def)
  qed
qed

lemma createTransaction_books:
  "books_balance w \<Longrightarrow> books_balance (snd (createTransaction t now w))"
  by (simp add: createTransaction_def ledger_transact_books split: option.split)

lemma ensureBalance_books:
  assumes "books_balance w"
  shows "books_balance (snd (ensureBalance orgId cur now w))"
proof (cases "snd (ensureBalance orgId cur now w) = w")
  case False
  let ?n = "filter (\<lambda>t. bt_org_id t = orgId) (balance_transactions w)"
  show ?thesis
  proof (cases "getBalance orgId w")
    case None
    then have new: "\<forall>b \<in> set (org_balances w). ob_org_id b \<noteq> orgId"
      by (simp add: getBalance_def find_row_None)
    then have "total_of orgId w = 0"
      using assms by (force simp: total_of_def books_balance_def filter_empty_conv
          intro!: arg_cong [where f = sum_list, of _ "[]", simplified])
    then show ?thesis using assms None new False
      by (auto simp: ensureBalance_def Let_def books_balance_def total_of_def)
  next
    case (Some b)
    then have n: "?n = []" and eq: "snd (ensureBalance orgId cur now w) =
        w\<lparr>org_balances := update_where (\<lambda>b. ob_org_id b = orgId)
          (\<lambda>b. b\<lparr>ob_currency := to_lower cur, ob_updated_at := now\<rparr>) (org_balances w)\<rparr>"
      using False by (auto simp: ensureBalance_def Let_def split: if_splits)
    have other: "bt_org_id t \<noteq> orgId" if "t \<in> set (balance_transactions w)" for t
      using that n by (auto simp: filter_empty_conv)
    have kept: "b \<in> set (update_where (\<lambda>b. ob_org_id b = orgId) f (org_balances w))"
      if "b \<in> set (org_balances w)" "ob_org_id b = bt_org_id t" "t \<in> set (balance_transactions w)" for b t f
      using that other by (force simp: set_update_where)
    have "\<exists>b \<in> set (org_balances (snd (ensureBalance orgId cur now w))).
        ob_org_id b = bt_org_id t \<and> ob_currency b = bt_currency t" if "t \<in> set (balance_transactions w)" for t
      using assms that kept unfolding eq books_balance_def by fastforce
    then show ?thesis using assms unfolding eq books_balance_def total_of_def
      by (auto simp: map_update_where set_update_where)
  qed
qed (simp add: assms)

inductive ledger_step :: "world \<Rightarrow> world \<Rightarrow> bool" where
  ensure: "ledger_step w (snd (ensureBalance orgId cur now w))"
| create: "ledger_step w (snd (createTransaction t now w))"
| raced: "ledger_step w (snd (ledger_transact t now w))"

interpretation ledger_run: run_invariant ledger_step books_balance
  by unfold_locales
     (auto elim!: ledger_step.cases intro: ensureBalance_books createTransaction_books ledger_transact_books)

end
