(* ===== verification/Events.thy ===== *)
theory Events
  imports World
begin

section \<open>The event log and ingest records\<close>

text \<open>
  \<^verbatim>\<open>packages/db/src/queries/events.ts\<close> and \<^verbatim>\<open>ingest-records.ts\<close>. \<^verbatim>\<open>create\<close> of an event is split between
  its deduplication query and the insert, since no unique index backs the check. The lengths are those
  of the columns (migration 00014).
\<close>

definition fits :: "nat \<Rightarrow> string option \<Rightarrow> bool" where
  "fits n v = (case v of None \<Rightarrow> True | Some t \<Rightarrow> length t \<le> n)"

definition event_fits :: "event \<Rightarrow> bool" where
  "event_fits e =
     (length (v_id e) \<le> 50 \<and> length (v_project_id e) \<le> 50 \<and> length (v_type e) \<le> 100 \<and> length (v_source e) \<le> 50 \<and>
      fits 100 (v_env_name e) \<and> fits 100 (v_ref_sha e) \<and> fits 255 (v_ref_branch e) \<and> fits 50 (v_actor_type e) \<and>
      fits 50 (v_actor_id e) \<and> fits 255 (v_dedupe_key e))"

definition findByDedupeKey :: "string \<Rightarrow> string \<Rightarrow> world \<Rightarrow> event option" where
  "findByDedupeKey projectId dedupeKey w =
     find_row (\<lambda>e. v_project_id e = projectId \<and> v_dedupe_key e = Some dedupeKey) (events w)"

definition insert_event :: "event \<Rightarrow> timestamp \<Rightarrow> world \<Rightarrow> (db_error + event) \<times> world" where
  "insert_event e now w =
     (let row = e\<lparr>v_job_id := None, v_trigger_match_count := None, v_triggers_evaluated := None,
                  v_status := ''pending'', v_processed_at := None, v_created_at := now, v_updated_at := now\<rparr>
      in if \<not> event_fits e then (Inl String_too_long, w)
         else if exists_row (\<lambda>r. v_id r = v_id e) (events w) then (Inl Unique_violation, w)
         else if \<not> exists_row (\<lambda>p. p_id p = v_project_id e) (projects (store w)) then (Inl Foreign_key_violation, w)
         else (Inr row, w\<lparr>events := events w @ [row]\<rparr>))"

definition create_event :: "event \<Rightarrow> timestamp \<Rightarrow> world \<Rightarrow> (db_error + event) \<times> world" where
  "create_event e now w =
     (case (if truthy_string (v_dedupe_key e) then findByDedupeKey (v_project_id e) (the (v_dedupe_key e)) w else None) of
        Some existing \<Rightarrow> (Inr existing, w)
      | None \<Rightarrow> insert_event e now w)"

definition findEventById :: "string \<Rightarrow> world \<Rightarrow> event option" where
  "findEventById i w = find_row (\<lambda>e. v_id e = i) (events w)"

record list_events_options =
  le_status :: "string option"
  le_type :: "string option"
  le_source :: "string option"
  le_attemptId :: "string option"
  le_since :: "timestamp option"
  le_limit :: "nat option"
  le_offset :: "nat option"

definition given :: "string option \<Rightarrow> (string \<Rightarrow> bool) \<Rightarrow> bool" where
  "given v P = (truthy_string v \<longrightarrow> P (the v))"

definition event_types :: "string \<Rightarrow> string list" where
  "event_types t = filter (\<lambda>u. u \<noteq> []) (map js_trim (split_on (CHR '','') t))"

text \<open>\<^verbatim>\<open>payload_json->>key\<close>; of the values only strings are compared with a string by the callers.\<close>

definition payload_text :: "event \<Rightarrow> string \<Rightarrow> string option" where
  "payload_text e k = json_string (Option.bind (v_payload_json e) (\<lambda>o'. obj_get o' k))"

definition list_events :: "string \<Rightarrow> list_events_options \<Rightarrow> world \<Rightarrow> event list" where
  "list_events projectId opts w =
     take (or_default 50 (le_limit opts)) (drop (or_default 0 (le_offset opts))
       (order_by (\<lambda>e. - v_created_at e)
         (filter (\<lambda>e. v_project_id e = projectId \<and>
            given (le_status opts) (\<lambda>st. v_status e = st) \<and>
            given (le_type opts) (\<lambda>t. v_type e \<in> set (event_types t)) \<and>
            given (le_source opts) (\<lambda>t. v_source e = t) \<and>
            given (le_attemptId opts) (\<lambda>t. payload_text e ''attemptId'' = Some t) \<and>
            (case le_since opts of None \<Rightarrow> True | Some d \<Rightarrow> d \<le> v_created_at e)) (events w))))"

text \<open>\<^verbatim>\<open>type LIKE pattern\<close>: a percent sign stands for any text, an underscore for one character.\<close>

fun sql_like :: "string \<Rightarrow> string \<Rightarrow> bool" where
  "sql_like t [] = (t = [])"
| "sql_like t (p # ps) =
     (if p = CHR ''%'' then sql_like t ps \<or> (case t of [] \<Rightarrow> False | _ # cs \<Rightarrow> sql_like cs (p # ps))
      else if p = CHR 0x5C then
        (case ps of
           [] \<Rightarrow> False
         | q # qs \<Rightarrow> (case t of [] \<Rightarrow> False | c # cs \<Rightarrow> c = q \<and> sql_like cs qs))
      else (case t of [] \<Rightarrow> False | c # cs \<Rightarrow> (p = CHR ''_'' \<or> c = p) \<and> sql_like cs ps))"

definition star_to_percent :: "string \<Rightarrow> string" where
  "star_to_percent t = map (\<lambda>c. if c = CHR ''*'' then CHR ''%'' else c) t"

definition listForReplay ::
  "string \<Rightarrow> string option \<Rightarrow> timestamp \<Rightarrow> timestamp \<Rightarrow> string list \<Rightarrow> nat \<Rightarrow> world \<Rightarrow> event list" where
  "listForReplay orgId projectId fromTime toTime eventPatterns max_rows w =
     take max_rows (order_by v_created_at
       (filter (\<lambda>e. exists_row (\<lambda>p. p_id p = v_project_id e \<and> p_org_id p = orgId) (projects (store w)) \<and>
          fromTime \<le> v_created_at e \<and> v_created_at e \<le> toTime \<and>
          given projectId (\<lambda>p. v_project_id e = p) \<and>
          (eventPatterns = [] \<or> list_ex (\<lambda>p. sql_like (v_type e) (star_to_percent p)) eventPatterns)) (events w)))"

definition update_event :: "string \<Rightarrow> (event \<Rightarrow> event) \<Rightarrow> world \<Rightarrow> event option \<times> world" where
  "update_event i f w =
     (map_option f (findEventById i w), w\<lparr>events := update_where (\<lambda>e. v_id e = i) f (events w)\<rparr>)"

definition updateTriggerMetadata :: "string \<Rightarrow> int \<Rightarrow> json \<Rightarrow> timestamp \<Rightarrow> world \<Rightarrow> world" where
  "updateTriggerMetadata i count evaluated now w =
     snd (update_event i (\<lambda>e. e\<lparr>v_trigger_match_count := Some count, v_triggers_evaluated := Some evaluated,
       v_updated_at := now\<rparr>) w)"

definition updateEventStatus ::
  "string \<Rightarrow> string \<Rightarrow> timestamp option \<Rightarrow> timestamp \<Rightarrow> world \<Rightarrow> event option \<times> world" where
  "updateEventStatus i status processedAt now w =
     update_event i (\<lambda>e. e\<lparr>v_status := status,
       v_processed_at := (case processedAt of
           Some t \<Rightarrow> Some t
         | None \<Rightarrow> if status \<in> {''completed'', ''failed''} then Some now else None),
       v_updated_at := now\<rparr>) w"

definition linkJobToEvent :: "string \<Rightarrow> string \<Rightarrow> timestamp \<Rightarrow> world \<Rightarrow> event option \<times> world" where
  "linkJobToEvent i jobId now w = update_event i (\<lambda>e. e\<lparr>v_job_id := Some jobId, v_updated_at := now\<rparr>) w"

definition pending_batch :: "nat \<Rightarrow> world \<Rightarrow> event list" where
  "pending_batch max_rows w =
     take max_rows (order_by v_created_at (filter (\<lambda>e. v_status e = ''pending'') (events w)))"

definition claimPendingEvents :: "nat \<Rightarrow> timestamp \<Rightarrow> world \<Rightarrow> event list \<times> world" where
  "claimPendingEvents max_rows now w =
     (let ids = map v_id (pending_batch max_rows w);
          f = (\<lambda>e. e\<lparr>v_status := ''processing'', v_updated_at := now\<rparr>)
      in (map f (filter (\<lambda>e. v_id e \<in> set ids) (events w)),
          w\<lparr>events := update_where (\<lambda>e. v_id e \<in> set ids) f (events w)\<rparr>))"

definition stale_event :: "int \<Rightarrow> timestamp \<Rightarrow> event \<Rightarrow> bool" where
  "stale_event staleAfterSeconds now e =
     (v_status e = ''processing'' \<and> v_updated_at e < now - staleAfterSeconds * 1000)"

definition recoverStaleEvents :: "int \<Rightarrow> timestamp \<Rightarrow> world \<Rightarrow> nat \<times> world" where
  "recoverStaleEvents staleAfterSeconds now w =
     (length (filter (stale_event staleAfterSeconds now) (events w)),
      w\<lparr>events := update_where (stale_event staleAfterSeconds now)
        (\<lambda>e. e\<lparr>v_status := ''pending'', v_updated_at := now\<rparr>) (events w)\<rparr>)"

definition old_event :: "int \<Rightarrow> timestamp \<Rightarrow> event \<Rightarrow> bool" where
  "old_event retentionDays now e =
     (v_status e \<in> {''completed'', ''failed''} \<and>
      (case v_processed_at e of None \<Rightarrow> False | Some t \<Rightarrow> t < now - retentionDays * 86400000))"

definition deleteOldEvents :: "int \<Rightarrow> timestamp \<Rightarrow> world \<Rightarrow> nat \<times> world" where
  "deleteOldEvents retentionDays now w =
     (length (filter (old_event retentionDays now) (events w)),
      w\<lparr>events := delete_where (old_event retentionDays now) (events w)\<rparr>)"

definition countByStatus :: "string \<Rightarrow> world \<Rightarrow> (string \<times> nat) list" where
  "countByStatus projectId w =
     (let mine = filter (\<lambda>e. v_project_id e = projectId) (events w)
      in map (\<lambda>st. (st, length (filter (\<lambda>e. v_status e = st) mine))) (sorted_set (map v_status mine)))"

subsection \<open>Ingest records\<close>

definition createIngest :: "ingest_record \<Rightarrow> timestamp \<Rightarrow> world \<Rightarrow> (db_error + ingest_record) \<times> world" where
  "createIngest d now w =
     (let row = d\<lparr>i_status := ''pending'', i_error_message := None, i_event_id := None, i_job_id := None,
                  i_created_at := now, i_updated_at := now, i_completed_at := None\<rparr>
      in if exists_row (\<lambda>r. i_id r = i_id d) (ingest_records w) then (Inl Unique_violation, w)
         else if i_org_id d \<notin> set (org_ids w) \<or>
             \<not> exists_row (\<lambda>p. p_id p = i_project_id d) (projects (store w)) then (Inl Foreign_key_violation, w)
         else (Inr row, w\<lparr>ingest_records := ingest_records w @ [row]\<rparr>))"

definition findIngestById :: "string \<Rightarrow> world \<Rightarrow> ingest_record option" where
  "findIngestById i w = find_row (\<lambda>r. i_id r = i) (ingest_records w)"

definition findIngestByProjectId ::
  "string \<Rightarrow> string option \<Rightarrow> nat option \<Rightarrow> nat option \<Rightarrow> world \<Rightarrow> ingest_record list" where
  "findIngestByProjectId projectId status max_rows ofs w =
     take (or_default 50 max_rows) (drop (or_default 0 ofs)
       (order_by (\<lambda>r. - i_created_at r)
         (filter (\<lambda>r. i_project_id r = projectId \<and> given status (\<lambda>st. i_status r = st)) (ingest_records w))))"

record ingest_fields =
  if_event_id :: "string option"
  if_job_id :: "string option"
  if_error_message :: "string option"
  if_completed_at :: "timestamp option"

definition updateIngestStatus ::
  "string \<Rightarrow> string \<Rightarrow> ingest_fields \<Rightarrow> timestamp \<Rightarrow> world \<Rightarrow> ingest_record option \<times> world" where
  "updateIngestStatus i status fs now w =
     (let f = (\<lambda>r. r\<lparr>i_status := status,
                 i_event_id := coalesce (if_event_id fs) (i_event_id r),
                 i_job_id := coalesce (if_job_id fs) (i_job_id r),
                 i_error_message := coalesce (if_error_message fs) (i_error_message r),
                 i_completed_at := coalesce (if_completed_at fs) (i_completed_at r),
                 i_updated_at := now\<rparr>)
      in (map_option f (findIngestById i w),
          w\<lparr>ingest_records := update_where (\<lambda>r. i_id r = i) f (ingest_records w)\<rparr>))"

definition countByProjectId :: "string \<Rightarrow> string option \<Rightarrow> world \<Rightarrow> nat" where
  "countByProjectId projectId status w =
     length (filter (\<lambda>r. i_project_id r = projectId \<and> given status (\<lambda>st. i_status r = st)) (ingest_records w))"

subsection \<open>Laws\<close>

text \<open>Event ids are unique, and a project has one event per deduplication key.\<close>

definition same_key :: "event \<Rightarrow> event \<Rightarrow> bool" where
  "same_key e e' = (v_project_id e = v_project_id e' \<and> v_dedupe_key e = v_dedupe_key e' \<and> truthy_string (v_dedupe_key e))"

definition events_deduped :: "world \<Rightarrow> bool" where
  "events_deduped w =
     (distinct (map v_id (events w)) \<and>
      (\<forall>e \<in> set (events w). \<forall>e' \<in> set (events w). same_key e e' \<longrightarrow> v_id e = v_id e'))"

lemma same_key_update:
  assumes "\<And>e. v_id (f e) = v_id e" "\<And>e. v_project_id (f e) = v_project_id e" "\<And>e. v_dedupe_key (f e) = v_dedupe_key e"
    and "events_deduped w"
  shows "events_deduped (w\<lparr>events := update_where P f (events w)\<rparr>)"
  unfolding events_deduped_def
proof (intro conjI ballI impI)
  show "distinct (map v_id (events (w\<lparr>events := update_where P f (events w)\<rparr>)))"
    using assms(4) by (simp add: map_update_where assms(1) events_deduped_def)
next
  fix a b
  assume "a \<in> set (events (w\<lparr>events := update_where P f (events w)\<rparr>))" "b \<in> set (events (w\<lparr>events := update_where P f (events w)\<rparr>))"
    and k: "same_key a b"
  then obtain a0 b0 where a0: "a0 \<in> set (events w)" "a = (if P a0 then f a0 else a0)"
    and b0: "b0 \<in> set (events w)" "b = (if P b0 then f b0 else b0)"
    by (auto elim!: in_set_update_whereE)
  have "same_key a0 b0" using k by (auto simp: a0(2) b0(2) same_key_def assms(2,3) split: if_splits)
  then have "v_id a0 = v_id b0" using assms(4) a0(1) b0(1) by (simp add: events_deduped_def)
  then show "v_id a = v_id b" by (simp add: a0(2) b0(2) assms(1))
qed

lemma create_event_deduped:
  assumes "events_deduped w"
  shows "events_deduped (snd (create_event e now w))"
proof (cases "snd (create_event e now w) = w")
  case False
  define row where "row = e\<lparr>v_job_id := None, v_trigger_match_count := None, v_triggers_evaluated := None,
     v_status := ''pending'', v_processed_at := None, v_created_at := now, v_updated_at := now\<rparr>"
  have fresh: "\<forall>r \<in> set (events w). v_id r \<noteq> v_id e"
    and key: "\<forall>r \<in> set (events w). \<not> same_key e r"
    and eq: "snd (create_event e now w) = w\<lparr>events := events w @ [row]\<rparr>"
    using False
    by (auto simp: create_event_def insert_event_def Let_def row_def same_key_def findByDedupeKey_def find_row_None
        truthy_string_def split: option.splits if_splits)
  have id: "v_id row = v_id e" and sk: "same_key row r = same_key e r" for r
    by (simp_all add: row_def same_key_def)
  have "same_key r row \<Longrightarrow> same_key e r" for r by (auto simp: row_def same_key_def)
  then show ?thesis using assms fresh key by (auto simp: eq events_deduped_def id sk)
qed (simp add: assms)

inductive event_step :: "world \<Rightarrow> world \<Rightarrow> bool" where
  created: "event_step w (snd (create_event e now w))"
| evaluated: "event_step w (updateTriggerMetadata i n j now w)"
| status_set: "event_step w (snd (updateEventStatus i st pt now w))"
| linked: "event_step w (snd (linkJobToEvent i j now w))"
| claimed: "event_step w (snd (claimPendingEvents n now w))"
| recovered: "event_step w (snd (recoverStaleEvents n now w))"
| deleted: "event_step w (snd (deleteOldEvents n now w))"

lemma event_step_deduped: "event_step w w' \<Longrightarrow> events_deduped w \<Longrightarrow> events_deduped w'"
proof (induction rule: event_step.induct)
  case (deleted w n now)
  then show ?case by (auto simp: deleteOldEvents_def events_deduped_def distinct_map_delete_where)
qed (auto simp: updateTriggerMetadata_def updateEventStatus_def linkJobToEvent_def update_event_def
    claimPendingEvents_def recoverStaleEvents_def Let_def intro!: same_key_update create_event_deduped)

interpretation event_run: run_invariant event_step events_deduped
  by unfold_locales (rule event_step_deduped)

text \<open>What one claim takes, no other claim takes until the status changes again.\<close>

lemma set_pending_batch: "e \<in> set (pending_batch n w) \<Longrightarrow> e \<in> set (events w) \<and> v_status e = ''pending''"
  by (auto simp: pending_batch_def dest: in_set_takeD)

lemma claimed_ids:
  assumes "distinct (map v_id (events w))"
  shows "v_id ` set (fst (claimPendingEvents n now w)) = v_id ` set (pending_batch n w)"
    and "e \<in> set (events (snd (claimPendingEvents n now w))) \<Longrightarrow> v_id e \<in> v_id ` set (pending_batch n w) \<Longrightarrow>
      v_status e = ''processing''"
proof -
  show "v_id ` set (fst (claimPendingEvents n now w)) = v_id ` set (pending_batch n w)"
    using set_pending_batch by (force simp: claimPendingEvents_def Let_def image_iff)
  show "e \<in> set (events (snd (claimPendingEvents n now w))) \<Longrightarrow> v_id e \<in> v_id ` set (pending_batch n w) \<Longrightarrow>
      v_status e = ''processing''"
    by (auto simp: claimPendingEvents_def Let_def elim!: in_set_update_whereE split: if_splits)
qed

text \<open>
  The steps after a claim at \<open>t0\<close> that leave the event \<open>i\<close> claimed: all but an insertion under its id, a status update that sets it back to pending
  and a recovery for which it has become stale.
\<close>

inductive claim_kept :: "string \<Rightarrow> timestamp \<Rightarrow> world \<Rightarrow> world \<Rightarrow> bool" for i t0 where
  created: "v_id e \<noteq> i \<Longrightarrow> claim_kept i t0 w (snd (create_event e now w))"
| evaluated: "t0 \<le> now \<Longrightarrow> claim_kept i t0 w (updateTriggerMetadata k n j now w)"
| status_set: "t0 \<le> now \<Longrightarrow> k \<noteq> i \<or> st \<noteq> ''pending'' \<Longrightarrow> claim_kept i t0 w (snd (updateEventStatus k st pt now w))"
| linked: "t0 \<le> now \<Longrightarrow> claim_kept i t0 w (snd (linkJobToEvent k j now w))"
| claimed: "t0 \<le> now \<Longrightarrow> claim_kept i t0 w (snd (claimPendingEvents n now w))"
| recovered: "now \<le> t0 + n * 1000 \<Longrightarrow> claim_kept i t0 w (snd (recoverStaleEvents n now w))"
| deleted: "claim_kept i t0 w (snd (deleteOldEvents n now w))"

definition event_taken :: "string \<Rightarrow> timestamp \<Rightarrow> world \<Rightarrow> bool" where
  "event_taken i t0 w = (\<forall>e \<in> set (events w). v_id e = i \<longrightarrow> v_status e \<noteq> ''pending'' \<and> t0 \<le> v_updated_at e)"

lemma event_taken_update:
  "event_taken i t0 w \<Longrightarrow> (\<And>e. P e \<Longrightarrow> v_id (f e) = v_id e \<and> (v_id e = i \<longrightarrow> v_status e \<noteq> ''pending'' \<longrightarrow> t0 \<le> v_updated_at e \<longrightarrow>
     v_status (f e) \<noteq> ''pending'' \<and> t0 \<le> v_updated_at (f e))) \<Longrightarrow>
     event_taken i t0 (w\<lparr>events := update_where P f (events w)\<rparr>)"
  by (fastforce simp: event_taken_def set_update_where)

lemma insert_event_taken: "event_taken i t0 w \<Longrightarrow> v_id e \<noteq> i \<Longrightarrow> event_taken i t0 (snd (insert_event e now w))"
  by (auto simp: event_taken_def insert_event_def Let_def)

lemma claim_kept_taken: "claim_kept i t0 w w' \<Longrightarrow> event_taken i t0 w \<Longrightarrow> event_taken i t0 w'"
proof (induction rule: claim_kept.induct)
  case (created e w now)
  then show ?case by (auto simp: create_event_def insert_event_taken split: option.splits if_splits)
next
  case (recovered now n w)
  then show ?case by (auto simp: recoverStaleEvents_def stale_event_def intro!: event_taken_update)
next
  case (deleted w n now)
  then show ?case by (auto simp: event_taken_def deleteOldEvents_def delete_where_def)
qed (auto simp: updateTriggerMetadata_def updateEventStatus_def linkJobToEvent_def update_event_def claimPendingEvents_def
    Let_def intro!: event_taken_update)

interpretation claim_run: run_invariant "claim_kept i t0" "event_taken i t0" for i t0
  by unfold_locales (rule claim_kept_taken)

lemma claim_takes:
  assumes "i \<in> v_id ` set (fst (claimPendingEvents n now w))"
  shows "event_taken i now (snd (claimPendingEvents n now w))"
  using assms by (auto simp: event_taken_def claimPendingEvents_def Let_def set_update_where split: if_splits)

lemma taken_not_claimed:
  assumes "event_taken i t0 w"
  shows "i \<notin> v_id ` set (fst (claimPendingEvents n now w))"
proof
  assume "i \<in> v_id ` set (fst (claimPendingEvents n now w))"
  then have "i \<in> v_id ` set (pending_batch n w)" by (auto simp: claimPendingEvents_def Let_def)
  then show False using set_pending_batch [of _ n w] assms by (auto simp: event_taken_def)
qed

end
