(* ===== verification/Json_Parse.thy ===== *)
theory Json_Parse
  imports Loop_Control
begin

section \<open>JSON texts\<close>

text \<open>
  \<^verbatim>\<open>JSON.parse\<close> as the loop uses it on text a hint holds, and the casts of the SQL queries that read a JSON
  hint as a boolean or an integer. The parser is by recursive descent; its fuel is the length of the
  text, since every call consumes a character. Strings are over 8-bit characters: an escape for another
  character makes the parse fail.
\<close>

definition json_space :: "char \<Rightarrow> bool" where
  "json_space c = ((of_char c :: nat) \<in> {9, 10, 13, 32})"

definition skip_space :: "string \<Rightarrow> string" where
  "skip_space t = dropWhile json_space t"

definition hex_value :: "char \<Rightarrow> nat option" where
  "hex_value c =
     (let n = of_char (lower_char c) :: nat
      in if 48 \<le> n \<and> n \<le> 57 then Some (n - 48) else if 97 \<le> n \<and> n \<le> 102 then Some (n - 87) else None)"

definition unescape :: "char \<Rightarrow> char option" where
  "unescape c =
     (if c \<in> {CHR 0x22, CHR 0x5C, CHR ''/''} then Some c
      else if c = CHR ''b'' then Some (CHR 0x08)
      else if c = CHR ''f'' then Some (CHR 0x0C)
      else if c = CHR ''n'' then Some (CHR 0x0A)
      else if c = CHR ''r'' then Some (CHR 0x0D)
      else if c = CHR ''t'' then Some (CHR 0x09)
      else None)"

definition hex4 :: "char \<Rightarrow> char \<Rightarrow> char \<Rightarrow> char \<Rightarrow> nat option" where
  "hex4 a b c d =
     (case (hex_value a, hex_value b, hex_value c, hex_value d) of
        (Some p, Some q, Some r, Some s) \<Rightarrow> Some (((p * 16 + q) * 16 + r) * 16 + s)
      | _ \<Rightarrow> None)"

text \<open>The characters of a string up to its closing quote, and what follows the quote.\<close>

fun parse_chars :: "string \<Rightarrow> (string \<times> string) option" where
  "parse_chars [] = None"
| "parse_chars (c # cs) =
     (if c = CHR 0x22 then Some ([], cs)
      else if (of_char c :: nat) < 32 then None
      else if c = CHR 0x5C then
        (case cs of
           [] \<Rightarrow> None
         | e # es \<Rightarrow>
             if e = CHR ''u'' then
               (case es of
                  h1 # h2 # h3 # h4 # rest \<Rightarrow>
                    (case hex4 h1 h2 h3 h4 of
                       None \<Rightarrow> None
                     | Some n \<Rightarrow> if n < 256 then map_option (apfst ((#) (char_of n))) (parse_chars rest) else None)
                | _ \<Rightarrow> None)
             else
               (case unescape e of
                  None \<Rightarrow> None
                | Some x \<Rightarrow> map_option (apfst ((#) x)) (parse_chars es)))
      else map_option (apfst ((#) c)) (parse_chars cs))"

text \<open>\<^verbatim>\<open>-?(0|[1-9]\d*)(\.\d+)?([eE][+-]?\d+)?\<close>\<close>

definition parse_frac :: "string \<Rightarrow> (rat \<times> string) option" where
  "parse_frac t =
     (case t of
        c # cs \<Rightarrow>
          if c = CHR ''.'' then
            (let fs = takeWhile is_digit cs
             in map_option (\<lambda>f. (of_nat f / 10 ^ length fs, dropWhile is_digit cs)) (read_nat fs))
          else Some (0, t)
      | [] \<Rightarrow> Some (0, t))"

definition parse_exp :: "string \<Rightarrow> (rat \<times> string) option" where
  "parse_exp t =
     (case t of
        c # cs \<Rightarrow>
          if c = CHR ''e'' \<or> c = CHR ''E'' then
            (let (neg, ds) = (case cs of
                 d # r \<Rightarrow> if d = CHR ''-'' then (True, r) else if d = CHR ''+'' then (False, r) else (False, cs)
               | [] \<Rightarrow> (False, cs))
             in map_option (\<lambda>n. (if neg then 1 / 10 ^ n else 10 ^ n, dropWhile is_digit ds))
                  (read_nat (takeWhile is_digit ds)))
          else Some (1, t)
      | [] \<Rightarrow> Some (1, t))"

definition parse_number :: "string \<Rightarrow> (rat \<times> string) option" where
  "parse_number t =
     (let (sign, u) = (case t of c # cs \<Rightarrow> if c = CHR ''-'' then (-1 :: rat, cs) else (1, t) | [] \<Rightarrow> (1, t));
          ds = takeWhile is_digit u
      in if 1 < length ds \<and> hd ds = CHR ''0'' then None
         else case read_nat ds of
             None \<Rightarrow> None
           | Some n \<Rightarrow>
               (case parse_frac (dropWhile is_digit u) of
                  None \<Rightarrow> None
                | Some (f, v) \<Rightarrow>
                    (case parse_exp v of
                       None \<Rightarrow> None
                     | Some (e, rest) \<Rightarrow> Some (sign * (of_nat n + f) * e, rest))))"

definition literal :: "string \<Rightarrow> json \<Rightarrow> string \<Rightarrow> (json \<times> string) option" where
  "literal word v t = (if starts_with word t then Some (v, drop (length word) t) else None)"

fun parse_value :: "nat \<Rightarrow> string \<Rightarrow> (json \<times> string) option"
  and parse_elements :: "nat \<Rightarrow> string \<Rightarrow> (json list \<times> string) option"
  and parse_members :: "nat \<Rightarrow> string \<Rightarrow> (jobject \<times> string) option" where
  "parse_value 0 t = None"
| "parse_value (Suc fuel) t =
     (case skip_space t of
        [] \<Rightarrow> None
      | c # cs \<Rightarrow>
          if c = CHR ''{'' then
            (case skip_space cs of
               d # ds \<Rightarrow> if d = CHR ''}'' then Some (JObj [], ds) else map_option (apfst JObj) (parse_members fuel (d # ds))
             | [] \<Rightarrow> None)
          else if c = CHR ''['' then
            (case skip_space cs of
               d # ds \<Rightarrow> if d = CHR '']'' then Some (JArr [], ds) else map_option (apfst JArr) (parse_elements fuel (d # ds))
             | [] \<Rightarrow> None)
          else if c = CHR 0x22 then map_option (apfst JStr) (parse_chars cs)
          else if c = CHR ''n'' then literal ''null'' JNull (c # cs)
          else if c = CHR ''t'' then literal ''true'' (JBool True) (c # cs)
          else if c = CHR ''f'' then literal ''false'' (JBool False) (c # cs)
          else map_option (apfst JNum) (parse_number (c # cs)))"
| "parse_elements 0 t = None"
| "parse_elements (Suc fuel) t =
     (case parse_value fuel t of
        None \<Rightarrow> None
      | Some (v, r) \<Rightarrow>
          (case skip_space r of
             c # cs \<Rightarrow>
               if c = CHR '','' then map_option (apfst ((#) v)) (parse_elements fuel cs)
               else if c = CHR '']'' then Some ([v], cs)
               else None
           | [] \<Rightarrow> None))"
| "parse_members 0 t = None"
| "parse_members (Suc fuel) t =
     (case skip_space t of
        q # ks \<Rightarrow>
          if q \<noteq> CHR 0x22 then None
          else
            (case parse_chars ks of
               None \<Rightarrow> None
             | Some (k, r) \<Rightarrow>
                 (case skip_space r of
                    col # us \<Rightarrow>
                      if col \<noteq> CHR '':'' then None
                      else
                        (case parse_value fuel us of
                           None \<Rightarrow> None
                         | Some (v, r1) \<Rightarrow>
                             (case skip_space r1 of
                                c # cs \<Rightarrow>
                                  if c = CHR '','' then
                                    map_option (apfst (\<lambda>kvs. if k \<in> fst ` set kvs then kvs else (k, v) # kvs))
                                      (parse_members fuel cs)
                                  else if c = CHR ''}'' then Some ([(k, v)], cs)
                                  else None
                              | [] \<Rightarrow> None))
                  | [] \<Rightarrow> None))
      | [] \<Rightarrow> None)"

definition json_parse :: "string \<Rightarrow> json option" where
  "json_parse t =
     (case parse_value (2 * length t + 1) t of
        Some (v, r) \<Rightarrow> if skip_space r = [] then Some v else None
      | None \<Rightarrow> None)"

subsection \<open>Casts of the queries\<close>

text \<open>
  \<^verbatim>\<open>(j->>key)::boolean\<close>: SQL null for an absent or null value; Postgres reads true, yes, on, 1 and their
  opposites, in any case, and unambiguous prefixes of the words.
\<close>

definition text_boolean :: "string \<Rightarrow> bool option" where
  "text_boolean t =
     (let u = to_lower (js_trim t)
      in if u \<in> {''t'', ''tr'', ''tru'', ''true'', ''y'', ''ye'', ''yes'', ''on'', ''1''} then Some True
         else if u \<in> {''f'', ''fa'', ''fal'', ''fals'', ''false'', ''n'', ''no'', ''of'', ''off'', ''0''} then Some False
         else None)"

definition sql_boolean :: "json option \<Rightarrow> db_error + bool option" where
  "sql_boolean v =
     (case v of
        None \<Rightarrow> Inr None
      | Some JNull \<Rightarrow> Inr None
      | Some (JBool b) \<Rightarrow> Inr (Some b)
      | Some (JNum n) \<Rightarrow> if n = 1 then Inr (Some True) else if n = 0 then Inr (Some False) else Inl Invalid_text_representation
      | Some (JStr t) \<Rightarrow>
          (case text_boolean t of Some b \<Rightarrow> Inr (Some b) | None \<Rightarrow> Inl Invalid_text_representation)
      | Some (JArr _) \<Rightarrow> Inl Invalid_text_representation
      | Some (JObj _) \<Rightarrow> Inl Invalid_text_representation)"

text \<open>\<^verbatim>\<open>CASE WHEN (j->>key) ~ '^[0-9]+$' THEN (j->>key)::int ELSE d END\<close>.\<close>

definition sql_digits :: "json option \<Rightarrow> nat option" where
  "sql_digits v =
     (case v of
        Some (JNum n) \<Rightarrow> if 0 \<le> n \<and> n = of_int \<lfloor>n\<rfloor> then Some (nat \<lfloor>n\<rfloor>) else None
      | Some (JStr t) \<Rightarrow> read_nat t
      | _ \<Rightarrow> None)"

definition sql_int_or :: "int \<Rightarrow> json option \<Rightarrow> db_error + int" where
  "sql_int_or d v =
     (case sql_digits v of
        None \<Rightarrow> Inr d
      | Some n \<Rightarrow> if n \<le> 2147483647 then Inr (int n) else Inl Numeric_out_of_range)"

end
