(* ===== verification/Loop_Store.thy ===== *)
theory Loop_Store
  imports Ledger Events Json_Parse
begin

section \<open>What the loop writes besides the job store's own operations\<close>

text \<open>
  \<^verbatim>\<open>apps/orchestrator/src/loop/loop.service.ts\<close>: the events it emits, receipts and charges, budget notes,
  conditional steps, the claims of the dispatch loop, pipeline-run and workflow-root status, wake-on conditions
  and ingest status. An operation that catches its errors returns the state its statements left behind.
  Everything drawn or computed outside these functions is the record \<open>ext\<close>: generated ids (by the key
  they are drawn for), the budget check (\<open>Some\<close> reason is a block), the receipt assembled for an attempt
  (\<open>None\<close> when it cannot be), and whether a coordination thread exists.
\<close>

record ext =
  x_event_id :: "string \<Rightarrow> string"
  x_tx_id :: "string \<Rightarrow> string"
  x_attempt_id :: "string \<Rightarrow> string"
  x_budget :: "job \<Rightarrow> world \<Rightarrow> string option"
  x_receipt :: "job \<Rightarrow> attempt \<Rightarrow> world \<Rightarrow> (json \<times> rat \<times> rat \<times> string) option"
  x_thread :: "string \<Rightarrow> bool"

subsection \<open>Events\<close>

definition new_event ::
  "string \<Rightarrow> string \<Rightarrow> string option \<Rightarrow> string option \<Rightarrow> jobject \<Rightarrow> string \<Rightarrow> ext \<Rightarrow> event" where
  "new_event projectId type env ref_sha payload key x =
     \<lparr>v_id = x_event_id x key, v_project_id = projectId, v_type = type, v_source = ''system'', v_env_name = env,
      v_ref_sha = ref_sha, v_ref_branch = None, v_actor_type = Some ''system'', v_actor_id = Some ''orchestrator'',
      v_payload_json = Some payload, v_dedupe_key = Some key, v_job_id = None, v_trigger_match_count = None,
      v_triggers_evaluated = None, v_status = ''pending'', v_processed_at = None, v_created_at = 0, v_updated_at = 0\<rparr>"

definition emit :: "event \<Rightarrow> timestamp \<Rightarrow> world \<Rightarrow> world" where
  "emit e now w = snd (create_event e now w)"

fun execution_type_name :: "execution_type \<Rightarrow> string" where
  "execution_type_name ExecAgent = ''agent''"
| "execution_type_name ExecScript = ''script''"
| "execution_type_name ExecAction = ''action''"

definition not_null :: "json option \<Rightarrow> json option" where
  "not_null v = (if v = Some JNull then None else v)"

definition pipeline_label :: "string list \<Rightarrow> json option" where
  "pipeline_label labels =
     map_option (\<lambda>l. JStr (drop 9 l)) (find_row (\<lambda>l. starts_with ''pipeline:'' l) labels)"

definition emitJobFailureEvent ::
  "ext \<Rightarrow> job \<Rightarrow> string list \<Rightarrow> string \<Rightarrow> string \<Rightarrow> string \<Rightarrow> int option \<Rightarrow> timestamp \<Rightarrow> world \<Rightarrow> world" where
  "emitJobFailureEvent x job labels attemptId errorMessage errorCode exitCode now w =
     emit (new_event (j_project_id job) ''system.job.failed'' None (json_string (obj_get (j_hints job) ''git_sha''))
       [(''job_id'', JStr (j_id job)), (''attempt_id'', JStr attemptId), (''run_id'', json_opt (j_run_id job)),
        (''step_name'', json_opt (j_step_name job)),
        (''execution_type'', JStr (execution_type_name (j_execution_type job))),
        (''action_type'', json_opt (j_action_type job)),
        (''pipeline_name'', or_default JNull
           (coalesce (not_null (obj_get (j_hints job) ''pipeline_name'')) (pipeline_label labels))),
        (''error_message'', JStr errorMessage), (''error_code'', JStr errorCode),
        (''exit_code'', (case exitCode of None \<Rightarrow> JNull | Some c \<Rightarrow> JNum (of_int c)))]
       (''job_failed:'' @ j_id job @ '':'' @ attemptId) x) now w"

definition coordination_thread :: "jobject \<Rightarrow> json option" where
  "coordination_thread hints =
     not_null (Option.bind (obj_get hints ''coordination'') (\<lambda>c. json_get c ''thread_id''))"

definition emitJobAttemptCompletedEvent ::
  "ext \<Rightarrow> job \<Rightarrow> string \<Rightarrow> bool \<Rightarrow> int option \<Rightarrow> timestamp \<Rightarrow> world \<Rightarrow> world" where
  "emitJobAttemptCompletedEvent x job attemptId succeeded durationMs now w =
     emit (new_event (j_project_id job) ''system.job.attempt.completed'' None
       (json_string (obj_get (j_hints job) ''git_sha''))
       [(''job_id'', JStr (j_id job)), (''attempt_id'', JStr attemptId), (''assignee'', json_opt (j_assignee job)),
        (''thread_id'', or_default JNull (coordination_thread (j_hints job))),
        (''execution_type'', JStr (execution_type_name (j_execution_type job))),
        (''status'', JStr (if succeeded then ''succeeded'' else ''failed'')),
        (''duration_ms'', (case durationMs of None \<Rightarrow> JNull | Some d \<Rightarrow> JNum (of_int d)))]
       (''job_attempt_completed:'' @ j_id job @ '':'' @ attemptId) x) now w"

definition emitPipelineFailureEvent :: "ext \<Rightarrow> pipeline_run \<Rightarrow> string \<Rightarrow> timestamp \<Rightarrow> world \<Rightarrow> world" where
  "emitPipelineFailureEvent x run errorMessage now w =
     emit (new_event (pr_project_id run) ''system.pipeline.failed'' (pr_env_name run) (pr_git_sha run)
       [(''run_id'', JStr (pr_id run)), (''pipeline_name'', JStr (pr_pipeline_name run)),
        (''env_name'', json_opt (pr_env_name run)), (''git_sha'', json_opt (pr_git_sha run)),
        (''error_message'', JStr errorMessage), (''error_code'', JStr ''pipeline_failed'')]
       (''pipeline_failed:'' @ pr_id run) x) now w"

subsection \<open>Receipts and charges\<close>

definition tryPersistAttemptReceipt :: "ext \<Rightarrow> job \<Rightarrow> attempt \<Rightarrow> world \<Rightarrow> world" where
  "tryPersistAttemptReceipt x job att w =
     (if json_truthy (a_receipt_json att) then w
      else if a_ended_at att = None then w
      else if \<not> exists_row (\<lambda>p. p_id p = j_project_id job) (projects (store w)) then w
      else case x_receipt x job att w of
          None \<Rightarrow> w
        | Some (receipt, base, billed, currency) \<Rightarrow>
            w\<lparr>store := updateAttemptReceipt (a_id att) receipt base billed currency (store w)\<rparr>)"

definition tryChargeForReceipt :: "ext \<Rightarrow> job \<Rightarrow> attempt \<Rightarrow> timestamp \<Rightarrow> world \<Rightarrow> world" where
  "tryChargeForReceipt x job att now w =
     (if \<not> json_truthy (a_receipt_json att) then w
      else case (a_receipt_billed_total att, a_receipt_billed_currency att) of
          (Some billedTotal, Some billedCurrency) \<Rightarrow>
            if billedTotal \<le> 0 \<or> billedCurrency = [] then w
            else
              (case find_row (\<lambda>p. p_id p = j_project_id job) (projects (store w)) of
                 None \<Rightarrow> w
               | Some project \<Rightarrow>
                   (case ensureBalance (p_org_id project) billedCurrency now w of
                      (Inl _, w1) \<Rightarrow> w1
                    | (Inr _, w1) \<Rightarrow>
                        snd (createTransaction
                          \<lparr>ti_id = x_tx_id x (a_id att), ti_org_id = p_org_id project, ti_type = ''charge'',
                           ti_amount = billedTotal, ti_currency = billedCurrency,
                           ti_description = Some (''Job '' @ j_id job @ '' attempt '' @ a_id att @ '' charge''),
                           ti_source_type = ''receipt'', ti_source_id = a_id att\<rparr> now w1)))
        | _ \<Rightarrow> w)"

subsection \<open>Budget notes\<close>

definition annotateBudgetBlocked :: "string \<Rightarrow> string \<Rightarrow> timestamp \<Rightarrow> db \<Rightarrow> db" where
  "annotateBudgetBlocked jobId reason now s =
     (case find_row (\<lambda>j. j_id j = jobId) (jobs s) of
        None \<Rightarrow> s
      | Some j \<Rightarrow>
          (case sql_boolean (obj_get (j_hints j) ''budget_blocked'') of
             Inl _ \<Rightarrow> s
           | Inr b \<Rightarrow>
               if b \<noteq> Some True \<or> or_default [] (json_string (obj_get (j_hints j) ''budget_blocked_reason'')) \<noteq> reason
               then update_jobs (\<lambda>j. j_id j = jobId)
                 (\<lambda>j. j\<lparr>j_hints := jsonb_concat (j_hints j)
                          [(''budget_blocked'', JBool True), (''budget_blocked_reason'', JStr reason)],
                        j_updated_at := now\<rparr>) s
               else s))"

definition clearBudgetBlocked :: "string \<Rightarrow> timestamp \<Rightarrow> db \<Rightarrow> db" where
  "clearBudgetBlocked jobId now s =
     update_jobs (\<lambda>j. j_id j = jobId \<and>
         (obj_get (j_hints j) ''budget_blocked'' \<noteq> None \<or> obj_get (j_hints j) ''budget_blocked_reason'' \<noteq> None))
       (\<lambda>j. j\<lparr>j_hints := obj_del ''budget_blocked_reason'' (obj_del ''budget_blocked'' (j_hints j)),
              j_updated_at := now\<rparr>) s"

subsection \<open>Conditional steps\<close>

definition word_char :: "char \<Rightarrow> bool" where
  "word_char c =
     (let n = of_char c :: nat
      in (48 \<le> n \<and> n \<le> 57) \<or> (65 \<le> n \<and> n \<le> 90) \<or> n = 95 \<or> (97 \<le> n \<and> n \<le> 122))"

definition is_quote :: "char \<Rightarrow> bool" where
  "is_quote c = (c = CHR 0x27 \<or> c = CHR 0x22)"

text \<open>
  \<^verbatim>\<open>/^(\w[\w-]*)\s*\.\s*status\s*(==|!=)\s*['"]([^'"]*)['"]\s*$/\<close>: step name, operator (is it \<^verbatim>\<open>==\<close>) and value.
  Every repetition is followed by a character it cannot match, so matching greedily is matching.
\<close>

definition after_space :: "string \<Rightarrow> string" where
  "after_space t = dropWhile is_space t"

definition parse_condition :: "string \<Rightarrow> (string \<times> bool \<times> string) option" where
  "parse_condition t =
     (let step = takeWhile (\<lambda>c. word_char c \<or> c = CHR ''-'') t;
          r1 = after_space (drop (length step) t)
      in if step = [] \<or> \<not> word_char (hd step) \<or> \<not> starts_with ''.'' r1 then None
         else
           let r2 = after_space (drop 1 r1)
           in if \<not> starts_with ''status'' r2 then None
              else
                let r3 = after_space (drop 6 r2)
                in if \<not> (starts_with ''=='' r3 \<or> starts_with ''!='' r3) then None
                   else
                     let r4 = after_space (drop 2 r3);
                         v = takeWhile (\<lambda>c. \<not> is_quote c) (drop 1 r4);
                         r5 = drop (length v) (drop 1 r4)
                     in if r4 = [] \<or> \<not> is_quote (hd r4) \<or> r5 = [] \<or> after_space (drop 1 r5) \<noteq> [] then None
                        else Some (step, starts_with ''=='' r3, v))"

definition step_is :: "string \<Rightarrow> job \<Rightarrow> bool" where
  "step_is name j = (j_step_name j = Some name \<or> obj_get (j_hints j) ''step_name'' = Some (JStr name))"

definition attempt_eve_status :: "attempt option \<Rightarrow> string option" where
  "attempt_eve_status att =
     json_string (Option.bind (Option.bind (Option.bind att a_result_json) (\<lambda>o'. obj_get o' ''eve''))
       (\<lambda>eve. json_get eve ''status''))"

definition condition_reason :: "string \<Rightarrow> string option \<Rightarrow> string" where
  "condition_reason condition actual =
     ''Condition '' @ [CHR 0x22] @ condition @ [CHR 0x22] @ '' not met (actual status: '' @
     (case actual of None \<Rightarrow> ''undefined'' | Some t \<Rightarrow> [CHR 0x22] @ t @ [CHR 0x22]) @ '')''"

text \<open>\<open>None\<close>: no condition applies. \<open>Some None\<close>: run. \<open>Some (Some reason)\<close>: skip.\<close>

definition evaluateStepCondition :: "job \<Rightarrow> db \<Rightarrow> string option option" where
  "evaluateStepCondition job s =
     (case (json_string (obj_get (j_hints job) ''condition''), j_parent_id job) of
        (Some condition, Some parent) \<Rightarrow>
          if parent = [] then None
          else
            (case parse_condition condition of
               None \<Rightarrow> None
             | Some (refStepName, equal, expected) \<Rightarrow>
                 (case coalesce (find_row (step_is refStepName) (map fst (getDependencies (j_id job) s)))
                     (findSiblingByStepName parent refStepName s) of
                    None \<Rightarrow> None
                  | Some sibling \<Rightarrow>
                      if \<not> terminal_phase (j_phase sibling) then None
                      else
                        let actual = attempt_eve_status (getLatestAttempt (j_id sibling) s)
                        in if (actual = Some expected) = equal then Some None
                           else Some (Some (condition_reason condition actual))))
      | _ \<Rightarrow> None)"

definition skip_row :: "timestamp \<Rightarrow> job \<Rightarrow> job" where
  "skip_row now j =
     j\<lparr>j_phase := Done, j_close_reason := Some ''condition_not_met'', j_closed_at := Some now, j_updated_at := now\<rparr>"

definition skipConditionalJob :: "string \<Rightarrow> timestamp \<Rightarrow> db \<Rightarrow> db" where
  "skipConditionalJob jobId now s =
     update_jobs (\<lambda>j. j_id j = jobId \<and> \<not> terminal_phase (j_phase j)) (skip_row now) s"

subsection \<open>Claims of the dispatch loop\<close>

definition claimNextPipelineRun :: "timestamp \<Rightarrow> db \<Rightarrow> pipeline_run option \<times> db" where
  "claimNextPipelineRun now s =
     (case first_row (order_by pr_created_at
         (filter (\<lambda>r. pr_status r = ''pending'' \<and> pr_run_mode r \<noteq> Some ''jobs'') (pipeline_runs s))) of
        None \<Rightarrow> (None, s)
      | Some run \<Rightarrow>
          let f = (\<lambda>r. r\<lparr>pr_status := ''running'', pr_started_at := coalesce (pr_started_at r) (Some now),
                         pr_updated_at := now\<rparr>)
          in (Some (f run), s\<lparr>pipeline_runs := update_where (\<lambda>r. pr_id r = pr_id run) f (pipeline_runs s)\<rparr>))"

definition effective_harness :: "job \<Rightarrow> string option" where
  "effective_harness job = coalesce (j_harness job) (json_string (obj_get (j_hints job) ''harness''))"

text \<open>The candidates in order; the claim of one that fails leads to the next.\<close>

fun claim_candidates ::
  "(job \<Rightarrow> string) \<Rightarrow> ext \<Rightarrow> job list \<Rightarrow> timestamp \<Rightarrow> world \<Rightarrow> (db_error + (job \<times> attempt) option) \<times> world" where
  "claim_candidates agent x [] now w = (Inr None, w)"
| "claim_candidates agent x (job # js) now w =
     (case evaluateStepCondition job (store w) of
        Some (Some reason) \<Rightarrow>
          claim_candidates agent x js now (w\<lparr>store := skipConditionalJob (j_id job) now (store w)\<rparr>)
      | _ \<Rightarrow>
          (case x_budget x job w of
             Some reason \<Rightarrow>
               claim_candidates agent x js now (w\<lparr>store := annotateBudgetBlocked (j_id job) reason now (store w)\<rparr>)
           | None \<Rightarrow>
               let w1 = w\<lparr>store := clearBudgetBlocked (j_id job) now (store w)\<rparr>
               in (case claim (j_id job) (agent job) (effective_harness job) now (x_attempt_id x (j_id job)) (store w1) of
                     (Inl e, s2) \<Rightarrow> (Inl e, w1\<lparr>store := s2\<rparr>)
                   | (Inr (Inl _), s2) \<Rightarrow> claim_candidates agent x js now (w1\<lparr>store := s2\<rparr>)
                   | (Inr (Inr att), s2) \<Rightarrow>
                       (case findById (j_id job) s2 of
                          None \<Rightarrow> claim_candidates agent x js now (w1\<lparr>store := s2\<rparr>)
                        | Some updated \<Rightarrow> (Inr (Some (updated, att)), w1\<lparr>store := s2\<rparr>)))))"

definition claimNextJobWithBudgetCheck ::
  "ext \<Rightarrow> timestamp \<Rightarrow> world \<Rightarrow> (db_error + (job \<times> attempt) option) \<times> world" where
  "claimNextJobWithBudgetCheck x now w =
     claim_candidates (\<lambda>_. ''orchestrator'') x (getReadyJobs [] None (Some 20) now (store w)) now w"

definition claimNextAssignedJobWithBudgetCheck ::
  "ext \<Rightarrow> timestamp \<Rightarrow> world \<Rightarrow> (db_error + (job \<times> attempt) option) \<times> world" where
  "claimNextAssignedJobWithBudgetCheck x now w =
     claim_candidates (\<lambda>job. or_default ''orchestrator'' (j_assignee job)) x
       (getReadyAssignedJobs [] (Some 20) now (store w)) now w"

subsection \<open>Ingest records\<close>

definition syncIngestRecordStatus ::
  "string \<Rightarrow> jobject \<Rightarrow> bool \<Rightarrow> string option \<Rightarrow> timestamp \<Rightarrow> world \<Rightarrow> world" where
  "syncIngestRecordStatus jobId hints succeeded errorMessage now w =
     (if json_truthy (obj_get hints ''workflow_name'') \<and> \<not> json_truthy (obj_get hints ''workflow_root'') then w
      else case Option.bind (json_string (obj_get hints ''request_json'')) json_parse of
          None \<Rightarrow> w
        | Some parsed \<Rightarrow>
            (case json_string (Option.bind (json_get parsed ''payload'') (\<lambda>p. json_get p ''ingest_id'')) of
               None \<Rightarrow> w
             | Some ingestId \<Rightarrow>
                 (case findIngestById ingestId w of
                    None \<Rightarrow> w
                  | Some r \<Rightarrow>
                      if i_status r \<in> {''done'', ''failed''} then w
                      else if succeeded then
                        snd (updateIngestStatus ingestId ''done''
                          \<lparr>if_event_id = None, if_job_id = Some jobId, if_error_message = None, if_completed_at = Some now\<rparr>
                          now w)
                      else
                        snd (updateIngestStatus ingestId ''failed''
                          \<lparr>if_event_id = None, if_job_id = Some jobId,
                           if_error_message = Some (or_default ''Processing job failed'' errorMessage),
                           if_completed_at = Some now\<rparr> now w))))"

subsection \<open>Workflow roots\<close>

definition current_children :: "string \<Rightarrow> db \<Rightarrow> job list" where
  "current_children parentId s = filter (\<lambda>j. j_parent_id j = Some parentId \<and> \<not> superseded j) (jobs s)"

definition count_phase :: "phase \<Rightarrow> job list \<Rightarrow> nat" where
  "count_phase p js = length (filter (\<lambda>j. j_phase j = p) js)"

definition steps_text :: "nat \<Rightarrow> nat \<Rightarrow> string" where
  "steps_text succeeded n_all = show_nat succeeded @ ''/'' @ show_nat n_all @ '' current steps succeeded''"

text \<open>Close the root and report to the ingest record; an error of \<^verbatim>\<open>markJobDone\<close> ends the call.\<close>

definition close_root :: "string \<Rightarrow> jobject \<Rightarrow> nat \<Rightarrow> nat \<Rightarrow> nat \<Rightarrow> timestamp \<Rightarrow> world \<Rightarrow> (exn + unit) \<times> world" where
  "close_root rootId hints succeeded failed n_all now w =
     (let allSucceeded = (failed = 0 \<and> succeeded = n_all);
          finish = (\<lambda>w. syncIngestRecordStatus rootId hints allSucceeded
            (if allSucceeded then None else Some (''Workflow failed ('' @ steps_text succeeded n_all @ '')'')) now w)
      in if allSucceeded then
           (case markJobDone rootId None now (store w) of
              (Inl e, s1) \<Rightarrow> (Inl e, w\<lparr>store := s1\<rparr>)
            | (Inr _, s1) \<Rightarrow> (Inr (), finish (w\<lparr>store := s1\<rparr>)))
         else
           let s1 = snd (cancelJob rootId (Some (''Workflow failed: '' @ steps_text succeeded n_all)) now (store w))
           in (Inr (), finish (w\<lparr>store := s1\<rparr>)))"

definition tryCloseWorkflowRoot :: "string \<Rightarrow> timestamp \<Rightarrow> world \<Rightarrow> world" where
  "tryCloseWorkflowRoot parentId now w =
     (case findById parentId (store w) of
        None \<Rightarrow> w
      | Some parent \<Rightarrow>
          if \<not> json_truthy (obj_get (j_hints parent) ''workflow_root'') then w
          else if terminal_phase (j_phase parent) then w
          else
            let children = current_children parentId (store w);
                n_all = length children;
                succeeded = count_phase Done children;
                failed = count_phase Cancelled children
            in if n_all = 0 \<or> n_all \<noteq> succeeded + failed then w
               else snd (close_root parentId (j_hints parent) succeeded failed n_all now w))"

text \<open>The zombies are selected by one query; a hint that is no boolean makes it fail.\<close>

fun zombie_roots :: "db \<Rightarrow> job list \<Rightarrow> db_error + (job \<times> nat \<times> nat \<times> nat) list" where
  "zombie_roots s [] = Inr []"
| "zombie_roots s (r # rs) =
     (if j_phase r \<noteq> Active then zombie_roots s rs
      else case sql_boolean (obj_get (j_hints r) ''workflow_root'') of
          Inl e \<Rightarrow> Inl e
        | Inr b \<Rightarrow>
            let c = current_children (j_id r) s
            in if b = Some True \<and> c \<noteq> [] \<and> length c = count_phase Done c + count_phase Cancelled c
               then map_sum id (\<lambda>zs. (r, count_phase Done c, count_phase Cancelled c, length c) # zs) (zombie_roots s rs)
               else zombie_roots s rs)"

fun sweep_roots :: "(job \<times> nat \<times> nat \<times> nat) list \<Rightarrow> timestamp \<Rightarrow> world \<Rightarrow> world" where
  "sweep_roots [] now w = w"
| "sweep_roots ((r, succeeded, failed, n_all) # zs) now w =
     (case close_root (j_id r) (j_hints r) succeeded failed n_all now w of
        (Inl _, w1) \<Rightarrow> w1
      | (Inr _, w1) \<Rightarrow> sweep_roots zs now w1)"

definition sweepZombieWorkflowRoots :: "timestamp \<Rightarrow> world \<Rightarrow> world" where
  "sweepZombieWorkflowRoots now w =
     (case zombie_roots (store w) (jobs (store w)) of Inl _ \<Rightarrow> w | Inr zs \<Rightarrow> sweep_roots zs now w)"

definition cancelStagedBacklogChildren :: "job \<Rightarrow> string \<Rightarrow> timestamp \<Rightarrow> db \<Rightarrow> db" where
  "cancelStagedBacklogChildren job reason now s =
     (if obj_get (j_hints job) ''staged'' \<noteq> Some (JBool True) then s
      else update_jobs (\<lambda>j. j_parent_id j = Some (j_id job) \<and> j_phase j = Backlog)
        (\<lambda>j. j\<lparr>j_phase := Cancelled, j_updated_at := now, j_close_reason := Some reason\<rparr>) s)"

subsection \<open>Wake-on conditions\<close>

definition children :: "string \<Rightarrow> db \<Rightarrow> job list" where
  "children jobId s = filter (\<lambda>j. j_parent_id j = Some jobId) (jobs s)"

definition wake_condition :: "job \<Rightarrow> string \<Rightarrow> db \<Rightarrow> bool" where
  "wake_condition job condition s =
     (let cs = children (j_id job) s
      in if condition = ''child.done'' then exists_row (\<lambda>j. terminal_phase (j_phase j)) cs
         else if condition = ''children.all_done'' then cs \<noteq> [] \<and> list_all (\<lambda>j. terminal_phase (j_phase j)) cs
         else if condition = ''thread.message'' then
           (case (json_string (coordination_thread (j_hints job)), j_defer_until job) of
              (Some threadId, Some d) \<Rightarrow>
                threadId \<noteq> [] \<and> exists_row (\<lambda>m. m_thread_id m = threadId \<and> d < m_created_at m) (thread_messages s)
            | _ \<Rightarrow> False)
         else False)"

definition wake_on_hint :: "job \<Rightarrow> json option" where
  "wake_on_hint job = Option.bind (obj_get (j_hints job) ''wait'') (\<lambda>v. json_get v ''wake_on'')"

definition wake_list :: "job \<Rightarrow> string list" where
  "wake_list job = (case wake_on_hint job of Some (JArr vs) \<Rightarrow> strings_of vs | _ \<Rightarrow> [])"

definition deferred_waiting :: "timestamp \<Rightarrow> job \<Rightarrow> bool" where
  "deferred_waiting now j =
     (j_phase j = Ready \<and> (case j_defer_until j of None \<Rightarrow> False | Some d \<Rightarrow> now < d) \<and> wake_on_hint j \<noteq> None)"

definition wake_job :: "timestamp \<Rightarrow> db \<Rightarrow> job \<Rightarrow> db" where
  "wake_job now s job =
     (if list_ex (\<lambda>c. wake_condition job c s) (wake_list job)
      then update_jobs (\<lambda>j. j_id j = j_id job) (\<lambda>j. j\<lparr>j_defer_until := None, j_updated_at := now\<rparr>) s
      else s)"

definition processWakeOnConditions :: "timestamp \<Rightarrow> db \<Rightarrow> db" where
  "processWakeOnConditions now s = foldl (wake_job now) s (filter (deferred_waiting now) (jobs s))"

subsection \<open>Pipeline runs\<close>

definition run_jobs :: "string \<Rightarrow> db \<Rightarrow> job list" where
  "run_jobs runId s = filter (\<lambda>j. j_run_id j = Some runId) (jobs s)"

definition failed_job :: "job \<Rightarrow> bool" where
  "failed_job j =
     (j_phase j = Cancelled \<and> j_close_reason j \<noteq> None \<and>
      j_close_reason j \<notin> {Some ''cancelled'', Some ''Job cancelled''})"

definition started_job :: "job \<Rightarrow> bool" where
  "started_job j = (j_phase j \<in> {Active, Review, Done, Cancelled})"

text \<open>\<^verbatim>\<open>ORDER BY closed_at ASC NULLS LAST\<close>.\<close>

definition closed_key :: "job \<Rightarrow> int \<times> int" where
  "closed_key j = (case j_closed_at j of None \<Rightarrow> (1, 0) | Some t \<Rightarrow> (0, t))"

definition updateRun_world :: "string \<Rightarrow> run_update \<Rightarrow> timestamp \<Rightarrow> world \<Rightarrow> (db_error + pipeline_run option) \<times> world" where
  "updateRun_world i u now w = on_store (updateRun i u now) w"

definition finish_run :: "ext \<Rightarrow> pipeline_run \<Rightarrow> job list \<Rightarrow> timestamp \<Rightarrow> world \<Rightarrow> world" where
  "finish_run x run js now w =
     (let started = or_default now (pr_started_at run); done_at = Some (Some now)
      in if exists_row failed_job js then
           let errMsg = or_default ''One or more pipeline jobs failed''
                 (Option.bind (first_row (order_by closed_key (filter failed_job js))) j_close_reason)
           in (case updateRun_world (pr_id run) (no_update\<lparr>ru_status := Some ''failed'', ru_started_at := Some (Some started),
                   ru_completed_at := done_at, ru_error_message := Some (Some errMsg)\<rparr>) now w of
                 (Inl _, w1) \<Rightarrow> w1
               | (Inr _, w1) \<Rightarrow>
                   (case findRunById (pr_id run) (store w1) of
                      None \<Rightarrow> w1
                    | Some updated \<Rightarrow> emitPipelineFailureEvent x updated errMsg now w1))
         else snd (updateRun_world (pr_id run) (no_update\<lparr>ru_status := Some ''succeeded'',
                ru_started_at := Some (Some started), ru_completed_at := done_at\<rparr>) now w))"

definition syncPipelineRunStatus :: "ext \<Rightarrow> string \<Rightarrow> timestamp \<Rightarrow> world \<Rightarrow> world" where
  "syncPipelineRunStatus x runId now w =
     (case findRunById runId (store w) of
        None \<Rightarrow> w
      | Some run \<Rightarrow>
          if pr_run_mode run \<noteq> Some ''jobs'' \<or> run_terminal (pr_status run) then w
          else
            let js = run_jobs runId (store w)
            in if js = [] then w
               else
                 case (if pr_status run = ''pending'' \<and> exists_row started_job js
                       then updateRun_world runId (no_update\<lparr>ru_status := Some ''running'', ru_started_at := Some (Some now)\<rparr>) now w
                       else (Inr None, w)) of
                   (Inl _, w1) \<Rightarrow> w1
                 | (Inr _, w1) \<Rightarrow>
                     if list_all (\<lambda>j. terminal_phase (j_phase j)) js then finish_run x run js now w1 else w1)"

definition orphaned_run :: "db \<Rightarrow> pipeline_run \<Rightarrow> bool" where
  "orphaned_run s r =
     (pr_run_mode r = Some ''jobs'' \<and> pr_status r \<in> {''pending'', ''running''} \<and>
      list_all (\<lambda>j. terminal_phase (j_phase j)) (run_jobs (pr_id r) s) \<and> run_jobs (pr_id r) s \<noteq> [])"

definition reconcileOrphanedPipelineRuns :: "ext \<Rightarrow> timestamp \<Rightarrow> world \<Rightarrow> world" where
  "reconcileOrphanedPipelineRuns x now w =
     foldl (\<lambda>w r. syncPipelineRunStatus x (pr_id r) now w) w (filter (orphaned_run (store w)) (pipeline_runs (store w)))"

definition updatePipelineStepOutputs :: "job \<Rightarrow> jobject option \<Rightarrow> timestamp \<Rightarrow> db \<Rightarrow> db" where
  "updatePipelineStepOutputs job resultJson now s =
     (case (j_run_id job, j_step_name job, resultJson) of
        (Some runId, Some stepName, Some o') \<Rightarrow>
          if runId = [] \<or> stepName = [] then s else snd (setStepOutput runId stepName o' now s)
      | _ \<Rightarrow> s)"

definition copyPipelineOutputToRootJob :: "string \<Rightarrow> db \<Rightarrow> db" where
  "copyPipelineOutputToRootJob runId s =
     (case Option.bind (findRunById runId s) pr_step_outputs_json of
        None \<Rightarrow> s
      | Some outputs \<Rightarrow>
          (case first_row (order_by j_priority (run_jobs runId s)) of
             None \<Rightarrow> s
           | Some rootJob \<Rightarrow>
               (case getLatestAttempt (j_id rootJob) s of
                  None \<Rightarrow> s
                | Some latest \<Rightarrow> snd (updateAttemptResultJson (a_id latest) [(''pipeline_output'', JObj outputs)] s))))"

text \<open>\<^verbatim>\<open>processPipelineRun\<close>; the worker's answer is an argument: \<open>None\<close> for success, \<open>Some\<close> its error otherwise.\<close>

definition processPipelineRun ::
  "ext \<Rightarrow> pipeline_run \<Rightarrow> string option option \<Rightarrow> timestamp \<Rightarrow> world \<Rightarrow> (db_error + unit) \<times> world" where
  "processPipelineRun x run answer now w =
     (case answer of
        None \<Rightarrow> (Inr (), w\<lparr>store := copyPipelineOutputToRootJob (pr_id run) (store w)\<rparr>)
      | Some err \<Rightarrow>
          let msg = or_default ''Pipeline runner failed'' err
          in (case updateRun_world (pr_id run) (no_update\<lparr>ru_status := Some ''failed'', ru_completed_at := Some (Some now),
                  ru_error_message := Some (Some msg)\<rparr>) now w of
                (Inl e, w1) \<Rightarrow> (Inl e, w1)
              | (Inr _, w1) \<Rightarrow> (Inr (), emitPipelineFailureEvent x run msg now w1)))"

end
