(* ===== verification/Pricing.thy ===== *)
theory Pricing
  imports Json_Parse
begin

section \<open>Prices of attempts\<close>

text \<open>
  \<^verbatim>\<open>packages/shared/src/pricing\<close>: the names of models, the resource classes, the billing configuration and the
  cost calculator, with the provider registry they consult.

  Amounts are computed with the package \<^verbatim>\<open>bignumber.js\<close>. Its numbers are rationals on which sums, products,
  comparisons and the floor are exact, \<open>None\<close> is its NaN, and what it does beyond that (reading a text, the
  quotient, rounding to decimal places, the text with a fixed number of places) is the parameter \<open>bignumber\<close>.
  The locale \<open>decimal_arithmetic\<close> states what its documentation promises; \<open>twenty_places\<close> is that
  documented behaviour in the default configuration, for which the locale is interpreted. JavaScript
  numbers are rationals; a text that denotes an infinite number counts as not a number.
\<close>

subsection \<open>Numbers of the language\<close>

definition digits_or_zero :: "string \<Rightarrow> nat" where
  "digits_or_zero ds = or_default 0 (read_nat ds)"

text \<open>A decimal literal without sign: digits, a fraction, an exponent.\<close>

definition decimal_literal :: "string \<Rightarrow> rat option" where
  "decimal_literal t =
     (let ds = takeWhile is_digit t; rest = dropWhile is_digit t;
          (fs, rest') = (case rest of
              c # cs \<Rightarrow> if c = CHR ''.'' then (takeWhile is_digit cs, dropWhile is_digit cs) else ([], rest)
            | [] \<Rightarrow> ([], []))
      in if ds = [] \<and> fs = [] then None
         else case parse_exp rest' of
             Some (e, []) \<Rightarrow> Some ((of_nat (digits_or_zero ds) + of_nat (digits_or_zero fs) / 10 ^ length fs) * e)
           | _ \<Rightarrow> None)"

fun radix_value :: "nat \<Rightarrow> nat \<Rightarrow> string \<Rightarrow> nat option" where
  "radix_value base acc [] = Some acc"
| "radix_value base acc (c # cs) =
     (case hex_value c of
        None \<Rightarrow> None
      | Some d \<Rightarrow> if d < base then radix_value base (base * acc + d) cs else None)"

definition radix_literal :: "string \<Rightarrow> rat option" where
  "radix_literal t =
     (case t of
        z # x # d # ds \<Rightarrow>
          if z \<noteq> CHR ''0'' then None
          else (case find (\<lambda>(l, _). l = lower_char x) [(CHR ''x'', 16), (CHR ''o'', 8), (CHR ''b'', 2)] of
                  None \<Rightarrow> None
                | Some (_, base) \<Rightarrow> map_option of_nat (radix_value base 0 (d # ds)))
      | _ \<Rightarrow> None)"

text \<open>\<^verbatim>\<open>Number(text)\<close>\<close>

definition text_number :: "string \<Rightarrow> rat option" where
  "text_number s =
     (let t = js_trim s
      in if t = [] then Some 0
         else case radix_literal t of
             Some n \<Rightarrow> Some n
           | None \<Rightarrow>
               (case t of
                  c # cs \<Rightarrow>
                    if c = CHR ''-'' then map_option uminus (decimal_literal cs)
                    else if c = CHR ''+'' then decimal_literal cs
                    else decimal_literal t
                | [] \<Rightarrow> Some 0))"

text \<open>\<^verbatim>\<open>Number(value)\<close>: an array is read through its text, so only one of at most one element can be a number.\<close>

fun array_number :: "json list \<Rightarrow> rat option" where
  "array_number [] = Some 0"
| "array_number [v] =
     (case v of
        JNull \<Rightarrow> Some 0
      | JNum n \<Rightarrow> Some n
      | JStr t \<Rightarrow> text_number t
      | JArr vs \<Rightarrow> array_number vs
      | _ \<Rightarrow> None)"
| "array_number (_ # _ # _) = None"

definition js_number :: "json option \<Rightarrow> rat option" where
  "js_number v =
     (case v of
        Some JNull \<Rightarrow> Some 0
      | Some (JBool b) \<Rightarrow> Some (if b then 1 else 0)
      | Some (JNum n) \<Rightarrow> Some n
      | Some (JStr t) \<Rightarrow> text_number t
      | Some (JArr vs) \<Rightarrow> array_number vs
      | _ \<Rightarrow> None)"

text \<open>\<^verbatim>\<open>Number(value) || 0\<close>\<close>

definition number_or_zero :: "json option \<Rightarrow> rat" where
  "number_or_zero v = or_default 0 (js_number v)"

text \<open>The digits \<^verbatim>\<open>toFixed\<close> prints for a number of units of the last place.\<close>

definition fixed_text :: "nat \<Rightarrow> int \<Rightarrow> string" where
  "fixed_text d n =
     (let m = nat \<bar>n\<bar>; whole = show_nat (m div 10 ^ d)
      in (if n < 0 then ''-'' else []) @ whole @ (if d = 0 then [] else CHR ''.'' # pad_nat d (m mod 10 ^ d)))"

definition js_toFixed :: "nat \<Rightarrow> rat \<Rightarrow> string" where
  "js_toFixed d x = (let n = \<lfloor>\<bar>x\<bar> * 10 ^ d + 1 / 2\<rfloor> in (if x < 0 then ''-'' else []) @ fixed_text d n)"

subsection \<open>Decimal arithmetic\<close>

type_synonym bnum = "rat option"

record bignumber =
  bn_parse :: "string \<Rightarrow> bnum"
  bn_quot :: "rat \<Rightarrow> rat \<Rightarrow> rat"
  bn_places :: "nat \<Rightarrow> rat \<Rightarrow> rat"
  bn_fixed :: "nat \<Rightarrow> rat \<Rightarrow> string"

definition bn_plus :: "bnum \<Rightarrow> bnum \<Rightarrow> bnum" where
  "bn_plus x y = (case (x, y) of (Some a, Some b) \<Rightarrow> Some (a + b) | _ \<Rightarrow> None)"

definition bn_times :: "bnum \<Rightarrow> bnum \<Rightarrow> bnum" where
  "bn_times x y = (case (x, y) of (Some a, Some b) \<Rightarrow> Some (a * b) | _ \<Rightarrow> None)"

definition bn_div :: "bignumber \<Rightarrow> bnum \<Rightarrow> rat \<Rightarrow> bnum" where
  "bn_div B x y = map_option (\<lambda>a. bn_quot B a y) x"

lemma bn_plus_Some [simp]: "bn_plus (Some a) (Some b) = Some (a + b)"
  by (simp add: bn_plus_def)

lemma bn_times_Some [simp]: "bn_times (Some a) (Some b) = Some (a * b)"
  by (simp add: bn_times_def)

lemma bn_div_Some [simp]: "bn_div B (Some a) y = Some (bn_quot B a y)"
  by (simp add: bn_div_def)

subsection \<open>What the arithmetic promises\<close>

locale decimal_arithmetic =
  fixes B :: bignumber
  assumes parse_zero: "bn_parse B ''0'' = Some 0"
    and parse_one: "bn_parse B ''1'' = Some 1"
    and quot_zero: "y \<noteq> 0 \<Longrightarrow> bn_quot B 0 y = 0"
    and quot_self: "y \<noteq> 0 \<Longrightarrow> bn_quot B y y = 1"
    and quot_mono: "0 < y \<Longrightarrow> a \<le> b \<Longrightarrow> bn_quot B a y \<le> bn_quot B b y"
    and quot_near: "y \<noteq> 0 \<Longrightarrow> \<bar>bn_quot B a y - a / y\<bar> \<le> 1 / (2 * 10 ^ 20)"
    and places_grid: "\<exists>n. bn_places B d a = of_int n / 10 ^ d"
    and places_near: "\<bar>bn_places B d a - a\<bar> \<le> 1 / (2 * 10 ^ d)"
    and places_mono: "a \<le> b \<Longrightarrow> bn_places B d a \<le> bn_places B d b"
    and fixed_reads: "text_number (bn_fixed B d (of_int n / 10 ^ d)) = Some (of_int n / 10 ^ d)"
begin

lemma quot_nonneg: "0 < y \<Longrightarrow> 0 \<le> a \<Longrightarrow> 0 \<le> bn_quot B a y"
  using quot_mono [of y 0 a] quot_zero [of y] by simp

lemma amount_reads: "text_number (bn_fixed B d (bn_places B d a)) = Some (bn_places B d a)"
  using places_grid [of d a] fixed_reads by auto

end

text \<open>Rounding half away from zero, and the documented defaults of the package.\<close>

definition half_up :: "nat \<Rightarrow> rat \<Rightarrow> rat" where
  "half_up d x = sgn x * of_int \<lfloor>\<bar>x\<bar> * 10 ^ d + 1 / 2\<rfloor> / 10 ^ d"

definition half_up_quot :: "nat \<Rightarrow> rat \<Rightarrow> rat \<Rightarrow> rat" where
  "half_up_quot d a b = half_up d (a / b)"

definition non_empty_number :: "string \<Rightarrow> bnum" where
  "non_empty_number t = (if js_trim t = [] then None else text_number t)"

definition twenty_places :: bignumber where
  "twenty_places =
     \<lparr>bn_parse = non_empty_number, bn_quot = half_up_quot 20, bn_places = half_up, bn_fixed = js_toFixed\<rparr>"

lemma half_up_near: "\<bar>half_up d x - x\<bar> \<le> 1 / (2 * 10 ^ d)"
proof -
  let ?n = "of_int \<lfloor>\<bar>x\<bar> * 10 ^ d + 1 / 2\<rfloor> :: rat"
  have "?n \<le> \<bar>x\<bar> * 10 ^ d + 1 / 2" "\<bar>x\<bar> * 10 ^ d + 1 / 2 < ?n + 1" by linarith+
  then have "\<bar>?n - \<bar>x\<bar> * 10 ^ d\<bar> \<le> 1 / 2" by linarith
  then have "\<bar>?n - \<bar>x\<bar> * 10 ^ d\<bar> / 10 ^ d \<le> (1 / 2) / 10 ^ d" by (rule divide_right_mono) simp
  moreover have "\<bar>?n - \<bar>x\<bar> * 10 ^ d\<bar> / 10 ^ d = \<bar>?n / 10 ^ d - \<bar>x\<bar>\<bar>"
  proof -
    have "\<bar>?n - \<bar>x\<bar> * 10 ^ d\<bar> / 10 ^ d = \<bar>(?n - \<bar>x\<bar> * 10 ^ d) / 10 ^ d\<bar>" by (simp add: abs_divide)
    then show ?thesis by (simp add: diff_divide_distrib)
  qed
  ultimately have "\<bar>?n / 10 ^ d - \<bar>x\<bar>\<bar> \<le> 1 / (2 * 10 ^ d)" by simp
  moreover have "\<bar>half_up d x - x\<bar> \<le> \<bar>?n / 10 ^ d - \<bar>x\<bar>\<bar>"
    by (cases x "0 :: rat" rule: linorder_cases) (simp_all add: half_up_def sgn_if abs_if)
  ultimately show ?thesis by linarith
qed

lemma half_up_grid: "\<exists>n. half_up d x = of_int n / 10 ^ d"
proof
  show "half_up d x = of_int ((if x < 0 then -1 else if x = 0 then 0 else 1) * \<lfloor>\<bar>x\<bar> * 10 ^ d + 1 / 2\<rfloor>) / 10 ^ d"
    by (simp add: half_up_def sgn_if)
qed

lemma half_up_mono:
  assumes "a \<le> b"
  shows "half_up d a \<le> half_up d b"
proof -
  have pos: "half_up d y \<le> half_up d x" if "0 < y" "y \<le> x" for x y
    using that by (simp add: half_up_def sgn_if divide_right_mono floor_mono mult_right_mono)
  have neg: "half_up d (- x) = - half_up d x" for x
    by (simp add: half_up_def sgn_if)
  have nonneg: "0 \<le> half_up d x" if "0 \<le> x" for x
    using that by (simp add: half_up_def sgn_if)
  show ?thesis
  proof (cases "0 < a \<or> b < 0")
    case True
    then show ?thesis using pos [of a b] pos [of "- b" "- a"] neg assms by auto
  next
    case False
    then show ?thesis using nonneg [of b] nonneg [of "- a"] neg [of a] by simp
  qed
qed

lemma read_digits_zeros: "read_digits 0 (replicate z (CHR ''0'') @ s) = read_digits 0 s"
  by (induction z) (auto simp: digit_value_def)

lemma read_pad_nat: "read_nat (pad_nat w n) = Some n"
  by (simp add: pad_nat_def read_nat_def Let_def read_digits_zeros read_digits_show_nat)

lemma length_show_nat: "n < 10 ^ Suc d \<Longrightarrow> length (show_nat n) \<le> Suc d"
proof (induction d arbitrary: n)
  case (Suc d)
  have "n div 10 < 10 ^ Suc d" using Suc.prems by simp
  then show ?case using Suc.IH [of "n div 10"] by (subst show_nat.simps) auto
qed (simp add: show_nat.simps)

lemma length_pad_nat: "n < 10 ^ Suc d \<Longrightarrow> length (pad_nat (Suc d) n) = Suc d"
  using length_show_nat [of n d] by (simp add: pad_nat_def Let_def)

lemma zero_digit: "is_digit (CHR ''0'')"
  by (simp add: is_digit_def digit_value_def)

lemma show_nat_is_digit: "c \<in> set (show_nat n) \<Longrightarrow> is_digit c"
  using show_nat_digits by (simp add: is_digit_def)

lemma pad_nat_is_digit: "c \<in> set (pad_nat w n) \<Longrightarrow> is_digit c"
  using show_nat_is_digit zero_digit by (auto simp: pad_nat_def Let_def)

lemma pad_nat_not_Nil [simp]: "pad_nat w n \<noteq> []"
  by (simp add: pad_nat_def Let_def)

lemma takeWhile_digits_dot:
  assumes "\<And>c. c \<in> set ds \<Longrightarrow> is_digit c"
  shows "takeWhile is_digit (ds @ CHR ''.'' # r) = ds" "dropWhile is_digit (ds @ CHR ''.'' # r) = CHR ''.'' # r"
    "takeWhile is_digit ds = ds" "dropWhile is_digit ds = []"
  using assms by (auto simp: takeWhile_append dropWhile_append takeWhile_eq_all_conv dropWhile_eq_Nil_conv
      is_digit_def digit_value_def)

lemma decimal_literal_fixed:
  assumes "0 \<le> n"
  shows "decimal_literal (fixed_text d n) = Some (of_int n / 10 ^ d)"
proof (cases d)
  case 0
  then show ?thesis
    using assms
    by (simp add: fixed_text_def decimal_literal_def Let_def takeWhile_digits_dot(3,4) [OF show_nat_is_digit]
        parse_exp_def digits_or_zero_def or_default_def read_nat_def [of "[]"])
next
  case (Suc e)
  define w f where "w = nat n div 10 ^ d" and "f = nat n mod 10 ^ d"
  have shape: "fixed_text d n = show_nat w @ CHR ''.'' # pad_nat d f"
    using assms Suc by (simp add: fixed_text_def w_def f_def Let_def)
  have len: "length (pad_nat d f) = d"
    using length_pad_nat [of f e] Suc by (simp add: f_def)
  have "int (w * 10 ^ d + f) = n"
    using assms by (simp add: w_def f_def mult.commute)
  then have "rat_of_int n = of_nat w * 10 ^ d + of_nat f"
    by (metis of_int_of_nat_eq of_nat_add of_nat_mult of_nat_numeral of_nat_power)
  then have sum: "of_nat w + of_nat f / 10 ^ d = rat_of_int n / 10 ^ d"
    by (simp add: field_simps)
  show ?thesis
    by (simp add: shape decimal_literal_def takeWhile_digits_dot [OF show_nat_is_digit]
        takeWhile_digits_dot(3,4) [OF pad_nat_is_digit] parse_exp_def digits_or_zero_def read_pad_nat
        or_default_def len sum)
qed

definition plain_char :: "char \<Rightarrow> bool" where
  "plain_char c = (is_digit c \<or> c = CHR ''.'' \<or> c = CHR ''-'')"

lemma lower_plain: "plain_char c \<Longrightarrow> lower_char c = c \<and> c \<noteq> CHR ''x'' \<and> c \<noteq> CHR ''o'' \<and> c \<noteq> CHR ''b''"
  by (auto simp: plain_char_def is_digit_def digit_value_def lower_char_def Let_def split: if_splits)

lemma radix_literal_plain: "list_all plain_char t \<Longrightarrow> radix_literal t = None"
  by (cases t; cases "tl t") (auto simp: radix_literal_def dest!: lower_plain split: list.split)

lemma plain_not_space: "plain_char c \<Longrightarrow> \<not> is_space c"
  by (auto simp: plain_char_def is_digit_def digit_value_def is_space_def Let_def split: if_splits)

lemma js_trim_plain: "list_all plain_char t \<Longrightarrow> js_trim t = t"
  using plain_not_space js_trim_id [of t] by (cases "t = []") (simp add: js_trim_def, simp add: list_all_iff)

lemma fixed_text_plain: "list_all plain_char (fixed_text d n)"
  using show_nat_is_digit pad_nat_is_digit
  by (auto simp: fixed_text_def plain_char_def list_all_iff Let_def)

lemma fixed_text_starts: "0 \<le> n \<Longrightarrow> \<exists>c cs. fixed_text d n = c # cs \<and> is_digit c"
  using show_nat_is_digit [of "hd (show_nat (nat n div 10 ^ d))" "nat n div 10 ^ d"]
  by (cases "show_nat (nat n div 10 ^ d)") (auto simp: fixed_text_def Let_def)

lemma digit_no_sign: "is_digit c \<Longrightarrow> c \<noteq> CHR ''-'' \<and> c \<noteq> CHR ''+''"
  by (auto simp: is_digit_def digit_value_def)

lemma text_number_toFixed: "text_number (js_toFixed d (of_int n / 10 ^ d)) = Some (of_int n / 10 ^ d)"
proof -
  have n: "\<lfloor>\<bar>rat_of_int n / 10 ^ d\<bar> * 10 ^ d + 1 / 2\<rfloor> = \<bar>n\<bar>"
  proof -
    have "\<bar>rat_of_int n / 10 ^ d\<bar> * 10 ^ d = of_int \<bar>n\<bar>" by (simp add: abs_divide)
    then show ?thesis by linarith
  qed
  have "rat_of_int n / 10 ^ d < 0 \<longleftrightarrow> n < 0" by (simp add: divide_less_0_iff)
  then have toFixed: "js_toFixed d (of_int n / 10 ^ d) = (if n < 0 then ''-'' else []) @ fixed_text d \<bar>n\<bar>"
    unfolding js_toFixed_def n Let_def by (rule arg_cong2 [where f = "(@)", OF if_cong]) simp_all
  obtain c cs where c: "fixed_text d \<bar>n\<bar> = c # cs" "is_digit c" using fixed_text_starts [of "\<bar>n\<bar>" d] by auto
  have plain: "list_all plain_char (fixed_text d \<bar>n\<bar>)" by (rule fixed_text_plain)
  have read: "decimal_literal (fixed_text d \<bar>n\<bar>) = Some (of_int \<bar>n\<bar> / 10 ^ d)" by (rule decimal_literal_fixed) simp
  show ?thesis
  proof (cases "n < 0")
    case True
    have "list_all plain_char (CHR ''-'' # fixed_text d \<bar>n\<bar>)" using plain by (simp add: plain_char_def)
    then show ?thesis
      using True read
      by (simp add: toFixed text_number_def js_trim_plain radix_literal_plain Let_def)
  next
    case False
    then show ?thesis
      using plain c read digit_no_sign [OF c(2)]
      by (simp add: toFixed text_number_def js_trim_plain radix_literal_plain Let_def)
  qed
qed

interpretation twenty: decimal_arithmetic twenty_places
proof
  show "bn_parse twenty_places ''0'' = Some 0" "bn_parse twenty_places ''1'' = Some 1" by code_simp+
next
  fix y a b :: rat assume "0 < y" "a \<le> b"
  then show "bn_quot twenty_places a y \<le> bn_quot twenty_places b y"
    by (simp add: twenty_places_def half_up_quot_def half_up_mono divide_right_mono)
next
  fix y :: rat assume "y \<noteq> 0"
  moreover have "half_up 20 1 = 1" by code_simp
  ultimately show "bn_quot twenty_places y y = 1" by (simp add: twenty_places_def half_up_quot_def)
next
  fix y a :: rat
  show "\<bar>bn_quot twenty_places a y - a / y\<bar> \<le> 1 / (2 * 10 ^ 20)"
    using half_up_near [of 20 "a / y"] by (simp add: twenty_places_def half_up_quot_def)
next
  fix d :: nat and a b :: rat assume "a \<le> b"
  then show "bn_places twenty_places d a \<le> bn_places twenty_places d b"
    by (simp add: twenty_places_def half_up_quot_def half_up_mono)
qed (simp_all add: twenty_places_def half_up_quot_def half_up_near half_up_grid half_up_def [of _ 0] text_number_toFixed)

subsection \<open>Providers and models\<close>

text \<open>A date suffix a pattern removes at the end of a name: \<open>None\<close> stands for a digit.\<close>

type_synonym strip_pattern = "char option list"

definition compact_date :: strip_pattern where
  "compact_date = Some (CHR ''-'') # replicate 8 None"

definition dashed_date :: strip_pattern where
  "dashed_date =
     Some (CHR ''-'') # replicate 4 None @ Some (CHR ''-'') # replicate 2 None @ Some (CHR ''-'') # replicate 2 None"

definition date_fits :: "strip_pattern \<Rightarrow> string \<Rightarrow> bool" where
  "date_fits p t = list_all2 (\<lambda>q c. case q of None \<Rightarrow> is_digit c | Some x \<Rightarrow> c = x) p t"

definition strip_date :: "strip_pattern \<Rightarrow> string \<Rightarrow> string" where
  "strip_date p t =
     (let k = length t - length p in if length p \<le> length t \<and> date_fits p (drop k t) then take k t else t)"

record provider_definition =
  pv_name :: string
  pv_display_name :: string
  pv_api_compatibility :: string
  pv_base_url :: string
  pv_auth_header :: string
  pv_auth_scheme :: "string option"
  pv_env_vars :: "string list"
  pv_platform_secret_ref :: "string option"
  pv_primary :: string
  pv_harnesses :: "string list"
  pv_env_map :: "string \<times> string"
  pv_strip_patterns :: "strip_pattern list"
  pv_discovery :: "(string \<times> bool) option"

definition PROVIDER_REGISTRY :: "provider_definition list" where
  "PROVIDER_REGISTRY =
     [\<lparr>pv_name = ''anthropic'', pv_display_name = ''Anthropic'', pv_api_compatibility = ''anthropic'',
       pv_base_url = ''https://api.anthropic.com'',
       pv_auth_header = ''x-api-key'', pv_auth_scheme = None,
       pv_env_vars = [''ANTHROPIC_API_KEY'', ''CLAUDE_CODE_OAUTH_TOKEN''], pv_platform_secret_ref = None,
       pv_primary = ''mclaude'', pv_harnesses = [''mclaude'', ''claude''], pv_env_map = (''ANTHROPIC_API_KEY'', ''ANTHROPIC_BASE_URL''),
       pv_strip_patterns = [compact_date], pv_discovery = Some (''/v1/models'', False)\<rparr>,
      \<lparr>pv_name = ''openai'', pv_display_name = ''OpenAI'', pv_api_compatibility = ''openai'',
       pv_base_url = ''https://api.openai.com/v1'',
       pv_auth_header = ''Authorization'', pv_auth_scheme = Some ''Bearer'',
       pv_env_vars = [''OPENAI_API_KEY'', ''CODEX_AUTH_JSON'', ''CODEX_OAUTH_ACCESS_TOKEN''], pv_platform_secret_ref = None,
       pv_primary = ''code'', pv_harnesses = [''code'', ''codex''], pv_env_map = (''OPENAI_API_KEY'', ''OPENAI_BASE_URL''),
       pv_strip_patterns = [dashed_date, compact_date], pv_discovery = Some (''/v1/models'', False)\<rparr>,
      \<lparr>pv_name = ''google'', pv_display_name = ''Google'', pv_api_compatibility = ''gemini'',
       pv_base_url = ''https://generativelanguage.googleapis.com'',
       pv_auth_header = ''x-goog-api-key'', pv_auth_scheme = None,
       pv_env_vars = [''GOOGLE_API_KEY'', ''GEMINI_API_KEY''], pv_platform_secret_ref = None,
       pv_primary = ''gemini'', pv_harnesses = [''gemini''], pv_env_map = (''GOOGLE_API_KEY'', ''GOOGLE_BASE_URL''),
       pv_strip_patterns = [dashed_date, compact_date], pv_discovery = Some (''/v1beta/models'', False)\<rparr>,
      \<lparr>pv_name = ''zai'', pv_display_name = ''Z.ai'', pv_api_compatibility = ''zai'',
       pv_base_url = ''https://open.z.ai/api/paas/v4'',
       pv_auth_header = ''Authorization'', pv_auth_scheme = Some ''Bearer'',
       pv_env_vars = [''Z_AI_API_KEY'', ''ZAI_API_KEY''], pv_platform_secret_ref = None,
       pv_primary = ''zai'', pv_harnesses = [''zai''], pv_env_map = (''Z_AI_API_KEY'', ''Z_AI_BASE_URL''),
       pv_strip_patterns = [dashed_date, compact_date], pv_discovery = None\<rparr>,
      \<lparr>pv_name = ''gmicloud'', pv_display_name = ''GMI Cloud'', pv_api_compatibility = ''openai'',
       pv_base_url = ''https://api.gmi-serving.com/v1/'',
       pv_auth_header = ''Authorization'', pv_auth_scheme = Some ''Bearer'',
       pv_env_vars = [''OPENAI_API_KEY''], pv_platform_secret_ref = Some ''platform.gmicloud.api_key'',
       pv_primary = ''code'', pv_harnesses = [''code''], pv_env_map = (''OPENAI_API_KEY'', ''OPENAI_BASE_URL''),
       pv_strip_patterns = [dashed_date, compact_date], pv_discovery = Some (''/v1/models'', False)\<rparr>]"

definition getProvider :: "string \<Rightarrow> provider_definition option" where
  "getProvider name = find (\<lambda>p. pv_name p = to_lower (js_trim name)) PROVIDER_REGISTRY"

fun contains_text :: "string \<Rightarrow> string \<Rightarrow> bool" where
  "contains_text [] pat = (pat = [])"
| "contains_text (c # cs) pat = (starts_with pat (c # cs) \<or> contains_text cs pat)"

definition getProviderForHarness :: "string \<Rightarrow> provider_definition option" where
  "getProviderForHarness harness =
     (let h = to_lower (js_trim harness)
      in case find (\<lambda>p. h \<in> set (pv_harnesses p)) PROVIDER_REGISTRY of
           Some p \<Rightarrow> Some p
         | None \<Rightarrow> find (\<lambda>p. list_ex (contains_text h) (pv_harnesses p)) PROVIDER_REGISTRY)"

definition getProviderByEnvVar :: "string \<Rightarrow> provider_definition option" where
  "getProviderByEnvVar envVar = find (\<lambda>p. envVar \<in> set (pv_env_vars p)) PROVIDER_REGISTRY"

text \<open>The environment of a harness is that of the first provider that lists it.\<close>

definition deriveHarnessEnvMap :: "(string \<times> string \<times> string) list" where
  "deriveHarnessEnvMap =
     foldl (\<lambda>acc (h, env). if h \<in> set (map fst acc) then acc else acc @ [(h, env)]) []
       (concat (map (\<lambda>p. map (\<lambda>h. (h, pv_env_map p)) (pv_harnesses p)) PROVIDER_REGISTRY))"

definition inferProviderName :: "string option \<Rightarrow> string" where
  "inferProviderName harness =
     (case harness of
        None \<Rightarrow> ''unknown''
      | Some h \<Rightarrow> if h = [] then ''unknown'' else or_default ''unknown'' (map_option pv_name (getProviderForHarness h)))"

definition normalizeModelName :: "string \<Rightarrow> string \<Rightarrow> string" where
  "normalizeModelName provider model =
     (let m = js_trim model;
          m = (if CHR ''/'' \<in> set m then tl (dropWhile (\<lambda>c. c \<noteq> CHR ''/'') m) else m)
      in case getProvider provider of
           Some p \<Rightarrow> fold strip_date (pv_strip_patterns p) m
         | None \<Rightarrow> strip_date compact_date (strip_date dashed_date m))"

subsection \<open>Resource classes and billing configuration\<close>

record k8s_spec =
  ks_cpu_request :: string
  ks_cpu_limit :: string
  ks_mem_request :: string
  ks_mem_limit :: string

record resource_class_spec =
  rc_vcpu :: rat
  rc_memory_gib :: rat
  rc_k8s :: "k8s_spec option"

type_synonym resource_classes = "(string \<times> resource_class_spec) list"

definition DEFAULT_RESOURCE_CLASS_NAME :: string where
  "DEFAULT_RESOURCE_CLASS_NAME = ''job.c1''"

definition DEFAULT_RESOURCE_CLASSES_V1 :: resource_classes where
  "DEFAULT_RESOURCE_CLASSES_V1 =
     [(''job.c1'', \<lparr>rc_vcpu = 1, rc_memory_gib = 2, rc_k8s = Some
         \<lparr>ks_cpu_request = ''1'', ks_cpu_limit = ''2'', ks_mem_request = ''2Gi'', ks_mem_limit = ''4Gi''\<rparr>\<rparr>),
      (''job.c2'', \<lparr>rc_vcpu = 2, rc_memory_gib = 4, rc_k8s = Some
         \<lparr>ks_cpu_request = ''2'', ks_cpu_limit = ''4'', ks_mem_request = ''4Gi'', ks_mem_limit = ''8Gi''\<rparr>\<rparr>)]"

definition positive_number :: "json option \<Rightarrow> rat option" where
  "positive_number v = (case v of Some (JNum n) \<Rightarrow> if n \<le> 0 then None else Some n | _ \<Rightarrow> None)"

definition non_blank :: "json option \<Rightarrow> string option" where
  "non_blank v = (case v of Some (JStr t) \<Rightarrow> if js_trim t = [] then None else Some t | _ \<Rightarrow> None)"

definition parse_k8s_spec :: "json option \<Rightarrow> k8s_spec option" where
  "parse_k8s_spec v =
     (case v of
        Some (JObj k) \<Rightarrow>
          (case (non_blank (obj_get k ''cpu_request''), non_blank (obj_get k ''cpu_limit''),
                 non_blank (obj_get k ''mem_request''), non_blank (obj_get k ''mem_limit'')) of
             (Some a, Some b, Some c, Some d) \<Rightarrow>
               Some \<lparr>ks_cpu_request = a, ks_cpu_limit = b, ks_mem_request = c, ks_mem_limit = d\<rparr>
           | _ \<Rightarrow> None)
      | _ \<Rightarrow> None)"

definition parse_resource_class :: "json \<Rightarrow> resource_class_spec option" where
  "parse_resource_class raw =
     (case raw of
        JObj obj \<Rightarrow>
          (case (positive_number (obj_get obj ''vcpu''), positive_number (obj_get obj ''memory_gib'')) of
             (Some vcpu, Some mem) \<Rightarrow>
               Some \<lparr>rc_vcpu = vcpu, rc_memory_gib = mem, rc_k8s = parse_k8s_spec (obj_get obj ''k8s'')\<rparr>
           | _ \<Rightarrow> None)
      | _ \<Rightarrow> None)"

definition parseResourceClassesV1 :: "string option \<Rightarrow> resource_classes option" where
  "parseResourceClassesV1 value =
     (case value of
        None \<Rightarrow> None
      | Some t \<Rightarrow>
          (case json_parse t of
             Some (JObj entries) \<Rightarrow>
               (let out = List.map_filter (\<lambda>(name, raw). map_option (Pair name) (parse_resource_class raw)) entries
                in if out = [] then None else Some out)
           | _ \<Rightarrow> None))"

definition trimmed_text :: "json option \<Rightarrow> string option" where
  "trimmed_text v = map_option js_trim (non_blank v)"

definition resolveResourceClassName :: "jobject option \<Rightarrow> jobject option \<Rightarrow> string option \<Rightarrow> string option" where
  "resolveResourceClassName jobHints manifestDefaults fallback =
     (case trimmed_text (Option.bind jobHints (\<lambda>h. obj_get h ''resource_class'')) of
        Some n \<Rightarrow> Some n
      | None \<Rightarrow>
          (case trimmed_text (Option.bind manifestDefaults (\<lambda>d. obj_get d ''resource_class'')) of
             Some n \<Rightarrow> Some n
           | None \<Rightarrow> trimmed_text (map_option JStr fallback)))"

definition getResourceClassSpec :: "resource_classes option \<Rightarrow> string option \<Rightarrow> resource_class_spec option" where
  "getResourceClassSpec resourceClasses name =
     (case (resourceClasses, name) of
        (Some cs, Some n) \<Rightarrow> if n = [] then None else map_of cs n
      | _ \<Rightarrow> None)"

record billing_defaults =
  bd_billing_currency :: string
  bd_markup_pct :: rat
  bd_rate_card_name :: string

definition DEFAULT_BILLING_DEFAULTS_V1 :: billing_defaults where
  "DEFAULT_BILLING_DEFAULTS_V1 = \<lparr>bd_billing_currency = ''usd'', bd_markup_pct = 20, bd_rate_card_name = ''default''\<rparr>"

text \<open>\<^verbatim>\<open>z.string().min(1)\<close> and \<^verbatim>\<open>z.number()\<close>\<close>

definition text_field :: "jobject \<Rightarrow> string \<Rightarrow> string option" where
  "text_field obj k = (case obj_get obj k of Some (JStr t) \<Rightarrow> if t = [] then None else Some t | _ \<Rightarrow> None)"

definition number_field :: "jobject \<Rightarrow> string \<Rightarrow> rat option" where
  "number_field obj k = (case obj_get obj k of Some (JNum n) \<Rightarrow> Some n | _ \<Rightarrow> None)"

definition parseBillingDefaultsV1 :: "string \<Rightarrow> billing_defaults option" where
  "parseBillingDefaultsV1 value =
     (case json_parse value of
        Some (JObj obj) \<Rightarrow>
          (case (text_field obj ''billing_currency'', number_field obj ''markup_pct'', text_field obj ''rate_card_name'') of
             (Some c, Some m, Some r) \<Rightarrow> Some \<lparr>bd_billing_currency = c, bd_markup_pct = m, bd_rate_card_name = r\<rparr>
           | _ \<Rightarrow> None)
      | _ \<Rightarrow> None)"

text \<open>The configuration of an organisation counts only when every field it has is valid.\<close>

definition org_billing_valid :: "jobject \<Rightarrow> bool" where
  "org_billing_valid obj =
     ((obj_get obj ''billing_currency'' = None \<or> text_field obj ''billing_currency'' \<noteq> None) \<and>
      (obj_get obj ''markup_pct'' = None \<or> number_field obj ''markup_pct'' \<noteq> None) \<and>
      (obj_get obj ''rate_card_name'' = None \<or> text_field obj ''rate_card_name'' \<noteq> None))"

definition resolveBillingConfigV1 :: "billing_defaults \<Rightarrow> json option \<Rightarrow> billing_defaults" where
  "resolveBillingConfigV1 system orgConfig =
     (case orgConfig of
        Some (JObj org) \<Rightarrow>
          if org_billing_valid org then
            \<lparr>bd_billing_currency = or_default (bd_billing_currency system) (text_field org ''billing_currency''),
             bd_markup_pct = or_default (bd_markup_pct system) (number_field org ''markup_pct''),
             bd_rate_card_name = or_default (bd_rate_card_name system) (text_field org ''rate_card_name'')\<rparr>
          else system
      | _ \<Rightarrow> system)"

subsection \<open>Rate cards\<close>

datatype usage_source = Byok | Managed

record token_rate =
  tr_input :: string
  tr_output :: string
  tr_cache_read :: "string option"
  tr_cache_write :: "string option"
  tr_reasoning :: "string option"

record compute_rate =
  cr_vcpu_hour :: string
  cr_memory_gib_hour :: string

type_synonym model_rates = "(string \<times> token_rate) list"

record rate_card =
  rk_byok :: "(string \<times> model_rates) list"
  rk_managed :: "(string \<times> model_rates) list"
  rk_compute :: "(string \<times> compute_rate) list"
  rk_storage :: "(string \<times> string) list"

record token_usage =
  tu_input :: rat
  tu_output :: rat
  tu_cache_read :: rat
  tu_cache_write :: rat
  tu_reasoning :: rat

record llm_usage =
  lu_provider :: string
  lu_model :: string
  lu_source :: usage_source
  lu_usage :: token_usage

record compute_usage =
  cu_resource_class :: "string option"
  cu_vcpu_seconds :: rat
  cu_memory_gib_seconds :: rat

record money =
  mo_currency :: string
  mo_amount :: string

subsection \<open>The default rate card\<close>

definition DEFAULT_RATE_CARD_NAME :: string where
  "DEFAULT_RATE_CARD_NAME = ''default''"

definition DEFAULT_RATE_CARD_VERSION :: int where
  "DEFAULT_RATE_CARD_VERSION = 1"

definition DEFAULT_RATE_CARD_EFFECTIVE_AT :: string where
  "DEFAULT_RATE_CARD_EFFECTIVE_AT = ''2026-09-23T00:00:00.000Z''"

definition token_rate_of ::
  "string \<Rightarrow> string \<Rightarrow> string option \<Rightarrow> string option \<Rightarrow> string option \<Rightarrow> token_rate" where
  "token_rate_of i out r w rs =
     \<lparr>tr_input = i, tr_output = out, tr_cache_read = r, tr_cache_write = w, tr_reasoning = rs\<rparr>"

definition compute_rate_of :: "string \<Rightarrow> string \<Rightarrow> compute_rate" where
  "compute_rate_of v m = \<lparr>cr_vcpu_hour = v, cr_memory_gib_hour = m\<rparr>"

definition DEFAULT_RATE_CARD_V1 :: rate_card where
  "DEFAULT_RATE_CARD_V1 =
     \<lparr>rk_byok = [
        (''anthropic'',
         [(''claude-fable-5-1'', token_rate_of ''10.00'' ''50.00'' (Some ''0.25'') (Some ''12.50'') None),
         (''claude-fable-5'', token_rate_of ''10.00'' ''50.00'' (Some ''1.00'') (Some ''12.50'') None),
         (''claude-opus-5-5'', token_rate_of ''4.00'' ''20.00'' (Some ''0.20'') (Some ''5.00'') None),
         (''claude-opus-5'', token_rate_of ''5.00'' ''25.00'' (Some ''0.50'') (Some ''6.25'') None),
         (''claude-sonnet-5'', token_rate_of ''2.00'' ''10.00'' (Some ''0.20'') (Some ''2.50'') None),
         (''claude-opus-4-8'', token_rate_of ''5.00'' ''25.00'' (Some ''0.50'') (Some ''6.25'') None),
         (''claude-opus-4-7'', token_rate_of ''5.00'' ''25.00'' (Some ''0.50'') (Some ''6.25'') None),
         (''claude-opus-4-6'', token_rate_of ''5.00'' ''25.00'' (Some ''0.50'') (Some ''6.25'') None),
         (''claude-sonnet-4-6'', token_rate_of ''3.00'' ''15.00'' (Some ''0.30'') (Some ''3.75'') None),
         (''claude-opus-4-5'', token_rate_of ''5.00'' ''25.00'' (Some ''0.50'') (Some ''6.25'') None),
         (''claude-sonnet-4-5'', token_rate_of ''3.00'' ''15.00'' (Some ''0.30'') (Some ''3.75'') None),
         (''claude-haiku-4-5'', token_rate_of ''1.00'' ''5.00'' (Some ''0.10'') (Some ''1.25'') None),
         (''claude-sonnet-4'', token_rate_of ''3.00'' ''15.00'' (Some ''0.30'') (Some ''3.75'') None)]),
        (''zai'',
         [(''glm-5'', token_rate_of ''1.00'' ''3.20'' (Some ''0.20'') None None),
         (''glm-5-code'', token_rate_of ''1.20'' ''5.00'' (Some ''0.30'') None None)]),
        (''openai'',
         [(''gpt-6-astra'', token_rate_of ''10.00'' ''50.00'' (Some ''1.00'') (Some ''12.50'') (Some ''50.00'')),
         (''gpt-5.5'', token_rate_of ''5.00'' ''30.00'' (Some ''0.50'') None (Some ''30.00'')),
         (''o3'', token_rate_of ''2.00'' ''8.00'' None None (Some ''8.00''))])],
      rk_managed = [
        (''platform'',
         [(''llama-3.3-70b'', token_rate_of ''0.40'' ''0.40'' None None None),
         (''deepseek-r1'', token_rate_of ''0.55'' ''2.19'' (Some ''0.14'') None (Some ''2.19''))])],
      rk_compute =
        [(''job.c1'', compute_rate_of ''0.04'' ''0.01''),
         (''job.c2'', compute_rate_of ''0.06'' ''0.015''),
         (''default'', compute_rate_of ''0.05'' ''0.012'')],
      rk_storage = [(''disk.std'', ''0.0005'')]\<rparr>"

subsection \<open>Costs\<close>

definition clampNonNegativeInt :: "rat \<Rightarrow> int" where
  "clampNonNegativeInt n = (if n \<le> 0 then 0 else \<lfloor>n\<rfloor>)"

definition getTokenRate :: "rate_card \<Rightarrow> llm_usage \<Rightarrow> token_rate option" where
  "getTokenRate rateCard e =
     (let sourceRates = (if lu_source e = Managed then rk_managed rateCard else rk_byok rateCard)
      in case map_of sourceRates (lu_provider e) of
           None \<Rightarrow> None
         | Some rates \<Rightarrow>
             coalesce (map_of rates (normalizeModelName (lu_provider e) (lu_model e))) (map_of rates (lu_model e)))"

definition clamp_usage :: "token_usage \<Rightarrow> token_usage" where
  "clamp_usage u =
     \<lparr>tu_input = of_int (clampNonNegativeInt (tu_input u)),
      tu_output = of_int (clampNonNegativeInt (tu_output u)),
      tu_cache_read = of_int (clampNonNegativeInt (tu_cache_read u)),
      tu_cache_write = of_int (clampNonNegativeInt (tu_cache_write u)),
      tu_reasoning = of_int (clampNonNegativeInt (tu_reasoning u))\<rparr>"

text \<open>The price of some tokens at a rate for a million of them.\<close>

definition per_million :: "bignumber \<Rightarrow> string \<Rightarrow> rat \<Rightarrow> bnum" where
  "per_million B rate tokens = bn_div B (bn_times (bn_parse B rate) (Some tokens)) 1000000"

definition usage_cost :: "bignumber \<Rightarrow> token_rate \<Rightarrow> token_usage \<Rightarrow> bnum" where
  "usage_cost B rate u =
     bn_plus (bn_plus (bn_plus (bn_plus
       (per_million B (tr_input rate) (tu_input u))
       (per_million B (tr_output rate) (tu_output u)))
       (per_million B (or_default ''0'' (tr_cache_read rate)) (tu_cache_read u)))
       (per_million B (or_default ''0'' (tr_cache_write rate)) (tu_cache_write u)))
       (per_million B (or_default (tr_output rate) (tr_reasoning rate)) (tu_reasoning u))"

record model_cost =
  mc_provider :: string
  mc_model :: string
  mc_normalized_model :: string
  mc_source :: usage_source
  mc_usage :: token_usage
  mc_rate :: "token_rate option"
  mc_cost_usd :: bnum

definition model_cost_of :: "bignumber \<Rightarrow> rate_card \<Rightarrow> llm_usage \<Rightarrow> model_cost" where
  "model_cost_of B rateCard e =
     (let rate = getTokenRate rateCard e; u = clamp_usage (lu_usage e)
      in \<lparr>mc_provider = lu_provider e, mc_model = lu_model e,
          mc_normalized_model = normalizeModelName (lu_provider e) (lu_model e), mc_source = lu_source e,
          mc_usage = u, mc_rate = rate,
          mc_cost_usd = (case rate of None \<Rightarrow> Some 0 | Some r \<Rightarrow> usage_cost B r u)\<rparr>)"

record llm_cost =
  lc_total_usd :: bnum
  lc_byok_usd :: bnum
  lc_managed_usd :: bnum
  lc_by_model :: "model_cost list"

definition sum_costs :: "model_cost list \<Rightarrow> bnum" where
  "sum_costs cs = foldl (\<lambda>acc c. bn_plus acc (mc_cost_usd c)) (Some 0) cs"

definition estimateLlmCostUsd :: "bignumber \<Rightarrow> rate_card \<Rightarrow> llm_usage list \<Rightarrow> llm_cost" where
  "estimateLlmCostUsd B rateCard entries =
     (let byModel = map (model_cost_of B rateCard) entries
      in \<lparr>lc_total_usd = sum_costs byModel,
          lc_byok_usd = sum_costs (filter (\<lambda>c. mc_source c \<noteq> Managed) byModel),
          lc_managed_usd = sum_costs (filter (\<lambda>c. mc_source c = Managed) byModel),
          lc_by_model = byModel\<rparr>)"

record applied_compute_rate =
  ar_resource_class :: "string option"
  ar_vcpu_hour :: string
  ar_memory_gib_hour :: string

definition compute_rate_for :: "rate_card \<Rightarrow> string option \<Rightarrow> compute_rate option" where
  "compute_rate_for rateCard resourceClass =
     coalesce (case resourceClass of Some c \<Rightarrow> if c = [] then None else map_of (rk_compute rateCard) c | None \<Rightarrow> None)
       (map_of (rk_compute rateCard) ''default'')"

definition per_hour :: "bignumber \<Rightarrow> string \<Rightarrow> rat \<Rightarrow> bnum" where
  "per_hour B rate seconds = bn_div B (bn_times (bn_parse B rate) (Some (max 0 seconds))) 3600"

definition estimateComputeCostUsd ::
  "bignumber \<Rightarrow> rate_card \<Rightarrow> compute_usage \<Rightarrow> applied_compute_rate option \<times> bnum" where
  "estimateComputeCostUsd B rateCard u =
     (case compute_rate_for rateCard (cu_resource_class u) of
        None \<Rightarrow> (None, Some 0)
      | Some r \<Rightarrow>
          (Some \<lparr>ar_resource_class = cu_resource_class u, ar_vcpu_hour = cr_vcpu_hour r,
                 ar_memory_gib_hour = cr_memory_gib_hour r\<rparr>,
           bn_plus (per_hour B (cr_vcpu_hour r) (cu_vcpu_seconds u))
             (per_hour B (cr_memory_gib_hour r) (cu_memory_gib_seconds u))))"

definition formatAmount :: "bignumber \<Rightarrow> bnum \<Rightarrow> nat \<Rightarrow> string" where
  "formatAmount B amount decimals =
     (case amount of None \<Rightarrow> ''NaN'' | Some a \<Rightarrow> bn_fixed B decimals (bn_places B decimals a))"

definition money_of :: "bignumber \<Rightarrow> string \<Rightarrow> bnum \<Rightarrow> money" where
  "money_of B currency amount = \<lparr>mo_currency = currency, mo_amount = formatAmount B amount 6\<rparr>"

record base_cost =
  bc_llm :: money
  bc_llm_byok :: money
  bc_llm_managed :: money
  bc_compute :: money
  bc_total :: money

record billed_cost =
  bl_total :: money
  bl_llm :: money
  bl_compute :: money

record fx_rate =
  fx_rate_text :: string
  fx_fetched_at :: string
  fx_source :: string

definition fx_factor :: "bignumber \<Rightarrow> string \<Rightarrow> fx_rate option \<Rightarrow> bnum" where
  "fx_factor B currency fx =
     (if to_lower currency = ''usd'' then Some 1 else bn_parse B (or_default ''1'' (map_option fx_rate_text fx)))"

definition markup_factor :: "bignumber \<Rightarrow> rat \<Rightarrow> bnum" where
  "markup_factor B markup = bn_plus (Some 1) (bn_div B (Some markup) 100)"

definition compute_cost :: "bignumber \<Rightarrow> rate_card \<Rightarrow> compute_usage option \<Rightarrow> bnum" where
  "compute_cost B rateCard usage = (case usage of None \<Rightarrow> Some 0 | Some u \<Rightarrow> snd (estimateComputeCostUsd B rateCard u))"

definition calculateBilledCost ::
  "bignumber \<Rightarrow> rate_card \<Rightarrow> llm_usage list \<Rightarrow> compute_usage option \<Rightarrow> rat \<Rightarrow> string \<Rightarrow> fx_rate option
    \<Rightarrow> base_cost \<times> billed_cost" where
  "calculateBilledCost B rateCard llmUsage computeUsage markup billingCurrency fx =
     (let markupFactor = markup_factor B markup;
          llm = estimateLlmCostUsd B rateCard llmUsage;
          compute = compute_cost B rateCard computeUsage;
          baseTotalUsd = bn_plus (lc_total_usd llm) compute;
          chargeableBaseUsd = bn_plus (lc_managed_usd llm) compute;
          chargeableWithMarkupUsd = bn_times chargeableBaseUsd markupFactor;
          fxRate = fx_factor B billingCurrency fx
      in (\<lparr>bc_llm = money_of B ''usd'' (lc_total_usd llm),
           bc_llm_byok = money_of B ''usd'' (lc_byok_usd llm),
           bc_llm_managed = money_of B ''usd'' (lc_managed_usd llm),
           bc_compute = money_of B ''usd'' compute,
           bc_total = money_of B ''usd'' baseTotalUsd\<rparr>,
          \<lparr>bl_total = money_of B billingCurrency (bn_times chargeableWithMarkupUsd fxRate),
           bl_llm = money_of B billingCurrency (bn_times (bn_times (lc_managed_usd llm) markupFactor) fxRate),
           bl_compute = money_of B billingCurrency (bn_times (bn_times compute markupFactor) fxRate)\<rparr>))"

end
