(* ===== verification/Workflow_Retry.thy ===== *)
theory Workflow_Retry
  imports Pipeline_Expander Loop_Store Pricing
begin

section \<open>Retrying a workflow\<close>

text \<open>
  \<^verbatim>\<open>retry\<close> of \<^verbatim>\<open>apps/api/src/workflows/workflows.service.ts\<close> with its helpers: the selection of the steps, the clones of
  their jobs, the relations between the clones, the marks on what they replace, the reopened root and the audit.

  The call reads and checks the root, and then does its work in one transaction, which reads everything again under
  a lock: \<open>retry_guard\<close> and \<open>retry_tx\<close> are those two parts, so that what other clients do between them can be stated. A
  transaction that throws leaves the store as it was. The clock is \<open>now\<close>. The text of a number, the identifiers of new
  relations, the draws of \<^verbatim>\<open>generateJobId\<close> and the place the collation of the database gives an id are
  the record \<open>retry_ext\<close>. The query for relations has no order: rows come as the table has them.
\<close>

record retry_ext =
  rt_num_text :: "rat \<Rightarrow> string"
  rt_uuids :: "string \<times> string \<times> relation_type \<Rightarrow> string"
  rt_hashes :: "string \<Rightarrow> string list"
  rt_place :: "string \<Rightarrow> nat"

record retry_request =
  wr_root_job_id :: string
  wr_failed :: bool
  wr_from_step :: "string option"

datatype retry_mode = Mode_failed | Mode_from

record retried_step =
  rs_step_name :: string
  rs_previous_job_id :: string
  rs_retry_job_id :: string
  rs_depends_on :: "string list"

record retry_response =
  rr_root_job_id :: string
  rr_status :: string
  rr_mode :: retry_mode
  rr_from_step :: "string option"
  rr_generation :: rat
  rr_retried_steps :: "retried_step list"
  rr_superseded_job_ids :: "string list"

subsection \<open>Helpers\<close>

definition refuse :: "string \<Rightarrow> expand_exn" where
  "refuse m = Http (Bad_request m)"

definition isWorkflowRoot :: "job \<Rightarrow> bool" where
  "isWorkflowRoot j = (obj_get (j_hints j) ''workflow_root'' = Some (JBool True))"

definition isTerminal :: "job \<Rightarrow> bool" where
  "isTerminal j = (j_phase j = Done \<or> j_phase j = Cancelled)"

definition isSupersededWorkflowStep :: "job \<Rightarrow> bool" where
  "isSupersededWorkflowStep j =
     (case obj_get (j_hints j) ''workflow_retry_superseded_by'' of Some (JStr _) \<Rightarrow> True | _ \<Rightarrow> False)"

definition retryStepAssignee :: "job \<Rightarrow> string option" where
  "retryStepAssignee source = (if j_execution_type source = ExecAgent then j_assignee source else None)"

definition job_label :: "job \<Rightarrow> string" where
  "job_label j = or_default (j_id j) (j_step_name j)"

fun retry_mode_name :: "retry_mode \<Rightarrow> string" where
  "retry_mode_name Mode_failed = ''failed''"
| "retry_mode_name Mode_from = ''from''"

fun relation_type_name :: "relation_type \<Rightarrow> string" where
  "relation_type_name Blocks = ''blocks''"
| "relation_type_name Conditional_blocks = ''conditional_blocks''"
| "relation_type_name Waits_for = ''waits_for''"
| "relation_type_name Related = ''related''"
| "relation_type_name Discovered_from = ''discovered_from''"

subsection \<open>Selection of the steps\<close>

text \<open>\<^verbatim>\<open>dependentsByDependency.get(current) ?? []\<close>\<close>

definition retry_dependents :: "job_relation list \<Rightarrow> string \<Rightarrow> string list" where
  "retry_dependents relations current = map r_job_id (filter (\<lambda>r. r_related_job_id r = current) relations)"

definition select_dependent :: "string \<Rightarrow> string list \<times> string list \<Rightarrow> string list \<times> string list" where
  "select_dependent dependentId acc =
     (case acc of (selected, queue) \<Rightarrow>
        if dependentId \<in> set selected then (selected, queue) else (selected @ [dependentId], queue @ [dependentId]))"

lemma select_dependents:
  "\<exists>new. fold select_dependent ds (selected, queue) = (selected @ new, queue @ new) \<and> distinct new \<and>
     set new = set ds - set selected"
proof (induction ds arbitrary: selected queue)
  case (Cons d ds)
  show ?case
  proof (cases "d \<in> set selected")
    case True
    then show ?thesis using Cons [of selected queue] by (simp add: select_dependent_def insert_Diff_if)
  next
    case False
    obtain new where new: "fold select_dependent ds (selected @ [d], queue @ [d]) = ((selected @ [d]) @ new, (queue @ [d]) @ new)"
      "distinct new" "set new = set ds - set (selected @ [d])" using Cons by blast
    have "fold select_dependent (d # ds) (selected, queue) = (selected @ d # new, queue @ d # new)"
      using False new(1) by (simp add: select_dependent_def)
    moreover have "distinct (d # new)" "set (d # new) = set (d # ds) - set selected" using new(2,3) False by auto
    ultimately show ?thesis by blast
  qed
qed simp

function collect_dependents :: "job_relation list \<Rightarrow> string list \<Rightarrow> string list \<Rightarrow> string list" where
  "collect_dependents relations [] selected = selected"
| "collect_dependents relations (current # queue) selected =
     (case fold select_dependent (retry_dependents relations current) (selected, queue) of
        (selected', queue') \<Rightarrow> collect_dependents relations queue' selected')"
  by pat_completeness auto
termination
proof (relation "measure (\<lambda>(relations, queue, selected). length queue + card (r_job_id ` set relations - set selected))", goal_cases)
  case (2 relations current queue selected selected' queue')
  let ?open = "r_job_id ` set relations - set selected"
  obtain new where new: "selected' = selected @ new" "queue' = queue @ new" "distinct new"
      "set new = set (retry_dependents relations current) - set selected"
    using select_dependents [of "retry_dependents relations current" selected queue] 2 by auto
  have sub: "set new \<subseteq> ?open" using new(4) by (auto simp: retry_dependents_def)
  have "r_job_id ` set relations - set selected' = ?open - set new" using new(1) by auto
  then have "card (r_job_id ` set relations - set selected') = card ?open - length new"
    using new(3) sub by (simp add: card_Diff_subset distinct_card)
  moreover have "length new \<le> card ?open" using card_mono [OF _ sub] new(3) by (simp add: distinct_card)
  ultimately show ?case using new(2) by simp
qed simp

declare collect_dependents.simps(2) [simp del]

definition selectWorkflowRetrySteps ::
  "retry_mode \<Rightarrow> string option \<Rightarrow> job list \<Rightarrow> job_relation list \<Rightarrow> string + string list" where
  "selectWorkflowRetrySteps mode fromStep currentChildren relations =
     (case mode of
        Mode_failed \<Rightarrow>
          (let failed = filter (\<lambda>j. j_failure_disposition j \<in> {Some DispFailed, Some DispUpstreamFailed}) currentChildren
           in if failed = [] then Inl ''Workflow has no failed or upstream-failed current steps to retry''
              else Inr (first_occurrences (map j_id failed)))
      | Mode_from \<Rightarrow>
          if \<not> truthy_string fromStep then Inl ''from_step is required for workflow retry from mode''
          else
            (case find_row (\<lambda>j. j_step_name j = fromStep) currentChildren of
               None \<Rightarrow> Inl (''Workflow has no current step named \"'' @ the fromStep @ ''\". Available steps: '' @
                 join_with '', '' (map job_label currentChildren))
             | Some start \<Rightarrow> Inr (collect_dependents relations [j_id start] [j_id start])))"

subsection \<open>Checks\<close>

fun check_distinct_steps :: "string \<Rightarrow> job list \<Rightarrow> string list \<Rightarrow> string option" where
  "check_distinct_steps rootId [] seen = None"
| "check_distinct_steps rootId (child # cs) seen =
     (if \<not> truthy_string (j_step_name child) then check_distinct_steps rootId cs seen
      else if the (j_step_name child) \<in> set seen then
        Some (''Workflow '' @ rootId @ '' has multiple current jobs for step \"'' @ the (j_step_name child) @ ''\"; cannot retry safely'')
      else check_distinct_steps rootId cs (the (j_step_name child) # seen))"

definition relations_of :: "job_relation list \<Rightarrow> string \<Rightarrow> job_relation list" where
  "relations_of relations sourceId = filter (\<lambda>r. r_job_id r = sourceId) relations"

fun check_outside_deps :: "string \<Rightarrow> job list \<Rightarrow> string list \<Rightarrow> job_relation list \<Rightarrow> string option" where
  "check_outside_deps rootId currentChildren selectedIds [] = None"
| "check_outside_deps rootId currentChildren selectedIds (r # rs) =
     (if r_related_job_id r \<in> set selectedIds then check_outside_deps rootId currentChildren selectedIds rs
      else
        (case find_row (\<lambda>j. j_id j = r_related_job_id r) currentChildren of
           None \<Rightarrow> Some (''Cannot retry workflow '' @ rootId @ '': step '' @ r_job_id r @ '' depends on non-current job '' @ r_related_job_id r)
         | Some d \<Rightarrow>
             if j_phase d \<noteq> Done then
               Some (''Cannot retry workflow '' @ rootId @ '': dependency '' @ job_label d @ '' ('' @ j_id d @ '') is '' @
                 phase_name (j_phase d) @ '', not done'')
             else check_outside_deps rootId currentChildren selectedIds rs))"

definition blockers_text :: "job list \<Rightarrow> string" where
  "blockers_text openChildren =
     join_with '', '' (map (\<lambda>j. job_label j @ '' ('' @ j_id j @ '': '' @ phase_name (j_phase j) @ '')'') openChildren)"

definition generation_value :: "job \<Rightarrow> rat option" where
  "generation_value child =
     (case obj_get (j_hints child) ''workflow_retry_generation'' of
        Some (JNum n) \<Rightarrow> Some n
      | Some (JStr t) \<Rightarrow> text_number t
      | _ \<Rightarrow> None)"

definition nextRetryGeneration :: "job list \<Rightarrow> rat" where
  "nextRetryGeneration js =
     fold (\<lambda>child m. case generation_value child of None \<Rightarrow> m | Some v \<Rightarrow> max m v) js 0 + 1"

subsection \<open>Clones\<close>

definition buildRetryStepHints :: "job \<Rightarrow> string \<Rightarrow> rat \<Rightarrow> retry_mode \<Rightarrow> string option \<Rightarrow> string \<Rightarrow> jobject" where
  "buildRetryStepHints source rootJobId generation mode fromStep requestedAt =
     jsonb_concat
       (obj_del ''workflow_retry_superseded_generation''
         (obj_del ''workflow_retry_superseded_at'' (obj_del ''workflow_retry_superseded_by'' (j_hints source))))
       [(''workflow_retry_generation'', JNum generation), (''workflow_retry_of'', JStr (j_id source)),
        (''workflow_retry_root'', JStr rootJobId), (''workflow_retry_mode'', JStr (retry_mode_name mode)),
        (''workflow_retry_from_step'', json_opt fromStep), (''workflow_retry_requested_at'', JStr requestedAt)]"

definition withRetryLabels :: "(rat \<Rightarrow> string) \<Rightarrow> string list \<Rightarrow> string \<Rightarrow> rat \<Rightarrow> string list" where
  "withRetryLabels nt labels sourceJobId generation =
     first_occurrences (labels @ [''workflow-retry'', ''retry-generation:'' @ nt generation, ''retry-of:'' @ sourceJobId])"

record retry_context =
  rc_root :: job
  rc_mode :: retry_mode
  rc_from_step :: "string option"
  rc_user_id :: "string option"
  rc_generation :: rat
  rc_requested_at :: string

definition retry_row :: "retry_ext \<Rightarrow> retry_context \<Rightarrow> job \<Rightarrow> string \<Rightarrow> job" where
  "retry_row x c source retryJobId = source\<lparr>
     j_id := retryJobId,
     j_parent_id := Some (j_id (rc_root c)),
     j_labels := withRetryLabels (rt_num_text x) (j_labels source) (j_id source) (rc_generation c),
     j_phase := Ready,
     j_assignee := retryStepAssignee source,
     j_review_status := None,
     j_defer_until := None,
     j_hints := buildRetryStepHints source (j_id (rc_root c)) (rc_generation c) (rc_mode c) (rc_from_step c) (rc_requested_at c),
     j_resolved_git_json := None,
     j_blocked_on_gates := [],
     j_failure_disposition := None,
     j_closed_at := None,
     j_close_reason := None,
     j_spec := (j_spec source)\<lparr>
       sp_title := sp_title (j_spec source) @ '' [retry '' @ rt_num_text x (rc_generation c) @ '']'',
       sp_actor_user_id := coalesce (rc_user_id c) (sp_actor_user_id (j_spec source))\<rparr>\<rparr>"

text \<open>The clones, with the pairs of \<^verbatim>\<open>oldToNew\<close>.\<close>

fun clone_steps ::
  "retry_ext \<Rightarrow> retry_context \<Rightarrow> timestamp \<Rightarrow> job list \<Rightarrow> (string \<times> string) list \<Rightarrow> db \<Rightarrow> (string \<times> string) list expansion \<times> db" where
  "clone_steps x c now [] oldToNew s = (Expanded oldToNew, s)"
| "clone_steps x c now (source # sources) oldToNew s =
     (case generateJobId (j_project_id (rc_root c)) (Some (j_id (rc_root c))) (rt_hashes x (j_id source)) s of
        None \<Rightarrow> (Drawing, s)
      | Some (Inl e) \<Rightarrow> (Refused (Internal e), s)
      | Some (Inr (retryJobId, _)) \<Rightarrow>
          (case create (retry_row x c source retryJobId) now s of
             (Inl e, _) \<Rightarrow> (Refused (Internal (Job_Model.Db_error e)), s)
           | (Inr created, s') \<Rightarrow> clone_steps x c now sources (oldToNew @ [(j_id source, retryJobId)]) s'))"

definition replacement :: "(string \<times> string) list \<Rightarrow> string \<Rightarrow> string" where
  "replacement oldToNew i = or_default i (map_of oldToNew i)"

fun relate_clone ::
  "retry_ext \<Rightarrow> (string \<times> string) list \<Rightarrow> string \<Rightarrow> job_relation list \<Rightarrow> db \<Rightarrow> (exn + unit) \<times> db" where
  "relate_clone x oldToNew retryJobId [] s = (Inr (), s)"
| "relate_clone x oldToNew retryJobId (r # rs) s =
     (let relatedJobId = replacement oldToNew (r_related_job_id r)
      in case addDependency retryJobId relatedJobId (relation_type_name (r_relation_type r))
             (rt_uuids x (retryJobId, relatedJobId, r_relation_type r)) s of
           (Inl e, s') \<Rightarrow> (Inl e, s')
         | (Inr _, s') \<Rightarrow> relate_clone x oldToNew retryJobId rs s')"

definition supersede :: "retry_context \<Rightarrow> timestamp \<Rightarrow> string \<Rightarrow> string \<Rightarrow> db \<Rightarrow> db" where
  "supersede c now sourceId retryJobId =
     update_jobs (\<lambda>j. j_id j = sourceId)
       (\<lambda>j. j\<lparr>j_hints := jsonb_concat (j_hints j)
            [(''workflow_retry_superseded_by'', JStr retryJobId), (''workflow_retry_superseded_at'', JStr (rc_requested_at c)),
             (''workflow_retry_superseded_generation'', JNum (rc_generation c))],
          j_updated_at := now\<rparr>)"

fun link_clones ::
  "retry_ext \<Rightarrow> retry_context \<Rightarrow> timestamp \<Rightarrow> job_relation list \<Rightarrow> (string \<times> string) list \<Rightarrow> job list \<Rightarrow> db \<Rightarrow> (exn + unit) \<times> db" where
  "link_clones x c now relations oldToNew [] s = (Inr (), s)"
| "link_clones x c now relations oldToNew (source # sources) s =
     (case map_of oldToNew (j_id source) of
        None \<Rightarrow> link_clones x c now relations oldToNew sources s
      | Some retryJobId \<Rightarrow>
          (case relate_clone x oldToNew retryJobId (relations_of relations (j_id source)) s of
             (Inl e, s') \<Rightarrow> (Inl e, s')
           | (Inr _, s') \<Rightarrow> link_clones x c now relations oldToNew sources (supersede c now (j_id source) retryJobId s')))"

definition root_retry_hints :: "retry_context \<Rightarrow> (string \<times> string) list \<Rightarrow> job list \<Rightarrow> jobject" where
  "root_retry_hints c oldToNew sources =
     [(''workflow_retry_generation'', JNum (rc_generation c)), (''workflow_retry_mode'', JStr (retry_mode_name (rc_mode c))),
      (''workflow_retry_from_step'', json_opt (rc_from_step c)), (''workflow_retry_requested_at'', JStr (rc_requested_at c)),
      (''workflow_retry_requested_by'', json_opt (rc_user_id c)),
      (''workflow_retry_superseded_job_ids'', JArr (map (\<lambda>j. JStr (j_id j)) sources)),
      (''workflow_retry_job_ids'', JArr (concat (map (\<lambda>j. case map_of oldToNew (j_id j) of
          Some (h # t) \<Rightarrow> [JStr (h # t)] | _ \<Rightarrow> []) sources)))]"

definition reopen_root :: "retry_context \<Rightarrow> (string \<times> string) list \<Rightarrow> job list \<Rightarrow> timestamp \<Rightarrow> db \<Rightarrow> db" where
  "reopen_root c oldToNew sources now =
     update_jobs (\<lambda>j. j_id j = j_id (rc_root c))
       (\<lambda>j. j\<lparr>j_phase := Active, j_closed_at := None, j_close_reason := None, j_failure_disposition := None,
          j_hints := jsonb_concat (j_hints j) (root_retry_hints c oldToNew sources), j_updated_at := now\<rparr>)"

definition insertWorkflowRetryAudit ::
  "retry_context \<Rightarrow> string \<Rightarrow> string \<Rightarrow> string \<Rightarrow> (string \<times> string) list \<Rightarrow> timestamp \<Rightarrow> db \<Rightarrow> db" where
  "insertWorkflowRetryAudit c entityId action workflowRetryAction oldToNew =
     audit ''job'' entityId action (or_default ''workflow-retry'' (rc_user_id c))
       (if truthy_string (rc_user_id c) then ''user'' else ''system'')
       [(''workflow_retry_generation'', change JNull (JNum (rc_generation c)))]
       [(''action'', JStr workflowRetryAction), (''mode'', JStr (retry_mode_name (rc_mode c))),
        (''from_step'', json_opt (rc_from_step c)),
        (''replacements'', JObj (map (\<lambda>(o', n). (o', JStr n)) oldToNew))]"

definition audit_clone :: "retry_context \<Rightarrow> (string \<times> string) list \<Rightarrow> timestamp \<Rightarrow> job \<Rightarrow> db \<Rightarrow> db" where
  "audit_clone c oldToNew now source s =
     (case map_of oldToNew (j_id source) of
        None \<Rightarrow> s
      | Some retryJobId \<Rightarrow> insertWorkflowRetryAudit c retryJobId ''created'' ''workflow_retry_created'' [(j_id source, retryJobId)] now s)"

subsection \<open>The transaction\<close>

definition child_jobs :: "retry_ext \<Rightarrow> string \<Rightarrow> db \<Rightarrow> job list" where
  "child_jobs x rootId s =
     order_by (\<lambda>j. (j_created_at j, rt_place x (j_id j))) (filter (\<lambda>j. j_parent_id j = Some rootId) (jobs s))"

definition blocking_relations_of :: "string list \<Rightarrow> db \<Rightarrow> job_relation list" where
  "blocking_relations_of ids s =
     filter (\<lambda>r. r_job_id r \<in> set ids \<and> r_relation_type r \<in> {Blocks, Conditional_blocks, Waits_for}) (job_relations s)"

definition related_step_name :: "job list \<Rightarrow> (string \<times> string) list \<Rightarrow> string \<Rightarrow> string" where
  "related_step_name currentChildren oldToNew relatedId =
     or_default (replacement oldToNew relatedId)
       (Option.bind (find_row (\<lambda>j. j_id j = relatedId) currentChildren) j_step_name)"

definition retried_step_of :: "job list \<Rightarrow> job_relation list \<Rightarrow> (string \<times> string) list \<Rightarrow> job \<Rightarrow> retried_step" where
  "retried_step_of currentChildren relations oldToNew source =
     \<lparr>rs_step_name = job_label source, rs_previous_job_id = j_id source, rs_retry_job_id = the (map_of oldToNew (j_id source)),
      rs_depends_on = map (\<lambda>r. related_step_name currentChildren oldToNew (r_related_job_id r)) (relations_of relations (j_id source))\<rparr>"

text \<open>What the transaction reads and checks before it writes: the selected steps and the blocking relations.\<close>

definition retry_plan ::
  "retry_ext \<Rightarrow> job \<Rightarrow> retry_mode \<Rightarrow> string option \<Rightarrow> db \<Rightarrow> expand_exn + job list \<times> job list \<times> job_relation list" where
  "retry_plan x wfRoot mode fromStep s =
     (let rootId = j_id wfRoot;
          currentChildren = filter (\<lambda>j. \<not> isSupersededWorkflowStep j) (child_jobs x rootId s);
          openChildren = filter (\<lambda>j. \<not> isTerminal j) currentChildren
      in if currentChildren = [] then Inl (refuse (''Workflow root '' @ rootId @ '' has no current step jobs to retry''))
         else if openChildren \<noteq> [] then
           Inl (refuse (''Cannot retry workflow '' @ rootId @ '' while current steps are not terminal: '' @ blockers_text openChildren))
         else
           let relations = blocking_relations_of (map j_id currentChildren) s
           in case check_distinct_steps rootId currentChildren [] of
                Some e \<Rightarrow> Inl (refuse e)
              | None \<Rightarrow>
                  (case selectWorkflowRetrySteps mode fromStep currentChildren relations of
                     Inl e \<Rightarrow> Inl (refuse e)
                   | Inr selectedIds \<Rightarrow>
                       (case check_outside_deps rootId currentChildren selectedIds (concat (map (relations_of relations) selectedIds)) of
                          Some e \<Rightarrow> Inl (refuse e)
                        | None \<Rightarrow> Inr (currentChildren, filter (\<lambda>j. j_id j \<in> set selectedIds) currentChildren, relations))))"

definition retry_write ::
  "retry_ext \<Rightarrow> retry_context \<Rightarrow> job list \<Rightarrow> job list \<Rightarrow> job_relation list \<Rightarrow> timestamp \<Rightarrow> db \<Rightarrow> retry_response expansion \<times> db" where
  "retry_write x c currentChildren selectedChildren relations now s =
     (case clone_steps x c now selectedChildren [] s of
        (Drawing, _) \<Rightarrow> (Drawing, s)
      | (Refused e, _) \<Rightarrow> (Refused e, s)
      | (Expanded oldToNew, s1) \<Rightarrow>
          (case link_clones x c now relations oldToNew selectedChildren s1 of
             (Inl e, _) \<Rightarrow> (Refused (Internal e), s)
           | (Inr _, s2) \<Rightarrow>
               let s3 = reopen_root c oldToNew selectedChildren now s2;
                   s4 = insertWorkflowRetryAudit c (j_id (rc_root c)) ''updated'' ''workflow_retry'' oldToNew now s3;
                   s5 = fold (audit_clone c oldToNew now) selectedChildren s4
               in (Expanded
                     \<lparr>rr_root_job_id = j_id (rc_root c),
                      rr_status = (case findById (j_id (rc_root c)) s3 of None \<Rightarrow> ''active'' | Some r \<Rightarrow> phase_name (j_phase r)),
                      rr_mode = rc_mode c, rr_from_step = (if truthy_string (rc_from_step c) then rc_from_step c else None),
                      rr_generation = rc_generation c,
                      rr_retried_steps = map (retried_step_of currentChildren relations oldToNew) selectedChildren,
                      rr_superseded_job_ids = map j_id selectedChildren\<rparr>, s5)))"

definition retry_tx ::
  "retry_ext \<Rightarrow> string \<Rightarrow> retry_request \<Rightarrow> string option \<Rightarrow> timestamp \<Rightarrow> db \<Rightarrow> retry_response expansion \<times> db" where
  "retry_tx x rootId request userId now s =
     (case findById rootId s of
        None \<Rightarrow> (Refused (Http (Not_found (''Workflow root job '' @ rootId @ '' not found''))), s)
      | Some lockedRoot \<Rightarrow>
          if \<not> isWorkflowRoot lockedRoot then (Refused (refuse (''Job '' @ rootId @ '' is not a workflow root'')), s)
          else
            let mode = (if wr_failed request then Mode_failed else Mode_from)
            in case retry_plan x lockedRoot mode (wr_from_step request) s of
                 Inl e \<Rightarrow> (Refused e, s)
               | Inr (currentChildren, selectedChildren, relations) \<Rightarrow>
                   retry_write x
                     \<lparr>rc_root = lockedRoot, rc_mode = mode, rc_from_step = wr_from_step request, rc_user_id = userId,
                      rc_generation = nextRetryGeneration (child_jobs x (j_id lockedRoot) s), rc_requested_at = iso_date now\<rparr>
                     currentChildren selectedChildren relations now s)"

definition retry_guard :: "string \<Rightarrow> retry_request \<Rightarrow> db \<Rightarrow> expand_exn + string" where
  "retry_guard projectId request s =
     (if \<not> exists_row (\<lambda>p. p_id p = projectId) (projects s) then Inl (Http (Not_found (''Project '' @ projectId @ '' not found'')))
      else
        (case findById (wr_root_job_id request) s of
           None \<Rightarrow> Inl (Http (Not_found (''Workflow root job '' @ wr_root_job_id request @ '' not found'')))
         | Some wfRoot \<Rightarrow>
             if j_project_id wfRoot \<noteq> projectId then
               Inl (refuse (''Workflow root '' @ j_id wfRoot @ '' belongs to project '' @ j_project_id wfRoot @ '', not '' @ projectId))
             else if \<not> isWorkflowRoot wfRoot then Inl (refuse (''Job '' @ j_id wfRoot @ '' is not a workflow root''))
             else Inr (j_id wfRoot)))"

definition retry ::
  "retry_ext \<Rightarrow> string \<Rightarrow> retry_request \<Rightarrow> string option \<Rightarrow> timestamp \<Rightarrow> db \<Rightarrow> retry_response expansion \<times> db" where
  "retry x projectId request userId now s =
     (case retry_guard projectId request s of
        Inl e \<Rightarrow> (Refused e, s)
      | Inr rootId \<Rightarrow> retry_tx x rootId request userId now s)"

end
