(* ===== verification/Job_Graph.thy ===== *)
theory Job_Graph
  imports Prelude
begin

section \<open>Graphs of job keys: cycles and topological order\<close>

text \<open>
  The helpers at the end of \<^verbatim>\<open>apps/api/src/jobs/job-batch.service.ts\<close>: \<^verbatim>\<open>hasCycle\<close>, an iterative depth-first search
  with three colours, and the loop of \<^verbatim>\<open>topologicalSort\<close>, Kahn's algorithm. A JavaScript \<^verbatim>\<open>Map\<close> is an association
  list in insertion order; a node without a colour is unvisited, as \<^verbatim>\<open>state.get(next) ?? 0\<close> has it. The search
  keeps its stack with the top first.
\<close>

type_synonym dgraph = "(string \<times> string list) list"

definition map_put :: "'k \<Rightarrow> 'v \<Rightarrow> ('k \<times> 'v) list \<Rightarrow> ('k \<times> 'v) list" where
  "map_put k v m =
     (if k \<in> fst ` set m then map (\<lambda>(k', v'). (k', if k' = k then v else v')) m else m @ [(k, v)])"

definition graph_get :: "dgraph \<Rightarrow> string \<Rightarrow> string list" where
  "graph_get g n = (case map_of g n of None \<Rightarrow> [] | Some ns \<Rightarrow> ns)"

definition graph_push :: "string \<Rightarrow> string list \<Rightarrow> dgraph \<Rightarrow> dgraph" where
  "graph_push k ns g = map (\<lambda>(k', v). (k', if k' = k then v @ ns else v)) g"

definition edges :: "dgraph \<Rightarrow> (string \<times> string) set" where
  "edges g = {(u, v). v \<in> set (graph_get g u)}"

definition targets :: "dgraph \<Rightarrow> string set" where
  "targets g = (\<Union>(_, ns) \<in> set g. set ns)"

lemma map_of_map_put [simp]: "map_of (map_put k v m) x = (if x = k then Some v else map_of m x)"
proof -
  have "map_of (map (\<lambda>(k', v'). (k', if k' = k then v else v')) m) x =
      (if x = k \<and> k \<in> fst ` set m then Some v else map_of m x)"
  proof (induction m)
    case (Cons p m)
    then show ?case by (cases p; cases "x = k") simp_all
  qed simp
  moreover have "map_of (m @ [(k, v)]) x = (if x = k then Some v else map_of m x)" if "k \<notin> fst ` set m"
  proof -
    have "map_of m k = None" using that by (simp add: map_of_eq_None_iff)
    then show ?thesis by (cases "map_of m x") (auto simp: map_add_def)
  qed
  ultimately show ?thesis by (cases "k \<in> fst ` set m"; cases "x = k") (simp_all add: map_put_def)
qed

lemma graph_get_push: "graph_get (graph_push k ns g) n =
    (if n = k \<and> k \<in> fst ` set g then graph_get g n @ ns else graph_get g n)"
proof (induction g)
  case (Cons p g)
  then show ?case by (cases p; cases "n = k"; cases "map_of g n") (simp_all add: graph_get_def graph_push_def)
qed (simp add: graph_get_def graph_push_def)

lemma keys_push [simp]: "map fst (graph_push k ns g) = map fst g"
  by (simp add: graph_push_def case_prod_beta comp_def)

lemma keys_push_set [simp]: "fst ` set (graph_push k ns g) = fst ` set g"
  by (metis keys_push list.set_map)

lemma finite_targets [simp]: "finite (targets g)"
  by (auto simp: targets_def)

lemma graph_get_target: "v \<in> set (graph_get g u) \<Longrightarrow> v \<in> targets g"
  by (cases "map_of g u") (auto simp: graph_get_def targets_def dest!: map_of_SomeD)

lemma edges_key: "(u, v) \<in> edges g \<Longrightarrow> u \<in> fst ` set g"
  by (cases "map_of g u") (auto simp: edges_def graph_get_def dest!: map_of_SomeD intro: rev_image_eqI)

subsection \<open>Cycle detection\<close>

datatype colour = Unvisited | In_progress | Finished

definition remaining :: "dgraph \<Rightarrow> (string \<times> nat) list \<Rightarrow> nat" where
  "remaining g stack = sum_list (map (\<lambda>(n, i). Suc (length (graph_get g n) - i)) stack)"

function search :: "dgraph \<Rightarrow> (string \<times> nat) list \<Rightarrow> (string \<Rightarrow> colour) \<Rightarrow> bool \<times> (string \<Rightarrow> colour)" where
  "search g [] state = (False, state)"
| "search g ((n, i) # rest) state =
     (let neighbors = graph_get g n in
      if i < length neighbors then
        (case state (neighbors ! i) of
           In_progress \<Rightarrow> (True, state)
         | Unvisited \<Rightarrow> search g ((neighbors ! i, 0) # (n, Suc i) # rest) (state(neighbors ! i := In_progress))
         | Finished \<Rightarrow> search g ((n, Suc i) # rest) state)
      else search g rest (state(n := Finished)))"
  by pat_completeness auto

lemma unvisited_mono:
  assumes "v \<noteq> Unvisited"
  shows "card {x \<in> targets g. (state(n := v)) x = Unvisited} \<le> card {x \<in> targets g. state x = Unvisited}"
  using assms by (intro card_mono) auto

lemma unvisited_less:
  assumes "v \<noteq> Unvisited" "n \<in> targets g" "state n = Unvisited"
  shows "card {x \<in> targets g. (state(n := v)) x = Unvisited} < card {x \<in> targets g. state x = Unvisited}"
  using assms by (intro psubset_card_mono) auto

termination search
proof (relation "measures [\<lambda>(g, stack, state). card {x \<in> targets g. state x = Unvisited}, \<lambda>(g, stack, state). remaining g stack]",
    goal_cases)
  case (2 g n i rest state x)
  then show ?case
    using unvisited_less [of In_progress "graph_get g n ! i" g state] graph_get_target [of "graph_get g n ! i" g n] by simp
next
  case (4 g n i rest state x)
  then show ?case
    using unvisited_mono [of Finished g state n] by (simp add: remaining_def le_less del: fun_upd_apply)
qed (auto simp: remaining_def)

declare search.simps(2) [simp del]

fun cycle_from :: "dgraph \<Rightarrow> string list \<Rightarrow> (string \<Rightarrow> colour) \<Rightarrow> bool" where
  "cycle_from g [] state = False"
| "cycle_from g (start # ks) state =
     (if state start \<noteq> Unvisited then cycle_from g ks state
      else case search g [(start, 0)] (state(start := In_progress)) of
             (True, _) \<Rightarrow> True
           | (False, state') \<Rightarrow> cycle_from g ks state')"

definition hasCycle :: "dgraph \<Rightarrow> bool" where
  "hasCycle g = cycle_from g (map fst g) (\<lambda>_. Unvisited)"

text \<open>
  The search keeps: finished nodes are closed under edges and on no cycle; the nodes in progress are the
  stack; a node of the stack has an edge to the one above it, and what it has passed is finished
  or is the node above.
\<close>

definition closed_acyclic :: "dgraph \<Rightarrow> (string \<Rightarrow> colour) \<Rightarrow> bool" where
  "closed_acyclic g state \<longleftrightarrow>
     (\<forall>u v. state u = Finished \<longrightarrow> (u, v) \<in> edges g \<longrightarrow> state v = Finished) \<and>
     (\<forall>u. state u = Finished \<longrightarrow> (u, u) \<notin> (edges g)\<^sup>+)"

fun stacked :: "dgraph \<Rightarrow> (string \<Rightarrow> colour) \<Rightarrow> string set \<Rightarrow> (string \<times> nat) list \<Rightarrow> bool" where
  "stacked g state up [] = True"
| "stacked g state up ((n, i) # rest) =
     (set (take i (graph_get g n)) \<subseteq> {v. state v = Finished} \<union> up \<and>
      (\<forall>m \<in> up. (n, m) \<in> edges g) \<and> stacked g state {n} rest)"

definition search_inv :: "dgraph \<Rightarrow> (string \<times> nat) list \<Rightarrow> (string \<Rightarrow> colour) \<Rightarrow> bool" where
  "search_inv g stack state \<longleftrightarrow>
     closed_acyclic g state \<and> distinct (map fst stack) \<and> {v. state v = In_progress} = fst ` set stack \<and> stacked g state {} stack"

lemma stacked_mono:
  "stacked g state up stack \<Longrightarrow> {v. state v = Finished} \<subseteq> {v. state' v = Finished} \<Longrightarrow> stacked g state' up stack"
  by (induction g state up stack rule: stacked.induct) auto

lemma stacked_finished:
  assumes "stacked g state up stack" "{v. state v = Finished} \<union> up \<subseteq> {v. state' v = Finished}"
  shows "stacked g state' {} stack"
  using assms by (cases "(g, state, up, stack)" rule: stacked.cases) (auto intro: stacked_mono)

lemma stacked_reaches:
  assumes "stacked g state {t} stack" "n \<in> fst ` set stack"
  shows "(n, t) \<in> (edges g)\<^sup>+"
  using assms
proof (induction stack arbitrary: t)
  case (Cons p stack)
  obtain m i where p: "p = (m, i)" by force
  have e: "(m, t) \<in> edges g" "stacked g state {m} stack" using Cons.prems(1) by (auto simp: p)
  show ?case
  proof (cases "n = m")
    case True
    then show ?thesis using e(1) by simp
  next
    case False
    then have "(n, m) \<in> (edges g)\<^sup>+" using Cons.IH [OF e(2)] Cons.prems(2) by (simp add: p)
    then show ?thesis using e(1) by (rule trancl_into_trancl)
  qed
qed simp

lemma closed_finish:
  assumes "closed_acyclic g state" "state n = In_progress" "set (graph_get g n) \<subseteq> {v. state v = Finished}"
  shows "closed_acyclic g (state(n := Finished))"
proof -
  have closed: "state v = Finished" if "(u, v) \<in> (edges g)\<^sup>+" "state u = Finished" for u v
    using that(1) by induction (use assms(1) that(2) in \<open>auto simp: closed_acyclic_def\<close>)
  have step: "state v = Finished" if "(n, v) \<in> edges g" for v using that assms(3) by (auto simp: edges_def)
  have "(n, n) \<notin> (edges g)\<^sup>+"
  proof
    assume "(n, n) \<in> (edges g)\<^sup>+"
    then obtain v where "(n, v) \<in> edges g" "v = n \<or> (v, n) \<in> (edges g)\<^sup>+"
      using tranclD [of n n "edges g"] by (auto simp: rtrancl_eq_or_trancl)
    then show False using step [of v] closed [of v n] assms(2) by auto
  qed
  then show ?thesis using assms(1) step by (auto simp: closed_acyclic_def)
qed

lemma search_inv_top: "search_inv g ((n, i) # rest) state \<Longrightarrow>
    state n = In_progress \<and> (\<forall>v. state v = In_progress \<longleftrightarrow> v = n \<or> v \<in> fst ` set rest)"
  by (auto simp: search_inv_def)

lemma search_inv_finish:
  assumes "search_inv g ((n, i) # rest) state" "\<not> i < length (graph_get g n)"
  shows "search_inv g rest (state(n := Finished))"
proof -
  have inv: "closed_acyclic g state" "n \<notin> fst ` set rest" "distinct (map fst rest)"
    "{v. state v = In_progress} = insert n (fst ` set rest)" "set (graph_get g n) \<subseteq> {v. state v = Finished}"
    "stacked g state {n} rest"
    using assms by (auto simp: search_inv_def)
  have "closed_acyclic g (state(n := Finished))"
    using inv(1,5) search_inv_top [OF assms(1)] by (intro closed_finish) auto
  moreover have "stacked g (state(n := Finished)) {} rest" using inv(6) by (rule stacked_finished) auto
  moreover have "{v. (state(n := Finished)) v = In_progress} = fst ` set rest" using inv(2,4) by auto
  ultimately show ?thesis using inv(3) by (simp add: search_inv_def)
qed

lemma search_inv_visit:
  assumes "search_inv g ((n, i) # rest) state" "i < length (graph_get g n)" "state (graph_get g n ! i) = Unvisited"
  shows "search_inv g ((graph_get g n ! i, 0) # (n, Suc i) # rest) (state(graph_get g n ! i := In_progress))"
proof -
  let ?ns = "graph_get g n" let ?m = "?ns ! i"
  let ?st = "state(?m := In_progress)"
  have inv: "closed_acyclic g state" "n \<notin> fst ` set rest" "distinct (map fst rest)"
    "{v. state v = In_progress} = insert n (fst ` set rest)" "set (take i ?ns) \<subseteq> {v. state v = Finished}"
    "stacked g state {n} rest"
    using assms(1) by (auto simp: search_inv_def)
  have e: "(n, ?m) \<in> edges g" using assms(2) by (simp add: edges_def)
  have f: "{v. state v = Finished} \<subseteq> {v. ?st v = Finished}" using assms(3) by auto
  have "state ?m \<noteq> In_progress" using assms(3) by simp
  then have m: "?m \<noteq> n" "?m \<notin> fst ` set rest" using search_inv_top [OF assms(1)] by simp_all
  have "closed_acyclic g ?st" using inv(1) assms(3) by (auto simp: closed_acyclic_def)
  moreover have "set (take (Suc i) ?ns) \<subseteq> {v. ?st v = Finished} \<union> {?m}"
    using inv(5) f assms(2) by (auto simp: take_Suc_conv_app_nth)
  moreover have "{v. ?st v = In_progress} = {?m, n} \<union> fst ` set rest" using inv(4) by auto
  ultimately show ?thesis
    using inv(2,3) m e stacked_mono [OF inv(6) f] by (simp add: search_inv_def del: fun_upd_apply)
qed

lemma search_inv_skip:
  assumes "search_inv g ((n, i) # rest) state" "i < length (graph_get g n)" "state (graph_get g n ! i) = Finished"
  shows "search_inv g ((n, Suc i) # rest) state"
proof -
  have "set (take (Suc i) (graph_get g n)) \<subseteq> {v. state v = Finished}"
    using assms by (auto simp: search_inv_def take_Suc_conv_app_nth)
  then show ?thesis using assms(1) by (auto simp: search_inv_def)
qed

lemma search_correct:
  "search_inv g stack state \<Longrightarrow> search g stack state = (found, state') \<Longrightarrow>
     (found \<longrightarrow> \<not> acyclic (edges g)) \<and>
     (\<not> found \<longrightarrow> closed_acyclic g state' \<and> (\<forall>v. state' v \<noteq> In_progress) \<and>
        (\<forall>v. state v \<noteq> Unvisited \<longrightarrow> state' v = Finished))"
proof (induction g stack state rule: search.induct)
  case (1 g state)
  then have "\<forall>v. state v \<noteq> In_progress" by (auto simp: search_inv_def)
  moreover have "\<forall>v. state v \<noteq> Unvisited \<longrightarrow> state v = Finished" using calculation colour.exhaust by metis
  ultimately show ?case using 1 by (auto simp: search_inv_def)
next
  case (2 g n i rest state)
  let ?ns = "graph_get g n"
  note run = 2(5) [unfolded search.simps(2) [of g n i rest state] Let_def]
  show ?case
  proof (cases "i < length ?ns")
    case False
    then have "search g rest (state(n := Finished)) = (found, state')" using run by simp
    from 2(3) [OF refl False search_inv_finish [OF 2(4) False] this]
    show ?thesis by (metis fun_upd_other fun_upd_same colour.distinct(3))
  next
    case True
    let ?m = "?ns ! i"
    show ?thesis
    proof (cases "state ?m")
      case In_progress
      then have "?m = n \<or> ?m \<in> fst ` set rest" using search_inv_top [OF 2(4)] by blast
      moreover have st: "stacked g state {n} rest" using 2(4) by (auto simp: search_inv_def)
      ultimately have "(?m, n) \<in> (edges g)\<^sup>*" using stacked_reaches [OF st] by (auto intro: trancl_into_rtrancl)
      moreover have "(n, ?m) \<in> edges g" using True by (simp add: edges_def)
      ultimately have "(n, n) \<in> (edges g)\<^sup>+" by simp
      then show ?thesis using run True In_progress by (auto simp: acyclic_def)
    next
      case Unvisited
      then have "search g ((?m, 0) # (n, Suc i) # rest) (state(?m := In_progress)) = (found, state')"
        using run True by simp
      from 2(1) [OF refl True Unvisited search_inv_visit [OF 2(4) True Unvisited] this]
      show ?thesis by (metis fun_upd_other Unvisited)
    next
      case Finished
      from 2(2) [OF refl True Finished search_inv_skip [OF 2(4) True Finished]] run True Finished
      show ?thesis by auto
    qed
  qed
qed

lemma cycle_from_correct:
  assumes "closed_acyclic g state" "\<forall>v. state v \<noteq> In_progress" "\<forall>v \<in> fst ` set g. state v = Unvisited \<longrightarrow> v \<in> set ks"
  shows "cycle_from g ks state \<longleftrightarrow> \<not> acyclic (edges g)"
  using assms
proof (induction ks arbitrary: state)
  case Nil
  have "(u, u) \<notin> (edges g)\<^sup>+" for u
  proof
    assume c: "(u, u) \<in> (edges g)\<^sup>+"
    then have "u \<in> fst ` set g" by (auto dest: tranclD edges_key)
    then have "state u = Finished" using Nil(2,3) by (cases "state u") auto
    then show False using Nil(1) c by (auto simp: closed_acyclic_def)
  qed
  then show ?case by (simp add: acyclic_def)
next
  case (Cons start ks)
  show ?case
  proof (cases "state start = Unvisited")
    case False
    then show ?thesis using Cons.IH [of state] Cons.prems by auto
  next
    case True
    let ?st = "state(start := In_progress)"
    obtain found st' where s: "search g [(start, 0)] ?st = (found, st')" by force
    have "closed_acyclic g ?st" using Cons.prems(1) True by (auto simp: closed_acyclic_def)
    then have "search_inv g [(start, 0)] ?st" using Cons.prems(2) by (auto simp: search_inv_def)
    note c = search_correct [OF this s]
    have "\<not> found \<Longrightarrow> v \<in> fst ` set g \<Longrightarrow> st' v = Unvisited \<Longrightarrow> v \<in> set ks" for v
    proof -
      assume a: "\<not> found" "v \<in> fst ` set g" "st' v = Unvisited"
      then have "?st v = Unvisited" using c colour.distinct(3) by metis
      then have "v \<noteq> start" "state v = Unvisited" by (auto split: if_splits)
      then show "v \<in> set ks" using Cons.prems(3) a(2) by auto
    qed
    then have "\<not> found \<Longrightarrow> cycle_from g ks st' \<longleftrightarrow> \<not> acyclic (edges g)" using c by (intro Cons.IH) auto
    then show ?thesis using c s True by (cases found) simp_all
  qed
qed

lemma hasCycle_iff: "hasCycle g \<longleftrightarrow> \<not> acyclic (edges g)"
  unfolding hasCycle_def by (rule cycle_from_correct) (auto simp: closed_acyclic_def)

subsection \<open>Topological order\<close>

type_synonym degrees = "(string \<times> int) list"

definition degree :: "degrees \<Rightarrow> string \<Rightarrow> int" where
  "degree deg n = (case map_of deg n of None \<Rightarrow> 1 | Some d \<Rightarrow> d)"

definition relax :: "string \<Rightarrow> degrees \<times> string list \<Rightarrow> degrees \<times> string list" where
  "relax neighbor acc =
     (case acc of (deg, queue) \<Rightarrow>
        let newDegree = degree deg neighbor - 1
        in (map_put neighbor newDegree deg, if newDegree = 0 then queue @ [neighbor] else queue))"

definition positive :: "dgraph \<Rightarrow> degrees \<Rightarrow> string set" where
  "positive adj deg = {v \<in> targets adj. 0 < degree deg v}"

lemma degree_put [simp]: "degree (map_put n d deg) v = (if v = n then d else degree deg v)"
  by (simp add: degree_def)

lemma finite_positive [simp]: "finite (positive adj deg)"
  by (simp add: positive_def)

lemma relax_pot:
  assumes "n \<in> targets adj" "relax n (deg, queue) = (deg', queue')"
  shows "length queue' + card (positive adj deg') \<le> length queue + card (positive adj deg)"
proof (cases "degree deg n = 1")
  case True
  then have r: "deg' = map_put n 0 deg" "queue' = queue @ [n]" using assms(2) by (simp_all add: relax_def)
  have "positive adj deg' = positive adj deg - {n}" "n \<in> positive adj deg"
    using True assms(1) by (auto simp: r positive_def split: if_splits)
  then show ?thesis using card_Suc_Diff1 [of "positive adj deg" n] by (simp add: r)
next
  case False
  then have r: "deg' = map_put n (degree deg n - 1) deg" "queue' = queue" using assms(2) by (simp_all add: relax_def Let_def)
  have "positive adj deg' \<subseteq> positive adj deg" by (auto simp: r positive_def split: if_splits)
  then show ?thesis using card_mono [of "positive adj deg" "positive adj deg'"] by (simp add: r)
qed

lemma relaxes_pot:
  assumes "set ns \<subseteq> targets adj" "fold relax ns (deg, queue) = (deg', queue')"
  shows "length queue' + card (positive adj deg') \<le> length queue + card (positive adj deg)"
  using assms
proof (induction ns arbitrary: deg queue)
  case (Cons n ns)
  obtain d q where r: "relax n (deg, queue) = (d, q)" by force
  show ?case using Cons.IH [of d q] Cons.prems r relax_pot [OF _ r, of adj] by auto
qed simp

function kahn :: "dgraph \<Rightarrow> string list \<Rightarrow> degrees \<Rightarrow> string list \<Rightarrow> string list" where
  "kahn adjacency [] inDegree res = res"
| "kahn adjacency (node # queue) inDegree res =
     (case fold relax (graph_get adjacency node) (inDegree, queue) of
        (inDegree', queue') \<Rightarrow> kahn adjacency queue' inDegree' (res @ [node]))"
  by pat_completeness auto
termination kahn
proof (relation "measure (\<lambda>(adj, queue, deg, res). length queue + card (positive adj deg))", goal_cases)
  case (2 adj node queue deg res deg' queue')
  have "set (graph_get adj node) \<subseteq> targets adj" by (auto intro: graph_get_target)
  then show ?case using relaxes_pot [of "graph_get adj node" adj deg queue deg' queue'] 2 by simp
qed simp

text \<open>What one round of the loop does to the degrees and to the queue.\<close>

lemma relaxes:
  assumes "\<forall>v \<in> set ns. int (count_list ns v) \<le> degree deg v" "fold relax ns (deg, queue) = (deg', queue')"
  shows "(\<forall>v. degree deg' v = degree deg v - int (count_list ns v)) \<and>
    (\<exists>new. queue' = queue @ new \<and> distinct new \<and> set new = {v \<in> set ns. degree deg v = int (count_list ns v)})"
  using assms
proof (induction ns arbitrary: deg queue)
  case (Cons n ns)
  let ?d = "degree deg n - 1"
  define deg1 where "deg1 = map_put n ?d deg"
  define q1 where "q1 = (if ?d = 0 then queue @ [n] else queue)"
  have f: "fold relax ns (deg1, q1) = (deg', queue')"
    using Cons.prems(2) relax_def [of n "(deg, queue)"] by (simp add: Let_def deg1_def q1_def)
  have le: "int (count_list ns v) \<le> degree deg1 v" if "v \<in> set ns" for v
    using Cons.prems(1) that by (auto simp: deg1_def dest: bspec [of _ _ v] split: if_splits)
  from Cons.IH [OF _ f] le obtain new where new: "\<forall>v. degree deg' v = degree deg1 v - int (count_list ns v)"
    "queue' = q1 @ new" "distinct new" "set new = {v \<in> set ns. degree deg1 v = int (count_list ns v)}" by auto
  have d: "\<forall>v. degree deg' v = degree deg v - int (count_list (n # ns) v)" using new(1) by (simp add: deg1_def)
  show ?case
  proof (cases "?d = 0")
    case True
    then have nn: "n \<notin> set ns" using le [of n] by (auto simp: deg1_def count_list_0_iff dest: gr0I)
    have "v \<in> set (n # new) \<longleftrightarrow> v \<in> {v \<in> set (n # ns). degree deg v = int (count_list (n # ns) v)}" for v
      using True nn by (cases "v = n") (simp_all add: new(4) deg1_def)
    then have "set (n # new) = {v \<in> set (n # ns). degree deg v = int (count_list (n # ns) v)}" by blast
    then show ?thesis using new d True nn by (intro conjI exI [of _ "n # new"]) (auto simp: q1_def)
  next
    case False
    have "v \<in> set new \<longleftrightarrow> v \<in> {v \<in> set (n # ns). degree deg v = int (count_list (n # ns) v)}" for v
      using False by (cases "v = n") (auto simp: new(4) deg1_def intro: ccontr)
    then have "set new = {v \<in> set (n # ns). degree deg v = int (count_list (n # ns) v)}" by blast
    then show ?thesis using new d False by (auto simp: q1_def)
  qed
qed simp

text \<open>
  The loop over a list of edges \<open>(before, after)\<close>, with the adjacency lists and the degrees they give. What is
  sorted has its predecessors before it; the degree of a node counts the edges from nodes not sorted yet.
\<close>

definition pending :: "(string \<times> string) list \<Rightarrow> string list \<Rightarrow> string \<Rightarrow> nat" where
  "pending es fin v = length (filter (\<lambda>(a, b). b = v \<and> a \<notin> set fin) es)"

definition well_ordered :: "(string \<times> string) list \<Rightarrow> string list \<Rightarrow> bool" where
  "well_ordered es xs \<longleftrightarrow> (\<forall>i < length xs. \<forall>a. (a, xs ! i) \<in> set es \<longrightarrow> a \<in> set (take i xs))"

definition kahn_inv ::
  "(string \<times> string) list \<Rightarrow> string set \<Rightarrow> string list \<Rightarrow> degrees \<Rightarrow> string list \<Rightarrow> bool" where
  "kahn_inv es nodes queue deg res \<longleftrightarrow>
     distinct (res @ queue) \<and> set (res @ queue) = {v \<in> nodes. pending es res v = 0} \<and>
     (\<forall>v \<in> nodes. degree deg v = int (pending es res v)) \<and> well_ordered es res"

lemma pending_0: "pending es fin v = 0 \<longleftrightarrow> (\<forall>a. (a, v) \<in> set es \<longrightarrow> a \<in> set fin)"
  by (auto simp: pending_def filter_empty_conv)

lemma pending_snoc:
  assumes "n \<notin> set fin"
  shows "pending es fin v = pending es (fin @ [n]) v + count_list (map snd (filter (\<lambda>e. fst e = n) es)) v"
  using assms by (induction es) (auto simp: pending_def)

lemma well_ordered_snoc:
  "well_ordered es xs \<Longrightarrow> (\<And>a. (a, n) \<in> set es \<Longrightarrow> a \<in> set xs) \<Longrightarrow> well_ordered es (xs @ [n])"
  by (auto simp: well_ordered_def nth_append less_Suc_eq)

lemma kahn_step:
  assumes inv: "kahn_inv es nodes (n # queue) deg res"
    and adj: "ns = map snd (filter (\<lambda>e. fst e = n) es)" and known: "snd ` set es \<subseteq> nodes"
    and f: "fold relax ns (deg, queue) = (deg', queue')"
  shows "kahn_inv es nodes queue' deg' (res @ [n])"
proof -
  have n: "n \<notin> set res" "n \<in> nodes" and pre: "\<And>a. (a, n) \<in> set es \<Longrightarrow> a \<in> set res"
    using inv by (auto simp: kahn_inv_def pending_0)
  have deg: "degree deg v = int (pending es (res @ [n]) v) + int (count_list ns v)" if "v \<in> nodes" for v
    using inv that pending_snoc [OF n(1), of es v] by (simp add: kahn_inv_def adj)
  have ns: "set ns \<subseteq> nodes" using known by (auto simp: adj)
  from relaxes [OF _ f] deg ns obtain new where new: "\<forall>v. degree deg' v = degree deg v - int (count_list ns v)"
    "queue' = queue @ new" "distinct new" "set new = {v \<in> set ns. degree deg v = int (count_list ns v)}" by fastforce
  have new_set: "set new = {v \<in> set ns. pending es (res @ [n]) v = 0}" using new(4) deg ns by auto
  have old: "pending es res v \<noteq> 0" if "v \<in> set ns" for v
    using that n(1) by (auto simp: adj pending_0)
  have same: "pending es (res @ [n]) v = pending es res v" if "v \<notin> set ns" for v
    using pending_snoc [OF n(1), of es v] that by (simp add: adj count_list_0_iff)
  have s0: "set res \<union> insert n (set queue) = {v \<in> nodes. pending es res v = 0}"
    "distinct (res @ n # queue)" using inv by (auto simp: kahn_inv_def)
  have disj: "set new \<inter> (set res \<union> insert n (set queue)) = {}"
    unfolding s0(1) new_set using old by force
  have "{v \<in> nodes. pending es (res @ [n]) v = 0} = {v \<in> nodes. pending es res v = 0} \<union> set new"
    using same old ns new_set pending_snoc [OF n(1), of es] by (auto simp: pending_0)
  then have "set ((res @ [n]) @ queue') = {v \<in> nodes. pending es (res @ [n]) v = 0}"
    using s0(1) new(2) by auto
  moreover have "distinct ((res @ [n]) @ queue')" using s0(2) new(2,3) disj by auto
  moreover have "well_ordered es (res @ [n])" using inv pre by (intro well_ordered_snoc) (auto simp: kahn_inv_def)
  ultimately show ?thesis using new(1) deg by (simp add: kahn_inv_def)
qed

lemma kahn_result:
  assumes "kahn_inv es nodes queue deg res" "\<And>u. graph_get adj u = map snd (filter (\<lambda>e. fst e = u) es)"
    "snd ` set es \<subseteq> nodes"
  shows "\<exists>deg'. kahn_inv es nodes [] deg' (kahn adj queue deg res)"
  using assms
proof (induction adj queue deg res rule: kahn.induct)
  case (2 adj n queue deg res)
  obtain deg' queue' where f: "fold relax (graph_get adj n) (deg, queue) = (deg', queue')" by force
  have "kahn_inv es nodes queue' deg' (res @ [n])"
    using kahn_step [OF 2(2) _ 2(4)] 2(3) f by metis
  then show ?case using 2(1) [of deg' queue'] 2(3,4) f by (simp add: f)
qed auto

lemma kahn_total:
  assumes "kahn_inv es nodes [] deg res" "acyclic (set es)" "fst ` set es \<subseteq> nodes" "finite nodes"
  shows "distinct res \<and> set res = nodes \<and> well_ordered es res"
proof -
  have sub: "set res = {v \<in> nodes. pending es res v = 0}" using assms(1) by (simp add: kahn_inv_def)
  have free: "v \<in> set res" if "v \<in> nodes" "\<And>a. (a, v) \<in> set es \<Longrightarrow> a \<in> set res" for v
    by (subst sub) (use that in \<open>simp add: pending_0\<close>)
  have "wf (set es)" using assms(2) by (simp add: finite_acyclic_wf)
  have "v \<in> nodes \<longrightarrow> v \<in> set res" for v
    using \<open>wf (set es)\<close>
  proof (induction v rule: wf_induct_rule)
    case (less v)
    have "a \<in> set res" if "(a, v) \<in> set es" for a
      using less.IH [OF that] that assms(3) by (metis image_subset_iff fst_conv)
    then show ?case using free by blast
  qed
  then have "set res = nodes" using sub by auto
  then show ?thesis using assms(1) by (simp add: kahn_inv_def)
qed

end
