(* ===== verification/Workflow_Graph.thy ===== *)
theory Workflow_Graph
  imports Pipeline_Expander Job_Graph Loop_Store
begin

section \<open>Graphs of workflow steps\<close>

text \<open>
  The pure helpers of \<^verbatim>\<open>apps/api/src/workflows/workflows.service.ts\<close>: \<^verbatim>\<open>validateStepGraph\<close>, \<^verbatim>\<open>parseStepCondition\<close> and
  \<^verbatim>\<open>detectCycleInGraph\<close>. Steps are the objects the schema of workflows admits, whose \<^verbatim>\<open>depends_on\<close> is an array of
  strings. The recursion of the search is a stack of frames, the innermost first: a node with the
  dependencies it has still to visit. The path a call carries is the nodes of the frames.
\<close>

subsection \<open>Cycle detection\<close>

record search_state =
  ss_visited :: "string set"
  ss_inStack :: "string set"

definition frames_path :: "(string \<times> string list) list \<Rightarrow> string list" where
  "frames_path stack = rev (map fst stack)"

definition fresh_nodes :: "dgraph \<Rightarrow> (string \<times> string list) list \<Rightarrow> string set \<Rightarrow> string set" where
  "fresh_nodes g stack vis = (targets g \<union> (\<Union>(_, ds) \<in> set stack. set ds)) - vis"

definition frame_size :: "(string \<times> string list) list \<Rightarrow> nat" where
  "frame_size stack = sum_list (map (\<lambda>(_, ds). Suc (length ds)) stack)"

lemma finite_fresh [simp]: "finite (fresh_nodes g stack vis)"
  by (auto simp: fresh_nodes_def)

function dfs_frames :: "dgraph \<Rightarrow> (string \<times> string list) list \<Rightarrow> search_state \<Rightarrow> string list option \<times> search_state" where
  "dfs_frames g [] st = (None, st)"
| "dfs_frames g ((n, []) # rest) st = dfs_frames g rest (st\<lparr>ss_inStack := ss_inStack st - {n}\<rparr>)"
| "dfs_frames g ((n, d # ds) # rest) st =
     (if d \<in> ss_inStack st then (Some (frames_path ((n, d # ds) # rest) @ [d]), st)
      else if d \<in> ss_visited st then dfs_frames g ((n, ds) # rest) st
      else dfs_frames g ((d, graph_get g d) # (n, ds) # rest)
             (st\<lparr>ss_visited := insert d (ss_visited st), ss_inStack := insert d (ss_inStack st)\<rparr>))"
  by pat_completeness auto
termination
proof (relation "measures [\<lambda>(g, stack, st). card (fresh_nodes g stack (ss_visited st)), \<lambda>(g, stack, st). frame_size stack]",
    goal_cases)
  case (2 g n rest st)
  have "card (fresh_nodes g rest (ss_visited st)) \<le> card (fresh_nodes g ((n, []) # rest) (ss_visited st))"
    by (rule card_mono) (auto simp: fresh_nodes_def)
  then show ?case by (auto simp: frame_size_def)
next
  case (3 g n d ds rest st)
  have "card (fresh_nodes g ((n, ds) # rest) (ss_visited st)) \<le> card (fresh_nodes g ((n, d # ds) # rest) (ss_visited st))"
    by (rule card_mono) (auto simp: fresh_nodes_def)
  then show ?case by (auto simp: frame_size_def)
next
  case (4 g n d ds rest st)
  have "fresh_nodes g ((d, graph_get g d) # (n, ds) # rest) (insert d (ss_visited st))
      \<subset> fresh_nodes g ((n, d # ds) # rest) (ss_visited st)"
    using 4 graph_get_target [of _ g d] by (auto simp: fresh_nodes_def)
  then have "card (fresh_nodes g ((d, graph_get g d) # (n, ds) # rest) (insert d (ss_visited st)))
      < card (fresh_nodes g ((n, d # ds) # rest) (ss_visited st))"
    by (rule psubset_card_mono [rotated]) simp
  then show ?case by simp
qed simp

definition dfs_node :: "dgraph \<Rightarrow> string \<Rightarrow> search_state \<Rightarrow> string list option \<times> search_state" where
  "dfs_node g node st =
     (if node \<in> ss_inStack st then (Some [node], st)
      else if node \<in> ss_visited st then (None, st)
      else dfs_frames g [(node, graph_get g node)]
             (st\<lparr>ss_visited := insert node (ss_visited st), ss_inStack := insert node (ss_inStack st)\<rparr>))"

fun dfs_nodes :: "dgraph \<Rightarrow> string list \<Rightarrow> search_state \<Rightarrow> string list option" where
  "dfs_nodes g [] st = None"
| "dfs_nodes g (name # names) st =
     (case dfs_node g name st of (Some cycle, _) \<Rightarrow> Some cycle | (None, st') \<Rightarrow> dfs_nodes g names st')"

definition detectCycleInGraph :: "string list \<Rightarrow> dgraph \<Rightarrow> string list option" where
  "detectCycleInGraph nodes depMap = dfs_nodes depMap nodes \<lparr>ss_visited = {}, ss_inStack = {}\<rparr>"

text \<open>A closed walk: consecutive nodes are dependencies, and the last node has occurred before.\<close>

definition cycle_path :: "dgraph \<Rightarrow> string list \<Rightarrow> bool" where
  "cycle_path g c =
     (c \<noteq> [] \<and> last c \<in> set (butlast c) \<and> successively (\<lambda>a b. b \<in> set (graph_get g a)) c)"

text \<open>The search is the one with colours of \<open>Job_Graph\<close>, which also gives the path it has walked.\<close>

definition state_of :: "(string \<Rightarrow> colour) \<Rightarrow> search_state" where
  "state_of state = \<lparr>ss_visited = {v. state v \<noteq> Unvisited}, ss_inStack = {v. state v = In_progress}\<rparr>"

definition frames_of :: "dgraph \<Rightarrow> (string \<times> nat) list \<Rightarrow> (string \<times> string list) list" where
  "frames_of g stack = map (\<lambda>(n, i). (n, drop i (graph_get g n))) stack"

lemma state_of_push: "state v = Unvisited \<Longrightarrow>
    state_of (state(v := In_progress)) =
    (state_of state)\<lparr>ss_visited := insert v (ss_visited (state_of state)), ss_inStack := insert v (ss_inStack (state_of state))\<rparr>"
  by (auto simp: state_of_def)

lemma state_of_pop: "state v = In_progress \<Longrightarrow>
    state_of (state(v := Finished)) = (state_of state)\<lparr>ss_inStack := ss_inStack (state_of state) - {v}\<rparr>"
  by (auto simp: state_of_def)

lemma dfs_is_search:
  "search_inv g stack state \<Longrightarrow> search g stack state = (found, state') \<Longrightarrow>
     (fst (dfs_frames g (frames_of g stack) (state_of state)) \<noteq> None) = found \<and>
     (\<not> found \<longrightarrow> snd (dfs_frames g (frames_of g stack) (state_of state)) = state_of state')"
proof (induction g stack state rule: search.induct)
  case (1 g state)
  then show ?case by (simp add: frames_of_def)
next
  case (2 g n i rest state)
  let ?ns = "graph_get g n"
  note run = 2(5) [unfolded search.simps(2) [of g n i rest state] Let_def]
  have n: "state n = In_progress" using search_inv_top [OF 2(4)] by simp
  show ?case
  proof (cases "i < length ?ns")
    case False
    then have "search g rest (state(n := Finished)) = (found, state')" using run by simp
    from 2(3) [OF refl False search_inv_finish [OF 2(4) False] this] show ?thesis
      using False by (simp add: frames_of_def state_of_pop [of state n, OF n] del: fun_upd_apply)
  next
    case True
    then have d: "drop i ?ns = ?ns ! i # drop (Suc i) ?ns" by (simp add: Cons_nth_drop_Suc)
    show ?thesis
    proof (cases "state (?ns ! i)")
      case In_progress
      then show ?thesis using run True by (simp add: frames_of_def d state_of_def)
    next
      case Unvisited
      let ?m = "?ns ! i"
      have "search g ((?m, 0) # (n, Suc i) # rest) (state(?m := In_progress)) = (found, state')"
        using run True Unvisited by simp
      note ih = 2(1) [OF refl True Unvisited search_inv_visit [OF 2(4) True Unvisited] this]
      have "?m \<notin> ss_inStack (state_of state)" "?m \<notin> ss_visited (state_of state)"
        using Unvisited by (simp_all add: state_of_def)
      with ih show ?thesis
        by (simp add: frames_of_def d state_of_push [of state ?m, OF Unvisited] del: fun_upd_apply)
    next
      case Finished
      have "?ns ! i \<notin> ss_inStack (state_of state)" "?ns ! i \<in> ss_visited (state_of state)"
        using Finished by (simp_all add: state_of_def)
      moreover have "search g ((n, Suc i) # rest) state = (found, state')" using run True Finished by simp
      ultimately show ?thesis using 2(2) [OF refl True Finished search_inv_skip [OF 2(4) True Finished]]
        by (simp add: frames_of_def d)
    qed
  qed
qed

definition linked :: "dgraph \<Rightarrow> (string \<times> string list) list \<Rightarrow> bool" where
  "linked g stack =
     (successively (\<lambda>a b. fst a \<in> set (graph_get g (fst b))) stack \<and>
      (\<forall>(n, ds) \<in> set stack. set ds \<subseteq> set (graph_get g n)))"

lemma frames_path_walk: "linked g stack \<Longrightarrow> successively (\<lambda>a b. b \<in> set (graph_get g a)) (frames_path stack)"
  by (simp add: linked_def frames_path_def successively_rev successively_map)

lemma frames_path_cycle:
  assumes "linked g ((n, d # ds) # rest)" "d \<in> fst ` set ((n, d # ds) # rest)"
  shows "cycle_path g (frames_path ((n, d # ds) # rest) @ [d])"
proof -
  have "successively (\<lambda>a b. b \<in> set (graph_get g a)) (frames_path ((n, d # ds) # rest) @ [d])"
    using frames_path_walk [OF assms(1)] assms(1)
    by (subst successively_append_iff) (auto simp: frames_path_def linked_def)
  moreover have "d \<in> set (frames_path ((n, d # ds) # rest))" using assms(2) by (auto simp: frames_path_def)
  ultimately show ?thesis by (simp add: cycle_path_def butlast_append)
qed

lemma dfs_frames_cycle:
  "linked g stack \<Longrightarrow> ss_inStack st = fst ` set stack \<Longrightarrow> distinct (map fst stack) \<Longrightarrow> ss_inStack st \<subseteq> ss_visited st \<Longrightarrow>
     dfs_frames g stack st = (Some c, st') \<Longrightarrow> cycle_path g c"
proof (induction g stack st rule: dfs_frames.induct)
  case (2 g n rest st)
  have "linked g rest" using 2(2) by (cases rest) (auto simp: linked_def)
  then show ?case using 2 by auto
next
  case (3 g n d ds rest st)
  show ?case
  proof (cases "d \<in> ss_inStack st")
    case True
    then show ?thesis using 3 frames_path_cycle [of g n d ds rest] by auto
  next
    case False
    have l: "linked g ((n, ds) # rest)" using 3(3) by (cases rest) (auto simp: linked_def)
    show ?thesis
    proof (cases "d \<in> ss_visited st")
      case True
      then show ?thesis using 3(1) [OF False True l] 3(4-) False by auto
    next
      case new: False
      have "linked g ((d, graph_get g d) # (n, ds) # rest)" using 3(3) l by (auto simp: linked_def)
      then show ?thesis using 3(2) [OF False new] 3(4-) False new by auto
    qed
  qed
qed simp

lemma dfs_nodes_correct:
  assumes "closed_acyclic g state" "\<forall>v. state v \<noteq> In_progress"
  shows "(dfs_nodes g names (state_of state) \<noteq> None) = cycle_from g names state"
  using assms
proof (induction names arbitrary: state)
  case (Cons start names)
  have idle: "start \<notin> ss_inStack (state_of state)" using Cons.prems(2) by (simp add: state_of_def)
  show ?case
  proof (cases "state start = Unvisited")
    case False
    then have "dfs_node g start (state_of state) = (None, state_of state)"
      using idle by (simp add: dfs_node_def state_of_def)
    then show ?thesis using False Cons by simp
  next
    case True
    let ?st = "state(start := In_progress)"
    obtain found st' where s: "search g [(start, 0)] ?st = (found, st')" by force
    have inv: "search_inv g [(start, 0)] ?st"
      using Cons.prems True by (auto simp: search_inv_def closed_acyclic_def)
    have "start \<notin> ss_visited (state_of state)" using True by (simp add: state_of_def)
    then have "dfs_node g start (state_of state) = dfs_frames g (frames_of g [(start, 0)]) (state_of ?st)"
      using idle by (simp add: dfs_node_def frames_of_def state_of_push [of state start, OF True] del: fun_upd_apply)
    then have "(fst (dfs_node g start (state_of state)) \<noteq> None) = found"
      "\<not> found \<Longrightarrow> snd (dfs_node g start (state_of state)) = state_of st'"
      using dfs_is_search [OF inv s] by simp_all
    moreover have "\<not> found \<Longrightarrow> (dfs_nodes g names (state_of st') \<noteq> None) = cycle_from g names st'"
      using search_correct [OF inv s] by (intro Cons.IH) auto
    ultimately show ?thesis using s True
      by (cases "dfs_node g start (state_of state)"; cases "fst (dfs_node g start (state_of state))") (auto simp del: fun_upd_apply)
  qed
qed simp

lemma dfs_frames_keeps:
  "dfs_frames g stack st = (None, st') \<Longrightarrow> ss_inStack st = fst ` set stack \<Longrightarrow> distinct (map fst stack) \<Longrightarrow>
     ss_inStack st \<subseteq> ss_visited st \<Longrightarrow> ss_inStack st' = {}"
proof (induction g stack st rule: dfs_frames.induct)
  case (3 g n d ds rest st)
  then show ?case by (auto split: if_splits)
qed auto

lemma dfs_nodes_cycle: "ss_inStack st = {} \<Longrightarrow> dfs_nodes g names st = Some c \<Longrightarrow> cycle_path g c"
proof (induction names arbitrary: st)
  case (Cons n names)
  let ?st = "st\<lparr>ss_visited := insert n (ss_visited st), ss_inStack := insert n (ss_inStack st)\<rparr>"
  have l: "linked g [(n, graph_get g n)]" by (simp add: linked_def)
  show ?case
  proof (cases "n \<in> ss_visited st")
    case True
    then show ?thesis using Cons by (auto simp: dfs_node_def)
  next
    case False
    then have r: "dfs_node g n st = dfs_frames g [(n, graph_get g n)] ?st" using Cons.prems(1) by (simp add: dfs_node_def)
    show ?thesis
    proof (cases "dfs_frames g [(n, graph_get g n)] ?st")
      case (Pair found st')
      show ?thesis
      proof (cases found)
        case None
        then have "ss_inStack st' = {}" using dfs_frames_keeps [OF Pair [unfolded None]] Cons.prems(1) by simp
        then show ?thesis using Cons None Pair by (simp add: r)
      next
        case (Some c')
        then show ?thesis using dfs_frames_cycle [OF l _ _ _ Pair [unfolded Some]] Cons.prems Pair by (simp add: r)
      qed
    qed
  qed
qed simp

lemma detectCycleInGraph_path: "detectCycleInGraph nodes g = Some c \<Longrightarrow> cycle_path g c"
  unfolding detectCycleInGraph_def by (rule dfs_nodes_cycle [rotated]) auto

lemma detectCycleInGraph_none:
  assumes "fst ` set g \<subseteq> set nodes"
  shows "detectCycleInGraph nodes g = None \<longleftrightarrow> acyclic (edges g)"
proof -
  have "state_of (\<lambda>_. Unvisited) = \<lparr>ss_visited = {}, ss_inStack = {}\<rparr>" by (simp add: state_of_def)
  then show ?thesis
    using dfs_nodes_correct [of g "\<lambda>_. Unvisited" nodes] cycle_from_correct [of g "\<lambda>_. Unvisited" nodes] assms
    by (auto simp: detectCycleInGraph_def closed_acyclic_def)
qed

text \<open>A closed walk is a cycle of the relation.\<close>

lemma walk_trancl:
  assumes "successively (\<lambda>a b. b \<in> set (graph_get g a)) c" "i < j" "j < length c"
  shows "(c ! i, c ! j) \<in> (edges g)\<^sup>+"
  using assms(2,3)
proof (induction j)
  case (Suc j)
  have e: "(c ! j, c ! Suc j) \<in> edges g"
    using assms(1) Suc.prems(2) by (simp add: successively_conv_nth edges_def)
  show ?case
  proof (cases "i = j")
    case False
    then have "(c ! i, c ! j) \<in> (edges g)\<^sup>+" using Suc by simp
    then show ?thesis using e by (rule trancl_into_trancl)
  qed (use e in simp)
qed simp

lemma cycle_path_cyclic: assumes "cycle_path g c" shows "\<not> acyclic (edges g)"
proof -
  obtain i where i: "i < length (butlast c)" "butlast c ! i = last c"
    using assms by (auto simp: cycle_path_def in_set_conv_nth)
  then have "(c ! i, c ! (length c - 1)) \<in> (edges g)\<^sup>+"
    using assms by (intro walk_trancl) (auto simp: cycle_path_def)
  moreover have "c ! i = c ! (length c - 1)" using i assms by (auto simp: cycle_path_def nth_butlast last_conv_nth)
  ultimately show ?thesis by (auto simp: acyclic_def)
qed

subsection \<open>Validation of the steps of a workflow\<close>

text \<open>A result is the message of the exception the function throws, or none.\<close>

record step_condition =
  sc_stepName :: string
  sc_equal :: bool
  sc_value :: string

definition parseStepCondition :: "string \<Rightarrow> step_condition option" where
  "parseStepCondition condition =
     map_option (\<lambda>(stepName, equal, value). \<lparr>sc_stepName = stepName, sc_equal = equal, sc_value = value\<rparr>)
       (parse_condition condition)"

definition dquoted :: "string \<Rightarrow> string" where
  "dquoted t = [CHR 0x22] @ t @ [CHR 0x22]"

definition workflow_execution_keys :: "string list" where
  "workflow_execution_keys = [''action'', ''script'', ''agent'', ''run'']"

definition executionKeyCount :: "jobject \<Rightarrow> nat" where
  "executionKeyCount step = length (filter (\<lambda>key. obj_get step key \<noteq> None) workflow_execution_keys)"

definition step_error :: "string \<Rightarrow> string \<Rightarrow> string \<Rightarrow> string" where
  "step_error workflowName name rest = ''Workflow '' @ dquoted workflowName @ '' step '' @ dquoted name @ rest"

fun check_step_names :: "string \<Rightarrow> (nat \<times> string \<times> jobject) list \<Rightarrow> string list \<Rightarrow> string option" where
  "check_step_names workflowName [] names = None"
| "check_step_names workflowName ((i, name, step) # steps) names =
     (if executionKeyCount step \<noteq> 1 then
        Some (step_error workflowName name '' must define exactly one of action, script, agent, or run'')
      else if name \<in> set names then
        Some (''Workflow '' @ dquoted workflowName @ '' has duplicate step name '' @ dquoted name)
      else check_step_names workflowName steps (names @ [name]))"

fun check_step_deps :: "string \<Rightarrow> string list \<Rightarrow> (nat \<times> string \<times> jobject) list \<Rightarrow> string option" where
  "check_step_deps workflowName names [] = None"
| "check_step_deps workflowName names ((i, name, step) # steps) =
     (case find_row (\<lambda>dep. dep \<notin> set names) (step_depends_on step) of
        Some dep \<Rightarrow> Some (step_error workflowName name ('' depends on nonexistent step '' @ dquoted dep))
      | None \<Rightarrow> check_step_deps workflowName names steps)"

definition step_dep_map :: "(nat \<times> string \<times> jobject) list \<Rightarrow> dgraph" where
  "step_dep_map steps = map (\<lambda>(_, name, step). (name, step_depends_on step)) steps"

definition check_condition :: "string \<Rightarrow> string list \<Rightarrow> dgraph \<Rightarrow> string \<Rightarrow> jobject \<Rightarrow> string option" where
  "check_condition workflowName names depMap name step =
     (case obj_get step ''condition'' of
        Some (JStr condition) \<Rightarrow>
          (case parseStepCondition condition of
             None \<Rightarrow>
               Some (step_error workflowName name ('' has invalid condition '' @ dquoted condition @ ''. '' @
                 ''Expected format: step_name.status == '' @ [CHR 0x27] @ ''value'' @ [CHR 0x27] @
                 '' or step_name.status != '' @ [CHR 0x27] @ ''value'' @ [CHR 0x27]))
           | Some parsed \<Rightarrow>
               if sc_stepName parsed \<notin> set names then
                 Some (step_error workflowName name ('' condition references nonexistent step '' @ dquoted (sc_stepName parsed)))
               else if sc_stepName parsed \<notin> set (graph_get depMap name) then
                 Some (step_error workflowName name ('' condition references step '' @ dquoted (sc_stepName parsed) @ '' '' @
                   ''which is not in its depends_on list. The condition step must be a dependency.''))
               else None)
      | _ \<Rightarrow> None)"

fun check_conditions :: "string \<Rightarrow> string list \<Rightarrow> dgraph \<Rightarrow> (nat \<times> string \<times> jobject) list \<Rightarrow> string option" where
  "check_conditions workflowName names depMap [] = None"
| "check_conditions workflowName names depMap ((i, name, step) # steps) =
     (case check_condition workflowName names depMap name step of
        Some e \<Rightarrow> Some e
      | None \<Rightarrow> check_conditions workflowName names depMap steps)"

definition validateStepGraph :: "string \<Rightarrow> jobject list \<Rightarrow> string option" where
  "validateStepGraph workflowName steps =
     (let ls = labelled steps; names = map (\<lambda>(_, name, _). name) ls; depMap = step_dep_map ls in
      case check_step_names workflowName ls [] of
        Some e \<Rightarrow> Some e
      | None \<Rightarrow>
          (case check_step_deps workflowName names ls of
             Some e \<Rightarrow> Some e
           | None \<Rightarrow>
               (case detectCycleInGraph names depMap of
                  Some cycle \<Rightarrow>
                    Some (''Workflow '' @ dquoted workflowName @ '' has a dependency cycle: '' @ join_with '' -> '' cycle)
                | None \<Rightarrow> check_conditions workflowName names depMap ls)))"

lemma check_step_names_None: "check_step_names w ls names = None \<longleftrightarrow>
    (\<forall>(_, _, step) \<in> set ls. executionKeyCount step = 1) \<and>
    distinct (map (\<lambda>(_, name, _). name) ls) \<and> set names \<inter> (\<lambda>(_, name, _). name) ` set ls = {}"
  by (induction w ls names rule: check_step_names.induct) (auto split: if_splits)

lemma check_step_deps_None: "check_step_deps w names ls = None \<longleftrightarrow>
    (\<forall>(_, _, step) \<in> set ls. set (step_depends_on step) \<subseteq> set names)"
  by (induction w names ls rule: check_step_deps.induct) (auto simp: find_row_None split: option.splits dest: find_row_Some)

lemma check_conditions_None: "check_conditions w names m ls = None \<longleftrightarrow>
    (\<forall>(_, name, step) \<in> set ls. check_condition w names m name step = None)"
  by (induction w names m ls rule: check_conditions.induct) (auto split: option.splits)

text \<open>What a workflow needs in order to be run, in terms of its steps.\<close>

definition workflow_step_name :: "jobject list \<Rightarrow> nat \<Rightarrow> string" where
  "workflow_step_name steps i = pipeline_step_name (steps ! i) i"

definition waits_on :: "jobject list \<Rightarrow> (string \<times> string) set" where
  "waits_on steps = {(a, b). \<exists>i < length steps. a = workflow_step_name steps i \<and> b \<in> set (step_depends_on (steps ! i))}"

definition condition_sound :: "jobject \<Rightarrow> bool" where
  "condition_sound step =
     (case obj_get step ''condition'' of
        Some (JStr c) \<Rightarrow>
          (case parseStepCondition c of None \<Rightarrow> False | Some p \<Rightarrow> sc_stepName p \<in> set (step_depends_on step))
      | _ \<Rightarrow> True)"

definition runnable_graph :: "jobject list \<Rightarrow> bool" where
  "runnable_graph steps \<longleftrightarrow>
     (\<forall>step \<in> set steps. executionKeyCount step = 1 \<and> condition_sound step) \<and>
     inj_on (workflow_step_name steps) {..<length steps} \<and>
     (\<forall>step \<in> set steps. set (step_depends_on step) \<subseteq> workflow_step_name steps ` {..<length steps}) \<and>
     acyclic (waits_on steps)"

definition well_named :: "jobject list \<Rightarrow> bool" where
  "well_named steps \<longleftrightarrow>
     (\<forall>step \<in> set steps. executionKeyCount step = 1) \<and> inj_on (workflow_step_name steps) {..<length steps} \<and>
     (\<forall>step \<in> set steps. set (step_depends_on step) \<subseteq> workflow_step_name steps ` {..<length steps})"

lemma labelled_names: "map (\<lambda>(_, name, _). name) (labelled steps) = map (workflow_step_name steps) [0..<length steps]"
  by (simp add: labelled_def workflow_step_name_def)

lemma labelled_steps: "(\<forall>(_, _, step) \<in> set (labelled steps). P step) \<longleftrightarrow> (\<forall>step \<in> set steps. P step)"
  by (auto simp: labelled_def all_set_conv_all_nth)

lemma labelled_all: "(\<forall>(_, name, step) \<in> set (labelled steps). P name step) \<longleftrightarrow>
    (\<forall>i < length steps. P (workflow_step_name steps i) (steps ! i))"
  by (auto simp: labelled_def workflow_step_name_def)

lemma graph_get_dep_map:
  assumes "inj_on (workflow_step_name steps) {..<length steps}" "i < length steps"
  shows "graph_get (step_dep_map (labelled steps)) (workflow_step_name steps i) = step_depends_on (steps ! i)"
proof -
  have "distinct (map fst (step_dep_map (labelled steps)))"
    using assms(1) by (simp add: step_dep_map_def labelled_def comp_def distinct_map workflow_step_name_def [abs_def] atLeast0LessThan)
  moreover have "(workflow_step_name steps i, step_depends_on (steps ! i)) \<in> set (step_dep_map (labelled steps))"
    using assms(2) by (auto simp: step_dep_map_def labelled_def workflow_step_name_def)
  ultimately show ?thesis by (simp add: graph_get_def)
qed

lemma dep_map_keys: "fst ` set (step_dep_map (labelled steps)) = workflow_step_name steps ` {..<length steps}"
  by (simp add: step_dep_map_def labelled_def workflow_step_name_def [abs_def] image_image atLeast0LessThan)

lemma dep_map_edges:
  assumes "inj_on (workflow_step_name steps) {..<length steps}"
  shows "edges (step_dep_map (labelled steps)) = waits_on steps"
proof (rule set_eqI, rule iffI; clarify)
  fix a b
  assume e: "(a, b) \<in> edges (step_dep_map (labelled steps))"
  then obtain i where i: "i < length steps" "a = workflow_step_name steps i"
    using edges_key [OF e] by (auto simp: dep_map_keys)
  then show "(a, b) \<in> waits_on steps"
    using e graph_get_dep_map [OF assms i(1)] by (auto simp: edges_def waits_on_def)
next
  fix a b
  assume "(a, b) \<in> waits_on steps"
  then show "(a, b) \<in> edges (step_dep_map (labelled steps))"
    using graph_get_dep_map [OF assms] by (auto simp: edges_def waits_on_def)
qed

lemma check_condition_sound:
  assumes "set (step_depends_on step) \<subseteq> set names" "graph_get depMap name = step_depends_on step"
  shows "check_condition w names depMap name step = None \<longleftrightarrow> condition_sound step"
  using assms by (auto simp: check_condition_def condition_sound_def split: option.splits json.splits)

lemma validateStepGraph_stages:
  "validateStepGraph w steps = None \<longleftrightarrow>
     check_step_names w (labelled steps) [] = None \<and>
     check_step_deps w (map (workflow_step_name steps) [0..<length steps]) (labelled steps) = None \<and>
     detectCycleInGraph (map (workflow_step_name steps) [0..<length steps]) (step_dep_map (labelled steps)) = None \<and>
     check_conditions w (map (workflow_step_name steps) [0..<length steps]) (step_dep_map (labelled steps)) (labelled steps) = None"
  by (simp add: validateStepGraph_def Let_def labelled_names split: option.splits)

lemma names_accepted: "check_step_names w (labelled steps) [] = None \<longleftrightarrow>
    (\<forall>step \<in> set steps. executionKeyCount step = 1) \<and> inj_on (workflow_step_name steps) {..<length steps}"
  by (simp add: check_step_names_None labelled_steps labelled_names distinct_map atLeast0LessThan)

lemma deps_accepted: "check_step_deps w (map (workflow_step_name steps) [0..<length steps]) (labelled steps) = None \<longleftrightarrow>
    (\<forall>step \<in> set steps. set (step_depends_on step) \<subseteq> workflow_step_name steps ` {..<length steps})"
  by (simp add: check_step_deps_None labelled_steps atLeast0LessThan)

lemma cycle_accepted:
  assumes "inj_on (workflow_step_name steps) {..<length steps}"
  shows "detectCycleInGraph (map (workflow_step_name steps) [0..<length steps]) (step_dep_map (labelled steps)) = None \<longleftrightarrow>
    acyclic (waits_on steps)"
  using detectCycleInGraph_none [of "step_dep_map (labelled steps)"] dep_map_edges [OF assms]
  by (simp add: dep_map_keys atLeast0LessThan)

lemma conditions_accepted:
  assumes "inj_on (workflow_step_name steps) {..<length steps}"
    "\<forall>step \<in> set steps. set (step_depends_on step) \<subseteq> workflow_step_name steps ` {..<length steps}"
  shows "check_conditions w (map (workflow_step_name steps) [0..<length steps]) (step_dep_map (labelled steps)) (labelled steps) = None
    \<longleftrightarrow> (\<forall>step \<in> set steps. condition_sound step)"
proof -
  have "check_condition w (map (workflow_step_name steps) [0..<length steps]) (step_dep_map (labelled steps))
      (workflow_step_name steps i) (steps ! i) = None \<longleftrightarrow> condition_sound (steps ! i)" if "i < length steps" for i
    using that assms(2) by (intro check_condition_sound graph_get_dep_map [OF assms(1)]) (auto simp: atLeast0LessThan)
  then show ?thesis unfolding check_conditions_None labelled_all by (simp add: all_set_conv_all_nth)
qed

lemma validateStepGraph_accepts: "validateStepGraph w steps = None \<longleftrightarrow> runnable_graph steps"
  unfolding validateStepGraph_stages runnable_graph_def
  using names_accepted deps_accepted cycle_accepted conditions_accepted by blast

lemma validateStepGraph_cycle:
  assumes "validateStepGraph w steps = Some e" "\<forall>step \<in> set steps. executionKeyCount step = 1"
    "inj_on (workflow_step_name steps) {..<length steps}"
    "\<forall>step \<in> set steps. set (step_depends_on step) \<subseteq> workflow_step_name steps ` {..<length steps}"
    "\<not> acyclic (waits_on steps)"
  shows "\<exists>c. cycle_path (step_dep_map (labelled steps)) c \<and>
    e = ''Workflow '' @ dquoted w @ '' has a dependency cycle: '' @ join_with '' -> '' c"
proof -
  have "check_step_names w (labelled steps) [] = None" using assms names_accepted by blast
  moreover have "check_step_deps w (map (workflow_step_name steps) [0..<length steps]) (labelled steps) = None"
    using assms deps_accepted by blast
  moreover obtain c where c: "detectCycleInGraph (map (workflow_step_name steps) [0..<length steps]) (step_dep_map (labelled steps)) = Some c"
    using cycle_accepted [OF assms(3)] assms(5) by auto
  ultimately have "e = ''Workflow '' @ dquoted w @ '' has a dependency cycle: '' @ join_with '' -> '' c"
    using assms(1) by (simp add: validateStepGraph_def Let_def labelled_names)
  then show ?thesis using detectCycleInGraph_path [OF c] by blast
qed

end
