(* ===== verification/Job_Batch.thy ===== *)
theory Job_Batch
  imports Job_Graph Job_Crud Job_Ids Job_Hierarchy
begin

section \<open>Batches of jobs\<close>

text \<open>
  \<^verbatim>\<open>apps/api/src/jobs/job-batch.service.ts\<close> and \<^verbatim>\<open>packages/db/src/queries/batch-jobs.ts\<close>: validation of a graph of
  jobs and its creation. The request has passed \<^verbatim>\<open>CreateBatchRequestSchema\<close>. The columns \<^verbatim>\<open>batch_id\<close> and \<^verbatim>\<open>batch_key\<close>
  of \<^verbatim>\<open>jobs\<close> (migration 00054) are the table \<open>batch_tags\<close> of job id, batch id and key. The drawn batch id, the hashes
  tried for a node's id and the ids of relations are arguments. \<open>Running\<close> is a call that still draws hashes when
  the given ones are used up. The statements are not in one transaction: what an error leaves behind is the state.
\<close>

record batch_node =
  bn_key :: string
  bn_title :: string
  bn_description :: "string option"
  bn_type :: "string option"
  bn_parent :: "string option"
  bn_target :: "json option"
  bn_resource_refs :: "json list option"
  bn_git :: "job_git option"
  bn_hints :: "jobject option"

record batch_dependency =
  bd_job :: string
  bd_depends_on :: "string list"

record batch_request =
  rq_idempotency_key :: "string option"
  rq_nodes :: "batch_node list"
  rq_dependencies :: "batch_dependency list"

record batch_error =
  be_code :: string
  be_node_key :: "string option"
  be_field :: "string option"
  be_message :: string
  be_hint :: "string option"

record batch_job =
  b_id :: string
  b_project_id :: string
  b_idempotency_key :: "string option"
  b_node_count :: nat
  b_created_by :: "string option"
  b_created_at :: timestamp

record batch_db =
  bstore :: db
  batch_jobs :: "batch_job list"
  batch_tags :: "(string \<times> string \<times> string) list"

record batch_result =
  res_job_id :: string
  res_phase :: phase
  res_blocked_by :: "string list option"

record batch_response =
  rs_batch_id :: string
  rs_idempotency_key :: "string option"
  rs_jobs :: "(string \<times> batch_result) list"

datatype batch_exn = Validation_failed "batch_error list" | Not_found string | Other_error exn

datatype 'a reply = Returned 'a | Thrown batch_exn | Running

subsection \<open>Validation\<close>

text \<open>A property that is an empty string is falsy.\<close>

definition truthy :: "string option \<Rightarrow> string option" where
  "truthy v = (case v of None \<Rightarrow> None | Some t \<Rightarrow> if t = [] then None else Some t)"

definition node_keys :: "batch_request \<Rightarrow> string list" where
  "node_keys request = map bn_key (rq_nodes request)"

fun duplicate_errors :: "string list \<Rightarrow> string list \<Rightarrow> batch_error list" where
  "duplicate_errors seen [] = []"
| "duplicate_errors seen (k # ks) =
     (if k \<in> set seen then
        [\<lparr>be_code = ''batch_node_duplicate'', be_node_key = Some k, be_field = None,
          be_message = ''Duplicate node key: '' @ k, be_hint = None\<rparr>] else [])
     @ duplicate_errors (k # seen) ks"

definition use_one_of :: "string list \<Rightarrow> string" where
  "use_one_of keys = ''Use one of: '' @ join_with '', '' keys"

definition parent_errors :: "string list \<Rightarrow> batch_node \<Rightarrow> batch_error list" where
  "parent_errors keys node =
     (case truthy (bn_parent node) of
        None \<Rightarrow> []
      | Some p \<Rightarrow>
          if p \<in> set keys then []
          else [\<lparr>be_code = ''batch_node_unknown'', be_node_key = Some (bn_key node), be_field = Some ''parent'',
                 be_message = ''Unknown parent key: '' @ p, be_hint = Some (use_one_of keys)\<rparr>])"

definition dependency_errors :: "string list \<Rightarrow> batch_dependency \<Rightarrow> batch_error list" where
  "dependency_errors keys dep =
     (if bd_job dep \<in> set keys then []
      else [\<lparr>be_code = ''batch_node_unknown'', be_node_key = None, be_field = Some ''dependencies'',
             be_message = ''Unknown job key: '' @ bd_job dep, be_hint = None\<rparr>])
     @ map (\<lambda>d. \<lparr>be_code = ''batch_node_unknown'', be_node_key = Some (bd_job dep), be_field = Some ''dependencies'',
              be_message = ''Unknown dependency key: '' @ d, be_hint = Some (use_one_of keys)\<rparr>)
         (filter (\<lambda>d. d \<notin> set keys) (bd_depends_on dep))"

definition parent_edges :: "batch_request \<Rightarrow> (string \<times> string) list" where
  "parent_edges request =
     concat (map (\<lambda>n. case truthy (bn_parent n) of None \<Rightarrow> [] | Some p \<Rightarrow> [(p, bn_key n)]) (rq_nodes request))"

text \<open>The map from a key to the keys it waits for: dependencies first, then the parent.\<close>

definition batch_graph :: "batch_request \<Rightarrow> dgraph" where
  "batch_graph request =
     (let g0 = fold (\<lambda>n. map_put (bn_key n) []) (rq_nodes request) [];
          g1 = fold (\<lambda>d. graph_push (bd_job d) (bd_depends_on d)) (rq_dependencies request) g0
      in fold (\<lambda>n g. case truthy (bn_parent n) of None \<Rightarrow> g | Some p \<Rightarrow> graph_push (bn_key n) [p] g) (rq_nodes request) g1)"

definition parent_map :: "batch_node list \<Rightarrow> string \<Rightarrow> string option" where
  "parent_map nodes k = Option.bind (find_row (\<lambda>n. bn_key n = k) (rev nodes)) bn_parent"

function exceeds_depth :: "batch_node list \<Rightarrow> nat \<Rightarrow> string option \<Rightarrow> bool" where
  "exceeds_depth nodes depth cursor =
     (case truthy cursor of
        None \<Rightarrow> False
      | Some c \<Rightarrow> if 3 < depth + 1 then True else exceeds_depth nodes (depth + 1) (parent_map nodes c))"
  by pat_completeness auto
termination by (relation "measure (\<lambda>(nodes, depth, cursor). 4 - depth)") auto

declare exceeds_depth.simps [simp del]

definition depth_errors :: "batch_node list \<Rightarrow> batch_error list" where
  "depth_errors nodes =
     map (\<lambda>n. \<lparr>be_code = ''batch_depth_exceeded'', be_node_key = Some (bn_key n), be_field = None,
           be_message = ''Node \"'' @ bn_key n @ ''\" exceeds max nesting depth of 3'', be_hint = None\<rparr>)
       (filter (\<lambda>n. exceeds_depth nodes 0 (bn_parent n)) nodes)"

definition reference_errors :: "batch_request \<Rightarrow> batch_error list" where
  "reference_errors request =
     (let keys = node_keys request
      in duplicate_errors [] keys @ concat (map (parent_errors keys) (rq_nodes request))
         @ concat (map (dependency_errors keys) (rq_dependencies request)))"

definition validateBatch :: "batch_request \<Rightarrow> batch_error list" where
  "validateBatch request =
     (let errors = reference_errors request;
          errors = (if errors = [] \<and> hasCycle (batch_graph request)
            then [\<lparr>be_code = ''batch_graph_cycle'', be_node_key = None, be_field = None,
                   be_message = ''Dependency graph contains a cycle'', be_hint = None\<rparr>] else errors)
      in if errors = [] then depth_errors (rq_nodes request) else errors)"

subsection \<open>Topological order\<close>

definition dependency_edges :: "batch_request \<Rightarrow> (string \<times> string) list" where
  "dependency_edges request =
     concat (map (\<lambda>d. map (\<lambda>on. (on, bd_job d)) (bd_depends_on d)) (rq_dependencies request))"

definition add_edge :: "string \<times> string \<Rightarrow> dgraph \<times> degrees \<Rightarrow> dgraph \<times> degrees" where
  "add_edge e acc =
     (case (e, acc) of ((before, after), (adjacency, inDegree)) \<Rightarrow>
        (graph_push before [after] adjacency,
         map_put after ((case map_of inDegree after of None \<Rightarrow> 0 | Some d \<Rightarrow> d) + 1) inDegree))"

definition topologicalSort :: "batch_request \<Rightarrow> string list" where
  "topologicalSort request =
     (let inDegree = fold (\<lambda>n. map_put (bn_key n) 0) (rq_nodes request) [];
          adjacency = fold (\<lambda>n. map_put (bn_key n) []) (rq_nodes request) [];
          (adjacency, inDegree) = fold add_edge (parent_edges request) (adjacency, inDegree);
          (adjacency, inDegree) = fold add_edge (dependency_edges request) (adjacency, inDegree);
          queue = map fst (filter (\<lambda>(_, degree). degree = 0) inDegree)
      in kahn adjacency queue inDegree [])"

subsection \<open>The table \<^verbatim>\<open>batch_jobs\<close>\<close>

definition batch_create :: "batch_job \<Rightarrow> batch_db \<Rightarrow> (db_error + batch_job) \<times> batch_db" where
  "batch_create b s =
     (if exists_row (\<lambda>r. b_id r = b_id b \<or>
          (b_project_id r = b_project_id b \<and> b_idempotency_key b \<noteq> None \<and> b_idempotency_key r = b_idempotency_key b))
          (batch_jobs s) then (Inl Unique_violation, s)
      else if \<not> exists_row (\<lambda>p. p_id p = b_project_id b) (projects (bstore s)) then (Inl Foreign_key_violation, s)
      else (Inr b, s\<lparr>batch_jobs := batch_jobs s @ [b]\<rparr>))"

definition findByIdempotencyKey :: "string \<Rightarrow> string \<Rightarrow> batch_db \<Rightarrow> batch_job option" where
  "findByIdempotencyKey projectId key s =
     find_row (\<lambda>b. b_project_id b = projectId \<and> b_idempotency_key b = Some key) (batch_jobs s)"

definition batch_findById :: "string \<Rightarrow> batch_db \<Rightarrow> batch_job option" where
  "batch_findById i s = find_row (\<lambda>b. b_id b = i) (batch_jobs s)"

subsection \<open>Creation\<close>

definition resolveProject_batch :: "string \<Rightarrow> db \<Rightarrow> batch_exn + string" where
  "resolveProject_batch projectId s =
     (case resolveProjectSlug projectId s of
        Inl (Error m) \<Rightarrow> Inl (Not_found m)
      | Inl e \<Rightarrow> Inl (Other_error e)
      | Inr i \<Rightarrow> Inr i)"

definition hasDeps :: "batch_request \<Rightarrow> string \<Rightarrow> bool" where
  "hasDeps request key = list_ex (\<lambda>d. bd_job d = key \<and> bd_depends_on d \<noteq> []) (rq_dependencies request)"

definition node_job ::
  "batch_node \<Rightarrow> string \<Rightarrow> string \<Rightarrow> string option \<Rightarrow> phase \<Rightarrow> string option \<Rightarrow> timestamp \<Rightarrow> job" where
  "node_job node jobId projectId parentJobId ph userId now =
     \<lparr>j_id = jobId, j_project_id = projectId, j_parent_id = parentJobId,
      j_depth = (case parentJobId of None \<Rightarrow> 0 | Some p \<Rightarrow> int (length (split_on (CHR ''.'') p))),
      j_labels = [], j_phase = ph, j_priority = 2, j_assignee = None,
      j_review_required = ReviewNone, j_review_status = None, j_reviewer = None, j_defer_until = None,
      j_ready_at = None, j_hints = (case bn_hints node of None \<Rightarrow> [] | Some h \<Rightarrow> h), j_harness = None,
      j_harness_profile_source = None, j_harness_profile_hash = None, j_git_json = bn_git node,
      j_resolved_git_json = None, j_blocked_on_gates = [], j_env_name = None, j_execution_type = ExecAgent,
      j_run_id = None, j_step_name = None, j_action_type = None, j_failure_disposition = None,
      j_created_at = now, j_updated_at = now, j_closed_at = None, j_close_reason = None,
      j_spec = \<lparr>sp_title = bn_title node,
        sp_description = Some (case bn_description node of None \<Rightarrow> bn_title node | Some d \<Rightarrow> d),
        sp_issue_type = (if bn_type node = Some ''epic'' then ''epic'' else ''task''), sp_due_at = None,
        sp_harness_profile = None, sp_harness_options = None, sp_harness_profile_override = None,
        sp_env_overrides = None, sp_token_scope = None, sp_token_permissions = None, sp_workspace_json = None,
        sp_execution_mode = ''persistent'', sp_action_input = None, sp_script_command = None,
        sp_script_timeout_seconds = None, sp_target = bn_target node,
        sp_resource_refs = (case bn_resource_refs node of None \<Rightarrow> [] | Some r \<Rightarrow> r), sp_content_hash = None,
        sp_actor_user_id = userId\<rparr>\<rparr>"

fun create_nodes ::
  "(string \<Rightarrow> string list) \<Rightarrow> batch_request \<Rightarrow> string \<Rightarrow> string \<Rightarrow> string option \<Rightarrow> timestamp \<Rightarrow> string list \<Rightarrow>
    (string \<times> string) list \<Rightarrow> batch_db \<Rightarrow> (string \<times> string) list reply \<times> batch_db" where
  "create_nodes hashes request batchId projectId userId now [] keyToJobId s = (Returned keyToJobId, s)"
| "create_nodes hashes request batchId projectId userId now (nodeKey # ks) keyToJobId s =
     (case find_row (\<lambda>n. bn_key n = nodeKey) (rq_nodes request) of
        None \<Rightarrow> (Thrown (Other_error (Error ''TypeError'')), s)
      | Some node \<Rightarrow>
          let parentJobId = (case truthy (bn_parent node) of None \<Rightarrow> None | Some p \<Rightarrow> map_of keyToJobId p)
          in case generateJobId projectId parentJobId (hashes nodeKey) (bstore s) of
               None \<Rightarrow> (Running, s)
             | Some (Inl e) \<Rightarrow> (Thrown (Other_error e), s)
             | Some (Inr (jobId, resolvedId)) \<Rightarrow>
                 let ph = (if hasDeps request nodeKey then Backlog else Ready)
                 in case create (node_job node jobId resolvedId parentJobId ph userId now) now (bstore s) of
                      (Inl e, _) \<Rightarrow> (Thrown (Other_error (Db_error e)), s)
                    | (Inr _, db') \<Rightarrow>
                        create_nodes hashes request batchId projectId userId now ks (map_put nodeKey jobId keyToJobId)
                          (s\<lparr>bstore := db', batch_tags := batch_tags s @ [(jobId, batchId, bn_key node)]\<rparr>))"

definition batch_links :: "batch_request \<Rightarrow> (string \<times> string) list" where
  "batch_links request =
     concat (map (\<lambda>d. map (\<lambda>on. (bd_job d, on)) (bd_depends_on d)) (rq_dependencies request))"

fun wire_dependencies ::
  "(string \<times> string \<Rightarrow> string) \<Rightarrow> (string \<times> string) list \<Rightarrow> (string \<times> string) list \<Rightarrow> db \<Rightarrow> unit reply \<times> db" where
  "wire_dependencies uuids keyToJobId [] s = (Returned (), s)"
| "wire_dependencies uuids keyToJobId ((from, to) # links) s =
     (case (map_of keyToJobId from, map_of keyToJobId to) of
        (Some fromJobId, Some toJobId) \<Rightarrow>
          (case addDependency fromJobId toJobId ''blocks'' (uuids (from, to)) s of
             (Inl e, s') \<Rightarrow> (Thrown (Other_error e), s')
           | (Inr _, s') \<Rightarrow> wire_dependencies uuids keyToJobId links s')
      | _ \<Rightarrow> (Thrown (Other_error (Error ''Job not found: undefined'')), s))"

definition batch_response_jobs :: "batch_request \<Rightarrow> (string \<times> string) list \<Rightarrow> (string \<times> batch_result) list" where
  "batch_response_jobs request keyToJobId =
     fold (\<lambda>n. map_put (bn_key n)
         \<lparr>res_job_id = (case map_of keyToJobId (bn_key n) of None \<Rightarrow> [] | Some i \<Rightarrow> i),
          res_phase = (if hasDeps request (bn_key n) then Backlog else Ready),
          res_blocked_by = (case map snd (filter (\<lambda>l. fst l = bn_key n) (batch_links request)) of
              [] \<Rightarrow> None | ds \<Rightarrow> Some ds)\<rparr>) (rq_nodes request) []"

definition reconstructBatchResult :: "string \<Rightarrow> batch_request \<Rightarrow> batch_db \<Rightarrow> batch_response" where
  "reconstructBatchResult batchId request s =
     (let tagged = concat (map (\<lambda>j. map (\<lambda>(_, _, k). (k, j)) (filter (\<lambda>(i, b, _). i = j_id j \<and> b = batchId) (batch_tags s)))
            (jobs (bstore s)));
          rows = order_by (\<lambda>(k, j). j_created_at j) tagged;
          depsByKey = fold (\<lambda>d. map_put (bd_job d) (bd_depends_on d)) (rq_dependencies request) []
      in \<lparr>rs_batch_id = batchId,
          rs_idempotency_key = Option.bind (batch_findById batchId s) b_idempotency_key,
          rs_jobs = fold (\<lambda>(k, j). map_put k
              \<lparr>res_job_id = j_id j, res_phase = j_phase j,
               res_blocked_by = (case map_of depsByKey k of Some (d # ds) \<Rightarrow> Some (d # ds) | _ \<Rightarrow> None)\<rparr>)
            (filter (\<lambda>(k, j). k \<noteq> []) rows) []\<rparr>)"

record batch_ext =
  bx_batch_id :: string
  bx_hashes :: "string \<Rightarrow> string list"
  bx_uuids :: "string \<times> string \<Rightarrow> string"

definition create_fresh_batch ::
  "batch_ext \<Rightarrow> string \<Rightarrow> batch_request \<Rightarrow> string option \<Rightarrow> string option \<Rightarrow> timestamp \<Rightarrow> batch_db \<Rightarrow>
    batch_response reply \<times> batch_db" where
  "create_fresh_batch x projectId request correlationId userId now s =
     (case batch_create \<lparr>b_id = bx_batch_id x, b_project_id = projectId, b_idempotency_key = rq_idempotency_key request,
         b_node_count = length (rq_nodes request), b_created_by = correlationId, b_created_at = now\<rparr> s of
        (Inl e, _) \<Rightarrow> (Thrown (Other_error (Db_error e)), s)
      | (Inr _, s1) \<Rightarrow>
          (case create_nodes (bx_hashes x) request (bx_batch_id x) projectId userId now (topologicalSort request) [] s1 of
             (Thrown e, s2) \<Rightarrow> (Thrown e, s2)
           | (Running, s2) \<Rightarrow> (Running, s2)
           | (Returned keyToJobId, s2) \<Rightarrow>
               (case wire_dependencies (bx_uuids x) keyToJobId (batch_links request) (bstore s2) of
                  (Thrown e, db') \<Rightarrow> (Thrown e, s2\<lparr>bstore := db'\<rparr>)
                | (Running, db') \<Rightarrow> (Running, s2\<lparr>bstore := db'\<rparr>)
                | (Returned _, db') \<Rightarrow>
                    (Returned \<lparr>rs_batch_id = bx_batch_id x, rs_idempotency_key = rq_idempotency_key request,
                       rs_jobs = batch_response_jobs request keyToJobId\<rparr>, s2\<lparr>bstore := db'\<rparr>))))"

definition createBatch ::
  "batch_ext \<Rightarrow> string \<Rightarrow> batch_request \<Rightarrow> string option \<Rightarrow> string option \<Rightarrow> timestamp \<Rightarrow> batch_db \<Rightarrow>
    batch_response reply \<times> batch_db" where
  "createBatch x projectId request correlationId userId now s =
     (if validateBatch request \<noteq> [] then (Thrown (Validation_failed (validateBatch request)), s)
      else case resolveProject_batch projectId (bstore s) of
        Inl e \<Rightarrow> (Thrown e, s)
      | Inr resolved \<Rightarrow>
          if \<not> exists_row (\<lambda>p. p_id p = resolved) (projects (bstore s))
          then (Thrown (Not_found (''Project '' @ projectId @ '' not found'')), s)
          else (case Option.bind (truthy (rq_idempotency_key request)) (\<lambda>k. findByIdempotencyKey resolved k s) of
                  Some existing \<Rightarrow> (Returned (reconstructBatchResult (b_id existing) request s), s)
                | None \<Rightarrow> create_fresh_batch x resolved request correlationId userId now s))"

end
