(* ===== verification/Batch_Properties.thy ===== *)
theory Batch_Properties
  imports Job_Batch Job_Scheduling Job_Lifecycle
begin

section \<open>Properties of job batches\<close>

text \<open>
  That validation accepts exactly the well-formed graphs, that the order of creation respects them, what a
  successful creation leaves in the store, and that a repeated request with the same key writes nothing.
\<close>

subsection \<open>Validation\<close>

definition batch_edges :: "batch_request \<Rightarrow> (string \<times> string) list" where
  "batch_edges request = parent_edges request @ dependency_edges request"

definition references_known :: "batch_request \<Rightarrow> bool" where
  "references_known request \<longleftrightarrow>
     distinct (node_keys request) \<and>
     (\<forall>n \<in> set (rq_nodes request). \<forall>p. truthy (bn_parent n) = Some p \<longrightarrow> p \<in> set (node_keys request)) \<and>
     (\<forall>d \<in> set (rq_dependencies request). insert (bd_job d) (set (bd_depends_on d)) \<subseteq> set (node_keys request))"

text \<open>The ancestor a number of levels up, by the parent entries.\<close>

fun ancestor :: "batch_node list \<Rightarrow> nat \<Rightarrow> string option \<Rightarrow> string option" where
  "ancestor nodes 0 cursor = truthy cursor"
| "ancestor nodes (Suc l) cursor = Option.bind (truthy cursor) (\<lambda>c. ancestor nodes l (parent_map nodes c))"

lemma duplicate_errors_Nil: "duplicate_errors seen ks = [] \<longleftrightarrow> distinct ks \<and> set ks \<inter> set seen = {}"
  by (induction seen ks rule: duplicate_errors.induct) auto

lemma dependency_errors_Nil:
  "dependency_errors keys d = [] \<longleftrightarrow> insert (bd_job d) (set (bd_depends_on d)) \<subseteq> set keys"
  by (auto simp: dependency_errors_def filter_empty_conv)

lemma parent_errors_Nil: "parent_errors keys n = [] \<longleftrightarrow> (\<forall>p. truthy (bn_parent n) = Some p \<longrightarrow> p \<in> set keys)"
  by (auto simp: parent_errors_def split: option.splits)

lemma reference_errors_Nil: "reference_errors request = [] \<longleftrightarrow> references_known request"
  by (auto simp: reference_errors_def Let_def references_known_def duplicate_errors_Nil dependency_errors_Nil
      parent_errors_Nil)

lemma exceeds_depth_iff: "exceeds_depth nodes 0 cursor \<longleftrightarrow> ancestor nodes 3 cursor \<noteq> None"
  by (simp add: exceeds_depth.simps [of nodes 0] exceeds_depth.simps [of nodes "Suc _"] numeral_3_eq_3
      split: option.splits)

lemma keys_map_put: "fst ` set (map_put k v m) = insert k (fst ` set m)"
  by (force simp: map_put_def)

lemma distinct_map_put: "distinct (map fst m) \<Longrightarrow> distinct (map fst (map_put k v m))"
  by (auto simp: map_put_def comp_def case_prod_beta)

lemma init_map:
  "map_of (fold (\<lambda>n. map_put (f n) v) ns m) k = (if k \<in> f ` set ns then Some v else map_of m k)"
  "fst ` set (fold (\<lambda>n. map_put (f n) v) ns m) = f ` set ns \<union> fst ` set m"
  "distinct (map fst m) \<Longrightarrow> distinct (map fst (fold (\<lambda>n. map_put (f n) v) ns m))"
  by (induction ns arbitrary: m) (auto simp: keys_map_put distinct_map_put)

lemma graph_get_init [simp]: "graph_get (fold (\<lambda>n. map_put (f n) []) ns []) k = []"
  by (simp add: graph_get_def init_map)

lemma fold_push:
  "graph_get (fold (\<lambda>d. graph_push (f d) (h d)) ds g) k =
     graph_get g k @ (if k \<in> fst ` set g then concat (map h (filter (\<lambda>d. f d = k) ds)) else [])"
  "fst ` set (fold (\<lambda>d. graph_push (f d) (h d)) ds g) = fst ` set g"
  by (induction ds arbitrary: g) (auto simp: graph_get_push)

lemma fold_parents:
  "fold (\<lambda>n g. case truthy (bn_parent n) of None \<Rightarrow> g | Some p \<Rightarrow> graph_push (bn_key n) [p] g) (rq_nodes request) g =
     fold (\<lambda>e. graph_push (snd e) [fst e]) (parent_edges request) g"
proof -
  have "fold (\<lambda>n g. case truthy (bn_parent n) of None \<Rightarrow> g | Some p \<Rightarrow> graph_push (bn_key n) [p] g) ns g =
      fold (\<lambda>e. graph_push (snd e) [fst e])
        (concat (map (\<lambda>n. case truthy (bn_parent n) of None \<Rightarrow> [] | Some p \<Rightarrow> [(p, bn_key n)]) ns)) g" for ns
    by (induction ns arbitrary: g) (auto split: option.split)
  then show ?thesis by (simp add: parent_edges_def)
qed

lemma edge_keys:
  assumes "references_known request" "(a, b) \<in> set (batch_edges request)"
  shows "a \<in> set (node_keys request)" "b \<in> set (node_keys request)"
  using assms unfolding references_known_def batch_edges_def parent_edges_def dependency_edges_def
  by (auto simp: node_keys_def split: option.splits)

lemma graph_get_batch:
  "graph_get (batch_graph request) k =
     (if k \<in> set (node_keys request)
      then concat (map bd_depends_on (filter (\<lambda>d. bd_job d = k) (rq_dependencies request)))
        @ map fst (filter (\<lambda>e. snd e = k) (parent_edges request))
      else [])"
proof -
  have c: "concat (map (\<lambda>e. [fst e]) es) = map fst es" for es :: "(string \<times> string) list" by (induction es) auto
  show ?thesis
    unfolding batch_graph_def Let_def fold_parents
    by (simp add: fold_push init_map c node_keys_def)
qed

lemma batch_graph_edges:
  assumes "references_known request"
  shows "edges (batch_graph request) = (set (batch_edges request))\<inverse>"
proof -
  have "(k, a) \<in> edges (batch_graph request) \<longleftrightarrow> (a, k) \<in> set (batch_edges request)" for k a
  proof (cases "k \<in> set (node_keys request)")
    case True
    then show ?thesis
      by (force simp: edges_def graph_get_batch batch_edges_def dependency_edges_def)
  next
    case False
    then show ?thesis using edge_keys(2) [OF assms] by (auto simp: edges_def graph_get_batch)
  qed
  then show ?thesis by auto
qed

definition well_formed_batch :: "batch_request \<Rightarrow> bool" where
  "well_formed_batch request \<longleftrightarrow>
     references_known request \<and> acyclic (set (batch_edges request)) \<and>
     (\<forall>n \<in> set (rq_nodes request). ancestor (rq_nodes request) 3 (bn_parent n) = None)"

lemma validateBatch_iff: "validateBatch request = [] \<longleftrightarrow> well_formed_batch request"
proof (cases "references_known request")
  case True
  then show ?thesis
    by (auto simp: validateBatch_def Let_def reference_errors_Nil well_formed_batch_def hasCycle_iff batch_graph_edges
        acyclic_converse depth_errors_def filter_empty_conv exceeds_depth_iff)
next
  case False
  then show ?thesis by (auto simp: validateBatch_def Let_def well_formed_batch_def reference_errors_Nil)
qed

subsection \<open>Order of creation\<close>

lemma fold_add_edge:
  assumes "fold add_edge es (adj, deg) = (adj', deg')" "snd ` set es \<subseteq> fst ` set deg" "distinct (map fst deg)"
  shows "(\<forall>u. graph_get adj' u = graph_get adj u @ (if u \<in> fst ` set adj then map snd (filter (\<lambda>e. fst e = u) es) else [])) \<and>
    (\<forall>v d. map_of deg v = Some d \<longrightarrow> map_of deg' v = Some (d + int (length (filter (\<lambda>e. snd e = v) es)))) \<and>
    map fst deg' = map fst deg"
  using assms
proof (induction es arbitrary: adj deg)
  case (Cons e es)
  obtain a b where e: "e = (a, b)" by force
  define adj1 where "adj1 = graph_push a [b] adj"
  define deg1 where "deg1 = map_put b ((case map_of deg b of None \<Rightarrow> 0 | Some d \<Rightarrow> d) + 1) deg"
  have k1: "map fst deg1 = map fst deg" using Cons.prems(2) by (auto simp: e deg1_def map_put_def)
  then have k2: "fst ` set deg1 = fst ` set deg" by (metis list.set_map)
  have step: "fold add_edge es (adj1, deg1) = (adj', deg')"
    using Cons.prems(1) by (simp add: e add_edge_def [of "(a, b)"] adj1_def deg1_def)
  have ih: "\<And>u. graph_get adj' u = graph_get adj1 u @ (if u \<in> fst ` set adj1 then map snd (filter (\<lambda>e. fst e = u) es) else [])"
    "\<And>v d. map_of deg1 v = Some d \<Longrightarrow> map_of deg' v = Some (d + int (length (filter (\<lambda>e. snd e = v) es)))"
    "map fst deg' = map fst deg1"
    using Cons.IH [OF step] Cons.prems(2,3) by (simp_all add: k1 k2 e)
  have "graph_get adj' u = graph_get adj u @ (if u \<in> fst ` set adj then map snd (filter (\<lambda>e. fst e = u) (e # es)) else [])" for u
    by (simp add: ih(1) adj1_def e graph_get_push)
  moreover have "map_of deg' v = Some (d + int (length (filter (\<lambda>e. snd e = v) (e # es))))" if "map_of deg v = Some d" for v d
    using ih(2) [of v "if v = b then d + 1 else d"] that by (auto simp: deg1_def e)
  ultimately show ?case using ih(3) k1 by simp
qed simp

lemma topologicalSort_sound:
  assumes "references_known request" "acyclic (set (batch_edges request))"
  shows "distinct (topologicalSort request) \<and> set (topologicalSort request) = set (node_keys request) \<and>
    well_ordered (batch_edges request) (topologicalSort request)"
proof -
  let ?es = "batch_edges request" and ?N = "set (node_keys request)"
  define deg0 where "deg0 = fold (\<lambda>n. map_put (bn_key n) (0 :: int)) (rq_nodes request) []"
  define adj0 where "adj0 = fold (\<lambda>n. map_put (bn_key n) ([] :: string list)) (rq_nodes request) []"
  obtain adj deg where f: "fold add_edge ?es (adj0, deg0) = (adj, deg)" by force
  have t: "topologicalSort request = kahn adj (map fst (filter (\<lambda>(_, d). d = 0) deg)) deg []"
    using f by (simp add: topologicalSort_def batch_edges_def deg0_def adj0_def Let_def case_prod_beta)
  have k0: "fst ` set deg0 = ?N" "fst ` set adj0 = ?N" "distinct (map fst deg0)"
    by (simp_all add: deg0_def adj0_def init_map node_keys_def)
  have es: "fst ` set ?es \<subseteq> ?N" "snd ` set ?es \<subseteq> ?N" using edge_keys [OF assms(1)] by auto
  note fe = fold_add_edge [OF f, unfolded k0, OF es(2) k0(3)]
  note fe1 = conjunct1 [OF fe, rule_format] and fe2 = conjunct1 [OF conjunct2 [OF fe], rule_format]
    and fe3 = conjunct2 [OF conjunct2 [OF fe]]
  have adj: "graph_get adj u = map snd (filter (\<lambda>e. fst e = u) ?es)" for u
    using fe1 [of u] es(1) by (auto simp: adj0_def filter_empty_conv)
  have pend: "length (filter (\<lambda>e. snd e = v) ?es) = pending ?es [] v" for v
    by (auto simp: pending_def case_prod_beta intro!: arg_cong [where f = length] filter_cong)
  have deg: "map_of deg v = Some (int (pending ?es [] v))" if "v \<in> ?N" for v
    using fe2 [of v 0] that pend by (simp add: deg0_def init_map node_keys_def)
  have dk: "distinct (map fst deg)" "fst ` set deg = ?N" using fe3 k0(1,3) by (simp, metis list.set_map)
  have q: "set (map fst (filter (\<lambda>(_, d). d = 0) deg)) = {v \<in> ?N. pending ?es [] v = 0}"
  proof -
    have "(v, d) \<in> set deg \<longleftrightarrow> v \<in> ?N \<and> map_of deg v = Some d" for v d
      using dk map_of_eq_Some_iff [OF dk(1), of v d] by force
    then have m: "(v, d) \<in> set deg \<longleftrightarrow> v \<in> ?N \<and> d = int (pending ?es [] v)" for v d using deg by auto
    have "v \<in> set (map fst (filter (\<lambda>(_, d). d = 0) deg)) \<longleftrightarrow> (v, 0) \<in> set deg" for v by force
    then show ?thesis unfolding m by auto
  qed
  have "distinct (map fst (filter (\<lambda>(_, d). d = 0) deg))" using dk(1) by (rule distinct_map_filter)
  then have "kahn_inv ?es ?N (map fst (filter (\<lambda>(_, d). d = 0) deg)) deg []"
    using q deg by (auto simp: kahn_inv_def degree_def well_ordered_def)
  from kahn_result [OF this adj es(2)] obtain deg' where "kahn_inv ?es ?N [] deg' (topologicalSort request)"
    by (auto simp: t)
  then show ?thesis using kahn_total assms(2) es(1) by blast
qed

subsection \<open>Creation\<close>

definition node_created ::
  "batch_request \<Rightarrow> (string \<times> string) list \<Rightarrow> string \<Rightarrow> string option \<Rightarrow> timestamp \<Rightarrow> string \<Rightarrow> job \<Rightarrow> bool" where
  "node_created request ids projectId userId now k j \<longleftrightarrow>
     (\<exists>node. find_row (\<lambda>n. bn_key n = k) (rq_nodes request) = Some node \<and> map_of ids k = Some (j_id j) \<and>
        j = new_row (node_job node (j_id j) projectId (Option.bind (truthy (bn_parent node)) (map_of ids))
              (if hasDeps request k then Backlog else Ready) userId now) now)"

lemma node_created_fields:
  assumes "node_created request ids pid u now k j" "find_row (\<lambda>n. bn_key n = k) (rq_nodes request) = Some n"
  shows "map_of ids k = Some (j_id j) \<and> sp_title (j_spec j) = bn_title n \<and> j_project_id j = pid \<and>
    j_parent_id j = Option.bind (truthy (bn_parent n)) (map_of ids) \<and>
    j_phase j = (if hasDeps request k then Backlog else Ready) \<and> j_created_at j = now"
proof -
  let ?j = "new_row (node_job n (j_id j) pid (Option.bind (truthy (bn_parent n)) (map_of ids))
              (if hasDeps request k then Backlog else Ready) u now) now"
  have "j = ?j" and m: "map_of ids k = Some (j_id j)" using assms by (auto simp: node_created_def)
  then have "j_spec j = j_spec ?j" "j_project_id j = j_project_id ?j" "j_parent_id j = j_parent_id ?j"
    "j_phase j = j_phase ?j" "j_created_at j = j_created_at ?j" by (blast intro: arg_cong)+
  then show ?thesis using m by (simp add: new_row_def node_job_def)
qed

definition parents_earlier :: "batch_request \<Rightarrow> string set \<Rightarrow> string list \<Rightarrow> bool" where
  "parents_earlier request known ks \<longleftrightarrow>
     (\<forall>i < length ks. \<forall>node p. find_row (\<lambda>n. bn_key n = ks ! i) (rq_nodes request) = Some node \<longrightarrow>
        truthy (bn_parent node) = Some p \<longrightarrow> p \<in> known \<union> set (take i ks))"

lemma parents_earlier_Cons:
  assumes "parents_earlier request known (k # ks)"
  shows "find_row (\<lambda>n. bn_key n = k) (rq_nodes request) = Some node \<Longrightarrow> truthy (bn_parent node) = Some p \<Longrightarrow> p \<in> known"
    "parents_earlier request (insert k known) ks"
  using assms by (force simp: parents_earlier_def, fastforce simp: parents_earlier_def)

lemma create_Inr:
  "create j now s = (Inr row, s') \<Longrightarrow> row = new_row j now \<and> s' = s\<lparr>jobs := jobs s @ [row]\<rparr> \<and> j_id j \<notin> j_id ` set (jobs s)"
  by (auto simp: create_def Let_def split: if_splits)

lemma generateJobId_project:
  "generateJobId pid p hs s = Some (Inr (i, rp)) \<Longrightarrow> resolveProjectForJobId pid s = Inr (rp', slug) \<Longrightarrow> rp = rp'"
  by (auto simp: generateJobId_def Let_def split: option.splits list.splits if_splits sum.splits)

lemma resolve_jobs [simp]: "resolveProjectForJobId pid (s\<lparr>jobs := js\<rparr>) = resolveProjectForJobId pid s"
  by (simp add: resolveProjectForJobId_def)

lemma create_nodes_effect:
  assumes "create_nodes h request b pid u now ks ids s = (Returned ids', s')"
    and "distinct ks" "set ks \<inter> fst ` set ids = {}" "parents_earlier request (fst ` set ids) ks"
    and "resolveProjectForJobId pid (bstore s) = Inr (rp, slug)"
  shows "\<exists>new. list_all2 (node_created request ids' rp u now) ks new \<and>
    bstore s' = (bstore s)\<lparr>jobs := jobs (bstore s) @ new\<rparr> \<and>
    distinct (map j_id new) \<and> j_id ` set new \<inter> j_id ` set (jobs (bstore s)) = {} \<and>
    batch_tags s' = batch_tags s @ map2 (\<lambda>k j. (j_id j, b, k)) ks new \<and> batch_jobs s' = batch_jobs s \<and>
    (\<forall>k. k \<notin> set ks \<longrightarrow> map_of ids' k = map_of ids k)"
  using assms
proof (induction ks arbitrary: ids s)
  case (Cons k ks)
  from Cons.prems(1) obtain node where node: "find_row (\<lambda>n. bn_key n = k) (rq_nodes request) = Some node"
    by (cases "find_row (\<lambda>n. bn_key n = k) (rq_nodes request)") auto
  define par where "par = (case truthy (bn_parent node) of None \<Rightarrow> None | Some p \<Rightarrow> map_of ids p)"
  from Cons.prems(1) node obtain i rp0 where g: "generateJobId pid par (h k) (bstore s) = Some (Inr (i, rp0))"
    by (cases "generateJobId pid par (h k) (bstore s)") (auto simp: par_def Let_def split: sum.splits prod.splits)
  have rp: "rp0 = rp" using generateJobId_project [OF g Cons.prems(5)] .
  define j0 where "j0 = node_job node i rp par (if hasDeps request k then Backlog else Ready) u now"
  from Cons.prems(1) node g obtain row db1 where c: "create j0 now (bstore s) = (Inr row, db1)"
    by (cases "create j0 now (bstore s)")
       (auto simp: par_def [symmetric] rp j0_def [symmetric] Let_def split: sum.splits prod.splits)
  note cr = create_Inr [OF c]
  define s1 where "s1 = s\<lparr>bstore := db1, batch_tags := batch_tags s @ [(i, b, k)]\<rparr>"
  have bk: "bn_key node = k" using find_row_Some [OF node] by simp
  have rest: "create_nodes h request b pid u now ks (map_put k i ids) s1 = (Returned ids', s')"
    using Cons.prems(1) node g c
    by (simp add: par_def [symmetric] rp j0_def [symmetric] Let_def s1_def bk)
  have k: "k \<notin> set ks" "k \<notin> fst ` set ids" "set ks \<inter> fst ` set (map_put k i ids) = {}"
    using Cons.prems(2,3) by (auto simp: keys_map_put)
  have pf: "parents_earlier request (fst ` set (map_put k i ids)) ks"
    using parents_earlier_Cons(2) [OF Cons.prems(4)] by (simp add: keys_map_put)
  have "resolveProjectForJobId pid (bstore s1) = Inr (rp, slug)" using Cons.prems(5) cr by (simp add: s1_def)
  from Cons.IH [OF rest _ k(3) pf this] Cons.prems(2) obtain new where
    new: "list_all2 (node_created request ids' rp u now) ks new"
      "bstore s' = (bstore s1)\<lparr>jobs := jobs (bstore s1) @ new\<rparr>" "distinct (map j_id new)"
      "j_id ` set new \<inter> j_id ` set (jobs (bstore s1)) = {}"
      "batch_tags s' = batch_tags s1 @ map2 (\<lambda>k j. (j_id j, b, k)) ks new" "batch_jobs s' = batch_jobs s1"
      "\<And>x. x \<notin> set ks \<Longrightarrow> map_of ids' x = map_of (map_put k i ids) x" by auto
  have row: "j_id row = i" using cr by (simp add: j0_def node_job_def)
  have par': "par = Option.bind (truthy (bn_parent node)) (map_of ids')"
  proof (cases "truthy (bn_parent node)")
    case (Some p)
    then have "p \<in> fst ` set ids" using parents_earlier_Cons(1) [OF Cons.prems(4) node] by simp
    then have "p \<noteq> k" "p \<notin> set ks" using k(2) Cons.prems(3) by auto
    then show ?thesis using Some new(7) [of p] by (simp add: par_def)
  qed (simp add: par_def)
  have "node_created request ids' rp u now k row"
    using node cr row new(7) [OF k(1)] by (auto simp: node_created_def j0_def par' [symmetric])
  then have "list_all2 (node_created request ids' rp u now) (k # ks) (row # new)" using new(1) by simp
  then show ?case
    using new cr row k(1) by (intro exI [of _ "row # new"]) (auto simp: s1_def j0_def node_job_def)
qed simp

definition relation_triples :: "db \<Rightarrow> (string \<times> string \<times> relation_type) set" where
  "relation_triples s = (\<lambda>r. (r_job_id r, r_related_job_id r, r_relation_type r)) ` set (job_relations s)"

lemma addDependency_Inr:
  assumes "addDependency a b ''blocks'' x s = (Inr y, s')"
  shows "relation_triples s' = insert (a, b, Blocks) (relation_triples s) \<and> jobs s' = jobs s \<and> a \<noteq> b"
  using assms
  by (auto simp: addDependency_def relation_type_of_def relation_triples_def image_iff split: if_splits)

lemma wire_effect:
  assumes "wire_dependencies u ids links s = (Returned r, s')"
  shows "relation_triples s' = relation_triples s \<union> {(a', b', Blocks) | a b a' b'. (a, b) \<in> set links \<and>
      map_of ids a = Some a' \<and> map_of ids b = Some b'} \<and> jobs s' = jobs s"
  using assms
proof (induction links arbitrary: s)
  case (Cons l links)
  obtain a b where l: "l = (a, b)" by force
  from Cons.prems obtain a' b' where ab: "map_of ids a = Some a'" "map_of ids b = Some b'"
    by (auto simp: l split: option.splits)
  from Cons.prems ab obtain y s1 where d: "addDependency a' b' ''blocks'' (u (a, b)) s = (Inr y, s1)"
    by (cases "addDependency a' b' ''blocks'' (u (a, b)) s") (auto simp: l split: sum.splits)
  have "wire_dependencies u ids links s1 = (Returned r, s')" using Cons.prems ab d by (simp add: l)
  from Cons.IH [OF this] addDependency_Inr [OF d] show ?case using ab by (auto simp: l)
qed simp

lemma wire_frame: "wire_dependencies u ids links s = (Returned r, s') \<Longrightarrow> projects s' = projects s"
proof (induction links arbitrary: s)
  case (Cons l links)
  then show ?case
    by (cases l) (force simp: addDependency_def split: option.splits prod.splits sum.splits if_splits)
qed simp

text \<open>The job a response gives for a key.\<close>

definition job_of :: "batch_response \<Rightarrow> string \<Rightarrow> string option" where
  "job_of r k = map_option res_job_id (map_of (rs_jobs r) k)"

lemma fold_put_other: "k \<notin> fst ` set ps \<Longrightarrow> map_of (fold (\<lambda>(k, j). map_put k (f k j)) ps m) k = map_of m k"
  by (induction ps arbitrary: m) auto

lemma fold_put:
  assumes "\<And>k v v'. (k, v) \<in> set ps \<Longrightarrow> (k, v') \<in> set ps \<Longrightarrow> v = v'" "(k, v) \<in> set ps"
  shows "map_of (fold (\<lambda>(k, j). map_put k (f k j)) ps m) k = Some (f k v)"
  using assms
proof (induction ps arbitrary: m)
  case (Cons p ps)
  obtain a b where p: "p = (a, b)" by force
  show ?case
  proof (cases "k \<in> fst ` set ps")
    case True
    then obtain v' where v': "(k, v') \<in> set ps" by force
    then have "v' = v" using Cons.prems by (meson list.set_intros(2))
    then show ?thesis using Cons.IH [of "map_put a (f a b) m"] Cons.prems(1) v' by (simp add: p) blast
  next
    case False
    then have "(k, v) = (a, b)" using Cons.prems(2) by (force simp: p)
    then show ?thesis using False by (simp add: p fold_put_other)
  qed
qed simp

lemma job_of_response:
  assumes "distinct (node_keys request)"
  shows "job_of \<lparr>rs_batch_id = b, rs_idempotency_key = i, rs_jobs = batch_response_jobs request ids\<rparr> k =
    (if k \<in> set (node_keys request) then Some (case map_of ids k of None \<Rightarrow> [] | Some i \<Rightarrow> i) else None)"
proof -
  define v where "v k = \<lparr>res_job_id = (case map_of ids k of None \<Rightarrow> [] | Some i \<Rightarrow> i),
      res_phase = (if hasDeps request k then Backlog else Ready),
      res_blocked_by = (case map snd (filter (\<lambda>l. fst l = k) (batch_links request)) of [] \<Rightarrow> None | ds \<Rightarrow> Some ds)\<rparr>" for k
  have "fold (\<lambda>n. map_put (bn_key n) (v (bn_key n))) ns m =
      fold (\<lambda>(k, j). map_put k (v k)) (map (\<lambda>n. (bn_key n, ())) ns) m" for ns m
    by (induction ns arbitrary: m) auto
  then have e: "batch_response_jobs request ids = fold (\<lambda>(k, j). map_put k (v k)) (map (\<lambda>n. (bn_key n, ())) (rq_nodes request)) []"
    by (simp add: batch_response_jobs_def v_def)
  have "map_of (batch_response_jobs request ids) k = (if k \<in> set (node_keys request) then Some (v k) else None)"
    using fold_put [of "map (\<lambda>n. (bn_key n, ())) (rq_nodes request)" k "()" "\<lambda>k j. v k" "[]"]
      fold_put_other [of k "map (\<lambda>n. (bn_key n, ())) (rq_nodes request)" "\<lambda>k j. v k" "[]"]
    by (auto simp: e node_keys_def image_image)
  then show ?thesis by (simp add: job_of_def v_def)
qed

lemma parents_earlier_sorted:
  assumes "well_ordered (batch_edges request) ks"
  shows "parents_earlier request {} ks"
  unfolding parents_earlier_def
proof (intro allI impI)
  fix i node p
  assume a: "i < length ks" "find_row (\<lambda>n. bn_key n = ks ! i) (rq_nodes request) = Some node" "truthy (bn_parent node) = Some p"
  have "(p, ks ! i) \<in> set (parent_edges request)"
    using find_row_Some [OF a(2)] a(3) by (force simp: parent_edges_def)
  then show "p \<in> {} \<union> set (take i ks)" using assms a(1) by (auto simp: well_ordered_def batch_edges_def)
qed

lemma created_ids:
  assumes "list_all2 (node_created request ids pid u now) ks new" "distinct ks" "\<And>k. k \<notin> set ks \<Longrightarrow> map_of ids k = None"
  shows "map_of ids = map_of (zip ks (map j_id new))"
proof
  have len: "length new = length ks" using list_all2_lengthD [OF assms(1)] by simp
  show "map_of ids k = map_of (zip ks (map j_id new)) k" for k
  proof (cases "k \<in> set ks")
    case True
    then obtain i where i: "i < length ks" "ks ! i = k" by (metis in_set_conv_nth)
    then have "(k, j_id (new ! i)) \<in> set (zip ks (map j_id new))" using len by (force simp: set_zip)
    moreover have "map_of ids k = Some (j_id (new ! i))"
      using assms(1) i by (auto simp: list_all2_conv_all_nth node_created_def)
    ultimately show ?thesis using assms(2) len by simp
  next
    case False
    then have "map_of (zip ks (map j_id new)) k = None" by (auto simp: map_of_eq_None_iff dest: set_zip_leftD)
    then show ?thesis using False assms(3) by simp
  qed
qed

text \<open>What a creation that is no replay leaves, in terms of the map from keys to ids.\<close>

definition proj_ids :: "db \<Rightarrow> bool" where
  "proj_ids s = list_all (\<lambda>p. starts_with ''proj_'' (p_id p)) (projects s)"

definition first_request :: "string \<Rightarrow> batch_request \<Rightarrow> batch_db \<Rightarrow> bool" where
  "first_request pid request s =
     (case truthy (rq_idempotency_key request) of None \<Rightarrow> True | Some k \<Rightarrow> findByIdempotencyKey pid k s = None)"

lemma createBatch_effect:
  assumes run: "createBatch x projectId request c u now s = (Returned r, s')"
    and pid: "resolveProject_batch projectId (bstore s) = Inr pid" and proj: "proj_ids (bstore s)"
    and first: "first_request pid request s"
  shows "well_formed_batch request \<and> rs_batch_id r = bx_batch_id x \<and>
    (\<exists>ids new. list_all2 (node_created request ids pid u now) (topologicalSort request) new \<and>
      jobs (bstore s') = jobs (bstore s) @ new \<and> projects (bstore s') = projects (bstore s) \<and>
      distinct (map j_id new) \<and> j_id ` set new \<inter> j_id ` set (jobs (bstore s)) = {} \<and>
      batch_tags s' = batch_tags s @ map2 (\<lambda>k j. (j_id j, bx_batch_id x, k)) (topologicalSort request) new \<and>
      (\<exists>b. batch_jobs s' = batch_jobs s @ [b] \<and> b_id b = bx_batch_id x \<and> b_project_id b = pid \<and>
         b_idempotency_key b = rq_idempotency_key request \<and> b_id b \<notin> b_id ` set (batch_jobs s)) \<and>
      job_of r = map_of ids \<and> map_of ids = map_of (zip (topologicalSort request) (map j_id new)) \<and>
      relation_triples (bstore s') = relation_triples (bstore s) \<union> {(a', b', Blocks) | a b a' b'.
        (a, b) \<in> set (batch_links request) \<and> map_of ids a = Some a' \<and> map_of ids b = Some b'})"
proof -
  have wf: "well_formed_batch request"
    using run by (auto simp: createBatch_def validateBatch_iff [symmetric] split: if_splits)
  then have refs: "references_known request" and dist: "distinct (node_keys request)"
    by (auto simp: well_formed_batch_def references_known_def)
  have ts: "distinct (topologicalSort request)" "set (topologicalSort request) = set (node_keys request)"
    "well_ordered (batch_edges request) (topologicalSort request)"
    using topologicalSort_sound wf by (auto simp: well_formed_batch_def)
  have ex: "exists_row (\<lambda>p. p_id p = pid) (projects (bstore s))" and
    fresh: "create_fresh_batch x pid request c u now s = (Returned r, s')"
    using run pid first
    by (auto simp: createBatch_def first_request_def split: if_splits option.splits)
  obtain p where p: "find_row (\<lambda>p. p_id p = pid) (projects (bstore s)) = Some p" "p_id p = pid" "starts_with ''proj_'' pid"
    using ex proj find_row_None [of "\<lambda>p. p_id p = pid" "projects (bstore s)"] find_row_Some
    by (cases "find_row (\<lambda>p. p_id p = pid) (projects (bstore s))") (force simp: proj_ids_def list_all_iff)+
  have rpj: "resolveProjectForJobId pid (bstore s) = Inr (pid, p_slug p)"
    using p by (simp add: resolveProjectForJobId_def)
  define b where "b = \<lparr>b_id = bx_batch_id x, b_project_id = pid, b_idempotency_key = rq_idempotency_key request,
      b_node_count = length (rq_nodes request), b_created_by = c, b_created_at = now\<rparr>"
  define s1 where "s1 = s\<lparr>batch_jobs := batch_jobs s @ [b]\<rparr>"
  have bc: "batch_create b s = (Inr b, s1)" "b_id b \<notin> b_id ` set (batch_jobs s)"
    using fresh by (auto simp: create_fresh_batch_def b_def [symmetric] batch_create_def s1_def split: if_splits)
  obtain ids s2 where cn: "create_nodes (bx_hashes x) request (bx_batch_id x) pid u now (topologicalSort request) [] s1 = (Returned ids, s2)"
    using fresh by (auto simp: create_fresh_batch_def b_def [symmetric] bc split: prod.splits reply.splits)
  obtain db' w where wd: "wire_dependencies (bx_uuids x) ids (batch_links request) (bstore s2) = (Returned w, db')"
    and r: "r = \<lparr>rs_batch_id = bx_batch_id x, rs_idempotency_key = rq_idempotency_key request,
       rs_jobs = batch_response_jobs request ids\<rparr>" and s': "s' = s2\<lparr>bstore := db'\<rparr>"
    using fresh by (auto simp: create_fresh_batch_def b_def [symmetric] bc cn split: prod.splits reply.splits)
  obtain new where new: "list_all2 (node_created request ids pid u now) (topologicalSort request) new"
      "bstore s2 = (bstore s1)\<lparr>jobs := jobs (bstore s1) @ new\<rparr>" "distinct (map j_id new)"
      "j_id ` set new \<inter> j_id ` set (jobs (bstore s1)) = {}"
      "batch_tags s2 = batch_tags s1 @ map2 (\<lambda>k j. (j_id j, bx_batch_id x, k)) (topologicalSort request) new"
      "batch_jobs s2 = batch_jobs s1" "\<And>k. k \<notin> set (topologicalSort request) \<Longrightarrow> map_of ids k = None"
    using create_nodes_effect [OF cn ts(1)] parents_earlier_sorted [OF ts(3)] rpj by (auto simp: s1_def)
  have ids: "job_of r k = map_of ids k" for k
  proof (cases "k \<in> set (node_keys request)")
    case True
    then obtain i where "i < length (topologicalSort request)" "k = topologicalSort request ! i" using ts(2) by (metis in_set_conv_nth)
    then have "map_of ids k \<noteq> None" using new(1) by (auto simp: list_all2_conv_all_nth node_created_def)
    then show ?thesis using True by (auto simp: r job_of_response [OF dist])
  next
    case False
    then show ?thesis using new(7) ts(2) by (simp add: r job_of_response [OF dist])
  qed
  then show ?thesis
    using wf new ids created_ids [OF new(1) ts(1) new(7)] wire_effect [OF wd] wire_frame [OF wd] bc(2)
    by (intro conjI exI [of _ ids] exI [of _ new]) (auto simp: r s' s1_def b_def relation_triples_def fun_eq_iff)
qed

text \<open>
C28: Batch validation accepts a request exactly when its keys are distinct, every parent and dependency names a node, the
  graph of parents and dependencies has no cycle, and no node has four ancestors; and for such a request the order of
  creation lists every node once, after its parent and after everything it depends on.
\<close>

theorem batch_validation_exact:
  "(validateBatch request = [] \<longleftrightarrow>
      references_known request \<and> acyclic (set (batch_edges request)) \<and>
      (\<forall>n \<in> set (rq_nodes request). ancestor (rq_nodes request) 3 (bn_parent n) = None)) \<and>
   (validateBatch request = [] \<longrightarrow>
      distinct (topologicalSort request) \<and> set (topologicalSort request) = set (node_keys request) \<and>
      well_ordered (batch_edges request) (topologicalSort request))"
  using validateBatch_iff topologicalSort_sound unfolding well_formed_batch_def by blast

subsection \<open>An example\<close>

definition ex_node :: "string \<Rightarrow> string option \<Rightarrow> batch_node" where
  "ex_node k p = \<lparr>bn_key = k, bn_title = ''T'' @ k, bn_description = None, bn_type = None, bn_parent = p,
     bn_target = None, bn_resource_refs = None, bn_git = None, bn_hints = None\<rparr>"

definition ex_batch :: batch_request where
  "ex_batch = \<lparr>rq_idempotency_key = Some ''k1'',
     rq_nodes = [ex_node ''test'' (Some ''epic''), ex_node ''epic'' None, ex_node ''build'' (Some ''epic'')],
     rq_dependencies = [\<lparr>bd_job = ''test'', bd_depends_on = [''build'']\<rparr>]\<rparr>"

definition ex_batch_db :: batch_db where
  "ex_batch_db = \<lparr>bstore = \<lparr>jobs = [], job_attempts = [], job_relations = [], job_gates = [], audit_log = [],
       projects = [\<lparr>p_id = ''proj_1'', p_slug = ''shop'', p_org_id = ''org_1''\<rparr>], pipeline_runs = [],
       pipeline_step_runs = [], execution_logs = [], thread_messages = []\<rparr>,
     batch_jobs = [], batch_tags = []\<rparr>"

definition ex_batch_ext :: batch_ext where
  "ex_batch_ext = \<lparr>bx_batch_id = ''batch_1'', bx_hashes = (\<lambda>k. [k @ ''0123'']), bx_uuids = (\<lambda>(a, b). a @ ''-'' @ b)\<rparr>"

definition ex_created :: "batch_response reply \<times> batch_db" where
  "ex_created = createBatch ex_batch_ext ''shop'' ex_batch None None 10 ex_batch_db"

theorem batch_validation_exact_witness:
  "validateBatch ex_batch = [] \<and> topologicalSort ex_batch = [''epic'', ''build'', ''test''] \<and>
   distinct (topologicalSort ex_batch) \<and> acyclic (set (batch_edges ex_batch))"
proof -
  have v: "validateBatch ex_batch = []" "topologicalSort ex_batch = [''epic'', ''build'', ''test'']" by code_simp+
  then show ?thesis using batch_validation_exact [of ex_batch] by simp
qed

text \<open>
C29: Creating a batch. When the call is no repetition and returns, the store has gained exactly one job per node, with ids that
  are new and distinct; the job of a node carries its title, belongs to the project, has the job of the node's
  parent as parent, and is ready, or in the backlog when the node has dependencies; and the relations gained are exactly
  the blocking relations of the dependencies.
\<close>

theorem batch_creates_its_graph:
  assumes "createBatch x projectId request c u now s = (Returned r, s')"
    and "resolveProject_batch projectId (bstore s) = Inr pid" "proj_ids (bstore s)" "first_request pid request s"
  shows "\<exists>new. jobs (bstore s') = jobs (bstore s) @ new \<and> length new = length (rq_nodes request) \<and>
    distinct (map j_id new) \<and> j_id ` set new \<inter> j_id ` set (jobs (bstore s)) = {} \<and>
    (\<forall>n \<in> set (rq_nodes request). \<exists>j \<in> set new. job_of r (bn_key n) = Some (j_id j) \<and>
       sp_title (j_spec j) = bn_title n \<and> j_project_id j = pid \<and>
       j_parent_id j = Option.bind (truthy (bn_parent n)) (job_of r) \<and>
       j_phase j = (if hasDeps request (bn_key n) then Backlog else Ready)) \<and>
    relation_triples (bstore s') = relation_triples (bstore s) \<union> {(a', b', Blocks) | a b a' b'.
      (a, b) \<in> set (batch_links request) \<and> job_of r a = Some a' \<and> job_of r b = Some b'}"
proof -
  from createBatch_effect [OF assms] obtain ids new where
    wf: "well_formed_batch request" and
    new: "list_all2 (node_created request ids pid u now) (topologicalSort request) new"
      "jobs (bstore s') = jobs (bstore s) @ new" "distinct (map j_id new)"
      "j_id ` set new \<inter> j_id ` set (jobs (bstore s)) = {}" and ids: "job_of r = map_of ids" and
    rel: "relation_triples (bstore s') = relation_triples (bstore s) \<union> {(a', b', Blocks) | a b a' b'.
        (a, b) \<in> set (batch_links request) \<and> map_of ids a = Some a' \<and> map_of ids b = Some b'}" by auto
  have ts: "distinct (topologicalSort request)" "set (topologicalSort request) = set (node_keys request)" and
    dk: "distinct (node_keys request)"
    using topologicalSort_sound wf by (auto simp: well_formed_batch_def references_known_def)
  have len: "length new = length (rq_nodes request)"
    using list_all2_lengthD [OF new(1)] distinct_card [OF ts(1)] distinct_card [OF dk] ts(2) by (simp add: node_keys_def)
  have "\<exists>j \<in> set new. job_of r (bn_key n) = Some (j_id j) \<and> sp_title (j_spec j) = bn_title n \<and> j_project_id j = pid \<and>
       j_parent_id j = Option.bind (truthy (bn_parent n)) (job_of r) \<and>
       j_phase j = (if hasDeps request (bn_key n) then Backlog else Ready)" if n: "n \<in> set (rq_nodes request)" for n
  proof -
    have "find_row (\<lambda>m. bn_key m = bn_key n) (rq_nodes request) = Some n"
      using dk n by (simp add: node_keys_def find_row_key)
    moreover obtain i where "i < length (topologicalSort request)" "topologicalSort request ! i = bn_key n"
      using ts(2) n by (metis in_set_conv_nth node_keys_def imageI list.set_map)
    ultimately have "node_created request ids pid u now (bn_key n) (new ! i)" "new ! i \<in> set new"
      using new(1) by (auto simp: list_all2_conv_all_nth)
    then show ?thesis using node_created_fields \<open>find_row _ _ = Some n\<close> unfolding ids by blast
  qed
  then show ?thesis using new len rel unfolding ids by blast
qed

lemma ex_created_returns: "\<exists>r. ex_created = (Returned r, snd ex_created)"
proof -
  have "case fst ex_created of Returned _ \<Rightarrow> True | _ \<Rightarrow> False" by code_simp
  then obtain r where "fst ex_created = Returned r" by (cases "fst ex_created") auto
  then show ?thesis by (metis prod.collapse)
qed

theorem batch_creates_its_graph_witness:
  "\<exists>r s'. ex_created = (Returned r, s') \<and> map j_id (jobs (bstore s')) = [''shop-epic0123'', ''shop-epic0123.1'', ''shop-epic0123.2''] \<and>
     map j_phase (jobs (bstore s')) = [Ready, Ready, Backlog] \<and> (\<exists>new. jobs (bstore s') = jobs (bstore ex_batch_db) @ new \<and> length new = 3)"
proof -
  have h: "resolveProject_batch ''shop'' (bstore ex_batch_db) = Inr ''proj_1''" "proj_ids (bstore ex_batch_db)"
    "first_request ''proj_1'' ex_batch ex_batch_db" by code_simp+
  obtain r where r: "ex_created = (Returned r, snd ex_created)" using ex_created_returns by blast
  have "map j_id (jobs (bstore (snd ex_created))) = [''shop-epic0123'', ''shop-epic0123.1'', ''shop-epic0123.2''] \<and>
     map j_phase (jobs (bstore (snd ex_created))) = [Ready, Ready, Backlog]" by code_simp
  moreover have "length (rq_nodes ex_batch) = 3" by code_simp
  moreover obtain new where "jobs (bstore (snd ex_created)) = jobs (bstore ex_batch_db) @ new" "length new = length (rq_nodes ex_batch)"
    using batch_creates_its_graph [OF r [unfolded ex_created_def] h] unfolding ex_created_def by blast
  ultimately show ?thesis using r by metis
qed

subsection \<open>Repeated requests\<close>

definition tags_known :: "batch_db \<Rightarrow> bool" where
  "tags_known s = list_all (\<lambda>(_, b, _). list_ex (\<lambda>r. b_id r = b) (batch_jobs s)) (batch_tags s)"

lemma job_of_reconstruct:
  assumes "\<And>k j. j \<in> set (jobs (bstore s)) \<and> (j_id j, b, k) \<in> set (batch_tags s) \<longleftrightarrow> (k, j) \<in> set (zip ks new)"
    and "distinct ks" "[] \<notin> set ks" "length new = length ks"
  shows "job_of (reconstructBatchResult b request s) k = map_of (zip ks (map j_id new)) k"
proof -
  define tagged where "tagged = concat (map (\<lambda>j. map (\<lambda>(_, _, k). (k, j)) (filter (\<lambda>(i, b', _). i = j_id j \<and> b' = b) (batch_tags s)))
            (jobs (bstore s)))"
  define rows where "rows = filter (\<lambda>(k, j). k \<noteq> []) (order_by (\<lambda>(k, j). j_created_at j) tagged)"
  define v where "v = (\<lambda>k (j :: job). \<lparr>res_job_id = j_id j, res_phase = j_phase j,
     res_blocked_by = (case map_of (fold (\<lambda>d. map_put (bd_job d) (bd_depends_on d)) (rq_dependencies request) []) k of
        Some (d # ds) \<Rightarrow> Some (d # ds) | _ \<Rightarrow> None)\<rparr>)"
  have "(k, j) \<in> set tagged \<longleftrightarrow> (k, j) \<in> set (zip ks new)" for k j
    unfolding assms(1) [symmetric] by (force simp: tagged_def)
  then have rows: "(k, j) \<in> set rows \<longleftrightarrow> (k, j) \<in> set (zip ks new)" for k j
    using assms(3) by (auto simp: rows_def dest: set_zip_leftD)
  have fn: "j = j'" if "(k, j) \<in> set rows" "(k, j') \<in> set rows" for k j j'
    using that assms(2) unfolding rows by (metis assms(4) distinct_zipI1 eq_key_imp_eq_value map_fst_zip)
  have e: "rs_jobs (reconstructBatchResult b request s) = fold (\<lambda>(k, j). map_put k (v k j)) rows []"
    by (simp add: reconstructBatchResult_def Let_def tagged_def rows_def v_def)
  show ?thesis
  proof (cases "k \<in> set ks")
    case True
    then obtain i where i: "i < length ks" "ks ! i = k" by (metis in_set_conv_nth)
    then have "(k, new ! i) \<in> set rows" unfolding rows using assms(4) by (force simp: set_zip)
    moreover have "(k, j_id (new ! i)) \<in> set (zip ks (map j_id new))" using i assms(4) by (force simp: set_zip)
    then have "map_of (zip ks (map j_id new)) k = Some (j_id (new ! i))" using assms(2,4) by simp
    ultimately show ?thesis using fold_put [of rows k "new ! i" v "[]"] fn by (simp add: job_of_def e v_def)
  next
    case False
    then have "k \<notin> fst ` set rows" using rows by (force dest: set_zip_leftD)
    moreover have "map_of (zip ks (map j_id new)) k = None" using False by (auto simp: map_of_eq_None_iff dest: set_zip_leftD)
    ultimately show ?thesis using fold_put_other [of k rows v "[]"] by (simp add: job_of_def e)
  qed
qed

text \<open>
A repeated batch request is a replay. After a batch with an idempotency key has been created, the same request for the
  project, with whatever ids it would draw, returns the same batch and the same job for every key, and writes nothing.
\<close>

theorem batch_replay_writes_nothing:
  assumes run: "createBatch x projectId request c u now s = (Returned r, s')"
    and pid: "resolveProject_batch projectId (bstore s) = Inr pid" and proj: "proj_ids (bstore s)"
    and first: "first_request pid request s"
    and key: "truthy (rq_idempotency_key request) = Some key" and tags: "tags_known s" and named: "[] \<notin> set (node_keys request)"
  shows "\<exists>r'. createBatch x' projectId request c' u' now' s' = (Returned r', s') \<and> rs_batch_id r' = rs_batch_id r \<and>
    job_of r' = job_of r"
proof -
  let ?ks = "topologicalSort request" and ?b = "bx_batch_id x"
  from createBatch_effect [OF run pid proj first] obtain ids new b where
    wf: "well_formed_batch request" and rb: "rs_batch_id r = ?b" and
    new: "list_all2 (node_created request ids pid u now) ?ks new"
      "jobs (bstore s') = jobs (bstore s) @ new" "projects (bstore s') = projects (bstore s)" "distinct (map j_id new)"
      "j_id ` set new \<inter> j_id ` set (jobs (bstore s)) = {}"
      "batch_tags s' = batch_tags s @ map2 (\<lambda>k j. (j_id j, ?b, k)) ?ks new" and
    b: "batch_jobs s' = batch_jobs s @ [b]" "b_id b = ?b" "b_project_id b = pid"
       "b_idempotency_key b = rq_idempotency_key request" "b_id b \<notin> b_id ` set (batch_jobs s)" and
    ids: "job_of r = map_of (zip ?ks (map j_id new))" by (elim conjE exE) auto
  have ts: "distinct ?ks" "set ?ks = set (node_keys request)"
    using topologicalSort_sound wf by (auto simp: well_formed_batch_def)
  have len: "length new = length ?ks" using list_all2_lengthD [OF new(1)] by simp
  have k: "rq_idempotency_key request = Some key" using key by (auto simp: truthy_def split: option.splits if_splits)
  have "findByIdempotencyKey pid key s = None" using first key by (simp add: first_request_def)
  then have fk: "findByIdempotencyKey pid key s' = Some b"
    using b k by (simp add: findByIdempotencyKey_def)
  have ex: "exists_row (\<lambda>p. p_id p = pid) (projects (bstore s))"
    using run pid by (auto simp: createBatch_def split: if_splits)
  have "resolveProject_batch projectId (bstore s') = resolveProject_batch projectId (bstore s)"
    by (simp add: resolveProject_batch_def resolveProjectSlug_def new(3))
  then have c: "createBatch x' projectId request c' u' now' s' = (Returned (reconstructBatchResult ?b request s'), s')"
    using ex pid wf key fk b(2) new(3) by (simp add: createBatch_def validateBatch_iff)
  have old: "(i, ?b, k) \<notin> set (batch_tags s)" for i k
    using tags b(2,5) by (fastforce simp: tags_known_def list_all_iff list_ex_iff)
  have zip: "j \<in> set (jobs (bstore s')) \<and> (j_id j, ?b, k) \<in> set (batch_tags s') \<longleftrightarrow> (k, j) \<in> set (zip ?ks new)" for k j
  proof
    assume a: "j \<in> set (jobs (bstore s')) \<and> (j_id j, ?b, k) \<in> set (batch_tags s')"
    then obtain j' where j': "(k, j') \<in> set (zip ?ks new)" "j_id j' = j_id j" using old by (auto simp: new(6))
    then have "j' \<in> set new" by (auto dest: set_zip_rightD)
    then have "j = j'" using a j'(2) new(2,4,5) by (auto simp: distinct_map inj_on_def disjoint_iff)
    then show "(k, j) \<in> set (zip ?ks new)" using j'(1) by simp
  next
    assume "(k, j) \<in> set (zip ?ks new)"
    then show "j \<in> set (jobs (bstore s')) \<and> (j_id j, ?b, k) \<in> set (batch_tags s')"
      by (force simp: new(2,6) dest: set_zip_rightD)
  qed
  have "job_of (reconstructBatchResult ?b request s') k = map_of (zip ?ks (map j_id new)) k" for k
    using job_of_reconstruct [OF zip ts(1)] ts(2) named len by simp
  then show ?thesis using c rb ids by (simp add: reconstructBatchResult_def Let_def fun_eq_iff)
qed

theorem batch_replay_writes_nothing_witness:
  "\<exists>r r'. ex_created = (Returned r, snd ex_created) \<and>
     createBatch (ex_batch_ext\<lparr>bx_batch_id := ''batch_2''\<rparr>) ''shop'' ex_batch None None 99 (snd ex_created) = (Returned r', snd ex_created) \<and>
     job_of r' = job_of r \<and> job_of r ''test'' = Some ''shop-epic0123.2''"
proof -
  obtain r where r: "ex_created = (Returned r, snd ex_created)" using ex_created_returns by blast
  have h: "resolveProject_batch ''shop'' (bstore ex_batch_db) = Inr ''proj_1''" "proj_ids (bstore ex_batch_db)"
    "first_request ''proj_1'' ex_batch ex_batch_db" "truthy (rq_idempotency_key ex_batch) = Some ''k1''"
    "tags_known ex_batch_db" "[] \<notin> set (node_keys ex_batch)" by code_simp+
  have "case fst ex_created of Returned r \<Rightarrow> job_of r ''test'' = Some ''shop-epic0123.2'' | _ \<Rightarrow> True" by code_simp
  then have "job_of r ''test'' = Some ''shop-epic0123.2''" by (subst (asm) r) simp
  then show ?thesis
    using batch_replay_writes_nothing [OF r [unfolded ex_created_def] h, of "ex_batch_ext\<lparr>bx_batch_id := ''batch_2''\<rparr>" None None 99] r
    by (auto simp: ex_created_def)
qed

subsection \<open>Where the code falls short\<close>

text \<open>
  A chain of four nodes passes validation, but the id of the fourth is refused: its parent has three parts
  already. The batch and the first three jobs stay, and a repetition of the request returns them as the batch.
\<close>

definition ex_deep :: batch_request where
  "ex_deep = \<lparr>rq_idempotency_key = Some ''k2'',
     rq_nodes = [ex_node ''a'' None, ex_node ''b'' (Some ''a''), ex_node ''c'' (Some ''b''), ex_node ''d'' (Some ''c'')],
     rq_dependencies = []\<rparr>"

definition ex_deep_run :: "batch_response reply \<times> batch_db" where
  "ex_deep_run = createBatch ex_batch_ext ''shop'' ex_deep None None 10 ex_batch_db"

lemma deep_batch_leaves_a_fragment:
  "validateBatch ex_deep = [] \<and>
   fst ex_deep_run = Thrown (Other_error (Error ''Max hierarchy depth (3) exceeded'')) \<and>
   map j_phase (jobs (bstore (snd ex_deep_run))) = [Ready, Ready, Ready] \<and>
   (case createBatch ex_batch_ext ''shop'' ex_deep None None 20 (snd ex_deep_run) of
      (Returned r, _) \<Rightarrow> map fst (rs_jobs r) = [''a'', ''b'', ''c''] | _ \<Rightarrow> False)"
  by code_simp

text \<open>
  A node with dependencies starts in the backlog. When all its blockers are done it is no longer blocked, but the
  ready query does not return it: nothing moves it to ready.
\<close>

definition ex_all_done :: db where
  "ex_all_done = fold (\<lambda>i s. update_jobs (\<lambda>j. j_id j = i) (set_phase Done 50) s)
     [''shop-epic0123'', ''shop-epic0123.1''] (bstore (snd ex_created))"

lemma batch_dependent_is_never_ready:
  "\<not> isBlocked ''shop-epic0123.2'' ex_all_done \<and> map_option j_phase (findById ''shop-epic0123.2'' ex_all_done) = Some Backlog \<and>
   getReadyJobs ''proj_1'' None None 60 ex_all_done = []"
  by code_simp

end
