(* ===== verification/Job_Process.thy ===== *)
theory Job_Process
  imports Loop_Store
begin

section \<open>Processing a claimed job\<close>

text \<open>
  \<^verbatim>\<open>processJob\<close> of \<^verbatim>\<open>loop.service.ts\<close> with its parts \<^verbatim>\<open>acquireJobGates\<close>, \<^verbatim>\<open>dispatchAndAwait\<close>,
  \<^verbatim>\<open>finalizeJobResult\<close>, \<^verbatim>\<open>handleProcessJobError\<close> and \<^verbatim>\<open>releaseJobResources\<close>, and \<^verbatim>\<open>recoverCompletedAttempts\<close>.
  The worker is outside the model: its answer is an argument (a thrown message or a result), and so
  is what other clients do to the world while it runs. Workspace directories, logging and the chat
  delivery, which write nothing to the tables, are left out. The messages Postgres gives its errors
  are the argument \<open>db_text\<close>. A statement fails in the model only on a constraint of its table; a lost connection is outside of it.
  The update of \<^verbatim>\<open>completeAttempt\<close> can break no constraint, so the \<^verbatim>\<open>catch\<close> around it in
  \<^verbatim>\<open>handleProcessJobError\<close>, which logs the error and goes on to mark the job failed with the attempt left running,
  has no branch here.
\<close>

definition exn_message :: "(db_error \<Rightarrow> string) \<Rightarrow> exn \<Rightarrow> string" where
  "exn_message db_text e = (case e of Error m \<Rightarrow> m | Db_error d \<Rightarrow> db_text d)"

text \<open>\<^verbatim>\<open>markJobFailed\<close> always returns, see the property on the failure cascade.\<close>

definition failJob :: "string \<Rightarrow> string option \<Rightarrow> timestamp \<Rightarrow> db \<Rightarrow> job option \<times> db" where
  "failJob jobId reason now s = (case markJobFailed jobId reason now s of Some p \<Rightarrow> p | None \<Rightarrow> (None, s))"

subsection \<open>Gates\<close>

definition gate_ttl :: "job \<Rightarrow> int" where
  "gate_ttl job = \<lceil>resolveWorkerPollTimeoutMs job (j_execution_type job) / 1000\<rceil>"

definition acquireJobGates ::
  "(nat \<Rightarrow> db \<Rightarrow> db) \<Rightarrow> job \<Rightarrow> attempt \<Rightarrow> string list \<Rightarrow> timestamp \<Rightarrow> db \<Rightarrow> (db_error + bool) \<times> db" where
  "acquireJobGates others job att requiredGates now s =
     (if requiredGates = [] then (Inr True, s)
      else case acquireGates others (j_id job) requiredGates (gate_ttl job)
            [(''orchestrator'', JBool True), (''env_name'', json_opt (j_env_name job))] now s of
          (Inl e, s1) \<Rightarrow> (Inl e, s1)
        | (Inr r, s1) \<Rightarrow>
            if success r then (Inr True, clearBlockedOnGates (j_id job) now s1)
            else
              let s2 = updateBlockedOnGates (j_id job) (blocked_by r) now s1;
                  s3 = snd (completeAttempt (a_id att) AttFailed (no_result\<lparr>ar_exitCode := Some 0,
                         ar_errorMessage := Some (''Blocked on gates: '' @ join_with '', '' (blocked_by r))\<rparr>) now s2)
              in (Inr False, snd (requeueReady (j_id job) ''orchestrator'' (Some (Some (now + WAITING_BACKOFF_MS)))
                    (Some ''Blocked on gates'') now s3)))"

subsection \<open>The worker's answer\<close>

definition result_of :: "harness_result \<Rightarrow> eve_control \<Rightarrow> attempt_result" where
  "result_of result ctl =
     \<lparr>ar_exitCode = Some (hr_exitCode result), ar_resultText = hr_resultText result, ar_resultJson = hr_resultJson result,
      ar_durationMs = hr_durationMs result, ar_tokenInput = hr_tokenInput result,
      ar_tokenOutput = hr_tokenOutput result, ar_errorMessage = hr_error result, ar_resultSummary = ec_summary ctl\<rparr>"

datatype dispatch_outcome =
    Completed harness_result eve_control control_status attempt
  | Externally_finalized bool "string option"

definition attempt_status_of :: "control_status \<Rightarrow> attempt_status" where
  "attempt_status_of outcome = (if outcome = CtlFailed then AttFailed else AttSucceeded)"

text \<open>The attempt was finished by someone else: bring the job along.\<close>

definition external_finish ::
  "ext \<Rightarrow> job \<Rightarrow> attempt \<Rightarrow> harness_result \<Rightarrow> timestamp \<Rightarrow> world \<Rightarrow> (exn + dispatch_outcome) \<times> world" where
  "external_finish x job att result now w =
     (let latest = getLatestAttempt (j_id job) (store w);
          current = findById (j_id job) (store w);
          externalError = or_default ''Attempt terminated externally''
            (coalesce (Option.bind latest a_error_message) (hr_error result))
      in if (case current of None \<Rightarrow> False | Some j \<Rightarrow> terminal_phase (j_phase j)) then
           (Inr (Externally_finalized (j_phase (the current) = Done) None), w)
         else if map_option a_status latest = Some AttSucceeded then
           (case markJobDone (j_id job) None now (store w) of
              (Inl e, s1) \<Rightarrow> (Inl e, w\<lparr>store := s1\<rparr>)
            | (Inr _, s1) \<Rightarrow> (Inr (Externally_finalized True None), w\<lparr>store := s1\<rparr>))
         else
           let w1 = w\<lparr>store := snd (failJob (j_id job) (Some externalError) now (store w))\<rparr>;
               w2 = emitJobFailureEvent x job (j_labels job) (a_id att) externalError ''pod_terminated''
                      (Some (or_default 1 (Option.bind latest a_exit_code))) now w1
           in (Inr (Externally_finalized False (Some externalError)), w2))"

definition dispatchAndAwait ::
  "ext \<Rightarrow> job \<Rightarrow> attempt \<Rightarrow> (string + harness_result) \<Rightarrow> (world \<Rightarrow> world) \<Rightarrow> timestamp \<Rightarrow> world \<Rightarrow>
    (exn + dispatch_outcome) \<times> world" where
  "dispatchAndAwait x job att answer others now w =
     (if \<not> exists_row (\<lambda>p. p_id p = j_project_id job) (projects (store w)) then
        (Inl (Error (''Project '' @ j_project_id job @ '' not found for job '' @ j_id job)), w)
      else
        let w1 = others w
        in case answer of
             Inl msg \<Rightarrow> (Inl (Error msg), w1)
           | Inr result \<Rightarrow>
               let ctl = extractEveControl (hr_resultJson result);
                   outcome = resolveOrchestrationOutcome (hr_success result) (ec_status ctl);
                   (done_row, s2) = completeAttempt (a_id att) (attempt_status_of outcome) (result_of result ctl) now (store w1);
                   w2 = w1\<lparr>store := s2\<rparr>
               in (case done_row of
                     Some row \<Rightarrow> (Inr (Completed result ctl outcome row), w2)
                   | None \<Rightarrow> external_finish x job att result now w2))"

subsection \<open>From the result to the job\<close>

definition relayToCoordinationThread :: "ext \<Rightarrow> job \<Rightarrow> string option \<Rightarrow> timestamp \<Rightarrow> db \<Rightarrow> db" where
  "relayToCoordinationThread x job summary now s =
     (case (j_parent_id job, summary) of
        (Some parent, Some text) \<Rightarrow>
          if parent = [] \<or> text = [] then s
          else
            (case Option.bind (findById parent s) (\<lambda>p. json_string (coordination_thread (j_hints p))) of
               None \<Rightarrow> s
             | Some t \<Rightarrow>
                 if t \<noteq> [] \<and> x_thread x t
                 then s\<lparr>thread_messages := thread_messages s @ [\<lparr>m_thread_id = t, m_created_at = now\<rparr>]\<rparr>
                 else s)
      | _ \<Rightarrow> s)"

definition set_hints :: "string \<Rightarrow> jobject \<Rightarrow> timestamp \<Rightarrow> db \<Rightarrow> db" where
  "set_hints jobId hints now s =
     update_jobs (\<lambda>j. j_id j = jobId) (\<lambda>j. j\<lparr>j_hints := hints, j_updated_at := now\<rparr>) s"

definition wait_hint :: "string list \<Rightarrow> json" where
  "wait_hint conditions = JObj [(''wake_on'', JArr (map JStr conditions))]"

text \<open>A staged lead that is prepared: its backlog children become ready, the lead waits for them.\<close>

definition promote_staged :: "job \<Rightarrow> timestamp \<Rightarrow> db \<Rightarrow> db" where
  "promote_staged job now s =
     (let promoted = filter (\<lambda>j. j_parent_id j = Some (j_id job) \<and> j_phase j = Backlog) (jobs s);
          s1 = update_jobs (\<lambda>j. j_parent_id j = Some (j_id job) \<and> j_phase j = Backlog)
                 (\<lambda>j. j\<lparr>j_phase := Ready, j_updated_at := now\<rparr>) s;
          hints = obj_set ''staged'' (JBool False) (j_hints job)
      in if promoted = [] then
           snd (requeueReady (j_id job) ''orchestrator'' None (Some ''Staged dispatch fallback: no children to run'') now
             (set_hints (j_id job) hints now s1))
         else
           snd (requeueReady (j_id job) ''orchestrator'' None (Some ''Staged dispatch: waiting for members'') now
             (set_hints (j_id job) (obj_set ''wait'' (wait_hint [''children.all_done'']) hints) now s1)))"

definition requeue_waiting :: "job \<Rightarrow> eve_control \<Rightarrow> timestamp \<Rightarrow> db \<Rightarrow> db" where
  "requeue_waiting job ctl now s =
     (let s1 = (case ec_wakeOn ctl of
            Some (c # cs) \<Rightarrow> set_hints (j_id job) (obj_set ''wait'' (wait_hint (c # cs)) (j_hints job)) now s
          | _ \<Rightarrow> s);
          blocked = isBlocked (j_id job) s1
      in snd (requeueReady (j_id job) ''orchestrator''
           (if blocked then None else Some (computeWaitingDeferUntil blocked now))
           (Some ''Worker requested waiting'') now s1))"

text \<open>
  The retry policy of a job, \<^verbatim>\<open>hints.retry\<close>. Its fields, where given, are numbers and a list of error codes (a value of another
  type, which JavaScript would convert, is read as not given), and the back-off, a floating-point number in the code, is an exact
  rational; \<open>Some\<close> delay (in seconds) when the failed attempt is to be repeated. The error code of a failure is the execution type
  with \<^verbatim>\<open>_failed\<close> behind it, which contains neither \<^verbatim>\<open>timeout\<close> nor \<^verbatim>\<open>stale\<close>.
\<close>

definition number_or :: "rat \<Rightarrow> json option \<Rightarrow> rat" where
  "number_or d v = (case v of Some (JNum n) \<Rightarrow> n | _ \<Rightarrow> d)"

definition error_code_of :: "job \<Rightarrow> string" where
  "error_code_of job = execution_type_name (j_execution_type job) @ ''_failed''"

definition retry_delay :: "job \<Rightarrow> attempt \<Rightarrow> rat option" where
  "retry_delay job att =
     (case obj_get (j_hints job) ''retry'' of
        None \<Rightarrow> None
      | Some policy \<Rightarrow>
          if json_truthy (Some policy) \<and> of_int (a_attempt_number att) < number_or 1 (json_get policy ''max_attempts'') \<and>
             (case json_get policy ''retryable_errors'' of
                Some (JArr codes) \<Rightarrow> error_code_of job \<in> set (strings_of codes)
              | _ \<Rightarrow> True)
          then Some (number_or 60 (json_get policy ''backoff_seconds'') *
                 number_or 2 (json_get policy ''backoff_multiplier'') ^ nat (a_attempt_number att - 1))
          else None)"

text \<open>\<^verbatim>\<open>new Date(ms)\<close> drops the fraction; a time beyond 100 million days is invalid and cannot be sent.\<close>

definition js_date :: "rat \<Rightarrow> timestamp option" where
  "js_date ms =
     (let t = (if 0 \<le> ms then \<lfloor>ms\<rfloor> else \<lceil>ms\<rceil>) in if \<bar>t\<bar> \<le> 8640000000000000 then Some t else None)"

definition finish_failed ::
  "ext \<Rightarrow> job \<Rightarrow> attempt \<Rightarrow> harness_result \<Rightarrow> timestamp \<Rightarrow> world \<Rightarrow> world" where
  "finish_failed x job att result now w =
     (let w1 = w\<lparr>store := snd (failJob (j_id job) (hr_error result) now (store w))\<rparr>;
          w2 = emitJobFailureEvent x job (j_labels job) (a_id att) (or_default ''Worker failed'' (hr_error result))
                 (error_code_of job) (Some (hr_exitCode result)) now w1;
          w3 = emitJobAttemptCompletedEvent x job (a_id att) False (hr_durationMs result) now w2
      in w3\<lparr>store := cancelStagedBacklogChildren job ''Parent failed without promotion'' now (store w3)\<rparr>)"

definition retry_reason :: "attempt \<Rightarrow> harness_result \<Rightarrow> string \<Rightarrow> string" where
  "retry_reason att result delay_text =
     ''Auto-retry #'' @ show_int (a_attempt_number att + 1) @ '' after '' @ or_default ''failure'' (hr_error result) @
     '' (backoff: '' @ delay_text @ ''s)''"

text \<open>\<open>num_text\<close> prints a number, as string interpolation does.\<close>

definition finalizeJobResult ::
  "(rat \<Rightarrow> string) \<Rightarrow> ext \<Rightarrow> job \<Rightarrow> attempt \<Rightarrow> harness_result \<Rightarrow> eve_control \<Rightarrow> control_status \<Rightarrow> attempt \<Rightarrow>
    timestamp \<Rightarrow> world \<Rightarrow> (exn + bool \<times> string option) \<times> world" where
  "finalizeJobResult num_text x job att result ctl outcome completedAttempt now w =
     (let w1 = tryPersistAttemptReceipt x job completedAttempt w;
          w2 = tryChargeForReceipt x job completedAttempt now w1;
          w3 = w2\<lparr>store := relayToCoordinationThread x job (ec_summary ctl) now
                  (updatePipelineStepOutputs job (hr_resultJson result) now (store w2))\<rparr>
      in if outcome = CtlPrepared \<and> obj_get (j_hints job) ''staged'' = Some (JBool True) then
           (Inr (True, None), w3\<lparr>store := promote_staged job now (store w3)\<rparr>)
         else if outcome = CtlWaiting then
           (Inr (True, None), w3\<lparr>store := requeue_waiting job ctl now (store w3)\<rparr>)
         else if outcome = CtlSuccess then
           (let s4 = (case Option.bind (getLatestAttempt (j_id job) (store w3)) a_git_json of
                  None \<Rightarrow> store w3
                | Some g \<Rightarrow> updateResolvedGit (j_id job) g now (store w3))
            in case markJobDone (j_id job) None now s4 of
                 (Inl e, s5) \<Rightarrow> (Inl e, w3\<lparr>store := s5\<rparr>)
               | (Inr _, s5) \<Rightarrow>
                   let w6 = emitJobAttemptCompletedEvent x job (a_id att) True (hr_durationMs result) now (w3\<lparr>store := s5\<rparr>)
                   in (Inr (True, None),
                       w6\<lparr>store := cancelStagedBacklogChildren job ''Parent completed without promotion'' now (store w6)\<rparr>))
         else
           (case retry_delay job att of
              Some delaySec \<Rightarrow>
                (case js_date (of_int now + delaySec * 1000) of
                   None \<Rightarrow> (Inl (Error ''Invalid time value''), w3)
                 | Some deferUntil \<Rightarrow>
                     (Inr (False, Some (or_default ''Worker failed'' (hr_error result))),
                      w3\<lparr>store := snd (requeueReady (j_id job) ''orchestrator'' (Some (Some deferUntil))
                        (Some (retry_reason att result (num_text delaySec))) now (store w3))\<rparr>))
            | None \<Rightarrow>
                (Inr (False, Some (or_default ''Worker failed'' (hr_error result))),
                 finish_failed x job att result now w3)))"

subsection \<open>The error path and the cleanup\<close>

definition handleProcessJobError ::
  "ext \<Rightarrow> job \<Rightarrow> attempt \<Rightarrow> string \<Rightarrow> timestamp \<Rightarrow> world \<Rightarrow> (bool \<times> string option) \<times> world" where
  "handleProcessJobError x job att errMsg now w =
     (let (done_row, s1) = completeAttempt (a_id att) AttFailed
            (no_result\<lparr>ar_exitCode := Some 1, ar_errorMessage := Some errMsg\<rparr>) now (store w);
          w1 = w\<lparr>store := s1\<rparr>;
          give_up = (\<lambda>w.
            let w1 = w\<lparr>store := snd (failJob (j_id job) (Some errMsg) now (store w))\<rparr>;
                w2 = emitJobFailureEvent x job (j_labels job) (a_id att) errMsg ''orchestrator_error'' (Some 1) now w1;
                w3 = emitJobAttemptCompletedEvent x job (a_id att) False None now w2
            in ((False, Some errMsg),
                w3\<lparr>store := cancelStagedBacklogChildren job ''Parent failed (orchestrator error)'' now (store w3)\<rparr>))
      in case done_row of
           Some row \<Rightarrow>
             give_up (tryChargeForReceipt x job row now (tryPersistAttemptReceipt x job row w1))
         | None \<Rightarrow>
             (case findById (j_id job) (store w1) of
                Some j \<Rightarrow> if terminal_phase (j_phase j) then ((j_phase j = Done, None), w1) else give_up w1
              | None \<Rightarrow> give_up w1))"

definition releaseJobResources ::
  "ext \<Rightarrow> job \<Rightarrow> string list \<Rightarrow> (bool \<times> string option) option \<Rightarrow> timestamp \<Rightarrow> world \<Rightarrow> world" where
  "releaseJobResources x job requiredGates ended now w =
     (let w1 = (if requiredGates = [] then w else w\<lparr>store := snd (releaseGates (j_id job) None (store w))\<rparr>)
      in case ended of
           None \<Rightarrow> w1
         | Some (ok, msg) \<Rightarrow>
             let w2 = (case j_run_id job of
                   Some r \<Rightarrow> if r = [] then w1 else syncPipelineRunStatus x r now w1
                 | None \<Rightarrow> w1);
                 w3 = syncIngestRecordStatus (j_id job) (j_hints job) ok msg now w2
             in (case j_parent_id job of
                   Some p \<Rightarrow> if p = [] then w3 else tryCloseWorkflowRoot p now w3
                 | None \<Rightarrow> w3))"

record setting =
  y_num_text :: "rat \<Rightarrow> string"
  y_db_text :: "db_error \<Rightarrow> string"
  y_gate_others :: "nat \<Rightarrow> db \<Rightarrow> db"
  y_others :: "world \<Rightarrow> world"

definition processJob ::
  "setting \<Rightarrow> ext \<Rightarrow> job \<Rightarrow> attempt \<Rightarrow> (string + harness_result) \<Rightarrow> timestamp \<Rightarrow> world \<Rightarrow> world" where
  "processJob y x job att answer now w =
     (let requiredGates = resolveRequiredJobGates job;
          cleanup = (\<lambda>(ended, w). releaseJobResources x job requiredGates ended now w);
          recover = (\<lambda>e w. apfst Some (handleProcessJobError x job att (exn_message (y_db_text y) e) now w))
      in case acquireJobGates (y_gate_others y) job att requiredGates now (store w) of
           (Inl e, s1) \<Rightarrow> cleanup (recover (Db_error e) (w\<lparr>store := s1\<rparr>))
         | (Inr False, s1) \<Rightarrow> cleanup (None, w\<lparr>store := s1\<rparr>)
         | (Inr True, s1) \<Rightarrow>
             (case dispatchAndAwait x job att answer (y_others y) now (w\<lparr>store := s1\<rparr>) of
                (Inl e, w2) \<Rightarrow> cleanup (recover e w2)
              | (Inr (Externally_finalized ok msg), w2) \<Rightarrow> cleanup (Some (ok, msg), w2)
              | (Inr (Completed result ctl outcome row), w2) \<Rightarrow>
                  (case finalizeJobResult (y_num_text y) x job att result ctl outcome row now w2 of
                     (Inl e, w3) \<Rightarrow> cleanup (recover e w3)
                   | (Inr r, w3) \<Rightarrow> cleanup (Some r, w3))))"

end
