(* ===== verification/Recovery.thy ===== *)
theory Recovery
  imports Job_Process
begin

section \<open>Recovery sweeps and the tick\<close>

text \<open>
  \<^verbatim>\<open>apps/orchestrator/src/loop/recovery.service.ts\<close>, \<^verbatim>\<open>recoverCompletedAttempts\<close> and \<^verbatim>\<open>tick\<close> of
  \<^verbatim>\<open>loop.service.ts\<close>. A sweep selects its rows with one query and handles them one by one; the error of
  a query ends the sweep and, inside a tick, the tick. Environment variables are arguments.
\<close>

definition readPositiveInt :: "string option \<Rightarrow> int \<Rightarrow> int" where
  "readPositiveInt v fallback =
     (case parse_int (or_default [] v) of None \<Rightarrow> fallback | Some n \<Rightarrow> if 0 < n then n else fallback)"

subsection \<open>Health of an attempt\<close>

datatype health = Healthy | Stale string string

definition elapsed_seconds :: "timestamp \<Rightarrow> timestamp \<Rightarrow> int" where
  "elapsed_seconds since now = (now - since) div 1000"

definition evaluateRunningAttemptHealth ::
  "timestamp \<Rightarrow> timestamp \<Rightarrow> int \<Rightarrow> int \<Rightarrow> int \<Rightarrow> int \<Rightarrow> timestamp \<Rightarrow> health" where
  "evaluateRunningAttemptHealth startedAt lastLogAt timeoutSeconds timeoutGraceSeconds staleRunningSeconds
      staleIdleSeconds now =
     (let elapsedSeconds = elapsed_seconds startedAt now;
          idleSeconds = elapsed_seconds lastLogAt now;
          timeoutLimit = max 1 timeoutSeconds + max 0 timeoutGraceSeconds
      in if timeoutLimit \<le> elapsedSeconds then
           Stale (''Attempt timed out ('' @ show_int elapsedSeconds @ ''s >= '' @ show_int timeoutLimit @ ''s)'')
             ''attempt_timeout''
         else if 0 < staleRunningSeconds \<and> staleRunningSeconds \<le> elapsedSeconds \<and> max 1 staleIdleSeconds \<le> idleSeconds then
           Stale (''Attempt made no progress for '' @ show_int idleSeconds @ ''s after '' @ show_int elapsedSeconds
             @ ''s runtime'') ''attempt_stale''
         else Healthy)"

definition evaluateAttemptInitHealth :: "timestamp \<Rightarrow> int \<Rightarrow> timestamp \<Rightarrow> health" where
  "evaluateAttemptInitHealth startedAt initTimeoutSeconds now =
     (let elapsedSeconds = elapsed_seconds startedAt now; timeoutLimit = max 1 initTimeoutSeconds
      in if timeoutLimit \<le> elapsedSeconds then
           Stale (''Attempt did not reach runtime acceptance within '' @ show_int timeoutLimit @ ''s of claim (''
             @ show_int elapsedSeconds @ ''s elapsed)'') ''attempt_init_timeout''
         else Healthy)"

definition evaluateAttemptStartupHealth :: "timestamp \<Rightarrow> int \<Rightarrow> timestamp \<Rightarrow> health" where
  "evaluateAttemptStartupHealth executionStartedAt startupTimeoutSeconds now =
     (let elapsedSeconds = elapsed_seconds executionStartedAt now; timeoutLimit = max 1 startupTimeoutSeconds
      in if timeoutLimit \<le> elapsedSeconds then
           Stale (''Attempt did not start the harness within '' @ show_int timeoutLimit
             @ ''s of runtime acceptance ('' @ show_int elapsedSeconds @ ''s elapsed)'') ''attempt_startup_timeout''
         else Healthy)"

subsection \<open>Jobs left behind by a restart\<close>

definition running_attempts :: "string \<Rightarrow> db \<Rightarrow> attempt list" where
  "running_attempts jobId s = filter (\<lambda>a. a_status a = AttRunning) (attempts_of jobId s)"

definition completion_log :: "execution_log \<Rightarrow> bool" where
  "completion_log l = (e_type l = ''system'' \<and> obj_get (e_content l) ''event'' = Some (JStr ''completed''))"

definition has_completion :: "string \<Rightarrow> db \<Rightarrow> bool" where
  "has_completion attemptId s = exists_row completion_log (logs_of attemptId s)"

fun fail_orphans :: "attempt list \<Rightarrow> timestamp \<Rightarrow> db \<Rightarrow> db" where
  "fail_orphans [] now s = s"
| "fail_orphans (a # as) now s =
     fail_orphans as now (snd (completeAttempt (a_id a) AttFailed (no_result\<lparr>ar_exitCode := Some 1,
       ar_errorMessage := Some ''Orchestrator restarted while attempt was running''\<rparr>) now s))"

text \<open>\<open>cutoff\<close> is \<open>None\<close> when the setting is not a number: every comparison with it is false.\<close>

definition recover_orphan :: "timestamp option \<Rightarrow> timestamp \<Rightarrow> db \<Rightarrow> job \<Rightarrow> db" where
  "recover_orphan cutoff now s job =
     (let runningRows = running_attempts (j_id job) s;
          stale = filter (\<lambda>a. case cutoff of None \<Rightarrow> False | Some c \<Rightarrow> a_started_at a < c) runningRows;
          fresh = filter (\<lambda>a. case cutoff of None \<Rightarrow> False | Some c \<Rightarrow> c \<le> a_started_at a) runningRows
      in if length stale < length runningRows \<and> \<not> list_ex (\<lambda>a. has_completion (a_id a) s) fresh then s
         else
           let s1 = fail_orphans stale now s;
               s2 = (if length runningRows = length stale then
                       update_jobs (\<lambda>j. j_id j = j_id job) (back_to_ready now) s1 else s1)
           in snd (releaseGates (j_id job) None s2))"

fun orphan_candidates :: "job list \<Rightarrow> db_error + job list" where
  "orphan_candidates [] = Inr []"
| "orphan_candidates (j # js) =
     (if j_phase j \<noteq> Active then orphan_candidates js
      else case sql_boolean (obj_get (j_hints j) ''supervising'') of
          Inl e \<Rightarrow> Inl e
        | Inr b \<Rightarrow> if b = Some True then orphan_candidates js else map_sum id ((#) j) (orphan_candidates js))"

definition recoverOrphanedJobs :: "string option \<Rightarrow> timestamp \<Rightarrow> db \<Rightarrow> db_error + db" where
  "recoverOrphanedJobs stale_minutes now s =
     (let cutoff = map_option (\<lambda>m. now - max 1 m * 60000) (parse_int (or_default ''5'' stale_minutes))
      in map_sum id (foldl (recover_orphan cutoff now) s) (orphan_candidates (jobs s)))"

subsection \<open>Watchdogs\<close>

definition release_dispatch :: "string \<Rightarrow> world \<Rightarrow> world" where
  "release_dispatch jobId w = w\<lparr>proc := releaseInFlightDispatchForWatchdog jobId (proc w)\<rparr>"

definition close_parent :: "job \<Rightarrow> timestamp \<Rightarrow> world \<Rightarrow> world" where
  "close_parent job now w =
     (case j_parent_id job of
        Some p \<Rightarrow> if p = [] then w else tryCloseWorkflowRoot p now w
      | None \<Rightarrow> w)"

definition failRunningAttemptFromWatchdog ::
  "ext \<Rightarrow> attempt \<times> job \<Rightarrow> string \<Rightarrow> string \<Rightarrow> timestamp \<Rightarrow> world \<Rightarrow> world" where
  "failRunningAttemptFromWatchdog x c reason errorCode now w =
     (let (att, job) = c;
          errorMessage = ''Watchdog: '' @ reason;
          w0 = release_dispatch (j_id job) w;
          (done_row, s1) = completeAttempt (a_id att) AttFailed (no_result\<lparr>ar_exitCode := Some 1,
            ar_errorMessage := Some errorMessage, ar_resultJson := Some [(''error_code'', JStr errorCode)]\<rparr>) now (store w0)
      in case done_row of
           None \<Rightarrow> w0\<lparr>store := s1\<rparr>
         | Some _ \<Rightarrow>
             let (failed, s2) = failJob (j_id job) (Some errorMessage) now s1;
                 w2 = w0\<lparr>store := s2\<rparr>;
                 w3 = (case failed of
                     Some j \<Rightarrow> emitJobFailureEvent x j [] (a_id att) errorMessage errorCode (Some 1) now w2
                   | None \<Rightarrow> w2);
                 w4 = w3\<lparr>store := snd (releaseGates (j_id job) None (store w3))\<rparr>
             in close_parent job now w4)"

definition running_pairs :: "db \<Rightarrow> (attempt \<times> job) list" where
  "running_pairs s =
     concat (map (\<lambda>a. map (\<lambda>j. (a, j)) (filter (\<lambda>j. j_id j = a_job_id a \<and> j_phase j = Active) (jobs s)))
       (filter (\<lambda>a. a_status a = AttRunning) (job_attempts s)))"

definition watchdog :: "ext \<Rightarrow> timestamp \<Rightarrow> world \<Rightarrow> (attempt \<times> job) \<times> health \<Rightarrow> world" where
  "watchdog x now w c =
     (case snd c of
        Healthy \<Rightarrow> w
      | Stale reason errorCode \<Rightarrow> failRunningAttemptFromWatchdog x (fst c) reason errorCode now w)"

definition recoverAttemptInitTimeouts :: "string option \<Rightarrow> ext \<Rightarrow> timestamp \<Rightarrow> world \<Rightarrow> world" where
  "recoverAttemptInitTimeouts setting x now w =
     (let secs = readPositiveInt setting 300;
          rows = filter (\<lambda>(a, j). a_execution_started_at a = None \<and> a_started_at a < now - secs * 1000)
            (running_pairs (store w))
      in foldl (watchdog x now) w (map (\<lambda>(a, j). ((a, j), evaluateAttemptInitHealth (a_started_at a) secs now)) rows))"

definition recoverAttemptStartupTimeouts :: "string option \<Rightarrow> ext \<Rightarrow> timestamp \<Rightarrow> world \<Rightarrow> world" where
  "recoverAttemptStartupTimeouts setting x now w =
     (let secs = readPositiveInt setting 600;
          rows = filter (\<lambda>(a, j). j_execution_type j = ExecAgent \<and>
              (case a_execution_started_at a of None \<Rightarrow> False | Some t \<Rightarrow> t < now - secs * 1000) \<and>
              \<not> exists_row (\<lambda>l. e_type l = ''lifecycle_harness_start'') (logs_of (a_id a) (store w)))
            (running_pairs (store w))
      in foldl (watchdog x now) w
           (map (\<lambda>(a, j). ((a, j), evaluateAttemptStartupHealth (the (a_execution_started_at a)) secs now)) rows))"

definition last_log_at :: "db \<Rightarrow> attempt \<Rightarrow> timestamp" where
  "last_log_at s a =
     (case map e_created_at (logs_of (a_id a) s) of [] \<Rightarrow> a_started_at a | t # ts \<Rightarrow> fold max ts t)"

fun running_health ::
  "int \<Rightarrow> int \<Rightarrow> int \<Rightarrow> timestamp \<Rightarrow> db \<Rightarrow> (attempt \<times> job) list \<Rightarrow> db_error + ((attempt \<times> job) \<times> health) list" where
  "running_health grace run idle now s [] = Inr []"
| "running_health grace run idle now s ((a, j) # cs) =
     (case sql_int_or 1800 (obj_get (j_hints j) ''timeout_seconds'') of
        Inl e \<Rightarrow> Inl e
      | Inr secs \<Rightarrow>
          map_sum id ((#) ((a, j), evaluateRunningAttemptHealth (a_started_at a) (last_log_at s a) secs grace run idle now))
            (running_health grace run idle now s cs))"

record stale_settings =
  ss_running :: "string option"
  ss_idle :: "string option"
  ss_grace :: "string option"

definition recoverStaleRunningAttempts ::
  "stale_settings \<Rightarrow> ext \<Rightarrow> timestamp \<Rightarrow> world \<Rightarrow> (db_error + unit) \<times> world" where
  "recoverStaleRunningAttempts ss x now w =
     (let run = readPositiveInt (ss_running ss) 900;
          idle = readPositiveInt (ss_idle ss) run;
          grace = readPositiveInt (ss_grace ss) 30
      in case running_health grace run idle now (store w) (running_pairs (store w)) of
           Inl e \<Rightarrow> (Inl e, w)
         | Inr cs \<Rightarrow> (Inr (), foldl (watchdog x now) w cs))"

definition stuck_job :: "int \<Rightarrow> timestamp \<Rightarrow> db \<Rightarrow> job \<Rightarrow> bool" where
  "stuck_job graceSeconds now s j =
     (j_phase j = Active \<and> running_attempts (j_id j) s = [] \<and>
      (case Option.bind (getLatestAttempt (j_id j) s) a_ended_at of
         None \<Rightarrow> False | Some t \<Rightarrow> t < now - graceSeconds * 1000))"

definition recover_stuck :: "ext \<Rightarrow> timestamp \<Rightarrow> world \<Rightarrow> job \<times> attempt option \<Rightarrow> world" where
  "recover_stuck x now w c =
     (let (job, latest) = c;
          w0 = release_dispatch (j_id job) w;
          errorMessage = or_default ''Active job with no running attempts (pod terminated or attempt externally failed)''
            (Option.bind latest a_error_message);
          (failed, s1) = failJob (j_id job) (Some errorMessage) now (store w0);
          w1 = w0\<lparr>store := s1\<rparr>;
          w2 = (case failed of
              Some j \<Rightarrow> emitJobFailureEvent x j [] (or_default ''unknown'' (map_option a_id latest)) errorMessage
                ''orphaned_active_job'' (Some (or_default 1 (Option.bind latest a_exit_code))) now w1
            | None \<Rightarrow> w1);
          w3 = w2\<lparr>store := snd (releaseGates (j_id job) None (store w2))\<rparr>;
          w4 = syncIngestRecordStatus (j_id job) (j_hints job) False (Some errorMessage) now w3
      in close_parent job now w4)"

definition recoverActiveJobsWithTerminatedAttempts :: "string option \<Rightarrow> ext \<Rightarrow> timestamp \<Rightarrow> world \<Rightarrow> world" where
  "recoverActiveJobsWithTerminatedAttempts setting x now w =
     foldl (recover_stuck x now) w
       (map (\<lambda>j. (j, getLatestAttempt (j_id j) (store w)))
         (filter (stuck_job (readPositiveInt setting 30) now (store w)) (jobs (store w))))"

subsection \<open>Attempts that finished without their dispatch\<close>

definition sql_int :: "json option \<Rightarrow> db_error + int option" where
  "sql_int v =
     (let range = (\<lambda>n. if - 2147483648 \<le> n \<and> n \<le> 2147483647 then Inr (Some n) else Inl Numeric_out_of_range)
      in case v of
           None \<Rightarrow> Inr None
         | Some JNull \<Rightarrow> Inr None
         | Some (JNum n) \<Rightarrow> if n = of_int \<lfloor>n\<rfloor> then range \<lfloor>n\<rfloor> else Inl Invalid_text_representation
         | Some (JStr t) \<Rightarrow>
             (let u = js_trim t; neg = starts_with ''-'' u;
                  ds = (if neg \<or> starts_with ''+'' u then drop 1 u else u)
              in case read_nat ds of
                   None \<Rightarrow> Inl Invalid_text_representation
                 | Some n \<Rightarrow> range (if neg then - int n else int n))
         | _ \<Rightarrow> Inl Invalid_text_representation)"

text \<open>\<^verbatim>\<open>(content->>'resultJson')::jsonb\<close>; of the value only an object matters.\<close>

definition sql_result_json :: "json option \<Rightarrow> db_error + jobject option" where
  "sql_result_json v =
     (case v of
        Some (JObj o') \<Rightarrow> Inr (Some o')
      | Some (JStr t) \<Rightarrow>
          (case json_parse t of
             None \<Rightarrow> Inl Invalid_text_representation
           | Some (JObj o') \<Rightarrow> Inr (Some o')
           | Some _ \<Rightarrow> Inr None)
      | _ \<Rightarrow> Inr None)"

record completed_row =
  cr_attempt :: attempt
  cr_exit_code :: "int option"
  cr_duration_ms :: "int option"
  cr_result_json :: "jobject option"

definition completed_row_of :: "attempt \<Rightarrow> execution_log \<Rightarrow> db_error + completed_row" where
  "completed_row_of a l =
     (case (sql_int (obj_get (e_content l) ''exitCode''), sql_int (obj_get (e_content l) ''durationMs''),
            sql_result_json (obj_get (e_content l) ''resultJson'')) of
        (Inr ec, Inr d, Inr r) \<Rightarrow> Inr \<lparr>cr_attempt = a, cr_exit_code = ec, cr_duration_ms = d, cr_result_json = r\<rparr>
      | (Inl e, _, _) \<Rightarrow> Inl e
      | (_, Inl e, _) \<Rightarrow> Inl e
      | (_, _, Inl e) \<Rightarrow> Inl e)"

fun completed_rows :: "db \<Rightarrow> (attempt \<times> job) list \<Rightarrow> db_error + completed_row list" where
  "completed_rows s [] = Inr []"
| "completed_rows s ((a, j) # cs) =
     (case first_row (order_by (\<lambda>l. - e_seq l) (filter completion_log (logs_of (a_id a) s))) of
        None \<Rightarrow> completed_rows s cs
      | Some l \<Rightarrow>
          (case completed_row_of a l of
             Inl e \<Rightarrow> Inl e
           | Inr row \<Rightarrow> map_sum id ((#) row) (completed_rows s cs)))"

definition finish_completed :: "ext \<Rightarrow> timestamp \<Rightarrow> completed_row \<Rightarrow> world \<Rightarrow> world" where
  "finish_completed x now r w =
     (let att = cr_attempt r; jobId = a_job_id att;
          exitCode = or_default 1 (cr_exit_code r);
          outcome = resolveOrchestrationOutcome (exitCode = 0) (ec_status (extractEveControl (cr_result_json r)));
          errorMessage = (if outcome = CtlFailed then
             Some (''Recovered attempt '' @ a_id att @ '' with exit code '' @ show_int exitCode) else None);
          (done_row, s1) = completeAttempt (a_id att) (attempt_status_of outcome)
            (no_result\<lparr>ar_exitCode := Some exitCode, ar_durationMs := cr_duration_ms r, ar_errorMessage := errorMessage\<rparr>)
            now (store w);
          w1 = w\<lparr>store := s1\<rparr>
      in case done_row of
           None \<Rightarrow> w1
         | Some row \<Rightarrow>
             let job = findById jobId (store w1);
                 w2 = (case job of
                     Some j \<Rightarrow> tryChargeForReceipt x j row now (tryPersistAttemptReceipt x j row w1)
                   | None \<Rightarrow> w1);
                 after = (\<lambda>w3.
                   let w4 = w3\<lparr>store := snd (releaseGates jobId None (store w3))\<rparr>
                   in (case job of
                         Some j \<Rightarrow> if outcome = CtlWaiting then w4 else close_parent j now w4
                       | None \<Rightarrow> w4))
             in if outcome = CtlSuccess then
                  (case markJobDone jobId None now (store w2) of
                     (Inl _, s3) \<Rightarrow> w2\<lparr>store := s3\<rparr>
                   | (Inr _, s3) \<Rightarrow> after (w2\<lparr>store := s3\<rparr>))
                else if outcome = CtlWaiting then after w2
                else after (w2\<lparr>store := snd (failJob jobId
                  (Some (or_default ''Recovered failed attempt'' errorMessage)) now (store w2))\<rparr>))"

definition recover_completed :: "ext \<Rightarrow> timestamp \<Rightarrow> world \<Rightarrow> completed_row \<Rightarrow> world" where
  "recover_completed x now w r =
     (let jobId = a_job_id (cr_attempt r)
      in case map_of (inFlightJobs (proc w)) jobId of
           None \<Rightarrow> finish_completed x now r w
         | Some dispatchStart \<Rightarrow>
             if now - dispatchStart < 30000 then w
             else
               let p1 = (proc w)\<lparr>inFlightJobs := map_delete jobId (inFlightJobs (proc w))\<rparr>
               in (case release_slot (lim p1) of
                     Inl _ \<Rightarrow> w\<lparr>proc := p1\<rparr>
                   | Inr l \<Rightarrow> finish_completed x now r (w\<lparr>proc := p1\<lparr>lim := l\<rparr>\<rparr>)))"

definition recoverCompletedAttempts :: "ext \<Rightarrow> timestamp \<Rightarrow> world \<Rightarrow> (db_error + unit) \<times> world" where
  "recoverCompletedAttempts x now w =
     (case completed_rows (store w) (running_pairs (store w)) of
        Inl e \<Rightarrow> (Inl e, w)
      | Inr rows \<Rightarrow> (Inr (), foldl (recover_completed x now) w rows))"

subsection \<open>The tick\<close>

record tick_settings =
  ts_recovery :: "string option"
  ts_stale_recovery :: "string option"
  ts_init :: "string option"
  ts_startup :: "string option"
  ts_stale :: stale_settings
  ts_terminated :: "string option"
  ts_reconcile_ticks :: int
  ts_wake_ticks :: int

text \<open>
  \<^verbatim>\<open>parseInt(v ?? '1', 10)\<close>, \<^verbatim>\<open>interval > 0\<close> and the test of the tick count; not a number never runs.
\<close>

definition due :: "string option \<Rightarrow> int \<Rightarrow> bool" where
  "due v tickCount =
     (case parse_int (or_default ''1'' v) of None \<Rightarrow> False | Some n \<Rightarrow> 0 < n \<and> tickCount mod max 1 n = 0)"

text \<open>What a dispatch does before its first await.\<close>

definition start_dispatch :: "timestamp \<Rightarrow> orch \<Rightarrow> dispatched \<Rightarrow> orch" where
  "start_dispatch now p d =
     (case d of DJob i \<Rightarrow> dispatchJob_start i now p | DPipeline _ \<Rightarrow> p\<lparr>pipelines := pipelines p + 1\<rparr>)"

text \<open>The claims of the tick when nothing else runs meanwhile.\<close>

definition db_claim :: "(world \<Rightarrow> (unit + string option) \<times> world) \<Rightarrow> world tick_state \<Rightarrow> (unit + string option) \<times> world tick_state" where
  "db_claim f s = (case f (lp_world s) of (r, w) \<Rightarrow> (r, s\<lparr>lp_world := w\<rparr>))"

definition loop_claims :: "ext \<Rightarrow> timestamp \<Rightarrow> world claims" where
  "loop_claims x now =
     \<lparr>cl_pipeline = db_claim (\<lambda>w. case claimNextPipelineRun now (store w) of (r, s) \<Rightarrow> (Inr (map_option pr_id r), w\<lparr>store := s\<rparr>)),
      cl_job = db_claim (\<lambda>w. case claimNextJobWithBudgetCheck x now w of
          (Inl _, w1) \<Rightarrow> (Inl (), w1)
        | (Inr r, w1) \<Rightarrow> (Inr (map_option (j_id \<circ> fst) r), w1)),
      cl_assigned = db_claim (\<lambda>w. case claimNextAssignedJobWithBudgetCheck x now w of
          (Inl _, w1) \<Rightarrow> (Inl (), w1)
        | (Inr r, w1) \<Rightarrow> (Inr (map_option (j_id \<circ> fst) r), w1)),
      cl_dispatch = (\<lambda>d w. w\<lparr>proc := start_dispatch now (proc w) d\<rparr>)\<rparr>"

definition tick_sweeps :: "tick_settings \<Rightarrow> ext \<Rightarrow> int \<Rightarrow> timestamp \<Rightarrow> world \<Rightarrow> (db_error + unit) \<times> world" where
  "tick_sweeps ts x tickCount now w =
     (case (if due (ts_recovery ts) tickCount then recoverCompletedAttempts x now w else (Inr (), w)) of
        (Inl e, w1) \<Rightarrow> (Inl e, w1)
      | (Inr _, w1) \<Rightarrow>
          (case (if due (ts_stale_recovery ts) tickCount
                 then recoverStaleRunningAttempts (ts_stale ts) x now
                        (recoverAttemptStartupTimeouts (ts_startup ts) x now (recoverAttemptInitTimeouts (ts_init ts) x now w1))
                 else (Inr (), w1)) of
             (Inl e, w2) \<Rightarrow> (Inl e, w2)
           | (Inr _, w2) \<Rightarrow>
               let w3 = (if due (ts_stale_recovery ts) tickCount
                         then recoverActiveJobsWithTerminatedAttempts (ts_terminated ts) x now (sweepZombieWorkflowRoots now w2)
                         else w2);
                   w4 = (if tickCount mod ts_reconcile_ticks ts = 0 then reconcileOrphanedPipelineRuns x now w3 else w3);
                   w5 = (if tickCount mod ts_wake_ticks ts = 0
                         then w4\<lparr>store := processWakeOnConditions now (store w4)\<rparr> else w4)
               in (Inr (), w5)))"

text \<open>
  The tick alone: \<open>None\<close> when it does not return, and \<open>None\<close> in the first component when it threw before it dispatched
  anything.
\<close>

definition tick ::
  "tick_settings \<Rightarrow> ext \<Rightarrow> bool \<Rightarrow> int \<Rightarrow> timestamp \<Rightarrow> world \<Rightarrow> ((dispatched list \<times> tick_end) option \<times> world) option" where
  "tick ts x stopping tickCount now w =
     (case tick_sweeps ts x tickCount now w of
        (Inl _, w1) \<Rightarrow> Some (None, w1)
      | (Inr _, w1) \<Rightarrow>
          if stopping then Some (Some ([], Condition_false), w1)
          else
            Option.bind (tick_loop (loop_claims x now) \<lparr>lp_lim = lim (proc w1), lp_stopping = stopping, lp_world = w1\<rparr>)
              (\<lambda>(ds, e, s). Some (Some (ds, e),
                (lp_world s)\<lparr>proc := (proc (lp_world s))\<lparr>lim := lp_lim s, lost := lost (proc (lp_world s)) + (if e = Threw then 1 else 0)\<rparr>\<rparr>)))"

lemma loop_claims_alone: "keeps_limiter (loop_claims x now)"
  by (auto simp: keeps_limiter_def claim_set_def loop_claims_def db_claim_def split: prod.splits)

lemma tick_returns:
  assumes "0 \<le> inFlight (lim (proc (snd (tick_sweeps ts x tickCount now w))))"
  shows "tick ts x stopping tickCount now w \<noteq> None"
proof (cases "tick_sweeps ts x tickCount now w")
  case (Pair r w1)
  let ?s = "\<lparr>lp_lim = lim (proc w1), lp_stopping = stopping, lp_world = w1\<rparr>"
  have "tick_loop (loop_claims x now) ?s \<noteq> None"
    using assms by (intro tick_loop_alone [OF loop_claims_alone]) (simp add: Pair)
  then show ?thesis by (cases r) (auto simp: tick_def Pair split: prod.splits)
qed

end
