(* ===== verification/Ledger_Properties.thy ===== *)
theory Ledger_Properties
  imports Loop_Store
begin

section \<open>Properties of the ledger, the event log and pipeline runs\<close>

text \<open>Properties of the balance ledger: the books balance through every run, a source is booked once, and what the loop charges.\<close>

text \<open>An empty world with one project and one organisation, for the examples.\<close>

definition ex_limiter :: limiter where
  "ex_limiter = \<lparr>inFlight = 0, limit = 2\<rparr>"

definition ex_world :: world where
  "ex_world = \<lparr>store = \<lparr>jobs = [], job_attempts = [], job_relations = [], job_gates = [], audit_log = [],
       projects = [\<lparr>p_id = ''p1'', p_slug = ''demo'', p_org_id = ''o1''\<rparr>],
       pipeline_runs = [], pipeline_step_runs = [], execution_logs = [], thread_messages = []\<rparr>,
     events = [], ingest_records = [], org_ids = [''o1''], org_balances = [], balance_transactions = [],
     proc = idle_orch ex_limiter\<rparr>"

definition ex_input :: "string \<Rightarrow> string \<Rightarrow> rat \<Rightarrow> string \<Rightarrow> tx_input" where
  "ex_input i type amount source =
     \<lparr>ti_id = i, ti_org_id = ''o1'', ti_type = type, ti_amount = amount, ti_currency = ''USD'', ti_description = None,
      ti_source_type = ''payment'', ti_source_id = source\<rparr>"

text \<open>
C14: The books balance. Through every sequence of calls of \<^verbatim>\<open>ensureBalance\<close> and \<^verbatim>\<open>createTransaction\<close>, also of
transactions that run after a check of another client, from an empty ledger, each balance is the sum of
the signed amounts of its organisation's transactions and the difference of the two lifetime sums, all
transactions are in the currency of the balance, and no source is booked twice.
\<close>

theorem books_always_balance:
  assumes "org_balances w = []" "balance_transactions w = []" "ledger_step\<^sup>*\<^sup>* w w'"
  shows "books_balance w'"
proof (rule ledger_run.run_keeps [OF assms(3)])
  show "books_balance w" using assms(1,2) by (simp add: books_balance_def)
qed

theorem books_always_balance_witness:
  "let w = snd (createTransaction (ex_input ''t2'' ''charge'' 30 ''r1'') 3
             (snd (createTransaction (ex_input ''t1'' ''credit'' 100 ''c1'') 2 (snd (ensureBalance ''o1'' ''usd'' 1 ex_world)))))
   in books_balance w \<and> map ob_balance (org_balances w) = [70]"
proof -
  let ?w1 = "snd (ensureBalance ''o1'' ''usd'' 1 ex_world)"
  let ?w2 = "snd (createTransaction (ex_input ''t1'' ''credit'' 100 ''c1'') 2 ?w1)"
  let ?w3 = "snd (createTransaction (ex_input ''t2'' ''charge'' 30 ''r1'') 3 ?w2)"
  have "ledger_step ex_world ?w1" "ledger_step ?w1 ?w2" "ledger_step ?w2 ?w3"
    by (rule ledger_step.intros)+
  then have "ledger_step\<^sup>*\<^sup>* ex_world ?w3" by (meson rtranclp.rtrancl_into_rtrancl rtranclp.rtrancl_refl)
  moreover have "org_balances ex_world = []" "balance_transactions ex_world = []" by (simp_all add: ex_world_def)
  ultimately have "books_balance ?w3" by (rule books_always_balance [rotated 2])
  moreover have "map ob_balance (org_balances ?w3) = [70]" by code_simp
  ultimately show ?thesis by (simp add: Let_def)
qed

text \<open>
Booking is idempotent. When a call of \<^verbatim>\<open>createTransaction\<close> succeeds, every later call for the same
organisation and source returns the same transaction and changes nothing, whatever its amount; and a
transaction whose check ran before the first one committed fails and changes nothing.
\<close>

theorem booking_is_idempotent:
  assumes "createTransaction t now w = (Inr r, w')"
    and "ti_org_id t' = ti_org_id t" "ti_source_type t' = ti_source_type t" "ti_source_id t' = ti_source_id t"
  shows "createTransaction t' now' w' = (Inr r, w') \<and> (\<exists>e. ledger_transact t' now' w' = (Inl e, w'))"
proof -
  have src: "getTransactionBySource (ti_org_id t) (ti_source_type t) (ti_source_id t) w' = Some r"
  proof (cases "getTransactionBySource (ti_org_id t) (ti_source_type t) (ti_source_id t) w")
    case (Some r0)
    then show ?thesis using assms(1) by (simp add: createTransaction_def)
  next
    case None
    then have "ledger_transact t now w = (Inr r, w')"
      using assms(1) by (simp add: createTransaction_def split: if_splits)
    then show ?thesis
      using None by (cases rule: ledger_transact_cases [of t now w]) (auto simp: getTransactionBySource_def tx_row_def)
  qed
  then have "createTransaction t' now' w' = (Inr r, w')" using assms(2-4) by (simp add: createTransaction_def)
  moreover have "\<exists>e. ledger_transact t' now' w' = (Inl e, w')"
    using src assms(2-4) by (cases rule: ledger_transact_cases [of t' now' w']) auto
  ultimately show ?thesis by blast
qed

theorem booking_is_idempotent_witness:
  "let w = snd (createTransaction (ex_input ''t1'' ''credit'' 100 ''c1'') 2 (snd (ensureBalance ''o1'' ''usd'' 1 ex_world)))
   in snd (createTransaction (ex_input ''t9'' ''credit'' 500 ''c1'') 4 w) = w \<and>
      (\<exists>e. ledger_transact (ex_input ''t9'' ''credit'' 500 ''c1'') 4 w = (Inl e, w))"
proof -
  let ?t = "ex_input ''t1'' ''credit'' 100 ''c1''" and ?t' = "ex_input ''t9'' ''credit'' 500 ''c1''"
  let ?w0 = "snd (ensureBalance ''o1'' ''usd'' 1 ex_world)"
  have eq: "createTransaction ?t 2 ?w0 = (Inr (tx_row ?t 2), snd (createTransaction ?t 2 ?w0))"
    by (rule prod_eqI) (code_simp, simp)
  have same: "ti_org_id ?t' = ti_org_id ?t" "ti_source_type ?t' = ti_source_type ?t" "ti_source_id ?t' = ti_source_id ?t"
    by (simp_all add: ex_input_def)
  show ?thesis using booking_is_idempotent [OF eq same, of 4] by (simp add: Let_def)
qed

subsection \<open>Receipts\<close>

definition ex_job_row :: job where
  "ex_job_row = \<lparr>j_id = ''demo-a1'', j_project_id = ''p1'', j_parent_id = None, j_depth = 0, j_labels = [],
     j_phase = Active, j_priority = 2, j_assignee = Some ''orchestrator'', j_review_required = ReviewNone,
     j_review_status = None, j_reviewer = None, j_defer_until = None, j_ready_at = Some 0, j_hints = [],
     j_harness = None, j_harness_profile_source = None, j_harness_profile_hash = None, j_git_json = None,
     j_resolved_git_json = None, j_blocked_on_gates = [], j_env_name = None, j_execution_type = ExecAgent,
     j_run_id = None, j_step_name = None, j_action_type = None, j_failure_disposition = None, j_created_at = 0,
     j_updated_at = 0, j_closed_at = None, j_close_reason = None,
     j_spec = \<lparr>sp_title = ''t'', sp_description = None, sp_issue_type = ''task'', sp_due_at = None,
       sp_harness_profile = None, sp_harness_options = None, sp_harness_profile_override = None,
       sp_env_overrides = None, sp_token_scope = None, sp_token_permissions = None, sp_workspace_json = None,
       sp_execution_mode = ''persistent'', sp_action_input = None, sp_script_command = None,
       sp_script_timeout_seconds = None, sp_target = None, sp_resource_refs = [], sp_content_hash = None,
       sp_actor_user_id = None\<rparr>\<rparr>"

definition ex_attempt_row :: attempt where
  "ex_attempt_row = \<lparr>a_id = ''u1'', a_job_id = ''demo-a1'', a_attempt_number = 1, a_status = AttRunning,
     a_trigger_type = TriggerManual, a_harness = None, a_agent_id = Some ''orchestrator'', a_started_at = 0,
     a_execution_started_at = Some 0, a_ended_at = None, a_result_summary = None, a_runtime_meta = [],
     a_git_json = None, a_exit_code = None, a_result_text = None, a_result_json = None, a_duration_ms = None,
     a_token_input = None, a_token_output = None, a_error_message = None, a_receipt_json = None,
     a_receipt_base_total_usd = None, a_receipt_billed_total = None, a_receipt_billed_currency = None,
     a_harness_profile_source = None, a_harness_profile_hash = None\<rparr>"

definition ex_ext :: ext where
  "ex_ext = \<lparr>x_event_id = (\<lambda>k. ''evt_1''), x_tx_id = (\<lambda>k. ''bt_'' @ k), x_attempt_id = (\<lambda>k. ''u_'' @ k),
     x_budget = (\<lambda>j w. None), x_receipt = (\<lambda>j a w. Some (JObj [(''v'', JNum 2)], 4, 5, ''usd'')), x_thread = (\<lambda>t. False)\<rparr>"

definition ex_running_world :: world where
  "ex_running_world = ex_world\<lparr>store := (store ex_world)\<lparr>jobs := [ex_job_row], job_attempts := [ex_attempt_row]\<rparr>\<rparr>"

text \<open>
A receipt the loop writes is never charged. The loop persists the receipt of a finished attempt and
then charges for it, both from the row that \<^verbatim>\<open>completeAttempt\<close> returned. That row carries the receipt the
attempt had while it ran, normally none; so whenever the first call writes a receipt, the second one
leaves the world as it is, and no balance or transaction is touched.
\<close>

theorem receipt_is_never_charged:
  assumes "completeAttempt i st res now (store w) = (Some row, s')"
    and "find_row (\<lambda>a. a_id a = i \<and> a_status a = AttRunning) (job_attempts (store w)) = Some a"
    and "a_receipt_json a = None"
  shows "let w1 = tryPersistAttemptReceipt x job row (w\<lparr>store := s'\<rparr>)
    in tryChargeForReceipt x job row now' w1 = w1 \<and>
       org_balances w1 = org_balances w \<and> balance_transactions w1 = balance_transactions w"
proof -
  have "a_receipt_json row = None"
    using assms by (auto simp: completeAttempt_def finish_attempt_def)
  then show ?thesis
    by (auto simp: Let_def tryChargeForReceipt_def tryPersistAttemptReceipt_def split: option.split)
qed

theorem receipt_is_never_charged_witness:
  "let (row, s') = completeAttempt ''u1'' AttSucceeded no_result 9000 (store ex_running_world);
       w1 = tryPersistAttemptReceipt ex_ext ex_job_row (the row) (ex_running_world\<lparr>store := s'\<rparr>)
   in map a_receipt_billed_total (job_attempts (store w1)) = [Some 5] \<and>
      tryChargeForReceipt ex_ext ex_job_row (the row) 9000 w1 = w1 \<and> balance_transactions w1 = []"
proof -
  define row where "row = finish_attempt AttSucceeded no_result 9000 ex_attempt_row"
  define s' where "s' = snd (completeAttempt ''u1'' AttSucceeded no_result 9000 (store ex_running_world))"
  have c: "completeAttempt ''u1'' AttSucceeded no_result 9000 (store ex_running_world) = (Some row, s')"
    unfolding row_def s'_def by (rule prod_eqI) (code_simp, simp)
  have f: "find_row (\<lambda>a. a_id a = ''u1'' \<and> a_status a = AttRunning) (job_attempts (store ex_running_world)) = Some ex_attempt_row"
    by code_simp
  have r: "a_receipt_json ex_attempt_row = None" by (simp add: ex_attempt_row_def)
  have b: "map a_receipt_billed_total (job_attempts (store
      (tryPersistAttemptReceipt ex_ext ex_job_row row (ex_running_world\<lparr>store := s'\<rparr>)))) = [Some 5]"
    unfolding row_def s'_def by code_simp
  have e: "balance_transactions ex_running_world = []" by code_simp
  show ?thesis
    using receipt_is_never_charged [OF c f r, of ex_ext ex_job_row 9000] b by (simp add: c Let_def e)
qed

end
