(* ===== verification/Event_Properties.thy ===== *)
theory Event_Properties
  imports Ledger_Properties
begin

section \<open>Properties of the event log and of pipeline runs\<close>

text \<open>Properties of the event log and of pipeline runs: deduplication, exclusive claims of pending events, and the keys of unfinished runs.\<close>

definition ex_event :: "string \<Rightarrow> string \<Rightarrow> event" where
  "ex_event i key = (new_event ''p1'' ''app.deployed'' None None [] key ex_ext)\<lparr>v_id := i\<rparr>"

text \<open>
Deduplication of events. Through every sequence of calls on the event log a project has at most one
event per deduplication key. This rests on the calls being serial: two calls of \<^verbatim>\<open>create\<close> that both looked
for the key before either inserted leave two events with one key, since no unique index backs the check.
\<close>

theorem event_dedupe_is_serial:
  assumes "events w = []" "event_step\<^sup>*\<^sup>* w w'"
  shows "events_deduped w' \<and>
    (insert_event e now w' = (Inr r, w1) \<longrightarrow> insert_event e' now' w1 = (Inr r', w2) \<longrightarrow> same_key e e' \<longrightarrow>
     \<not> events_deduped w2)"
proof (intro conjI impI)
  have "events_deduped w" using assms(1) by (simp add: events_deduped_def)
  then show "events_deduped w'" using event_run.run_keeps [OF assms(2)] by blast
next
  assume i: "insert_event e now w' = (Inr r, w1)" "insert_event e' now' w1 = (Inr r', w2)" and k: "same_key e e'"
  have r: "r \<in> set (events w2)" "v_id r = v_id e" "same_key r r'"
    using i k by (auto simp: insert_event_def Let_def same_key_def split: if_splits)
  have r': "r' \<in> set (events w2)" "v_id r' = v_id e'" "v_id e' \<noteq> v_id e"
    using i by (auto simp: insert_event_def Let_def split: if_splits)
  then show "\<not> events_deduped w2"
    using r unfolding events_deduped_def by metis
qed

theorem event_dedupe_is_serial_witness:
  "let w1 = snd (insert_event (ex_event ''e1'' ''k'') 1 ex_world);
       w2 = snd (insert_event (ex_event ''e2'' ''k'') 1 w1)
   in events_deduped ex_world \<and> \<not> events_deduped w2 \<and> map v_id (events w2) = [''e1'', ''e2'']"
proof -
  define w1 where "w1 = snd (insert_event (ex_event ''e1'' ''k'') 1 ex_world)"
  define w2 where "w2 = snd (insert_event (ex_event ''e2'' ''k'') 1 w1)"
  have 1: "insert_event (ex_event ''e1'' ''k'') 1 ex_world =
      (Inr ((ex_event ''e1'' ''k'')\<lparr>v_created_at := 1, v_updated_at := 1\<rparr>), w1)"
    unfolding w1_def by (rule prod_eqI) (code_simp, simp)
  have 2: "insert_event (ex_event ''e2'' ''k'') 1 w1 =
      (Inr ((ex_event ''e2'' ''k'')\<lparr>v_created_at := 1, v_updated_at := 1\<rparr>), w2)"
    unfolding w1_def w2_def by (rule prod_eqI) (code_simp, simp)
  have k: "same_key (ex_event ''e1'' ''k'') (ex_event ''e2'' ''k'')" by code_simp
  have "events ex_world = []" by (simp add: ex_world_def)
  then have "events_deduped ex_world" "\<not> events_deduped w2"
    using event_dedupe_is_serial [of ex_world ex_world] 1 2 k by blast+
  moreover have "map v_id (events w2) = [''e1'', ''e2'']" unfolding w1_def w2_def by code_simp
  ultimately show ?thesis by (simp add: Let_def flip: w1_def w2_def)
qed







subsection \<open>Pipeline runs\<close>

lemma claimNextPipelineRun_dedupe:
  assumes "dedupe_unique s"
  shows "dedupe_unique (snd (claimNextPipelineRun now s))"
proof (cases "first_row (order_by pr_created_at
    (filter (\<lambda>r. pr_status r = ''pending'' \<and> pr_run_mode r \<noteq> Some ''jobs'') (pipeline_runs s)))")
  case None
  then show ?thesis using assms by (simp add: claimNextPipelineRun_def)
next
  case (Some run)
  let ?f = "\<lambda>r. r\<lparr>pr_status := ''running'', pr_started_at := coalesce (pr_started_at r) (Some now), pr_updated_at := now\<rparr>"
  have run: "run \<in> set (pipeline_runs s)" "pr_status run = ''pending''"
    using first_row_mem [OF Some] by auto
  have d: "distinct (map pr_id (pipeline_runs s))" using assms by (simp add: dedupe_unique_def)
  have "\<not> dedupe_conflict run s"
    using dedupe_uniqueD [OF assms run(1)] unfolding conflict_iff by metis
  then have "\<not> dedupe_conflict (?f run) s" using run(2) by (simp add: dedupe_conflict_def run_terminal_def)
  then have "dedupe_unique (s\<lparr>pipeline_runs := update_where (\<lambda>r. pr_id r = pr_id run) ?f (pipeline_runs s)\<rparr>)"
    using find_row_key [OF d run(1)] by (intro update_run_dedupe [OF assms]) (simp_all add: findRunById_def)
  then show ?thesis using Some by (simp add: claimNextPipelineRun_def)
qed

inductive run_step :: "db \<Rightarrow> db \<Rightarrow> bool" where
  created: "run_step s (snd (createRun run now s))"
| updated: "run_step s (snd (updateRun i u now s))"
| outputs: "run_step s (snd (setStepOutput i n out now s))"
| claimed: "run_step s (snd (claimNextPipelineRun now s))"
| deleted: "run_step s (snd (hardDeleteByPipelineName p n s))"

lemma hardDelete_dedupe:
  assumes "dedupe_unique s"
  shows "dedupe_unique (snd (hardDeleteByPipelineName p n s))"
  using assms by (auto simp: hardDeleteByPipelineName_def Let_def dedupe_unique_def distinct_map_delete_where)

interpretation pipeline_run_run: run_invariant run_step dedupe_unique
  by unfold_locales
     (auto elim!: run_step.cases intro: createRun_dedupe updateRun_dedupe setStepOutput_dedupe
        claimNextPipelineRun_dedupe hardDelete_dedupe)

text \<open>
At most one unfinished pipeline run has a given deduplication key, after every sequence of creations,
updates, claims and deletions of runs from an empty table; so \<^verbatim>\<open>findActiveRunByDedupeKey\<close> returns the only
unfinished run with the key, and nothing when there is none.
\<close>

theorem unfinished_runs_have_distinct_keys:
  assumes "pipeline_runs s = []" "run_step\<^sup>*\<^sup>* s s'"
  shows "findActiveRunByDedupeKey key s' = Some run \<longleftrightarrow>
    run \<in> set (pipeline_runs s') \<and> pr_dedupe_key run = Some key \<and> \<not> run_terminal (pr_status run)"
proof
  assume "findActiveRunByDedupeKey key s' = Some run"
  then show "run \<in> set (pipeline_runs s') \<and> pr_dedupe_key run = Some key \<and> \<not> run_terminal (pr_status run)"
    unfolding findActiveRunByDedupeKey_def using first_row_order_by_least(1) by fastforce
next
  assume run: "run \<in> set (pipeline_runs s') \<and> pr_dedupe_key run = Some key \<and> \<not> run_terminal (pr_status run)"
  have "dedupe_unique s" using assms(1) by (simp add: dedupe_unique_def)
  then have u: "dedupe_unique s'" using pipeline_run_run.run_keeps [OF assms(2)] by blast
  let ?live = "filter (\<lambda>r. pr_dedupe_key r = Some key \<and> \<not> run_terminal (pr_status r)) (pipeline_runs s')"
  have "run \<in> set ?live" using run by simp
  then have "?live \<noteq> []" by force
  then have "first_row (order_by (\<lambda>r. - pr_created_at r) ?live) \<noteq> None" by simp
  then obtain r where r: "first_row (order_by (\<lambda>r. - pr_created_at r) ?live) = Some r" by blast
  have "r \<in> set ?live" using first_row_order_by_least(1) [OF r] .
  then have "r \<in> set (pipeline_runs s')" "pr_id r = pr_id run"
    using dedupe_uniqueD [OF u] run by (auto simp: same_live_key_def)
  then have "r = run" using u run by (auto simp: dedupe_unique_def distinct_map inj_on_def)
  then show "findActiveRunByDedupeKey key s' = Some run" using r by (simp add: findActiveRunByDedupeKey_def)
qed

definition ex_run :: "string \<Rightarrow> pipeline_run" where
  "ex_run i = \<lparr>pr_id = i, pr_project_id = ''p1'', pr_pipeline_name = ''deploy'', pr_env_name = Some ''prod'',
     pr_git_sha = None, pr_manifest_hash = None, pr_inputs_json = None, pr_step_outputs_json = None,
     pr_status = ''pending'', pr_started_at = None, pr_completed_at = None, pr_error_message = None,
     pr_requested_by = None, pr_run_mode = Some ''jobs'', pr_dedupe_key = Some ''k'', pr_created_at = 0, pr_updated_at = 0\<rparr>"

theorem unfinished_runs_have_distinct_keys_witness:
  "let s1 = snd (createRun (ex_run ''r1'') 1 (store ex_world)); s2 = snd (createRun (ex_run ''r2'') 2 s1)
   in findActiveRunByDedupeKey ''k'' s2 = Some ((ex_run ''r1'')\<lparr>pr_created_at := 1, pr_updated_at := 1\<rparr>)"
proof -
  let ?s1 = "snd (createRun (ex_run ''r1'') 1 (store ex_world))"
  let ?s2 = "snd (createRun (ex_run ''r2'') 2 ?s1)"
  have "run_step (store ex_world) ?s1" "run_step ?s1 ?s2" by (rule run_step.created)+
  then have r: "run_step\<^sup>*\<^sup>* (store ex_world) ?s2" by (meson rtranclp.rtrancl_into_rtrancl rtranclp.rtrancl_refl)
  have e: "pipeline_runs (store ex_world) = []" by (simp add: ex_world_def)
  have "(ex_run ''r1'')\<lparr>pr_created_at := 1, pr_updated_at := 1\<rparr> \<in> set (pipeline_runs ?s2) \<and>
    pr_dedupe_key ((ex_run ''r1'')\<lparr>pr_created_at := 1, pr_updated_at := 1\<rparr>) = Some ''k'' \<and>
    \<not> run_terminal (pr_status ((ex_run ''r1'')\<lparr>pr_created_at := 1, pr_updated_at := 1\<rparr>))" by code_simp
  then show ?thesis using unfinished_runs_have_distinct_keys [OF e r] unfolding Let_def by blast
qed

end
