(* ===== verification/Recovery_Properties.thy ===== *)
theory Recovery_Properties
  imports Recovery Event_Properties
begin

section \<open>Properties of the watchdogs and of wake-on conditions\<close>

text \<open>Properties of the recovery sweeps and wake conditions: timeouts, hints beyond their width, and messages that do not wake.\<close>

definition ex_script_job :: job where
  "ex_script_job = ex_job_row\<lparr>j_execution_type := ExecScript,
     j_spec := (j_spec ex_job_row)\<lparr>sp_script_timeout_seconds := Some 7200\<rparr>\<rparr>"

definition ex_script_world :: world where
  "ex_script_world = ex_running_world\<lparr>store := (store ex_running_world)\<lparr>jobs := [ex_script_job]\<rparr>\<rparr>"

definition default_stale :: stale_settings where
  "default_stale = \<lparr>ss_running = None, ss_idle = None, ss_grace = None\<rparr>"

text \<open>
The watchdog and the worker poll disagree about the timeout of a script. The poll waits for the
script's own timeout and a minute more; the watchdog reads only the hint \<^verbatim>\<open>timeout_seconds\<close> and otherwise
takes half an hour and its grace. So for a script without the hint whose timeout is longer, an attempt
between the two limits is declared timed out while the poll still waits for it, however often it logs.
\<close>

theorem watchdog_cuts_long_scripts:
  assumes "j_execution_type j = ExecScript" "sp_script_timeout_seconds (j_spec j) = Some T" "1830 < T"
    and "obj_get (j_hints j) ''timeout_seconds'' = None"
    and "1830000 \<le> now - a_started_at a" "of_int (now - a_started_at a) < T * 1000 + 60000"
  shows "resolveWorkerPollTimeoutMs j (j_execution_type j) = T * 1000 + 60000 \<and>
    (\<exists>reason. running_health 30 run idle now s [(a, j)] = Inr [((a, j), Stale reason ''attempt_timeout'')])"
proof
  show "resolveWorkerPollTimeoutMs j (j_execution_type j) = T * 1000 + 60000"
    using assms(1-3) by (simp add: resolveWorkerPollTimeoutMs_def readPositiveTimeoutSeconds_def or_default_def)
  have "1830 \<le> elapsed_seconds (a_started_at a) now" using assms(5) by (simp add: elapsed_seconds_def)
  then show "\<exists>reason. running_health 30 run idle now s [(a, j)] = Inr [((a, j), Stale reason ''attempt_timeout'')]"
    using assms(4) by (simp add: sql_int_or_def sql_digits_def evaluateRunningAttemptHealth_def Let_def)
qed

theorem watchdog_cuts_long_scripts_witness:
  "resolveWorkerPollTimeoutMs ex_script_job ExecScript = 7260000 \<and>
   (\<exists>reason. running_health 30 900 900 2000000 (store ex_script_world) [(ex_attempt_row, ex_script_job)] =
      Inr [((ex_attempt_row, ex_script_job), Stale reason ''attempt_timeout'')]) \<and>
   map j_phase (jobs (store (snd (recoverStaleRunningAttempts default_stale ex_ext 2000000 ex_script_world)))) = [Cancelled]"
proof -
  have h: "j_execution_type ex_script_job = ExecScript" "sp_script_timeout_seconds (j_spec ex_script_job) = Some 7200"
    "1830 < (7200 :: rat)" "obj_get (j_hints ex_script_job) ''timeout_seconds'' = None"
    "1830000 \<le> 2000000 - a_started_at ex_attempt_row" "of_int (2000000 - a_started_at ex_attempt_row) < 7200 * 1000 + (60000 :: rat)"
    by (simp_all add: ex_script_job_def ex_job_row_def ex_attempt_row_def)
  have "map j_phase (jobs (store (snd (recoverStaleRunningAttempts default_stale ex_ext 2000000 ex_script_world)))) = [Cancelled]"
    by code_simp
  then show ?thesis using watchdog_cuts_long_scripts [OF h, of 900 900 "store ex_script_world"] h(1) by simp
qed

lemma running_health_overflow:
  assumes "(a, j) \<in> set cs" "sql_int_or 1800 (obj_get (j_hints j) ''timeout_seconds'') = Inl e"
  shows "\<exists>e. running_health grace run idle now s cs = Inl e"
  using assms
proof (induction cs)
  case (Cons c cs)
  then show ?case by (cases c; cases "sql_int_or 1800 (obj_get (j_hints (snd c)) ''timeout_seconds'')") auto
qed simp

text \<open>
One oversized hint stops the loop. The watchdog's query casts the hint \<^verbatim>\<open>timeout_seconds\<close> of every running
attempt's job to a 32-bit integer. When the attempt sweeps before it leave an attempt running whose job
has a larger number there, the query fails, the sweep recovers nothing, and the tick ends before it
dispatches anything: no job or pipeline is claimed while that attempt runs.
\<close>

theorem oversized_timeout_hint_stops_the_tick:
  assumes "\<not> due (ts_recovery ts) n" "due (ts_stale_recovery ts) n"
    and "w' = recoverAttemptStartupTimeouts (ts_startup ts) x now (recoverAttemptInitTimeouts (ts_init ts) x now w)"
    and "(a, j) \<in> set (running_pairs (store w'))"
    and "sql_digits (obj_get (j_hints j) ''timeout_seconds'') = Some k" "2147483647 < k"
  shows "tick ts x stopping n now w = Some (None, w')"
proof -
  have "sql_int_or 1800 (obj_get (j_hints j) ''timeout_seconds'') = Inl Numeric_out_of_range"
    using assms(5,6) by (simp add: sql_int_or_def)
  from running_health_overflow [OF assms(4) this] obtain e where
    "recoverStaleRunningAttempts (ts_stale ts) x now w' = (Inl e, w')"
    unfolding recoverStaleRunningAttempts_def Let_def by (metis sum.simps(5))
  then show ?thesis using assms(1,2,3) by (simp add: tick_def tick_sweeps_def)
qed

definition ex_hinted_job :: job where
  "ex_hinted_job = ex_job_row\<lparr>j_hints := [(''timeout_seconds'', JNum 9999999999)]\<rparr>"

definition ex_stuck_world :: world where
  "ex_stuck_world = ex_running_world\<lparr>store := (store ex_running_world)\<lparr>
     jobs := [ex_hinted_job, ex_job_row\<lparr>j_id := ''demo-b2'', j_phase := Ready, j_assignee := None\<rparr>]\<rparr>\<rparr>"

definition ex_settings :: tick_settings where
  "ex_settings = \<lparr>ts_recovery = Some ''0'', ts_stale_recovery = None, ts_init = None, ts_startup = None,
     ts_stale = default_stale, ts_terminated = None, ts_reconcile_ticks = 6, ts_wake_ticks = 3\<rparr>"

theorem oversized_timeout_hint_stops_the_tick_witness:
  "tick ex_settings ex_ext False 1 1000 ex_stuck_world = Some (None, ex_stuck_world) \<and>
   getReadyJobs [] None None 1000 (store ex_stuck_world) \<noteq> []"
proof -
  have w: "ex_stuck_world = recoverAttemptStartupTimeouts (ts_startup ex_settings) ex_ext 1000
      (recoverAttemptInitTimeouts (ts_init ex_settings) ex_ext 1000 ex_stuck_world)"
    by (simp add: recoverAttemptStartupTimeouts_def recoverAttemptInitTimeouts_def running_pairs_def ex_stuck_world_def
        ex_running_world_def ex_world_def ex_attempt_row_def ex_hinted_job_def ex_job_row_def ex_settings_def
        readPositiveInt_def parse_int_def read_nat_def or_default_def Let_def)
  have d: "\<not> due (ts_recovery ex_settings) 1" "due (ts_stale_recovery ex_settings) 1" by code_simp+
  have p: "(ex_attempt_row, ex_hinted_job) \<in> set (running_pairs (store ex_stuck_world))"
    by (simp add: running_pairs_def ex_stuck_world_def ex_running_world_def ex_world_def ex_attempt_row_def
        ex_hinted_job_def ex_job_row_def)
  have k: "sql_digits (obj_get (j_hints ex_hinted_job) ''timeout_seconds'') = Some 9999999999"
    by (simp add: sql_digits_def ex_hinted_job_def)
  have "getReadyJobs [] None None 1000 (store ex_stuck_world) \<noteq> []" by code_simp
  then show ?thesis using oversized_timeout_hint_stops_the_tick [OF d w p k] by simp
qed

subsection \<open>Wake-on conditions\<close>

lemma wake_job_frame [simp]: "thread_messages (wake_job now s j) = thread_messages s"
  by (simp add: wake_job_def)

lemma findById_wake_job:
  "findById i (wake_job now s job) =
     (if list_ex (\<lambda>c. wake_condition job c s) (wake_list job) \<and> i = j_id job
      then map_option (\<lambda>j. j\<lparr>j_defer_until := None, j_updated_at := now\<rparr>) (findById i s) else findById i s)"
proof -
  have "findById i (update_jobs (\<lambda>j. j_id j = j_id job) (\<lambda>j. j\<lparr>j_defer_until := None, j_updated_at := now\<rparr>) s) =
      (if i = j_id job then map_option (\<lambda>j. j\<lparr>j_defer_until := None, j_updated_at := now\<rparr>) (findById i s)
       else findById i s)"
    using findById_Some [of i s] by (cases "findById i s") (auto simp: findById_update_jobs)
  then show ?thesis by (auto simp: wake_job_def)
qed

lemma foldl_wake_kept:
  assumes "\<And>k. k \<in> set js \<Longrightarrow> j_id k = i \<Longrightarrow>
      (\<forall>s'. thread_messages s' = thread_messages s \<longrightarrow> \<not> list_ex (\<lambda>c. wake_condition k c s') (wake_list k))"
  shows "findById i (foldl (wake_job now) s js) = findById i s"
  using assms
proof (induction js arbitrary: s)
  case (Cons k js)
  have "findById i (wake_job now s k) = findById i s"
    using Cons.prems [of k] by (cases "j_id k = i") (auto simp: findById_wake_job)
  moreover have "findById i (foldl (wake_job now) (wake_job now s k) js) = findById i (wake_job now s k)"
    using Cons.prems by (intro Cons.IH) auto
  ultimately show ?case by simp
qed simp

text \<open>
A thread message does not wake a waiting job. The condition \<^verbatim>\<open>thread.message\<close> asks for a message newer
than the time the job is deferred to, and only jobs whose deferral lies in the future are looked at; so
as long as no message is dated in the future, a job that waits for nothing else keeps its deferral.
\<close>

theorem thread_message_does_not_wake:
  assumes ids: "distinct (map j_id (jobs s))" and j: "j \<in> set (jobs s)" "j_defer_until j = Some d" "now < d"
    and only: "set (wake_list j) \<subseteq> {''thread.message''}"
    and past: "\<forall>m \<in> set (thread_messages s). m_created_at m \<le> now"
  shows "findById (j_id j) (processWakeOnConditions now s) = Some j"
proof -
  have "\<not> list_ex (\<lambda>c. wake_condition k c s') (wake_list k)"
    if "k \<in> set (filter (deferred_waiting now) (jobs s))" "j_id k = j_id j" "thread_messages s' = thread_messages s" for k s'
  proof -
    have "k = j" using that(1,2) j(1) ids by (auto simp: distinct_map inj_on_def)
    moreover have "\<not> wake_condition j ''thread.message'' s'"
      using past j(2,3) that(3) by (auto simp: wake_condition_def Let_def split: option.split)
    ultimately show ?thesis using only by (auto simp: list_ex_iff)
  qed
  then have "findById (j_id j) (processWakeOnConditions now s) = findById (j_id j) s"
    unfolding processWakeOnConditions_def by (intro foldl_wake_kept) auto
  then show ?thesis using find_row_key [OF ids j(1)] by (simp add: findById_def)
qed

definition ex_waiting_job :: job where
  "ex_waiting_job = ex_job_row\<lparr>j_phase := Ready, j_defer_until := Some 20000,
     j_hints := [(''wait'', JObj [(''wake_on'', JArr [JStr ''thread.message''])]),
                 (''coordination'', JObj [(''thread_id'', JStr ''t1'')])]\<rparr>"

definition ex_waiting_store :: db where
  "ex_waiting_store = (store ex_world)\<lparr>jobs := [ex_waiting_job],
     thread_messages := [\<lparr>m_thread_id = ''t1'', m_created_at = 9000\<rparr>]\<rparr>"

theorem thread_message_does_not_wake_witness:
  "deferred_waiting 10000 ex_waiting_job \<and>
   findById ''demo-a1'' (processWakeOnConditions 10000 ex_waiting_store) = Some ex_waiting_job"
proof -
  have i: "j_id ex_waiting_job = ''demo-a1''" by (simp add: ex_waiting_job_def ex_job_row_def)
  have w: "distinct (map j_id (jobs ex_waiting_store))" "ex_waiting_job \<in> set (jobs ex_waiting_store)"
    "j_defer_until ex_waiting_job = Some 20000" "(10000::int) < 20000"
    "set (wake_list ex_waiting_job) \<subseteq> {''thread.message''}"
    "\<forall>m \<in> set (thread_messages ex_waiting_store). m_created_at m \<le> 10000"
    by (simp_all add: ex_waiting_store_def ex_waiting_job_def wake_list_def wake_on_hint_def)
  have "deferred_waiting 10000 ex_waiting_job" by code_simp
  then show ?thesis using thread_message_does_not_wake [OF w] unfolding i by blast
qed

end
