(* ===== verification/Job_Properties.thy ===== *)
theory Job_Properties
  imports Job_Lifecycle
begin

section \<open>What the job store guarantees\<close>

text \<open>
  Lemmas about claims, the scheduler queries and the failure cascade over well-formed stores, and
  the properties of the job store as a whole. The example store at the end of the first part is the
  input at which the properties with hypotheses are applied.
\<close>

definition with_status :: "attempt_status \<Rightarrow> string \<Rightarrow> db \<Rightarrow> attempt list" where
  "with_status st i s = filter (\<lambda>a. a_status a = st) (attempts_of i s)"

subsection \<open>Claims\<close>

lemma pending_attempt_Some:
  assumes "pending_attempt i s = Some p"
  shows "p \<in> set (job_attempts s)" "a_job_id p = i" "a_status p = AttPending"
  using first_row_mem [OF assms [unfolded pending_attempt_def]] by (auto simp: attempts_of_def)

lemma pending_attempt_None: "pending_attempt i s = None \<longleftrightarrow> with_status AttPending i s = []"
  by (auto simp: pending_attempt_def with_status_def)

lemma start_attempt_simps [simp]:
  "a_id (start_attempt cur agent h now a) = a_id a"
  "a_job_id (start_attempt cur agent h now a) = a_job_id a"
  "a_attempt_number (start_attempt cur agent h now a) = a_attempt_number a"
  "a_status (start_attempt cur agent h now a) = AttRunning"
  "a_agent_id (start_attempt cur agent h now a) = Some agent"
  by (simp_all add: start_attempt_def)

lemma activate_simps [simp]:
  "j_id (activate agent now j) = j_id j" "j_phase (activate agent now j) = Active"
  "j_assignee (activate agent now j) = Some agent"
  by (simp_all add: activate_def)

text \<open>An update of one row, found by its key, changes the status counts by that row.\<close>

lemma length_filter_update_one:
  assumes "distinct (map k rows)" and "r \<in> set rows" and "\<And>x. k (f x) = k x"
  shows "length (filter Q (update_where (\<lambda>x. k x = k r) f rows)) + (if Q r then 1 else 0) =
    length (filter Q rows) + (if Q (f r) then 1 else 0)"
  using assms(1,2)
proof (induction rows)
  case (Cons x rows)
  show ?case
  proof (cases "k x = k r")
    case True
    then have "r = x" and "update_where (\<lambda>x. k x = k r) f rows = rows"
      using Cons.prems by (auto intro!: update_where_False simp: image_iff)
    then show ?thesis by simp
  next
    case False
    then show ?thesis using Cons by auto
  qed
qed simp

lemma claim_pending_effect:
  assumes "store_wf s" and "pending_attempt i s = Some p" and "findById i s = Some cur"
    and "claim_pending cur p i agent h now s = (r, s')"
  shows "r = Inr (Inr (start_attempt cur agent h now p))"
    and "jobs s' = update_where (\<lambda>j. j_id j = i) (activate agent now) (jobs s)"
    and "job_attempts s' = update_where (\<lambda>a. a_id a = a_id p) (start_attempt cur agent h now) (job_attempts s)"
proof -
  note p = pending_attempt_Some [OF assms(2)]
  have d: "distinct (map a_id (job_attempts s))" using assms(1) by (simp add: store_wf_def)
  have uniq: "a = p" if "a \<in> set (job_attempts s)" "a_id a = a_id p" for a
    using d that p(1) by (metis find_row_key option.inject)
  have find: "find_row (\<lambda>a. a_id a = a_id p \<and> a_status a = AttPending) (job_attempts s) = Some p"
  proof (cases "find_row (\<lambda>a. a_id a = a_id p \<and> a_status a = AttPending) (job_attempts s)")
    case None
    then show ?thesis using p by (auto simp: find_row_None)
  next
    case (Some q)
    then show ?thesis using uniq find_row_Some [OF Some] by auto
  qed
  have upd: "update_where (\<lambda>a. a_id a = a_id p \<and> a_status a = AttPending) f (job_attempts s) =
      update_where (\<lambda>a. a_id a = a_id p) f (job_attempts s)" for f
    unfolding update_where_def using uniq p(3) by (intro map_cong) auto
  show "r = Inr (Inr (start_attempt cur agent h now p))"
    "jobs s' = update_where (\<lambda>j. j_id j = i) (activate agent now) (jobs s)"
    "job_attempts s' = update_where (\<lambda>a. a_id a = a_id p) (start_attempt cur agent h now) (job_attempts s)"
    using assms(4) find upd by (auto simp: claim_pending_def Let_def)
qed

lemma claim_insert_effect:
  assumes "claim_insert cur n i agent h now uuid s = (Inr r, s')"
  shows "\<exists>a. r = Inr a \<and> a_job_id a = i \<and> a_status a = AttRunning \<and> a_agent_id a = Some agent \<and>
    a_attempt_number a = n \<and> a_id a = uuid \<and>
    jobs s' = update_where (\<lambda>j. j_id j = i) (activate agent now) (jobs s) \<and>
    job_attempts s' = job_attempts s @ [a]"
  using assms by (auto simp: claim_insert_def Let_def new_attempt_def insert_attempt_def
      split: sum.splits if_splits)

lemma findById_known: "findById i s = Some j \<Longrightarrow> job_known s i"
  using findById_Some [of i s j] by (auto simp: job_known_def)

text \<open>The numbers below the next one are the ones in use.\<close>

lemma claim_insert_succeeds:
  assumes "store_wf s" and "job_known s i" and "uuid \<notin> a_id ` set (job_attempts s)"
    and "length (attempts_of i s) < 32767"
  shows "\<exists>a s'. claim_insert cur (int (length (attempts_of i s)) + 1) i agent h now uuid s = (Inr (Inr a), s') \<and>
    a_attempt_number a = int (length (attempts_of i s)) + 1"
proof -
  have "a_attempt_number b \<noteq> int (length (attempts_of i s)) + 1"
    if "b \<in> set (job_attempts s)" "a_job_id b = i" for b
  proof
    assume eq: "a_attempt_number b = int (length (attempts_of i s)) + 1"
    have "b \<in> set (attempts_of i s)" using that by (simp add: attempts_of_def)
    then have "a_attempt_number b \<in> set (map a_attempt_number (attempts_of i s))" by simp
    then show False using numbered_all [OF assms(1), of i] eq unfolding numbered_def by auto
  qed
  then show ?thesis using assms
    by (auto simp: claim_insert_def Let_def insert_attempt_def new_attempt_def smallint_def job_known_def)
qed

lemma with_status_append:
  "job_attempts s' = job_attempts s @ [a] \<Longrightarrow> a_job_id a = i \<Longrightarrow>
     with_status st i s' = with_status st i s @ (if a_status a = st then [a] else []) \<and>
     attempts_of i s' = attempts_of i s @ [a]"
  by (simp add: with_status_def attempts_of_def)

text \<open>The two ways a claim succeeds, and what it leaves behind.\<close>

lemma claim_success:
  assumes wf: "store_wf s" and run: "claim i agent h now uuid s = (Inr (Inr a), s')"
  obtains cur where "findById i s = Some cur" "j_phase cur \<in> {Ready, Active}"
    "a_job_id a = i" "a_status a = AttRunning" "a_agent_id a = Some agent"
    "findById i s' = Some (activate agent now cur)" "a \<in> set (job_attempts s')"
    "length (with_status AttRunning i s') = Suc (length (with_status AttRunning i s))"
    "length (with_status AttPending i s') = length (with_status AttPending i s) - 1"
    "with_status AttPending i s = [] \<Longrightarrow> j_phase cur = Ready"
proof -
  obtain cur where cur: "findById i s = Some cur" using run by (auto simp: claim_def split: option.splits)
  then have run': "claim_after_read cur i agent h now uuid s = (Inr (Inr a), s')"
    using run by (simp add: claim_def)
  then have ph: "j_phase cur \<in> {Ready, Active}" by (auto simp: claim_after_read_def split: if_splits)
  have ws: "with_status st i x = filter (\<lambda>b. a_status b = st \<and> a_job_id b = i) (job_attempts x)" for st x
    by (simp add: with_status_def attempts_of_def conj_commute)
  have fin: "findById i s' = Some (activate agent now cur)"
    if "jobs s' = update_where (\<lambda>j. j_id j = i) (activate agent now) (jobs s)"
    using find_row_update_where [of "\<lambda>j. j_id j = i" j_id "activate agent now" i "jobs s"]
      cur findById_Some [OF cur] that by (simp add: findById_def)
  show thesis
  proof (cases "pending_attempt i s")
    case None
    then have np: "with_status AttPending i s = []" by (simp add: pending_attempt_None)
    have "j_phase cur = Ready" and "claim_insert cur (int (length (attempts_of i s)) + 1)
        i agent h now uuid s = (Inr (Inr a), s')"
      using run' None by (auto simp: claim_after_read_def split: if_splits)
    with claim_insert_effect [OF this(2)] np show thesis
      by (intro that [OF cur ph]) (auto simp: fin ws)
  next
    case (Some p)
    note p = pending_attempt_Some [OF Some]
    have "claim_pending cur p i agent h now s = (Inr (Inr a), s')"
      using run' Some ph by (auto simp: claim_after_read_def split: if_splits)
    note eff = claim_pending_effect [OF wf Some cur this]
    have d: "distinct (map a_id (job_attempts s))" using wf by (simp add: store_wf_def)
    have cnt: "length (with_status st i s') + (if st = AttPending then 1 else 0) =
        length (with_status st i s) + (if st = AttRunning then 1 else 0)" for st
      using length_filter_update_one [OF d p(1), of "start_attempt cur agent h now"
          "\<lambda>b. a_status b = st \<and> a_job_id b = i"] p
      by (auto simp: ws eff(3) split: if_splits)
    have "a \<in> set (job_attempts s')" using eff(1,3) p(1) by (auto simp: set_update_where)
    moreover have "with_status AttPending i s \<noteq> []" using p by (auto simp: ws filter_empty_conv)
    ultimately show thesis
      using eff p cnt [of AttRunning] cnt [of AttPending]
      by (intro that [OF cur ph]) (auto simp: fin)
  qed
qed

subsection \<open>The scheduler queries\<close>

text \<open>\<^verbatim>\<open>ORDER BY ... LIMIT\<close>: no row that is left out comes before one that is returned.\<close>

lemma take_order_by_least:
  assumes "x \<in> set (take n (order_by k rows))" and "y \<in> set rows" and "y \<notin> set (take n (order_by k rows))"
  shows "k x \<le> k y"
proof -
  have "y \<in> set (drop n (order_by k rows))"
    using assms(2,3) by (metis Un_iff append_take_drop_id set_append set_order_by)
  moreover have "sorted (map k (take n (order_by k rows)) @ map k (drop n (order_by k rows)))"
    using sorted_order_by [of k rows] by (metis append_take_drop_id map_append)
  ultimately show ?thesis using assms(1) by (auto simp: sorted_append)
qed

lemma schedulable_not_blocked: "schedulable pr now s j \<Longrightarrow> \<not> isBlocked (j_id j) s"
  by (simp add: schedulable_def isBlocked_def)

lemma getReadyJobs_mem:
  "j \<in> set (getReadyJobs pr assignee limit now s) \<Longrightarrow>
     j \<in> set (jobs s) \<and> schedulable pr now s j \<and> j_assignee j = assignee"
  by (auto simp: getReadyJobs_def dest!: in_set_takeD)

lemma getReadyAssignedJobs_mem:
  "j \<in> set (getReadyAssignedJobs pr limit now s) \<Longrightarrow>
     j \<in> set (jobs s) \<and> schedulable pr now s j \<and> j_assignee j \<noteq> None \<and> j_execution_type j = ExecAgent"
  by (auto simp: getReadyAssignedJobs_def dest!: in_set_takeD)

subsection \<open>The failure cascade\<close>

lemma findById_drop_gates:
  "findById k (drop_gates ids now s) =
     map_option (\<lambda>j. if j_id j \<in> set ids then clear_gates_row now j else j) (findById k s)"
  unfolding drop_gates_def by (simp add: findById_update_jobs clear_gates_row_def)

lemma clear_gates_row_simps [simp]:
  "j_id (clear_gates_row now j) = j_id j" "j_phase (clear_gates_row now j) = j_phase j"
  "j_blocked_on_gates (clear_gates_row now j) = []"
  "j_failure_disposition (clear_gates_row now j) = j_failure_disposition j"
  "j_close_reason (clear_gates_row now j) = j_close_reason j"
  "j_parent_id (clear_gates_row now j) = j_parent_id j"
  by (simp_all add: clear_gates_row_def)

lemma close_row_simps [simp]:
  "j_id (close_row d why now j) = j_id j" "j_phase (close_row d why now j) = Cancelled"
  "j_failure_disposition (close_row d why now j) = Some d"
  "j_close_reason (close_row d why now j) = Some why"
  "j_closed_at (close_row d why now j) = Some now"
  "j_parent_id (close_row d why now j) = j_parent_id j"
  by (simp_all add: close_row_def)

lemma drop_gates_gates: "g \<in> set (job_gates (drop_gates ids now s)) \<longleftrightarrow> g \<in> set (job_gates s) \<and> g_job_id g \<notin> set ids"
  by (auto simp: drop_gates_def)

lemma end_current_frame [simp]:
  "jobs (end_current st i why now s) = jobs s" "job_gates (end_current st i why now s) = job_gates s"
  "job_relations (end_current st i why now s) = job_relations s"
  by (simp_all add: end_current_def split: option.split)

lemma drop_gates_relations [simp]: "job_relations (drop_gates ids now s) = job_relations s"
  by (simp add: drop_gates_def)

lemma drop_gates_jobs [simp]:
  "jobs (drop_gates ids now s) = update_where (\<lambda>j. j_id j \<in> set ids) (clear_gates_row now) (jobs s)"
  by (simp add: drop_gates_def)

lemma close_backlog_frame [simp]: "job_gates (close_backlog_children d why i now s) = job_gates s"
  by (simp add: close_backlog_children_def)

text \<open>Closing one job, by its id.\<close>

lemma findById_end_current [simp]: "findById k (end_current st i why now s) = findById k s"
  by (simp add: findById_def)

lemma close_one_find:
  "findById k (drop_gates [i] now (update_jobs (\<lambda>j. j_id j = i \<and> \<not> terminal_phase (j_phase j))
     (close_row d why now) (end_current st i why now s))) =
   map_option (\<lambda>x. if k = i then clear_gates_row now
       (if \<not> terminal_phase (j_phase x) then close_row d why now x else x) else x) (findById k s)"
proof (cases "findById k s")
  case None
  then show ?thesis by (simp add: findById_drop_gates findById_update_jobs)
next
  case (Some x)
  then show ?thesis using findById_Some [OF Some]
    by (simp add: findById_drop_gates findById_update_jobs)
qed

lemma find_row_unique:
  assumes "r \<in> set rows" and "P r" and "\<And>x. x \<in> set rows \<Longrightarrow> P x \<Longrightarrow> x = r"
  shows "find_row P rows = Some r"
proof (cases "find_row P rows")
  case None
  then show ?thesis using assms(1,2) by (simp add: find_row_None)
next
  case (Some x)
  then show ?thesis using assms(3) find_row_Some [OF Some] by simp
qed

lemma depends_on_mono:
  "depends_on s i d \<Longrightarrow> job_relations s' = job_relations s \<Longrightarrow> depends_on s' i d"
  by (induction rule: depends_on.induct)
     (auto simp: dependents_of_def intro: depends_on.direct depends_on.indirect)

lemma depends_on_frame: "job_relations s' = job_relations s \<Longrightarrow> depends_on s' i d = depends_on s i d"
  using depends_on_mono [of s i d s'] depends_on_mono [of s' i d s] by auto

lemma cascade_cancel_effect:
  assumes wf: "store_wf s"
  obtains s' where "cascade_cancel i now s = Some s'"
    and "\<And>k. findById k s' = map_option (\<lambda>j. if depends_on s i k \<and> \<not> terminal_phase (j_phase j) then
        clear_gates_row now (close_row DispUpstreamFailed (''Upstream job '' @ i @ '' failed'') now j) else j)
        (findById k s)"
    and "\<And>g. g \<in> set (job_gates s') \<longleftrightarrow> g \<in> set (job_gates s) \<and>
        \<not> (depends_on s i (g_job_id g) \<and>
           (\<exists>j \<in> set (jobs s). j_id j = g_job_id g \<and> \<not> terminal_phase (j_phase j)))"
proof -
  obtain ids where ids: "cascade i s = Some ids" using cascade_total by blast
  note dep = cascade_closure [OF ids]
  let ?P = "\<lambda>j. j_id j \<in> set ids \<and> \<not> terminal_phase (j_phase j)"
  let ?f = "close_row DispUpstreamFailed (''Upstream job '' @ i @ '' failed'') now"
  let ?c = "map j_id (filter ?P (jobs s))"
  let ?s' = "drop_gates ?c now (update_jobs ?P ?f s)"
  have nil: "drop_gates [] now x = x" for x
    by (simp add: drop_gates_def update_jobs_def update_where_def delete_where_def)
  have run: "cascade_cancel i now s = Some ?s'"
    using nil unfolding cascade_cancel_def ids by (simp add: Let_def)
  have find: "findById k ?s' = map_option (\<lambda>j. if depends_on s i k \<and> \<not> terminal_phase (j_phase j)
      then clear_gates_row now (?f j) else j) (findById k s)" for k
  proof (cases "findById k s")
    case None
    then show ?thesis by (simp add: findById_drop_gates findById_update_jobs)
  next
    case (Some j)
    have "j_id j \<in> set ?c \<longleftrightarrow> ?P j"
      using findById_Some [OF Some] store_wf_job [OF wf Some] by auto
    then show ?thesis using Some findById_Some [OF Some] dep
      by (auto simp: findById_drop_gates findById_update_jobs)
  qed
  have "g \<in> set (job_gates ?s') \<longleftrightarrow> g \<in> set (job_gates s) \<and> \<not> (depends_on s i (g_job_id g) \<and>
      (\<exists>j \<in> set (jobs s). j_id j = g_job_id g \<and> \<not> terminal_phase (j_phase j)))" for g
    unfolding drop_gates_gates using dep by (auto simp: image_iff) metis
  with run find show thesis by (rule that)
qed

text \<open>What the failure of \<open>i\<close> does to another job: dependents first, then staged children.\<close>

definition upstream_failed :: "db \<Rightarrow> string \<Rightarrow> string \<Rightarrow> timestamp \<Rightarrow> job \<Rightarrow> job" where
  "upstream_failed s i k now x =
     (if terminal_phase (j_phase x) then x
      else if k \<in> {d. depends_on s i d} then
        clear_gates_row now (close_row DispUpstreamFailed (''Upstream job '' @ i @ '' failed'') now x)
      else if j_parent_id x = Some i \<and> j_phase x = Backlog then
        close_row DispUpstreamFailed (''Parent job '' @ i @ '' failed'') now x
      else x)"

lemma markJobFailed_effect:
  assumes wf: "store_wf s" and j: "findById i s = Some j" and open': "\<not> terminal_phase (j_phase j)"
  obtains r s' where "markJobFailed i reason now s = Some (Some r, s')"
    and "\<And>k. findById k s' = map_option (\<lambda>x. if k = i then
        clear_gates_row now (close_row DispFailed (case reason of None \<Rightarrow> ''Job failed'' | Some r \<Rightarrow> r) now x)
        else upstream_failed s i k now x) (findById k s)"
    and "\<And>g. g \<in> set (job_gates s') \<longleftrightarrow> g \<in> set (job_gates s) \<and> g_job_id g \<noteq> i \<and>
        \<not> (depends_on s i (g_job_id g) \<and> (\<exists>x. findById (g_job_id g) s = Some x \<and> \<not> terminal_phase (j_phase x)))"
proof -
  let ?why = "case reason of None \<Rightarrow> ''Job failed'' | Some r \<Rightarrow> r"
  let ?close = "close_row DispFailed ?why now"
  let ?P = "\<lambda>j. j_id j = i \<and> \<not> terminal_phase (j_phase j)"
  let ?s3 = "drop_gates [i] now (update_jobs ?P ?close (end_current AttFailed i ?why now s))"
  let ?up = "\<lambda>x. clear_gates_row now (close_row DispUpstreamFailed (''Upstream job '' @ i @ '' failed'') now x)"
  have wf3: "store_wf ?s3" by (rule updates_wf [OF wf updates_mono [OF closes_updates [OF closes_close]]])
  have dep: "depends_on ?s3 i d = depends_on s i d" for d by (rule depends_on_frame) simp
  obtain s4 where s4: "cascade_cancel i now ?s3 = Some s4"
    "\<And>k. findById k s4 = map_option (\<lambda>j. if depends_on s i k \<and> \<not> terminal_phase (j_phase j) then ?up j else j)
        (findById k ?s3)"
    "\<And>g. g \<in> set (job_gates s4) \<longleftrightarrow> g \<in> set (job_gates ?s3) \<and>
        \<not> (depends_on s i (g_job_id g) \<and>
           (\<exists>j \<in> set (jobs ?s3). j_id j = g_job_id g \<and> \<not> terminal_phase (j_phase j)))"
    by (rule cascade_cancel_effect [OF wf3, of i now]) (unfold dep, blast)
  let ?s' = "close_backlog_children DispUpstreamFailed (''Parent job '' @ i @ '' failed'') i now s4"
  have "find_row ?P (jobs (end_current AttFailed i ?why now s)) = Some j"
    using j open' store_wf_job [OF wf j] by (intro find_row_unique) (auto dest: findById_Some)
  then have run: "markJobFailed i reason now s = Some (Some (?close j), ?s')"
    using j open' s4(1) by (simp add: markJobFailed_def Let_def)
  have find: "findById k ?s' = map_option (\<lambda>x. if k = i then clear_gates_row now (?close x)
      else upstream_failed s i k now x) (findById k s)" for k
    using j open'
    by (cases "findById k s") (auto simp: close_backlog_children_def findById_update_jobs s4(2)
        close_one_find upstream_failed_def)
  have "(\<exists>x \<in> set (jobs ?s3). j_id x = k \<and> \<not> terminal_phase (j_phase x)) \<longleftrightarrow>
      (\<exists>x. findById k s = Some x \<and> \<not> terminal_phase (j_phase x))" if "k \<noteq> i" for k
    using that findById_iff [OF wf3, of k] close_one_find [of k i now DispFailed ?why AttFailed s]
    by auto
  then have "g \<in> set (job_gates ?s') \<longleftrightarrow> g \<in> set (job_gates s) \<and> g_job_id g \<noteq> i \<and>
        \<not> (depends_on s i (g_job_id g) \<and> (\<exists>x. findById (g_job_id g) s = Some x \<and> \<not> terminal_phase (j_phase x)))" for g
    by (auto simp: s4(3) drop_gates_gates)
  with run find show thesis by (rule that)
qed

subsection \<open>An example store\<close>

text \<open>
  A project with three jobs: the second waits for the first, the third is a child of the first. The
  clock of the examples starts at 1000.
\<close>

definition ex_spec :: job_spec where
  "ex_spec = \<lparr>sp_title = ''t'', sp_description = None, sp_issue_type = ''task'', sp_due_at = None,
     sp_harness_profile = None, sp_harness_options = None, sp_harness_profile_override = None,
     sp_env_overrides = None, sp_token_scope = None, sp_token_permissions = None,
     sp_workspace_json = None, sp_execution_mode = ''persistent'', sp_action_input = None,
     sp_script_command = None, sp_script_timeout_seconds = None, sp_target = None,
     sp_resource_refs = [], sp_content_hash = None, sp_actor_user_id = None\<rparr>"

definition ex_job :: "string \<Rightarrow> string option \<Rightarrow> phase \<Rightarrow> review_required \<Rightarrow> job" where
  "ex_job i parent p rr = \<lparr>j_id = i, j_project_id = ''proj_1'', j_parent_id = parent,
     j_depth = (if parent = None then 0 else 1), j_labels = [], j_phase = p, j_priority = 2,
     j_assignee = None, j_review_required = rr, j_review_status = None, j_reviewer = None,
     j_defer_until = None, j_ready_at = None, j_hints = [], j_harness = None,
     j_harness_profile_source = None, j_harness_profile_hash = None, j_git_json = None,
     j_resolved_git_json = None, j_blocked_on_gates = [], j_env_name = None,
     j_execution_type = ExecAgent, j_run_id = None, j_step_name = None, j_action_type = None,
     j_failure_disposition = None, j_created_at = 1000, j_updated_at = 1000, j_closed_at = None,
     j_close_reason = None, j_spec = ex_spec\<rparr>"

definition ex_project :: project where
  "ex_project = \<lparr>p_id = ''proj_1'', p_slug = ''a'', p_org_id = ''org_1''\<rparr>"

definition empty_store :: "project list \<Rightarrow> db" where
  "empty_store ps = \<lparr>jobs = [], job_attempts = [], job_relations = [], job_gates = [], audit_log = [],
     projects = ps, pipeline_runs = [], pipeline_step_runs = [], execution_logs = [], thread_messages = []\<rparr>"

definition ex_db :: db where
  "ex_db = (empty_store [ex_project])\<lparr>
     jobs := [ex_job ''a-1'' None Ready ReviewHuman, ex_job ''a-2'' None Ready ReviewNone,
              ex_job ''a-1.1'' (Some ''a-1'') Backlog ReviewNone],
     job_relations := [\<lparr>r_id = ''r1'', r_job_id = ''a-2'', r_related_job_id = ''a-1'',
                         r_relation_type = Blocks\<rparr>]\<rparr>"

lemmas ex_defs = ex_db_def ex_job_def ex_project_def empty_store_def

lemma empty_store_wf: "store_wf (empty_store ps)"
  by (simp add: store_wf_def empty_store_def unique_gates_def)

lemma ex_db_wf: "store_wf ex_db"
  by (simp add: store_wf_def ex_defs job_known_def unique_gates_def)

subsection \<open>Properties\<close>

text \<open>C1: Every state that a sequence of calls on the store reaches from an empty store (any operation,
  any arguments, errors included) is well-formed: job and attempt ids and gate keys are unique, every
  reference is to an existing row, and the attempts of each job are numbered 1, 2, 3, ... without a gap.\<close>

theorem reachable_store_wf:
  assumes "store_step\<^sup>*\<^sup>* (empty_store ps) s"
  shows "store_wf s"
  by (rule store_run.run_keeps [OF assms empty_store_wf])

theorem reachable_store_wf_witness:
  "store_wf (snd (requeueReady ''a-1'' ''o'' None None 7 (snd (create (ex_job ''a-1'' None Done ReviewNone) 5
     (empty_store [ex_project])))))"
proof (rule reachable_store_wf)
  let ?s0 = "empty_store [ex_project]"
  let ?s1 = "snd (create (ex_job ''a-1'' None Done ReviewNone) 5 ?s0)"
  have "store_step ?s0 ?s1" by (rule step_lawful) (rule step_create)
  moreover have "store_step ?s1 (snd (requeueReady ''a-1'' ''o'' None None 7 ?s1))"
    by (rule step_requeueReady)
  ultimately show "store_step\<^sup>*\<^sup>* ?s0 (snd (requeueReady ''a-1'' ''o'' None None 7 ?s1))" by auto
qed

text \<open>C2: A job that is done or cancelled keeps that phase and its closing time through every sequence
  of operations of the store other than the requeue.\<close>

theorem terminal_jobs_stay_closed:
  assumes "lawful_step\<^sup>*\<^sup>* s s'" and "store_wf s" and "findById i s = Some j"
    and "terminal_phase (j_phase j)"
  shows "\<exists>j'. findById i s' = Some j' \<and> j_phase j' = j_phase j \<and> j_closed_at j' = j_closed_at j"
proof -
  have "closed_job i (j_phase j) (j_closed_at j) s"
    using assms(2-4) findById_Some [OF assms(3)] by (auto simp: closed_job_def)
  then have c: "closed_job i (j_phase j) (j_closed_at j) s'" by (rule closed_run.run_keeps [OF assms(1)])
  then obtain j' where j': "j' \<in> set (jobs s')" "j_id j' = i" "j_phase j' = j_phase j"
      "j_closed_at j' = j_closed_at j" and "store_wf s'"
    by (auto simp: closed_job_def)
  then have "findById i s' = Some j'" by (simp add: findById_iff)
  with j' show ?thesis by blast
qed

definition ex_closed :: db where
  "ex_closed = (empty_store [ex_project])\<lparr>jobs := [(ex_job ''a-1'' None Done ReviewNone)\<lparr>j_closed_at := Some 5\<rparr>]\<rparr>"

theorem terminal_jobs_stay_closed_witness:
  "\<exists>j'. findById ''a-1'' (snd (cancelJob ''a-1'' None 9 ex_closed)) = Some j' \<and> j_phase j' = Done \<and>
     j_closed_at j' = Some 5"
proof -
  have step: "lawful_step\<^sup>*\<^sup>* ex_closed (snd (cancelJob ''a-1'' None 9 ex_closed))"
    using step_cancelJob by (rule r_into_rtranclp)
  have wf: "store_wf ex_closed"
    by (simp add: store_wf_def ex_closed_def ex_defs unique_gates_def job_known_def)
  have "findById ''a-1'' ex_closed = Some ((ex_job ''a-1'' None Done ReviewNone)\<lparr>j_closed_at := Some 5\<rparr>)"
    by (simp add: findById_def ex_closed_def ex_defs)
  from terminal_jobs_stay_closed [OF step wf this] show ?thesis by (simp add: ex_job_def)
qed


definition ex_claimed :: db where
  "ex_claimed = snd (claim ''a-1'' ''bot'' None 1000 ''u1'' ex_db)"

definition ex_review :: db where
  "ex_review = snd (submitForReview ''a-1'' ''bot'' ''ok'' 2000 ex_claimed)"



text \<open>A claim that succeeds returns a running attempt of that job, held by the claiming agent and stored;
  the job was ready or active before, is active and assigned to the agent afterwards, and the number of
  its running attempts has grown by exactly one.\<close>

theorem claim_effect:
  assumes "store_wf s" and "claim i agent h now uuid s = (Inr (Inr a), s')"
  shows "a \<in> set (job_attempts s') \<and> a_job_id a = i \<and> a_status a = AttRunning \<and> a_agent_id a = Some agent \<and>
    (\<exists>cur. findById i s = Some cur \<and> j_phase cur \<in> {Ready, Active} \<and>
      findById i s' = Some (cur\<lparr>j_phase := Active, j_assignee := Some agent, j_updated_at := now\<rparr>)) \<and>
    length (with_status AttRunning i s') = Suc (length (with_status AttRunning i s))"
  by (rule claim_success [OF assms]) (simp add: activate_def)

definition ex_attempt :: attempt where
  "ex_attempt = (new_attempt ''u1'' ''a-1'' 1 AttRunning TriggerManual 1000)\<lparr>a_agent_id := Some ''bot''\<rparr>"

lemma ex_claim: "claim ''a-1'' ''bot'' None 1000 ''u1'' ex_db = (Inr (Inr ex_attempt), ex_claimed)"
proof -
  have "fst (claim ''a-1'' ''bot'' None 1000 ''u1'' ex_db) = Inr (Inr ex_attempt)"
    by (simp add: claim_def claim_after_read_def claim_insert_def findById_def pending_attempt_def
        attempts_of_def ex_defs insert_attempt_def smallint_def Let_def new_attempt_def ex_attempt_def)
  then show ?thesis unfolding ex_claimed_def by (metis prod.collapse)
qed

theorem claim_effect_witness:
  "ex_attempt \<in> set (job_attempts ex_claimed) \<and> length (with_status AttRunning ''a-1'' ex_claimed) = 1"
  using claim_effect [OF ex_db_wf ex_claim]
  by (simp add: with_status_def attempts_of_def ex_defs)

text \<open>C8: Claims exclude each other: after a successful claim of a job that had at most one pending attempt,
  every further claim of it, by any agent, is refused and changes nothing.\<close>

theorem claim_excludes_claim:
  assumes "store_wf s" and "claim i agent h now uuid s = (Inr (Inr a), s')"
    and "length (with_status AttPending i s) \<le> 1"
  shows "\<exists>e. claim i agent' h' now' uuid' s' = (Inr (Inl e), s')"
proof (rule claim_success [OF assms(1,2)])
  fix cur
  assume f: "findById i s' = Some (activate agent now cur)"
    and "length (with_status AttPending i s') = length (with_status AttPending i s) - 1"
  then have "pending_attempt i s' = None" using assms(3) by (simp add: pending_attempt_None)
  then show ?thesis by (simp add: claim_def claim_after_read_def f)
qed

theorem claim_excludes_claim_witness:
  "\<exists>e. claim ''a-1'' ''other'' None 1001 ''u2'' ex_claimed = (Inr (Inl e), ex_claimed)"
proof (rule claim_excludes_claim [OF ex_db_wf ex_claim])
  show "length (with_status AttPending ''a-1'' ex_db) \<le> 1" by code_simp
qed

text \<open>C9: A ready job without pending attempts can always be claimed: given a fresh attempt id and fewer than
  32767 attempts so far (the column is a SMALLINT), the claim succeeds and its attempt gets the next number.\<close>

theorem ready_job_is_claimable:
  assumes "store_wf s" and "findById i s = Some cur" and "j_phase cur = Ready"
    and "with_status AttPending i s = []" and "uuid \<notin> a_id ` set (job_attempts s)"
    and "length (attempts_of i s) < 32767"
  shows "\<exists>a s'. claim i agent h now uuid s = (Inr (Inr a), s') \<and>
    a_attempt_number a = int (length (attempts_of i s)) + 1"
proof -
  obtain a s' where "claim_insert cur (int (length (attempts_of i s)) + 1) i agent h now uuid s =
      (Inr (Inr a), s')" "a_attempt_number a = int (length (attempts_of i s)) + 1"
    using claim_insert_succeeds [OF assms(1) findById_known [OF assms(2)] assms(5,6)] by metis
  then show ?thesis using assms pending_attempt_None [of i s] by (simp add: claim_def claim_after_read_def)
qed

theorem ready_job_is_claimable_witness:
  "\<exists>a s'. claim ''a-1'' ''bot'' None 1000 ''u1'' ex_db = (Inr (Inr a), s') \<and> a_attempt_number a = 1"
proof -
  have "findById ''a-1'' ex_db = Some (ex_job ''a-1'' None Ready ReviewHuman)"
    by (simp add: findById_def ex_db_def ex_job_def)
  from ready_job_is_claimable [OF ex_db_wf this, of "''u1''" "''bot''" None 1000]
  show ?thesis by (simp add: ex_defs with_status_def attempts_of_def)
qed

text \<open>The read and the writes of a claim are separate statements without a lock. When a second client has
  read the ready job before the first client's claim and goes on after it, both claims succeed and the
  job has two running attempts.\<close>

theorem claim_after_stale_read:
  assumes "store_wf s" and "findById i s = Some cur" and "j_phase cur = Ready"
    and "with_status AttPending i s = []" and "uuid \<noteq> uuid'"
    and "uuid \<notin> a_id ` set (job_attempts s)" and "uuid' \<notin> a_id ` set (job_attempts s)"
    and "length (attempts_of i s) < 32766"
  shows "\<exists>a s1 a' s2. claim i agent h now uuid s = (Inr (Inr a), s1) \<and>
    claim_after_read cur i agent' h' now uuid' s1 = (Inr (Inr a'), s2) \<and>
    length (with_status AttRunning i s2) = length (with_status AttRunning i s) + 2"
proof -
  let ?n = "int (length (attempts_of i s)) + 1"
  have pend: "pending_attempt i s = None" using assms(4) by (simp add: pending_attempt_None)
  obtain a s1 where ins: "claim_insert cur ?n i agent h now uuid s = (Inr (Inr a), s1)"
    using claim_insert_succeeds [OF assms(1) findById_known [OF assms(2)] assms(6)] assms(8) by force
  then have run: "claim i agent h now uuid s = (Inr (Inr a), s1)"
    using assms(2,3) pend by (simp add: claim_def claim_after_read_def)
  have a: "a_job_id a = i" "a_status a = AttRunning" "a_id a = uuid" "job_attempts s1 = job_attempts s @ [a]"
    using claim_insert_effect [OF ins] by auto
  have wf1: "store_wf s1" using claim_wf [OF assms(1)] run by (metis snd_conv)
  note one = with_status_append [OF a(4,1)]
  have known: "job_known s1 i"
    by (rule claim_success [OF assms(1) run]) (blast intro: findById_known)
  have fresh: "uuid' \<notin> a_id ` set (job_attempts s1)" using a assms(5,7) by auto
  have "length (attempts_of i s1) < 32767" using one assms(8) by simp
  from claim_insert_succeeds [OF wf1 known fresh this] obtain a' s2 where
    ins': "claim_insert cur (int (length (attempts_of i s1)) + 1) i agent' h' now uuid' s1 = (Inr (Inr a'), s2)"
    by blast
  have a': "a_job_id a' = i" "a_status a' = AttRunning" "job_attempts s2 = job_attempts s1 @ [a']"
    using claim_insert_effect [OF ins'] by auto
  have "pending_attempt i s1 = None" using one a assms(4) by (simp add: pending_attempt_None)
  then have "claim_after_read cur i agent' h' now uuid' s1 = (Inr (Inr a'), s2)"
    using assms(3) ins' by (simp add: claim_after_read_def)
  moreover have "length (with_status AttRunning i s2) = length (with_status AttRunning i s) + 2"
    using one with_status_append [OF a'(3,1)] a a' by simp
  ultimately show ?thesis using run by blast
qed

theorem claim_after_stale_read_witness:
  "\<exists>a s1 a' s2. claim ''a-1'' ''bot1'' None 1000 ''u1'' ex_db = (Inr (Inr a), s1) \<and>
    claim_after_read (ex_job ''a-1'' None Ready ReviewHuman) ''a-1'' ''bot2'' None 1000 ''u2'' s1 = (Inr (Inr a'), s2) \<and>
    length (with_status AttRunning ''a-1'' s2) = 2"
proof -
  have "findById ''a-1'' ex_db = Some (ex_job ''a-1'' None Ready ReviewHuman)"
    by (simp add: findById_def ex_db_def ex_job_def)
  moreover have "with_status AttPending ''a-1'' ex_db = []" "with_status AttRunning ''a-1'' ex_db = []"
    "job_attempts ex_db = []" "attempts_of ''a-1'' ex_db = []" "j_phase (ex_job ''a-1'' None Ready ReviewHuman) = Ready"
    by (simp_all add: ex_defs with_status_def attempts_of_def)
  ultimately show ?thesis
    using claim_after_stale_read [OF ex_db_wf, of "''a-1''" "ex_job ''a-1'' None Ready ReviewHuman"
        "''u1''" "''u2''" "''bot1''" None 1000 "''bot2''" None] by (simp add: numeral_2_eq_2)
qed

definition ex_double_reject :: db where
  "ex_double_reject =
     (let s1 = snd (rejectReview ''a-1'' ''ann'' ''no'' 3000 ''u2'' ex_review);
          s2 = snd (submitForReview ''a-1'' ''bot'' ''again'' 4000 s1);
          s3 = snd (rejectReview ''a-1'' ''ann'' ''no'' 5000 ''u3'' s2);
          s4 = snd (claim ''a-1'' ''bot'' None 6000 ''u4'' s3)
      in snd (claim ''a-1'' ''bot2'' None 6001 ''u5'' s4))"

text \<open>Also without interleaving a job can get two running attempts: after a rejected review, a second
  submission finds the old succeeded attempt although the retry is still pending, and a second
  rejection adds another pending attempt; both can then be claimed.\<close>

theorem double_rejection_gives_two_running_attempts:
  "map a_attempt_number (with_status AttRunning ''a-1'' ex_double_reject) = [2, 3]"
  by code_simp

definition closed_as :: "failure_disposition \<Rightarrow> string \<Rightarrow> timestamp \<Rightarrow> job \<Rightarrow> bool" where
  "closed_as d why now j =
     (j_phase j = Cancelled \<and> j_failure_disposition j = Some d \<and> j_close_reason j = Some why \<and> j_closed_at j = Some now)"

text \<open>C4: The failure of an open job always returns, and its effect on every job is exact. The job is cancelled as failed with the given
  reason. A job that is open and depends on it through any chain of blocking relations is cancelled as upstream
  failed and waits for no gate. A backlog child of the failed job that does not depend on it is cancelled as upstream
  failed too. Every other job, closed dependents included, is left as it was. The gates that go are those of the failed job
  and of the cancelled dependents, and no others.\<close>

theorem failure_cascade:
  assumes wf: "store_wf s" and j: "findById i s = Some j" and open': "\<not> terminal_phase (j_phase j)"
  shows "\<exists>r s'. markJobFailed i reason now s = Some (Some r, s') \<and>
    (\<exists>j'. findById i s' = Some j' \<and> closed_as DispFailed (case reason of None \<Rightarrow> ''Job failed'' | Some r \<Rightarrow> r) now j' \<and>
       j_blocked_on_gates j' = []) \<and>
    (\<forall>k jk. findById k s = Some jk \<longrightarrow> k \<noteq> i \<longrightarrow>
       (if \<not> terminal_phase (j_phase jk) \<and> depends_on s i k then
          \<exists>jk'. findById k s' = Some jk' \<and> closed_as DispUpstreamFailed (''Upstream job '' @ i @ '' failed'') now jk' \<and>
            j_blocked_on_gates jk' = []
        else if j_parent_id jk = Some i \<and> j_phase jk = Backlog then
          \<exists>jk'. findById k s' = Some jk' \<and> closed_as DispUpstreamFailed (''Parent job '' @ i @ '' failed'') now jk'
        else findById k s' = Some jk)) \<and>
    (\<forall>g. g \<in> set (job_gates s') \<longleftrightarrow> g \<in> set (job_gates s) \<and> g_job_id g \<noteq> i \<and>
       \<not> (depends_on s i (g_job_id g) \<and> (\<exists>x. findById (g_job_id g) s = Some x \<and> \<not> terminal_phase (j_phase x))))"
proof -
  let ?why = "case reason of None \<Rightarrow> ''Job failed'' | Some r \<Rightarrow> r"
  obtain r s' where run: "markJobFailed i reason now s = Some (Some r, s')"
    and find: "\<And>k. findById k s' = map_option (\<lambda>x. if k = i then clear_gates_row now (close_row DispFailed ?why now x)
        else upstream_failed s i k now x) (findById k s)"
    and gates: "\<And>g. g \<in> set (job_gates s') \<longleftrightarrow> g \<in> set (job_gates s) \<and> g_job_id g \<noteq> i \<and>
        \<not> (depends_on s i (g_job_id g) \<and> (\<exists>x. findById (g_job_id g) s = Some x \<and> \<not> terminal_phase (j_phase x)))"
    by (rule markJobFailed_effect [OF assms]) blast
  have self: "\<exists>j'. findById i s' = Some j' \<and> closed_as DispFailed ?why now j' \<and> j_blocked_on_gates j' = []"
    using j by (simp add: find closed_as_def close_row_def clear_gates_row_def)
  have rest: "if \<not> terminal_phase (j_phase jk) \<and> depends_on s i k then
          \<exists>jk'. findById k s' = Some jk' \<and> closed_as DispUpstreamFailed (''Upstream job '' @ i @ '' failed'') now jk' \<and>
            j_blocked_on_gates jk' = []
        else if j_parent_id jk = Some i \<and> j_phase jk = Backlog then
          \<exists>jk'. findById k s' = Some jk' \<and> closed_as DispUpstreamFailed (''Parent job '' @ i @ '' failed'') now jk'
        else findById k s' = Some jk" if "findById k s = Some jk" "k \<noteq> i" for k jk
  proof -
    have f: "findById k s' = Some (upstream_failed s i k now jk)" using that by (simp add: find)
    consider "\<not> terminal_phase (j_phase jk)" "depends_on s i k" | "\<not> (\<not> terminal_phase (j_phase jk) \<and> depends_on s i k)"
      "j_parent_id jk = Some i" "j_phase jk = Backlog"
      | "\<not> (\<not> terminal_phase (j_phase jk) \<and> depends_on s i k)" "\<not> (j_parent_id jk = Some i \<and> j_phase jk = Backlog)" by blast
    then show ?thesis
    proof cases
      case 1
      then have "upstream_failed s i k now jk = clear_gates_row now (close_row DispUpstreamFailed (''Upstream job '' @ i @ '' failed'') now jk)"
        by (simp add: upstream_failed_def)
      then show ?thesis unfolding f if_P [OF conjI [OF 1]] by (simp add: closed_as_def close_row_def clear_gates_row_def)
    next
      case 2
      then have "upstream_failed s i k now jk = close_row DispUpstreamFailed (''Parent job '' @ i @ '' failed'') now jk"
        by (simp add: upstream_failed_def terminal_phase_def)
      then show ?thesis unfolding f if_not_P [OF 2(1)] if_P [OF conjI [OF 2(2,3)]] by (simp add: closed_as_def close_row_def)
    next
      case 3
      then have "upstream_failed s i k now jk = jk" unfolding upstream_failed_def mem_Collect_eq by presburger
      then show ?thesis unfolding f if_not_P [OF 3(1)] if_not_P [OF 3(2)] by simp
    qed
  qed
  show ?thesis
  proof (rule exI [of _ r], rule exI [of _ s'], intro conjI allI impI)
  qed (rule run, rule self, erule rest, assumption, rule gates)
qed

lemma ex_depends: "depends_on ex_db ''a-1'' ''a-2''"
  by (rule depends_on.direct) (simp add: dependents_of_def ex_defs blocking_relation_def)

lemma ex_find:
  "findById ''a-1'' ex_db = Some (ex_job ''a-1'' None Ready ReviewHuman)"
  "findById ''a-2'' ex_db = Some (ex_job ''a-2'' None Ready ReviewNone)"
  by (simp_all add: findById_def ex_db_def ex_job_def)

theorem failure_cascade_witness:
  "\<exists>r s'. markJobFailed ''a-1'' None 9 ex_db = Some (Some r, s') \<and>
     (\<exists>jd'. findById ''a-2'' s' = Some jd' \<and> j_failure_disposition jd' = Some DispUpstreamFailed)"
proof -
  have o: "\<not> terminal_phase (j_phase (ex_job ''a-1'' None Ready ReviewHuman))"
    "\<not> terminal_phase (j_phase (ex_job ''a-2'' None Ready ReviewNone))" by (simp_all add: ex_job_def)
  from failure_cascade [OF ex_db_wf ex_find(1) o(1), of None 9] show ?thesis
  proof (elim exE conjE, goal_cases)
    case (1 r s' j')
    have "''a-2'' \<noteq> (''a-1'' :: string)" by simp
    from 1(1) 1(2) [rule_format, OF ex_find(2) this] ex_depends o(2) show ?case by (auto simp: closed_as_def)
  qed
qed

text \<open>C10: The ready query returns only jobs that may run, best first: each is in the table, in the project, ready
  or active, with the requested assignee, past its deferral and without an open blocker; they are ordered by
  priority and age, and no eligible job that the limit cuts off comes before a returned one.\<close>

theorem ready_query_sound_and_best:
  "(\<forall>j. j \<in> set (getReadyJobs pr assignee limit now s) \<longrightarrow>
      j \<in> set (jobs s) \<and> in_project pr j \<and> (j_phase j = Ready \<or> j_phase j = Active) \<and>
      j_assignee j = assignee \<and> (\<forall>t. j_defer_until j = Some t \<longrightarrow> t \<le> now) \<and> \<not> isBlocked (j_id j) s) \<and>
   sorted (map (\<lambda>j. (j_priority j, j_created_at j)) (getReadyJobs pr assignee limit now s)) \<and>
   (\<forall>j k. j \<in> set (getReadyJobs pr assignee limit now s) \<longrightarrow> k \<in> set (jobs s) \<longrightarrow>
      schedulable pr now s k \<longrightarrow> j_assignee k = assignee \<longrightarrow>
      k \<notin> set (getReadyJobs pr assignee limit now s) \<longrightarrow>
      (j_priority j, j_created_at j) \<le> (j_priority k, j_created_at k))"
proof (intro conjI allI impI)
  fix j assume "j \<in> set (getReadyJobs pr assignee limit now s)"
  note m = getReadyJobs_mem [OF this]
  then show "j \<in> set (jobs s)" "in_project pr j" "j_phase j = Ready \<or> j_phase j = Active"
    "j_assignee j = assignee"
    by (auto simp: schedulable_def)
  show "\<not> isBlocked (j_id j) s" using m schedulable_not_blocked [of pr now s j] by simp
  show "t \<le> now" if "j_defer_until j = Some t" for t
    using m that by (simp add: schedulable_def not_deferred_def)
next
  show "sorted (map (\<lambda>j. (j_priority j, j_created_at j)) (getReadyJobs pr assignee limit now s))"
    unfolding getReadyJobs_def take_map [symmetric] by (rule sorted_wrt_take [OF sorted_order_by])
next
  fix j k
  assume "j \<in> set (getReadyJobs pr assignee limit now s)" "k \<in> set (jobs s)" "schedulable pr now s k"
    "j_assignee k = assignee" "k \<notin> set (getReadyJobs pr assignee limit now s)"
  then show "(j_priority j, j_created_at j) \<le> (j_priority k, j_created_at k)"
    unfolding getReadyJobs_def by (intro take_order_by_least) auto
qed

theorem ready_query_sound_and_best_witness:
  "\<not> isBlocked ''a-1'' ex_db \<and> map j_id (getReadyJobs ''proj_1'' None None 1000 ex_db) = [''a-1'']"
proof -
  have ids: "map j_id (getReadyJobs ''proj_1'' None None 1000 ex_db) = [''a-1'']" by code_simp
  then obtain j where j: "j \<in> set (getReadyJobs ''proj_1'' None None 1000 ex_db)" "j_id j = ''a-1''" by auto
  from ready_query_sound_and_best [THEN conjunct1, rule_format, OF j(1)] j(2) ids show ?thesis by simp
qed

text \<open>The orchestrator's claim hands out only runnable work: a job that \<^verbatim>\<open>claimNextJob\<close> returns was unassigned,
  not blocked and not deferred, it is returned in the active phase assigned to the claiming agent, and
  the attempt that comes with it is its running attempt of that agent.\<close>

theorem claim_next_is_runnable:
  assumes wf: "store_wf s" and "claimNextJob pr agent h now uuid s = (Inr (Some (j, a)), s')"
  shows "\<exists>j0. findById (j_id j) s = Some j0 \<and> j_assignee j0 = None \<and> \<not> isBlocked (j_id j) s \<and>
    not_deferred now j0 \<and> findById (j_id j) s' = Some j \<and> j_phase j = Active \<and> j_assignee j = Some agent \<and>
    a_job_id a = j_id j \<and> a_status a = AttRunning \<and> a_agent_id a = Some agent"
proof -
  let ?p = "case pr of None \<Rightarrow> [] | Some p \<Rightarrow> p"
  obtain j0 rest where sel: "getReadyJobs ?p None (Some 1) now s = j0 # rest"
    using assms(2) by (auto simp: claimNextJob_def split: list.splits)
  then have j0: "j0 \<in> set (jobs s)" "schedulable ?p now s j0" "j_assignee j0 = None"
    using getReadyJobs_mem [of j0 ?p None "Some 1" now s] by auto
  let ?h = "coalesce h (coalesce (j_harness j0) (hint_harness j0))"
  have run: "claim (j_id j0) agent ?h now uuid s = (Inr (Inr a), s')" and found: "findById (j_id j0) s' = Some j"
    using assms(2) sel by (auto simp: claimNextJob_def split: prod.splits sum.splits)
  have f0: "findById (j_id j0) s = Some j0" using j0(1) by (simp add: findById_iff [OF wf])
  show ?thesis
    by (rule claim_success [OF wf run])
       (use found f0 j0 schedulable_not_blocked [OF j0(2)] in \<open>auto simp: schedulable_def\<close>)
qed

definition ex_next :: "(job \<times> attempt) \<times> db" where
  "ex_next = ((activate ''bot'' 1000 (ex_job ''a-1'' None Ready ReviewHuman), ex_attempt), ex_claimed)"

theorem claim_next_is_runnable_witness:
  "j_assignee (fst (fst ex_next)) = Some ''bot'' \<and> \<not> isBlocked ''a-1'' ex_db"
proof -
  have "getReadyJobs ''proj_1'' None (Some 1) 1000 ex_db = [ex_job ''a-1'' None Ready ReviewHuman]"
    by (simp add: getReadyJobs_def schedulable_def ex_defs in_project_def not_deferred_def
        open_blocker_def blocking_relation_def)
  moreover have "findById ''a-1'' ex_claimed = Some (activate ''bot'' 1000 (ex_job ''a-1'' None Ready ReviewHuman))"
    by (rule claim_success [OF ex_db_wf ex_claim]) (simp add: ex_find)
  ultimately have "claimNextJob (Some ''proj_1'') ''bot'' None 1000 ''u1'' ex_db =
      (Inr (Some (fst (fst ex_next), snd (fst ex_next))), snd ex_next)"
    using ex_claim by (simp add: claimNextJob_def ex_next_def ex_job_def hint_harness_def)
  from claim_next_is_runnable [OF ex_db_wf this] show ?thesis by (auto simp: ex_next_def ex_job_def)
qed

text \<open>The assigned-work query also selects active jobs that are already running. When such a job sorts first,
  \<^verbatim>\<open>claimNextAssignedJob\<close> returns nothing and claims nothing, whatever other assigned jobs are ready.\<close>

theorem running_job_blocks_assigned_claims:
  assumes "store_wf s" and "getReadyAssignedJobs pr (Some 1) now s = [j]" and "j_phase j = Active"
    and "with_status AttPending (j_id j) s = []"
  shows "claimNextAssignedJob (Some pr) now uuid s = (Inr None, s)"
proof -
  have "findById (j_id j) s = Some j"
    using getReadyAssignedJobs_mem [of j pr "Some 1" now s] assms(1,2) by (simp add: findById_iff)
  then show ?thesis using assms(2-4) pending_attempt_None [of "j_id j" s]
    by (simp add: claimNextAssignedJob_def claim_def claim_after_read_def)
qed

text \<open>Two assigned jobs; the first is running, the second ready.\<close>

definition ex_busy :: db where
  "ex_busy = (empty_store [ex_project])\<lparr>
     jobs := [(ex_job ''a-1'' None Active ReviewNone)\<lparr>j_assignee := Some ''bot''\<rparr>,
              (ex_job ''a-2'' None Ready ReviewNone)\<lparr>j_assignee := Some ''bot2'', j_created_at := 1001\<rparr>],
     job_attempts := [ex_attempt]\<rparr>"

theorem running_job_blocks_assigned_claims_witness:
  "claimNextAssignedJob (Some ''proj_1'') 2000 ''u9'' ex_busy = (Inr None, ex_busy) \<and>
   map j_id (getReadyAssignedJobs ''proj_1'' None 2000 ex_busy) = [''a-1'', ''a-2'']"
proof -
  let ?j = "(ex_job ''a-1'' None Active ReviewNone)\<lparr>j_assignee := Some ''bot''\<rparr>"
  have sel: "getReadyAssignedJobs ''proj_1'' (Some 1) 2000 ex_busy = [?j]"
    by (simp add: getReadyAssignedJobs_def schedulable_def ex_busy_def ex_defs in_project_def
        not_deferred_def order_by_def)
  have "store_wf ex_busy" "with_status AttPending ''a-1'' ex_busy = []"
    "map j_id (getReadyAssignedJobs ''proj_1'' None 2000 ex_busy) = [''a-1'', ''a-2'']"
    by code_simp+
  with running_job_blocks_assigned_claims [OF _ sel] show ?thesis by (simp add: ex_job_def)
qed

text \<open>The requeue does not look at the phase: it makes any existing job ready and unassigned, one that is done
  or cancelled included, and leaves its closing time in place.\<close>

theorem requeue_reopens_any_job:
  assumes "findById i s = Some j"
  shows "\<exists>j'. findById i (snd (requeueReady i actor d reason now s)) = Some j' \<and> j_phase j' = Ready \<and>
    j_assignee j' = None \<and> j_closed_at j' = j_closed_at j"
proof -
  have row: "j_id (requeue_row d now x) = j_id x" "j_phase (requeue_row d now x) = Ready"
    "j_assignee (requeue_row d now x) = None" "j_closed_at (requeue_row d now x) = j_closed_at x" for x
    by (simp_all add: requeue_row_def back_to_ready_def Let_def split: option.split)
  then show ?thesis using assms findById_Some [OF assms]
    by (simp add: requeueReady_def findById_update_jobs)
qed

theorem requeue_reopens_any_job_witness:
  "\<exists>j'. findById ''a-1'' (snd (requeueReady ''a-1'' ''o'' None None 7 ex_closed)) = Some j' \<and>
     j_phase j' = Ready \<and> j_closed_at j' = Some 5"
proof -
  have "findById ''a-1'' ex_closed = Some ((ex_job ''a-1'' None Done ReviewNone)\<lparr>j_closed_at := Some 5\<rparr>)"
    by (simp add: findById_def ex_closed_def ex_defs)
  from requeue_reopens_any_job [OF this, of "''o''" None None 7] show ?thesis by (auto simp: ex_job_def)
qed

text \<open>C11: The validated phase update has one winner. When it returns the job, the transition is in the table of
  valid transitions, a job that requires review becomes done only from review, and the stored job is the
  returned one; a second writer that validated against the same old phase then fails and changes nothing.\<close>

theorem phase_update_one_winner:
  assumes "updatePhase i p now s = (Inr j', s')" and "findById i s = Some j"
  shows "canTransition (j_phase j) p \<and>
    (p = Done \<longrightarrow> j_review_required j = ReviewNone \<or> j_phase j = Review) \<and>
    findById i s' = Some j' \<and> j_phase j' = p \<and>
    (terminal_phase p \<longleftrightarrow> j_closed_at j' \<noteq> None) \<and>
    (\<exists>e. updatePhase_write i (j_phase j) q now' s' = (Inl e, s'))"
proof -
  have chk: "updatePhase_check j p = None"
    using assms by (cases "updatePhase_check j p") (auto simp: updatePhase_def)
  have s': "s' = update_jobs (\<lambda>x. j_id x = i \<and> j_phase x = j_phase j) (set_phase p now) s"
    using updatePhase_state [of i p now s] assms chk by simp
  have j': "j' = set_phase p now j"
    using assms chk by (simp add: updatePhase_def updatePhase_write_def Let_def)
  have f: "findById i s' = Some (set_phase p now j)"
    using assms(2) findById_Some [OF assms(2)] by (simp add: s' findById_update_jobs)
  have ne: "p \<noteq> j_phase j" using chk by (auto simp: updatePhase_check_None)
  have "update_jobs (\<lambda>x. j_id x = i \<and> j_phase x = j_phase j) g s' = s'" for g
    using ne unfolding s' update_jobs_def by (simp add: update_where_def comp_def)
  then show ?thesis using chk j' f ne by (auto simp: updatePhase_check_None updatePhase_write_def Let_def)
qed

theorem phase_update_one_winner_witness:
  "\<exists>e. updatePhase_write ''a-2'' Ready Cancelled 6 (snd (updatePhase ''a-2'' Active 5 ex_db)) =
     (Inl e, snd (updatePhase ''a-2'' Active 5 ex_db))"
proof -
  have "updatePhase ''a-2'' Active 5 ex_db =
      (Inr (set_phase Active 5 (ex_job ''a-2'' None Ready ReviewNone)), snd (updatePhase ''a-2'' Active 5 ex_db))"
    using ex_find(2) by (simp add: updatePhase_def updatePhase_check_def canTransition_def
        updatePhase_write_def Let_def ex_job_def)
  from phase_update_one_winner [OF this ex_find(2), of Cancelled 6] show ?thesis by (simp add: ex_job_def)
qed

text \<open>An attempt is finished at most once: when \<^verbatim>\<open>completeAttempt\<close> returns a row for an attempt id, that attempt
  was running and is now ended with the given status, and every later completion of it returns nothing
  and changes nothing, so the first result stands.\<close>

theorem attempt_completes_once:
  assumes "completeAttempt i st r now s = (Some a, s')" and "st \<noteq> AttRunning"
  shows "(\<exists>a0 \<in> set (job_attempts s). a_id a0 = i \<and> a_status a0 = AttRunning) \<and>
    a \<in> set (job_attempts s') \<and> a_status a = st \<and> a_ended_at a = Some now \<and>
    completeAttempt i st' r' now' s' = (None, s')"
proof -
  let ?P = "\<lambda>a. a_id a = i \<and> a_status a = AttRunning"
  obtain a0 where a0: "find_row ?P (job_attempts s) = Some a0" "a = finish_attempt st r now a0"
      "s' = update_attempts ?P (finish_attempt st r now) s"
    using assms(1) by (auto simp: completeAttempt_def)
  note m = find_row_Some [OF a0(1)]
  have none: "\<not> ?P x" if "x \<in> set (job_attempts s')" for x
    using that assms(2) by (auto simp: a0(3) elim!: in_set_update_whereE split: if_splits)
  then have "find_row ?P (job_attempts s') = None" by (auto simp: find_row_None)
  moreover have "update_attempts ?P f s' = s'" for f
    using none by (simp add: update_attempts_def update_where_False)
  moreover have "a \<in> set (job_attempts s')" using m by (auto simp: a0 set_update_where)
  ultimately show ?thesis using m a0(2) by (auto simp: completeAttempt_def)
qed

theorem attempt_completes_once_witness:
  "completeAttempt ''u1'' AttFailed no_result 3000 (snd (completeAttempt ''u1'' AttSucceeded no_result 2000 ex_busy)) =
     (None, snd (completeAttempt ''u1'' AttSucceeded no_result 2000 ex_busy))"
proof -
  have "completeAttempt ''u1'' AttSucceeded no_result 2000 ex_busy =
      (Some (finish_attempt AttSucceeded no_result 2000 ex_attempt),
       snd (completeAttempt ''u1'' AttSucceeded no_result 2000 ex_busy))"
    by (simp add: completeAttempt_def ex_busy_def ex_attempt_def new_attempt_def)
  from attempt_completes_once [OF this, of AttFailed no_result 3000] show ?thesis by simp
qed

text \<open>C5: Gate acquisition is all or nothing, also while other clients change the table between its statements
  (anything but the job's own gates): a success holds every requested gate until the new expiry; a failure
  reports nothing acquired and leaves the job either with the gates it had or with none of the requested.\<close>

theorem gates_all_or_nothing:
  assumes "rely i env" and "unique_gates s" and "acquireGates env i ks ttl c now s = (Inr r, s')"
  shows "unique_gates s' \<and>
    (success r \<longrightarrow> acquired r = ks \<and> (\<forall>k \<in> set ks. holds_until i (now + ttl * 1000) k s')) \<and>
    (\<not> success r \<longrightarrow> acquired r = [] \<and>
      (own_gates i s' = own_gates i (snd (cleanupExpiredGates now s)) \<or>
       (\<forall>g \<in> set (own_gates i s'). g_gate_key g \<notin> set ks)))"
  using acquireGates_all_or_nothing [OF assms] acquireGates_unique [OF assms(1,2,3)]
  by (cases "success r") simp_all

text \<open>Another job takes the second gate after the first has been acquired.\<close>

definition ex_thief :: "nat \<Rightarrow> db \<Rightarrow> db" where
  "ex_thief n s =
     (if n = 2 \<and> (\<forall>g \<in> set (job_gates s). g_gate_key g \<noteq> ''env:b'')
      then s\<lparr>job_gates := job_gates s @ [\<lparr>g_gate_key = ''env:b'', g_job_id = ''a-2'', g_acquired_at = 1000,
        g_ttl_expires_at = 9000, g_context = []\<rparr>]\<rparr> else s)"

theorem gates_all_or_nothing_witness:
  "\<exists>r s'. acquireGates ex_thief ''a-1'' [''env:a'', ''env:b''] 60 [] 1000 ex_db = (Inr r, s') \<and>
     \<not> success r \<and> acquired r = [] \<and> blocked_by r = [''env:b''] \<and> own_gates ''a-1'' s' = []"
proof -
  let ?run = "acquireGates ex_thief ''a-1'' [''env:a'', ''env:b''] 60 [] 1000 ex_db"
  let ?r = "\<lparr>success = False, acquired = [], blocked_by = [''env:b'']\<rparr>"
  have rely: "rely ''a-1'' ex_thief"
    by (auto simp: rely_def ex_thief_def unique_gates_def own_gates_def)
  have u: "unique_gates ex_db" by (simp add: unique_gates_def ex_defs)
  have run: "?run = (Inr ?r, snd ?run)" by code_simp
  have "\<forall>g \<in> set (own_gates ''a-1'' (snd ?run)). g_gate_key g \<in> {''env:a'', ''env:b''}" by code_simp
  moreover have "own_gates ''a-1'' (snd (cleanupExpiredGates 1000 ex_db)) = []"
    by (simp add: own_gates_def ex_defs)
  ultimately have "own_gates ''a-1'' (snd ?run) = []"
    using gates_all_or_nothing [OF rely u run] by (cases "own_gates ''a-1'' (snd ?run)") auto
  then show ?thesis using run by (intro exI [of _ ?r] exI [of _ "snd ?run"]) simp
qed

text \<open>C6: A gate acquisition that runs alone implements the abstract lease: it never throws for an existing job, it
  succeeds exactly when no requested gate is held by another job, it reports exactly the gates that are
  in the way, and afterwards the holders are those of the abstract lease.\<close>

theorem gates_refine_lease:
  assumes "lease_ok ttl i s"
  shows "\<exists>r s'. acquireGates alone i ks ttl c now s = (Inr r, s') \<and>
    success r = (\<not> lease_conflict i (set ks) (holder now s)) \<and>
    set (blocked_by r) = {k \<in> set ks. \<exists>i'. i' \<noteq> i \<and> holder now s k = Some i'} \<and>
    holder now s' = lease_acquire i (set ks) (holder now s)"
  using acquireGates_refines [OF assms] by blast

definition ex_gated :: db where
  "ex_gated = snd (acquireGates alone ''a-1'' [''env:a''] 60 [] 1000 ex_db)"

theorem gates_refine_lease_witness:
  "\<exists>r s'. acquireGates alone ''a-2'' [''env:b'', ''env:a''] 60 [] 2000 ex_gated = (Inr r, s') \<and>
     \<not> success r \<and> holder 2000 s' = holder 2000 ex_gated"
proof -
  have ok: "lease_ok 60 ''a-2'' ex_gated" by code_simp
  have "holder 2000 ex_gated ''env:a'' = Some ''a-1''" by code_simp
  then have "lease_conflict ''a-2'' (set [''env:b'', ''env:a'']) (holder 2000 ex_gated)"
    by (simp add: lease_conflict_def)
  with gates_refine_lease [OF ok, of "[''env:b'', ''env:a'']" "[]" 2000] show ?thesis
    by (auto simp: lease_acquire_def)
qed

text \<open>C7: Gates exclude for the time of the lease. After a job has acquired a set of gates for some seconds, a request by another job for any
  of them fails at every time before those seconds are over. Its request for the whole set succeeds at every time
  from then on, and at any time once the first job has released the set.\<close>

theorem gates_exclude_and_hand_over:
  assumes "lease_ok ttl a s" and "lease_ok ttl' b s" and "a \<noteq> b"
    and "fst (try_acquire ttl c now a ks s)"
  shows "(\<forall>ks' later. set ks \<inter> set ks' \<noteq> {} \<longrightarrow> later < now + ttl * 1000 \<longrightarrow>
      \<not> fst (try_acquire ttl' c' later b ks' (snd (try_acquire ttl c now a ks s)))) \<and>
    (\<forall>later. now + ttl * 1000 \<le> later \<longrightarrow>
      fst (try_acquire ttl' c' later b ks (snd (try_acquire ttl c now a ks s)))) \<and>
    (\<forall>later. fst (try_acquire ttl' c' later b ks (snd (releaseGates a (Some ks) (snd (try_acquire ttl c now a ks s))))))"
  using lease_runs [OF assms] lease_ends [OF assms(1,2,4)] lease_handed_over [OF assms(1,2,4)] by blast

theorem gates_exclude_and_hand_over_witness:
  "\<not> fst (try_acquire 60 [] 60999 ''a-2'' [''env:a''] (snd (try_acquire 60 [] 1000 ''a-1'' [''env:a''] ex_db))) \<and>
   fst (try_acquire 60 [] 61000 ''a-2'' [''env:a''] (snd (try_acquire 60 [] 1000 ''a-1'' [''env:a''] ex_db)))"
proof -
  have "lease_ok 60 ''a-1'' ex_db" "lease_ok 60 ''a-2'' ex_db"
    "fst (try_acquire 60 [] 1000 ''a-1'' [''env:a''] ex_db)" by code_simp+
  from gates_exclude_and_hand_over [OF this(1,2) _ this(3), of "[]"] show ?thesis by simp
qed

text \<open>A generated job id is new. A root id is not in the table; a child id is not the id of any job filed under
  the same parent, and it exists in the table only if a job carries an id of the form parent.n
  without that parent.\<close>

theorem generated_job_id_is_fresh:
  assumes "generateJobId pr parent hashes s = Some (Inr (i, pid))"
    and "\<forall>j \<in> set (jobs s). \<forall>p. starts_with (p @ ''.'') (j_id j) \<longrightarrow> parent = Some p \<longrightarrow> j_parent_id j = Some p"
  shows "\<not> jobExists i s"
proof -
  obtain slug where res: "resolveProjectForJobId pr s = Inr (pid, slug)"
    using assms(1) by (auto simp: generateJobId_def Let_def split: sum.splits option.splits list.splits if_splits)
  show ?thesis
  proof (cases "parent = None \<or> parent = Some []")
    case True
    then have "fresh_root_id slug hashes s = Some i"
      using assms(1) res by (auto simp: generateJobId_def)
    then show ?thesis by (rule fresh_root_id_fresh)
  next
    case False
    then obtain c cs where p: "parent = Some (c # cs)" by (metis list.exhaust option.exhaust)
    then obtain n where n: "getNextChildSequence (c # cs) s = Inr n" "i = (c # cs) @ ''.'' @ show_int n"
      using assms(1) res by (auto simp: generateJobId_def Let_def split: sum.splits if_splits)
    show ?thesis unfolding jobExists_def exists_row_iff
    proof
      assume "\<exists>j \<in> set (jobs s). j_id j = i"
      then obtain j where j: "j \<in> set (jobs s)" "j_id j = i" by blast
      moreover have "starts_with ((c # cs) @ ''.'') (j_id j)" using j n by (auto simp: starts_with_iff)
      ultimately have "j_parent_id j = Some (c # cs)" using assms(2) p by blast
      then show False using getNextChildSequence_fresh [OF n(1) j(1)] j n by blast
    qed
  qed
qed

theorem generated_job_id_is_fresh_witness:
  "generateJobId ''a'' (Some ''a-1'') [] ex_db = Some (Inr (''a-1.2'', ''proj_1'')) \<and> \<not> jobExists ''a-1.2'' ex_db"
proof -
  have gen: "generateJobId ''a'' (Some ''a-1'') [] ex_db = Some (Inr (''a-1.2'', ''proj_1''))" by code_simp
  have "\<forall>j \<in> set (jobs ex_db). \<forall>p. starts_with (p @ ''.'') (j_id j) \<longrightarrow> Some ''a-1'' = Some p \<longrightarrow>
      j_parent_id j = Some p"
    by (simp add: ex_defs starts_with_def)
  from generated_job_id_is_fresh [OF gen this] gen show ?thesis by simp
qed

text \<open>The hierarchy query ends and returns the job with all its descendants, when every job was created after its
  parent: one round per job and one more are enough, and the result is exactly the descendants.\<close>

theorem hierarchy_terminates_with_descendants:
  assumes "parents_first s"
  shows "\<exists>t. getHierarchy (length (jobs s) + 1) i s = Some t \<and> set t = {j. descendant s i j}"
proof -
  have "level_from s 0 (filter (\<lambda>j. j_id j = i) (jobs s))"
    by (auto simp: level_from_def in_set_conv_nth)
  from job_tree_terminates [OF assms this, of "length (jobs s) + 1"] obtain t where
    "getHierarchy (length (jobs s) + 1) i s = Some t" by (auto simp: getHierarchy_def)
  then show ?thesis using getHierarchy_set by blast
qed

theorem hierarchy_terminates_with_descendants_witness:
  "\<exists>t. getHierarchy 4 ''a-1'' ex_db = Some t \<and> set t = {j. descendant ex_db ''a-1'' j}"
proof -
  have "parents_first ex_db"
    by (auto simp: parents_first_def ex_defs less_Suc_eq numeral_3_eq_3)
  moreover have "length (jobs ex_db) + 1 = 4" by (simp add: ex_db_def)
  ultimately show ?thesis using hierarchy_terminates_with_descendants [of ex_db "''a-1''"] by simp
qed

end
