(* ===== verification/Process_Properties.thy ===== *)
theory Process_Properties
  imports Recovery_Properties Job_Properties
begin

section \<open>Properties of processing a job\<close>

text \<open>Frame lemmas of the orchestrator steps over the job store, and the theorem that a processed attempt is settled on every path.\<close>

subsection \<open>Nothing starts and nothing is locked\<close>

text \<open>
  No attempt is running, and no job holds a gate, that was not before. Everything the loop does to the
  store after the worker answered has this effect.
\<close>

definition quiet :: "db \<Rightarrow> db \<Rightarrow> bool" where
  "quiet s s' =
     ((\<forall>a' \<in> set (job_attempts s'). a_status a' = AttRunning \<longrightarrow>
         (\<exists>a \<in> set (job_attempts s). a_id a = a_id a' \<and> a_status a = AttRunning)) \<and>
      (\<forall>g' \<in> set (job_gates s'). \<exists>g \<in> set (job_gates s). g_job_id g = g_job_id g'))"

named_theorems quiet_intros \<open>operations after which nothing new runs or is locked\<close>

lemma quiet_refl [simp]: "quiet s s"
  by (auto simp: quiet_def)

lemma quiet_trans: "quiet s t \<Longrightarrow> quiet t u \<Longrightarrow> quiet s u"
  unfolding quiet_def by metis

lemma quiet_cong:
  "job_attempts s' = job_attempts t \<Longrightarrow> job_gates s' = job_gates t \<Longrightarrow> quiet s s' = quiet s t"
  by (simp add: quiet_def)

lemma quiet_jobs [simp]: "quiet s (update_jobs P f t) = quiet s t"
  by (rule quiet_cong) simp_all

lemma quiet_audit [simp]: "quiet s (audit a b c d e f g n t) = quiet s t"
  by (rule quiet_cong) simp_all

lemma quiet_attempts:
  assumes "\<And>a. P a \<Longrightarrow> a_id (f a) = a_id a" "\<And>a. P a \<Longrightarrow> a_status (f a) = AttRunning \<Longrightarrow> a_status a = AttRunning"
  shows "quiet s (update_attempts P f s)"
  using assms by (fastforce simp: quiet_def elim!: in_set_update_whereE split: if_splits)

lemma quiet_gates: "set gs \<subseteq> set (job_gates s) \<Longrightarrow> quiet s (s\<lparr>job_gates := gs\<rparr>)"
  by (auto simp: quiet_def)

lemma quiet_complete [quiet_intros]: "st \<noteq> AttRunning \<Longrightarrow> quiet s (snd (completeAttempt i st r now s))"
  by (auto simp: completeAttempt_def finish_attempt_def intro!: quiet_attempts)

lemma quiet_requeue [quiet_intros]: "quiet s (snd (requeueReady i actor d reason now s))"
  by (auto simp: requeueReady_def split: option.split)

lemma quiet_releaseGates [quiet_intros]: "quiet s (snd (releaseGates i ks s))"
  by (auto simp: releaseGates_def intro!: quiet_gates split: option.split)

lemma quiet_end_current [quiet_intros]: "st \<noteq> AttRunning \<Longrightarrow> quiet s (end_current st i why now s)"
  by (auto simp: end_current_def end_attempt_def intro!: quiet_attempts split: option.split)

lemma quiet_drop_gates [quiet_intros]: "quiet s (drop_gates ids now s)"
  by (auto simp: drop_gates_def intro!: quiet_gates)

lemma quiet_closing:
  "st \<noteq> AttRunning \<Longrightarrow> quiet s (drop_gates [i] now (update_jobs P f (end_current st i why now s)))"
  by (rule quiet_trans [OF _ quiet_drop_gates]) (simp add: quiet_end_current)

lemma quiet_cancelJob [quiet_intros]: "quiet s (snd (cancelJob i reason now s))"
  by (auto simp: cancelJob_def close_backlog_children_def Let_def quiet_closing split: option.split)

lemma quiet_cascade: "cascade_cancel i now s = Some s' \<Longrightarrow> quiet s s'"
  by (auto simp: cascade_cancel_def Let_def split: option.splits if_splits
      intro: quiet_trans [OF _ quiet_drop_gates])

lemma quiet_failJob [quiet_intros]: "quiet s (snd (failJob i reason now s))"
  by (auto simp: failJob_def markJobFailed_def close_backlog_children_def Let_def quiet_closing
      intro: quiet_trans [OF quiet_closing quiet_cascade] split: option.split)

lemma quiet_markJobDone [quiet_intros]: "quiet s (snd (markJobDone i summary now s))"
proof -
  have "quiet s (snd (updatePhase i p now s))" for p
    by (auto simp: updatePhase_def updatePhase_write_def Let_def split: option.split)
  moreover have "quiet s (snd (submitForReview i agent msg now s))" for agent msg
    by (auto simp: submitForReview_def Let_def end_attempt_def intro!: quiet_attempts split: option.split)
  ultimately show ?thesis by (auto simp: markJobDone_state split: option.split)
qed

lemma quiet_plain [quiet_intros]:
  "quiet s (updateBlockedOnGates i ks now s)" "quiet s (clearBlockedOnGates i now s)"
  "quiet s (updateResolvedGit i g now s)" "quiet s (updatePipelineStepOutputs job r now s)"
  "quiet s (relayToCoordinationThread x job summary now s)" "quiet s (cancelStagedBacklogChildren job why now s)"
  "quiet s (set_hints i h now s)" "quiet s (snd (updateRun i u now s))"
  by (auto simp: updateBlockedOnGates_def clearBlockedOnGates_def updateResolvedGit_def updatePipelineStepOutputs_def
      setStepOutput_def relayToCoordinationThread_def cancelStagedBacklogChildren_def set_hints_def updateRun_def
      Let_def quiet_def split: option.split)

lemma quiet_receipt [quiet_intros]: "quiet s (updateAttemptReceipt i r b c d s)"
  by (auto simp: updateAttemptReceipt_def intro!: quiet_attempts)

lemma store_emit [simp]: "store (emit e now w) = store w"
  by (simp add: emit_def create_event_def insert_event_def Let_def split: option.split)

lemma store_events [simp]:
  "store (emitJobFailureEvent x job ls i m c ec now w) = store w"
  "store (emitJobAttemptCompletedEvent x job i ok d now w) = store w"
  "store (emitPipelineFailureEvent x run m now w) = store w"
  by (simp_all add: emitJobFailureEvent_def emitJobAttemptCompletedEvent_def emitPipelineFailureEvent_def)

lemma store_ledger [simp]:
  "store (snd (ensureBalance o' c now w)) = store w" "store (snd (createTransaction t now w)) = store w"
  "store (tryChargeForReceipt x job att now w) = store w"
proof -
  show e: "store (snd (ensureBalance o' c now w)) = store w" for o' c now w
    by (auto simp: ensureBalance_def Let_def split: option.split)
  have "store (snd (ledger_transact t now w)) = store w" for t now w
    by (cases rule: ledger_transact_cases [of t now w]) auto
  then show t: "store (snd (createTransaction t now w)) = store w" for t now w
    by (auto simp: createTransaction_def split: option.split)
  show "store (tryChargeForReceipt x job att now w) = store w"
    using e by (auto simp: tryChargeForReceipt_def t split: option.split prod.split sum.split)
       (metis snd_conv)+
qed

lemma store_ingest [simp]: "store (syncIngestRecordStatus i h ok msg now w) = store w"
  by (auto simp: syncIngestRecordStatus_def updateIngestStatus_def Let_def split: option.split)

lemma quiet_persist [quiet_intros]: "quiet (store w) (store (tryPersistAttemptReceipt x job att w))"
  by (auto simp: tryPersistAttemptReceipt_def quiet_receipt split: option.split)

lemma quiet_close_root [quiet_intros]: "quiet (store w) (store (snd (close_root i h a b c now w)))"
  using quiet_markJobDone [of "store w" i None now]
  by (auto simp: close_root_def Let_def quiet_cancelJob split: prod.split sum.split)

lemma quiet_tryClose [quiet_intros]: "quiet (store w) (store (tryCloseWorkflowRoot p now w))"
  by (auto simp: tryCloseWorkflowRoot_def Let_def quiet_close_root split: option.split)

lemma quiet_updateRun_world: "quiet (store w) (store (snd (updateRun_world i u now w)))"
  by (simp add: updateRun_world_def quiet_plain)

lemma quiet_finish_run: "quiet (store w) (store (finish_run x run js now w))"
  unfolding finish_run_def Let_def
  using quiet_updateRun_world [of w]
  by (auto split: prod.split sum.split option.split) (metis snd_conv)+

lemma quiet_syncRun [quiet_intros]: "quiet (store w) (store (syncPipelineRunStatus x r now w))"
proof -
  have "quiet (store w) (store (finish_run x run js now w1))" if "updateRun_world r u now w = (q, w1)" for run js w1 u q
    using quiet_trans [OF _ quiet_finish_run] quiet_updateRun_world [of w r u now] that by simp
  then show ?thesis using quiet_updateRun_world [of w r] quiet_finish_run
    by (auto simp: syncPipelineRunStatus_def Let_def split: prod.split sum.split option.split) (metis snd_conv)+
qed

definition settled :: "string \<Rightarrow> db \<Rightarrow> bool" where
  "settled i s = (\<forall>a \<in> set (job_attempts s). a_id a = i \<longrightarrow> a_status a \<noteq> AttRunning)"

definition gate_free :: "string \<Rightarrow> db \<Rightarrow> bool" where
  "gate_free i s = (\<forall>g \<in> set (job_gates s). g_job_id g \<noteq> i)"

lemma quiet_settled: "quiet s s' \<Longrightarrow> settled i s \<Longrightarrow> settled i s'"
  unfolding quiet_def settled_def by metis

lemma quiet_gate_free: "quiet s s' \<Longrightarrow> gate_free i s \<Longrightarrow> gate_free i s'"
  unfolding quiet_def gate_free_def by metis

lemma complete_settles: "st \<noteq> AttRunning \<Longrightarrow> settled i (snd (completeAttempt i st r now s))"
  by (auto simp: settled_def completeAttempt_def finish_attempt_def elim!: in_set_update_whereE split: if_splits)

lemma release_frees: "gate_free i (snd (releaseGates i None s))"
  by (simp add: gate_free_def releaseGates_def)

lemma quiet_give_up: "quiet s (cancelStagedBacklogChildren job why now (snd (failJob i m now s)))"
  by (rule quiet_trans [OF quiet_failJob quiet_plain(6)])

lemma handle_settles: "settled (a_id att) (store (snd (handleProcessJobError x job att m now w)))"
proof -
  let ?r = "no_result\<lparr>ar_exitCode := Some 1, ar_errorMessage := Some m\<rparr>"
  obtain row s1 where c: "completeAttempt (a_id att) AttFailed ?r now (store w) = (row, s1)" by fastforce
  have s1: "settled (a_id att) s1" using complete_settles [of AttFailed "a_id att" ?r now "store w"] c by simp
  have "quiet s1 (store (snd (handleProcessJobError x job att m now w)))"
  proof (cases row)
    case None
    then show ?thesis using quiet_give_up by (auto simp: handleProcessJobError_def c Let_def split: option.split)
  next
    case (Some a)
    have "quiet s1 (store (tryPersistAttemptReceipt x job a (w\<lparr>store := s1\<rparr>)))"
      using quiet_persist [of "w\<lparr>store := s1\<rparr>"] by simp
    from quiet_trans [OF this quiet_give_up] Some show ?thesis
      by (simp add: handleProcessJobError_def c Let_def)
  qed
  then show ?thesis using s1 by (rule quiet_settled)
qed

lemma quiet_promote: "quiet s (promote_staged job now s)"
proof -
  have "quiet s (snd (requeueReady i a d r now (set_hints i h now (update_jobs P f s))))" for i a d r h P f
    by (rule quiet_trans [OF _ quiet_requeue]) (simp add: set_hints_def)
  then show ?thesis by (auto simp: promote_staged_def Let_def)
qed

lemma quiet_waiting: "quiet s (requeue_waiting job ctl now s)"
proof -
  have "quiet s (snd (requeueReady i a d r now (set_hints i h now s)))" for i a d r h
    by (rule quiet_trans [OF _ quiet_requeue]) (simp add: set_hints_def)
  then show ?thesis by (auto simp: requeue_waiting_def Let_def quiet_requeue split: option.split list.split)
qed

text \<open>What \<^verbatim>\<open>finalizeJobResult\<close> does before it looks at the outcome.\<close>

definition after_receipt :: "ext \<Rightarrow> job \<Rightarrow> harness_result \<Rightarrow> eve_control \<Rightarrow> attempt \<Rightarrow> timestamp \<Rightarrow> world \<Rightarrow> world" where
  "after_receipt x job result ctl row now w =
     (let w2 = tryChargeForReceipt x job row now (tryPersistAttemptReceipt x job row w)
      in w2\<lparr>store := relayToCoordinationThread x job (ec_summary ctl) now
            (updatePipelineStepOutputs job (hr_resultJson result) now (store w2))\<rparr>)"

lemma quiet_after_receipt: "quiet (store w) (store (after_receipt x job result ctl row now w))"
  unfolding after_receipt_def Let_def
  by (simp, rule quiet_trans [OF quiet_trans [OF quiet_persist quiet_plain(4)] quiet_plain(5)])

lemma quiet_success:
  "quiet s (snd (markJobDone i m now (case g of None \<Rightarrow> s | Some h \<Rightarrow> updateResolvedGit i h now s)))"
  by (rule quiet_trans [OF _ quiet_markJobDone]) (auto simp: quiet_plain split: option.split)

lemma quiet_finalize: "quiet (store w) (store (snd (finalizeJobResult nt x job att result ctl outcome row now w)))"
proof -
  define w3 where "w3 = after_receipt x job result ctl row now w"
  have q: "quiet (store w) (store w3)" by (simp add: w3_def quiet_after_receipt)
  have "quiet (store w3) (store (snd (finalizeJobResult nt x job att result ctl outcome row now w)))"
    unfolding finalizeJobResult_def Let_def
    unfolding w3_def [unfolded after_receipt_def Let_def, symmetric]
    using quiet_success [of "store w3" "j_id job" None now "Option.bind (getLatestAttempt (j_id job) (store w3)) a_git_json"]
    by (auto simp: quiet_promote quiet_waiting quiet_requeue finish_failed_def Let_def quiet_give_up
        split: prod.split sum.split option.split intro: quiet_trans [OF _ quiet_plain(6)])
  with q show ?thesis by (rule quiet_trans)
qed

lemma quiet_external: "quiet (store w) (store (snd (external_finish x job att result now w)))"
  using quiet_markJobDone [of "store w" "j_id job" None now]
  by (auto simp: external_finish_def Let_def quiet_failJob split: prod.split sum.split)

lemma dispatch_settles:
  assumes "dispatchAndAwait x job att answer others now w = (Inr out, w')"
  shows "settled (a_id att) (store w')"
proof -
  obtain result where answer: "answer = Inr result"
    using assms by (cases answer) (auto simp: dispatchAndAwait_def Let_def split: if_splits)
  define ctl where "ctl = extractEveControl (hr_resultJson result)"
  define outcome where "outcome = resolveOrchestrationOutcome (hr_success result) (ec_status ctl)"
  obtain row s2 where c: "completeAttempt (a_id att) (attempt_status_of outcome) (result_of result ctl) now (store (others w)) = (row, s2)"
    by fastforce
  have s2: "settled (a_id att) s2"
    using complete_settles [of "attempt_status_of outcome" "a_id att" "result_of result ctl" now "store (others w)"] c
    by (simp add: attempt_status_of_def)
  have "quiet s2 (store w')"
  proof (cases row)
    case (Some a)
    then have "store w' = s2" using assms
      by (auto simp: dispatchAndAwait_def Let_def answer c simp flip: ctl_def outcome_def split: if_splits)
    then show ?thesis by simp
  next
    case None
    then have "external_finish x job att result now ((others w)\<lparr>store := s2\<rparr>) = (Inr out, w')" using assms
      by (auto simp: dispatchAndAwait_def Let_def answer c simp flip: ctl_def outcome_def split: if_splits)
    then show ?thesis using quiet_external [of "(others w)\<lparr>store := s2\<rparr>" x job att result now] by simp
  qed
  then show ?thesis using s2 by (rule quiet_settled)
qed

lemma blocked_settles:
  assumes "acquireJobGates env job att ks now s = (Inr False, s')"
  shows "settled (a_id att) s'"
proof -
  obtain r s1 where "acquireGates env (j_id job) ks (gate_ttl job)
      [(''orchestrator'', JBool True), (''env_name'', json_opt (j_env_name job))] now s = (Inr r, s1)" "\<not> success r"
    using assms by (auto simp: acquireJobGates_def split: if_splits prod.splits sum.splits)
  then show ?thesis using assms
    by (auto simp: acquireJobGates_def Let_def complete_settles split: if_splits
        intro!: quiet_settled [OF quiet_requeue])
qed

lemma quiet_resources: "quiet (store w) (store (releaseJobResources x job ks ended now w))"
proof -
  have "quiet (store w) (store (syncPipelineRunStatus x r now (w\<lparr>store := snd (releaseGates i None (store w))\<rparr>)))" for r i
    by (rule quiet_trans [OF quiet_releaseGates])
       (use quiet_syncRun [of "w\<lparr>store := snd (releaseGates i None (store w))\<rparr>" x r now] in simp)
  then show ?thesis
    by (auto simp: releaseJobResources_def Let_def quiet_releaseGates quiet_syncRun split: option.split
        intro!: quiet_trans [OF _ quiet_tryClose])
qed

lemma resources_freed:
  assumes "ks \<noteq> []"
  shows "gate_free (j_id job) (store (releaseJobResources x job ks ended now w))"
proof -
  let ?w1 = "w\<lparr>store := snd (releaseGates (j_id job) None (store w))\<rparr>"
  have "releaseJobResources x job ks ended now w = releaseJobResources x job [] ended now ?w1"
    using assms by (simp add: releaseJobResources_def)
  moreover have "quiet (store ?w1) (store (releaseJobResources x job [] ended now ?w1))" by (rule quiet_resources)
  ultimately show ?thesis using quiet_gate_free release_frees by simp
qed

text \<open>How a call of \<^verbatim>\<open>processJob\<close> ends: it releases the resources of a job whose attempt is settled.\<close>

definition ends_settled :: "ext \<Rightarrow> job \<Rightarrow> attempt \<Rightarrow> timestamp \<Rightarrow> world \<Rightarrow> bool" where
  "ends_settled x job att now v =
     (\<exists>ended w'. v = releaseJobResources x job (resolveRequiredJobGates job) ended now w' \<and> settled (a_id att) (store w'))"

lemma ends_settledI:
  "settled (a_id att) (store w') \<Longrightarrow>
   ends_settled x job att now (releaseJobResources x job (resolveRequiredJobGates job) ended now w')"
  unfolding ends_settled_def by blast

lemma recover_ends:
  "ends_settled x job att now (case apfst Some (handleProcessJobError x job att m now v) of
     (ended, w) \<Rightarrow> releaseJobResources x job (resolveRequiredJobGates job) ended now w)"
  using handle_settles [of att x job m now v]
  by (cases "handleProcessJobError x job att m now v") (auto intro: ends_settledI)

lemma dispatched_ends:
  assumes "acquireJobGates (y_gate_others y) job att (resolveRequiredJobGates job) now (store w) = (Inr True, s1)"
  shows "ends_settled x job att now (processJob y x job att answer now w)"
proof (cases "dispatchAndAwait x job att answer (y_others y) now (w\<lparr>store := s1\<rparr>)")
  case d: (Pair o' w2)
  show ?thesis
  proof (cases o')
    case (Inl e)
    then show ?thesis using assms d recover_ends by (simp add: processJob_def Let_def)
  next
    case (Inr out)
    have s2: "settled (a_id att) (store w2)" using dispatch_settles d Inr by blast
    show ?thesis
    proof (cases out)
      case (Externally_finalized ok msg)
      then show ?thesis using assms d Inr ends_settledI [OF s2] by (simp add: processJob_def Let_def)
    next
      case (Completed result ctl outcome row)
      obtain f w3 where f: "finalizeJobResult (y_num_text y) x job att result ctl outcome row now w2 = (f, w3)"
        by fastforce
      have "settled (a_id att) (store w3)"
        using quiet_settled [OF quiet_finalize s2, of "y_num_text y" x job att result ctl outcome row now] f by simp
      then show ?thesis using assms d Inr Completed f recover_ends ends_settledI
        by (cases f) (auto simp: processJob_def Let_def)
    qed
  qed
qed

lemma processJob_ends: "ends_settled x job att now (processJob y x job att answer now w)"
proof (cases "acquireJobGates (y_gate_others y) job att (resolveRequiredJobGates job) now (store w)")
  case (Pair r s1)
  consider e where "r = Inl e" | "r = Inr False" | "r = Inr True" by (metis (full_types) sum.exhaust)
  then show ?thesis
  proof cases
    case 1
    then show ?thesis using Pair recover_ends by (simp add: processJob_def Let_def)
  next
    case 2
    then show ?thesis using Pair blocked_settles ends_settledI [of att "w\<lparr>store := s1\<rparr>"]
      by (simp add: processJob_def Let_def)
  next
    case 3
    then show ?thesis using Pair dispatched_ends by blast
  qed
qed

text \<open>
C17: Processing a job always settles its attempt and gives its gates back. On every path through
\<^verbatim>\<open>processJob\<close> (gates blocked or failing, worker throwing, result of any kind, attempt finished by another
client, an error while the result is stored), whatever other clients did in the meantime, the attempt is
not running afterwards, and a job that needed gates holds none.
\<close>

theorem processed_attempt_is_settled:
  "settled (a_id att) (store (processJob y x job att answer now w)) \<and>
   (resolveRequiredJobGates job \<noteq> [] \<longrightarrow> gate_free (j_id job) (store (processJob y x job att answer now w)))"
proof -
  obtain ended w' where eq: "processJob y x job att answer now w =
      releaseJobResources x job (resolveRequiredJobGates job) ended now w'" and s: "settled (a_id att) (store w')"
    using processJob_ends unfolding ends_settled_def by blast
  have "settled (a_id att) (store (processJob y x job att answer now w))"
    using quiet_settled [OF quiet_resources s] by (simp add: eq)
  then show ?thesis using resources_freed by (simp add: eq)
qed

definition ex_gated_job :: job where
  "ex_gated_job = ex_job_row\<lparr>j_hints := [(''gates'', JArr [JStr ''db''])]\<rparr>"

definition ex_gated_world :: world where
  "ex_gated_world = ex_running_world\<lparr>store := (store ex_running_world)\<lparr>jobs := [ex_gated_job]\<rparr>\<rparr>"

definition ex_setting :: setting where
  "ex_setting = \<lparr>y_num_text = (\<lambda>n. ''0''), y_db_text = (\<lambda>e. ''database error''), y_gate_others = alone, y_others = (\<lambda>w. w)\<rparr>"

theorem processed_attempt_is_settled_witness:
  "let w = processJob ex_setting ex_ext ex_gated_job ex_attempt_row (Inl ''worker unreachable'') 5000 ex_gated_world
   in gate_free ''demo-a1'' (store w) \<and> settled ''u1'' (store w) \<and>
      map a_status (job_attempts (store w)) = [AttFailed] \<and> map j_phase (jobs (store w)) = [Cancelled]"
proof -
  let ?w = "processJob ex_setting ex_ext ex_gated_job ex_attempt_row (Inl ''worker unreachable'') 5000 ex_gated_world"
  have i: "j_id ex_gated_job = ''demo-a1''" "a_id ex_attempt_row = ''u1''"
    by (simp_all add: ex_gated_job_def ex_job_row_def ex_attempt_row_def)
  have g: "resolveRequiredJobGates ex_gated_job \<noteq> []" by code_simp
  have v: "map a_status (job_attempts (store ?w)) = [AttFailed]" "map j_phase (jobs (store ?w)) = [Cancelled]" by code_simp+
  show ?thesis
    using processed_attempt_is_settled [of ex_attempt_row ex_setting ex_ext ex_gated_job "Inl ''worker unreachable''" 5000 ex_gated_world]
      g v unfolding i Let_def by blast
qed

end
