(* ===== verification/Outcome_Properties.thy ===== *)
theory Outcome_Properties
  imports Process_Properties
begin

section \<open>Properties of outcomes: roots, runs and retries\<close>

text \<open>What follows a finished attempt: how workflow roots close, how a pipeline run follows its jobs, and when a failed job is retried.\<close>

subsection \<open>Workflow roots\<close>

lemma cancelJob_phase:
  assumes "findById i s = Some j" "\<not> terminal_phase (j_phase j)"
  shows "\<exists>j'. findById i (snd (cancelJob i reason now s)) = Some j' \<and> j_phase j' = Cancelled"
proof -
  have e: "findById i (end_current st i why now s) = Some j" for st why
    using assms(1) by (simp add: end_current_def split: option.split)
  let ?why = "case reason of None \<Rightarrow> ''Job cancelled'' | Some r \<Rightarrow> r"
  let ?s3 = "drop_gates [i] now (update_jobs (\<lambda>j. j_id j = i \<and> \<not> terminal_phase (j_phase j))
     (close_row DispCancelled ?why now) (end_current AttCancelled i ?why now s))"
  have i: "j_id j = i" using findById_Some [OF assms(1)] by simp
  have f: "findById i ?s3 = Some (clear_gates_row now (close_row DispCancelled ?why now j))"
    using e assms(2) i by (simp add: drop_gates_def findById_update_jobs close_row_def clear_gates_row_def)
  have u: "find_row (\<lambda>j. j_id j = i \<and> \<not> terminal_phase (j_phase j)) (jobs (end_current AttCancelled i ?why now s)) \<noteq> None"
    using findById_Some [OF e [of AttCancelled ?why]] assms(2) by (auto simp: find_row_None)
  then obtain k where k: "find_row (\<lambda>j. j_id j = i \<and> \<not> terminal_phase (j_phase j)) (jobs (end_current AttCancelled i ?why now s)) = Some k"
    by blast
  have "snd (cancelJob i reason now s) =
      close_backlog_children DispCancelled (''Parent job '' @ i @ '' cancelled'') i now ?s3"
    using assms k by (simp add: cancelJob_def Let_def)
  moreover have "findById i (close_backlog_children d t i now ?s3) = Some (clear_gates_row now (close_row DispCancelled ?why now j))" for d t
    unfolding close_backlog_children_def
    by (simp add: findById_update_jobs f close_row_def clear_gates_row_def)
  ultimately show ?thesis by (simp add: close_row_def clear_gates_row_def)
qed

lemma markJobDone_phase:
  assumes "findById i s = Some j" "j_phase j = Active" "j_review_required j = ReviewNone"
  shows "\<exists>r j'. markJobDone i m now s = (Inr r, snd (markJobDone i m now s)) \<and>
    findById i (snd (markJobDone i m now s)) = Some j' \<and> j_phase j' = Done"
proof -
  have i: "j_id j = i" using findById_Some [OF assms(1)] by simp
  have "updatePhase_check j Done = None" using assms(2,3) by (simp add: updatePhase_check_def canTransition_def)
  then have u: "updatePhase i Done now s = (Inr (set_phase Done now j),
      update_jobs (\<lambda>j. j_id j = i \<and> j_phase j = Active) (set_phase Done now) s)"
    using assms by (simp add: updatePhase_def updatePhase_write_def Let_def)
  then show ?thesis using assms i
    by (simp add: markJobDone_def findById_update_jobs set_phase_def)
qed

lemma count_closed:
  "length cs = count_phase Done cs + count_phase Cancelled cs \<longleftrightarrow> list_all (\<lambda>c. terminal_phase (j_phase c)) cs"
proof (induction cs)
  case (Cons c cs)
  have "length (filter (\<lambda>c. j_phase c = Done) cs) + length (filter (\<lambda>c. j_phase c = Cancelled) cs) \<le> length cs"
    by (induction cs) auto
  with Cons show ?case by (cases "j_phase c") (auto simp: count_phase_def)
qed (simp add: count_phase_def)

lemma count_done: "count_phase Done cs = length cs \<longleftrightarrow> list_all (\<lambda>c. j_phase c = Done) cs"
proof (induction cs)
  case (Cons c cs)
  have "length (filter (\<lambda>c. j_phase c = Done) cs) \<noteq> Suc (length cs)"
    using length_filter_le [of "\<lambda>c. j_phase c = Done" cs] by linarith
  with Cons show ?case by (auto simp: count_phase_def)
qed (simp add: count_phase_def)

text \<open>
C16: Closing a workflow root. When \<^verbatim>\<open>tryCloseWorkflowRoot\<close> is called for an active root that needs no review, the
root closes exactly when it has current children (superseded retries do not count) and all of them are
closed: as done when every one is done, as cancelled otherwise. In all other cases nothing changes, and
the same holds for a parent that is no workflow root.
\<close>

theorem workflow_root_closes_with_its_steps:
  assumes "findById p (store w) = Some root_job" "j_phase root_job = Active" "j_review_required root_job = ReviewNone"
  shows "let cs = current_children p (store w); w' = tryCloseWorkflowRoot p now w in
    if json_truthy (obj_get (j_hints root_job) ''workflow_root'') \<and> cs \<noteq> [] \<and> list_all (\<lambda>c. terminal_phase (j_phase c)) cs
    then \<exists>j'. findById p (store w') = Some j' \<and>
      j_phase j' = (if list_all (\<lambda>c. j_phase c = Done) cs then Done else Cancelled)
    else w' = w"
proof -
  let ?cs = "current_children p (store w)"
  show ?thesis
  proof (cases "json_truthy (obj_get (j_hints root_job) ''workflow_root'') \<and> ?cs \<noteq> [] \<and> list_all (\<lambda>c. terminal_phase (j_phase c)) ?cs")
    case False
    then show ?thesis using assms count_closed [of ?cs] by (auto simp: tryCloseWorkflowRoot_def Let_def)
  next
    case True
    let ?d = "count_phase Done ?cs" and ?f = "count_phase Cancelled ?cs"
    have closed: "length ?cs = ?d + ?f" using True count_closed [of ?cs] by blast
    have eq: "tryCloseWorkflowRoot p now w = snd (close_root p (j_hints root_job) ?d ?f (length ?cs) now w)"
      using assms True closed by (simp add: tryCloseWorkflowRoot_def Let_def)
    have "\<exists>j'. findById p (store (snd (close_root p (j_hints root_job) ?d ?f (length ?cs) now w))) = Some j' \<and>
        j_phase j' = (if list_all (\<lambda>c. j_phase c = Done) ?cs then Done else Cancelled)"
    proof (cases "list_all (\<lambda>c. j_phase c = Done) ?cs")
      case d: True
      then have "?d = length ?cs" "?f = 0" using count_done [of ?cs] closed by auto
      then show ?thesis using d markJobDone_phase [OF assms, of None now]
        by (auto simp: close_root_def Let_def split: prod.split sum.split)
    next
      case d: False
      then have "?d \<noteq> length ?cs" using count_done [of ?cs] by simp
      moreover have "\<not> terminal_phase (j_phase root_job)" using assms(2) by simp
      ultimately show ?thesis using d cancelJob_phase [OF assms(1)]
        by (simp add: close_root_def Let_def)
    qed
    then show ?thesis using True unfolding Let_def eq by simp
  qed
qed

definition ex_root_job :: job where
  "ex_root_job = ex_job_row\<lparr>j_hints := [(''workflow_root'', JBool True)]\<rparr>"

definition ex_workflow_world :: world where
  "ex_workflow_world = ex_world\<lparr>store := (store ex_world)\<lparr>jobs := [ex_root_job,
     ex_job_row\<lparr>j_id := ''demo-a1.1'', j_parent_id := Some ''demo-a1'', j_phase := Done\<rparr>,
     ex_job_row\<lparr>j_id := ''demo-a1.2'', j_parent_id := Some ''demo-a1'', j_phase := Cancelled\<rparr>]\<rparr>\<rparr>"

theorem workflow_root_closes_with_its_steps_witness:
  "\<exists>j'. findById ''demo-a1'' (store (tryCloseWorkflowRoot ''demo-a1'' 9000 ex_workflow_world)) = Some j' \<and> j_phase j' = Cancelled"
proof -
  have f: "findById ''demo-a1'' (store ex_workflow_world) = Some ex_root_job" by code_simp
  have r: "j_phase ex_root_job = Active" "j_review_required ex_root_job = ReviewNone"
    by (simp_all add: ex_root_job_def ex_job_row_def)
  have c: "json_truthy (obj_get (j_hints ex_root_job) ''workflow_root'')"
    "current_children ''demo-a1'' (store ex_workflow_world) \<noteq> []"
    "list_all (\<lambda>c. terminal_phase (j_phase c)) (current_children ''demo-a1'' (store ex_workflow_world))"
    "\<not> list_all (\<lambda>c. j_phase c = Done) (current_children ''demo-a1'' (store ex_workflow_world))"
    by code_simp+
  show ?thesis using workflow_root_closes_with_its_steps [OF f r, of 9000] c by (simp add: Let_def)
qed

subsection \<open>Pipeline runs\<close>

lemma updateRun_status:
  assumes "dedupe_unique s" "findRunById i s = Some r" "ru_status u = Some st"
    and "run_terminal st \<or> \<not> run_terminal (pr_status r)"
  shows "\<exists>q r'. updateRun i u now s = (Inr q, snd (updateRun i u now s)) \<and>
    findRunById i (snd (updateRun i u now s)) = Some r' \<and> pr_status r' = st \<and> dedupe_unique (snd (updateRun i u now s))"
proof -
  have r: "r \<in> set (pipeline_runs s)" "pr_id r = i" using find_row_Some assms(2) by (fastforce simp: findRunById_def)+
  have st: "pr_status (apply_run_update u now r) = st" by (simp add: apply_run_update_def or_keep_def assms(3))
  have "\<not> dedupe_conflict (apply_run_update u now r) s"
  proof (cases "run_terminal st")
    case True
    then show ?thesis by (simp add: dedupe_conflict_def st)
  next
    case False
    have "\<not> dedupe_conflict r s" using dedupe_uniqueD [OF assms(1) r(1)] unfolding conflict_iff by metis
    then show ?thesis using assms(4) False by (simp add: dedupe_conflict_def st)
  qed
  moreover have "u \<noteq> no_update" using assms(3) by (auto simp: no_update_def)
  ultimately have u: "updateRun i u now s = (Inr (Some (apply_run_update u now r)),
      s\<lparr>pipeline_runs := update_where (\<lambda>r. pr_id r = i) (apply_run_update u now) (pipeline_runs s)\<rparr>)"
    by (simp add: updateRun_def assms(2))
  have "findRunById i (snd (updateRun i u now s)) = Some (apply_run_update u now r)"
    using assms(2) r(2) find_row_update_where [where k = pr_id and P = "\<lambda>r. pr_id r = i" and f = "apply_run_update u now"]
    by (simp add: u findRunById_def)
  then show ?thesis using updateRun_dedupe [OF assms(1), of i u now] u st by simp
qed

lemma finish_run_status:
  assumes "dedupe_unique (store w)" "findRunById (pr_id run) (store w) = Some r0"
  shows "\<exists>r'. findRunById (pr_id run) (store (finish_run x run js now w)) = Some r' \<and>
    pr_status r' = (if \<exists>j \<in> set js. failed_job j then ''failed'' else ''succeeded'')"
proof -
  have t: "run_terminal ''failed''" "run_terminal ''succeeded''" by (simp_all add: run_terminal_def)
  show ?thesis
  proof (cases "\<exists>j \<in> set js. failed_job j")
    case True
    let ?u = "no_update\<lparr>ru_status := Some ''failed'', ru_started_at := Some (Some (or_default now (pr_started_at run))),
      ru_completed_at := Some (Some now), ru_error_message := Some (Some (or_default ''One or more pipeline jobs failed''
        (Option.bind (first_row (order_by closed_key (filter failed_job js))) j_close_reason)))\<rparr>"
    obtain q r' where q: "updateRun (pr_id run) ?u now (store w) = (Inr q, snd (updateRun (pr_id run) ?u now (store w)))"
      "findRunById (pr_id run) (snd (updateRun (pr_id run) ?u now (store w))) = Some r'" "pr_status r' = ''failed''"
      using updateRun_status [OF assms, of ?u "''failed''" now] t by auto
    have "updateRun_world (pr_id run) ?u now w = (Inr q, w\<lparr>store := snd (updateRun (pr_id run) ?u now (store w))\<rparr>)"
      unfolding updateRun_world_def on_store_def by (subst q(1)) simp
    then show ?thesis using True q(2,3) by (simp add: finish_run_def Let_def)
  next
    case False
    then show ?thesis
      using updateRun_status [OF assms, of "no_update\<lparr>ru_status := Some ''succeeded'',
          ru_started_at := Some (Some (or_default now (pr_started_at run))), ru_completed_at := Some (Some now)\<rparr>" "''succeeded''" now] t
      by (auto simp: finish_run_def Let_def updateRun_world_def)
  qed
qed

text \<open>
The status of a job-based pipeline run follows its jobs. For an unfinished run with jobs, after
\<^verbatim>\<open>syncPipelineRunStatus\<close> the run has failed when all its jobs are closed and one was cancelled with a reason other
than a plain cancellation, and has succeeded when all are closed otherwise; that includes a run all of
whose jobs were cancelled. While jobs are open a pending run is running as soon as one has started.
\<close>

theorem pipeline_run_follows_its_jobs:
  assumes u: "dedupe_unique (store w)" and run: "findRunById i (store w) = Some run"
    and mode: "pr_run_mode run = Some ''jobs''" "\<not> run_terminal (pr_status run)" and js: "run_jobs i (store w) \<noteq> []"
  shows "\<exists>r'. findRunById i (store (syncPipelineRunStatus x i now w)) = Some r' \<and>
    pr_status r' =
      (if \<forall>j \<in> set (run_jobs i (store w)). terminal_phase (j_phase j) then
         (if \<exists>j \<in> set (run_jobs i (store w)). failed_job j then ''failed'' else ''succeeded'')
       else if pr_status run = ''pending'' \<and> (\<exists>j \<in> set (run_jobs i (store w)). started_job j) then ''running''
       else pr_status run)"
proof -
  let ?js = "run_jobs i (store w)"
  have i: "pr_id run = i" using find_row_Some run by (fastforce simp: findRunById_def)
  let ?u = "no_update\<lparr>ru_status := Some ''running'', ru_started_at := Some (Some now)\<rparr>"
  let ?start = "pr_status run = ''pending'' \<and> (\<exists>j \<in> set ?js. started_job j)"
  obtain q w1 r1 where w1: "(if pr_status run = ''pending'' \<and> exists_row started_job ?js then updateRun_world i ?u now w else (Inr None, w)) = (Inr q, w1)"
    and r1: "findRunById i (store w1) = Some r1" "pr_status r1 = (if ?start then ''running'' else pr_status run)"
    and u1: "dedupe_unique (store w1)"
  proof (cases ?start)
    case True
    obtain q r' where q: "updateRun i ?u now (store w) = (Inr q, snd (updateRun i ?u now (store w)))"
      "findRunById i (snd (updateRun i ?u now (store w))) = Some r'" "pr_status r' = ''running''"
      "dedupe_unique (snd (updateRun i ?u now (store w)))"
      using updateRun_status [OF u run, of ?u "''running''" now] mode(2) by auto
    have "updateRun_world i ?u now w = (Inr q, w\<lparr>store := snd (updateRun i ?u now (store w))\<rparr>)"
      unfolding updateRun_world_def on_store_def by (subst q(1)) simp
    then show thesis using True q(2-4) by (intro that [of q "w\<lparr>store := snd (updateRun i ?u now (store w))\<rparr>" r']) auto
  next
    case False
    then show thesis using run u by (intro that [of None w run]) auto
  qed
  have sync: "syncPipelineRunStatus x i now w =
      (if list_all (\<lambda>j. terminal_phase (j_phase j)) ?js then finish_run x run ?js now w1 else w1)"
    unfolding syncPipelineRunStatus_def run option.case Let_def w1 using mode js by simp
  show ?thesis
  proof (cases "\<forall>j \<in> set ?js. terminal_phase (j_phase j)")
    case True
    then show ?thesis using finish_run_status [of w1 run] u1 r1(1) by (simp add: sync i list_all_iff)
  next
    case False
    then show ?thesis using r1 by (auto simp: sync list_all_iff)
  qed
qed

definition ex_cancelled_run_world :: world where
  "ex_cancelled_run_world = ex_world\<lparr>store := (store ex_world)\<lparr>
     jobs := [ex_job_row\<lparr>j_phase := Cancelled, j_run_id := Some ''r1'', j_close_reason := Some ''Job cancelled''\<rparr>],
     pipeline_runs := [ex_run ''r1'']\<rparr>\<rparr>"

theorem pipeline_run_follows_its_jobs_witness:
  "\<exists>r'. findRunById ''r1'' (store (syncPipelineRunStatus ex_ext ''r1'' 9000 ex_cancelled_run_world)) = Some r' \<and>
     pr_status r' = ''succeeded''"
proof -
  have u: "dedupe_unique (store ex_cancelled_run_world)" by code_simp
  have r: "findRunById ''r1'' (store ex_cancelled_run_world) = Some (ex_run ''r1'')" by code_simp
  have m: "pr_run_mode (ex_run ''r1'') = Some ''jobs''" "\<not> run_terminal (pr_status (ex_run ''r1''))" by code_simp+
  have j: "run_jobs ''r1'' (store ex_cancelled_run_world) \<noteq> []" by code_simp
  have "\<forall>j \<in> set (run_jobs ''r1'' (store ex_cancelled_run_world)). terminal_phase (j_phase j)"
    "\<not> (\<exists>j \<in> set (run_jobs ''r1'' (store ex_cancelled_run_world)). failed_job j)" by code_simp+
  then show ?thesis using pipeline_run_follows_its_jobs [OF u r m j, of ex_ext 9000] by simp
qed

subsection \<open>Retries\<close>

lemma store_wf_frame [simp]:
  "store_wf (s\<lparr>pipeline_runs := r\<rparr>) = store_wf s" "store_wf (s\<lparr>thread_messages := m\<rparr>) = store_wf s"
  by (simp_all add: store_wf_def job_known_def numbered_def attempts_of_def unique_gates_def)

lemma after_receipt_jobs:
  "jobs (store (after_receipt x job result ctl row now w)) = jobs (store w)"
  by (auto simp: after_receipt_def Let_def relayToCoordinationThread_def updatePipelineStepOutputs_def setStepOutput_def
      tryPersistAttemptReceipt_def updateAttemptReceipt_def split: option.split)

lemma after_receipt_wf:
  assumes "store_wf (store w)"
  shows "store_wf (store (after_receipt x job result ctl row now w))"
proof -
  have "store_wf (store (tryPersistAttemptReceipt x job row w))"
    using assms by (auto simp: tryPersistAttemptReceipt_def receipt_update.keeps_wf split: option.split)
  then show ?thesis
    by (auto simp: after_receipt_def Let_def relayToCoordinationThread_def updatePipelineStepOutputs_def setStepOutput_def
        split: option.split)
qed

text \<open>
C18: What becomes of a job whose worker failed. When the retry policy allows another attempt, the job is
ready again, unassigned and deferred by the back-off of the attempt's number; this happens only while
the attempt's number is below the policy's maximum. Otherwise an open job is cancelled and marked as
failed. In both cases the attempt counts as failed with the worker's message. A back-off too long for a
date makes the call throw and changes no job.
\<close>

theorem failed_job_is_retried_or_closed:
  assumes wf: "store_wf (store w)" and j: "findById (j_id job) (store w) = Some j0" and o: "\<not> terminal_phase (j_phase j0)"
    and f: "finalizeJobResult nt x job att result ctl CtlFailed row now w = (r, w')"
  shows "case retry_delay job att of
      Some d \<Rightarrow>
        of_int (a_attempt_number att) < number_or 1 (Option.bind (obj_get (j_hints job) ''retry'') (\<lambda>p. json_get p ''max_attempts'')) \<and>
        (case js_date (of_int now + d * 1000) of
           Some t \<Rightarrow> r = Inr (False, Some (or_default ''Worker failed'' (hr_error result))) \<and>
             (\<exists>j'. findById (j_id job) (store w') = Some j' \<and> j_phase j' = Ready \<and> j_assignee j' = None \<and>
                j_defer_until j' = Some t)
         | None \<Rightarrow> (\<exists>e. r = Inl e) \<and> findById (j_id job) (store w') = Some j0)
    | None \<Rightarrow> r = Inr (False, Some (or_default ''Worker failed'' (hr_error result))) \<and>
        (\<exists>j'. findById (j_id job) (store w') = Some j' \<and> j_phase j' = Cancelled \<and> j_failure_disposition j' = Some DispFailed)"
proof -
  define w3 where "w3 = after_receipt x job result ctl row now w"
  have j3: "findById (j_id job) (store w3) = Some j0" using j by (simp add: w3_def findById_def after_receipt_jobs)
  have wf3: "store_wf (store w3)" using wf by (simp add: w3_def after_receipt_wf)
  have i: "j_id j0 = j_id job" using findById_Some [OF j] by simp
  have eq: "(r, w') = (case retry_delay job att of
      Some delaySec \<Rightarrow>
        (case js_date (of_int now + delaySec * 1000) of
           None \<Rightarrow> (Inl (Error ''Invalid time value''), w3)
         | Some deferUntil \<Rightarrow>
             (Inr (False, Some (or_default ''Worker failed'' (hr_error result))),
              w3\<lparr>store := snd (requeueReady (j_id job) ''orchestrator'' (Some (Some deferUntil))
                (Some (retry_reason att result (nt delaySec))) now (store w3))\<rparr>))
    | None \<Rightarrow> (Inr (False, Some (or_default ''Worker failed'' (hr_error result))), finish_failed x job att result now w3))"
    unfolding f [symmetric] finalizeJobResult_def Let_def w3_def after_receipt_def by simp
  show ?thesis
  proof (cases "retry_delay job att")
    case None
    obtain q s' where q: "markJobFailed (j_id job) (hr_error result) now (store w3) = Some (Some q, s')"
      and find: "\<And>k. findById k s' = map_option (\<lambda>y. if k = j_id job then
        clear_gates_row now (close_row DispFailed (case hr_error result of None \<Rightarrow> ''Job failed'' | Some r \<Rightarrow> r) now y)
        else upstream_failed (store w3) (j_id job) k now y) (findById k (store w3))"
      by (rule markJobFailed_effect [OF wf3 j3 o]) blast
    have "findById (j_id job) (cancelStagedBacklogChildren job why now s') = findById (j_id job) s'" for why
      by (simp add: cancelStagedBacklogChildren_def findById_update_jobs find j3 close_row_def clear_gates_row_def)
    then show ?thesis using None eq find j3 q
      by (simp add: finish_failed_def Let_def failJob_def close_row_def clear_gates_row_def)
  next
    case (Some d)
    then have lt: "of_int (a_attempt_number att) < number_or 1 (Option.bind (obj_get (j_hints job) ''retry'') (\<lambda>p. json_get p ''max_attempts''))"
      by (auto simp: retry_delay_def split: option.splits if_splits)
    show ?thesis
    proof (cases "js_date (of_int now + d * 1000)")
      case None
      then show ?thesis using Some lt eq j3 by simp
    next
      case t: (Some t)
      have "findById (j_id job) (snd (requeueReady (j_id job) a (Some (Some t)) reason now (store w3))) =
          Some (requeue_row (Some (Some t)) now j0)" for a reason
        using j3 i by (simp add: requeueReady_def findById_update_jobs requeue_row_def back_to_ready_def)
      then show ?thesis using Some t lt eq by (simp add: requeue_row_def back_to_ready_def)
    qed
  qed
qed

definition ex_retry_job :: job where
  "ex_retry_job = ex_job_row\<lparr>j_hints := [(''retry'', JObj [(''max_attempts'', JNum 3), (''backoff_seconds'', JNum 10)])]\<rparr>"

definition ex_retry_world :: world where
  "ex_retry_world = ex_running_world\<lparr>store := (store ex_running_world)\<lparr>jobs := [ex_retry_job]\<rparr>\<rparr>"

definition ex_failure :: harness_result where
  "ex_failure = \<lparr>hr_success = False, hr_exitCode = 1, hr_resultText = None, hr_resultJson = None, hr_durationMs = None,
     hr_tokenInput = None, hr_tokenOutput = None, hr_error = Some ''boom''\<rparr>"

theorem failed_job_is_retried_or_closed_witness:
  "\<exists>j'. findById ''demo-a1'' (store (snd (finalizeJobResult (\<lambda>n. ''10'') ex_ext ex_retry_job ex_attempt_row ex_failure
      no_control CtlFailed ex_attempt_row 5000 ex_retry_world))) = Some j' \<and> j_phase j' = Ready \<and> j_defer_until j' = Some 15000"
proof -
  let ?f = "finalizeJobResult (\<lambda>n. ''10'') ex_ext ex_retry_job ex_attempt_row ex_failure no_control CtlFailed ex_attempt_row 5000 ex_retry_world"
  have i: "j_id ex_retry_job = ''demo-a1''" by (simp add: ex_retry_job_def ex_job_row_def)
  have wf: "store_wf (store ex_retry_world)" by code_simp
  have j: "findById (j_id ex_retry_job) (store ex_retry_world) = Some ex_retry_job" unfolding i by code_simp
  have o: "\<not> terminal_phase (j_phase ex_retry_job)" by (simp add: ex_retry_job_def ex_job_row_def)
  have d: "retry_delay ex_retry_job ex_attempt_row = Some 10" by code_simp
  have t: "js_date (of_int 5000 + 10 * 1000) = Some 15000" by code_simp
  show ?thesis
    using failed_job_is_retried_or_closed [OF wf j o, of "\<lambda>n. ''10''" ex_ext ex_attempt_row ex_failure no_control
        ex_attempt_row 5000 "fst ?f" "snd ?f"]
    unfolding d i option.case t by auto
qed

end
