(* ===== verification/Workflow_Properties.thy ===== *)
theory Workflow_Properties
  imports Workflow_Retry Workflow_Graph Batch_Properties Outcome_Properties
begin

section \<open>Properties of workflows\<close>

text \<open>
  Which step graphs are accepted, and what a retry does: which steps it takes, what it leaves in the store, and that the workflow goes on: the clone of a step whose
  dependencies are not retried is runnable, and the root stays open until the clones are finished.
\<close>

subsection \<open>The steps a retry takes\<close>

definition waits_in :: "job_relation list \<Rightarrow> (string \<times> string) set" where
  "waits_in relations = (\<lambda>r. (r_job_id r, r_related_job_id r)) ` set relations"

lemma retry_dependents_set: "set (retry_dependents relations n) = {d. (d, n) \<in> waits_in relations}"
  by (force simp: retry_dependents_def waits_in_def)

lemma collect_dependents_closed:
  "set queue \<subseteq> set selected \<Longrightarrow>
   (\<forall>n \<in> set selected. n \<in> set queue \<or> set (retry_dependents relations n) \<subseteq> set selected) \<Longrightarrow>
   set selected \<subseteq> set (collect_dependents relations queue selected) \<and>
   (\<forall>n \<in> set (collect_dependents relations queue selected).
      set (retry_dependents relations n) \<subseteq> set (collect_dependents relations queue selected) \<and>
      (\<exists>m \<in> set selected. (n, m) \<in> (waits_in relations)\<^sup>*))"
proof (induction relations queue selected rule: collect_dependents.induct)
  case (2 relations current queue selected)
  let ?ds = "retry_dependents relations current"
  obtain new where new: "fold select_dependent ?ds (selected, queue) = (selected @ new, queue @ new)" "set new = set ?ds - set selected"
    using select_dependents by blast
  let ?r = "collect_dependents relations (queue @ new) (selected @ new)"
  have r: "collect_dependents relations (current # queue) selected = ?r" by (simp add: collect_dependents.simps(2) new(1))
  have "set (queue @ new) \<subseteq> set (selected @ new)" using 2(2) by auto
  moreover have "\<forall>n \<in> set (selected @ new). n \<in> set (queue @ new) \<or> set (retry_dependents relations n) \<subseteq> set (selected @ new)"
    using 2(3) new(2) by auto
  ultimately have ih: "set (selected @ new) \<subseteq> set ?r"
    "\<And>n. n \<in> set ?r \<Longrightarrow> set (retry_dependents relations n) \<subseteq> set ?r \<and> (\<exists>m \<in> set (selected @ new). (n, m) \<in> (waits_in relations)\<^sup>*)"
    using 2(1) [OF new(1) [symmetric]] by auto
  have c: "current \<in> set selected" using 2(2) by simp
  have "\<exists>m \<in> set selected. (n, m) \<in> (waits_in relations)\<^sup>*" if n: "n \<in> set ?r" for n
  proof -
    obtain m where m: "m \<in> set selected \<or> m \<in> set new" "(n, m) \<in> (waits_in relations)\<^sup>*" using ih(2) [OF n] by auto
    show ?thesis
    proof (cases "m \<in> set selected")
      case False
      then have "(m, current) \<in> waits_in relations" using m(1) new(2) by (auto simp: retry_dependents_set)
      then show ?thesis using m(2) c by (meson rtrancl.rtrancl_into_rtrancl)
    qed (use m(2) in blast)
  qed
  then show ?case unfolding r using ih by auto
qed auto

lemma collect_dependents_reach: "set (collect_dependents relations [a] [a]) = {d. (d, a) \<in> (waits_in relations)\<^sup>*}"
proof -
  let ?r = "collect_dependents relations [a] [a]"
  have c: "a \<in> set ?r" "\<And>n. n \<in> set ?r \<Longrightarrow> {d. (d, n) \<in> waits_in relations} \<subseteq> set ?r"
    "\<And>n. n \<in> set ?r \<Longrightarrow> (n, a) \<in> (waits_in relations)\<^sup>*"
    using collect_dependents_closed [of "[a]" "[a]" relations] by (auto simp: retry_dependents_set)
  have "d \<in> set ?r" if "(d, a) \<in> (waits_in relations)\<^sup>*" for d
    using that by (induction rule: converse_rtrancl_induct) (use c in auto)
  then show ?thesis using c(3) by auto
qed

subsection \<open>What the transaction checked\<close>

lemma retry_plan_children:
  assumes "retry_plan x root_job mode fs s = Inr (cur, sel, rels)"
  shows "cur = filter (\<lambda>j. \<not> isSupersededWorkflowStep j) (child_jobs x (j_id root_job) s) \<and> list_all isTerminal cur \<and>
    rels = blocking_relations_of (map j_id cur) s \<and> check_distinct_steps (j_id root_job) cur [] = None \<and>
    (\<exists>ids. selectWorkflowRetrySteps mode fs cur rels = Inr ids \<and> sel = filter (\<lambda>j. j_id j \<in> set ids) cur \<and>
       check_outside_deps (j_id root_job) cur ids (concat (map (relations_of rels) ids)) = None)"
  using assms
  by (auto simp: retry_plan_def Let_def list_all_iff filter_empty_conv split: if_splits option.splits sum.splits)

lemma check_outside_deps_done:
  "check_outside_deps root_id cur ids rs = None \<Longrightarrow> r \<in> set rs \<Longrightarrow> r_related_job_id r \<notin> set ids \<Longrightarrow>
     \<exists>d \<in> set cur. j_id d = r_related_job_id r \<and> j_phase d = Done"
  by (induction root_id cur ids rs rule: check_outside_deps.induct)
     (auto split: if_splits option.splits dest: find_row_Some)

lemma check_distinct_steps_None:
  "check_distinct_steps root_id cs seen = None \<longleftrightarrow>
     distinct (map j_step_name (filter (\<lambda>j. truthy_string (j_step_name j)) cs)) \<and>
     (\<forall>j \<in> set cs. truthy_string (j_step_name j) \<longrightarrow> the (j_step_name j) \<notin> set seen)"
proof (induction root_id cs seen rule: check_distinct_steps.induct)
  case (2 root_id child cs seen)
  have "truthy_string a \<Longrightarrow> truthy_string b \<Longrightarrow> the a = the b \<longleftrightarrow> a = b" for a b :: "string option"
    by (cases a; cases b) (auto simp: truthy_string_def)
  with 2 show ?case by (auto simp: image_iff)
qed simp

subsection \<open>What the transaction writes\<close>

definition cloned :: "retry_ext \<Rightarrow> retry_context \<Rightarrow> timestamp \<Rightarrow> job \<Rightarrow> job \<Rightarrow> bool" where
  "cloned x c now source clone = (clone = new_row (retry_row x c source (j_id clone)) now)"

lemma clone_steps_effect:
  assumes "clone_steps x c now sources o2n s = (Expanded o2n', s')"
  shows "\<exists>new. s' = s\<lparr>jobs := jobs s @ new\<rparr> \<and> o2n' = o2n @ zip (map j_id sources) (map j_id new) \<and>
    list_all2 (cloned x c now) sources new \<and> distinct (map j_id new) \<and> j_id ` set new \<inter> j_id ` set (jobs s) = {}"
  using assms
proof (induction sources arbitrary: o2n s)
  case (Cons src sources)
  from Cons.prems obtain k rp where g: "generateJobId (j_project_id (rc_root c)) (Some (j_id (rc_root c))) (rt_hashes x (j_id src)) s = Some (Inr (k, rp))"
    by (auto split: option.splits sum.splits)
  from Cons.prems g obtain row s1 where cr: "create (retry_row x c src k) now s = (Inr row, s1)"
    by (cases "create (retry_row x c src k) now s") (auto split: sum.splits)
  note c1 = create_Inr [OF cr]
  have row: "j_id row = k" "cloned x c now src row" using c1 by (auto simp: cloned_def new_row_def retry_row_def)
  have "clone_steps x c now sources (o2n @ [(j_id src, k)]) s1 = (Expanded o2n', s')" using Cons.prems by (simp add: g cr)
  from Cons.IH [OF this] obtain new where new: "s' = s1\<lparr>jobs := jobs s1 @ new\<rparr>"
    "o2n' = (o2n @ [(j_id src, k)]) @ zip (map j_id sources) (map j_id new)" "list_all2 (cloned x c now) sources new"
    "distinct (map j_id new)" "j_id ` set new \<inter> j_id ` set (jobs s1) = {}" by blast
  have id: "j_id (retry_row x c src k) = k" by (simp add: retry_row_def)
  show ?case using new c1 row id by (intro exI [of _ "row # new"]) auto
qed simp

lemma relation_type_of_name [simp]: "relation_type_of (relation_type_name t) = Some t"
  by (cases t) (simp_all add: relation_type_of_def)

lemma addDependency_adds:
  assumes "addDependency a b (relation_type_name t) u s = (Inr y, s')"
  shows "relation_triples s' = insert (a, b, t) (relation_triples s) \<and> s' = s\<lparr>job_relations := job_relations s'\<rparr>"
  using assms by (auto simp: addDependency_def relation_triples_def image_iff split: if_splits)

definition triple :: "job_relation \<Rightarrow> string \<times> string \<times> relation_type" where
  "triple r = (r_job_id r, r_related_job_id r, r_relation_type r)"

lemma relate_clone_effect:
  assumes "relate_clone x o2n k rs s = (Inr u, s')"
  shows "relation_triples s' = relation_triples s \<union> (\<lambda>r. (k, replacement o2n (r_related_job_id r), r_relation_type r)) ` set rs \<and>
    s' = s\<lparr>job_relations := job_relations s'\<rparr>"
  using assms
proof (induction rs arbitrary: s)
  case (Cons r rs)
  let ?d = "addDependency k (replacement o2n (r_related_job_id r)) (relation_type_name (r_relation_type r))
    (rt_uuids x (k, replacement o2n (r_related_job_id r), r_relation_type r)) s"
  from Cons.prems obtain y s1 where d: "?d = (Inr y, s1)" by (cases ?d) (auto simp: Let_def split: sum.splits)
  have rest: "relate_clone x o2n k rs s1 = (Inr u, s')" using Cons.prems d by (simp add: Let_def)
  note e = addDependency_adds [OF d]
  have "s' = s\<lparr>job_relations := job_relations s'\<rparr>" using Cons.IH [OF rest] e by (cases s; cases s1; cases s') simp
  then show ?case using Cons.IH [OF rest] e by auto
qed simp

definition marked :: "retry_context \<Rightarrow> timestamp \<Rightarrow> (string \<times> string) list \<Rightarrow> job \<Rightarrow> job" where
  "marked c now o2n j = j\<lparr>j_hints := jsonb_concat (j_hints j)
      [(''workflow_retry_superseded_by'', JStr (replacement o2n (j_id j))), (''workflow_retry_superseded_at'', JStr (rc_requested_at c)),
       (''workflow_retry_superseded_generation'', JNum (rc_generation c))], j_updated_at := now\<rparr>"

lemma marked_id [simp]: "j_id (marked c now o2n j) = j_id j"
  by (simp add: marked_def)

lemma relation_triples_jobs [simp]: "relation_triples (s\<lparr>jobs := js\<rparr>) = relation_triples s"
  "relation_triples (update_jobs P f s) = relation_triples s"
  by (simp_all add: relation_triples_def update_jobs_def)

lemma link_clones_effect:
  assumes "link_clones x c now rels o2n sources s = (Inr u, s')" "distinct (map j_id sources)"
    "\<forall>j \<in> set sources. map_of o2n (j_id j) \<noteq> None"
  shows "jobs s' = map (\<lambda>j. if j_id j \<in> j_id ` set sources then marked c now o2n j else j) (jobs s) \<and>
    relation_triples s' = relation_triples s \<union>
      (\<lambda>r. (replacement o2n (r_job_id r), replacement o2n (r_related_job_id r), r_relation_type r)) `
        {r \<in> set rels. r_job_id r \<in> j_id ` set sources}"
  using assms
proof (induction sources arbitrary: s)
  case (Cons src sources)
  obtain k where k: "map_of o2n (j_id src) = Some k" using Cons.prems(3) by auto
  then have rk: "replacement o2n (j_id src) = k" by (simp add: replacement_def or_default_def)
  let ?d = "relate_clone x o2n k (relations_of rels (j_id src)) s"
  from Cons.prems(1) k obtain y s1 where d: "?d = (Inr y, s1)" by (cases ?d) (auto split: sum.splits)
  note e = relate_clone_effect [OF d]
  let ?s2 = "supersede c now (j_id src) k s1"
  have "link_clones x c now rels o2n sources ?s2 = (Inr u, s')" using Cons.prems(1) k d by simp
  then have ih: "jobs s' = map (\<lambda>j. if j_id j \<in> j_id ` set sources then marked c now o2n j else j) (jobs ?s2)"
    "relation_triples s' = relation_triples ?s2 \<union>
      (\<lambda>r. (replacement o2n (r_job_id r), replacement o2n (r_related_job_id r), r_relation_type r)) `
        {r \<in> set rels. r_job_id r \<in> j_id ` set sources}"
    using Cons.IH [of ?s2] Cons.prems(2,3) by auto
  have jobs1: "jobs s1 = jobs s" using e by (metis (no_types) db.select_convs(1) db.update_convs(3) db.surjective)
  have jobs2: "jobs ?s2 = map (\<lambda>j. if j_id j = j_id src then marked c now o2n j else j) (jobs s)"
    by (auto simp: supersede_def update_jobs_def update_where_def marked_def rk jobs1)
  have "jobs s' = map (\<lambda>j. if j_id j \<in> j_id ` set (src # sources) then marked c now o2n j else j) (jobs s)"
    using Cons.prems(2) by (auto simp: ih(1) jobs2)
  moreover have "relation_triples ?s2 = relation_triples s1" by (simp add: supersede_def)
  moreover have "{r \<in> set rels. r_job_id r \<in> j_id ` set (src # sources)} =
      set (relations_of rels (j_id src)) \<union> {r \<in> set rels. r_job_id r \<in> j_id ` set sources}"
    by (auto simp: relations_of_def)
  moreover have "(\<lambda>r. (k, replacement o2n (r_related_job_id r), r_relation_type r)) ` set (relations_of rels (j_id src)) =
      (\<lambda>r. (replacement o2n (r_job_id r), replacement o2n (r_related_job_id r), r_relation_type r)) ` set (relations_of rels (j_id src))"
    by (rule image_cong) (auto simp: relations_of_def rk)
  ultimately show ?case using ih(2) e by (simp add: image_Un Un_assoc)
qed simp

definition reopened :: "retry_context \<Rightarrow> (string \<times> string) list \<Rightarrow> job list \<Rightarrow> timestamp \<Rightarrow> job \<Rightarrow> job" where
  "reopened c o2n sources now j = j\<lparr>j_phase := Active, j_closed_at := None, j_close_reason := None, j_failure_disposition := None,
          j_hints := jsonb_concat (j_hints j) (root_retry_hints c o2n sources), j_updated_at := now\<rparr>"

definition rewritten :: "retry_context \<Rightarrow> (string \<times> string) list \<Rightarrow> job list \<Rightarrow> timestamp \<Rightarrow> job \<Rightarrow> job" where
  "rewritten c o2n sources now j =
     (if j_id j = j_id (rc_root c) then reopened c o2n sources now j
      else if j_id j \<in> j_id ` set sources then marked c now o2n j else j)"

lemma audit_clone_frame [simp]:
  "jobs (fold (audit_clone c o2n now) js s) = jobs s" "job_relations (fold (audit_clone c o2n now) js s) = job_relations s"
  by (induction js arbitrary: s) (simp_all add: audit_clone_def insertWorkflowRetryAudit_def split: option.splits)

lemma relation_triples_audits [simp]:
  "relation_triples (fold (audit_clone c o2n now) js (insertWorkflowRetryAudit c i a b o2n' now' s)) = relation_triples s"
  by (simp add: relation_triples_def insertWorkflowRetryAudit_def)

lemma cloned_fields:
  assumes "cloned x c now src k"
  shows "j_parent_id k = Some (j_id (rc_root c)) \<and> j_phase k = Ready \<and> j_step_name k = j_step_name src \<and>
    j_assignee k = retryStepAssignee src \<and> j_failure_disposition k = None \<and> j_closed_at k = None \<and>
    j_hints k = buildRetryStepHints src (j_id (rc_root c)) (rc_generation c) (rc_mode c) (rc_from_step c) (rc_requested_at c)"
proof -
  obtain i where k: "k = new_row (retry_row x c src i) now" using assms by (auto simp: cloned_def)
  show ?thesis unfolding k by (simp add: new_row_def retry_row_def)
qed

lemma retry_write_effect:
  assumes "retry_write x c cur sel rels now s = (Expanded r, s')" "distinct (map j_id sel)" "j_id (rc_root c) \<notin> j_id ` set sel"
    "j_id ` set sel \<subseteq> j_id ` set (jobs s)" "j_id (rc_root c) \<in> j_id ` set (jobs s)"
  shows "\<exists>new. list_all2 (cloned x c now) sel new \<and> distinct (map j_id new) \<and> j_id ` set new \<inter> j_id ` set (jobs s) = {} \<and>
    rr_superseded_job_ids r = map j_id sel \<and>
    (let o2n = zip (map j_id sel) (map j_id new) in
     jobs s' = map (rewritten c o2n sel now) (jobs s) @ new \<and>
     relation_triples s' = relation_triples s \<union>
      (\<lambda>r. (replacement o2n (r_job_id r), replacement o2n (r_related_job_id r), r_relation_type r)) `
        {r \<in> set rels. r_job_id r \<in> j_id ` set sel})"
proof -
  obtain o2n s1 where cl: "clone_steps x c now sel [] s = (Expanded o2n, s1)"
    using assms(1) by (auto simp: retry_write_def split: prod.splits expansion.splits)
  obtain u s2 where ln: "link_clones x c now rels o2n sel s1 = (Inr u, s2)"
    using assms(1) by (cases "link_clones x c now rels o2n sel s1") (auto simp: retry_write_def cl Let_def split: sum.splits)
  have out: "jobs s' = jobs (reopen_root c o2n sel now s2)" "relation_triples s' = relation_triples s2"
    "rr_superseded_job_ids r = map j_id sel"
    using assms(1) by (auto simp: retry_write_def cl ln Let_def insertWorkflowRetryAudit_def reopen_root_def relation_triples_def update_jobs_def)
  obtain new where new: "s1 = s\<lparr>jobs := jobs s @ new\<rparr>" "o2n = zip (map j_id sel) (map j_id new)"
    "list_all2 (cloned x c now) sel new" "distinct (map j_id new)" "j_id ` set new \<inter> j_id ` set (jobs s) = {}"
    using clone_steps_effect [OF cl] by auto
  have "map fst o2n = map j_id sel" using new(2,3) by (simp add: list_all2_lengthD)
  then have "\<forall>j \<in> set sel. map_of o2n (j_id j) \<noteq> None" by (metis image_eqI list.set_map map_of_eq_None_iff)
  note e = link_clones_effect [OF ln assms(2) this]
  have other: "j_id k \<noteq> j_id (rc_root c)" "j_id k \<notin> j_id ` set sel" if "k \<in> set new" for k
  proof -
    have "j_id k \<notin> j_id ` set (jobs s)" using that new(5) by blast
    then show "j_id k \<noteq> j_id (rc_root c)" "j_id k \<notin> j_id ` set sel" using assms(4,5) by (metis, blast)
  qed
  have "jobs s' = map (rewritten c o2n sel now) (jobs s1)"
    using e assms(3) by (auto simp: out(1) reopen_root_def update_jobs_def update_where_def rewritten_def reopened_def)
  also have "\<dots> = map (rewritten c o2n sel now) (jobs s) @ new"
    using other by (simp add: new(1) map_idI rewritten_def)
  finally show ?thesis using new e out by (auto simp: Let_def)
qed

lemma child_jobs_set: "set (child_jobs x i s) = {j \<in> set (jobs s). j_parent_id j = Some i}"
  by (auto simp: child_jobs_def order_by_def)

lemma child_jobs_distinct: "distinct (map j_id (jobs s)) \<Longrightarrow> distinct (map j_id (child_jobs x i s))"
  by (auto simp: child_jobs_def order_by_def distinct_map intro: inj_on_subset)

lemma retry_tx_effect:
  assumes "retry_tx x rootId request u now s = (Expanded r, s')" "store_wf s" "j_parent_id (the (findById rootId s)) \<noteq> Some rootId"
  obtains c cur sel rels new where
    "findById rootId s = Some (rc_root c)" "j_id (rc_root c) = rootId" "rc_mode c = (if wr_failed request then Mode_failed else Mode_from)"
    "retry_plan x (rc_root c) (rc_mode c) (wr_from_step request) s = Inr (cur, sel, rels)"
    "list_all2 (cloned x c now) sel new" "distinct (map j_id sel)" "distinct (map j_id new)"
    "j_id ` set new \<inter> j_id ` set (jobs s) = {}" "rootId \<notin> j_id ` set cur" "set sel \<subseteq> set cur" "set cur \<subseteq> set (jobs s)"
    "rr_superseded_job_ids r = map j_id sel"
    "jobs s' = map (rewritten c (zip (map j_id sel) (map j_id new)) sel now) (jobs s) @ new"
    "relation_triples s' = relation_triples s \<union>
      (\<lambda>r. (replacement (zip (map j_id sel) (map j_id new)) (r_job_id r),
        replacement (zip (map j_id sel) (map j_id new)) (r_related_job_id r), r_relation_type r)) `
        {r \<in> set rels. r_job_id r \<in> j_id ` set sel}"
proof -
  obtain lr where lr: "findById rootId s = Some lr" "isWorkflowRoot lr"
    using assms(1) by (auto simp: retry_tx_def split: option.splits if_splits)
  then have id: "j_id lr = rootId" "lr \<in> set (jobs s)" by (auto simp: findById_def dest: find_row_Some)
  define mode where "mode = (if wr_failed request then Mode_failed else Mode_from)"
  obtain cur sel rels where pl: "retry_plan x lr mode (wr_from_step request) s = Inr (cur, sel, rels)"
    using assms(1) lr by (cases "retry_plan x lr mode (wr_from_step request) s") (auto simp: retry_tx_def mode_def [symmetric] Let_def)
  define c where "c = \<lparr>rc_root = lr, rc_mode = mode, rc_from_step = wr_from_step request, rc_user_id = u,
                      rc_generation = nextRetryGeneration (child_jobs x (j_id lr) s), rc_requested_at = iso_date now\<rparr>"
  have wr: "retry_write x c cur sel rels now s = (Expanded r, s')"
    using assms(1) lr pl by (simp add: retry_tx_def mode_def [symmetric] c_def Let_def)
  note ch = retry_plan_children [OF pl]
  have distinct: "distinct (map j_id (jobs s))" using assms(2) by (simp add: store_wf_def)
  have cur: "set cur \<subseteq> {j \<in> set (jobs s). j_parent_id j = Some rootId}" "set sel \<subseteq> set cur" "distinct (map j_id sel)"
    using ch id child_jobs_distinct [OF distinct] by (auto simp: child_jobs_set intro!: distinct_map_filter)
  have notroot: "rootId \<notin> j_id ` set cur"
  proof
    assume "rootId \<in> j_id ` set cur"
    then obtain j where j: "j \<in> set (jobs s)" "j_id j = rootId" "j_parent_id j = Some rootId" using cur(1) by auto
    then have "j = lr" using id distinct by (metis distinct_map inj_on_def)
    then show False using assms(3) lr(1) j(3) by simp
  qed
  have "\<exists>new. list_all2 (cloned x c now) sel new \<and> distinct (map j_id new) \<and> j_id ` set new \<inter> j_id ` set (jobs s) = {} \<and>
    rr_superseded_job_ids r = map j_id sel \<and>
    (let o2n = zip (map j_id sel) (map j_id new) in
     jobs s' = map (rewritten c o2n sel now) (jobs s) @ new \<and>
     relation_triples s' = relation_triples s \<union>
      (\<lambda>r. (replacement o2n (r_job_id r), replacement o2n (r_related_job_id r), r_relation_type r)) `
        {r \<in> set rels. r_job_id r \<in> j_id ` set sel})"
    using cur notroot id by (intro retry_write_effect [OF wr]) (auto simp: c_def)
  then obtain new where new: "list_all2 (cloned x c now) sel new" "distinct (map j_id new)" "j_id ` set new \<inter> j_id ` set (jobs s) = {}"
    "rr_superseded_job_ids r = map j_id sel"
    "jobs s' = map (rewritten c (zip (map j_id sel) (map j_id new)) sel now) (jobs s) @ new"
    "relation_triples s' = relation_triples s \<union>
      (\<lambda>r. (replacement (zip (map j_id sel) (map j_id new)) (r_job_id r),
        replacement (zip (map j_id sel) (map j_id new)) (r_related_job_id r), r_relation_type r)) `
        {r \<in> set rels. r_job_id r \<in> j_id ` set sel}"
    unfolding Let_def by blast
  show thesis
    by (rule that [of c cur sel rels new])
       (use lr id pl new cur notroot in \<open>auto simp: c_def mode_def\<close>)
qed

lemma rewritten_simps [simp]: "j_id (rewritten c o2n sel now j) = j_id j" "j_parent_id (rewritten c o2n sel now j) = j_parent_id j"
  "j_parent_id (reopened c o2n sel now j) = j_parent_id j" "j_id (reopened c o2n sel now j) = j_id j"
  by (simp_all add: rewritten_def reopened_def marked_def)

lemma marked_superseded: "superseded (marked c now o2n j)"
  by (simp add: marked_def superseded_def jsonb_concat_def obj_get_set)

lemma clone_not_superseded: "cloned x c now src k \<Longrightarrow> \<not> superseded k"
  using cloned_fields [of x c now src k] by (simp add: superseded_def buildRetryStepHints_def jsonb_concat_def obj_get_set obj_get_del)

lemma filter_map_restrict:
  "(\<And>j. j \<in> set js \<Longrightarrow> P (f j) \<longleftrightarrow> P j \<and> Q j) \<Longrightarrow> (\<And>j. j \<in> set js \<Longrightarrow> P j \<Longrightarrow> Q j \<Longrightarrow> f j = j) \<Longrightarrow>
     filter P (map f js) = filter Q (filter P js)"
  by (induction js) auto

lemma current_children_after:
  assumes "list_all2 (cloned x c now) sel new" "j_id (rc_root c) = rootId" "rootId \<notin> j_id ` set sel"
    "\<forall>j \<in> set (jobs s). j_id j = rootId \<longrightarrow> j_parent_id j \<noteq> Some rootId"
    "jobs s' = map (rewritten c o2n sel now) (jobs s) @ new"
  shows "current_children rootId s' = filter (\<lambda>j. j_id j \<notin> j_id ` set sel) (current_children rootId s) @ new"
proof -
  let ?P = "\<lambda>j. j_parent_id j = Some rootId \<and> \<not> superseded j"
  have "\<forall>k \<in> set new. \<exists>src. cloned x c now src k" using assms(1) by (metis in_set_conv_nth list_all2_conv_all_nth)
  then have "filter ?P new = new"
    using assms(2) by (intro filter_True) (metis cloned_fields clone_not_superseded)
  moreover have "filter ?P (map (rewritten c o2n sel now) (jobs s)) = filter (\<lambda>j. j_id j \<notin> j_id ` set sel) (filter ?P (jobs s))"
    using assms(2,3,4) by (intro filter_map_restrict) (auto simp: rewritten_def marked_superseded)
  ultimately show ?thesis by (simp add: current_children_def assms(5))
qed

lemma selected_current:
  assumes "selectWorkflowRetrySteps mode fs cur rels = Inr ids" "\<forall>r \<in> set rels. r_job_id r \<in> j_id ` set cur"
  shows "set ids \<subseteq> j_id ` set cur \<and> ids \<noteq> []"
proof (cases mode)
  case Mode_failed
  then show ?thesis using assms(1)
    by (auto simp: selectWorkflowRetrySteps_def Let_def first_occurrences_def filter_empty_conv split: if_splits)
next
  case Mode_from
  then obtain st where st: "find_row (\<lambda>j. j_step_name j = fs) cur = Some st" "ids = collect_dependents rels [j_id st] [j_id st]"
    using assms(1) by (auto simp: selectWorkflowRetrySteps_def split: if_splits option.splits)
  have ids: "set ids = {d. (d, j_id st) \<in> (waits_in rels)\<^sup>*}" by (simp add: st(2) collect_dependents_reach)
  have "d \<in> j_id ` set cur" if "(d, j_id st) \<in> (waits_in rels)\<^sup>*" for d
    using that by (cases rule: converse_rtranclE) (use assms(2) find_row_Some [OF st(1)] in \<open>auto simp: waits_in_def\<close>)
  moreover have "j_id st \<in> set ids" by (simp add: ids)
  ultimately show ?thesis using ids by auto
qed

lemma plan_selects:
  assumes "retry_plan x root_job mode fs s = Inr (cur, sel, rels)"
  shows "sel \<noteq> [] \<and> (\<forall>r \<in> set rels. r \<in> set (job_relations s) \<and> r_job_id r \<in> j_id ` set cur \<and> blocking_relation (r_relation_type r)) \<and>
    (\<forall>r \<in> set (job_relations s). r_job_id r \<in> j_id ` set cur \<longrightarrow> blocking_relation (r_relation_type r) \<longrightarrow> r \<in> set rels) \<and>
    (\<forall>r \<in> set rels. r_job_id r \<in> j_id ` set sel \<longrightarrow> r_related_job_id r \<in> j_id ` set sel \<or>
       (\<exists>d \<in> set cur. j_id d = r_related_job_id r \<and> j_phase d = Done))"
proof -
  note ch = retry_plan_children [OF assms]
  then obtain ids where ids: "selectWorkflowRetrySteps mode fs cur rels = Inr ids" "sel = filter (\<lambda>j. j_id j \<in> set ids) cur"
    "check_outside_deps (j_id root_job) cur ids (concat (map (relations_of rels) ids)) = None" by blast
  have rels: "r \<in> set rels \<longleftrightarrow> r \<in> set (job_relations s) \<and> r_job_id r \<in> j_id ` set cur \<and> blocking_relation (r_relation_type r)" for r
    using ch by (auto simp: blocking_relations_of_def blocking_relation_def)
  have cur: "set ids \<subseteq> j_id ` set cur" "ids \<noteq> []" using selected_current [OF ids(1)] rels by auto
  have sel: "i \<in> j_id ` set sel \<longleftrightarrow> i \<in> set ids" for i using cur(1) by (auto simp: ids(2))
  have "sel \<noteq> []" using sel [of "hd ids"] cur(2) by (cases sel) auto
  moreover have "r_related_job_id r \<in> set ids \<or> (\<exists>d \<in> set cur. j_id d = r_related_job_id r \<and> j_phase d = Done)"
    if "r \<in> set rels" "r_job_id r \<in> set ids" for r
    using check_outside_deps_done [OF ids(3), of r] that by (auto simp: relations_of_def)
  ultimately show ?thesis using rels sel by blast
qed

lemma isBlocked_triples: "isBlocked i s \<longleftrightarrow>
    (\<exists>b t. (i, b, t) \<in> relation_triples s \<and> blocking_relation t \<and> (\<exists>j \<in> set (jobs s). j_id j = b \<and> \<not> terminal_phase (j_phase j)))"
  by (force simp: isBlocked_def open_blocker_def relation_triples_def exists_row_def)

lemma triples_known: "store_wf s \<Longrightarrow> (a, b, t) \<in> relation_triples s \<Longrightarrow> a \<in> j_id ` set (jobs s) \<and> b \<in> j_id ` set (jobs s)"
proof -
  assume "store_wf s" "(a, b, t) \<in> relation_triples s"
  then have "job_known s a \<and> job_known s b" by (auto simp: store_wf_def relation_triples_def)
  then show ?thesis by (auto simp: job_known_def exists_row_def)
qed

lemma relation_triple: "r \<in> set (job_relations s) \<Longrightarrow> (r_job_id r, r_related_job_id r, r_relation_type r) \<in> relation_triples s"
  by (simp add: relation_triples_def)

lemma replacement_nth:
  assumes "length new = length sel" "distinct (map j_id sel)" "n < length sel"
  shows "replacement (zip (map j_id sel) (map j_id new)) (j_id (sel ! n)) = j_id (new ! n)"
proof -
  have "map_of (zip (map j_id sel) (map j_id new)) (map j_id sel ! n) = Some (map j_id new ! n)"
    using assms by (intro map_of_zip_nth) auto
  then show ?thesis using assms by (simp add: replacement_def or_default_def)
qed

lemma replacement_other: "i \<notin> j_id ` set sel \<Longrightarrow> replacement (zip (map j_id sel) ks) i = i"
proof -
  assume "i \<notin> j_id ` set sel"
  then have "map_of (zip (map j_id sel) ks) i = None" by (auto simp: map_of_eq_None_iff dest: set_zip_leftD)
  then show ?thesis by (simp add: replacement_def or_default_def)
qed

lemma other_row_kept:
  assumes "store_wf s" "jobs s' = map (rewritten c o2n sel now) (jobs s) @ new" "j_id ` set new \<inter> j_id ` set (jobs s) = {}"
    "d \<in> set (jobs s)" "j_id d \<noteq> j_id (rc_root c)" "j_id d \<notin> j_id ` set sel" "j \<in> set (jobs s')" "j_id j = j_id d"
  shows "j = d"
proof -
  have "j \<notin> set new" using assms(3,4,8) by (metis IntI empty_iff image_eqI)
  then obtain j0 where j0: "j0 \<in> set (jobs s)" "j = rewritten c o2n sel now j0" using assms(2,7) by auto
  then have "j0 = d" using assms(1,4,8) by (auto simp: store_wf_def distinct_map inj_on_def)
  then show ?thesis using j0(2) assms(5,6) by (simp add: rewritten_def)
qed

text \<open>A clone is blocked exactly by the clones of its dependencies.\<close>

lemma clone_blocked:
  assumes plan: "retry_plan x (rc_root c) mode fs s = Inr (cur, sel, rels)" and wf: "store_wf s"
    and clones: "list_all2 (cloned x c now) sel new" "distinct (map j_id sel)" "distinct (map j_id new)"
    and ids: "j_id ` set new \<inter> j_id ` set (jobs s) = {}" "j_id (rc_root c) \<notin> j_id ` set cur" "set sel \<subseteq> set cur" "set cur \<subseteq> set (jobs s)"
    and jobs': "jobs s' = map (rewritten c (zip (map j_id sel) (map j_id new)) sel now) (jobs s) @ new"
    and rel': "relation_triples s' = relation_triples s \<union>
      (\<lambda>r. (replacement (zip (map j_id sel) (map j_id new)) (r_job_id r),
        replacement (zip (map j_id sel) (map j_id new)) (r_related_job_id r), r_relation_type r)) `
        {r \<in> set rels. r_job_id r \<in> j_id ` set sel}"
    and n: "n < length sel"
  shows "isBlocked (j_id (new ! n)) s' \<longleftrightarrow>
    (\<exists>b \<in> set sel. \<exists>t. (j_id (sel ! n), j_id b, t) \<in> relation_triples s \<and> blocking_relation t)"
proof
  let ?rep = "replacement (zip (map j_id sel) (map j_id new))"
  have len: "length new = length sel" using clones(1) by (simp add: list_all2_lengthD)
  note nth = replacement_nth [OF len clones(2)]
  note pl = plan_selects [OF plan]
  { assume "isBlocked (j_id (new ! n)) s'"
    then obtain b t where bt: "(j_id (new ! n), b, t) \<in> relation_triples s'" "blocking_relation t"
      "\<exists>j \<in> set (jobs s'). j_id j = b \<and> \<not> terminal_phase (j_phase j)" by (auto simp: isBlocked_triples)
    have "j_id (new ! n) \<notin> j_id ` set (jobs s)" using ids(1) n len by (metis IntI empty_iff image_eqI nth_mem)
    then have "(j_id (new ! n), b, t) \<notin> relation_triples s" using triples_known [OF wf] by blast
    then obtain r where r: "r \<in> set rels" "r_job_id r \<in> j_id ` set sel" "?rep (r_job_id r) = j_id (new ! n)" "b = ?rep (r_related_job_id r)"
      "t = r_relation_type r" using bt(1) by (auto simp: rel')
    obtain m where m: "m < length sel" "r_job_id r = j_id (sel ! m)" using r(2) by (auto simp: in_set_conv_nth)
    have "m = n" using r(3) m n len nth clones(3) by (simp add: distinct_conv_nth) metis
    show "\<exists>b \<in> set sel. \<exists>t. (j_id (sel ! n), j_id b, t) \<in> relation_triples s \<and> blocking_relation t"
    proof (cases "r_related_job_id r \<in> j_id ` set sel")
      case True
      then obtain b' where b': "b' \<in> set sel" "r_related_job_id r = j_id b'" by blast
      have "r \<in> set (job_relations s)" using pl r(1) by blast
      then have "(j_id (sel ! n), j_id b', t) \<in> relation_triples s"
        unfolding relation_triples_def using r(5) m(2) \<open>m = n\<close> b'(2) by (intro image_eqI [of _ _ r]) auto
      then show ?thesis using b'(1) bt(2) by blast
    next
      case False
      then obtain d where d: "d \<in> set cur" "j_id d = r_related_job_id r" "j_phase d = Done" using pl r(1,2) by blast
      have b: "b = j_id d" using r(4) d(2) replacement_other [OF False] by simp
      have "j_id d \<noteq> j_id (rc_root c)" using d(1) ids(2) by (metis image_eqI)
      then have "\<And>j. j \<in> set (jobs s') \<Longrightarrow> j_id j = b \<Longrightarrow> j = d"
        using other_row_kept [OF wf jobs' ids(1)] d(1,2) ids(4) False b by (metis subsetD)
      then show ?thesis using bt(3) d(3) by (auto simp: terminal_phase_def)
    qed }
  { assume "\<exists>b \<in> set sel. \<exists>t. (j_id (sel ! n), j_id b, t) \<in> relation_triples s \<and> blocking_relation t"
    then obtain b t where bt: "b \<in> set sel" "(j_id (sel ! n), j_id b, t) \<in> relation_triples s" "blocking_relation t" by blast
    then obtain r where "r \<in> set (job_relations s)" "(j_id (sel ! n), j_id b, t) = (r_job_id r, r_related_job_id r, r_relation_type r)"
      by (auto simp: relation_triples_def)
    moreover obtain m where "m < length sel" "b = sel ! m" using bt(1) by (auto simp: in_set_conv_nth)
    ultimately have m: "m < length sel" "blocking_relation t" "r \<in> set (job_relations s)" "r_job_id r = j_id (sel ! n)"
      "r_related_job_id r = j_id (sel ! m)" "r_relation_type r = t" using bt(3) by auto
    have "r_job_id r \<in> j_id ` set sel" using m(4) n by simp
    moreover have "r \<in> set rels" using pl m calculation ids(3) by auto
    ultimately have "(?rep (r_job_id r), ?rep (r_related_job_id r), t) \<in> relation_triples s'" using m(6) by (auto simp: rel')
    then have "(j_id (new ! n), j_id (new ! m), t) \<in> relation_triples s'" using m(1,4,5) n nth by simp
    moreover have "new ! m \<in> set (jobs s')" using m(1) len by (simp add: jobs')
    moreover have "j_phase (new ! m) = Ready" using clones(1) m(1) cloned_fields by (metis list_all2_nthD)
    ultimately show "isBlocked (j_id (new ! n)) s'" using m(2) unfolding isBlocked_triples
      by (intro exI [of _ "j_id (new ! m)"] exI [of _ t]) (auto simp: terminal_phase_def intro!: bexI [of _ "new ! m"]) }
qed

subsection \<open>Properties\<close>

definition retry_current :: "retry_ext \<Rightarrow> string \<Rightarrow> db \<Rightarrow> job list" where
  "retry_current x rootId s = filter (\<lambda>j. \<not> isSupersededWorkflowStep j) (child_jobs x rootId s)"

definition blocking_waits :: "db \<Rightarrow> (string \<times> string) set" where
  "blocking_waits s = {(a, b). \<exists>t. (a, b, t) \<in> relation_triples s \<and> blocking_relation t}"

lemma retry_tx_plan:
  assumes "retry_tx x rootId request u now s = (Expanded r, s')"
  obtains lr cur sel rels where "j_id lr = rootId"
    "retry_plan x lr (if wr_failed request then Mode_failed else Mode_from) (wr_from_step request) s = Inr (cur, sel, rels)"
    "rr_superseded_job_ids r = map j_id sel"
proof -
  obtain lr where lr: "findById rootId s = Some lr" "isWorkflowRoot lr"
    using assms by (auto simp: retry_tx_def split: option.splits if_splits)
  define mode where "mode = (if wr_failed request then Mode_failed else Mode_from)"
  obtain cur sel rels where pl: "retry_plan x lr mode (wr_from_step request) s = Inr (cur, sel, rels)"
    using assms lr by (cases "retry_plan x lr mode (wr_from_step request) s") (auto simp: retry_tx_def mode_def [symmetric] Let_def)
  have "rr_superseded_job_ids r = map j_id sel"
    using assms lr pl by (auto simp: retry_tx_def mode_def [symmetric] Let_def retry_write_def split: prod.splits expansion.splits sum.splits)
  then show thesis using that pl lr find_row_Some [OF lr(1) [unfolded findById_def]] unfolding mode_def by blast
qed

lemma from_step_unique:
  assumes "check_distinct_steps i cur [] = None" "truthy_string fs" "a \<in> set cur" "b \<in> set cur" "j_step_name a = fs" "j_step_name b = fs"
  shows "a = b"
  using assms by (auto simp: check_distinct_steps_None distinct_map inj_on_def)

lemma retry_selection:
  assumes "retry_tx x rootId request u now s = (Expanded r, s')"
  shows "set (rr_superseded_job_ids r) =
    (if wr_failed request
     then {j_id j | j. j \<in> set (retry_current x rootId s) \<and> j_failure_disposition j \<in> {Some DispFailed, Some DispUpstreamFailed}}
     else {d. \<exists>start \<in> set (retry_current x rootId s). j_step_name start = wr_from_step request \<and>
       (d, j_id start) \<in> (waits_in (blocking_relations_of (map j_id (retry_current x rootId s)) s))\<^sup>*})"
proof -
  obtain lr cur sel rels where pl: "j_id lr = rootId"
    "retry_plan x lr (if wr_failed request then Mode_failed else Mode_from) (wr_from_step request) s = Inr (cur, sel, rels)"
    "rr_superseded_job_ids r = map j_id sel" using retry_tx_plan [OF assms] .
  have cur: "cur = retry_current x rootId s" "rels = blocking_relations_of (map j_id cur) s"
    "check_distinct_steps rootId cur [] = None"
    using retry_plan_children [OF pl(2)] unfolding pl(1) retry_current_def by blast+
  from retry_plan_children [OF pl(2)] obtain ids
    where ids: "selectWorkflowRetrySteps (if wr_failed request then Mode_failed else Mode_from) (wr_from_step request) cur rels = Inr ids"
      "sel = filter (\<lambda>j. j_id j \<in> set ids) cur" by blast
  have "\<forall>r \<in> set rels. r_job_id r \<in> j_id ` set cur" by (auto simp: cur(2) blocking_relations_of_def)
  then have sel: "set (map j_id sel) = set ids" using selected_current [OF ids(1)] by (auto simp: ids(2))
  show ?thesis
  proof (cases "wr_failed request")
    case True
    then have "set ids = j_id ` {j \<in> set cur. j_failure_disposition j \<in> {Some DispFailed, Some DispUpstreamFailed}}"
      using ids(1) by (auto simp: selectWorkflowRetrySteps_def Let_def first_occurrences_def split: if_splits)
    then show ?thesis unfolding pl(3) sel using True by (auto simp: cur(1))
  next
    case False
    then obtain st where st: "find_row (\<lambda>j. j_step_name j = wr_from_step request) cur = Some st" "truthy_string (wr_from_step request)"
      "ids = collect_dependents rels [j_id st] [j_id st]"
      using ids(1) by (auto simp: selectWorkflowRetrySteps_def split: if_splits option.splits)
    have u: "start = st" if "start \<in> set cur" "j_step_name start = wr_from_step request" for start
      using from_step_unique [OF cur(3) st(2) that(1) _ that(2)] find_row_Some [OF st(1)] by simp
    have "set ids = {d. (d, j_id st) \<in> (waits_in rels)\<^sup>*}" by (simp add: st(3) collect_dependents_reach)
    then show ?thesis unfolding pl(3) sel using False find_row_Some [OF st(1)] u by (auto simp: cur(1,2) [symmetric])
  qed
qed

lemma retry_relations:
  assumes "retry_plan x root_job mode fs s = Inr (cur, sel, rels)" "set sel \<subseteq> set cur"
  shows "(\<lambda>r. (rep (r_job_id r), rep (r_related_job_id r), r_relation_type r)) ` {r \<in> set rels. r_job_id r \<in> j_id ` set sel} =
    {(rep a, rep b, t) | a b t. a \<in> j_id ` set sel \<and> (a, b, t) \<in> relation_triples s \<and> blocking_relation t}" (is "?l = ?r")
proof
  show "?l \<subseteq> ?r"
  proof clarify
    fix r v
    assume a: "r \<in> set rels" "r_job_id r = j_id v" "v \<in> set sel"
    then have "(r_job_id r, r_related_job_id r, r_relation_type r) \<in> relation_triples s" "blocking_relation (r_relation_type r)"
      using plan_selects [OF assms(1)] by (blast intro: relation_triple)+
    then show "\<exists>a b t. (rep (r_job_id r), rep (r_related_job_id r), r_relation_type r) = (rep a, rep b, t) \<and> a \<in> j_id ` set sel \<and>
      (a, b, t) \<in> relation_triples s \<and> blocking_relation t" using a(2,3) by blast
  qed
  show "?r \<subseteq> ?l"
  proof clarify
    fix a b t v
    assume a: "v \<in> set sel" "(j_id v, b, t) \<in> relation_triples s" "blocking_relation t"
    then obtain r where r: "r \<in> set (job_relations s)" "r_job_id r = j_id v" "r_related_job_id r = b" "r_relation_type r = t"
      by (auto simp: relation_triples_def)
    then have "r \<in> set rels" using plan_selects [OF assms(1)] a assms(2) by auto
    then show "(rep (j_id v), rep b, t) \<in> ?l" using r a(1) by (intro image_eqI [of _ _ r]) auto
  qed
qed

definition clone_of :: "job \<Rightarrow> job \<Rightarrow> bool" where
  "clone_of src k =
     (j_step_name k = j_step_name src \<and> j_phase k = Ready \<and> j_failure_disposition k = None \<and>
      j_assignee k = (if j_execution_type src = ExecAgent then j_assignee src else None))"

definition retry_result :: "string \<Rightarrow> string list \<Rightarrow> job list \<Rightarrow> db \<Rightarrow> db \<Rightarrow> bool" where
  "retry_result rootId old clones s s' \<longleftrightarrow>
     (let rep = replacement (zip old (map j_id clones)) in
      distinct old \<and> distinct (map j_id clones) \<and> j_id ` set clones \<inter> j_id ` set (jobs s) = {} \<and>
      list_all2 (\<lambda>i k. \<exists>src. src \<in> set (jobs s) \<and> j_id src = i \<and> clone_of src k) old clones \<and>
      current_children rootId s' = filter (\<lambda>j. j_id j \<notin> set old) (current_children rootId s) @ clones \<and>
      (\<exists>j. findById rootId s' = Some j \<and> j_phase j = Active \<and> j_closed_at j = None) \<and>
      relation_triples s' = relation_triples s \<union>
        {(rep a, rep b, t) | a b t. a \<in> set old \<and> (a, b, t) \<in> relation_triples s \<and> blocking_relation t} \<and>
      filter (\<lambda>j. j_id j \<notin> set old \<union> {rootId}) (jobs s') = filter (\<lambda>j. j_id j \<notin> set old \<union> {rootId}) (jobs s) @ clones)"

lemma find_row_map: "(\<And>j. P (f j) = P j) \<Longrightarrow> find_row P (map f js) = map_option f (find_row P js)"
  by (induction js) auto

lemma clones_of_steps:
  assumes "list_all2 (cloned x c now) sel new" "set sel \<subseteq> set (jobs s)"
  shows "list_all2 (\<lambda>i k. \<exists>src. src \<in> set (jobs s) \<and> j_id src = i \<and> clone_of src k) (map j_id sel) new"
  using assms
proof (induction sel new rule: list_all2_induct)
  case (Cons src sel k new)
  then show ?case using cloned_fields [OF Cons(1)] by (auto simp: clone_of_def retryStepAssignee_def)
qed simp

lemma other_rows:
  assumes "jobs s' = map (rewritten c o2n sel now) (jobs s) @ new" "j_id (rc_root c) = rootId"
    "j_id ` set new \<inter> j_id ` set (jobs s) = {}" "set sel \<subseteq> set (jobs s)" "rootId \<in> j_id ` set (jobs s)"
  shows "filter (\<lambda>j. j_id j \<notin> set (map j_id sel) \<union> {rootId}) (jobs s') =
    filter (\<lambda>j. j_id j \<notin> set (map j_id sel) \<union> {rootId}) (jobs s) @ new"
proof -
  have "filter (\<lambda>j. j_id j \<notin> set (map j_id sel) \<union> {rootId}) (map (rewritten c o2n sel now) (jobs s)) =
      filter (\<lambda>j. j_id j \<notin> set (map j_id sel) \<union> {rootId}) (jobs s)"
    using assms(2) by (subst filter_map_restrict [where Q = "\<lambda>_. True"]) (auto simp: rewritten_def)
  moreover have "j_id k \<notin> set (map j_id sel) \<union> {rootId}" if "k \<in> set new" for k
  proof -
    have "j_id k \<notin> j_id ` set (jobs s)" using that assms(3) by blast
    then show ?thesis using assms(4,5) by auto
  qed
  ultimately show ?thesis by (simp only: assms(1) filter_append) (simp add: filter_True)
qed

lemma retry_writes:
  assumes "retry_tx x rootId request u now s = (Expanded r, s')" "store_wf s" "j_parent_id (the (findById rootId s)) \<noteq> Some rootId"
  shows "\<exists>clones. retry_result rootId (rr_superseded_job_ids r) clones s s'"
proof -
  obtain c cur sel rels new where e: "findById rootId s = Some (rc_root c)" "j_id (rc_root c) = rootId"
    "retry_plan x (rc_root c) (rc_mode c) (wr_from_step request) s = Inr (cur, sel, rels)"
    "list_all2 (cloned x c now) sel new" "distinct (map j_id sel)" "distinct (map j_id new)"
    "j_id ` set new \<inter> j_id ` set (jobs s) = {}" "rootId \<notin> j_id ` set cur" "set sel \<subseteq> set cur" "set cur \<subseteq> set (jobs s)"
    "rr_superseded_job_ids r = map j_id sel"
    "jobs s' = map (rewritten c (zip (map j_id sel) (map j_id new)) sel now) (jobs s) @ new"
    "relation_triples s' = relation_triples s \<union>
      (\<lambda>r. (replacement (zip (map j_id sel) (map j_id new)) (r_job_id r),
        replacement (zip (map j_id sel) (map j_id new)) (r_related_job_id r), r_relation_type r)) `
        {r \<in> set rels. r_job_id r \<in> j_id ` set sel}"
    by (rule retry_tx_effect [OF assms]) blast
  have root1: "\<forall>j \<in> set (jobs s). j_id j = rootId \<longrightarrow> j_parent_id j \<noteq> Some rootId"
  proof clarify
    fix j assume "j \<in> set (jobs s)" "rootId = j_id j" "j_parent_id j = Some (j_id j)"
    moreover have "rc_root c \<in> set (jobs s)" using find_row_Some [OF e(1) [unfolded findById_def]] by simp
    ultimately show False using assms(2,3) e(1,2) by (auto simp: store_wf_def distinct_map dest: inj_onD)
  qed
  have "rootId \<notin> j_id ` set sel" using e(8,9) by auto
  note cc = current_children_after [OF e(4,2) this root1 e(12)]
  have rt: "\<exists>j. findById rootId s' = Some j \<and> j_phase j = Active \<and> j_closed_at j = None"
    using e(1,2) by (auto simp: findById_def e(12) find_row_map rewritten_def reopened_def)
  have known: "set sel \<subseteq> set (jobs s)" "rootId \<in> j_id ` set (jobs s)"
    using e(9,10) find_row_Some [OF e(1) [unfolded findById_def]] by auto
  note rel = e(13) [unfolded retry_relations [OF e(3,9)]] and cl = clones_of_steps [OF e(4) known(1)] and rows = other_rows [OF e(12,2,7) known]
  show ?thesis using e(5-7,11) cl rt cc rows rel by (intro exI [of _ new]) (simp add: retry_result_def Let_def)
qed

lemma finite_blocking_waits: "finite (blocking_waits s)"
proof (rule finite_subset)
  show "blocking_waits s \<subseteq> (\<lambda>(a, b, _). (a, b)) ` relation_triples s" by (force simp: blocking_waits_def)
qed (simp add: relation_triples_def)

lemma first_in_order:
  assumes "acyclic (blocking_waits s)" "A \<noteq> {}"
  obtains a where "a \<in> A" "\<And>b. (a, b) \<in> blocking_waits s \<Longrightarrow> b \<notin> A"
proof -
  have wf: "wf ((blocking_waits s)\<inverse>)" using finite_acyclic_wf_converse [OF finite_blocking_waits assms(1)] .
  obtain x where "x \<in> A" using assms(2) by blast
  then show thesis by (rule wfE_min [OF wf]) (use that in blast)
qed

lemma open_child_keeps_root:
  assumes "k \<in> set (current_children p (store w))" "\<not> terminal_phase (j_phase k)"
  shows "tryCloseWorkflowRoot p now w = w"
proof -
  have "length (current_children p (store w)) \<noteq>
      count_phase Done (current_children p (store w)) + count_phase Cancelled (current_children p (store w))"
    using count_closed [of "current_children p (store w)"] assms by (auto simp: list_all_iff)
  then show ?thesis by (simp add: tryCloseWorkflowRoot_def Let_def split: option.splits)
qed

lemma retry_moves_on:
  assumes run: "retry_tx x rootId request u now s = (Expanded r, s')" "store_wf s" "j_parent_id (the (findById rootId s)) \<noteq> Some rootId"
    and acyclic: "acyclic (blocking_waits s)"
  shows "\<exists>k. k \<in> set (current_children rootId s') \<and> j_phase k = Ready \<and> \<not> isBlocked (j_id k) s'"
proof -
  obtain c cur sel rels new where e: "findById rootId s = Some (rc_root c)" "j_id (rc_root c) = rootId"
    "retry_plan x (rc_root c) (rc_mode c) (wr_from_step request) s = Inr (cur, sel, rels)"
    "list_all2 (cloned x c now) sel new" "distinct (map j_id sel)" "distinct (map j_id new)"
    "j_id ` set new \<inter> j_id ` set (jobs s) = {}" "rootId \<notin> j_id ` set cur" "set sel \<subseteq> set cur" "set cur \<subseteq> set (jobs s)"
    "jobs s' = map (rewritten c (zip (map j_id sel) (map j_id new)) sel now) (jobs s) @ new"
    "relation_triples s' = relation_triples s \<union>
      (\<lambda>r. (replacement (zip (map j_id sel) (map j_id new)) (r_job_id r),
        replacement (zip (map j_id sel) (map j_id new)) (r_related_job_id r), r_relation_type r)) `
        {r \<in> set rels. r_job_id r \<in> j_id ` set sel}"
    by (rule retry_tx_effect [OF run]) blast
  have "j_id ` set sel \<noteq> {}" using plan_selects [OF e(3)] by simp
  with first_in_order [OF acyclic] obtain a
    where a: "a \<in> j_id ` set sel" "\<And>b. (a, b) \<in> blocking_waits s \<Longrightarrow> b \<notin> j_id ` set sel" by metis
  then obtain n where n: "n < length sel" "a = j_id (sel ! n)" by (auto simp: in_set_conv_nth)
  have "\<not> isBlocked (j_id (new ! n)) s'"
    using clone_blocked [OF e(3) run(2) e(4-7) e(8) [folded e(2)] e(9-12) n(1)] a(2) n(2) by (auto simp: blocking_waits_def)
  moreover have k: "cloned x c now (sel ! n) (new ! n)" "new ! n \<in> set new"
    using list_all2_nthD [OF e(4) n(1)] n(1) list_all2_lengthD [OF e(4)] by simp_all
  moreover have "new ! n \<in> set (jobs s')" using k(2) e(11) by simp
  ultimately show ?thesis
    using cloned_fields [OF k(1)] clone_not_superseded [OF k(1)] e(2)
    by (intro exI [of _ "new ! n"]) (simp add: current_children_def)
qed

text \<open>A workflow of three steps in a row whose second step failed.\<close>

definition ex_flow_job :: "string \<Rightarrow> string \<Rightarrow> phase \<Rightarrow> failure_disposition option \<Rightarrow> job" where
  "ex_flow_job i step p d = ex_job_row\<lparr>j_id := i, j_project_id := ''proj_p'', j_parent_id := Some ''demo-a1'', j_depth := 1, j_phase := p,
     j_step_name := Some step, j_failure_disposition := d\<rparr>"

definition ex_flow :: db where
  "ex_flow = (store ex_world)\<lparr>
     projects := [\<lparr>p_id = ''proj_p'', p_slug = ''demo'', p_org_id = ''o1''\<rparr>],
     jobs := [ex_job_row\<lparr>j_project_id := ''proj_p'', j_phase := Cancelled, j_hints := [(''workflow_root'', JBool True)]\<rparr>,
       ex_flow_job ''demo-a1.1'' ''build'' Done None, ex_flow_job ''demo-a1.2'' ''test'' Cancelled (Some DispFailed),
       ex_flow_job ''demo-a1.3'' ''deploy'' Cancelled (Some DispUpstreamFailed)],
     job_relations := [\<lparr>job_relation.r_id = ''r1'', r_job_id = ''demo-a1.2'', r_related_job_id = ''demo-a1.1'', r_relation_type = Blocks\<rparr>,
       \<lparr>job_relation.r_id = ''r2'', r_job_id = ''demo-a1.3'', r_related_job_id = ''demo-a1.2'', r_relation_type = Blocks\<rparr>]\<rparr>"

definition ex_retry_ext :: retry_ext where
  "ex_retry_ext = \<lparr>rt_num_text = (\<lambda>_. ''1''), rt_uuids = (\<lambda>(a, b, _). a @ b), rt_hashes = (\<lambda>_. []), rt_place = length\<rparr>"

definition ex_retry_request :: retry_request where
  "ex_retry_request = \<lparr>wr_root_job_id = ''demo-a1'', wr_failed = False, wr_from_step = Some ''test''\<rparr>"

definition ex_context :: retry_context where
  "ex_context = \<lparr>rc_root = hd (jobs ex_flow), rc_mode = Mode_from, rc_from_step = Some ''test'', rc_user_id = None,
     rc_generation = nextRetryGeneration (child_jobs ex_retry_ext ''demo-a1'' ex_flow), rc_requested_at = iso_date 9000\<rparr>"

definition ex_replaced :: "(string \<times> string) list" where
  "ex_replaced = [(''demo-a1.2'', ''demo-a1.4''), (''demo-a1.3'', ''demo-a1.5'')]"

lemma ex_flow_root: "findById ''demo-a1'' ex_flow = Some (hd (jobs ex_flow))" "isWorkflowRoot (hd (jobs ex_flow))"
    "j_id (hd (jobs ex_flow)) = ''demo-a1''"
  by code_simp+

lemma ex_flow_plan: "retry_plan ex_retry_ext (hd (jobs ex_flow)) Mode_from (Some ''test'') ex_flow =
    Inr (drop 1 (jobs ex_flow), drop 2 (jobs ex_flow), job_relations ex_flow)"
  by code_simp

lemma ex_flow_clones: "fst (clone_steps ex_retry_ext ex_context 9000 (drop 2 (jobs ex_flow)) [] ex_flow) = Expanded ex_replaced"
  by code_simp

lemma ex_flow_links: "fst (link_clones ex_retry_ext ex_context 9000 (job_relations ex_flow) ex_replaced (drop 2 (jobs ex_flow))
    (snd (clone_steps ex_retry_ext ex_context 9000 (drop 2 (jobs ex_flow)) [] ex_flow))) = Inr ()"
  by code_simp

lemma ex_retry_run:
  obtains r s' where "retry_tx ex_retry_ext ''demo-a1'' ex_retry_request None 9000 ex_flow = (Expanded r, s')"
    "rr_superseded_job_ids r = map j_id (drop 2 (jobs ex_flow))"
proof -
  let ?sel = "drop 2 (jobs ex_flow)"
  obtain s1 where c: "clone_steps ex_retry_ext ex_context 9000 ?sel [] ex_flow = (Expanded ex_replaced, s1)"
    using ex_flow_clones by (metis prod.collapse)
  then obtain s2 where l: "link_clones ex_retry_ext ex_context 9000 (job_relations ex_flow) ex_replaced ?sel s1 = (Inr (), s2)"
    using ex_flow_links by (metis prod.collapse snd_conv)
  have "retry_tx ex_retry_ext ''demo-a1'' ex_retry_request None 9000 ex_flow =
      retry_write ex_retry_ext ex_context (drop 1 (jobs ex_flow)) ?sel (job_relations ex_flow) 9000 ex_flow"
    by (simp only: retry_tx_def ex_retry_request_def ex_flow_root ex_flow_plan ex_context_def Let_def retry_request.select_convs
        option.case sum.case prod.case if_False not_True_eq_False simp_thms)
  then show thesis using that by (simp only: retry_write_def c l prod.case expansion.case sum.case Let_def) auto
qed

lemma ex_flow_wf: "store_wf ex_flow" "j_parent_id (the (findById ''demo-a1'' ex_flow)) \<noteq> Some ''demo-a1''"
  by code_simp+

lemma ex_flow_waits: "acyclic (blocking_waits ex_flow)"
proof (rule acyclic_subset)
  show "blocking_waits ex_flow \<subseteq> {(''demo-a1.3'', ''demo-a1.2''), (''demo-a1.2'', ''demo-a1.1'')}"
    by (auto simp: blocking_waits_def relation_triples_def ex_flow_def)
qed (simp add: acyclic_insert rtrancl_insert acyclic_def [of "{}"])

text \<open>
C34: The steps a retry takes. A retry of the failed steps replaces exactly the current steps that failed or whose upstream failed. A
  retry from a step replaces exactly that step and the jobs that wait for it, directly or through others, by blocking relations
  of current steps.
\<close>

theorem retry_takes_exactly_the_steps:
  assumes "retry_tx x rootId request u now s = (Expanded r, s')"
  shows "set (rr_superseded_job_ids r) =
    (if wr_failed request
     then {j_id j | j. j \<in> set (retry_current x rootId s) \<and> j_failure_disposition j \<in> {Some DispFailed, Some DispUpstreamFailed}}
     else {d. \<exists>start \<in> set (retry_current x rootId s). j_step_name start = wr_from_step request \<and>
       (d, j_id start) \<in> (waits_in (blocking_relations_of (map j_id (retry_current x rootId s)) s))\<^sup>*})"
  using assms by (rule retry_selection)

theorem retry_takes_exactly_the_steps_witness:
  "{''demo-a1.2'', ''demo-a1.3''} = {d. \<exists>start \<in> set (retry_current ex_retry_ext ''demo-a1'' ex_flow). j_step_name start = Some ''test'' \<and>
     (d, j_id start) \<in> (waits_in (blocking_relations_of (map j_id (retry_current ex_retry_ext ''demo-a1'' ex_flow)) ex_flow))\<^sup>*}"
proof -
  obtain r s' where r: "retry_tx ex_retry_ext ''demo-a1'' ex_retry_request None 9000 ex_flow = (Expanded r, s')"
    "rr_superseded_job_ids r = map j_id (drop 2 (jobs ex_flow))" by (rule ex_retry_run)
  have "set (map j_id (drop 2 (jobs ex_flow))) = {''demo-a1.2'', ''demo-a1.3''}" by (simp add: ex_flow_def ex_flow_job_def)
  with retry_takes_exactly_the_steps [OF r(1)] r(2) show ?thesis by (simp only: ex_retry_request_def retry_request.select_convs if_False)
qed

text \<open>
C35: What a retry leaves. A successful retry gives every selected step one new job with a fresh id, ready, under the same step name, without
  the assignee a claim had left on a job that no agent runs; the current steps of the root, as the orchestrator reads them, are the
  ones not selected and the clones; the root is active and open again; each blocking relation of a selected step is there for
  its clone, with clones in place of selected jobs; and no other job has changed.
\<close>

theorem retry_replaces_the_steps:
  assumes "retry_tx x rootId request u now s = (Expanded r, s')" "store_wf s" "j_parent_id (the (findById rootId s)) \<noteq> Some rootId"
  shows "\<exists>clones. retry_result rootId (rr_superseded_job_ids r) clones s s'"
  using assms by (rule retry_writes)

theorem retry_replaces_the_steps_witness:
  "\<exists>s' clones. retry_result ''demo-a1'' [''demo-a1.2'', ''demo-a1.3''] clones ex_flow s'"
proof -
  obtain r s' where r: "retry_tx ex_retry_ext ''demo-a1'' ex_retry_request None 9000 ex_flow = (Expanded r, s')"
    "rr_superseded_job_ids r = map j_id (drop 2 (jobs ex_flow))" by (rule ex_retry_run)
  have "rr_superseded_job_ids r = [''demo-a1.2'', ''demo-a1.3'']" unfolding r(2) by (simp add: ex_flow_def ex_flow_job_def)
  then show ?thesis using retry_replaces_the_steps [OF r(1) ex_flow_wf] by metis
qed

text \<open>
C36: A retried workflow goes on. When the blocking relations have no cycle, a successful retry leaves a current step of the root
  that is ready and not blocked, and the orchestrator, asked to close the root, leaves it open.
\<close>

theorem retried_workflow_goes_on:
  assumes "retry_tx x rootId request u now s = (Expanded r, s')" "store_wf s" "j_parent_id (the (findById rootId s)) \<noteq> Some rootId"
    "acyclic (blocking_waits s)"
  shows "(\<exists>k. k \<in> set (current_children rootId s') \<and> j_phase k = Ready \<and> \<not> isBlocked (j_id k) s') \<and>
    tryCloseWorkflowRoot rootId later (w\<lparr>store := s'\<rparr>) = w\<lparr>store := s'\<rparr>"
proof
  show k: "\<exists>k. k \<in> set (current_children rootId s') \<and> j_phase k = Ready \<and> \<not> isBlocked (j_id k) s'"
    using assms by (rule retry_moves_on)
  then show "tryCloseWorkflowRoot rootId later (w\<lparr>store := s'\<rparr>) = w\<lparr>store := s'\<rparr>"
    by (auto intro!: open_child_keeps_root simp: terminal_phase_def)
qed

theorem retried_workflow_goes_on_witness:
  "\<exists>r s'. retry_tx ex_retry_ext ''demo-a1'' ex_retry_request None 9000 ex_flow = (Expanded r, s') \<and>
     (\<exists>k. k \<in> set (current_children ''demo-a1'' s') \<and> j_phase k = Ready \<and> \<not> isBlocked (j_id k) s')"
proof -
  obtain r s' where r: "retry_tx ex_retry_ext ''demo-a1'' ex_retry_request None 9000 ex_flow = (Expanded r, s')" by (rule ex_retry_run)
  show ?thesis using retried_workflow_goes_on [OF r ex_flow_wf ex_flow_waits] r by blast
qed

definition ex_cyclic_steps :: "jobject list" where
  "ex_cyclic_steps = [[(''name'', JStr ''a''), (''run'', JStr ''x''), (''depends_on'', JArr [JStr ''b''])],
     [(''name'', JStr ''b''), (''run'', JStr ''y''), (''depends_on'', JArr [JStr ''a''])]]"

text \<open>
C33: Validation of a workflow. The steps are accepted exactly when each has one execution key, the names are distinct, every dependency
  names a step, no step waits for itself through others, and every condition parses and is about a dependency of its step. When
  only a cycle stands in the way, the message gives a path along dependencies that comes back to a step it has
  passed.
\<close>

theorem workflow_validation_is_exact:
  "(validateStepGraph w steps = None \<longleftrightarrow> runnable_graph steps) \<and>
   (validateStepGraph w steps = Some e \<longrightarrow> well_named steps \<longrightarrow> \<not> acyclic (waits_on steps) \<longrightarrow>
     (\<exists>c. cycle_path (step_dep_map (labelled steps)) c \<and>
        e = ''Workflow '' @ dquoted w @ '' has a dependency cycle: '' @ join_with '' -> '' c))"
  using validateStepGraph_accepts validateStepGraph_cycle [of w steps e] by (simp add: well_named_def)

theorem workflow_validation_is_exact_witness:
  "\<exists>c. cycle_path (step_dep_map (labelled ex_cyclic_steps)) c \<and>
     ''Workflow \"w\" has a dependency cycle: a -> b -> a'' = ''Workflow '' @ dquoted ''w'' @ '' has a dependency cycle: '' @ join_with '' -> '' c"
proof -
  have v: "validateStepGraph ''w'' ex_cyclic_steps = Some ''Workflow \"w\" has a dependency cycle: a -> b -> a''" by code_simp
  have "cycle_path (step_dep_map (labelled ex_cyclic_steps)) [''a'', ''b'', ''a'']" by code_simp
  moreover have n: "well_named ex_cyclic_steps" by code_simp
  ultimately have "\<not> acyclic (waits_on ex_cyclic_steps)"
    using dep_map_edges [of ex_cyclic_steps] by (metis cycle_path_cyclic well_named_def)
  then show ?thesis using workflow_validation_is_exact [of "''w''" ex_cyclic_steps] v n by blast
qed

end
