(* ===== verification/Loop_Properties.thy ===== *)
theory Loop_Properties
  imports Dispatch
begin

section \<open>What the orchestrator loop guarantees\<close>

text \<open>Properties of the limiter, the tuner and the dispatch slots.\<close>

text \<open>C12: Slots are conserved under every interleaving of ticks, dispatches, watchdog recoveries and limit changes:
  starting from an idle orchestrator, the number in flight is always the pipeline dispatches plus the
  tracked job dispatches plus the slot the tick holds plus the slots that were lost, and no release of a
  dispatch or of the tick ever throws.\<close>

theorem slots_are_conserved:
  assumes "newLimiter n = Inr l" and "orch_step\<^sup>*\<^sup>* (idle_orch l) s"
  shows "inFlight (lim s) = int (pipelines s) + int (length (inFlightJobs s)) +
      (if slot s then 1 else 0) + int (lost s) \<and>
    (0 < pipelines s \<longrightarrow> (\<exists>s'. dispatchPipeline_finish s = Inr s')) \<and>
    (\<exists>s'. dispatchJob_finish i s = Inr s') \<and>
    (slot s \<longrightarrow> (\<exists>l'. release_slot (lim s) = Inr l'))"
proof -
  have a: "accounted s" by (rule orch_run.run_keeps [OF assms(2) idle_accounted [OF assms(1)]])
  with accounted_releases [OF a] show ?thesis by (auto simp: accounted_def)
qed

definition ex_lim :: limiter where "ex_lim = \<lparr>inFlight = 0, limit = 2\<rparr>"

definition ex_busy_orch :: orch where
  "ex_busy_orch = dispatchJob_start ''a-1'' 5 ((idle_orch ex_lim)\<lparr>lim := ex_lim\<lparr>inFlight := 1\<rparr>, slot := True\<rparr>)"

lemma ex_busy_reached: "orch_step\<^sup>*\<^sup>* (idle_orch ex_lim) ex_busy_orch"
proof -
  let ?s1 = "(idle_orch ex_lim)\<lparr>lim := ex_lim\<lparr>inFlight := 1\<rparr>, slot := True\<rparr>"
  have "orch_step (idle_orch ex_lim) ?s1"
    by (rule take_slot) (simp_all add: idle_orch_def tryAcquire_def ex_lim_def)
  moreover have "orch_step ?s1 ex_busy_orch" unfolding ex_busy_orch_def by (rule job_claimed) simp
  ultimately show ?thesis by auto
qed

theorem slots_are_conserved_witness:
  "inFlight (lim ex_busy_orch) = 1 \<and> (\<exists>s'. dispatchJob_finish ''a-1'' ex_busy_orch = Inr s')"
proof -
  have "newLimiter 2 = Inr ex_lim" by (simp add: newLimiter_def ex_lim_def)
  from slots_are_conserved [OF this ex_busy_reached, of "''a-1''"] show ?thesis
    by (simp add: ex_busy_orch_def dispatchJob_start_def idle_orch_def map_set_def map_has_def)
qed

text \<open>A slot is lost for good when a claim throws while the tick holds it: the lost slots never decrease, and once
  as many are lost as the limit allows, no tick gets a slot again, whatever finishes or is recovered,
  until the limit is raised.\<close>

theorem lost_slots_starve_the_loop:
  assumes "accounted s" and "orch_step\<^sup>*\<^sup>* s s'"
  shows "lost s \<le> lost s' \<and> (limit (lim s') \<le> int (lost s') \<longrightarrow> tryAcquire (lim s') = (False, lim s'))"
proof -
  have "lost s \<le> lost s'" using assms(2) by (induction rule: rtranclp_induct) (auto dest: lost_grows)
  moreover have "accounted s'" by (rule orch_run.run_keeps [OF assms(2,1)])
  then have "int (lost s') \<le> inFlight (lim s')" by (simp add: accounted_def)
  ultimately show ?thesis by (auto simp: tryAcquire_def)
qed

definition ex_lost :: orch where
  "ex_lost = \<lparr>lim = \<lparr>inFlight = 1, limit = 1\<rparr>, inFlightJobs = [], slot = False, pipelines = 0, lost = 1\<rparr>"

theorem lost_slots_starve_the_loop_witness:
  "tryAcquire (lim (releaseInFlightDispatchForWatchdog ''a-1'' ex_lost)) = (False, lim ex_lost)"
proof -
  have "accounted ex_lost" by (simp add: ex_lost_def accounted_def)
  moreover have "orch_step\<^sup>*\<^sup>* ex_lost (releaseInFlightDispatchForWatchdog ''a-1'' ex_lost)"
    using watchdog by (rule r_into_rtranclp)
  ultimately show ?thesis
    using lost_slots_starve_the_loop [of ex_lost "releaseInFlightDispatchForWatchdog ''a-1'' ex_lost"]
    by (simp add: releaseInFlightDispatchForWatchdog_def ex_lost_def map_has_def)
qed






text \<open>The tuner keeps the limit between its bounds and never throws: with 1 <= min <= max and a limit in that range,
  one iteration moves the limit by at most one, stays in the range, lowers it under pressure unless it is
  at the minimum, and raises it only when the limiter is full and both resources are well below their thresholds.\<close>

theorem tuner_keeps_bounds:
  assumes "1 \<le> tmin (config t)" and "tmin (config t) \<le> limit l" and "limit l \<le> tmax (config t)"
    and "tuner_tick m now t l = (r, t', l')"
  shows "r = Inr () \<and> tmin (config t) \<le> limit l' \<and> limit l' \<le> tmax (config t) \<and>
    \<bar>limit l' - limit l\<bar> \<le> 1 \<and> inFlight l' = inFlight l \<and>
    (available m \<longrightarrow>
      above (cpuUsage m) (cpuThreshold (config t)) \<or> above (memoryUsage m) (memoryThreshold (config t)) \<longrightarrow>
      limit l' = max (tmin (config t)) (limit l - 1)) \<and>
    (limit l < limit l' \<longrightarrow> \<not> hasCapacity l \<and> well_below (cpuUsage m) (cpuThreshold (config t)) \<and>
      well_below (memoryUsage m) (memoryThreshold (config t)))"
proof -
  have eq: "r = Inr () \<and> l' = (if available m then l\<lparr>limit := tuned_limit (config t) m l\<rparr> else l)"
    using assms by (auto simp: tuner_tick_def tuned_limit_def setLimit_def Let_def split: if_splits)
  then show ?thesis using assms(1-3) by (auto simp: tuned_limit_def hasCapacity_def Let_def split: if_splits)
qed

definition ex_tuner :: tuner where
  "ex_tuner = \<lparr>config = \<lparr>enabled = True, tmin = 1, tmax = 10, intervalMs = 1000, cpuThreshold = 4 / 5,
      memoryThreshold = 4 / 5\<rparr>, running = True, interval = Some 1000, lastMetrics = None,
     lastAdjustment = None, adjustmentCount = 0\<rparr>"

definition ex_metrics :: cgroup_metrics where
  "ex_metrics = \<lparr>cpuUsage = Some (17 / 20), memoryUsage = Some (1 / 2), available = True\<rparr>"

theorem tuner_keeps_bounds_witness:
  "limit (snd (snd (tuner_tick ex_metrics 5 ex_tuner \<lparr>inFlight = 0, limit = 5\<rparr>))) = 4"
proof -
  obtain r t' l' where run: "tuner_tick ex_metrics 5 ex_tuner \<lparr>inFlight = 0, limit = 5\<rparr> = (r, t', l')"
    by (metis prod_cases3)
  with tuner_keeps_bounds [OF _ _ _ run] show ?thesis
    by (simp add: ex_tuner_def ex_metrics_def above_def)
qed

end
