(* ===== verification/Control_Properties.thy ===== *)
theory Control_Properties
  imports Loop_Control
begin

section \<open>Properties of the org file system scopes\<close>

text \<open>How the loop reads the path prefixes of access bindings and what an agent's mount may write.\<close>

definition allow_of :: "binding \<Rightarrow> string list" where
  "allow_of b =
     normalizeScopedPrefixes (Option.bind (Option.bind (b_scope_json b) (\<lambda>sc. json_get sc ''orgfs''))
       (\<lambda>sc. json_get sc ''allow_prefixes''))"

definition may_read :: "binding \<Rightarrow> bool" where
  "may_read b = (\<exists>p \<in> set (b_role_permissions b). p \<in> {''orgfs:read'', ''orgfs:write'', ''orgfs:admin''})"

definition may_write :: "binding \<Rightarrow> bool" where
  "may_write b = (\<exists>p \<in> set (b_role_permissions b). p \<in> {''orgfs:write'', ''orgfs:admin''})"

lemma may_write_read: "may_write b \<Longrightarrow> may_read b"
  by (auto simp: may_write_def may_read_def)

lemma scope_permissions_spec:
  "sc_read (scopeHasOrgFsPermissions (b_role_permissions b)) = may_read b"
  "sc_write (scopeHasOrgFsPermissions (b_role_permissions b)) = may_write b"
  by (auto simp: scopeHasOrgFsPermissions_def may_read_def may_write_def Let_def)

lemma normalizeScopedPrefixes_None [simp]: "normalizeScopedPrefixes None = []"
  by (simp add: normalizeScopedPrefixes_def)

lemma not_truthy_get: "\<not> json_truthy v \<Longrightarrow> Option.bind v (\<lambda>sc. json_get sc k) = None"
  by (cases v rule: json_truthy.cases) auto

lemma binding_prefixes_spec:
  "fst (binding_prefixes b) = (if may_read b then allow_of b else [])"
  "fst (snd (binding_prefixes b)) = (if may_write b then allow_of b else [])"
  "may_read b \<Longrightarrow> \<not> may_write b \<Longrightarrow> set (allow_of b) \<subseteq> set (snd (snd (binding_prefixes b)))"
proof -
  define sc where "sc = Option.bind (b_scope_json b) (\<lambda>sc. json_get sc ''orgfs'')"
  have none: "allow_of b = []" if "\<not> json_truthy sc"
    using not_truthy_get [OF that, of "''allow_prefixes''"] by (simp add: allow_of_def sc_def)
  have some: "allow_of b = normalizeScopedPrefixes (json_get (the sc) ''allow_prefixes'')" if "json_truthy sc"
    using that by (cases sc) (simp_all add: allow_of_def flip: sc_def)
  show "fst (binding_prefixes b) = (if may_read b then allow_of b else [])"
    "fst (snd (binding_prefixes b)) = (if may_write b then allow_of b else [])"
    "may_read b \<Longrightarrow> \<not> may_write b \<Longrightarrow> set (allow_of b) \<subseteq> set (snd (snd (binding_prefixes b)))"
    using may_write_read [of b] none some
    by (simp_all add: binding_prefixes_def scope_permissions_spec Let_def flip: sc_def)
qed

text \<open>
Normalisation of a scope prefix always succeeds on a prefix that is not blank: the guard against
\<^verbatim>\<open>..\<close> never fires, because normalising an absolute path already resolves every \<^verbatim>\<open>..\<close> at the root. The result
is a path of plain segments (none empty, \<^verbatim>\<open>.\<close> or \<^verbatim>\<open>..\<close>), or such a path with a slash or \<^verbatim>\<open>/**\<close> behind it, or
\<^verbatim>\<open>/**\<close>.
\<close>

theorem scoped_prefixes_are_normal:
  "(normalizeScopedPrefix p = None \<longleftrightarrow> js_trim p = []) \<and>
   (normalizeScopedPrefix p = Some q \<longrightarrow>
      q = ''/**'' \<or>
      (\<exists>segs. list_all plain_segment segs \<and>
         (q = path_of segs \<or> segs \<noteq> [] \<and> (q = path_of segs @ ''/'' \<or> q = path_of segs @ ''/**''))))"
proof (cases "js_trim p = []")
  case True
  then show ?thesis by (simp add: normalizeScopedPrefix_def)
next
  case False
  let ?w = "ends_with ''/**'' (js_trim p)"
  let ?raw = "if ?w then take (length (js_trim p) - 3) (js_trim p) else js_trim p"
  define base where "base = normalize_absolute (if starts_with ''/'' ?raw then ?raw else ''/'' @ ?raw)"
  have nd: "''..'' \<notin> set (split_on (CHR ''/'') base)" by (simp add: base_def dotdot_not_in_normal)
  have eq: "normalizeScopedPrefix p =
      (if ?w then Some (if base = ''/'' then ''/**'' else strip_slashes base @ ''/**'')
       else Some (if base = [] then ''/'' else base))"
    using False nd unfolding normalizeScopedPrefix_def Let_def base_def by simp
  obtain segs where plain: "list_all plain_segment segs"
    and form: "base = path_of segs \<or> segs \<noteq> [] \<and> base = path_of segs @ ''/''"
    unfolding base_def by (rule normalize_absolute_form)
  have ne: "base \<noteq> []" using form by (auto simp: path_of_def)
  have strip: "strip_slashes base = path_of segs" if "segs \<noteq> []"
    using form strip_path_of [OF plain that] by (auto simp: strip_slashes_def)
  show ?thesis
  proof (cases "segs = []")
    case True
    then have "base = ''/''" using form by (simp add: path_of_def)
    then show ?thesis using False eq by (auto simp: path_of_def intro!: exI [of _ "[]"])
  next
    case s: False
    then show ?thesis using False eq ne strip [OF s] form plain path_of_root [OF plain] by auto
  qed
qed

theorem scoped_prefixes_are_normal_witness:
  "normalizeScopedPrefix ''/a/../../b//c/**'' = Some ''/b/c/**'' \<and>
   (''/b/c/**'' = ''/**'' \<or>
    (\<exists>segs. list_all plain_segment segs \<and>
       (''/b/c/**'' = path_of segs \<or> segs \<noteq> [] \<and> (''/b/c/**'' = path_of segs @ ''/'' \<or> ''/b/c/**'' = path_of segs @ ''/**''))))"
proof -
  have "normalizeScopedPrefix ''/a/../../b//c/**'' = Some ''/b/c/**''" by code_simp
  then show ?thesis using scoped_prefixes_are_normal [of "''/a/../../b//c/**''" "''/b/c/**''"] by blast
qed

text \<open>
A scope matches by path segments. Below \<^verbatim>\<open>base/**\<close> lie exactly the paths whose segments extend the
segments of the base, so \<^verbatim>\<open>/team/**\<close> does not match \<^verbatim>\<open>/teams\<close>; \<^verbatim>\<open>/**\<close> matches everything. A prefix that is
just \<^verbatim>\<open>/\<close> matches only the root itself, and a prefix with a slash at the end matches no normal path.
\<close>

theorem scoped_match_is_by_segments:
  assumes ss: "list_all plain_segment ss" and ps: "list_all plain_segment ps"
  shows "(ss \<noteq> [] \<longrightarrow> (matchesScopedPrefix (path_of ps) (path_of ss @ ''/**'') \<longleftrightarrow> (\<exists>rest. ps = ss @ rest))) \<and>
    matchesScopedPrefix (path_of ps) ''/**'' \<and>
    (matchesScopedPrefix (path_of ps) ''/'' \<longleftrightarrow> ps = []) \<and>
    (ss \<noteq> [] \<longrightarrow> \<not> matchesScopedPrefix (path_of ps) (path_of ss @ ''/''))"
proof (intro conjI impI)
  assume ne: "ss \<noteq> []"
  have "path_of ss @ ''/**'' \<noteq> ''/**''" by (simp add: path_of_def)
  then show "matchesScopedPrefix (path_of ps) (path_of ss @ ''/**'') \<longleftrightarrow> (\<exists>rest. ps = ss @ rest)"
    using below_iff_segments [OF ss ps ne]
    by (simp add: matchesScopedPrefix_def base_of_wildcard [OF ss ne] Let_def)
  show "\<not> matchesScopedPrefix (path_of ps) (path_of ss @ ''/'')"
  proof
    assume m: "matchesScopedPrefix (path_of ps) (path_of ss @ ''/'')"
    have "path_of ss @ ''/'' \<noteq> t @ ''/**''" for t
      by (rule notI) (drule arg_cong [where f = last], simp)
    then have "\<not> ends_with ''/**'' (path_of ss @ ''/'')" by (simp add: ends_with_iff)
    moreover have root: "path_of ss @ ''/'' \<noteq> ''/**''" by (auto simp: path_of_def)
    ultimately have b: "scopePrefixBasePath (path_of ss @ ''/'') = path_of ss @ ''/''"
      by (simp add: scopePrefixBasePath_def)
    then obtain t where t: "path_of ps = path_of ss @ CHR ''/'' # t" "t = [] \<or> (\<exists>u. t = CHR ''/'' # u)"
      using m root by (auto simp: matchesScopedPrefix_def Let_def starts_with_iff)
    then have "ps \<noteq> []" by (auto simp: path_of_def)
    moreover have "[] # ps = ([] # ss) @ split_on (CHR ''/'') t"
      using calculation split_path_of [OF ps] split_path_of [OF ss ne] t(1)
        split_on_append_sep [of "CHR ''/''" "path_of ss" t] by simp
    moreover have "[] \<in> set (split_on (CHR ''/'') t)" using t(2) by auto
    ultimately have "[] \<in> set ps" by (simp only: append_Cons list.inject set_append Un_iff) simp
    then show False using ps by (auto simp: list_all_iff plain_segment_def)
  qed
next
  have "path_of ps \<noteq> CHR ''/'' # CHR ''/'' # t" for t
    using ps by (cases ps; cases "hd ps"; cases "tl ps") (auto simp: path_of_def plain_segment_def)
  then show "matchesScopedPrefix (path_of ps) ''/'' \<longleftrightarrow> ps = []"
    using path_of_root [OF ps]
    by (auto simp: matchesScopedPrefix_def scopePrefixBasePath_def ends_with_def Let_def starts_with_iff)
qed (simp add: matchesScopedPrefix_def)

theorem scoped_match_is_by_segments_witness:
  "\<not> matchesScopedPrefix ''/teams/a'' ''/team/**'' \<and> \<not> matchesScopedPrefix ''/teams/a'' ''/team/''"
proof -
  have plain: "list_all plain_segment [''team'']" "list_all plain_segment [''teams'', ''a'']"
    by (simp_all add: plain_segment_def)
  have path: "path_of [''team''] = ''/team''" "path_of [''teams'', ''a''] = ''/teams/a''"
    by (simp_all add: path_of_def)
  show ?thesis using scoped_match_is_by_segments [OF plain] unfolding path by simp
qed

text \<open>
C27: The mount derived from access bindings. The allowed prefixes are exactly those of the bindings whose
role may read; the mount is writable exactly when a binding whose role may write allows some prefix; and
an allowed prefix that is not listed as read-only is allowed only by bindings whose role may write.
\<close>

theorem mount_read_only_is_honoured:
  "mc_mode (deriveOrgFsMountContext bs) =
     (if \<exists>b \<in> set bs. may_write b \<and> allow_of b \<noteq> [] then MountWrite
      else if \<exists>b \<in> set bs. may_read b \<and> allow_of b \<noteq> [] then MountRead else MountNone) \<and>
   (p \<in> set (mc_allow_prefixes (deriveOrgFsMountContext bs)) \<longleftrightarrow> (\<exists>b \<in> set bs. may_read b \<and> p \<in> set (allow_of b))) \<and>
   (p \<in> set (mc_allow_prefixes (deriveOrgFsMountContext bs)) \<longrightarrow>
    p \<notin> set (mc_read_only_prefixes (deriveOrgFsMountContext bs)) \<longrightarrow>
    (\<forall>b \<in> set bs. may_read b \<longrightarrow> p \<in> set (allow_of b) \<longrightarrow> may_write b))"
proof -
  let ?parts = "map binding_prefixes bs"
  have r: "set (concat (map fst ?parts)) = (\<Union>b \<in> {b \<in> set bs. may_read b}. set (allow_of b))"
    and w: "set (concat (map (fst \<circ> snd) ?parts)) = (\<Union>b \<in> {b \<in> set bs. may_write b}. set (allow_of b))"
    by (auto simp: binding_prefixes_spec split: if_splits)
  have ro: "p \<in> set (concat (map (snd \<circ> snd) ?parts))"
    if "b \<in> set bs" "may_read b" "\<not> may_write b" "p \<in> set (allow_of b)" for b
    using binding_prefixes_spec(3) [OF that(2,3)] that by auto
  have empty: "concat (map fst ?parts) = [] \<longleftrightarrow> \<not> (\<exists>b \<in> set bs. may_read b \<and> allow_of b \<noteq> [])"
    "concat (map (fst \<circ> snd) ?parts) = [] \<longleftrightarrow> \<not> (\<exists>b \<in> set bs. may_write b \<and> allow_of b \<noteq> [])"
    by (auto simp: binding_prefixes_spec)
  have mode: "mc_mode (deriveOrgFsMountContext bs) =
     (if concat (map fst ?parts) = [] then MountNone
      else if concat (map (fst \<circ> snd) ?parts) = [] then MountRead else MountWrite)"
    unfolding deriveOrgFsMountContext_def Let_def NO_ORG_FS_MOUNT_def by (auto simp del: concat_eq_Nil_conv)
  have allow: "set (mc_allow_prefixes (deriveOrgFsMountContext bs)) = set (concat (map fst ?parts))"
    by (simp add: deriveOrgFsMountContext_def Let_def NO_ORG_FS_MOUNT_def del: set_concat)
  have kept: "p \<in> set (mc_read_only_prefixes (deriveOrgFsMountContext bs))"
    if "p \<in> set (concat (map (snd \<circ> snd) ?parts))" "p \<in> set (concat (map fst ?parts))"
    using that unfolding deriveOrgFsMountContext_def Let_def by (cases "concat (map fst ?parts) = []") auto
  have m: "mc_mode (deriveOrgFsMountContext bs) =
     (if \<exists>b \<in> set bs. may_write b \<and> allow_of b \<noteq> [] then MountWrite
      else if \<exists>b \<in> set bs. may_read b \<and> allow_of b \<noteq> [] then MountRead else MountNone)"
    unfolding mode empty using may_write_read by auto
  have a: "p \<in> set (mc_allow_prefixes (deriveOrgFsMountContext bs)) \<longleftrightarrow> (\<exists>b \<in> set bs. may_read b \<and> p \<in> set (allow_of b))"
    unfolding allow r by blast
  have "may_write b" if "p \<in> set (mc_allow_prefixes (deriveOrgFsMountContext bs))"
      "p \<notin> set (mc_read_only_prefixes (deriveOrgFsMountContext bs))"
      "b \<in> set bs" "may_read b" "p \<in> set (allow_of b)" for b
    using kept ro [OF that(3,4) _ that(5)] that(1,2) unfolding allow by blast
  then show ?thesis using m a by blast
qed

theorem mount_read_only_is_honoured_witness:
  "let bs = [\<lparr>b_role_permissions = [''orgfs:write''], b_scope_json = Some (JObj [(''orgfs'',
               JObj [(''allow_prefixes'', JArr [JStr ''/a/**'', JStr ''/b/**''])])])\<rparr>,
             \<lparr>b_role_permissions = [''orgfs:read''], b_scope_json = Some (JObj [(''orgfs'',
               JObj [(''allow_prefixes'', JArr [JStr ''/b/**''])])])\<rparr>]
   in mc_mode (deriveOrgFsMountContext bs) = MountWrite \<and>
      mc_read_only_prefixes (deriveOrgFsMountContext bs) = [''/b/**''] \<and>
      (\<forall>b \<in> set bs. may_read b \<longrightarrow> ''/a/**'' \<in> set (allow_of b) \<longrightarrow> may_write b)"
proof -
  let ?bs = "[\<lparr>b_role_permissions = [''orgfs:write''], b_scope_json = Some (JObj [(''orgfs'',
               JObj [(''allow_prefixes'', JArr [JStr ''/a/**'', JStr ''/b/**''])])])\<rparr>,
             \<lparr>b_role_permissions = [''orgfs:read''], b_scope_json = Some (JObj [(''orgfs'',
               JObj [(''allow_prefixes'', JArr [JStr ''/b/**''])])])\<rparr>] :: binding list"
  have v: "mc_mode (deriveOrgFsMountContext ?bs) = MountWrite"
    "mc_read_only_prefixes (deriveOrgFsMountContext ?bs) = [''/b/**'']"
    "mc_allow_prefixes (deriveOrgFsMountContext ?bs) = [''/a/**'', ''/b/**'']"
    by code_simp+
  have "\<forall>b \<in> set ?bs. may_read b \<longrightarrow> ''/a/**'' \<in> set (allow_of b) \<longrightarrow> may_write b"
    using mount_read_only_is_honoured [of ?bs "''/a/**''"] unfolding v by simp
  with v(1,2) show ?thesis unfolding Let_def by blast
qed

end
