(* ===== verification/Templates.thy ===== *)
theory Templates
  imports Loop_Control
begin

section \<open>Template expressions\<close>

text \<open>
  \<^verbatim>\<open>packages/shared/src/templates/expr.ts\<close> and \<^verbatim>\<open>workflow-validation.ts\<close>: references such as
  \<^verbatim>\<open>${inputs.model}\<close> in the fields of a workflow step, their parser, their validation when a manifest is
  synchronised and their evaluation when the workflow is invoked. Errors that the code throws are the
  left side of a sum. Offsets into the template are natural numbers.
\<close>

subsection \<open>Values and property access\<close>

text \<open>
  A JavaScript value that a property read can give: undefined, JSON data, a function of the runtime (its
  text is all that is used of it) or a prototype object. A property that an object lacks is looked up in
  its prototype, as the code reads properties without \<^verbatim>\<open>hasOwnProperty\<close>.
\<close>

datatype js =
    Undefined
  | Json json
  | Native string
  | Object_prototype
  | Array_prototype

definition object_methods :: "string list" where
  "object_methods =
     [''__defineGetter__'', ''__defineSetter__'', ''hasOwnProperty'', ''__lookupGetter__'', ''__lookupSetter__'',
      ''isPrototypeOf'', ''propertyIsEnumerable'', ''toString'', ''valueOf'', ''toLocaleString'']"

definition array_methods :: "string list" where
  "array_methods =
     [''at'', ''concat'', ''copyWithin'', ''fill'', ''find'', ''findIndex'', ''findLast'', ''findLastIndex'', ''lastIndexOf'',
      ''pop'', ''push'', ''reverse'', ''shift'', ''unshift'', ''slice'', ''sort'', ''splice'', ''includes'', ''indexOf'',
      ''join'', ''keys'', ''entries'', ''values'', ''forEach'', ''filter'', ''flat'', ''flatMap'', ''map'', ''every'', ''some'',
      ''reduce'', ''reduceRight'', ''toReversed'', ''toSorted'', ''toSpliced'', ''with'', ''toString'', ''toLocaleString'']"

definition native_text :: "string \<Rightarrow> string" where
  "native_text name = ''function '' @ name @ ''() { [native code] }''"

definition object_inherited :: "string \<Rightarrow> js" where
  "object_inherited k =
     (if k = ''__proto__'' then Object_prototype
      else if k = ''constructor'' then Native (native_text ''Object'')
      else if k \<in> set object_methods then Native (native_text k)
      else Undefined)"

definition array_inherited :: "string \<Rightarrow> js" where
  "array_inherited k =
     (if k = ''__proto__'' then Array_prototype
      else if k = ''constructor'' then Native (native_text ''Array'')
      else if k \<in> set array_methods then Native (native_text k)
      else object_inherited k)"

definition array_index :: "string \<Rightarrow> nat option" where
  "array_index k = (case read_nat k of Some n \<Rightarrow> if show_nat n = k then Some n else None | None \<Rightarrow> None)"

text \<open>
  \<^verbatim>\<open>v[k]\<close> for a value whose \<^verbatim>\<open>typeof\<close> is \<^verbatim>\<open>'object'\<close>; the \<^verbatim>\<open>__proto__\<close> of the two prototypes are null and the
  object prototype.
\<close>

fun js_prop :: "js \<Rightarrow> string \<Rightarrow> js" where
  "js_prop (Json (JObj kvs)) k = (case obj_get kvs k of Some v \<Rightarrow> Json v | None \<Rightarrow> object_inherited k)"
| "js_prop (Json (JArr vs)) k =
     (case array_index k of
        Some n \<Rightarrow> if n < length vs then Json (vs ! n) else array_inherited k
      | None \<Rightarrow> if k = ''length'' then Json (JNum (of_nat (length vs))) else array_inherited k)"
| "js_prop Object_prototype k = (if k = ''__proto__'' then Json JNull else object_inherited k)"
| "js_prop Array_prototype k =
     (if k = ''__proto__'' then Object_prototype
      else if k = ''length'' then Json (JNum 0) else array_inherited k)"
| "js_prop _ k = Undefined"

fun typeof_object :: "js \<Rightarrow> bool" where
  "typeof_object (Json v) = (case v of JNull \<Rightarrow> True | JObj _ \<Rightarrow> True | JArr _ \<Rightarrow> True | _ \<Rightarrow> False)"
| "typeof_object Object_prototype = True"
| "typeof_object Array_prototype = True"
| "typeof_object _ = False"

definition nullish :: "js \<Rightarrow> bool" where
  "nullish v = (v = Undefined \<or> v = Json JNull)"

text \<open>\<^verbatim>\<open>String(v)\<close> of a scalar or a function; how a number prints is a parameter.\<close>

fun js_text :: "(rat \<Rightarrow> string) \<Rightarrow> js \<Rightarrow> string" where
  "js_text nt (Json (JStr t)) = t"
| "js_text nt (Json (JNum n)) = nt n"
| "js_text nt (Json (JBool b)) = (if b then ''true'' else ''false'')"
| "js_text nt (Native t) = t"
| "js_text nt _ = []"

fun str_includes :: "string \<Rightarrow> string \<Rightarrow> bool" where
  "str_includes p [] = (p = [])"
| "str_includes p (c # cs) = (starts_with p (c # cs) \<or> str_includes p cs)"

subsection \<open>Parsing\<close>

datatype ref_head = Head_inputs | Head_event

record template_ref =
  tr_head :: ref_head
  tr_path :: "string list"
  tr_raw :: string
  tr_start :: nat
  tr_end :: nat

datatype part = Literal string | Ref template_ref

record parsed_template =
  pt_parts :: "part list"
  pt_refs :: "template_ref list"
  pt_singleRef :: bool

record template_error =
  te_message :: string
  te_start :: nat
  te_end :: nat

definition looksTemplated :: "string \<Rightarrow> bool" where
  "looksTemplated input = str_includes ''${'' input"

text \<open>\<^verbatim>\<open>IDENT_RE\<close>.\<close>

definition ident_start :: "char \<Rightarrow> bool" where
  "ident_start c = (c = CHR ''_'' \<or> CHR ''A'' \<le> c \<and> c \<le> CHR ''Z'' \<or> CHR ''a'' \<le> c \<and> c \<le> CHR ''z'')"

definition ident_char :: "char \<Rightarrow> bool" where
  "ident_char c = (ident_start c \<or> CHR ''0'' \<le> c \<and> c \<le> CHR ''9'' \<or> c = CHR ''-'')"

definition is_ident :: "string \<Rightarrow> bool" where
  "is_ident t = (t \<noteq> [] \<and> ident_start (hd t) \<and> list_all ident_char (tl t))"

fun head_text :: "ref_head \<Rightarrow> string" where
  "head_text Head_inputs = ''inputs''"
| "head_text Head_event = ''event.payload''"

definition ticked :: "string \<Rightarrow> string" where
  "ticked t = ''`'' @ t @ ''`''"

definition head_of :: "string \<Rightarrow> ref_head option" where
  "head_of body =
     (if body = ''inputs'' \<or> starts_with ''inputs.'' body then Some Head_inputs
      else if body = ''event.payload'' \<or> starts_with ''event.payload.'' body then Some Head_event
      else None)"

text \<open>The loop over the segments ends with the first bad one.\<close>

fun bad_segment :: "string \<Rightarrow> string list \<Rightarrow> string option" where
  "bad_segment body [] = None"
| "bad_segment body (seg # segs) =
     (if seg = [] then Some (''Empty path segment in '' @ ticked body)
      else if \<not> is_ident seg then
        Some (''Invalid path segment '' @ ticked seg @ '' in '' @ ticked body
          @ '' (letters, digits, underscores, hyphens only)'')
      else bad_segment body segs)"

definition parseReference :: "string \<Rightarrow> nat \<Rightarrow> nat \<Rightarrow> template_error + template_ref" where
  "parseReference body start stop =
     (let fail = (\<lambda>msg. Inl \<lparr>te_message = msg, te_start = start, te_end = stop\<rparr>)
      in if body = [] then fail ''Empty `${}` expression''
         else case head_of body of
           None \<Rightarrow> fail (''Unsupported expression head in '' @ ticked body
             @ ''. Only `inputs.<key>` and `event.payload.<path>` are allowed.'')
         | Some head \<Rightarrow>
             let rest = drop (length (head_text head)) body;
                 path = (if rest = [] then [] else split_on (CHR ''.'') (drop 1 rest))
             in case bad_segment body path of
                  Some msg \<Rightarrow> fail msg
                | None \<Rightarrow>
                    if head = Head_inputs \<and> length path \<noteq> 1 then
                      fail (''`inputs.<key>` expects exactly one key, got '' @ ticked body)
                    else if head = Head_event \<and> path = [] then
                      fail ''`event.payload.<path>` requires at least one path segment''
                    else Inr \<lparr>tr_head = head, tr_path = path, tr_raw = body, tr_start = start, tr_end = stop\<rparr>)"

text \<open>\<^verbatim>\<open>indexOf('}')\<close>: what stands before the first closing brace, and what follows it.\<close>

fun split_close :: "string \<Rightarrow> (string \<times> string) option" where
  "split_close [] = None"
| "split_close (c # cs) =
     (if c = CHR ''}'' then Some ([], cs)
      else map_option (\<lambda>(body, rest). (c # body, rest)) (split_close cs))"

lemma split_close_Some: "split_close cs = Some (body, rest) \<longleftrightarrow> cs = body @ CHR ''}'' # rest \<and> CHR ''}'' \<notin> set body"
proof (induction cs arbitrary: body)
  case (Cons c cs)
  then show ?case by (cases body) auto
qed simp

definition flush :: "string \<Rightarrow> part list" where
  "flush buf = (if buf = [] then [] else [Literal buf])"

text \<open>The loop of \<^verbatim>\<open>parseTemplate\<close> at position \<open>i\<close> of a template of length \<open>n\<close>, with the text from there on.\<close>

function parse_parts :: "nat \<Rightarrow> nat \<Rightarrow> string \<Rightarrow> string \<Rightarrow> template_error + part list" where
  "parse_parts n i buf [] = Inr (flush buf)"
| "parse_parts n i buf (c # cs) =
     (if c = CHR 0x5C \<and> starts_with ''$'' cs then parse_parts n (i + 2) (buf @ ''$'') (drop 1 cs)
      else if c = CHR ''$'' \<and> starts_with ''{'' cs then
        (case split_close (drop 1 cs) of
           None \<Rightarrow> Inl \<lparr>te_message = ''Unterminated `${` in template'', te_start = i, te_end = n\<rparr>
         | Some (body, rest) \<Rightarrow>
             let close = i + 2 + length body
             in case parseReference (js_trim body) (i + 2) close of
                  Inl e \<Rightarrow> Inl e
                | Inr r \<Rightarrow>
                    case parse_parts n (close + 1) [] rest of
                      Inl e \<Rightarrow> Inl e
                    | Inr ps \<Rightarrow> Inr (flush buf @ Ref r # ps))
      else parse_parts n (i + 1) (buf @ [c]) cs)"
  by pat_completeness auto
termination
proof (relation "measure (\<lambda>(n, i, buf, cs). length cs)", goal_cases)
  case (3 n i buf c cs x body rest close r)
  then have "split_close (drop 1 cs) = Some (body, rest)" by simp
  then have "length rest < length (drop 1 cs)" by (simp add: split_close_Some)
  then show ?case by simp
qed auto

fun refs_of :: "part list \<Rightarrow> template_ref list" where
  "refs_of [] = []"
| "refs_of (Literal _ # ps) = refs_of ps"
| "refs_of (Ref r # ps) = r # refs_of ps"

definition is_ref :: "part \<Rightarrow> bool" where
  "is_ref p = (case p of Ref _ \<Rightarrow> True | Literal _ \<Rightarrow> False)"

definition parseTemplate :: "string \<Rightarrow> template_error + parsed_template" where
  "parseTemplate input =
     (case parse_parts (length input) 0 [] input of
        Inl e \<Rightarrow> Inl e
      | Inr ps \<Rightarrow> Inr \<lparr>pt_parts = ps, pt_refs = refs_of ps,
          pt_singleRef = (length (refs_of ps) = 1 \<and> list_all is_ref ps)\<rparr>)"

subsection \<open>Validation and evaluation\<close>

definition undeclared_input :: "string list option \<Rightarrow> template_ref \<Rightarrow> template_error option" where
  "undeclared_input declared r =
     (case (tr_head r, declared) of
        (Head_inputs, Some names) \<Rightarrow>
          if hd (tr_path r) \<in> set names then None
          else Some \<lparr>te_message = ''Template references undeclared input '' @ ticked (''inputs.'' @ hd (tr_path r))
            @ ''. Declare it in workflow.inputs.'', te_start = tr_start r, te_end = tr_end r\<rparr>
      | _ \<Rightarrow> None)"

definition validateTemplate :: "string \<Rightarrow> string list option \<Rightarrow> template_error list" where
  "validateTemplate input declared =
     (if \<not> looksTemplated input then []
      else case parseTemplate input of
        Inl e \<Rightarrow> [e]
      | Inr pt \<Rightarrow> keep_some (map (undeclared_input declared) (pt_refs pt)))"

text \<open>\<^verbatim>\<open>EvaluateScope\<close>: the inputs if there are any, and the payload of the event, undefined without an event.\<close>

record eval_scope =
  es_inputs :: "(string \<times> js) list option"
  es_payload :: js

record eval_result =
  er_value :: "string option"
  er_missing :: "template_ref list"
  er_nonScalar :: "template_ref list"

fun lookupPath :: "js \<Rightarrow> string list \<Rightarrow> js" where
  "lookupPath current [] = current"
| "lookupPath current (seg # segs) =
     (if nullish current \<or> \<not> typeof_object current then Undefined else lookupPath (js_prop current seg) segs)"

definition scope_input :: "(string \<times> js) list \<Rightarrow> string \<Rightarrow> js" where
  "scope_input kvs k = (case map_of kvs k of Some v \<Rightarrow> v | None \<Rightarrow> object_inherited k)"

definition resolveRef :: "template_ref \<Rightarrow> eval_scope \<Rightarrow> js" where
  "resolveRef r sc =
     (case tr_head r of
        Head_inputs \<Rightarrow> (case es_inputs sc of None \<Rightarrow> Undefined | Some kvs \<Rightarrow> scope_input kvs (hd (tr_path r)))
      | Head_event \<Rightarrow> if nullish (es_payload sc) then Undefined else lookupPath (es_payload sc) (tr_path r))"

definition unresolved :: "eval_scope \<Rightarrow> template_ref \<Rightarrow> bool" where
  "unresolved sc r = nullish (resolveRef r sc)"

definition unprintable :: "eval_scope \<Rightarrow> template_ref \<Rightarrow> bool" where
  "unprintable sc r = (\<not> nullish (resolveRef r sc) \<and> typeof_object (resolveRef r sc))"

fun part_text :: "(rat \<Rightarrow> string) \<Rightarrow> eval_scope \<Rightarrow> part \<Rightarrow> string" where
  "part_text nt sc (Literal t) = t"
| "part_text nt sc (Ref r) = js_text nt (resolveRef r sc)"

definition evaluateTemplate :: "(rat \<Rightarrow> string) \<Rightarrow> string \<Rightarrow> eval_scope \<Rightarrow> template_error + eval_result" where
  "evaluateTemplate nt template sc =
     (case parseTemplate template of
        Inl e \<Rightarrow> Inl e
      | Inr pt \<Rightarrow>
          if pt_refs pt = [] then Inr \<lparr>er_value = Some template, er_missing = [], er_nonScalar = []\<rparr>
          else
            let missing = filter (unresolved sc) (pt_refs pt);
                nonScalar = filter (unprintable sc) (pt_refs pt)
            in Inr \<lparr>er_value = (if missing \<noteq> [] \<or> nonScalar \<noteq> [] then None
                       else Some (concat (map (part_text nt sc) (pt_parts pt)))),
                    er_missing = missing, er_nonScalar = nonScalar\<rparr>)"

text \<open>
  \<^verbatim>\<open>interpolateValue\<close> walks a value depth first; the lists of references collect in this order, and the
  first malformed template ends the walk.
\<close>

type_synonym located_refs = "(string \<times> template_ref) list"

definition at_path :: "string \<Rightarrow> template_ref list \<Rightarrow> located_refs" where
  "at_path p rs = map (Pair p) rs"

fun walk :: "(rat \<Rightarrow> string) \<Rightarrow> eval_scope \<Rightarrow> string \<Rightarrow> json \<Rightarrow>
      template_error + json \<times> located_refs \<times> located_refs"
  and walk_items :: "(rat \<Rightarrow> string) \<Rightarrow> eval_scope \<Rightarrow> string \<Rightarrow> nat \<Rightarrow> json list \<Rightarrow>
      template_error + json list \<times> located_refs \<times> located_refs"
  and walk_fields :: "(rat \<Rightarrow> string) \<Rightarrow> eval_scope \<Rightarrow> string \<Rightarrow> (string \<times> json) list \<Rightarrow>
      template_error + (string \<times> json) list \<times> located_refs \<times> located_refs" where
  "walk nt sc p (JStr t) =
     (if \<not> looksTemplated t then Inr (JStr t, [], [])
      else case evaluateTemplate nt t sc of
        Inl e \<Rightarrow> Inl e
      | Inr r \<Rightarrow> Inr (JStr (case er_value r of Some v \<Rightarrow> v | None \<Rightarrow> t),
                   at_path p (er_missing r), at_path p (er_nonScalar r)))"
| "walk nt sc p (JArr vs) =
     (case walk_items nt sc p 0 vs of Inl e \<Rightarrow> Inl e | Inr (vs', m, u) \<Rightarrow> Inr (JArr vs', m, u))"
| "walk nt sc p (JObj kvs) =
     (case walk_fields nt sc p kvs of Inl e \<Rightarrow> Inl e | Inr (kvs', m, u) \<Rightarrow> Inr (JObj kvs', m, u))"
| "walk nt sc p v = Inr (v, [], [])"
| "walk_items nt sc p i [] = Inr ([], [], [])"
| "walk_items nt sc p i (v # vs) =
     (case walk nt sc (p @ ''['' @ show_nat i @ '']'') v of
        Inl e \<Rightarrow> Inl e
      | Inr (v', m, u) \<Rightarrow>
          case walk_items nt sc p (Suc i) vs of
            Inl e \<Rightarrow> Inl e
          | Inr (vs', m', u') \<Rightarrow> Inr (v' # vs', m @ m', u @ u'))"
| "walk_fields nt sc p [] = Inr ([], [], [])"
| "walk_fields nt sc p (f # kvs) =
     (case walk nt sc (if p = [] then fst f else p @ ''.'' @ fst f) (snd f) of
        Inl e \<Rightarrow> Inl e
      | Inr (v', m, u) \<Rightarrow>
          case walk_fields nt sc p kvs of
            Inl e \<Rightarrow> Inl e
          | Inr (kvs', m', u') \<Rightarrow> Inr ((fst f, v') # kvs', m @ m', u @ u'))"

definition interpolateValue ::
  "(rat \<Rightarrow> string) \<Rightarrow> json \<Rightarrow> eval_scope \<Rightarrow> string \<Rightarrow> template_error + json \<times> located_refs \<times> located_refs" where
  "interpolateValue nt v sc p = walk nt sc p v"

subsection \<open>Workflow templates\<close>

record workflow_error =
  we_workflow :: string
  we_stepName :: "string option"
  we_field :: string
  we_message :: string

definition TEMPLATE_FIELDS :: "string list" where
  "TEMPLATE_FIELDS = [''harness_profile'']"

definition OVERRIDE_FIELDS :: "string list" where
  "OVERRIDE_FIELDS = [''harness'', ''model'', ''reasoning_effort'', ''variant'', ''temperature'']"

definition GIT_TEMPLATE_FIELDS :: "string list" where
  "GIT_TEMPLATE_FIELDS = [''ref'', ''branch'', ''commit_message'', ''remote'']"

text \<open>\<^verbatim>\<open>Object.entries\<close>: the fields of an object, the indexed elements of an array.\<close>

definition entries_of :: "json \<Rightarrow> (string \<times> json) list" where
  "entries_of v =
     (case v of
        JObj kvs \<Rightarrow> kvs
      | JArr vs \<Rightarrow> zip (map show_nat [0..<length vs]) vs
      | _ \<Rightarrow> [])"

definition extractDeclaredInputs :: "json option \<Rightarrow> string list" where
  "extractDeclaredInputs inputs = (case inputs of Some v \<Rightarrow> map fst (entries_of v) | None \<Rightarrow> [])"

definition field_errors ::
  "string \<Rightarrow> string option \<Rightarrow> string \<Rightarrow> string list \<Rightarrow> json \<Rightarrow> string list \<Rightarrow> workflow_error list" where
  "field_errors wname stepName prefix declared obj fnames =
     concat (map (\<lambda>field. case json_get obj field of
         Some (JStr v) \<Rightarrow> map (\<lambda>e. \<lparr>we_workflow = wname, we_stepName = stepName, we_field = prefix @ field,
             we_message = te_message e\<rparr>) (validateTemplate v (Some declared))
       | _ \<Rightarrow> []) fnames)"

definition validateGitTemplates ::
  "string \<Rightarrow> string option \<Rightarrow> json option \<Rightarrow> string list \<Rightarrow> workflow_error list" where
  "validateGitTemplates wname stepName git declared =
     (case git of
        Some g \<Rightarrow> field_errors wname stepName ''git.'' declared g GIT_TEMPLATE_FIELDS
      | None \<Rightarrow> [])"

definition step_label :: "nat \<Rightarrow> json \<Rightarrow> string" where
  "step_label index step =
     (case json_get step ''name'' of
        Some (JStr t) \<Rightarrow> if t = [] then ''step-'' @ show_nat (index + 1) else t
      | _ \<Rightarrow> ''step-'' @ show_nat (index + 1))"

definition validate_step :: "string \<Rightarrow> string list \<Rightarrow> nat \<times> json \<Rightarrow> workflow_error list" where
  "validate_step wname declared = (\<lambda>(index, step).
     if \<not> is_object step then []
     else
       let name = Some (step_label index step)
       in field_errors wname name [] declared step TEMPLATE_FIELDS
          @ (case json_get step ''harness_profile_override'' of
               Some override \<Rightarrow> field_errors wname name ''harness_profile_override.'' declared override OVERRIDE_FIELDS
             | None \<Rightarrow> [])
          @ validateGitTemplates wname name (json_get step ''git'') declared)"

definition validate_workflow :: "string \<times> json \<Rightarrow> workflow_error list" where
  "validate_workflow = (\<lambda>(wname, def).
     if \<not> is_object def then []
     else
       let declared = extractDeclaredInputs (json_get def ''inputs'');
           steps = (case json_get def ''steps'' of Some (JArr vs) \<Rightarrow> vs | _ \<Rightarrow> [])
       in validateGitTemplates wname None (json_get def ''git'') declared
          @ concat (map (validate_step wname declared) (enumerate 0 steps)))"

definition validateWorkflowTemplates :: "json option \<Rightarrow> workflow_error list" where
  "validateWorkflowTemplates workflows =
     (case workflows of Some v \<Rightarrow> concat (map validate_workflow (entries_of v)) | None \<Rightarrow> [])"

text \<open>\<^verbatim>\<open>lookupFromPath\<close>: here the segments of the path are not restricted to identifiers.\<close>

definition lookupFromPath :: "string \<Rightarrow> js \<Rightarrow> js" where
  "lookupFromPath from eventPayload =
     (if from \<noteq> ''event.payload'' \<and> \<not> starts_with ''event.payload.'' from then Undefined
      else
        let rest = drop (length ''event.payload'') from
        in if rest = [] then eventPayload
           else lookupPath eventPayload (split_on (CHR ''.'') (drop 1 rest)))"

definition in_object :: "jobject \<Rightarrow> string \<Rightarrow> bool" where
  "in_object kvs k = (obj_get kvs k \<noteq> None \<or> object_inherited k \<noteq> Undefined)"

definition input_value :: "jobject \<Rightarrow> jobject \<Rightarrow> js \<Rightarrow> string \<Rightarrow> js option" where
  "input_value declared provided eventPayload key =
     (if in_object provided key then Some (js_prop (Json (JObj provided)) key)
      else case obj_get declared key of
        Some decl \<Rightarrow>
          if \<not> is_object decl then None
          else
            let resolved = (case json_get decl ''from'' of
                  Some (JStr from) \<Rightarrow> lookupFromPath from eventPayload | _ \<Rightarrow> Undefined)
            in if resolved \<noteq> Undefined then Some resolved else map_option Json (json_get decl ''default'')
      | None \<Rightarrow> None)"

definition buildWorkflowInputsScope ::
  "jobject option \<Rightarrow> jobject option \<Rightarrow> js \<Rightarrow> (string \<times> js) list" where
  "buildWorkflowInputsScope declaredInputs providedInputs eventPayload =
     (let declared = or_default [] declaredInputs;
          provided = or_default [] providedInputs;
          keys = remdups (rev (map fst provided) @ rev (map fst declared))
      in keep_some (map (\<lambda>k. map_option (Pair k) (input_value declared provided eventPayload k)) (rev keys)))"

end
