(* ===== verification/Template_Properties.thy ===== *)
theory Template_Properties
  imports Templates
begin

section \<open>Properties of template expressions\<close>

text \<open>Properties of templates: the round trip of parsing and printing, evaluation as substitution, and the guarantee of validation.\<close>

subsection \<open>Printing\<close>

text \<open>
  A template without its offsets: literal text, and references as head and path. Printing escapes every
  dollar of a literal.
\<close>

type_synonym skeleton = "string + ref_head \<times> string list"

fun skel :: "part \<Rightarrow> skeleton" where
  "skel (Literal t) = Inl t"
| "skel (Ref r) = Inr (tr_head r, tr_path r)"

fun escape :: "string \<Rightarrow> string" where
  "escape [] = []"
| "escape (c # cs) = (if c = CHR ''$'' then [CHR 0x5C, CHR ''$''] else [c]) @ escape cs"

definition ref_body :: "ref_head \<times> string list \<Rightarrow> string" where
  "ref_body r = join_with ''.'' (head_text (fst r) # snd r)"

fun show_part :: "skeleton \<Rightarrow> string" where
  "show_part (Inl t) = escape t"
| "show_part (Inr r) = ''${'' @ ref_body r @ ''}''"

definition show_template :: "skeleton list \<Rightarrow> string" where
  "show_template ks = concat (map show_part ks)"

fun ref_ok :: "ref_head \<times> string list \<Rightarrow> bool" where
  "ref_ok (Head_inputs, path) = (length path = 1 \<and> list_all is_ident path)"
| "ref_ok (Head_event, path) = (path \<noteq> [] \<and> list_all is_ident path)"

text \<open>Literals are not empty and not adjacent, and none before a reference ends in a backslash.\<close>

fun well_parts :: "skeleton list \<Rightarrow> bool" where
  "well_parts [] = True"
| "well_parts (Inr r # ks) = (ref_ok r \<and> well_parts ks)"
| "well_parts [Inl t] = (t \<noteq> [])"
| "well_parts (Inl t # Inl u # ks) = False"
| "well_parts (Inl t # Inr r # ks) = (t \<noteq> [] \<and> last t \<noteq> CHR 0x5C \<and> well_parts (Inr r # ks))"

subsection \<open>References\<close>

lemma ident_char_plain:
  assumes "ident_char c"
  shows "c \<noteq> CHR ''.''" "c \<noteq> CHR ''}''" "\<not> is_space c"
  using assms by (auto simp: ident_char_def ident_start_def is_space_def less_eq_char_def)

lemma is_ident_chars: "is_ident t \<Longrightarrow> c \<in> set t \<Longrightarrow> ident_char c"
  by (cases t) (auto simp: is_ident_def ident_char_def list_all_iff)

lemma is_ident_not_Nil: "is_ident t \<Longrightarrow> t \<noteq> []"
  by (simp add: is_ident_def)

lemma ref_ok_idents: "ref_ok r \<Longrightarrow> snd r \<noteq> [] \<and> list_all is_ident (snd r)"
  by (cases r rule: ref_ok.cases) auto

lemma bad_segment_None: "bad_segment body path = None \<longleftrightarrow> list_all is_ident path"
  by (induction path) (auto simp: is_ident_not_Nil)

lemma ref_body_eq:
  assumes "ref_ok r"
  shows "ref_body r = head_text (fst r) @ ''.'' @ join_with ''.'' (snd r)"
  using ref_ok_idents [OF assms] by (cases "snd r") (auto simp: ref_body_def)

lemma join_idents_chars:
  "list_all is_ident path \<Longrightarrow> c \<in> set (join_with ''.'' path) \<Longrightarrow> ident_char c \<or> c = CHR ''.''"
proof (induction path)
  case (Cons s path)
  then show ?case by (cases path) (auto simp: is_ident_chars)
qed simp

lemma join_idents_last:
  "path \<noteq> [] \<Longrightarrow> list_all is_ident path \<Longrightarrow> join_with ''.'' path \<noteq> [] \<and> ident_char (last (join_with ''.'' path))"
proof (induction path)
  case (Cons s path)
  then show ?case by (cases path) (auto simp: is_ident_chars is_ident_not_Nil)
qed simp

lemma brace_not_in_body: "ref_ok r \<Longrightarrow> CHR ''}'' \<notin> set (ref_body r)"
proof
  assume ok: "ref_ok r" and "CHR ''}'' \<in> set (ref_body r)"
  then have "CHR ''}'' \<in> set (join_with ''.'' (snd r))"
    by (cases "fst r") (auto simp: ref_body_eq [OF ok])
  with ref_ok_idents [OF ok] show False using join_idents_chars ident_char_plain(2) by fastforce
qed

lemma js_trim_body:
  assumes "ref_ok r"
  shows "js_trim (ref_body r) = ref_body r"
proof (rule js_trim_id)
  have j: "join_with ''.'' (snd r) \<noteq> []" "ident_char (last (join_with ''.'' (snd r)))"
    using ref_ok_idents [OF assms] join_idents_last by auto
  then have "last (ref_body r) = last (join_with ''.'' (snd r))" by (simp add: ref_body_eq [OF assms])
  then show "\<not> is_space (last (ref_body r))" using j(2) ident_char_plain(3) by simp
  show "ref_body r \<noteq> []" "\<not> is_space (hd (ref_body r))"
    by (cases "fst r"; simp add: ref_body_eq [OF assms] is_space_def)+
qed

lemma head_of_body: "ref_ok r \<Longrightarrow> head_of (ref_body r) = Some (fst r)"
  by (cases "fst r") (auto simp: head_of_def ref_body_eq starts_with_def)

lemma parseReference_body:
  assumes "ref_ok r"
  shows "parseReference (ref_body r) i j =
    Inr \<lparr>tr_head = fst r, tr_path = snd r, tr_raw = ref_body r, tr_start = i, tr_end = j\<rparr>"
proof -
  have p: "snd r \<noteq> []" "list_all is_ident (snd r)" using ref_ok_idents [OF assms] by auto
  have "split_on (CHR ''.'') (join_with ''.'' (snd r)) = snd r"
    using split_join [OF p(1), of "CHR ''.''"] p(2) is_ident_chars ident_char_plain(1)
    by (fastforce simp: list_all_iff)
  moreover have "drop (length (head_text (fst r))) (ref_body r) = ''.'' @ join_with ''.'' (snd r)"
    by (simp add: ref_body_eq [OF assms])
  moreover have "ref_body r \<noteq> []" by (cases "fst r") (simp_all add: ref_body_eq [OF assms])
  moreover have "fst r = Head_inputs \<longrightarrow> length (snd r) = 1" using assms by (cases r rule: ref_ok.cases) auto
  moreover have "bad_segment (ref_body r) (snd r) = None" using p(2) by (simp add: bad_segment_None)
  ultimately show ?thesis
    using p by (auto simp: parseReference_def head_of_body [OF assms] Let_def)
qed

lemma parseReference_ok:
  assumes "parseReference body i j = Inr r"
  shows "ref_ok (tr_head r, tr_path r)"
  using assms
  by (cases "tr_head r") (auto simp: parseReference_def Let_def bad_segment_None split: if_splits option.splits)

subsection \<open>The parser loop\<close>

lemma starts_with_single [simp]: "starts_with [c] s \<longleftrightarrow> s \<noteq> [] \<and> hd s = c"
  by (cases s) (auto simp: starts_with_def)

lemma escape_head: "escape t \<noteq> [] \<Longrightarrow> hd (escape t) \<noteq> CHR ''$''"
  by (cases t) auto

lemma escape_Nil [simp]: "escape t = [] \<longleftrightarrow> t = []"
  by (cases t) auto

lemma parse_literal:
  assumes "t \<noteq> [] \<and> last t = CHR 0x5C \<longrightarrow> \<not> starts_with ''$'' rest"
  shows "parse_parts n i buf (escape t @ rest) = parse_parts n (i + length (escape t)) (buf @ t) rest"
  using assms
proof (induction t arbitrary: i buf)
  case (Cons c t)
  have "\<not> starts_with ''$'' (escape t @ rest)" if "c = CHR 0x5C"
    using that Cons.prems escape_head [of t] by (cases "t = []") auto
  moreover have "t \<noteq> [] \<and> last t = CHR 0x5C \<longrightarrow> \<not> starts_with ''$'' rest" using Cons.prems by (cases t) auto
  ultimately show ?case using Cons.IH by (cases "c = CHR ''$''") auto
qed simp

lemma parse_reference:
  assumes "ref_ok r"
  shows "parse_parts n i buf (show_part (Inr r) @ rest) =
    (let close = i + 2 + length (ref_body r)
     in case parse_parts n (close + 1) [] rest of
          Inl e \<Rightarrow> Inl e
        | Inr ps \<Rightarrow> Inr (flush buf @ Ref \<lparr>tr_head = fst r, tr_path = snd r, tr_raw = ref_body r,
            tr_start = i + 2, tr_end = close\<rparr> # ps))"
proof -
  have "split_close (ref_body r @ CHR ''}'' # rest) = Some (ref_body r, rest)"
    using brace_not_in_body [OF assms] by (simp add: split_close_Some)
  then show ?thesis using js_trim_body [OF assms] parseReference_body [OF assms] by (simp split: sum.split)
qed

lemma parse_shown:
  "well_parts ks \<Longrightarrow> \<exists>ps. parse_parts n i [] (show_template ks) = Inr ps \<and> map skel ps = ks"
proof (induction ks arbitrary: i rule: well_parts.induct)
  case (2 r ks)
  then obtain ps where "parse_parts n (i + 2 + length (ref_body r) + 1) [] (show_template ks) = Inr ps"
    "map skel ps = ks" by fastforce
  then show ?case using 2(2) parse_reference [of r n i "[]" "show_template ks"]
    by (simp add: show_template_def flush_def)
next
  case (3 t)
  have "parse_parts n i [] (escape t) = Inr (flush t)" using parse_literal [of t "[]" n i "[]"] by simp
  then show ?case using 3 by (simp add: show_template_def flush_def)
next
  case (5 t r ks)
  let ?i = "i + length (escape t)"
  from 5 obtain ps where "parse_parts n ?i [] (show_template (Inr r # ks)) = Inr ps" "map skel ps = Inr r # ks"
    by fastforce
  moreover have ok: "ref_ok r" using 5(2) by simp
  ultimately obtain ps' where ps': "parse_parts n (?i + 2 + length (ref_body r) + 1) [] (show_template ks) = Inr ps'"
    "map skel ps' = ks"
    using parse_reference [OF ok, of n ?i "[]" "show_template ks"]
    by (auto simp: show_template_def Let_def flush_def split: sum.splits)
  have "parse_parts n i [] (show_template (Inl t # Inr r # ks)) =
      parse_parts n ?i t (show_part (Inr r) @ show_template ks)"
    using parse_literal [of t "show_part (Inr r) @ show_template ks" n i "[]"] 5(2)
    by (simp add: show_template_def)
  then show ?case using parse_reference [OF ok, of n ?i t "show_template ks"] ps' 5(2)
    by (simp add: Let_def flush_def)
qed (simp_all add: show_template_def flush_def)

text \<open>Conversely the text collected so far never ends in a backslash before a dollar.\<close>

lemma flush_well:
  "well_parts (map skel ps) \<Longrightarrow> ref_ok (tr_head r, tr_path r) \<Longrightarrow> (buf \<noteq> [] \<Longrightarrow> last buf \<noteq> CHR 0x5C) \<Longrightarrow>
   well_parts (map skel (flush buf @ Ref r # ps))"
  by (simp add: flush_def)

lemma parsed_well:
  "parse_parts n i buf cs = Inr ps \<Longrightarrow> (buf \<noteq> [] \<and> last buf = CHR 0x5C \<longrightarrow> \<not> starts_with ''$'' cs) \<Longrightarrow>
   well_parts (map skel ps)"
proof (induction n i buf cs arbitrary: ps rule: parse_parts.induct)
  case (1 n i buf)
  then show ?case by (auto simp: flush_def)
next
  case (2 n i buf c cs)
  consider (esc) "c = CHR 0x5C \<and> starts_with ''$'' cs" | (ref) "c = CHR ''$'' \<and> starts_with ''{'' cs"
    | (plain) "\<not> (c = CHR 0x5C \<and> starts_with ''$'' cs)" "\<not> (c = CHR ''$'' \<and> starts_with ''{'' cs)" by blast
  then show ?case
  proof cases
    case esc
    then show ?thesis using 2(1) 2(4) by auto
  next
    case ref
    have b: "buf \<noteq> [] \<Longrightarrow> last buf \<noteq> CHR 0x5C" using ref 2(5) by auto
    from ref 2(4) obtain body rest r ps' where
      "split_close (drop 1 cs) = Some (body, rest)" "parseReference (js_trim body) (i + 2) (i + 2 + length body) = Inr r"
      "parse_parts n (i + 2 + length body + 1) [] rest = Inr ps'" "ps = flush buf @ Ref r # ps'"
      by (auto simp: Let_def split: option.splits sum.splits)
    then show ?thesis using ref 2(2) b parseReference_ok flush_well by fastforce
  next
    case plain
    then show ?thesis using 2(3) 2(4) by auto
  qed
qed

text \<open>
C21: Printing and parsing templates. What the parser accepts is described exactly: literals are not empty and
not adjacent, a literal before a reference does not end in a backslash, \<^verbatim>\<open>inputs\<close> has one identifier behind
it and \<^verbatim>\<open>event.payload\<close> at least one. Every such sequence is the parse of its printed form, in which the
dollars of the literals are escaped; so nothing in a literal can become a reference.
\<close>

theorem template_roundtrip:
  "(parseTemplate t = Inr pt \<longrightarrow> well_parts (map skel (pt_parts pt))) \<and>
   (well_parts ks \<longrightarrow> (\<exists>pt. parseTemplate (show_template ks) = Inr pt \<and> map skel (pt_parts pt) = ks))"
proof (intro conjI impI)
  assume "parseTemplate t = Inr pt"
  then show "well_parts (map skel (pt_parts pt))"
    using parsed_well [of "length t" 0 "[]" t] by (auto simp: parseTemplate_def split: sum.splits)
next
  assume "well_parts ks"
  from parse_shown [OF this, of "length (show_template ks)" 0] show
    "\<exists>pt. parseTemplate (show_template ks) = Inr pt \<and> map skel (pt_parts pt) = ks"
    by (auto simp: parseTemplate_def)
qed

definition ex_parts :: "skeleton list" where
  "ex_parts = [Inl ''cost: $'', Inr (Head_inputs, [''max-cost'']), Inl '' of '', Inr (Head_event, [''meta'', ''brand''])]"

theorem template_roundtrip_witness:
  "well_parts ex_parts \<and> (\<exists>pt. parseTemplate (show_template ex_parts) = Inr pt \<and> map skel (pt_parts pt) = ex_parts)"
proof -
  have "well_parts ex_parts" by code_simp
  then show ?thesis using template_roundtrip [of _ _ ex_parts] by blast
qed

subsection \<open>Evaluation\<close>

definition value_of :: "eval_scope \<Rightarrow> ref_head \<times> string list \<Rightarrow> js" where
  "value_of sc r = resolveRef \<lparr>tr_head = fst r, tr_path = snd r, tr_raw = [], tr_start = 0, tr_end = 0\<rparr> sc"

fun skel_text :: "(rat \<Rightarrow> string) \<Rightarrow> eval_scope \<Rightarrow> skeleton \<Rightarrow> string" where
  "skel_text nt sc (Inl t) = t"
| "skel_text nt sc (Inr r) = js_text nt (value_of sc r)"

definition scalar :: "js \<Rightarrow> bool" where
  "scalar v = (\<not> nullish v \<and> \<not> typeof_object v)"

lemma resolveRef_skel: "resolveRef r sc = value_of sc (tr_head r, tr_path r)"
  by (auto simp: resolveRef_def value_of_def split: ref_head.split option.split)

lemma part_text_skel: "part_text nt sc p = skel_text nt sc (skel p)"
  by (cases p) (simp_all add: resolveRef_skel)

lemma refs_of_skel: "r \<in> set (refs_of ps) \<Longrightarrow> Inr (tr_head r, tr_path r) \<in> set (map skel ps)"
  by (induction ps rule: refs_of.induct) auto

lemma refs_of_Nil: "refs_of ps = [] \<longleftrightarrow> (\<forall>k \<in> set (map skel ps). isl k)"
  by (induction ps rule: refs_of.induct) auto

lemma parseTemplate_shown:
  assumes "well_parts ks"
  obtains pt where "parseTemplate (show_template ks) = Inr pt" "map skel (pt_parts pt) = ks"
    "pt_refs pt = refs_of (pt_parts pt)"
  using parse_shown [OF assms, of "length (show_template ks)" 0] by (auto simp: parseTemplate_def)

text \<open>
Evaluation is substitution. In a template that has references, all of them to scalars of the scope, each
literal stands for itself with its escapes removed and each reference for the text of its value, which is
not parsed again. A template without references is returned as it is written: there the escapes stay.
\<close>

theorem evaluation_is_substitution:
  assumes "well_parts ks" and "\<And>r. Inr r \<in> set ks \<Longrightarrow> scalar (value_of sc r)"
  shows "evaluateTemplate nt (show_template ks) sc = Inr \<lparr>er_value =
      Some (if list_all isl ks then show_template ks else concat (map (skel_text nt sc) ks)),
      er_missing = [], er_nonScalar = []\<rparr>"
proof -
  obtain pt where pt: "parseTemplate (show_template ks) = Inr pt" "map skel (pt_parts pt) = ks"
    "pt_refs pt = refs_of (pt_parts pt)" by (rule parseTemplate_shown [OF assms(1)])
  have sc: "scalar (resolveRef r sc)" if "r \<in> set (pt_refs pt)" for r
    using refs_of_skel [of r "pt_parts pt"] that assms(2) pt by (simp add: resolveRef_skel)
  then have "filter (unresolved sc) (pt_refs pt) = []" "filter (unprintable sc) (pt_refs pt) = []"
    by (auto simp: filter_empty_conv unresolved_def unprintable_def scalar_def)
  moreover have "map (part_text nt sc) (pt_parts pt) = map (skel_text nt sc) ks"
    unfolding pt(2) [symmetric] by (simp add: part_text_skel)
  moreover have "pt_refs pt = [] \<longleftrightarrow> list_all isl ks" unfolding pt(3) refs_of_Nil pt(2) by (simp add: list_all_iff)
  ultimately show ?thesis using pt(1) by (simp add: evaluateTemplate_def)
qed

definition ex_scope :: eval_scope where
  "ex_scope = \<lparr>es_inputs = Some [(''max-cost'', Json (JStr ''${inputs.x}''))],
     es_payload = Json (JObj [(''meta'', JObj [(''brand'', JBool True)])])\<rparr>"

theorem evaluation_is_substitution_witness:
  "evaluateTemplate (\<lambda>_. ''0'') (show_template ex_parts) ex_scope =
     Inr \<lparr>er_value = Some ''cost: $${inputs.x} of true'', er_missing = [], er_nonScalar = []\<rparr>"
proof -
  have w: "well_parts ex_parts" by code_simp
  have "list_all (\<lambda>k. isl k \<or> scalar (value_of ex_scope (projr k))) ex_parts" by code_simp
  then have s: "\<And>r. Inr r \<in> set ex_parts \<Longrightarrow> scalar (value_of ex_scope r)" by (fastforce simp: list_all_iff)
  have "\<not> list_all isl ex_parts" "concat (map (skel_text (\<lambda>_. ''0'') ex_scope) ex_parts) = ''cost: $${inputs.x} of true''"
    by code_simp+
  then show ?thesis using evaluation_is_substitution [OF w s, of "\<lambda>_. ''0''"] by simp
qed

text \<open>A property that the payload lacks may still be found: names of the prototype resolve to functions.\<close>

lemma inherited_property_resolves:
  "evaluateTemplate nt ''${event.payload.constructor}'' \<lparr>es_inputs = None, es_payload = Json (JObj [])\<rparr> =
     Inr \<lparr>er_value = Some ''function Object() { [native code] }'', er_missing = [], er_nonScalar = []\<rparr>"
  by code_simp

subsection \<open>Validated templates\<close>

lemma parse_untemplated:
  "\<not> str_includes ''${'' cs \<Longrightarrow> \<exists>ps. parse_parts n i buf cs = Inr ps \<and> refs_of ps = []"
proof (induction n i buf cs rule: parse_parts.induct)
  case (2 n i buf c cs)
  have no: "\<not> (c = CHR ''$'' \<and> starts_with ''{'' cs)"
    using 2(4) by (cases cs) (auto simp: starts_with_def)
  show ?case
  proof (cases "c = CHR 0x5C \<and> starts_with ''$'' cs")
    case True
    then have "\<not> str_includes ''${'' (drop 1 cs)" using 2(4) by (cases cs) auto
    then show ?thesis using True 2(1) by auto
  next
    case False
    then show ?thesis using no 2(3,4) by auto
  qed
qed (simp add: flush_def)

lemma undeclared_None:
  "undeclared_input (Some names) r = None \<longleftrightarrow> (tr_head r = Head_inputs \<longrightarrow> hd (tr_path r) \<in> set names)"
  by (cases "tr_head r") (auto simp: undeclared_input_def)

lemma keep_some_Nil: "keep_some vs = [] \<longleftrightarrow> set vs \<subseteq> {None}"
  by (auto simp: keep_some_def split: option.splits)

lemma validated_parse:
  assumes "validateTemplate t (Some names) = []"
  obtains pt where "parseTemplate t = Inr pt"
    "\<And>r. r \<in> set (pt_refs pt) \<Longrightarrow> tr_head r = Head_inputs \<Longrightarrow> hd (tr_path r) \<in> set names"
proof (cases "looksTemplated t")
  case True
  then obtain pt where "parseTemplate t = Inr pt" "keep_some (map (undeclared_input (Some names)) (pt_refs pt)) = []"
    using assms by (auto simp: validateTemplate_def split: sum.splits)
  then show thesis using that undeclared_None by (auto simp: keep_some_Nil)
next
  case False
  then obtain ps where "parse_parts (length t) 0 [] t = Inr ps" "refs_of ps = []"
    using parse_untemplated by (force simp: looksTemplated_def)
  then show thesis using that by (simp add: parseTemplate_def)
qed

lemma map_of_keep_some: "map_of (keep_some (map (\<lambda>k. map_option (Pair k) (f k)) ks)) k = (if k \<in> set ks then f k else None)"
  by (induction ks) (auto simp: keep_some_def split: option.splits)

lemma scope_value:
  "k \<in> fst ` set declared \<Longrightarrow>
   map_of (buildWorkflowInputsScope (Some declared) provided payload) k =
     input_value declared (or_default [] provided) payload k"
  by (simp add: buildWorkflowInputsScope_def Let_def map_of_keep_some or_default_def)

lemma evaluate_missing:
  "parseTemplate t = Inr pt \<Longrightarrow>
   \<exists>r. evaluateTemplate nt t sc = Inr r \<and> set (er_missing r) = {ref \<in> set (pt_refs pt). unresolved sc ref}"
  by (auto simp: evaluateTemplate_def Let_def)

text \<open>
C22: A validated template cannot go wrong on its inputs. When validation against the declared inputs of a
workflow finds no error, the template parses, evaluation in the scope built for an invocation does not throw, and every input it refers to is declared.
What is reported as missing is exactly two kinds of references: those to inputs for which the invocation, the event and the default give
no value or null (a name every JavaScript object inherits, such as constructor, reads as the inherited value then, and is not
reported), and those into the payload of the event that do not resolve.
\<close>

theorem validated_template_resolves:
  assumes "validateTemplate t (Some (map fst declared)) = []"
    and "es_inputs sc = Some (buildWorkflowInputsScope (Some declared) provided payload)"
  shows "\<exists>pt r. parseTemplate t = Inr pt \<and> evaluateTemplate nt t sc = Inr r \<and>
    (\<forall>ref \<in> set (pt_refs pt). tr_head ref = Head_inputs \<longrightarrow> hd (tr_path ref) \<in> fst ` set declared) \<and>
    set (er_missing r) = {ref \<in> set (pt_refs pt).
      nullish (case tr_head ref of
        Head_inputs \<Rightarrow> (case input_value declared (or_default [] provided) payload (hd (tr_path ref)) of
          None \<Rightarrow> object_inherited (hd (tr_path ref)) | Some v \<Rightarrow> v)
      | Head_event \<Rightarrow> if nullish (es_payload sc) then Undefined else lookupPath (es_payload sc) (tr_path ref))}"
proof -
  obtain pt where pt: "parseTemplate t = Inr pt"
    and decl: "\<And>r. r \<in> set (pt_refs pt) \<Longrightarrow> tr_head r = Head_inputs \<Longrightarrow> hd (tr_path r) \<in> fst ` set declared"
    using validated_parse [OF assms(1)] by (metis list.set_map)
  let ?v = "\<lambda>ref. case tr_head ref of
        Head_inputs \<Rightarrow> (case input_value declared (or_default [] provided) payload (hd (tr_path ref)) of
          None \<Rightarrow> object_inherited (hd (tr_path ref)) | Some v \<Rightarrow> v)
      | Head_event \<Rightarrow> if nullish (es_payload sc) then Undefined else lookupPath (es_payload sc) (tr_path ref)"
  have "?v r = resolveRef r sc" if "r \<in> set (pt_refs pt)" for r
    using decl [OF that] assms(2) by (cases "tr_head r") (simp_all add: resolveRef_def scope_input_def scope_value)
  then have missing: "{ref \<in> set (pt_refs pt). nullish (?v ref)} = {ref \<in> set (pt_refs pt). unresolved sc ref}"
    by (intro Collect_cong conj_cong refl) (simp only: unresolved_def)
  obtain r where r: "evaluateTemplate nt t sc = Inr r" "set (er_missing r) = {ref \<in> set (pt_refs pt). unresolved sc ref}"
    using evaluate_missing [OF pt] by blast
  show ?thesis
    by (intro exI [of _ pt] exI [of _ r] conjI) (use pt r missing decl in simp_all)
qed

definition ex_declared :: jobject where
  "ex_declared = [(''model'', JObj [(''from'', JStr ''event.payload.llm''), (''default'', JStr ''small'')]), (''n'', JObj [])]"

definition ex_input_scope :: eval_scope where
  "ex_input_scope = \<lparr>es_inputs = Some (buildWorkflowInputsScope (Some ex_declared) None (Json (JObj []))), es_payload = Json (JObj [])\<rparr>"

theorem validated_template_resolves_witness:
  "\<exists>pt r. parseTemplate ''${inputs.model}-${inputs.n}-${event.payload.x}'' = Inr pt \<and>
     evaluateTemplate (\<lambda>_. ''3'') ''${inputs.model}-${inputs.n}-${event.payload.x}'' ex_input_scope = Inr r \<and>
     (\<forall>ref \<in> set (pt_refs pt). tr_head ref = Head_inputs \<longrightarrow> hd (tr_path ref) \<in> {''model'', ''n''})"
proof -
  have v: "validateTemplate ''${inputs.model}-${inputs.n}-${event.payload.x}'' (Some (map fst ex_declared)) = []" by code_simp
  have sc: "es_inputs ex_input_scope = Some (buildWorkflowInputsScope (Some ex_declared) None (Json (JObj [])))"
    by (simp add: ex_input_scope_def)
  have names: "fst ` set ex_declared = {''model'', ''n''}" by (simp add: ex_declared_def)
  obtain pt r where "parseTemplate ''${inputs.model}-${inputs.n}-${event.payload.x}'' = Inr pt"
    "evaluateTemplate (\<lambda>_. ''3'') ''${inputs.model}-${inputs.n}-${event.payload.x}'' ex_input_scope = Inr r"
    "\<forall>ref \<in> set (pt_refs pt). tr_head ref = Head_inputs \<longrightarrow> hd (tr_path ref) \<in> {''model'', ''n''}"
    using validated_template_resolves [OF v sc, unfolded names] by blast
  then show ?thesis by blast
qed

end
