(* ===== verification/Triggers.thy ===== *)
theory Triggers
  imports Templates Events
begin

section \<open>Trigger matching\<close>

text \<open>
  \<^verbatim>\<open>apps/orchestrator/src/events/trigger-matcher.service.ts\<close>: which pipelines and workflows of a project's
  manifest an event starts. The manifest is JSON data as the YAML parser returns it; of a manifest only
  its shape as a mapping is known, so a field can have any type. A string that is built from a field that
  is no string is taken to equal no event type, and the names of branches in a payload are strings. The latest manifest of a project, the YAML parser and the
  projects' default branches are the record \<open>manifest_source\<close>.
\<close>

datatype target = Pipeline | Workflow

record trigger_match =
  tm_type :: target
  tm_name :: string
  tm_projectId :: string
  tm_envName :: "string option"

record evaluation =
  ev_type :: string
  ev_name :: string
  ev_matched :: bool
  ev_reason :: "string option"
  ev_subscription_id :: "string option"
  ev_delivery_id :: "string option"

record manifest_source =
  ms_latest :: "string \<Rightarrow> string option"
  ms_yaml :: "string \<Rightarrow> json option"
  ms_branch :: "string \<Rightarrow> string option"

subsection \<open>Fields of a trigger\<close>

text \<open>
  A filter that is absent or falsy lets everything pass; \<open>text_filter\<close> wants a string with a property,
  \<open>same_filter\<close> a truthy value of the payload that is strictly equal.
\<close>

definition text_filter :: "json option \<Rightarrow> (string \<Rightarrow> bool) \<Rightarrow> bool" where
  "text_filter v P = (json_truthy v \<longrightarrow> (case v of Some (JStr t) \<Rightarrow> P t | _ \<Rightarrow> False))"

definition same_filter :: "json option \<Rightarrow> json option \<Rightarrow> bool" where
  "same_filter v actual = (json_truthy v \<longrightarrow> json_truthy actual \<and> actual = v \<and> \<not> is_object (the v))"

definition payload :: "event \<Rightarrow> string \<Rightarrow> json option" where
  "payload e k = Option.bind (v_payload_json e) (\<lambda>kvs. obj_get kvs k)"

definition sub_field :: "json option \<Rightarrow> string \<Rightarrow> json option" where
  "sub_field v k = Option.bind v (\<lambda>o'. json_get o' k)"

definition matchesBranch :: "string \<Rightarrow> string \<Rightarrow> bool" where
  "matchesBranch branch pattern =
     (if branch = pattern then True
      else if ends_with ''/*'' pattern then starts_with (take (length pattern - 2) pattern @ ''/'') branch
      else if starts_with ''*/'' pattern then ends_with (''/'' @ drop 2 pattern) branch
      else if starts_with ''*'' pattern then ends_with (drop 1 pattern) branch
      else False)"

text \<open>A pattern that is no string has no method \<^verbatim>\<open>endsWith\<close>: the call throws.\<close>

definition match_branch_field :: "string option \<Rightarrow> json option \<Rightarrow> string + bool" where
  "match_branch_field branch pattern =
     (if \<not> json_truthy pattern then Inr True
      else case branch of
        None \<Rightarrow> Inr False
      | Some b \<Rightarrow>
          if b = [] then Inr False
          else case pattern of
            Some (JStr p) \<Rightarrow> Inr (matchesBranch b p)
          | _ \<Rightarrow> Inl ''pattern.endsWith is not a function'')"

definition allowed_actions :: "json \<Rightarrow> json list" where
  "allowed_actions v = (case v of JArr vs \<Rightarrow> vs | _ \<Rightarrow> [v])"

definition action_filter :: "json option \<Rightarrow> json option \<Rightarrow> bool" where
  "action_filter v actual =
     (json_truthy v \<longrightarrow> json_truthy actual \<and> \<not> is_object (the actual) \<and> the actual \<in> set (allowed_actions (the v)))"

definition base_ref :: "event \<Rightarrow> string option" where
  "base_ref e = json_string (sub_field (sub_field (payload e ''pull_request'') ''base'') ''ref'')"

subsection \<open>The kinds of trigger\<close>

definition matchesGitHubTrigger :: "event \<Rightarrow> json \<Rightarrow> string + bool" where
  "matchesGitHubTrigger e g =
     (if v_source e \<noteq> ''github'' then Inr False
      else if \<not> text_filter (json_get g ''event'') (\<lambda>t. v_type e = ''github.'' @ t) then Inr False
      else if \<not> action_filter (json_get g ''action'') (payload e ''action'') then Inr False
      else case match_branch_field (base_ref e) (json_get g ''base_branch'') of
        Inl err \<Rightarrow> Inl err
      | Inr False \<Rightarrow> Inr False
      | Inr True \<Rightarrow> match_branch_field (v_ref_branch e) (json_get g ''branch''))"

definition describeGitHubMismatch :: "event \<Rightarrow> json \<Rightarrow> string + string" where
  "describeGitHubMismatch e g =
     (if v_source e \<noteq> ''github'' then Inr ''source_mismatch''
      else if \<not> text_filter (json_get g ''event'') (\<lambda>t. v_type e = ''github.'' @ t) then Inr ''type_mismatch''
      else if \<not> action_filter (json_get g ''action'') (payload e ''action'') then Inr ''action_mismatch''
      else case match_branch_field (base_ref e) (json_get g ''base_branch'') of
        Inl err \<Rightarrow> Inl err
      | Inr False \<Rightarrow> Inr ''base_branch_mismatch''
      | Inr True \<Rightarrow>
          (case match_branch_field (v_ref_branch e) (json_get g ''branch'') of
             Inl err \<Rightarrow> Inl err
           | Inr False \<Rightarrow> Inr ''branch_mismatch''
           | Inr True \<Rightarrow> Inr ''unknown''))"

definition matchesSlackTrigger :: "event \<Rightarrow> json \<Rightarrow> bool" where
  "matchesSlackTrigger e s =
     (v_source e = ''slack'' \<and> text_filter (json_get s ''event'') (\<lambda>t. v_type e = ''slack.'' @ t) \<and>
      same_filter (json_get s ''channel'') (sub_field (payload e ''event'') ''channel''))"

definition matchesSystemTrigger :: "event \<Rightarrow> json \<Rightarrow> string \<Rightarrow> bool" where
  "matchesSystemTrigger e s owner =
     (v_source e = ''system'' \<and> text_filter (json_get s ''event'') (\<lambda>t. v_type e = ''system.'' @ t) \<and>
      same_filter (json_get s ''pipeline'') (payload e ''pipeline_name'') \<and>
      \<not> (owner \<noteq> [] \<and> payload e ''pipeline_name'' = Some (JStr owner)))"

definition matchesCronTrigger :: "event \<Rightarrow> json \<Rightarrow> string \<Rightarrow> bool" where
  "matchesCronTrigger e c triggerName =
     (v_source e = ''cron'' \<and> v_type e = ''cron.tick'' \<and>
      same_filter (json_get c ''schedule'') (payload e ''schedule'') \<and>
      triggerName \<noteq> [] \<and> payload e ''trigger_name'' = Some (JStr triggerName))"

definition matchesAppTrigger :: "event \<Rightarrow> json \<Rightarrow> bool" where
  "matchesAppTrigger e a = (v_source e = ''app'' \<and> text_filter (json_get a ''event'') (\<lambda>t. v_type e = t))"

definition matchesAppLinkTrigger :: "event \<Rightarrow> json \<Rightarrow> bool" where
  "matchesAppLinkTrigger e a =
     (v_source e = ''app_link'' \<and> text_filter (json_get a ''type'') (\<lambda>t. v_type e = t) \<and>
      same_filter (json_get a ''alias'') (payload e ''link_alias''))"

definition matchesGenericEventTrigger :: "event \<Rightarrow> json \<Rightarrow> bool" where
  "matchesGenericEventTrigger e g =
     (json_get g ''source'' = Some (JStr (v_source e)) \<and> text_filter (json_get g ''type'') (\<lambda>t. v_type e = t))"

definition outcome_of :: "bool \<Rightarrow> string \<Rightarrow> string + bool \<times> string option" where
  "outcome_of matched reason = Inr (matched, if matched then None else Some reason)"

definition by_source :: "event \<Rightarrow> string \<Rightarrow> string \<Rightarrow> string" where
  "by_source e src other = (if v_source e \<noteq> src then ''source_mismatch'' else other)"

text \<open>Reading the trigger of a definition that is null throws; one of another type than an object has none.\<close>

definition matchesTrigger :: "event \<Rightarrow> json \<Rightarrow> string \<Rightarrow> string + bool \<times> string option" where
  "matchesTrigger e def triggerName =
     (if def = JNull then Inl ''Cannot read properties of null (reading 'trigger')''
      else case json_get def ''trigger'' of
        None \<Rightarrow> outcome_of False ''no_trigger''
      | Some trigger \<Rightarrow>
          if \<not> is_object trigger then outcome_of False ''no_trigger''
          else
            let field = (\<lambda>k. json_get trigger k); the_field = (\<lambda>k. the (json_get trigger k))
            in if json_truthy (field ''github'') then
                 (case matchesGitHubTrigger e (the_field ''github'') of
                    Inl err \<Rightarrow> Inl err
                  | Inr True \<Rightarrow> outcome_of True []
                  | Inr False \<Rightarrow>
                      (case describeGitHubMismatch e (the_field ''github'') of
                         Inl err \<Rightarrow> Inl err | Inr reason \<Rightarrow> outcome_of False reason))
               else if json_truthy (field ''slack'') then
                 outcome_of (matchesSlackTrigger e (the_field ''slack'')) (by_source e ''slack'' ''type_mismatch'')
               else if json_truthy (field ''system'') then
                 outcome_of (matchesSystemTrigger e (the_field ''system'') triggerName) (by_source e ''system'' ''type_mismatch'')
               else if json_truthy (field ''cron'') then
                 outcome_of (matchesCronTrigger e (the_field ''cron'') triggerName) (by_source e ''cron'' ''type_mismatch'')
               else if json_truthy (field ''app'') then
                 outcome_of (matchesAppTrigger e (the_field ''app'')) (by_source e ''app'' ''type_mismatch'')
               else if json_truthy (field ''app_link'') then
                 outcome_of (matchesAppLinkTrigger e (the_field ''app_link'')) (by_source e ''app_link'' ''type_or_alias_mismatch'')
               else if json_truthy (field ''event'') then
                 outcome_of (matchesGenericEventTrigger e (the_field ''event''))
                   (if json_get (the_field ''event'') ''source'' \<noteq> Some (JStr (v_source e)) then ''source_mismatch'' else ''type_mismatch'')
               else if json_truthy (field ''manual'') then outcome_of False ''manual_trigger''
               else outcome_of False ''no_trigger'')"

subsection \<open>Matching an event\<close>

definition plain_evaluation :: "string \<Rightarrow> string \<Rightarrow> bool \<Rightarrow> string option \<Rightarrow> evaluation" where
  "plain_evaluation type name matched reason =
     \<lparr>ev_type = type, ev_name = name, ev_matched = matched, ev_reason = reason,
      ev_subscription_id = None, ev_delivery_id = None\<rparr>"

fun target_name :: "target \<Rightarrow> string" where
  "target_name Pipeline = ''pipeline''"
| "target_name Workflow = ''workflow''"

text \<open>The loop over the definitions of one kind; the first one that throws ends the call.\<close>

fun match_definitions ::
  "event \<Rightarrow> target \<Rightarrow> (string \<times> json) list \<Rightarrow> string + trigger_match list \<times> evaluation list" where
  "match_definitions e kind [] = Inr ([], [])"
| "match_definitions e kind ((name, def) # defs) =
     (case matchesTrigger e def name of
        Inl err \<Rightarrow> Inl err
      | Inr (matched, reason) \<Rightarrow>
          case match_definitions e kind defs of
            Inl err \<Rightarrow> Inl err
          | Inr (ms, evs) \<Rightarrow>
              Inr ((if matched then [\<lparr>tm_type = kind, tm_name = name, tm_projectId = v_project_id e, tm_envName = None\<rparr>]
                    else []) @ ms,
                   plain_evaluation (target_name kind) name matched reason # evs))"

fun js_truthy :: "js \<Rightarrow> bool" where
  "js_truthy Undefined = False"
| "js_truthy (Json v) = json_truthy (Some v)"
| "js_truthy _ = True"

definition has_explicit_trigger :: "json option \<Rightarrow> string \<Rightarrow> bool" where
  "has_explicit_trigger pls name =
     (case pls of
        Some p \<Rightarrow> is_object p \<and> js_truthy (js_prop (js_prop (Json p) name) ''trigger'')
      | None \<Rightarrow> False)"

text \<open>
  The implicit trigger of one environment: \<open>None\<close> when the entry names no pipeline, otherwise the pipeline
  and the reason why it is not started, if there is one.
\<close>

definition environment_trigger ::
  "event \<Rightarrow> json option \<Rightarrow> string list \<Rightarrow> string \<Rightarrow> json \<Rightarrow> (string \<times> string option) option" where
  "environment_trigger e pls alreadyMatched defaultBranch env =
     (case json_get env ''pipeline'' of
        Some (JStr name) \<Rightarrow>
          if name = [] then None
          else
            let triggerBranch = (case json_get env ''branch'' of
                  Some (JStr b) \<Rightarrow> Some b | None \<Rightarrow> Some defaultBranch | Some JNull \<Rightarrow> Some defaultBranch | _ \<Rightarrow> None)
            in Some (name,
                 if name \<in> set alreadyMatched then Some ''already_matched''
                 else if has_explicit_trigger pls name then Some ''has_explicit_trigger''
                 else if json_get env ''auto_deploy'' = Some (JBool False) then Some ''auto_deploy_disabled''
                 else if \<not> truthy_string (v_ref_branch e) \<or> v_ref_branch e \<noteq> triggerBranch then Some ''branch_mismatch''
                 else None)
      | _ \<Rightarrow> None)"

fun match_environments ::
  "event \<Rightarrow> json option \<Rightarrow> string list \<Rightarrow> string \<Rightarrow> (string \<times> json) list \<Rightarrow> trigger_match list \<times> evaluation list" where
  "match_environments e pls already branch [] = ([], [])"
| "match_environments e pls already branch ((envName, env) # envs) =
     (let (ms, evs) = match_environments e pls already branch envs
      in case environment_trigger e pls already branch env of
           None \<Rightarrow> (ms, evs)
         | Some (name, reason) \<Rightarrow>
             ((if reason = None then [\<lparr>tm_type = Pipeline, tm_name = name, tm_projectId = v_project_id e,
                 tm_envName = Some envName\<rparr>] else []) @ ms,
              plain_evaluation ''pipeline'' (name @ ''(env:'' @ envName @ '')'') (reason = None) reason # evs))"

definition matchEnvironmentLinkedPipelines ::
  "manifest_source \<Rightarrow> event \<Rightarrow> json \<Rightarrow> json option \<Rightarrow> string list \<Rightarrow> trigger_match list \<times> evaluation list" where
  "matchEnvironmentLinkedPipelines m e environments pls already =
     (case ms_branch m (v_project_id e) of
        None \<Rightarrow> ([], [])
      | Some branch \<Rightarrow> match_environments e pls already branch (entries_of environments))"

definition parseManifest :: "manifest_source \<Rightarrow> string \<Rightarrow> json option" where
  "parseManifest m yaml = (case ms_yaml m yaml of Some v \<Rightarrow> if is_object v then Some v else None | None \<Rightarrow> None)"

definition section_entries :: "json option \<Rightarrow> (string \<times> json) list" where
  "section_entries v = (case v of Some d \<Rightarrow> entries_of d | None \<Rightarrow> [])"

definition pipeline_names :: "trigger_match list \<Rightarrow> string list" where
  "pipeline_names ms = map tm_name (filter (\<lambda>m. tm_type m = Pipeline) ms)"

definition matchTriggersForEvent ::
  "manifest_source \<Rightarrow> event \<Rightarrow> string + trigger_match list \<times> evaluation list" where
  "matchTriggersForEvent m e =
     (case Option.bind (ms_latest m (v_project_id e)) (parseManifest m) of
        None \<Rightarrow> Inr ([], [])
      | Some parsed \<Rightarrow>
          case match_definitions e Pipeline (section_entries (json_get parsed ''pipelines'')) of
            Inl err \<Rightarrow> Inl err
          | Inr (ms1, evs1) \<Rightarrow>
              case match_definitions e Workflow (section_entries (json_get parsed ''workflows'')) of
                Inl err \<Rightarrow> Inl err
              | Inr (ms2, evs2) \<Rightarrow>
                  let (ms3, evs3) =
                    (case json_get parsed ''environments'' of
                       Some envs \<Rightarrow>
                         if v_source e = ''github'' \<and> v_type e = ''github.push'' \<and> is_object envs then
                           matchEnvironmentLinkedPipelines m e envs (json_get parsed ''pipelines'') (pipeline_names (ms1 @ ms2))
                         else ([], [])
                     | None \<Rightarrow> ([], []))
                  in Inr (ms1 @ ms2 @ ms3, evs1 @ evs2 @ evs3))"

end
