(* ===== verification/Event_Router.thy ===== *)
theory Event_Router
  imports Triggers
begin

section \<open>The event router\<close>

text \<open>
  \<^verbatim>\<open>apps/orchestrator/src/events/event-router.service.ts\<close> with the tables of
  \<^verbatim>\<open>packages/db/src/queries/app-link-event-deliveries.ts\<close> and, of \<^verbatim>\<open>app-link-subscriptions.ts\<close>, the two queries
  the router uses (migration 00100). The router claims pending events, matches them against the triggers
  of their project, copies them to the projects that subscribed to them, and starts what matched through
  the internal API. The API, the manifests, the ids that are drawn, the texts of database errors and of
  numbers are the record \<open>router_ext\<close>; a call of the API is its path and body, and its answer is the
  response or the message of the error thrown. What the API writes are rows the router does not read.
  A function returns the calls it made beside its result. A lost connection to the database is outside the model: the updates
  of an event's status break no constraint, so the \<^verbatim>\<open>catch\<close> around the one to \<^verbatim>\<open>failed\<close>, which would leave the event
  processing until the recovery of stale events, has no branch here.
\<close>

record link_grant =
  gr_id :: string
  gr_producer_project_id :: string
  gr_export_kind :: string
  gr_export_name :: string
  gr_event_types :: "string list"
  gr_revoked_at :: "timestamp option"

record link_subscription =
  su_id :: string
  su_consumer_project_id :: string
  su_local_alias :: string
  su_event_grant_id :: "string option"
  su_event_types :: "string list"

record delivery =
  d_id :: string
  d_subscription_id :: string
  d_source_event_id :: string
  d_consumer_event_id :: "string option"
  d_status :: string
  d_attempts :: int
  d_last_attempt_at :: "timestamp option"
  d_next_retry_at :: "timestamp option"
  d_last_error :: "string option"
  d_created_at :: timestamp
  d_updated_at :: timestamp

record router =
  rw :: world
  grants :: "link_grant list"
  subscriptions :: "link_subscription list"
  deliveries :: "delivery list"
  r_tickCount :: nat
  r_eventsProcessed :: nat
  r_eventsFailed :: nat
  r_eventsRecovered :: nat
  r_tickInProgress :: bool

type_synonym api_call = "string \<times> jobject"

record router_ext =
  rx_manifest :: manifest_source
  rx_api :: "api_call \<Rightarrow> string + jobject"
  rx_api_key :: "string option"
  rx_api_url :: "string option"
  rx_event_id :: "string \<Rightarrow> string"
  rx_delivery_id :: "string \<Rightarrow> string \<Rightarrow> string"
  rx_db_text :: "db_error \<Rightarrow> string"
  rx_num_text :: "rat \<Rightarrow> string"
  rx_claim_limit :: "string option"
  rx_stale_seconds :: "string option"

subsection \<open>Deliveries\<close>

definition findDeliveryById :: "string \<Rightarrow> router \<Rightarrow> delivery option" where
  "findDeliveryById i r = find_row (\<lambda>d. d_id d = i) (deliveries r)"

definition queue_delivery ::
  "string \<Rightarrow> string \<Rightarrow> string \<Rightarrow> timestamp option \<Rightarrow> timestamp \<Rightarrow> router \<Rightarrow> (db_error + delivery option) \<times> router" where
  "queue_delivery i subscriptionId sourceEventId nextRetryAt now r =
     (let row = \<lparr>d_id = i, d_subscription_id = subscriptionId, d_source_event_id = sourceEventId,
                 d_consumer_event_id = None, d_status = ''pending'', d_attempts = 0, d_last_attempt_at = None,
                 d_next_retry_at = nextRetryAt, d_last_error = None, d_created_at = now, d_updated_at = now\<rparr>
      in if exists_row (\<lambda>d. d_subscription_id d = subscriptionId \<and> d_source_event_id d = sourceEventId) (deliveries r)
         then (Inr None, r)
         else if exists_row (\<lambda>d. d_id d = i) (deliveries r) then (Inl Unique_violation, r)
         else if \<not> exists_row (\<lambda>s. su_id s = subscriptionId) (subscriptions r) \<or>
             \<not> exists_row (\<lambda>e. v_id e = sourceEventId) (events (rw r)) then (Inl Foreign_key_violation, r)
         else (Inr (Some row), r\<lparr>deliveries := deliveries r @ [row]\<rparr>))"

definition due_delivery :: "timestamp \<Rightarrow> delivery \<Rightarrow> bool" where
  "due_delivery now d =
     (d_status d \<in> {''pending'', ''retrying''} \<and>
      (case d_next_retry_at d of None \<Rightarrow> True | Some t \<Rightarrow> t \<le> now))"

definition claimDue :: "nat \<Rightarrow> timestamp \<Rightarrow> router \<Rightarrow> delivery list \<times> router" where
  "claimDue max_rows now r =
     (let ids = map d_id (take max_rows (order_by d_created_at (filter (due_delivery now) (deliveries r))));
          f = (\<lambda>d. d\<lparr>d_status := (if d_attempts d = 0 then ''pending'' else ''retrying''), d_updated_at := now\<rparr>)
      in (map f (filter (\<lambda>d. d_id d \<in> set ids) (deliveries r)),
          r\<lparr>deliveries := update_where (\<lambda>d. d_id d \<in> set ids) f (deliveries r)\<rparr>))"

definition update_delivery :: "string \<Rightarrow> (delivery \<Rightarrow> delivery) \<Rightarrow> router \<Rightarrow> router" where
  "update_delivery i f r = r\<lparr>deliveries := update_where (\<lambda>d. d_id d = i) f (deliveries r)\<rparr>"

definition markSuccess :: "string \<Rightarrow> string \<Rightarrow> timestamp \<Rightarrow> router \<Rightarrow> router" where
  "markSuccess i consumerEventId now =
     update_delivery i (\<lambda>d. d\<lparr>d_status := ''success'', d_consumer_event_id := Some consumerEventId,
       d_attempts := d_attempts d + 1, d_last_attempt_at := Some now, d_next_retry_at := None, d_last_error := None,
       d_updated_at := now\<rparr>)"

definition markRetry :: "string \<Rightarrow> string \<Rightarrow> timestamp \<Rightarrow> timestamp \<Rightarrow> router \<Rightarrow> router" where
  "markRetry i err nextRetryAt now =
     update_delivery i (\<lambda>d. d\<lparr>d_status := ''retrying'', d_attempts := d_attempts d + 1, d_last_attempt_at := Some now,
       d_next_retry_at := Some nextRetryAt, d_last_error := Some err, d_updated_at := now\<rparr>)"

definition markFailed :: "string \<Rightarrow> string \<Rightarrow> timestamp \<Rightarrow> router \<Rightarrow> router" where
  "markFailed i err now =
     update_delivery i (\<lambda>d. d\<lparr>d_status := ''failed'', d_attempts := d_attempts d + 1, d_last_attempt_at := Some now,
       d_next_retry_at := None, d_last_error := Some err, d_updated_at := now\<rparr>)"

definition listBySubscription :: "string \<Rightarrow> nat \<Rightarrow> router \<Rightarrow> delivery list" where
  "listBySubscription subscriptionId max_rows r =
     take max_rows (order_by (\<lambda>d. - d_created_at d) (filter (\<lambda>d. d_subscription_id d = subscriptionId) (deliveries r)))"

subsection \<open>Subscriptions\<close>

definition event_grant :: "link_subscription \<Rightarrow> router \<Rightarrow> link_grant option" where
  "event_grant s r = Option.bind (su_event_grant_id s) (\<lambda>g. find_row (\<lambda>gr. gr_id gr = g) (grants r))"

definition subscribes_to :: "string \<Rightarrow> router \<Rightarrow> link_subscription \<Rightarrow> bool" where
  "subscribes_to producerProjectId r s =
     (case event_grant s r of
        Some g \<Rightarrow> gr_producer_project_id g = producerProjectId \<and> gr_export_kind g = ''events'' \<and> gr_revoked_at g = None
      | None \<Rightarrow> False)"

definition listEventSubscriptionsForProducer :: "string \<Rightarrow> router \<Rightarrow> (link_subscription \<times> link_grant) list" where
  "listEventSubscriptionsForProducer producerProjectId r =
     map (\<lambda>s. (s, the (event_grant s r)))
       (order_by su_local_alias (filter (subscribes_to producerProjectId r) (subscriptions r)))"

definition findWithGrantsById :: "string \<Rightarrow> router \<Rightarrow> (link_subscription \<times> link_grant option) option" where
  "findWithGrantsById i r = map_option (\<lambda>s. (s, event_grant s r)) (find_row (\<lambda>s. su_id s = i) (subscriptions r))"

subsection \<open>Delivering an event to a subscriber\<close>

definition link_key :: "string \<Rightarrow> string \<Rightarrow> string" where
  "link_key subscriptionId sourceEventId = ''app_link:'' @ subscriptionId @ '':'' @ sourceEventId"

definition consumer_event :: "router_ext \<Rightarrow> event \<Rightarrow> link_subscription \<Rightarrow> link_grant \<Rightarrow> event" where
  "consumer_event x e s g =
     \<lparr>v_id = rx_event_id x (link_key (su_id s) (v_id e)), v_project_id = su_consumer_project_id s, v_type = v_type e,
      v_source = ''app_link'', v_env_name = v_env_name e, v_ref_sha = v_ref_sha e, v_ref_branch = v_ref_branch e,
      v_actor_type = v_actor_type e, v_actor_id = v_actor_id e,
      v_payload_json = Some
        [(''producer_event_id'', JStr (v_id e)), (''producer_project_id'', JStr (gr_producer_project_id g)),
         (''producer_env_name'', json_opt (v_env_name e)), (''producer_export_name'', JStr (gr_export_name g)),
         (''link_alias'', JStr (su_local_alias s)), (''original'', JObj (or_default [] (v_payload_json e)))],
      v_dedupe_key = Some (link_key (su_id s) (v_id e)), v_job_id = None, v_trigger_match_count = None,
      v_triggers_evaluated = None, v_status = ''pending'', v_processed_at = None, v_created_at = 0, v_updated_at = 0\<rparr>"

definition createConsumerAppLinkEvent ::
  "router_ext \<Rightarrow> event \<Rightarrow> link_subscription \<Rightarrow> link_grant \<Rightarrow> timestamp \<Rightarrow> router \<Rightarrow> (db_error + event) \<times> router" where
  "createConsumerAppLinkEvent x e s g now r =
     (let (res, w') = create_event (consumer_event x e s g) now (rw r) in (res, r\<lparr>rw := w'\<rparr>))"

definition scheduleDeliveryRetry :: "delivery \<Rightarrow> string \<Rightarrow> timestamp \<Rightarrow> router \<Rightarrow> router" where
  "scheduleDeliveryRetry d message now r =
     (let nextAttempt = d_attempts d + 1
      in if 5 \<le> nextAttempt then markFailed (d_id d) message now r
         else markRetry (d_id d) message (now + min 300 (2 ^ nat nextAttempt * 5) * 1000) now r)"

definition attempt_delivery ::
  "router_ext \<Rightarrow> event \<Rightarrow> link_subscription \<Rightarrow> link_grant \<Rightarrow> delivery \<Rightarrow> timestamp \<Rightarrow> router \<Rightarrow> string option \<times> router" where
  "attempt_delivery x e s g d now r =
     (case createConsumerAppLinkEvent x e s g now r of
        (Inr consumerEvent, r') \<Rightarrow> (None, markSuccess (d_id d) (v_id consumerEvent) now r')
      | (Inl err, r') \<Rightarrow> (Some (rx_db_text x err), scheduleDeliveryRetry d (rx_db_text x err) now r'))"

definition link_evaluation :: "link_subscription \<Rightarrow> string option \<Rightarrow> string option \<Rightarrow> evaluation" where
  "link_evaluation s reason deliveryId =
     \<lparr>ev_type = ''app_link'', ev_name = su_local_alias s, ev_matched = (reason = None), ev_reason = reason,
      ev_subscription_id = Some (su_id s), ev_delivery_id = deliveryId\<rparr>"

definition fan_out_one ::
  "router_ext \<Rightarrow> event \<Rightarrow> link_subscription \<Rightarrow> link_grant \<Rightarrow> timestamp \<Rightarrow> router \<Rightarrow> (db_error + evaluation) \<times> router" where
  "fan_out_one x e s g now r =
     (if v_type e \<notin> set (if su_event_types s \<noteq> [] then su_event_types s else gr_event_types g)
      then (Inr (link_evaluation s (Some ''type_mismatch'') None), r)
      else case queue_delivery (rx_delivery_id x (su_id s) (v_id e)) (su_id s) (v_id e) None now r of
        (Inl err, r') \<Rightarrow> (Inl err, r')
      | (Inr None, r') \<Rightarrow> (Inr (link_evaluation s (Some ''duplicate_delivery'') None), r')
      | (Inr (Some d), r') \<Rightarrow>
          let (reason, r'') = attempt_delivery x e s g d now r'
          in (Inr (link_evaluation s reason (Some (d_id d))), r''))"

fun fan_out ::
  "router_ext \<Rightarrow> event \<Rightarrow> (link_subscription \<times> link_grant) list \<Rightarrow> timestamp \<Rightarrow> router \<Rightarrow> (db_error + evaluation list) \<times> router" where
  "fan_out x e [] now r = (Inr [], r)"
| "fan_out x e ((s, g) # rows) now r =
     (case fan_out_one x e s g now r of
        (Inl err, r') \<Rightarrow> (Inl err, r')
      | (Inr ev, r') \<Rightarrow>
          case fan_out x e rows now r' of
            (Inl err, r'') \<Rightarrow> (Inl err, r'')
          | (Inr evs, r'') \<Rightarrow> (Inr (ev # evs), r''))"

definition fanOutAppLinkEvent ::
  "router_ext \<Rightarrow> event \<Rightarrow> timestamp \<Rightarrow> router \<Rightarrow> (db_error + evaluation list) \<times> router" where
  "fanOutAppLinkEvent x e now r =
     (if v_source e = ''app_link'' then (Inr [], r)
      else fan_out x e (listEventSubscriptionsForProducer (v_project_id e) r) now r)"

definition redeliver :: "router_ext \<Rightarrow> timestamp \<Rightarrow> router \<Rightarrow> delivery \<Rightarrow> router" where
  "redeliver x now r d =
     (case (findEventById (d_source_event_id d) (rw r), findWithGrantsById (d_subscription_id d) r) of
        (Some e, Some (s, Some g)) \<Rightarrow>
          if gr_revoked_at g \<noteq> None then markFailed (d_id d) ''Source event or active event grant not found'' now r
          else snd (attempt_delivery x e s g d now r)
      | _ \<Rightarrow> markFailed (d_id d) ''Source event or active event grant not found'' now r)"

definition processDueAppLinkDeliveries :: "router_ext \<Rightarrow> timestamp \<Rightarrow> router \<Rightarrow> router" where
  "processDueAppLinkDeliveries x now r =
     (let (due_rows, r') = claimDue 25 now r in foldl (redeliver x now) r' due_rows)"

subsection \<open>Starting what matched\<close>

definition opt_field :: "string \<Rightarrow> json option \<Rightarrow> jobject" where
  "opt_field k v = (case v of None \<Rightarrow> [] | Some j \<Rightarrow> [(k, j)])"

definition interpolated :: "router_ext \<Rightarrow> json \<Rightarrow> string" where
  "interpolated x v = (case v of JNull \<Rightarrow> ''null'' | _ \<Rightarrow> js_text (rx_num_text x) (Json v))"

text \<open>Fields that are undefined are left out: the request body does not carry them.\<close>

definition extractPullRequestMetadata :: "router_ext \<Rightarrow> event \<Rightarrow> jobject" where
  "extractPullRequestMetadata x e =
     (let pullRequest = payload e ''pull_request'';
          head = sub_field pullRequest ''head'';
          prNumber = sub_field pullRequest ''number''
      in if \<not> json_truthy pullRequest then []
         else opt_field ''pr_number'' prNumber @ opt_field ''pr_branch'' (sub_field head ''ref'')
            @ opt_field ''pr_sha'' (sub_field head ''sha'') @ opt_field ''pr_url'' (sub_field pullRequest ''html_url'')
            @ opt_field ''pr_action'' (payload e ''action'')
            @ opt_field ''base_branch'' (sub_field (sub_field pullRequest ''base'') ''ref'')
            @ opt_field ''repo'' (sub_field (payload e ''repository'') ''full_name'')
            @ opt_field ''env_name'' (map_option (\<lambda>n. JStr (''pr-'' @ interpolated x n)) prNumber))"

definition buildTriggerInputs :: "router_ext \<Rightarrow> event \<Rightarrow> jobject" where
  "buildTriggerInputs x e =
     (let baseInputs =
        [(''event_id'', JStr (v_id e)), (''event_type'', JStr (v_type e)), (''source'', JStr (v_source e)),
         (''ref_sha'', json_opt (v_ref_sha e)), (''ref_branch'', json_opt (v_ref_branch e)),
         (''actor_type'', json_opt (v_actor_type e)), (''actor_id'', json_opt (v_actor_id e)),
         (''payload'', case v_payload_json e of None \<Rightarrow> JNull | Some kvs \<Rightarrow> JObj kvs)]
      in if v_type e = ''github.pull_request'' \<and> v_payload_json e \<noteq> None
         then baseInputs @ extractPullRequestMetadata x e else baseInputs)"

definition generateDedupeKey :: "router_ext \<Rightarrow> event \<Rightarrow> jobject \<Rightarrow> string option" where
  "generateDedupeKey x e inputs =
     (if v_type e = ''github.pull_request'' then
        (case (obj_get inputs ''repo'', obj_get inputs ''pr_number'') of
           (Some repo, Some prNumber) \<Rightarrow>
             if json_truthy (Some repo)
             then Some (''pr:'' @ interpolated x repo @ '':'' @ interpolated x prNumber) else None
         | _ \<Rightarrow> None)
      else None)"

definition env_of_match :: "trigger_match \<Rightarrow> jobject \<Rightarrow> event \<Rightarrow> json option" where
  "env_of_match m inputs e =
     coalesce (map_option JStr (tm_envName m)) (coalesce (obj_get inputs ''env_name'') (map_option JStr (v_env_name e)))"

definition trigger_call :: "router_ext \<Rightarrow> trigger_match \<Rightarrow> event \<Rightarrow> api_call option" where
  "trigger_call x m e =
     (let inputs = buildTriggerInputs x e;
          root = ''/internal/projects/'' @ tm_projectId m
      in case tm_type m of
           Pipeline \<Rightarrow>
             if \<not> truthy_string (v_ref_sha e) then None
             else Some (root @ ''/pipelines/'' @ tm_name m @ ''/runs'',
               [(''git_sha'', json_opt (v_ref_sha e))] @ opt_field ''env_name'' (env_of_match m inputs e)
               @ [(''inputs'', JObj inputs)] @ opt_field ''dedupe_key'' (map_option JStr (generateDedupeKey x e inputs)))
         | Workflow \<Rightarrow> Some (root @ ''/workflows/'' @ tm_name m @ ''/invoke'', [(''input'', JObj inputs)]))"

definition link_result :: "event \<Rightarrow> jobject \<Rightarrow> timestamp \<Rightarrow> router \<Rightarrow> router" where
  "link_result e answer now r =
     (case json_string (obj_get answer ''job_id'') of
        Some jobId \<Rightarrow> if jobId = [] then r else r\<lparr>rw := snd (linkJobToEvent (v_id e) jobId now (rw r))\<rparr>
      | None \<Rightarrow> r)"

definition triggerMatch ::
  "router_ext \<Rightarrow> trigger_match \<Rightarrow> event \<Rightarrow> timestamp \<Rightarrow> router \<Rightarrow> (string + unit) \<times> api_call list \<times> router" where
  "triggerMatch x m e now r =
     (if \<not> truthy_string (rx_api_key x) then (Inl ''EVE_INTERNAL_API_KEY is required for trigger execution'', [], r)
      else if \<not> truthy_string (rx_api_url x) then (Inl ''EVE_API_URL is required for trigger execution'', [], r)
      else case trigger_call x m e of
        None \<Rightarrow> (Inr (), [], r)
      | Some call \<Rightarrow>
          case rx_api x call of
            Inl err \<Rightarrow> (Inl err, [call], r)
          | Inr answer \<Rightarrow> (Inr (), [call], link_result e answer now r))"

text \<open>The loop over the matches; the error of one is thrown on, so that it ends the loop.\<close>

fun trigger_all ::
  "router_ext \<Rightarrow> trigger_match list \<Rightarrow> event \<Rightarrow> timestamp \<Rightarrow> router \<Rightarrow> (string + unit) \<times> api_call list \<times> router" where
  "trigger_all x [] e now r = (Inr (), [], r)"
| "trigger_all x (m # ms) e now r =
     (case triggerMatch x m e now r of
        (Inl err, calls, r') \<Rightarrow> (Inl err, calls, r')
      | (Inr u, calls, r') \<Rightarrow>
          let (res, calls', r'') = trigger_all x ms e now r' in (res, calls @ calls', r''))"

subsection \<open>Processing an event\<close>

definition evaluation_json :: "evaluation \<Rightarrow> json" where
  "evaluation_json ev =
     JObj ([(''type'', JStr (ev_type ev)), (''name'', JStr (ev_name ev)), (''matched'', JBool (ev_matched ev))]
       @ opt_field ''reason'' (map_option JStr (ev_reason ev))
       @ opt_field ''subscription_id'' (map_option JStr (ev_subscription_id ev))
       @ opt_field ''delivery_id'' (map_option JStr (ev_delivery_id ev)))"

definition save_evaluations ::
  "event \<Rightarrow> trigger_match list \<Rightarrow> evaluation list \<Rightarrow> evaluation list \<Rightarrow> timestamp \<Rightarrow> router \<Rightarrow> router" where
  "save_evaluations e ms evs linkEvs now r =
     r\<lparr>rw := updateTriggerMetadata (v_id e) (int (length ms + length (filter ev_matched linkEvs)))
       (JArr (map evaluation_json (evs @ linkEvs))) now (rw r)\<rparr>"

definition process_steps ::
  "router_ext \<Rightarrow> event \<Rightarrow> timestamp \<Rightarrow> router \<Rightarrow> (string + unit) \<times> api_call list \<times> router" where
  "process_steps x e now r =
     (case matchTriggersForEvent (rx_manifest x) e of
        Inl err \<Rightarrow> (Inl err, [], r)
      | Inr (ms, evs) \<Rightarrow>
          case fanOutAppLinkEvent x e now r of
            (Inl err, r') \<Rightarrow> (Inl (rx_db_text x err), [], r')
          | (Inr linkEvs, r') \<Rightarrow> trigger_all x ms e now (save_evaluations e ms evs linkEvs now r'))"

definition set_status :: "event \<Rightarrow> string \<Rightarrow> timestamp \<Rightarrow> router \<Rightarrow> router" where
  "set_status e status now r = r\<lparr>rw := snd (updateEventStatus (v_id e) status None now (rw r))\<rparr>"

definition processEvent :: "router_ext \<Rightarrow> timestamp \<Rightarrow> event \<Rightarrow> router \<Rightarrow> api_call list \<times> router" where
  "processEvent x now e r =
     (case process_steps x e now r of
        (Inr u, calls, r') \<Rightarrow> (calls, set_status e ''completed'' now (r'\<lparr>r_eventsProcessed := Suc (r_eventsProcessed r')\<rparr>))
      | (Inl err, calls, r') \<Rightarrow> (calls, set_status e ''failed'' now (r'\<lparr>r_eventsFailed := Suc (r_eventsFailed r')\<rparr>)))"

fun process_all :: "router_ext \<Rightarrow> timestamp \<Rightarrow> event list \<Rightarrow> router \<Rightarrow> api_call list \<times> router" where
  "process_all x now [] r = ([], r)"
| "process_all x now (e # es) r =
     (let (calls, r') = processEvent x now e r; (calls', r'') = process_all x now es r'
      in (calls @ calls', r''))"

subsection \<open>The polling loop\<close>

text \<open>\<^verbatim>\<open>Math.max(lowest, parseInt(value || default, 10))\<close>; \<open>None\<close> is NaN, which the query rejects.\<close>

definition at_least :: "int \<Rightarrow> string \<Rightarrow> string option \<Rightarrow> int option" where
  "at_least lowest dflt value =
     map_option (max lowest) (parse_int (case value of Some v \<Rightarrow> if v = [] then dflt else v | None \<Rightarrow> dflt))"

definition recover_stale :: "router_ext \<Rightarrow> timestamp \<Rightarrow> router \<Rightarrow> router" where
  "recover_stale x now r =
     (case at_least 10 ''60'' (rx_stale_seconds x) of
        None \<Rightarrow> r
      | Some secs \<Rightarrow>
          let (n, w') = recoverStaleEvents secs now (rw r)
          in r\<lparr>rw := w', r_eventsRecovered := r_eventsRecovered r + n\<rparr>)"

definition router_tick :: "router_ext \<Rightarrow> timestamp \<Rightarrow> router \<Rightarrow> api_call list \<times> router" where
  "router_tick x now r =
     (if r_tickInProgress r then ([], r)
      else
        let r1 = r\<lparr>r_tickCount := Suc (r_tickCount r)\<rparr>;
            r2 = (if r_tickCount r1 mod 6 = 0 then recover_stale x now r1 else r1);
            r3 = processDueAppLinkDeliveries x now r2
        in case at_least 1 ''25'' (rx_claim_limit x) of
             None \<Rightarrow> ([], r3)
           | Some n \<Rightarrow>
               let (claimed, w') = claimPendingEvents (nat n) now (rw r3)
               in process_all x now claimed (r3\<lparr>rw := w'\<rparr>))"

end
