(* ===== verification/Trigger_Properties.thy ===== *)
theory Trigger_Properties
  imports Triggers
begin

section \<open>Properties of trigger matching\<close>

text \<open>Properties of trigger matching: branch patterns, the recorded reasons, the guard against recursion and the record of matches.\<close>

subsection \<open>Branch patterns\<close>

text \<open>
Branch patterns. A pattern \<^verbatim>\<open>p/*\<close> stands for the branches below \<open>p\<close>, a pattern \<^verbatim>\<open>*t\<close> for the branches that
end in \<open>t\<close>, and a text without a star for itself only; a star elsewhere is not a wildcard.
\<close>

theorem branch_patterns:
  assumes "CHR ''*'' \<notin> set t"
  shows "(matchesBranch b (t @ ''/*'') \<longleftrightarrow> (\<exists>rest. b = t @ ''/'' @ rest)) \<and>
    (matchesBranch b (''*'' @ t) \<longleftrightarrow> (\<exists>front. b = front @ t)) \<and>
    (matchesBranch b t \<longleftrightarrow> b = t) \<and>
    (t \<noteq> [] \<longrightarrow> \<not> ends_with ''/*'' (t @ ''*'' @ u) \<longrightarrow>
      (matchesBranch b (t @ ''*'' @ u) \<longleftrightarrow> b = t @ ''*'' @ u))"
proof (intro conjI impI)
  show "matchesBranch b (t @ ''/*'') \<longleftrightarrow> (\<exists>rest. b = t @ ''/'' @ rest)"
    by (auto simp: matchesBranch_def ends_with_iff starts_with_iff)
  have e: "\<not> ends_with ''/*'' (''*'' @ t)" "\<not> ends_with ''/*'' t"
    using assms by (cases t rule: rev_cases; auto simp: ends_with_iff Cons_eq_append_conv)+
  have "matchesBranch b (''*'' @ t) \<longleftrightarrow> b = ''*'' @ t \<or> ends_with t b"
  proof -
    have "''/'' @ drop 2 (''*'' @ t) = t" if "starts_with ''*/'' (''*'' @ t)"
      using that by (cases t) (auto simp: starts_with_def)
    then show ?thesis using e(1) by (auto simp: matchesBranch_def starts_with_def)
  qed
  then show "matchesBranch b (''*'' @ t) \<longleftrightarrow> (\<exists>front. b = front @ t)" by (auto simp: ends_with_iff)
  show "matchesBranch b t \<longleftrightarrow> b = t"
    using assms e(2) by (auto simp: matchesBranch_def starts_with_iff)
next
  assume "t \<noteq> []" "\<not> ends_with ''/*'' (t @ ''*'' @ u)"
  moreover have "\<not> starts_with ''*'' (t @ v)" "\<not> starts_with ''*/'' (t @ v)" for v
    using assms \<open>t \<noteq> []\<close> by (cases t; auto simp: starts_with_def)+
  ultimately show "matchesBranch b (t @ ''*'' @ u) \<longleftrightarrow> b = t @ ''*'' @ u"
    by (auto simp: matchesBranch_def)
qed

theorem branch_patterns_witness:
  "matchesBranch ''feature/login/v2'' ''feature/*'' \<and> matchesBranch ''staging-prod'' ''*-prod'' \<and>
   \<not> matchesBranch ''release-7'' ''release-*''"
proof -
  have a: "matchesBranch ''feature/login/v2'' (''feature'' @ ''/*'') \<longleftrightarrow> (\<exists>rest. ''feature/login/v2'' = ''feature'' @ ''/'' @ rest)"
    by (rule branch_patterns [THEN conjunct1]) simp
  have b: "matchesBranch ''staging-prod'' (''*'' @ ''-prod'') \<longleftrightarrow> (\<exists>front. ''staging-prod'' = front @ ''-prod'')"
    by (rule branch_patterns [THEN conjunct2, THEN conjunct1]) simp
  have "\<exists>front. ''staging-prod'' = front @ ''-prod''" by (rule exI [of _ "''staging''"]) simp
  moreover have "matchesBranch ''release-7'' (''release-'' @ ''*'' @ []) \<longleftrightarrow> ''release-7'' = ''release-'' @ ''*'' @ []"
    using branch_patterns [THEN conjunct2, THEN conjunct2, THEN conjunct2, of "''release-''" "[]" "''release-7''"]
    by (simp add: ends_with_def)
  ultimately show ?thesis using a b by simp
qed

subsection \<open>Verdicts and reasons\<close>

text \<open>
The verdict on a GitHub trigger and the reason that is recorded for it come from two routines, which agree:
they throw for the same triggers with the same message, and the reason is \<^verbatim>\<open>unknown\<close> exactly for a match, so
that a mismatch always has a known reason.
\<close>

theorem github_reason_agrees:
  "(matchesGitHubTrigger e g = Inl err \<longleftrightarrow> describeGitHubMismatch e g = Inl err) \<and>
   (matchesGitHubTrigger e g = Inr True \<longleftrightarrow> describeGitHubMismatch e g = Inr ''unknown'')"
  by (auto simp: matchesGitHubTrigger_def describeGitHubMismatch_def split: if_splits sum.splits bool.splits)

subsection \<open>A pipeline does not start itself\<close>

definition started_by :: "event \<Rightarrow> json \<Rightarrow> string \<Rightarrow> bool" where
  "started_by e def name = (\<exists>reason. matchesTrigger e def name = Inr (True, reason))"

definition system_triggered :: "json \<Rightarrow> bool" where
  "system_triggered def =
     (case json_get def ''trigger'' of
        Some trigger \<Rightarrow> json_truthy (json_get trigger ''system'') \<and>
          \<not> json_truthy (json_get trigger ''github'') \<and> \<not> json_truthy (json_get trigger ''slack'')
      | None \<Rightarrow> False)"

text \<open>
The guard against recursion. An event that names a pipeline as its origin never starts that pipeline through
a \<^verbatim>\<open>system\<close> trigger, whatever else the trigger says. The guard belongs to this kind of trigger alone: a
generic trigger on the source \<^verbatim>\<open>system\<close> is matched by every system event, those of its own pipeline included.
\<close>

theorem system_trigger_never_recurs:
  assumes "payload e ''pipeline_name'' = Some (JStr name)" and "name \<noteq> []" and "v_source e = ''system''"
  shows "(system_triggered def \<longrightarrow> \<not> started_by e def name) \<and>
    started_by e (JObj [(''trigger'', JObj [(''event'', JObj [(''source'', JStr ''system'')])])]) name"
proof (intro conjI impI)
  assume "system_triggered def"
  then obtain trigger where "json_get def ''trigger'' = Some trigger" "json_truthy (json_get trigger ''system'')"
    "\<not> json_truthy (json_get trigger ''github'')" "\<not> json_truthy (json_get trigger ''slack'')"
    by (auto simp: system_triggered_def split: option.splits)
  moreover have "\<not> matchesSystemTrigger e (the (json_get trigger ''system'')) name"
    using assms by (simp add: matchesSystemTrigger_def)
  ultimately show "\<not> started_by e def name"
    by (auto simp: started_by_def matchesTrigger_def outcome_of_def Let_def)
next
  show "started_by e (JObj [(''trigger'', JObj [(''event'', JObj [(''source'', JStr ''system'')])])]) name"
    using assms(3) by (simp add: started_by_def matchesTrigger_def outcome_of_def Let_def is_object_def
        matchesGenericEventTrigger_def text_filter_def)
qed

definition ex_failure_event :: event where
  "ex_failure_event = \<lparr>v_id = ''ev1'', v_project_id = ''p1'', v_type = ''system.pipeline.failed'', v_source = ''system'',
     v_env_name = None, v_ref_sha = Some ''abc'', v_ref_branch = Some ''main'', v_actor_type = None, v_actor_id = None,
     v_payload_json = Some [(''pipeline_name'', JStr ''deploy'')], v_dedupe_key = None, v_job_id = None,
     v_trigger_match_count = None, v_triggers_evaluated = None, v_status = ''processing'', v_processed_at = None,
     v_created_at = 5, v_updated_at = 5\<rparr>"

theorem system_trigger_never_recurs_witness:
  "system_triggered (JObj [(''trigger'', JObj [(''system'', JObj [(''event'', JStr ''pipeline.failed'')])])]) \<and>
   \<not> started_by ex_failure_event (JObj [(''trigger'', JObj [(''system'', JObj [(''event'', JStr ''pipeline.failed'')])])]) ''deploy''"
proof -
  have "payload ex_failure_event ''pipeline_name'' = Some (JStr ''deploy'')" "v_source ex_failure_event = ''system''"
    by code_simp+
  moreover have "system_triggered (JObj [(''trigger'', JObj [(''system'', JObj [(''event'', JStr ''pipeline.failed'')])])])"
    by code_simp
  ultimately show ?thesis using system_trigger_never_recurs [of ex_failure_event "''deploy''"] by blast
qed

subsection \<open>What is started is what is recorded\<close>

definition match_label :: "trigger_match \<Rightarrow> string \<times> string" where
  "match_label m =
     (target_name (tm_type m), case tm_envName m of None \<Rightarrow> tm_name m | Some env \<Rightarrow> tm_name m @ ''(env:'' @ env @ '')'')"

definition matched_labels :: "evaluation list \<Rightarrow> (string \<times> string) list" where
  "matched_labels evs = map (\<lambda>ev. (ev_type ev, ev_name ev)) (filter ev_matched evs)"

lemma matched_labels_append [simp]: "matched_labels (evs @ evs') = matched_labels evs @ matched_labels evs'"
  by (simp add: matched_labels_def)

lemma match_definitions_recorded:
  "match_definitions e kind defs = Inr (ms, evs) \<Longrightarrow>
   matched_labels evs = map match_label ms \<and> map ev_name evs = map fst defs \<and>
   (\<forall>m \<in> set ms. tm_envName m = None \<and> tm_type m = kind)"
proof (induction defs arbitrary: ms evs)
  case (Cons d defs)
  obtain name def where d: "d = (name, def)" by force
  from Cons.prems obtain matched reason ms' evs' where
    "match_definitions e kind defs = Inr (ms', evs')"
    "evs = plain_evaluation (target_name kind) name matched reason # evs'"
    "ms = (if matched then [\<lparr>tm_type = kind, tm_name = name, tm_projectId = v_project_id e, tm_envName = None\<rparr>] else []) @ ms'"
    by (auto simp: d split: sum.splits prod.splits)
  with Cons.IH show ?case by (auto simp: d plain_evaluation_def matched_labels_def match_label_def)
qed (simp add: matched_labels_def)

lemma environment_trigger_started:
  "environment_trigger e pls already branch env = Some (name, None) \<Longrightarrow>
   name \<notin> set already \<and> \<not> has_explicit_trigger pls name"
  by (auto simp: environment_trigger_def Let_def split: option.splits json.splits if_splits)

lemma match_environments_recorded:
  "match_environments e pls already branch envs = (ms, evs) \<Longrightarrow>
   matched_labels evs = map match_label ms \<and>
   (\<forall>m \<in> set ms. tm_type m = Pipeline \<and> tm_envName m \<noteq> None \<and> tm_name m \<notin> set already \<and>
     \<not> has_explicit_trigger pls (tm_name m))"
proof (induction envs arbitrary: ms evs)
  case (Cons d envs)
  obtain envName env where d: "d = (envName, env)" by force
  obtain ms' evs' where rest: "match_environments e pls already branch envs = (ms', evs')" by force
  show ?case
  proof (cases "environment_trigger e pls already branch env")
    case None
    then show ?thesis using Cons rest by (simp add: d)
  next
    case (Some p)
    then obtain name reason where "environment_trigger e pls already branch env = Some (name, reason)" by (cases p) auto
    then show ?thesis using Cons.prems Cons.IH [OF rest] rest environment_trigger_started [of e pls already branch env name]
      by (auto simp: d plain_evaluation_def matched_labels_def match_label_def)
  qed
qed (simp add: matched_labels_def)

text \<open>
The record of a match. Everything that is started has an evaluation that says so, in the same order, and
nothing else has; and a pipeline that an event starts through its own trigger, or that has a trigger at
all, is not started again through an environment.
\<close>

theorem matches_are_recorded:
  assumes "matchTriggersForEvent m e = Inr (ms, evs)"
  shows "matched_labels evs = map match_label ms \<and>
    (\<forall>a \<in> set ms. \<forall>b \<in> set ms. tm_type a = Pipeline \<longrightarrow> tm_envName a = None \<longrightarrow> tm_envName b \<noteq> None \<longrightarrow>
       tm_name a \<noteq> tm_name b)"
proof (cases "Option.bind (ms_latest m (v_project_id e)) (parseManifest m)")
  case None
  then show ?thesis using assms by (simp add: matchTriggersForEvent_def matched_labels_def)
next
  case (Some parsed)
  let ?env = "\<lambda>already. case json_get parsed ''environments'' of
      Some envs \<Rightarrow>
        if v_source e = ''github'' \<and> v_type e = ''github.push'' \<and> is_object envs then
          matchEnvironmentLinkedPipelines m e envs (json_get parsed ''pipelines'') already
        else ([], [])
    | None \<Rightarrow> ([], [])"
  obtain ms1 evs1 where p: "match_definitions e Pipeline (section_entries (json_get parsed ''pipelines'')) = Inr (ms1, evs1)"
    using assms Some by (cases "match_definitions e Pipeline (section_entries (json_get parsed ''pipelines''))")
      (auto simp: matchTriggersForEvent_def)
  obtain ms2 evs2 where w: "match_definitions e Workflow (section_entries (json_get parsed ''workflows'')) = Inr (ms2, evs2)"
    using assms Some p by (cases "match_definitions e Workflow (section_entries (json_get parsed ''workflows''))")
      (auto simp: matchTriggersForEvent_def)
  obtain ms3 evs3 where x: "?env (pipeline_names (ms1 @ ms2)) = (ms3, evs3)" by fastforce
  have all: "ms = ms1 @ ms2 @ ms3" "evs = evs1 @ evs2 @ evs3"
    using assms Some p w x by (simp_all add: matchTriggersForEvent_def)
  have env: "(ms3, evs3) = ([], []) \<or>
      (\<exists>pls branch envs. match_environments e pls (pipeline_names (ms1 @ ms2)) branch envs = (ms3, evs3))"
    using x by (fastforce simp: matchEnvironmentLinkedPipelines_def split: option.splits if_splits)
  note defs = match_definitions_recorded [OF p] match_definitions_recorded [OF w]
  have envs: "matched_labels evs3 = map match_label ms3 \<and>
    (\<forall>b \<in> set ms3. tm_envName b \<noteq> None \<and> tm_name b \<notin> set (pipeline_names (ms1 @ ms2)))"
    using env match_environments_recorded by (fastforce simp: matched_labels_def)
  have "tm_name a \<noteq> tm_name b" if "a \<in> set ms" "b \<in> set ms" "tm_type a = Pipeline" "tm_envName a = None"
    "tm_envName b \<noteq> None" for a b
  proof -
    have "a \<in> set (ms1 @ ms2)" "b \<in> set ms3" using that defs envs by (auto simp: all)
    moreover from this that(3) have "tm_name a \<in> set (pipeline_names (ms1 @ ms2))" by (auto simp: pipeline_names_def)
    ultimately show ?thesis using envs by metis
  qed
  then show ?thesis using defs envs by (auto simp: all)
qed

definition ex_manifest :: manifest_source where
  "ex_manifest = \<lparr>ms_latest = (\<lambda>_. Some ''manifest''), ms_yaml = (\<lambda>_. Some (JObj
     [(''pipelines'', JObj [(''deploy'', JObj []), (''test'', JObj [(''trigger'', JObj [(''github'', JObj [(''event'', JStr ''push'')])])])]),
      (''environments'', JObj [(''staging'', JObj [(''pipeline'', JStr ''deploy'')]), (''qa'', JObj [(''pipeline'', JStr ''test'')])])])),
     ms_branch = (\<lambda>_. Some ''main'')\<rparr>"

definition ex_push :: event where
  "ex_push = ex_failure_event\<lparr>v_type := ''github.push'', v_source := ''github'', v_payload_json := Some []\<rparr>"

theorem matches_are_recorded_witness:
  "\<exists>ms evs. matchTriggersForEvent ex_manifest ex_push = Inr (ms, evs) \<and> map tm_name ms = [''test'', ''deploy''] \<and>
     matched_labels evs = map match_label ms"
proof -
  have "(case matchTriggersForEvent ex_manifest ex_push of Inr (ms, evs) \<Rightarrow> map tm_name ms = [''test'', ''deploy''] | Inl _ \<Rightarrow> False)"
    by code_simp
  then obtain ms evs where "matchTriggersForEvent ex_manifest ex_push = Inr (ms, evs)" "map tm_name ms = [''test'', ''deploy'']"
    by (auto split: sum.splits)
  moreover from matches_are_recorded [OF this(1)] have "matched_labels evs = map match_label ms" by (rule conjunct1)
  ultimately show ?thesis by (intro exI [of _ ms] exI [of _ evs] conjI)
qed

end
