(* ===== verification/Router_Properties.thy ===== *)
theory Router_Properties
  imports Event_Router Trigger_Properties
begin

section \<open>Properties of the event router\<close>

text \<open>Properties of the event router: claimed events are finished, deliveries are bounded, and what a failed trigger leaves undone.\<close>

subsection \<open>Which events are being processed\<close>

definition processing :: "world \<Rightarrow> string set" where
  "processing w = v_id ` {e \<in> set (events w). v_status e = ''processing''}"

definition taken :: "string set \<Rightarrow> world \<Rightarrow> bool" where
  "taken S w \<longleftrightarrow> S \<subseteq> v_id ` set (events w) \<and>
     (\<forall>e \<in> set (events w). v_id e \<in> S \<longrightarrow> v_status e \<in> {''processing'', ''completed'', ''failed''})"

text \<open>What every step of the router between the claim and the final status does to the event log.\<close>

definition calm :: "world \<Rightarrow> world \<Rightarrow> bool" where
  "calm w w' \<longleftrightarrow> processing w' \<subseteq> processing w \<and> (\<forall>S. taken S w \<longrightarrow> taken S w')"

lemma calm_refl [simp]: "calm w w"
  by (simp add: calm_def)

lemma calm_trans [trans]: "calm w w' \<Longrightarrow> calm w' w'' \<Longrightarrow> calm w w''"
  by (auto simp: calm_def)

lemma calm_insert:
  assumes "v_status row = ''pending''" "v_id row \<notin> v_id ` set (events w)"
  shows "calm w (w\<lparr>events := events w @ [row]\<rparr>)"
  using assms by (auto simp: calm_def processing_def taken_def)

lemma calm_create: "calm w (snd (create_event e now w))"
  by (auto simp: create_event_def insert_event_def Let_def intro!: calm_insert split: option.splits)

lemma calm_update_where:
  assumes "\<And>e. v_id (f e) = v_id e" "\<And>e. v_status (f e) = v_status e \<or> v_status (f e) \<in> {''completed'', ''failed''}"
  shows "calm w (w\<lparr>events := update_where P f (events w)\<rparr>)"
proof -
  have "map v_id (update_where P f (events w)) = map v_id (events w)"
    using assms(1) by (simp add: update_where_def)
  then have id: "v_id ` set (update_where P f (events w)) = v_id ` set (events w)" by (metis list.set_map)
  have row: "\<exists>e \<in> set (events w). v_id e' = v_id e \<and> (v_status e' = v_status e \<or> v_status e' \<in> {''completed'', ''failed''})"
    if "e' \<in> set (update_where P f (events w))" for e'
    using that by (rule in_set_update_whereE) (use assms in auto)
  have "processing (w\<lparr>events := update_where P f (events w)\<rparr>) \<subseteq> processing w"
  proof
    fix i assume "i \<in> processing (w\<lparr>events := update_where P f (events w)\<rparr>)"
    then obtain e' where "e' \<in> set (update_where P f (events w))" "v_status e' = ''processing''" "i = v_id e'"
      by (auto simp: processing_def)
    then show "i \<in> processing w" using row [of e'] by (auto simp: processing_def)
  qed
  moreover have "taken S (w\<lparr>events := update_where P f (events w)\<rparr>)" if "taken S w" for S
    unfolding taken_def
  proof (intro conjI ballI impI)
    show "S \<subseteq> v_id ` set (events (w\<lparr>events := update_where P f (events w)\<rparr>))"
      using that id by (simp add: taken_def)
  next
    fix e' assume "e' \<in> set (events (w\<lparr>events := update_where P f (events w)\<rparr>))" "v_id e' \<in> S"
    then show "v_status e' \<in> {''processing'', ''completed'', ''failed''}"
      using that row [of e'] by (auto simp: taken_def)
  qed
  ultimately show ?thesis by (simp add: calm_def)
qed

lemma calm_update_event:
  assumes "\<And>e. v_id (f e) = v_id e" "\<And>e. v_status (f e) = v_status e \<or> v_status (f e) \<in> {''completed'', ''failed''}"
  shows "calm w (snd (update_event i f w))"
  using calm_update_where [OF assms] by (simp add: update_event_def)

named_theorems calm_intros \<open>steps that neither start nor repeat the processing of an event\<close>

lemma calm_updateTriggerMetadata [calm_intros]: "calm w (updateTriggerMetadata i n v now w)"
  unfolding updateTriggerMetadata_def by (rule calm_update_event) simp_all

lemma calm_link [calm_intros]: "calm w (snd (linkJobToEvent i k now w))"
  unfolding linkJobToEvent_def by (rule calm_update_event) simp_all

lemma calm_status: "st \<in> {''completed'', ''failed''} \<Longrightarrow> calm w (snd (updateEventStatus i st t now w))"
  unfolding updateEventStatus_def by (rule calm_update_event) simp_all

lemma update_delivery_world [simp]: "rw (update_delivery i f r) = rw r"
  by (simp add: update_delivery_def)

lemma mark_world [simp]:
  "rw (markSuccess i v now r) = rw r" "rw (markRetry i m t now r) = rw r" "rw (markFailed i m now r) = rw r"
  by (simp_all add: markSuccess_def markRetry_def markFailed_def)

lemma schedule_world [simp]: "rw (scheduleDeliveryRetry d m now r) = rw r"
  by (simp add: scheduleDeliveryRetry_def Let_def)

lemma queue_world [simp]: "rw (snd (queue_delivery i s v t now r)) = rw r"
  by (simp add: queue_delivery_def Let_def)

lemma calm_attempt [calm_intros]: "calm (rw r) (rw (snd (attempt_delivery x e s g d now r)))"
  using calm_create [of "rw r" "consumer_event x e s g" now]
  by (auto simp: attempt_delivery_def createConsumerAppLinkEvent_def split: sum.split prod.splits)

lemma calm_fan_out_one: "calm (rw r) (rw (snd (fan_out_one x e s g now r)))"
proof -
  have "rw r' = rw r" if "queue_delivery i a b t now r = (q, r')" for i a b t q r'
    using that queue_world [of i a b t now r] by simp
  then show ?thesis
    using calm_attempt [of _ x e s g _ now]
    by (auto simp: fan_out_one_def split: sum.split prod.splits option.splits) (metis snd_conv)+
qed

lemma calm_fan_out: "calm (rw r) (rw (snd (fan_out x e rows now r)))"
proof (induction rows arbitrary: r)
  case (Cons row rows)
  obtain s g where row: "row = (s, g)" by force
  obtain q r' where q: "fan_out_one x e s g now r = (q, r')" by force
  have "calm (rw r) (rw r')" using calm_fan_out_one [of r x e s g now] q by simp
  then show ?case using Cons.IH [of r'] calm_trans by (auto simp: row q split: sum.split prod.split)
qed simp

lemma calm_fanOut: "calm (rw r) (rw (snd (fanOutAppLinkEvent x e now r)))"
  by (simp add: fanOutAppLinkEvent_def calm_fan_out)

lemma calm_triggerMatch: "calm (rw r) (rw (snd (snd (triggerMatch x m e now r))))"
  by (auto simp: triggerMatch_def link_result_def intro: calm_link split: option.split sum.split)

lemma calm_trigger_all: "calm (rw r) (rw (snd (snd (trigger_all x ms e now r))))"
proof (induction ms arbitrary: r)
  case (Cons m ms)
  obtain q calls r' where q: "triggerMatch x m e now r = (q, calls, r')" by (metis prod_cases3)
  have "calm (rw r) (rw r')" using calm_triggerMatch [of r x m e now] q by simp
  then show ?case using Cons.IH [of r'] calm_trans by (auto simp: q split: sum.split prod.split)
qed simp

lemma calm_process_steps: "calm (rw r) (rw (snd (snd (process_steps x e now r))))"
proof -
  have "calm (rw r') (rw (save_evaluations e ms evs l now r'))" for ms evs l r'
    by (simp add: save_evaluations_def calm_updateTriggerMetadata)
  then have "calm (rw r') (rw (snd (snd (trigger_all x ms e now (save_evaluations e ms evs l now r')))))" for ms evs l r'
    using calm_trans calm_trigger_all by blast
  then show ?thesis using calm_fanOut [of r x e now] calm_trans
    by (fastforce simp: process_steps_def split: sum.split prod.split)
qed

subsection \<open>Every claimed event is finished\<close>

lemma set_status_world: "rw (set_status e st now r) = snd (updateEventStatus (v_id e) st None now (rw r))"
  by (simp add: set_status_def)

lemma status_ends_processing:
  "st \<noteq> ''processing'' \<Longrightarrow> v_id e \<notin> processing (rw (set_status e st now r))"
  by (auto simp: set_status_world updateEventStatus_def update_event_def processing_def set_update_where split: if_splits)

lemma processEvent_ends:
  "calm (rw r) (rw (snd (processEvent x now e r))) \<and> v_id e \<notin> processing (rw (snd (processEvent x now e r)))"
proof -
  obtain res calls r' where s: "process_steps x e now r = (res, calls, r')" by (metis prod_cases3)
  have "calm (rw r) (rw r')" using calm_process_steps [of r x e now] s by simp
  then have "calm (rw r) (rw (set_status e st now (r'\<lparr>r_eventsProcessed := k\<rparr>)))"
    "calm (rw r) (rw (set_status e st now (r'\<lparr>r_eventsFailed := k\<rparr>)))"
    if "st \<in> {''completed'', ''failed''}" for st k
    using calm_trans calm_status [OF that] by (auto simp: set_status_world)
  then show ?thesis
    using status_ends_processing [of _ e now] by (cases res) (auto simp: processEvent_def s)
qed

lemma process_all_ends:
  "calm (rw r) (rw (snd (process_all x now es r))) \<and>
   processing (rw (snd (process_all x now es r))) \<inter> v_id ` set es = {}"
proof (induction es arbitrary: r)
  case (Cons e es)
  obtain calls r' where p: "processEvent x now e r = (calls, r')" by force
  have "calm (rw r) (rw r')" "v_id e \<notin> processing (rw r')" using processEvent_ends [of r x now e] p by simp_all
  then show ?case using Cons.IH [of r'] calm_trans by (auto simp: p calm_def split: prod.split)
qed simp

lemma claim_processing:
  assumes "claimPendingEvents n now w = (es, w')"
  shows "processing w' \<subseteq> processing w \<union> v_id ` set es" and "taken (v_id ` set es) w'"
proof -
  define I where "I = v_id ` set (pending_batch n w)"
  define f where "f = (\<lambda>e :: event. e\<lparr>v_status := ''processing'', v_updated_at := now\<rparr>)"
  have es: "es = map f (filter (\<lambda>e. v_id e \<in> I) (events w))"
    and w': "events w' = update_where (\<lambda>e. v_id e \<in> I) f (events w)"
    using assms by (auto simp: claimPendingEvents_def Let_def I_def f_def)
  have [simp]: "v_id (f e) = v_id e" "v_status (f e) = ''processing''" for e by (simp_all add: f_def)
  have ids: "v_id ` set es = v_id ` {e \<in> set (events w). v_id e \<in> I}" by (auto simp: es image_iff)
  show "processing w' \<subseteq> processing w \<union> v_id ` set es"
  proof
    fix i assume "i \<in> processing w'"
    then obtain e where "e \<in> set (events w)" "i = v_id e" "v_id e \<in> I \<or> v_status e = ''processing''"
      by (auto simp: processing_def w' set_update_where split: if_splits)
    then show "i \<in> processing w \<union> v_id ` set es" by (auto simp: ids processing_def)
  qed
  show "taken (v_id ` set es) w'"
    unfolding taken_def
  proof (intro conjI ballI impI)
    have "map v_id (events w') = map v_id (events w)" by (simp add: w' update_where_def)
    then have "v_id ` set (events w') = v_id ` set (events w)" by (metis list.set_map)
    then show "v_id ` set es \<subseteq> v_id ` set (events w')" by (auto simp: ids)
  next
    fix e assume "e \<in> set (events w')" "v_id e \<in> v_id ` set es"
    then show "v_status e \<in> {''processing'', ''completed'', ''failed''}"
      by (auto simp: w' ids set_update_where split: if_splits)
  qed
qed

lemma recover_stale_processing: "processing (rw (recover_stale x now r)) \<subseteq> processing (rw r)"
  by (auto simp: recover_stale_def recoverStaleEvents_def Let_def processing_def set_update_where split: option.splits if_splits)

lemma redeliver_calm: "calm (rw r) (rw (redeliver x now r d))"
  by (auto simp: redeliver_def intro: calm_attempt split: option.split)

lemma process_due_calm: "calm (rw r) (rw (processDueAppLinkDeliveries x now r))"
proof -
  have "calm (rw r') (rw (foldl (redeliver x now) r' ds))" for r' ds
    by (induction ds arbitrary: r') (auto intro: calm_trans redeliver_calm)
  moreover obtain ds r' where "claimDue 25 now r = (ds, r')" by force
  moreover from this have "rw r' = rw r" by (auto simp: claimDue_def Let_def)
  ultimately show ?thesis by (metis (no_types, lifting) case_prod_conv processDueAppLinkDeliveries_def)
qed

definition before_claim :: "router_ext \<Rightarrow> timestamp \<Rightarrow> router \<Rightarrow> router" where
  "before_claim x now r =
     (let r1 = r\<lparr>r_tickCount := Suc (r_tickCount r)\<rparr>
      in processDueAppLinkDeliveries x now (if r_tickCount r1 mod 6 = 0 then recover_stale x now r1 else r1))"

lemma router_tick_eq:
  "router_tick x now r =
     (if r_tickInProgress r then ([], r)
      else case at_least 1 ''25'' (rx_claim_limit x) of
        None \<Rightarrow> ([], before_claim x now r)
      | Some n \<Rightarrow>
          let (claimed, w') = claimPendingEvents (nat n) now (rw (before_claim x now r))
          in process_all x now claimed (before_claim x now r\<lparr>rw := w'\<rparr>))"
  by (simp only: router_tick_def before_claim_def Let_def)

lemma before_claim_processing: "processing (rw (before_claim x now r)) \<subseteq> processing (rw r)"
proof -
  define r2 where "r2 = (let r1 = r\<lparr>r_tickCount := Suc (r_tickCount r)\<rparr>
    in if r_tickCount r1 mod 6 = 0 then recover_stale x now r1 else r1)"
  have "processing (rw r2) \<subseteq> processing (rw r)"
    using recover_stale_processing [of x now "r\<lparr>r_tickCount := Suc (r_tickCount r)\<rparr>"] by (simp add: r2_def Let_def)
  moreover have "processing (rw (processDueAppLinkDeliveries x now r2)) \<subseteq> processing (rw r2)"
    using process_due_calm [of r2 x now] by (simp add: calm_def)
  ultimately show ?thesis by (simp add: before_claim_def r2_def Let_def)
qed

text \<open>
C19: No event is left in processing. Whatever the triggers, the subscriptions and the API do, every event a tick
claims is completed or failed when the tick ends; and an event in processing after the tick was in
processing before it, so that the tick leaves no work behind.
\<close>

theorem claimed_events_are_finished:
  "processing (rw (snd (router_tick x now r))) \<subseteq> processing (rw r) \<and>
   (claimPendingEvents n now (rw r) = (es, w') \<longrightarrow>
    (\<forall>e \<in> set (events (rw (snd (process_all x now es (r\<lparr>rw := w'\<rparr>))))). v_id e \<in> v_id ` set es \<longrightarrow>
       v_status e \<in> {''completed'', ''failed''}))"
proof (intro conjI impI ballI)
  define r3 where "r3 = before_claim x now r"
  have r3: "processing (rw r3) \<subseteq> processing (rw r)" using before_claim_processing by (simp add: r3_def)
  have all: "processing (rw (snd (process_all x now es (r3\<lparr>rw := w'\<rparr>)))) \<subseteq> processing (rw r)"
    if "claimPendingEvents k now (rw r3) = (es, w')" for k es w'
  proof -
    have "processing (rw (snd (process_all x now es (r3\<lparr>rw := w'\<rparr>)))) \<subseteq> processing w' - v_id ` set es"
      using process_all_ends [of "r3\<lparr>rw := w'\<rparr>" x now es] by (auto simp: calm_def)
    then show ?thesis using claim_processing(1) [OF that] r3 by blast
  qed
  show "processing (rw (snd (router_tick x now r))) \<subseteq> processing (rw r)"
    unfolding router_tick_eq r3_def [symmetric] using r3 all by (auto split: option.split prod.split)
next
  fix e assume c: "claimPendingEvents n now (rw r) = (es, w')"
    and e: "e \<in> set (events (rw (snd (process_all x now es (r\<lparr>rw := w'\<rparr>)))))" "v_id e \<in> v_id ` set es"
  let ?w = "rw (snd (process_all x now es (r\<lparr>rw := w'\<rparr>)))"
  have "taken (v_id ` set es) ?w" "processing ?w \<inter> v_id ` set es = {}"
    using claim_processing(2) [OF c] process_all_ends [of "r\<lparr>rw := w'\<rparr>" x now es] by (auto simp: calm_def)
  then show "v_status e \<in> {''completed'', ''failed''}" using e by (fastforce simp: taken_def processing_def)
qed

definition ex_router :: router where
  "ex_router = \<lparr>rw = \<lparr>store = \<lparr>jobs = [], job_attempts = [], job_relations = [], job_gates = [], audit_log = [],
       projects = [\<lparr>p_id = ''p1'', p_slug = ''one'', p_org_id = ''o1''\<rparr>, \<lparr>p_id = ''p2'', p_slug = ''two'', p_org_id = ''o1''\<rparr>],
       pipeline_runs = [], pipeline_step_runs = [], execution_logs = [], thread_messages = []\<rparr>,
     events = [ex_push\<lparr>v_status := ''pending''\<rparr>], ingest_records = [], org_ids = [], org_balances = [],
     balance_transactions = [], proc = idle_orch \<lparr>inFlight = 0, limit = 1\<rparr>\<rparr>,
     grants = [\<lparr>gr_id = ''g1'', gr_producer_project_id = ''p1'', gr_export_kind = ''events'', gr_export_name = ''ci'',
       gr_event_types = [''github.push''], gr_revoked_at = None\<rparr>],
     subscriptions = [\<lparr>su_id = ''s1'', su_consumer_project_id = ''p2'', su_local_alias = ''up'',
       su_event_grant_id = Some ''g1'', su_event_types = []\<rparr>],
     deliveries = [], r_tickCount = 0, r_eventsProcessed = 0, r_eventsFailed = 0, r_eventsRecovered = 0,
     r_tickInProgress = False\<rparr>"

definition ex_rx :: router_ext where
  "ex_rx = \<lparr>rx_manifest = ex_manifest, rx_api = (\<lambda>_. Inr [(''job_id'', JStr ''j1'')]), rx_api_key = Some ''k'',
     rx_api_url = Some ''http://api'', rx_event_id = (\<lambda>k. ''evt-'' @ k), rx_delivery_id = (\<lambda>s e. s @ e),
     rx_db_text = (\<lambda>_. ''db''), rx_num_text = (\<lambda>_. ''0''), rx_claim_limit = None, rx_stale_seconds = None\<rparr>"

theorem claimed_events_are_finished_witness:
  "let (es, w') = claimPendingEvents 25 7 (rw ex_router)
   in map v_id es = [''ev1''] \<and>
      (\<forall>e \<in> set (events (rw (snd (process_all ex_rx 7 es (ex_router\<lparr>rw := w'\<rparr>))))). v_id e \<in> v_id ` set es \<longrightarrow>
       v_status e \<in> {''completed'', ''failed''})"
proof -
  obtain es w' where c: "claimPendingEvents 25 7 (rw ex_router) = (es, w')" by force
  have "map v_id (fst (claimPendingEvents 25 7 (rw ex_router))) = [''ev1'']" by code_simp
  then have "map v_id es = [''ev1'']" by (simp add: c)
  then show ?thesis using claimed_events_are_finished [of ex_rx 7 ex_router 25 es w'] c by simp
qed

subsection \<open>Deliveries\<close>

definition delivery_ok :: "delivery \<Rightarrow> bool" where
  "delivery_ok d =
     (d_status d = ''pending'' \<and> d_attempts d = 0 \<or>
      d_status d = ''retrying'' \<and> 1 \<le> d_attempts d \<and> d_attempts d \<le> 4 \<or>
      d_status d \<in> {''success'', ''failed''} \<and> 1 \<le> d_attempts d \<and> d_attempts d \<le> 5)"

definition delivery_key :: "delivery \<Rightarrow> string \<times> string" where
  "delivery_key d = (d_subscription_id d, d_source_event_id d)"

definition deliveries_ok :: "delivery list \<Rightarrow> bool" where
  "deliveries_ok ds = (distinct (map d_id ds) \<and> distinct (map delivery_key ds) \<and> list_all delivery_ok ds)"

definition settled_delivery :: "delivery \<Rightarrow> bool" where
  "settled_delivery d = (d_status d \<in> {''success'', ''failed''})"

text \<open>One step on the table: it stays in order, settled rows stay as they are, and rows outside a set of ids too.\<close>

definition moves :: "string set \<Rightarrow> delivery list \<Rightarrow> delivery list \<Rightarrow> bool" where
  "moves I ds ds' =
     (deliveries_ok ds \<longrightarrow> deliveries_ok ds' \<and>
       (\<forall>d \<in> set ds. settled_delivery d \<or> d_id d \<notin> I \<longrightarrow> d \<in> set ds'))"

lemma moves_refl [simp]: "moves I ds ds"
  by (simp add: moves_def)

lemma moves_mono: "moves I ds ds' \<Longrightarrow> I \<subseteq> J \<Longrightarrow> moves J ds ds'"
  by (auto simp: moves_def)

lemma moves_trans: "moves I ds ds' \<Longrightarrow> moves J ds' ds'' \<Longrightarrow> moves (I \<union> J) ds ds''"
  by (auto simp: moves_def)

lemma moves_UNIV_trans [trans]: "moves UNIV ds ds' \<Longrightarrow> moves UNIV ds' ds'' \<Longrightarrow> moves UNIV ds ds''"
  using moves_trans [of UNIV ds ds' UNIV ds''] by simp

lemma moves_update:
  assumes "deliveries_ok ds" "d \<in> set ds" "\<not> settled_delivery d"
    and keep: "d_id (f d) = d_id d" "delivery_key (f d) = delivery_key d" and ok: "delivery_ok (f d)"
  shows "moves {d_id d} ds (update_where (\<lambda>d'. d_id d' = d_id d) f ds)"
proof -
  have only: "d' = d" if "d' \<in> set ds" "d_id d' = d_id d" for d'
    using that assms(1,2) by (auto simp: deliveries_ok_def distinct_map inj_on_def)
  have keys: "map k (update_where (\<lambda>d'. d_id d' = d_id d) f ds) = map k ds" if "k (f d) = k d" for k :: "delivery \<Rightarrow> 'k"
    using that only by (auto simp: update_where_def)
  have "list_all delivery_ok (update_where (\<lambda>d'. d_id d' = d_id d) f ds)"
    using assms(1) ok only by (auto simp: deliveries_ok_def list_all_iff set_update_where)
  then have "deliveries_ok (update_where (\<lambda>d'. d_id d' = d_id d) f ds)"
    using assms(1) keys [OF keep(1)] keys [OF keep(2)] by (simp add: deliveries_ok_def)
  moreover have "d' \<in> set (update_where (\<lambda>d'. d_id d' = d_id d) f ds)" if "d' \<in> set ds" "settled_delivery d' \<or> d_id d' \<noteq> d_id d" for d'
  proof -
    have "d_id d' \<noteq> d_id d" using that only assms(3) by auto
    then show ?thesis using that(1) by (auto simp: set_update_where image_iff)
  qed
  ultimately show ?thesis by (auto simp: moves_def)
qed

lemma open_attempts: "delivery_ok d \<Longrightarrow> \<not> settled_delivery d \<Longrightarrow> 0 \<le> d_attempts d \<and> d_attempts d \<le> 4"
  by (auto simp: delivery_ok_def settled_delivery_def)

lemma attempt_delivery_moves:
  assumes "deliveries_ok (deliveries r)" "d \<in> set (deliveries r)" "\<not> settled_delivery d"
  shows "moves {d_id d} (deliveries r) (deliveries (snd (attempt_delivery x e s g d now r)))"
proof -
  have a: "0 \<le> d_attempts d" "d_attempts d \<le> 4"
    using assms open_attempts [of d] by (auto simp: deliveries_ok_def list_all_iff)
  obtain res r' where c: "createConsumerAppLinkEvent x e s g now r = (res, r')" by force
  then have r': "deliveries r' = deliveries r" by (auto simp: createConsumerAppLinkEvent_def split: prod.splits)
  have "moves {d_id d} (deliveries r) (deliveries (update_delivery (d_id d) f r'))"
    if "d_id (f d) = d_id d" "delivery_key (f d) = delivery_key d" "delivery_ok (f d)" for f
    using moves_update [OF assms, of f, OF that] by (simp add: update_delivery_def r')
  then show ?thesis
    using a by (cases res)
      (auto simp: attempt_delivery_def c scheduleDeliveryRetry_def Let_def markSuccess_def markRetry_def markFailed_def
        delivery_key_def delivery_ok_def)
qed

lemma redeliver_moves:
  assumes "deliveries_ok (deliveries r)" "d \<in> set (deliveries r)" "\<not> settled_delivery d"
  shows "moves {d_id d} (deliveries r) (deliveries (redeliver x now r d))"
proof -
  have a: "0 \<le> d_attempts d" "d_attempts d \<le> 4"
    using assms open_attempts [of d] by (auto simp: deliveries_ok_def list_all_iff)
  have "moves {d_id d} (deliveries r) (deliveries (markFailed (d_id d) m now r))" for m
    unfolding markFailed_def update_delivery_def
    using moves_update [OF assms, of "\<lambda>d. d\<lparr>d_status := ''failed'', d_attempts := d_attempts d + 1,
      d_last_attempt_at := Some now, d_next_retry_at := None, d_last_error := Some m, d_updated_at := now\<rparr>"] a
    by (simp add: delivery_key_def delivery_ok_def)
  then show ?thesis using attempt_delivery_moves [OF assms] by (auto simp: redeliver_def split: option.split)
qed

lemma redeliver_all_moves:
  "deliveries_ok (deliveries r) \<Longrightarrow> set ds \<subseteq> set (deliveries r) \<Longrightarrow> distinct (map d_id ds) \<Longrightarrow>
   \<forall>d \<in> set ds. \<not> settled_delivery d \<Longrightarrow> moves UNIV (deliveries r) (deliveries (foldl (redeliver x now) r ds))"
proof (induction ds arbitrary: r)
  case (Cons d ds)
  have m: "moves {d_id d} (deliveries r) (deliveries (redeliver x now r d))"
    using Cons.prems by (intro redeliver_moves) auto
  then have ok: "deliveries_ok (deliveries (redeliver x now r d))"
    and kept: "\<And>d'. d' \<in> set (deliveries r) \<Longrightarrow> d_id d' \<noteq> d_id d \<Longrightarrow> d' \<in> set (deliveries (redeliver x now r d))"
    using Cons.prems(1) by (simp_all add: moves_def)
  have "d_id d' \<noteq> d_id d" if "d' \<in> set ds" for d'
    using Cons.prems(3) that by (auto simp: image_iff)
  then have "set ds \<subseteq> set (deliveries (redeliver x now r d))" using kept Cons.prems(2) by auto
  then have "moves UNIV (deliveries (redeliver x now r d)) (deliveries (foldl (redeliver x now) (redeliver x now r d) ds))"
    using ok Cons.prems by (intro Cons.IH) auto
  then show ?case using moves_UNIV_trans moves_mono [OF m, of UNIV] by auto
qed simp

lemma claimDue_moves:
  assumes ok: "deliveries_ok (deliveries r)" and c: "claimDue n now r = (ds, r')"
  shows "moves UNIV (deliveries r) (deliveries r')" "set ds \<subseteq> set (deliveries r')" "distinct (map d_id ds)"
    "\<forall>d \<in> set ds. \<not> settled_delivery d"
proof -
  define B where "B = take n (order_by d_created_at (filter (due_delivery now) (deliveries r)))"
  define P where "P = (\<lambda>d :: delivery. d_id d \<in> set (map d_id B))"
  define f where "f = (\<lambda>d :: delivery. d\<lparr>d_status := (if d_attempts d = 0 then ''pending'' else ''retrying''), d_updated_at := now\<rparr>)"
  have ds: "ds = map f (filter P (deliveries r))" and r': "deliveries r' = update_where P f (deliveries r)"
    using c by (auto simp: claimDue_def Let_def B_def P_def f_def)
  have B: "set B \<subseteq> {d \<in> set (deliveries r). due_delivery now d}" by (auto simp: B_def dest: in_set_takeD)
  have due: "due_delivery now d" if d: "d \<in> set (deliveries r)" "P d" for d
  proof -
    obtain b where "b \<in> set B" "d_id b = d_id d" using d(2) by (auto simp: P_def)
    then have "b = d" using ok B d(1) by (auto simp: deliveries_ok_def distinct_map inj_on_def)
    then show ?thesis using B \<open>b \<in> set B\<close> by blast
  qed
  have [simp]: "d_id (f d) = d_id d" "delivery_key (f d) = delivery_key d" for d by (simp_all add: f_def delivery_key_def)
  have okd: "delivery_ok d" if "d \<in> set (deliveries r)" for d using ok that by (simp add: deliveries_ok_def list_all_iff)
  have fok: "delivery_ok (f d)" "\<not> settled_delivery (f d)" "\<not> settled_delivery d" if "d \<in> set (deliveries r)" "P d" for d
    using due [OF that] okd [OF that(1)] by (auto simp: due_delivery_def delivery_ok_def settled_delivery_def f_def)
  have maps: "map d_id (deliveries r') = map d_id (deliveries r)" "map delivery_key (deliveries r') = map delivery_key (deliveries r)"
    by (simp_all add: r' update_where_def)
  have "list_all delivery_ok (deliveries r')"
    using fok(1) okd by (auto simp: list_all_iff r' set_update_where)
  moreover have "d \<in> set (deliveries r')" if "d \<in> set (deliveries r)" "settled_delivery d" for d
  proof -
    have "\<not> P d" using fok(3) that by blast
    then show ?thesis using that(1) by (auto simp: r' set_update_where image_iff)
  qed
  ultimately show "moves UNIV (deliveries r) (deliveries r')" using ok maps by (auto simp: moves_def deliveries_ok_def)
  show "set ds \<subseteq> set (deliveries r')" by (auto simp: ds r' set_update_where image_iff)
  have "map d_id ds = filter (\<lambda>i. i \<in> set (map d_id B)) (map d_id (deliveries r))"
    by (simp add: ds P_def filter_map o_def)
  then show "distinct (map d_id ds)" using ok by (simp add: deliveries_ok_def)
  show "\<forall>d \<in> set ds. \<not> settled_delivery d" using fok(2) by (auto simp: ds)
qed

lemma process_due_moves: "moves UNIV (deliveries r) (deliveries (processDueAppLinkDeliveries x now r))"
proof (cases "deliveries_ok (deliveries r)")
  case True
  obtain ds r' where c: "claimDue 25 now r = (ds, r')" by force
  note m = claimDue_moves [OF True c]
  then have "deliveries_ok (deliveries r')" using True by (simp add: moves_def)
  then have "moves UNIV (deliveries r') (deliveries (foldl (redeliver x now) r' ds))"
    using m by (intro redeliver_all_moves)
  then show ?thesis using m(1) moves_UNIV_trans by (simp add: processDueAppLinkDeliveries_def c)
qed (simp add: moves_def)

lemma moves_append:
  assumes "delivery_ok row" "d_id row \<notin> d_id ` set ds" "delivery_key row \<notin> delivery_key ` set ds"
  shows "moves I ds (ds @ [row])"
  using assms by (auto simp: moves_def deliveries_ok_def)

lemma queue_moves:
  assumes "queue_delivery i s v t now r = (q, r')"
  shows "moves UNIV (deliveries r) (deliveries r') \<and>
    (\<forall>d. q = Inr (Some d) \<longrightarrow> d \<in> set (deliveries r') \<and> \<not> settled_delivery d)"
proof -
  let ?row = "\<lparr>d_id = i, d_subscription_id = s, d_source_event_id = v, d_consumer_event_id = None,
    d_status = ''pending'', d_attempts = 0, d_last_attempt_at = None, d_next_retry_at = t, d_last_error = None,
    d_created_at = now, d_updated_at = now\<rparr>"
  consider "r' = r" "\<forall>d. q \<noteq> Inr (Some d)"
    | "r' = r\<lparr>deliveries := deliveries r @ [?row]\<rparr>" "q = Inr (Some ?row)"
      "\<forall>d \<in> set (deliveries r). (d_subscription_id d, d_source_event_id d) \<noteq> (s, v) \<and> d_id d \<noteq> i"
    using assms by (fastforce simp: queue_delivery_def Let_def split: if_splits)
  then show ?thesis
  proof cases
    case 2
    have "moves UNIV (deliveries r) (deliveries r @ [?row])"
      using 2(3) by (intro moves_append) (auto simp: delivery_ok_def delivery_key_def)
    then show ?thesis using 2(1,2) by (simp add: settled_delivery_def)
  qed simp
qed

lemma fan_out_one_moves: "moves UNIV (deliveries r) (deliveries (snd (fan_out_one x e s g now r)))"
proof (cases "deliveries_ok (deliveries r)")
  case True
  obtain q r' where c: "queue_delivery (rx_delivery_id x (su_id s) (v_id e)) (su_id s) (v_id e) None now r = (q, r')" by force
  have m: "moves UNIV (deliveries r) (deliveries r')"
    "\<And>d. q = Inr (Some d) \<Longrightarrow> d \<in> set (deliveries r') \<and> \<not> settled_delivery d"
    using queue_moves [OF c] by blast+
  have ok: "deliveries_ok (deliveries r')" using m(1) True by (simp add: moves_def)
  have "moves UNIV (deliveries r) (deliveries (snd (attempt_delivery x e s g d now r')))" if "q = Inr (Some d)" for d
  proof -
    have "moves {d_id d} (deliveries r') (deliveries (snd (attempt_delivery x e s g d now r')))"
      using m(2) [OF that] ok by (intro attempt_delivery_moves) auto
    then show ?thesis using m(1) moves_UNIV_trans moves_mono by blast
  qed
  then show ?thesis using m(1) by (auto simp: fan_out_one_def c split: sum.split option.split prod.split)
qed (simp add: moves_def)

lemma fan_out_moves: "moves UNIV (deliveries r) (deliveries (snd (fan_out x e rows now r)))"
proof (induction rows arbitrary: r)
  case (Cons row rows)
  obtain s g where row: "row = (s, g)" by force
  obtain q r' where q: "fan_out_one x e s g now r = (q, r')" by force
  have "moves UNIV (deliveries r) (deliveries r')" using fan_out_one_moves [of r x e s g now] q by simp
  then show ?case using Cons.IH [of r'] moves_UNIV_trans by (auto simp: row q split: sum.split prod.split)
qed simp

lemma trigger_all_deliveries [simp]: "deliveries (snd (snd (trigger_all x ms e now r))) = deliveries r"
proof (induction ms arbitrary: r)
  case (Cons m ms)
  obtain q calls r' where q: "triggerMatch x m e now r = (q, calls, r')" by (metis prod_cases3)
  then have "deliveries r' = deliveries r"
    by (auto simp: triggerMatch_def link_result_def split: if_splits option.splits sum.splits)
  then show ?case using Cons.IH [of r'] by (auto simp: q split: sum.split prod.split)
qed simp

lemma processEvent_moves: "moves UNIV (deliveries r) (deliveries (snd (processEvent x now e r)))"
proof -
  have f: "moves UNIV (deliveries r) (deliveries (snd (fanOutAppLinkEvent x e now r)))"
    by (simp add: fanOutAppLinkEvent_def fan_out_moves)
  have "moves UNIV (deliveries r) (deliveries (snd (snd (process_steps x e now r))))"
    using f by (auto simp: process_steps_def save_evaluations_def split: sum.split prod.split)
  then show ?thesis by (auto simp: processEvent_def set_status_def split: sum.split prod.split)
qed

lemma process_all_moves: "moves UNIV (deliveries r) (deliveries (snd (process_all x now es r)))"
proof (induction es arbitrary: r)
  case (Cons e es)
  obtain calls r' where p: "processEvent x now e r = (calls, r')" by force
  have "moves UNIV (deliveries r) (deliveries r')" using processEvent_moves [of r x now e] p by simp
  then show ?case using Cons.IH [of r'] moves_UNIV_trans by (auto simp: p split: prod.split)
qed simp

lemma recover_stale_deliveries [simp]: "deliveries (recover_stale x now r) = deliveries r"
  by (auto simp: recover_stale_def Let_def split: option.split prod.split)

lemma before_claim_moves: "moves UNIV (deliveries r) (deliveries (before_claim x now r))"
proof -
  have "deliveries (if b then recover_stale x now r1 else r1) = deliveries r1" for b r1 by simp
  then show ?thesis using process_due_moves [of _ x now] by (simp only: before_claim_def Let_def) (metis router.select_convs(4) router.surjective router.update_convs(5))
qed

lemma router_tick_moves: "moves UNIV (deliveries r) (deliveries (snd (router_tick x now r)))"
proof -
  have "moves UNIV (deliveries r) (deliveries (snd (process_all x now es (before_claim x now r\<lparr>rw := w'\<rparr>))))" for es w'
    using before_claim_moves [of r x now] moves_UNIV_trans process_all_moves [of "before_claim x now r\<lparr>rw := w'\<rparr>" x now es] by auto
  then show ?thesis using before_claim_moves by (auto simp: router_tick_eq split: option.split prod.split)
qed

subsection \<open>Runs of the router\<close>

text \<open>
  A run interleaves ticks, at any time and with any answers from outside, with changes that other services
  make to everything but the deliveries.
\<close>

inductive router_step :: "router \<Rightarrow> router \<Rightarrow> bool" where
  tick_step: "router_step r (snd (router_tick x now r))"
| other_step: "deliveries r' = deliveries r \<Longrightarrow> router_step r r'"

lemma router_step_moves: "router_step r r' \<Longrightarrow> moves UNIV (deliveries r) (deliveries r')"
  by (induction rule: router_step.induct) (simp_all add: router_tick_moves)

interpretation router_run: run_invariant router_step "\<lambda>r. deliveries_ok (deliveries r)"
  by unfold_locales (use router_step_moves in \<open>auto simp: moves_def\<close>)

lemma router_run_moves: "router_step\<^sup>*\<^sup>* r r' \<Longrightarrow> moves UNIV (deliveries r) (deliveries r')"
  by (induction rule: rtranclp_induct) (auto intro: router_step_moves moves_UNIV_trans)

text \<open>
C20: Deliveries. In every run from an empty table there is at most one delivery per subscription and event; a
delivery is tried at most five times, one that still waits at most four times; and a delivery that has
succeeded or failed never changes again.
\<close>

theorem deliveries_are_bounded:
  assumes "deliveries r0 = []" and "router_step\<^sup>*\<^sup>* r0 r" and "router_step\<^sup>*\<^sup>* r r'"
  shows "distinct (map delivery_key (deliveries r)) \<and>
    (\<forall>d \<in> set (deliveries r). d_attempts d \<le> 5 \<and> (\<not> settled_delivery d \<longrightarrow> d_attempts d \<le> 4) \<and>
       (settled_delivery d \<longrightarrow> d \<in> set (deliveries r')))"
proof -
  have ok: "deliveries_ok (deliveries r)"
    by (rule router_run.run_keeps [OF assms(2)]) (simp add: assms(1) deliveries_ok_def)
  then have "delivery_ok d" if "d \<in> set (deliveries r)" for d using that by (simp add: deliveries_ok_def list_all_iff)
  then have "d_attempts d \<le> 5 \<and> (\<not> settled_delivery d \<longrightarrow> d_attempts d \<le> 4)" if "d \<in> set (deliveries r)" for d
    using that by (fastforce simp: delivery_ok_def settled_delivery_def)
  moreover have "d \<in> set (deliveries r')" if "d \<in> set (deliveries r)" "settled_delivery d" for d
    using router_run_moves [OF assms(3)] ok that by (simp add: moves_def)
  ultimately show ?thesis using ok by (simp add: deliveries_ok_def)
qed

theorem deliveries_are_bounded_witness:
  "let r = snd (router_tick ex_rx 7 ex_router) in map d_status (deliveries r) = [''success''] \<and>
     set (deliveries r) \<subseteq> set (deliveries (snd (router_tick ex_rx 9 r)))"
proof -
  define r where "r = snd (router_tick ex_rx 7 ex_router)"
  have "map d_status (deliveries (snd (router_tick ex_rx 7 ex_router))) = [''success'']" by code_simp
  then have s: "map d_status (deliveries r) = [''success'']" by (simp add: r_def)
  have "deliveries ex_router = []" by (simp add: ex_router_def)
  moreover have "router_step\<^sup>*\<^sup>* ex_router r" "router_step\<^sup>*\<^sup>* r (snd (router_tick ex_rx 9 r))"
    unfolding r_def by (rule r_into_rtranclp, rule tick_step)+
  ultimately have "\<forall>d \<in> set (deliveries r). settled_delivery d \<longrightarrow> d \<in> set (deliveries (snd (router_tick ex_rx 9 r)))"
    using deliveries_are_bounded by blast
  moreover have "settled_delivery d" if "d \<in> set (deliveries r)" for d
  proof -
    have "d_status d \<in> set (map d_status (deliveries r))" using that by simp
    then show ?thesis by (simp add: s settled_delivery_def)
  qed
  ultimately show ?thesis using s by (auto simp: Let_def r_def)
qed

subsection \<open>A failed trigger\<close>

lemma trigger_all_fails:
  "trigger_all x ms1 e now r = (Inr u, calls1, r1) \<Longrightarrow> triggerMatch x m e now r1 = (Inl err, calls2, r2) \<Longrightarrow>
   trigger_all x (ms1 @ m # ms2) e now r = (Inl err, calls1 @ calls2, r2)"
  by (induction ms1 arbitrary: r calls1) (auto split: sum.splits prod.splits)

text \<open>
  A trigger that fails ends the event, although a comment in the code says that the other matches are still processed. When the call
  for one match fails, the calls for the matches behind it are not made, and the event is marked as failed, a status the claim of
  pending events does not select.
\<close>

theorem failed_trigger_drops_the_rest:
  assumes "matchTriggersForEvent (rx_manifest x) e = Inr (ms1 @ m # ms2, evs)"
    and "fanOutAppLinkEvent x e now r = (Inr linkEvs, r')"
    and "trigger_all x ms1 e now (save_evaluations e (ms1 @ m # ms2) evs linkEvs now r') = (Inr u, calls1, r1)"
    and "triggerMatch x m e now r1 = (Inl err, calls2, r2)"
  shows "fst (processEvent x now e r) = calls1 @ calls2 \<and> length calls2 \<le> 1 \<and>
    (\<forall>row \<in> set (events (rw (snd (processEvent x now e r)))). v_id row = v_id e \<longrightarrow> v_status row = ''failed'') \<and>
    (\<forall>row \<in> set (pending_batch n (rw (snd (processEvent x now e r)))). v_id row \<noteq> v_id e)"
proof -
  have "process_steps x e now r = (Inl err, calls1 @ calls2, r2)"
    using assms trigger_all_fails by (simp add: process_steps_def)
  then have p: "processEvent x now e r =
      (calls1 @ calls2, set_status e ''failed'' now (r2\<lparr>r_eventsFailed := Suc (r_eventsFailed r2)\<rparr>))"
    by (simp add: processEvent_def)
  have "length calls2 \<le> 1" using assms(4) by (auto simp: triggerMatch_def split: if_splits option.splits sum.splits)
  moreover have st: "v_status row = ''failed''"
    if "row \<in> set (events (rw (snd (processEvent x now e r))))" "v_id row = v_id e" for row
    using that by (auto simp: p set_status_world updateEventStatus_def update_event_def set_update_where)
  moreover have "row \<in> set (events w) \<and> v_status row = ''pending''" if "row \<in> set (pending_batch n w)" for row w
    using that by (auto simp: pending_batch_def dest: in_set_takeD)
  ultimately show ?thesis by (fastforce simp: p)
qed

definition ex_refusing :: router_ext where
  "ex_refusing = ex_rx\<lparr>rx_api := (\<lambda>_. Inl ''Trigger API failed'')\<rparr>"

definition ex_refused :: "trigger_match list \<times> evaluation list" where
  "ex_refused = projr (matchTriggersForEvent ex_manifest ex_push)"

theorem failed_trigger_drops_the_rest_witness:
  "length (fst ex_refused) = 2 \<and> length (fst (processEvent ex_refusing 7 ex_push ex_router)) \<le> 1 \<and>
   list_all (\<lambda>row. v_status row = ''failed'')
     (filter (\<lambda>row. v_id row = ''ev1'') (events (rw (snd (processEvent ex_refusing 7 ex_push ex_router)))))"
proof -
  have "isl (matchTriggersForEvent ex_manifest ex_push) = False" "length (fst ex_refused) = 2" by code_simp+
  then obtain m m' evs where m: "matchTriggersForEvent (rx_manifest ex_refusing) ex_push = Inr ([] @ m # [m'], evs)"
    and len: "length (fst ex_refused) = 2"
    by (cases "matchTriggersForEvent ex_manifest ex_push")
      (auto simp: ex_refused_def ex_refusing_def ex_rx_def length_Suc_conv numeral_2_eq_2)
  have "\<not> isl (fst (fanOutAppLinkEvent ex_refusing ex_push 7 ex_router))" by code_simp
  then obtain l r' where f: "fanOutAppLinkEvent ex_refusing ex_push 7 ex_router = (Inr l, r')"
    by (cases "fanOutAppLinkEvent ex_refusing ex_push 7 ex_router"; cases "fst (fanOutAppLinkEvent ex_refusing ex_push 7 ex_router)") auto
  have c: "isl (fst (triggerMatch ex_refusing k ex_push 7 r1))" for k r1
    by (cases "tm_type k") (simp_all add: triggerMatch_def trigger_call_def ex_refusing_def ex_rx_def ex_push_def
        ex_failure_event_def truthy_string_def Let_def)
  let ?r1 = "save_evaluations ex_push ([] @ m # [m']) evs l 7 r'"
  obtain err calls r2 where t: "triggerMatch ex_refusing m ex_push 7 ?r1 = (Inl err, calls, r2)"
    using c [of m ?r1] by (cases "triggerMatch ex_refusing m ex_push 7 ?r1") (auto simp: isl_def)
  have "v_id ex_push = ''ev1''" by code_simp
  then show ?thesis using failed_trigger_drops_the_rest [OF m f _ t, of "()" "[]"] len by (simp add: list_all_iff)
qed

end
