(* ===== verification/Overlay.thy ===== *)
theory Overlay
  imports Dispatch
begin

section \<open>Configuration overlays\<close>

text \<open>
  \<^verbatim>\<open>packages/shared/src/lib/overlay-merge.ts\<close>: the merge of agent-pack configurations with the overlay of a
  project. Objects are association lists in the order of their keys, \<^verbatim>\<open>undefined\<close> is \<open>None\<close>; the key
  \<^verbatim>\<open>__proto__\<close> does not occur.
\<close>

subsection \<open>Deep merge\<close>

fun deepMerge :: "json \<Rightarrow> json \<Rightarrow> json option"
  and merge_fields :: "jobject \<Rightarrow> jobject \<Rightarrow> jobject" where
  "deepMerge base JNull = None"
| "deepMerge (JObj b) (JObj ov) = Some (JObj (merge_fields b ov))"
| "deepMerge base ov = Some ov"
| "merge_fields result [] = result"
| "merge_fields result (f # ov) =
     (if snd f = JNull then merge_fields (obj_del (fst f) result) ov
      else case obj_get result (fst f) of
        Some old \<Rightarrow> (case deepMerge old (snd f) of
            Some v \<Rightarrow> merge_fields (obj_set (fst f) v result) ov
          | None \<Rightarrow> merge_fields (obj_del (fst f) result) ov)
      | None \<Rightarrow> merge_fields (obj_set (fst f) (snd f) result) ov)"

definition merge_objects :: "jobject \<Rightarrow> jobject \<Rightarrow> jobject" where
  "merge_objects b ov = (case deepMerge (JObj b) (JObj ov) of Some (JObj m) \<Rightarrow> m | _ \<Rightarrow> [])"

subsection \<open>Agents, teams, routes and x-eve\<close>

definition extractMap :: "jobject \<Rightarrow> jobject" where
  "extractMap cfg = obj_del ''version'' cfg"

definition nullish_or :: "json option \<Rightarrow> json option \<Rightarrow> json option" where
  "nullish_or v w = (if v = None \<or> v = Some JNull then w else v)"

definition mergeMapConfig :: "jobject \<Rightarrow> jobject \<Rightarrow> jobject" where
  "mergeMapConfig base ov =
     (let merged = merge_objects (extractMap base) (extractMap ov)
      in (case nullish_or (obj_get ov ''version'') (obj_get base ''version'') of
            Some v \<Rightarrow> obj_set ''version'' v [] | None \<Rightarrow> []) @ merged)"

text \<open>Routes are kept in a \<^verbatim>\<open>Map\<close> from the value of their field \<^verbatim>\<open>id\<close>.\<close>

definition route_id :: "jobject \<Rightarrow> json option" where
  "route_id r = obj_get r ''id''"

definition apply_route :: "(json option \<times> jobject) list \<Rightarrow> jobject \<Rightarrow> (json option \<times> jobject) list" where
  "apply_route result route =
     (if json_truthy (obj_get route ''_remove'') then map_delete (route_id route) result
      else case map_of result (route_id route) of
        Some old \<Rightarrow> map_set (route_id route) (merge_objects old route) result
      | None \<Rightarrow> map_set (route_id route) route result)"

definition mergeRoutes :: "jobject list \<Rightarrow> jobject list \<Rightarrow> jobject list" where
  "mergeRoutes base ov =
     map snd (foldl apply_route (foldl (\<lambda>m r. map_set (route_id r) r m) [] base) ov)"

text \<open>A chat configuration: its field \<^verbatim>\<open>routes\<close> and the others.\<close>

record chat_config =
  cc_routes :: "jobject list option"
  cc_rest :: jobject

definition mergeChatConfig :: "chat_config \<Rightarrow> chat_config \<Rightarrow> chat_config" where
  "mergeChatConfig base ov =
     \<lparr>cc_routes = Some (mergeRoutes (case_option [] id (cc_routes base)) (case_option [] id (cc_routes ov))),
      cc_rest = merge_objects (cc_rest base) (cc_rest ov)\<rparr>"

definition mergeXEve :: "jobject list \<Rightarrow> jobject \<Rightarrow> jobject" where
  "mergeXEve packFragments projectXEve = merge_objects (foldl merge_objects [] packFragments) projectXEve"

record merge_input =
  mi_agents :: jobject
  mi_teams :: jobject
  mi_chat :: chat_config
  mi_xEve :: jobject

record merge_overlay =
  mo_agents :: "jobject option"
  mo_teams :: "jobject option"
  mo_chat :: "chat_config option"
  mo_xEve :: "jobject option"

definition mergeConfigs :: "merge_input \<Rightarrow> merge_overlay \<Rightarrow> merge_input" where
  "mergeConfigs base ov =
     \<lparr>mi_agents = (case mo_agents ov of Some a \<Rightarrow> mergeMapConfig (mi_agents base) a | None \<Rightarrow> mi_agents base),
      mi_teams = (case mo_teams ov of Some a \<Rightarrow> mergeMapConfig (mi_teams base) a | None \<Rightarrow> mi_teams base),
      mi_chat = (case mo_chat ov of Some c \<Rightarrow> mergeChatConfig (mi_chat base) c | None \<Rightarrow> mi_chat base),
      mi_xEve = (case mo_xEve ov of Some x \<Rightarrow> merge_objects (mi_xEve base) x | None \<Rightarrow> mi_xEve base)\<rparr>"

end
