(* ===== verification/Overlay_Properties.thy ===== *)
theory Overlay_Properties
  imports Overlay
begin

section \<open>Properties of configuration overlays\<close>

text \<open>The deep merge against the merge patch of RFC 7396, and the upsert of chat routes by id.\<close>

subsection \<open>JSON merge patch\<close>

text \<open>The merge of RFC 7396, as its section 2 gives it: the target may be absent.\<close>

definition obj_or_empty :: "json option \<Rightarrow> jobject" where
  "obj_or_empty t = (case t of Some (JObj kvs) \<Rightarrow> kvs | _ \<Rightarrow> [])"

fun rfc_merge :: "json option \<Rightarrow> json \<Rightarrow> json"
  and rfc_fields :: "jobject \<Rightarrow> jobject \<Rightarrow> jobject" where
  "rfc_merge t (JObj p) = JObj (rfc_fields (obj_or_empty t) p)"
| "rfc_merge t p = p"
| "rfc_fields t [] = t"
| "rfc_fields t (f # p) =
     (if snd f = JNull then rfc_fields (obj_del (fst f) t) p
      else rfc_fields (obj_set (fst f) (rfc_merge (obj_get t (fst f)) (snd f)) t) p)"

fun distinct_keys :: "json \<Rightarrow> bool" where
  "distinct_keys (JObj kvs) = (distinct (map fst kvs) \<and> list_all (\<lambda>f. distinct_keys (snd f)) kvs)"
| "distinct_keys v = True"

fun null_free :: "json \<Rightarrow> bool" where
  "null_free (JObj kvs) = list_all (\<lambda>f. snd f \<noteq> JNull \<and> null_free (snd f)) kvs"
| "null_free v = True"

text \<open>Nulls of the overlay stand only in objects that meet an object of the base.\<close>

fun clean :: "json option \<Rightarrow> json \<Rightarrow> bool" where
  "clean (Some (JObj b)) (JObj ov) = list_all (\<lambda>f. snd f = JNull \<or> clean (obj_get b (fst f)) (snd f)) ov"
| "clean t v = null_free v"

lemma clean_None: "clean None v = null_free v"
  by (cases v) auto

lemma rfc_null_free:
  "t = None \<Longrightarrow> null_free v \<Longrightarrow> distinct_keys v \<Longrightarrow> rfc_merge t v = v"
  "null_free (JObj p) \<Longrightarrow> distinct_keys (JObj p) \<Longrightarrow> fst ` set t' \<inter> fst ` set p = {} \<Longrightarrow> rfc_fields t' p = t' @ p"
proof (induction t v and t' p rule: rfc_merge_rfc_fields.induct, goal_cases)
  case (8 t f p)
  obtain k v where f: "f = (k, v)" by force
  have "obj_get t k = None" using 8(6) by (auto simp: f obj_get_eq_None)
  moreover have "obj_set k v t = t @ [f]" using 8(6) by (auto simp: f obj_set_def)
  moreover have "fst ` set (t @ [f]) \<inter> fst ` set p = {}" using 8(5,6) by (auto simp: f)
  ultimately show ?case using 8 by (simp add: f)
qed (auto simp: obj_or_empty_def)

lemma rfc_fresh:
  assumes "null_free (JObj p)" "distinct_keys (JObj p)"
  shows "rfc_fields [] p = p"
  using rfc_null_free(2) [OF assms, of "[]"] by simp

lemma obj_get_other: "obj_get (obj_set k v t) k' = obj_get t k'" "obj_get (obj_del k t) k' = obj_get t k'" if "k' \<noteq> k"
  using that by (simp_all add: obj_get_set obj_get_del)

lemma deepMerge_rfc:
  "ov \<noteq> JNull \<Longrightarrow> distinct_keys ov \<Longrightarrow> clean (Some b) ov \<Longrightarrow> deepMerge b ov = Some (rfc_merge (Some b) ov)"
  "distinct (map fst p) \<Longrightarrow> list_all (\<lambda>f. distinct_keys (snd f)) p \<Longrightarrow>
   list_all (\<lambda>f. snd f = JNull \<or> clean (obj_get t (fst f)) (snd f)) p \<Longrightarrow> merge_fields t p = rfc_fields t p"
proof (induction b ov and t p rule: deepMerge_merge_fields.induct, goal_cases)
  case (13 t f p)
  obtain k v where f: "f = (k, v)" by force
  have rest: "distinct (map fst p)" "list_all (\<lambda>f. distinct_keys (snd f)) p" "\<And>g. g \<in> set p \<Longrightarrow> fst g \<noteq> k"
    using 13(6,7) by (auto simp: f)
  have "list_all (\<lambda>g. snd g = JNull \<or> clean (obj_get t' (fst g)) (snd g)) p"
    if "\<And>k'. k' \<noteq> k \<Longrightarrow> obj_get t' k' = obj_get t k'" for t'
    using 13(8) that rest(3) by (auto simp: f list_all_iff)
  note keep = this [OF obj_get_other(1)] this [OF obj_get_other(2)]
  show ?case
  proof (cases "v = JNull")
    case True
    then show ?thesis using 13(1) rest keep by (simp add: f)
  next
    case False
    show ?thesis
    proof (cases "obj_get t k")
      case None
      have "rfc_merge None v = v" using 13(7,8) None False by (intro rfc_null_free(1)) (auto simp: f clean_None)
      then show ?thesis using 13(2) rest keep None False by (simp add: f)
    next
      case (Some old)
      have "deepMerge old v = Some (rfc_merge (Some old) v)" using 13(3) 13(7,8) Some False by (simp add: f)
      then show ?thesis using 13(5) rest keep Some False by (simp add: f)
    qed
  qed
qed (auto simp: rfc_fresh obj_or_empty_def)

lemma merge_objects_eq: "merge_objects b ov = merge_fields b ov"
  by (simp add: merge_objects_def)

lemma get_merge_fields:
  "distinct (map fst ov) \<Longrightarrow> obj_get (merge_fields b ov) k =
     (case obj_get ov k of None \<Rightarrow> obj_get b k
      | Some v \<Rightarrow> if v = JNull then None else case obj_get b k of None \<Rightarrow> Some v | Some old \<Rightarrow> deepMerge old v)"
proof (induction ov arbitrary: b)
  case (Cons f ov)
  obtain k0 v where f: "f = (k0, v)" by force
  have "obj_get ov k0 = None" using Cons.prems by (simp add: f obj_get_eq_None)
  then show ?case using Cons
    by (auto simp: f obj_get_set obj_get_del split: option.split)
qed simp

lemma get_rfc_fields:
  "distinct (map fst p) \<Longrightarrow> obj_get (rfc_fields t p) k = (case obj_get p k of None \<Rightarrow> obj_get t k
     | Some v \<Rightarrow> if v = JNull then None else Some (rfc_merge (obj_get t k) v))"
proof (induction p arbitrary: t)
  case (Cons f p)
  obtain k0 v where f: "f = (k0, v)" by force
  have "obj_get p k0 = None" using Cons.prems by (simp add: f obj_get_eq_None)
  then show ?case using Cons by (auto simp: f obj_get_set obj_get_del split: option.split)
qed simp

text \<open>What the RFC makes of a value for a new key holds no null below an object.\<close>

lemma rfc_result_null_free:
  "t = None \<Longrightarrow> distinct_keys v \<Longrightarrow> null_free (rfc_merge t v)"
  "null_free (JObj t') \<Longrightarrow> distinct_keys (JObj p) \<Longrightarrow> fst ` set t' \<inter> fst ` set p = {} \<Longrightarrow> null_free (JObj (rfc_fields t' p))"
proof (induction t v and t' p rule: rfc_merge_rfc_fields.induct, goal_cases)
  case (8 t f p)
  obtain k v where f: "f = (k, v)" by force
  have none: "obj_get t k = None" using 8(6) by (auto simp: f obj_get_eq_None)
  show ?case
  proof (cases "v = JNull")
    case True
    have "obj_del k t = t" using none by (force simp: obj_del_def obj_get_eq_None intro: filter_True)
    then show ?thesis using 8(1,4-6) True by (simp add: f)
  next
    case False
    have v: "null_free (rfc_merge None v)" using 8(2,5) False none by (simp add: f)
    moreover have "rfc_merge None v \<noteq> JNull" using False by (cases v) simp_all
    moreover have "obj_set k (rfc_merge None v) t = t @ [(k, rfc_merge None v)]" using 8(6) by (auto simp: f obj_set_def)
    ultimately show ?thesis using 8(3-6) False none by (auto simp: f)
  qed
qed (auto simp: obj_or_empty_def)

lemma deepMerge_rfc_clean:
  "distinct_keys v \<Longrightarrow> deepMerge b v = Some (rfc_merge (Some b) v) \<Longrightarrow> clean (Some b) v"
proof (induction v arbitrary: b)
  case (JObj ov)
  show ?case
  proof (cases "\<exists>kvs. b = JObj kvs")
    case True
    then obtain kvs where b: "b = JObj kvs" by blast
    have d: "distinct (map fst ov)" using JObj.prems(1) by simp
    have eq: "obj_get (merge_fields kvs ov) k = obj_get (rfc_fields kvs ov) k" for k
      using JObj.prems(2) by (simp add: b obj_or_empty_def)
    have "snd f = JNull \<or> clean (obj_get kvs (fst f)) (snd f)" if f: "f \<in> set ov" for f
    proof (rule ccontr)
      assume bad: "\<not> (snd f = JNull \<or> clean (obj_get kvs (fst f)) (snd f))"
      have get: "obj_get ov (fst f) = Some (snd f)" using f d by (simp add: obj_get_def)
      have dk: "distinct_keys (snd f)" using JObj.prems(1) f by (simp add: list_all_iff)
      show False
      proof (cases "obj_get kvs (fst f)")
        case None
        then have "snd f = rfc_merge None (snd f)"
          using eq [of "fst f"] get bad by (simp add: get_merge_fields [OF d] get_rfc_fields [OF d])
        then have "null_free (snd f)" using rfc_result_null_free(1) [OF refl dk] by simp
        then show False using bad None by (simp add: clean_None)
      next
        case (Some old)
        then have "deepMerge old (snd f) = Some (rfc_merge (Some old) (snd f))"
          using eq [of "fst f"] get bad by (simp add: get_merge_fields [OF d] get_rfc_fields [OF d])
        then have "clean (Some old) (snd f)" using JObj.IH [OF f _ dk] by (cases f) auto
        then show False using bad Some by simp
      qed
    qed
    then show ?thesis by (simp add: b list_all_iff)
  next
    case False
    then have "deepMerge b (JObj ov) = Some (JObj ov)" "obj_or_empty (Some b) = []" "clean (Some b) (JObj ov) = null_free (JObj ov)"
      by (cases b; simp add: obj_or_empty_def)+
    then have "JObj ov = rfc_merge None (JObj ov)" using JObj.prems(2) by (simp add: obj_or_empty_def)
    then have "null_free (JObj ov)" using rfc_result_null_free(1) [OF refl JObj.prems(1)] by metis
    then show ?thesis using False by (cases b) simp_all
  qed
qed (cases b; simp)+

text \<open>
C23: how far the overlay of a configuration is a JSON merge patch. The keys of an object are distinct, as those of a JavaScript object are. The merge of an object
  overlay into an object gives what RFC 7396 gives exactly when no null of the overlay stands inside an object value for a key that is new to
  the base or holds no object there.
\<close>

theorem overlay_follows_rfc7396:
  assumes "distinct_keys (JObj ov)"
  shows "deepMerge (JObj b) (JObj ov) = Some (rfc_merge (Some (JObj b)) (JObj ov)) \<longleftrightarrow> clean (Some (JObj b)) (JObj ov)"
  using deepMerge_rfc(1) [of "JObj ov" "JObj b"] deepMerge_rfc_clean [OF assms, of "JObj b"] assms by blast

theorem overlay_follows_rfc7396_witness:
  "deepMerge (JObj [(''a'', JObj [(''x'', JNum 1), (''y'', JNum 2)])]) (JObj [(''a'', JObj [(''x'', JNull), (''z'', JStr ''v'')])]) =
     Some (rfc_merge (Some (JObj [(''a'', JObj [(''x'', JNum 1), (''y'', JNum 2)])])) (JObj [(''a'', JObj [(''x'', JNull), (''z'', JStr ''v'')])]))"
proof -
  have "clean (Some (JObj [(''a'', JObj [(''x'', JNum 1), (''y'', JNum 2)])]))
      (JObj [(''a'', JObj [(''x'', JNull), (''z'', JStr ''v'')])])"
    by code_simp
  moreover have "distinct_keys (JObj [(''a'', JObj [(''x'', JNull), (''z'', JStr ''v'')])])" by code_simp
  ultimately show ?thesis using overlay_follows_rfc7396 by blast
qed

text \<open>Below a new key the nulls of the overlay stay, where the RFC drops them.\<close>

lemma new_key_keeps_nulls:
  "deepMerge (JObj []) (JObj [(''n'', JObj [(''x'', JNull)])]) = Some (JObj [(''n'', JObj [(''x'', JNull)])]) \<and>
   rfc_merge (Some (JObj [])) (JObj [(''n'', JObj [(''x'', JNull)])]) = JObj [(''n'', JObj [])]"
  by code_simp

subsection \<open>Routes\<close>

definition route_at :: "jobject list \<Rightarrow> string \<Rightarrow> jobject option" where
  "route_at rs i = find (\<lambda>r. route_id r = Some (JStr i)) rs"

definition named_routes :: "jobject list \<Rightarrow> bool" where
  "named_routes rs = (list_all (\<lambda>r. distinct_keys (JObj r) \<and> (case route_id r of Some (JStr s) \<Rightarrow> True | _ \<Rightarrow> False)) rs \<and>
     distinct (map route_id rs))"

definition keyed :: "(json option \<times> jobject) list \<Rightarrow> bool" where
  "keyed m = (distinct (map fst m) \<and> list_all (\<lambda>(k, r). route_id r = k) m)"

lemma keyed_at: "keyed m \<Longrightarrow> route_at (map snd m) i = map_of m (Some (JStr i))"
  by (induction m) (auto simp: keyed_def route_at_def)

lemma keyed_set: "keyed m \<Longrightarrow> route_id r = k \<Longrightarrow> keyed (map_set k r m)"
  by (auto simp: keyed_def map_set_keys list_all_iff map_has_def) (auto simp: map_set_def map_has_def split: if_splits)

lemma keyed_delete: "keyed m \<Longrightarrow> keyed (map_delete k m)"
  by (auto simp: keyed_def distinct_map_delete list_all_iff) (auto simp: map_delete_def)

lemma map_of_map_set: "map_of (map_set k v m) k' = (if k' = k then Some v else map_of m k')"
proof -
  have "map_of (map (\<lambda>(k', v'). if k' = k then (k, v) else (k', v')) m) k' =
      (if k' = k \<and> k \<in> fst ` set m then Some v else map_of m k')"
  proof (induction m)
    case (Cons p m)
    then show ?case by (cases p; cases "k' = k") simp_all
  qed simp
  moreover have "map_of m k = None" if "\<not> map_has k m" using that by (simp add: map_has_def map_of_eq_None_iff)
  moreover have "map_of (m @ [(k, v)]) k' = (case map_of m k' of None \<Rightarrow> if k' = k then Some v else None | Some w \<Rightarrow> Some w)"
    by (induction m) auto
  ultimately show ?thesis
    by (cases "k' = k"; cases "map_has k m")
      (simp_all add: map_set_def map_has_def del: map_of_append split: option.split)
qed

lemma map_of_map_delete: "map_of (map_delete k m) k' = (if k' = k then None else map_of m k')"
  by (induction m) (auto simp: map_delete_def)

lemma merged_route_id:
  assumes "distinct_keys (JObj r)" "route_id r = Some (JStr s)"
  shows "route_id (merge_objects old r) = Some (JStr s)"
  using assms get_merge_fields [of r old "''id''"] by (simp add: route_id_def merge_objects_eq split: option.split)

lemma keyed_apply:
  assumes "keyed m" "distinct_keys (JObj r)" "route_id r = Some (JStr s)"
  shows "keyed (apply_route m r)"
  using assms by (auto simp: apply_route_def keyed_set keyed_delete merged_route_id split: option.split)

definition upsert :: "jobject option \<Rightarrow> jobject \<Rightarrow> jobject option" where
  "upsert old r = (if json_truthy (obj_get r ''_remove'') then None
     else case old of None \<Rightarrow> Some r | Some b \<Rightarrow> Some (merge_objects b r))"

lemma get_apply: "map_of (apply_route m r) k = (if k = route_id r then upsert (map_of m k) r else map_of m k)"
  by (auto simp: apply_route_def upsert_def map_of_map_set map_of_map_delete split: option.split)

lemma routes_fold:
  assumes "keyed m" "named_routes ov"
  shows "keyed (foldl apply_route m ov) \<and> map_of (foldl apply_route m ov) (Some (JStr i)) =
    (case route_at ov i of None \<Rightarrow> map_of m (Some (JStr i)) | Some r \<Rightarrow> upsert (map_of m (Some (JStr i))) r)"
  using assms
proof (induction ov arbitrary: m)
  case (Cons r ov)
  obtain s where s: "route_id r = Some (JStr s)" "distinct_keys (JObj r)"
    using Cons.prems(2) by (auto simp: named_routes_def split: option.splits json.splits)
  have "keyed (apply_route m r)" using keyed_apply Cons.prems(1) s by blast
  moreover have "named_routes ov" using Cons.prems(2) by (simp add: named_routes_def)
  moreover have "route_at ov s = None" using Cons.prems(2) s(1)
    by (force simp: named_routes_def route_at_def find_None_iff)
  ultimately show ?case using Cons.IH [of "apply_route m r"] s(1)
    by (auto simp: get_apply route_at_def split: option.split)
qed (simp add: route_at_def)

lemma base_map:
  "keyed m \<Longrightarrow> named_routes rs \<Longrightarrow> keyed (foldl (\<lambda>m r. map_set (route_id r) r m) m rs) \<and>
   map_of (foldl (\<lambda>m r. map_set (route_id r) r m) m rs) (Some (JStr i)) =
     (case route_at rs i of None \<Rightarrow> map_of m (Some (JStr i)) | Some r \<Rightarrow> Some r)"
proof (induction rs arbitrary: m)
  case (Cons r rs)
  obtain s where s: "route_id r = Some (JStr s)"
    using Cons.prems(2) by (auto simp: named_routes_def split: option.splits json.splits)
  have "keyed (map_set (route_id r) r m)" using keyed_set Cons.prems(1) by blast
  moreover have "named_routes rs" using Cons.prems(2) by (simp add: named_routes_def)
  moreover have "route_at rs s = None" using Cons.prems(2) s
    by (force simp: named_routes_def route_at_def find_None_iff)
  ultimately show ?case using Cons.IH [of "map_set (route_id r) r m"] s
    by (auto simp: map_of_map_set route_at_def split: option.split)
qed (simp add: route_at_def)

text \<open>
merging chat routes is an upsert by id. For lists of routes with distinct ids, the route of an id afterwards is
  the base's when the overlay does not name the id, nothing when the overlay's entry has \<^verbatim>\<open>_remove\<close>, the deep
  merge of the two when the base has the id, and the overlay's entry otherwise; the ids stay distinct.
\<close>

theorem routes_are_upserted:
  assumes "named_routes base" "named_routes ov"
  shows "distinct (map route_id (mergeRoutes base ov)) \<and>
    route_at (mergeRoutes base ov) i =
      (case route_at ov i of None \<Rightarrow> route_at base i
       | Some r \<Rightarrow> if json_truthy (obj_get r ''_remove'') then None
           else case route_at base i of None \<Rightarrow> Some r | Some b \<Rightarrow> Some (merge_objects b r))"
proof -
  let ?m = "foldl (\<lambda>m r. map_set (route_id r) r m) [] base"
  have e: "keyed []" by (simp add: keyed_def)
  have b: "keyed ?m" "map_of ?m (Some (JStr i)) = route_at base i" for i
    using base_map [OF e assms(1), of i] by (auto split: option.split)
  have r: "keyed (foldl apply_route ?m ov)"
    "map_of (foldl apply_route ?m ov) (Some (JStr i)) =
      (case route_at ov i of None \<Rightarrow> route_at base i | Some r \<Rightarrow> upsert (route_at base i) r)" for i
    using routes_fold [OF b(1) assms(2), of i] unfolding b(2) by auto
  have "map route_id (map snd m) = map fst m" if "list_all (\<lambda>(k, r). route_id r = k) m" for m
    using that by (induction m) auto
  then have "distinct (map route_id (mergeRoutes base ov))"
    using r(1) by (simp add: mergeRoutes_def keyed_def del: map_map)
  then show ?thesis
    using keyed_at [OF r(1)] r(2) [of i] by (simp add: mergeRoutes_def upsert_def split: option.split)
qed

theorem routes_are_upserted_witness:
  "route_at (mergeRoutes [[(''id'', JStr ''a''), (''t'', JNum 1)], [(''id'', JStr ''b'')]]
      [[(''id'', JStr ''b''), (''_remove'', JBool True)], [(''id'', JStr ''a''), (''u'', JNum 2)]]) ''a'' =
    Some [(''id'', JStr ''a''), (''t'', JNum 1), (''u'', JNum 2)]"
proof -
  let ?b = "[[(''id'', JStr ''a''), (''t'', JNum 1)], [(''id'', JStr ''b'')]]"
  let ?o = "[[(''id'', JStr ''b''), (''_remove'', JBool True)], [(''id'', JStr ''a''), (''u'', JNum 2)]]"
  have h: "named_routes ?b" "named_routes ?o" by code_simp+
  have "route_at ?b ''a'' = Some [(''id'', JStr ''a''), (''t'', JNum 1)]"
    "route_at ?o ''a'' = Some [(''id'', JStr ''a''), (''u'', JNum 2)]"
    "json_truthy (obj_get [(''id'', JStr ''a''), (''u'', JNum 2)] ''_remove'') = False"
    "merge_objects [(''id'', JStr ''a''), (''t'', JNum 1)] [(''id'', JStr ''a''), (''u'', JNum 2)] =
      [(''id'', JStr ''a''), (''t'', JNum 1), (''u'', JNum 2)]"
    by code_simp+
  then show ?thesis using routes_are_upserted [OF h, of "''a''"] by simp
qed

end
