(* ===== verification/Scope_Properties.thy ===== *)
theory Scope_Properties
  imports Access_Scopes
begin

section \<open>Properties of resource scopes\<close>

text \<open>What path patterns match, what a prefix scope lets through, and that merging scopes only narrows them.\<close>

subsection \<open>Regular expressions\<close>

lemma rx_literal: "rx_test (map Chr p @ r) t \<longleftrightarrow> (\<exists>u. t = p @ u \<and> rx_test r u)"
proof (induction p arbitrary: t)
  case (Cons c p)
  then show ?case by (cases t) auto
qed simp

lemma rx_seg_end: "rx_test [Seg_star] t \<longleftrightarrow> CHR ''/'' \<notin> set t"
  by (induction t) auto

lemma rx_any_end: "rx_test [Any_star] t \<longleftrightarrow> list_all (\<lambda>c. \<not> line_terminator c) t"
  by (induction t) auto

lemma source_literal:
  "CHR ''*'' \<notin> set p \<Longrightarrow> wildcardPathToRegExpSource (p @ CHR ''*'' # q) = map Chr p @ wildcardPathToRegExpSource (CHR ''*'' # q)"
proof (induction p)
  case (Cons c p)
  then show ?case by (cases p) auto
qed simp

subsection \<open>Normal paths\<close>

definition normal_path :: "string \<Rightarrow> bool" where
  "normal_path p = (normalizeScopedPath p = p)"

fun no_double :: "string \<Rightarrow> bool" where
  "no_double (c # d # cs) = (\<not> (c = CHR ''/'' \<and> d = CHR ''/'') \<and> no_double (d # cs))"
| "no_double _ = True"

lemma collapse_id: "no_double p \<Longrightarrow> collapse_slashes p = p"
  by (induction p rule: no_double.induct) auto

lemma collapse_Cons: "\<exists>r. collapse_slashes (c # cs) = c # r"
  by (induction "c # cs" arbitrary: c cs rule: collapse_slashes.induct) auto

lemma no_double_collapse: "no_double (collapse_slashes p)"
proof (induction p rule: collapse_slashes.induct)
  case (3 c d cs)
  then show ?case using collapse_Cons [of d cs] by auto
qed auto

lemma last_collapse: "p \<noteq> [] \<Longrightarrow> last (collapse_slashes p) = last p"
proof (induction p rule: collapse_slashes.induct)
  case (3 c d cs)
  then show ?case using collapse_Cons [of d cs] by auto
qed auto

lemma slash_not_space: "\<not> is_space (CHR ''/'')" "\<not> is_space (CHR ''*'')"
  by (simp_all add: is_space_def)

lemma trimmed_last: "js_trim p \<noteq> [] \<Longrightarrow> \<not> is_space (last (js_trim p))"
  by (metis js_trim_def hd_dropWhile last_rev rev_is_Nil_conv)

lemma normalized_form:
  "starts_with ''/'' (normalizeScopedPath p) \<and> no_double (normalizeScopedPath p) \<and> \<not> is_space (last (normalizeScopedPath p))"
proof (cases "js_trim p = []")
  case True
  then show ?thesis by (simp add: normalizeScopedPath_def starts_with_def slash_not_space)
next
  case False
  define s where "s = (if starts_with ''/'' (js_trim p) then js_trim p else ''/'' @ js_trim p)"
  have e: "normalizeScopedPath p = collapse_slashes s" using False by (simp add: normalizeScopedPath_def s_def Let_def)
  obtain r where r: "s = CHR ''/'' # r"
    by (cases "starts_with ''/'' (js_trim p)") (auto simp: s_def starts_with_iff)
  have "last s = last (js_trim p)" using False by (simp add: s_def)
  then show ?thesis
    using last_collapse [of s] trimmed_last [OF False] no_double_collapse [of s] collapse_Cons [of "CHR ''/''" r] r
    by (auto simp: e starts_with_iff)
qed

lemma normal_path_iff:
  "normal_path p \<longleftrightarrow> starts_with ''/'' p \<and> no_double p \<and> \<not> is_space (last p)"
proof
  assume "normal_path p"
  then show "starts_with ''/'' p \<and> no_double p \<and> \<not> is_space (last p)"
    using normalized_form [of p] by (simp add: normal_path_def)
next
  assume a: "starts_with ''/'' p \<and> no_double p \<and> \<not> is_space (last p)"
  then obtain r where r: "p = CHR ''/'' # r" by (auto simp: starts_with_iff)
  have "js_trim p = p" using a r by (intro js_trim_id) (auto simp: slash_not_space)
  then show "normal_path p" using a r by (simp add: normal_path_def normalizeScopedPath_def collapse_id)
qed

lemma normalize_normal [simp]: "normal_path (normalizeScopedPath p)"
  using normalized_form by (simp add: normal_path_iff)

lemma normalize_idem [simp]: "normalizeScopedPath (normalizeScopedPath p) = normalizeScopedPath p"
  using normalize_normal by (simp add: normal_path_def)

lemma no_double_append:
  "no_double p \<Longrightarrow> no_double q \<Longrightarrow> p = [] \<or> last p \<noteq> CHR ''/'' \<Longrightarrow> no_double (p @ q)"
proof (induction p)
  case (Cons c p)
  then show ?case by (cases p; cases q) auto
qed simp

lemma normal_append:
  assumes "normal_path b" "\<not> ends_with ''/'' b" "no_double q" "\<not> is_space (last q)" "q \<noteq> []"
  shows "normal_path (b @ q)"
proof -
  have b: "starts_with ''/'' b" "no_double b" using assms(1) by (auto simp: normal_path_iff)
  have "last b \<noteq> CHR ''/''" using assms(2) b(1)
    by (cases b rule: rev_cases) (auto simp: ends_with_iff starts_with_def)
  then show ?thesis using b assms no_double_append [of b q] by (auto simp: normal_path_iff starts_with_iff)
qed

lemma path_patterns_are_trees:
  assumes "normal_path base" "\<not> ends_with ''/'' base" "CHR ''*'' \<notin> set base"
    and "normal_path p"
  shows "matchesPathPattern base p \<longleftrightarrow> p = base \<or> (\<exists>rest. p = base @ ''/'' @ rest)"
    and "list_all (\<lambda>c. \<not> line_terminator c) p \<Longrightarrow> matchesPathPattern (base @ ''/**'') p \<longleftrightarrow> (\<exists>rest. p = base @ ''/'' @ rest)"
    and "matchesPathPattern (base @ ''/*'') p \<longleftrightarrow> (\<exists>name. p = base @ ''/'' @ name \<and> CHR ''/'' \<notin> set name)"
proof -
  have n: "normalizeScopedPath (base @ ''/**'') = base @ ''/**''" "normalizeScopedPath (base @ ''/*'') = base @ ''/*''"
    "normalizeScopedPath base = base" "normalizeScopedPath p = p"
    using normal_append [OF assms(1,2), of "''/**''"] normal_append [OF assms(1,2), of "''/*''"] assms(1,4)
    by (simp_all add: normal_path_def slash_not_space)
  have s: "CHR ''*'' \<notin> set (base @ ''/'')" using assms(3) by simp
  show "matchesPathPattern base p \<longleftrightarrow> p = base \<or> (\<exists>rest. p = base @ ''/'' @ rest)"
    using n assms(2,3) by (simp add: matchesPathPattern_def starts_with_iff)
  show "matchesPathPattern (base @ ''/**'') p \<longleftrightarrow> (\<exists>rest. p = base @ ''/'' @ rest)" if "list_all (\<lambda>c. \<not> line_terminator c) p"
    using n source_literal [OF s, of "''*''"] rx_literal [of "base @ ''/''" "[Any_star]" p] that
    by (auto simp: matchesPathPattern_def rx_any_end)
  show "matchesPathPattern (base @ ''/*'') p \<longleftrightarrow> (\<exists>name. p = base @ ''/'' @ name \<and> CHR ''/'' \<notin> set name)"
    using n source_literal [OF s, of "[]"] rx_literal [of "base @ ''/''" "[Seg_star]" p]
    by (auto simp: matchesPathPattern_def rx_seg_end)
qed

text \<open>
Path patterns. Let \<open>base\<close> be a path in normal form that is not the root and has no star. The pattern
\<open>base\<close> matches the path itself and everything below it, \<^verbatim>\<open>base/**\<close> everything below it and not the path, and
\<^verbatim>\<open>base/*\<close> the entries directly below it. Matching looks at whole segments: \<^verbatim>\<open>/data\<close> does not match \<^verbatim>\<open>/database\<close>.
\<close>

theorem path_patterns_are_subtrees:
  assumes "normal_path base" "\<not> ends_with ''/'' base" "CHR ''*'' \<notin> set base"
    and "normal_path p" "list_all (\<lambda>c. \<not> line_terminator c) p"
  shows "(matchesPathPattern base p \<longleftrightarrow> p = base \<or> (\<exists>rest. p = base @ ''/'' @ rest)) \<and>
    (matchesPathPattern (base @ ''/**'') p \<longleftrightarrow> (\<exists>rest. p = base @ ''/'' @ rest)) \<and>
    (matchesPathPattern (base @ ''/*'') p \<longleftrightarrow> (\<exists>name. p = base @ ''/'' @ name \<and> CHR ''/'' \<notin> set name))"
  using path_patterns_are_trees [OF assms(1-4)] assms(5) by blast

theorem path_patterns_are_subtrees_witness:
  "matchesPathPattern ''/data'' ''/data/a/b'' \<and> \<not> matchesPathPattern ''/data'' ''/database'' \<and>
   matchesPathPattern ''/data/**'' ''/data/a/b'' \<and> \<not> matchesPathPattern ''/data/*'' ''/data/a/b''"
proof -
  have b: "normal_path ''/data''" "\<not> ends_with ''/'' ''/data''" "CHR ''*'' \<notin> set ''/data''" by code_simp+
  have p: "normal_path ''/data/a/b''" "list_all (\<lambda>c. \<not> line_terminator c) ''/data/a/b''"
    "normal_path ''/database''" "list_all (\<lambda>c. \<not> line_terminator c) ''/database''" by code_simp+
  show ?thesis
    using path_patterns_are_subtrees [OF b p(1,2)] path_patterns_are_subtrees [OF b p(3,4)] by auto
qed

subsection \<open>Merging scopes\<close>

text \<open>Patterns that stand for a subtree, with or without its root.\<close>

definition tree_pattern :: "string \<Rightarrow> bool" where
  "tree_pattern p =
     (let b = pathPatternBase p
      in normal_path b \<and> \<not> ends_with ''/'' b \<and> CHR ''*'' \<notin> set b \<and> (p = b \<or> p = b @ ''/**''))"

definition one_line :: "string \<Rightarrow> bool" where
  "one_line p = list_all (\<lambda>c. \<not> line_terminator c) p"

lemma tree_pattern_match:
  assumes "tree_pattern p" "normal_path v" "one_line v"
  shows "matchesPathPattern p v \<longleftrightarrow>
    starts_with (pathPatternBase p @ ''/'') v \<or> p = pathPatternBase p \<and> v = p"
proof -
  let ?b = "pathPatternBase p"
  have b: "normal_path ?b" "\<not> ends_with ''/'' ?b" "CHR ''*'' \<notin> set ?b" "p = ?b \<or> p = ?b @ ''/**''"
    using assms(1) by (auto simp: tree_pattern_def Let_def)
  have "?b @ ''/**'' \<noteq> ?b" by simp
  with path_patterns_are_trees [OF b(1-3) assms(2)] assms(3) b(4) show ?thesis
    unfolding starts_with_iff one_line_def by auto
qed

lemma comparable:
  assumes "x @ ''/'' @ u = y @ ''/'' @ v" "x \<noteq> y" "\<not> starts_with (y @ ''/'') x"
  shows "starts_with (x @ ''/'') y"
proof -
  from assms(1) obtain w where w: "x = y @ w \<and> w @ ''/'' @ u = ''/'' @ v \<or> x @ w = y \<and> ''/'' @ u = w @ ''/'' @ v"
    by (auto simp: append_eq_append_conv2)
  then show ?thesis using assms(2,3) by (cases w) (auto simp: starts_with_iff)
qed

lemma below_trans: "starts_with (y @ ''/'') x \<Longrightarrow> starts_with (x @ ''/'') v \<Longrightarrow> starts_with (y @ ''/'') v"
  by (auto simp: starts_with_iff)

lemma longer_form:
  "x = r \<or> x = r @ ''/**'' \<Longrightarrow> y = r \<or> y = r @ ''/**'' \<Longrightarrow>
   if length y \<le> length x then x = r @ ''/**'' \<or> x = y else y = r @ ''/**''"
  by auto

lemma intersect_pattern_exact:
  assumes "tree_pattern a" "tree_pattern b" "normal_path v" "one_line v"
  shows "(\<exists>c. intersectPathPattern a b = Some c \<and> matchesPathPattern c v) \<longleftrightarrow>
    matchesPathPattern a v \<and> matchesPathPattern b v"
proof -
  let ?a = "pathPatternBase a" and ?b = "pathPatternBase b"
  have star: "a \<noteq> ''*''" "b \<noteq> ''*''" using assms(1,2) by (auto simp: tree_pattern_def Let_def pathPatternBase_def js_trim_def is_space_def)
  have shape: "a = ?a \<or> a = ?a @ ''/**''" "b = ?b \<or> b = ?b @ ''/**''"
    using assms(1,2) by (auto simp: tree_pattern_def Let_def)
  note m = tree_pattern_match [OF assms(1,3,4)] tree_pattern_match [OF assms(2,3,4)]
  consider (same) "?a = ?b" | (left) "?a \<noteq> ?b" "starts_with (?b @ ''/'') ?a"
    | (right) "?a \<noteq> ?b" "\<not> starts_with (?b @ ''/'') ?a" "starts_with (?a @ ''/'') ?b"
    | (apart) "?a \<noteq> ?b" "\<not> starts_with (?b @ ''/'') ?a" "\<not> starts_with (?a @ ''/'') ?b" by blast
  then show ?thesis
  proof cases
    case same
    then have "intersectPathPattern a b = Some (if length b \<le> length a then a else b)"
      using star by (simp add: intersectPathPattern_def)
    moreover have "if length b \<le> length a then a = ?b @ ''/**'' \<or> a = b else b = ?b @ ''/**''"
      by (rule longer_form [OF shape(1) [unfolded same] shape(2)])
    ultimately show ?thesis using m same shape by (auto split: if_splits)
  next
    case left
    then have "intersectPathPattern a b = Some a" using star by (simp add: intersectPathPattern_def Let_def)
    then show ?thesis using m left shape below_trans [OF left(2)] by auto
  next
    case right
    then have "intersectPathPattern a b = Some b" using star by (simp add: intersectPathPattern_def Let_def)
    then show ?thesis using m right shape below_trans [OF right(3)] by auto
  next
    case apart
    then have "intersectPathPattern a b = None" using star by (simp add: intersectPathPattern_def Let_def)
    moreover have "\<not> (matchesPathPattern a v \<and> matchesPathPattern b v)"
      using m apart comparable [of ?a _ ?b] by (auto simp: starts_with_iff)
    ultimately show ?thesis by simp
  qed
qed

lemma intersect_pattern_mem: "intersectPathPattern a b = Some c \<Longrightarrow> c = a \<or> c = b"
  by (auto simp: intersectPathPattern_def Let_def split: if_splits)

lemma tree_pattern_nonempty: "\<not> tree_pattern []"
  by (auto simp: tree_pattern_def Let_def normal_path_iff starts_with_def)

lemma set_intersect_patterns:
  "set (intersectPathPatterns (Some ls) (Some rs)) =
     {c. c \<noteq> [] \<and> (\<exists>a \<in> set ls. \<exists>b \<in> set rs. intersectPathPattern a b = Some c)}"
proof -
  have "set (truthy_pattern q) = {c. c \<noteq> [] \<and> q = Some c}" for q
    by (auto simp: truthy_pattern_def split: option.split)
  then show ?thesis by (auto simp: intersectPathPatterns_def)
qed

lemma intersect_patterns_trees:
  "list_all tree_pattern ls \<Longrightarrow> list_all tree_pattern rs \<Longrightarrow> list_all tree_pattern (intersectPathPatterns (Some ls) (Some rs))"
  by (auto simp: list_all_iff set_intersect_patterns dest!: intersect_pattern_mem)

text \<open>On patterns that stand for subtrees the intersection of two lists is exact.\<close>

lemma intersect_patterns_exact:
  assumes "list_all tree_pattern ls" "list_all tree_pattern rs" "normal_path v" "one_line v"
  shows "list_ex (\<lambda>p. matchesPathPattern p v) (intersectPathPatterns (Some ls) (Some rs)) \<longleftrightarrow>
    list_ex (\<lambda>p. matchesPathPattern p v) ls \<and> list_ex (\<lambda>p. matchesPathPattern p v) rs"
proof -
  have "(\<exists>c. c \<noteq> [] \<and> intersectPathPattern a b = Some c \<and> matchesPathPattern c v) \<longleftrightarrow>
      matchesPathPattern a v \<and> matchesPathPattern b v" if "a \<in> set ls" "b \<in> set rs" for a b
    using intersect_pattern_exact [OF _ _ assms(3,4), of a b] intersect_pattern_mem [of a b] that assms(1,2) tree_pattern_nonempty
    by (auto simp: list_all_iff)
  then show ?thesis unfolding list_ex_iff set_intersect_patterns by blast
qed

text \<open>What each kind of scope decides.\<close>

definition given :: "'a option \<Rightarrow> ('a \<Rightarrow> string list option) \<Rightarrow> string list" where
  "given f sel = or_default [] (Option.bind f sel)"

lemma given_simps [simp]: "given (Some s) sel = or_default [] (sel s)" "given None sel = []"
  by (simp_all add: given_def or_default_def)

lemma required_simps [simp]: "scope_required (required ok r)" "scope_matched (required ok r) = ok"
  by (simp_all add: required_def)

lemma prefix_required: "scope_required (evaluatePrefixScope t f res)"
  by (simp add: evaluatePrefixScope_def wrong_type_def Let_def split: option.split)

lemma envdb_required: "scope_required (evaluateEnvDbScope g res)"
  by (simp add: evaluateEnvDbScope_def wrong_type_def Let_def split: option.split)

lemma cloud_required: "scope_required (evaluateCloudFsScope h res)"
  by (simp add: evaluateCloudFsScope_def wrong_type_def Let_def split: option.split)

lemma prefix_matched:
  "scope_matched (evaluatePrefixScope t f (Some res)) \<longleftrightarrow> r_type res = t \<and>
    (list_ex (\<lambda>p. matchesPathPattern p (normalizeScopedPath (r_id res))) (given f allow_prefixes) \<or>
     r_action res = Act_read \<and> list_ex (\<lambda>p. matchesPathPattern p (normalizeScopedPath (r_id res))) (given f read_only_prefixes))"
  by (auto simp: evaluatePrefixScope_def wrong_type_def Let_def given_def)

lemma prefix_present:
  "scope_matched (evaluatePrefixScope t f None) \<longleftrightarrow> given f allow_prefixes \<noteq> [] \<or> given f read_only_prefixes \<noteq> []"
  by (auto simp: evaluatePrefixScope_def Let_def given_def)

lemma envdb_matched:
  "scope_matched (evaluateEnvDbScope g (Some res)) \<longleftrightarrow> r_type res = Envdb \<and> js_trim (r_id res) \<noteq> [] \<and>
    (let parts = split_on (CHR ''.'') (js_trim (r_id res)); schema = js_trim (hd parts); table = js_trim (join_with ''.'' (tl parts))
     in list_ex (\<lambda>p. matchesIdentifierPattern p schema) (given g schemas) \<or>
        table \<noteq> [] \<and> list_ex (\<lambda>p. matchesIdentifierPattern p (schema @ ''.'' @ table)) (given g tables))"
  by (auto simp: evaluateEnvDbScope_def wrong_type_def Let_def given_def)

lemma envdb_present:
  "scope_matched (evaluateEnvDbScope g None) \<longleftrightarrow> given g schemas \<noteq> [] \<or> given g tables \<noteq> []"
  by (auto simp: evaluateEnvDbScope_def Let_def given_def)

lemma cloud_matched:
  "scope_matched (evaluateCloudFsScope h res) \<longleftrightarrow> given h allow_mount_ids \<noteq> [] \<and>
    (case res of None \<Rightarrow> True
     | Some r \<Rightarrow> r_type r = Cloud_fs \<and> (''*'' \<in> set (given h allow_mount_ids) \<or> r_id r \<in> set (given h allow_mount_ids)))"
  by (auto simp: evaluateCloudFsScope_def wrong_type_def Let_def given_def split: option.split)

lemma set_intersect_strings:
  "x \<in> set (intersectStringSets (Some ls) (Some rs)) \<Longrightarrow>
    (x \<in> set ls \<or> ''*'' \<in> set ls) \<and> (x \<in> set rs \<or> ''*'' \<in> set rs)"
  by (auto simp: intersectStringSets_def split: if_splits)

lemma intersect_identifiers:
  assumes "list_ex (\<lambda>p. matchesIdentifierPattern p v) (intersectStringSets (Some ls) (Some rs))"
  shows "list_ex (\<lambda>p. matchesIdentifierPattern p v) ls \<and> list_ex (\<lambda>p. matchesIdentifierPattern p v) rs"
proof -
  obtain x where "x \<in> set (intersectStringSets (Some ls) (Some rs))" "matchesIdentifierPattern x v"
    using assms by (auto simp: list_ex_iff)
  moreover have "matchesIdentifierPattern ''*'' v" by (simp add: matchesIdentifierPattern_def)
  ultimately show ?thesis using set_intersect_strings [of x ls rs] by (auto simp: list_ex_iff)
qed

lemma intersect_nonempty:
  "intersectStringSets (Some ls) (Some rs) \<noteq> [] \<Longrightarrow> ls \<noteq> [] \<and> rs \<noteq> []"
  using set_intersect_strings [of "hd (intersectStringSets (Some ls) (Some rs))" ls rs]
  by (auto simp del: split_paired_All dest: hd_in_set)

lemma intersect_patterns_nonempty:
  "intersectPathPatterns (Some ls) (Some rs) \<noteq> [] \<Longrightarrow> ls \<noteq> [] \<and> rs \<noteq> []"
proof -
  assume "intersectPathPatterns (Some ls) (Some rs) \<noteq> []"
  then have "set (intersectPathPatterns (Some ls) (Some rs)) \<noteq> {}" by simp
  then show ?thesis unfolding set_intersect_patterns by auto
qed

text \<open>A scope whose facets are given with all their lists, and whose prefixes stand for subtrees.\<close>

definition full_prefix :: "prefix_scope option \<Rightarrow> bool" where
  "full_prefix f = (case f of None \<Rightarrow> True
     | Some s \<Rightarrow> allow_prefixes s \<noteq> None \<and> read_only_prefixes s \<noteq> None \<and>
         list_all tree_pattern (the (allow_prefixes s)) \<and> list_all tree_pattern (the (read_only_prefixes s)))"

definition full_scope :: "access_scope \<Rightarrow> bool" where
  "full_scope sc =
     (full_prefix (s_orgfs sc) \<and> full_prefix (s_orgdocs sc) \<and>
      (case s_envdb sc of None \<Rightarrow> True | Some e \<Rightarrow> schemas e \<noteq> None \<and> tables e \<noteq> None) \<and>
      (case s_cloud_fs sc of None \<Rightarrow> True | Some c \<Rightarrow> allow_mount_ids c \<noteq> None))"

definition facets :: "access_scope \<Rightarrow> bool list" where
  "facets sc = [s_orgfs sc = None, s_orgdocs sc = None, s_envdb sc = None, s_cloud_fs sc = None]"

definition one_line_resource :: "resource option \<Rightarrow> bool" where
  "one_line_resource res = (case res of None \<Rightarrow> True | Some r \<Rightarrow> one_line (normalizeScopedPath (r_id r)))"

lemma narrow_prefix:
  assumes "full_prefix (Some l)" "full_prefix (Some r)" "one_line_resource res"
    and "scope_matched (evaluatePrefixScope t (Some (intersectPrefixScope (Some l) (Some r))) res)"
  shows "scope_matched (evaluatePrefixScope t (Some l) res) \<and> scope_matched (evaluatePrefixScope t (Some r) res)"
proof -
  obtain la lr ra rr where s: "allow_prefixes l = Some la" "read_only_prefixes l = Some lr"
      "allow_prefixes r = Some ra" "read_only_prefixes r = Some rr"
    and ok: "list_all tree_pattern la" "list_all tree_pattern lr" "list_all tree_pattern ra" "list_all tree_pattern rr"
    using assms(1,2) by (auto simp: full_prefix_def)
  show ?thesis
  proof (cases res)
    case None
    then show ?thesis using assms(4) s intersect_patterns_nonempty [of la ra] intersect_patterns_nonempty [of lr rr]
      by (auto simp: prefix_present intersectPrefixScope_def or_default_def)
  next
    case (Some x)
    have v: "normal_path (normalizeScopedPath (r_id x))" "one_line (normalizeScopedPath (r_id x))"
      using assms(3) Some by (auto simp: one_line_resource_def)
    show ?thesis using assms(4) s
        intersect_patterns_exact [OF ok(1,3) v] intersect_patterns_exact [OF ok(2,4) v]
      by (auto simp: Some prefix_matched intersectPrefixScope_def or_default_def)
  qed
qed

lemma narrow_envdb:
  assumes "schemas l = Some ls" "tables l = Some lt" "schemas r = Some rs" "tables r = Some rt"
    and "scope_matched (evaluateEnvDbScope (Some \<lparr>schemas = Some (intersectStringSets (Some ls) (Some rs)),
          tables = Some (intersectStringSets (Some lt) (Some rt))\<rparr>) res)"
  shows "scope_matched (evaluateEnvDbScope (Some l) res) \<and> scope_matched (evaluateEnvDbScope (Some r) res)"
proof (cases res)
  case None
  then show ?thesis using assms intersect_nonempty [of ls rs] intersect_nonempty [of lt rt]
    by (auto simp: envdb_present or_default_def)
next
  case (Some x)
  then show ?thesis using assms by (auto simp: envdb_matched or_default_def Let_def dest!: intersect_identifiers)
qed

lemma narrow_cloud:
  assumes "allow_mount_ids l = Some ls" "allow_mount_ids r = Some rs"
    and "scope_matched (evaluateCloudFsScope (Some \<lparr>allow_mount_ids = Some (intersectStringSets (Some ls) (Some rs))\<rparr>) res)"
  shows "scope_matched (evaluateCloudFsScope (Some l) res) \<and> scope_matched (evaluateCloudFsScope (Some r) res)"
  using assms intersect_nonempty [of ls rs]
  by (auto simp: cloud_matched or_default_def split: option.splits dest!: set_intersect_strings)

lemma passes_iff:
  "scope_passes (Some sc) p res \<longleftrightarrow>
    (case permissionResourceType p of None \<Rightarrow> True
     | Some Orgfs \<Rightarrow> scope_matched (evaluatePrefixScope Orgfs (s_orgfs sc) res)
     | Some Orgdocs \<Rightarrow> scope_matched (evaluatePrefixScope Orgdocs (s_orgdocs sc) res)
     | Some Envdb \<Rightarrow> scope_matched (evaluateEnvDbScope (s_envdb sc) res)
     | Some Cloud_fs \<Rightarrow> scope_matched (evaluateCloudFsScope (s_cloud_fs sc) res))"
  by (simp add: scope_passes_def evaluateScope_def prefix_required envdb_required cloud_required
      split: option.split resource_type.split)

lemma absent_facet:
  "\<not> scope_matched (evaluatePrefixScope t None res)" "\<not> scope_matched (evaluateEnvDbScope None res)"
  "\<not> scope_matched (evaluateCloudFsScope None res)"
  by (simp_all add: evaluatePrefixScope_def evaluateEnvDbScope_def evaluateCloudFsScope_def or_default_def)

lemma intersection_narrows:
  assumes "full_scope l" "full_scope r" "facets l = facets r" "one_line_resource res"
    and "scope_passes (Some (intersectScopes l r)) p res"
  shows "scope_passes (Some l) p res \<and> scope_passes (Some r) p res"
proof (cases "permissionResourceType p")
  case None
  then show ?thesis by (simp add: passes_iff)
next
  case (Some t)
  note f = assms(1,2) [unfolded full_scope_def] assms(3) [unfolded facets_def]
  show ?thesis
  proof (cases t)
    case Orgfs
    then show ?thesis using f assms(4,5) Some narrow_prefix [of "the (s_orgfs l)" "the (s_orgfs r)" res Orgfs]
      by (cases "s_orgfs l"; cases "s_orgfs r") (auto simp: passes_iff intersectScopes_def absent_facet)
  next
    case Orgdocs
    then show ?thesis using f assms(4,5) Some narrow_prefix [of "the (s_orgdocs l)" "the (s_orgdocs r)" res Orgdocs]
      by (cases "s_orgdocs l"; cases "s_orgdocs r") (auto simp: passes_iff intersectScopes_def absent_facet)
  next
    case Envdb
    then show ?thesis using f assms(5) Some
      by (cases "s_envdb l"; cases "s_envdb r") (auto simp: passes_iff intersectScopes_def absent_facet dest: narrow_envdb)
  next
    case Cloud_fs
    then show ?thesis using f assms(5) Some
      by (cases "s_cloud_fs l"; cases "s_cloud_fs r") (auto simp: passes_iff intersectScopes_def absent_facet dest: narrow_cloud)
  qed
qed

lemma intersection_full:
  assumes "full_scope l" "full_scope r" "facets l = facets r"
  shows "full_scope (intersectScopes l r) \<and> facets (intersectScopes l r) = facets l"
proof -
  have "full_prefix (Some (intersectPrefixScope (Some a) (Some b)))" if "full_prefix (Some a)" "full_prefix (Some b)" for a b
    using that intersect_patterns_trees by (auto simp: full_prefix_def intersectPrefixScope_def)
  with assms show ?thesis
    by (cases "s_orgfs l"; cases "s_orgfs r"; cases "s_orgdocs l"; cases "s_orgdocs r")
      (auto simp: full_scope_def facets_def intersectScopes_def full_prefix_def [of None])
qed

lemma fold_narrows:
  assumes "full_scope s" "list_all (\<lambda>sc. full_scope sc \<and> facets sc = facets s) ss" "one_line_resource res"
    and "scope_passes (Some (foldl intersectScopes s ss)) p res"
  shows "scope_passes (Some s) p res \<and> list_all (\<lambda>sc. scope_passes (Some sc) p res) ss"
  using assms
proof (induction ss arbitrary: s)
  case (Cons x ss)
  have x: "full_scope x" "facets s = facets x" using Cons.prems(2) by auto
  have f: "full_scope (intersectScopes s x)" "facets (intersectScopes s x) = facets s"
    using intersection_full [OF Cons.prems(1) x] by auto
  have "scope_passes (Some (intersectScopes s x)) p res \<and> list_all (\<lambda>sc. scope_passes (Some sc) p res) ss"
    by (rule Cons.IH [OF f(1)]) (use Cons.prems f(2) in auto)
  then show ?case using intersection_narrows [OF Cons.prems(1) x Cons.prems(3)] by auto
qed simp

text \<open>
C26: A merged token scope only narrows. The scopes of a workflow, of its step and of the invocation are intersected
into the scope of the job's token. When they declare the same kinds of resources, with all lists given and
prefixes that are paths or end in \<^verbatim>\<open>/**\<close>, then whatever the merged scope lets through each of them
lets through: every permission, every resource, read and write.
\<close>

theorem merged_scope_narrows:
  assumes "mergeStepTokenScope w s i = Some m"
    and "list_all (\<lambda>sc. full_scope sc \<and> facets sc = facets (hd (keep_some [w, s, i]))) (keep_some [w, s, i])"
    and "one_line_resource res" and "scope_passes (Some m) p res"
  shows "list_all (\<lambda>sc. scope_passes (Some sc) p res) (keep_some [w, s, i])"
proof (cases "keep_some [w, s, i]")
  case Nil
  then show ?thesis by simp
next
  case (Cons x xs)
  then show ?thesis using assms fold_narrows [of x xs res p] by (simp add: mergeStepTokenScope_def)
qed

definition docs_scope :: "string list option \<Rightarrow> string list option \<Rightarrow> access_scope" where
  "docs_scope allow ro = \<lparr>s_orgfs = None, s_orgdocs = Some \<lparr>allow_prefixes = allow, read_only_prefixes = ro\<rparr>,
     s_envdb = None, s_cloud_fs = None\<rparr>"

definition doc :: "string \<Rightarrow> resource_action \<Rightarrow> resource option" where
  "doc i a = Some \<lparr>r_type = Orgdocs, r_id = i, r_action = a\<rparr>"

theorem merged_scope_narrows_witness:
  "let w = docs_scope (Some [''/data/**'']) (Some [''/hr'']); s = docs_scope (Some [''/data/sub'', ''/tmp'']) (Some [])
   in scope_passes (mergeStepTokenScope (Some w) (Some s) None) ''orgdocs:write'' (doc ''/data/sub/x'' Act_write) \<and>
      scope_passes (Some w) ''orgdocs:write'' (doc ''/data/sub/x'' Act_write) \<and>
      scope_passes (Some s) ''orgdocs:write'' (doc ''/data/sub/x'' Act_write)"
proof -
  let ?w = "docs_scope (Some [''/data/**'']) (Some [''/hr''])"
  let ?s = "docs_scope (Some [''/data/sub'', ''/tmp'']) (Some [])"
  let ?m = "docs_scope (Some [''/data/sub'']) (Some [])"
  have m: "mergeStepTokenScope (Some ?w) (Some ?s) None = Some ?m" by code_simp
  have f: "list_all (\<lambda>sc. full_scope sc \<and> facets sc = facets (hd (keep_some [Some ?w, Some ?s, None]))) (keep_some [Some ?w, Some ?s, None])"
    by code_simp
  have "one_line_resource (doc ''/data/sub/x'' Act_write)" by code_simp
  moreover have p: "scope_passes (Some ?m) ''orgdocs:write'' (doc ''/data/sub/x'' Act_write)" by code_simp
  ultimately have "list_all (\<lambda>sc. scope_passes (Some sc) ''orgdocs:write'' (doc ''/data/sub/x'' Act_write)) (keep_some [Some ?w, Some ?s, None])"
    by (rule merged_scope_narrows [OF m f])
  then show ?thesis using p by (simp add: keep_some_def m Let_def)
qed

text \<open>
  Outside these conditions the merge can widen. Of \<^verbatim>\<open>/data/*\<close> and \<^verbatim>\<open>/data/**\<close> it keeps the longer text, which
  is the wider pattern; a star alone is taken for every path, but it matches paths of one segment only; and a list that one side does not give is taken from the other, so that a scope that is
  read-only and one that is writable merge to a writable one.
\<close>

lemma merge_can_widen:
  "let w = docs_scope (Some [''/data/*'']) (Some []); s = docs_scope (Some [''/data/**'']) (Some [])
   in scope_passes (Some (intersectScopes w s)) ''orgdocs:write'' (doc ''/data/a/b'' Act_write) \<and>
      \<not> scope_passes (Some w) ''orgdocs:write'' (doc ''/data/a/b'' Act_write)"
  "let w = docs_scope None (Some [''/data'']); s = docs_scope (Some [''/data'']) None
   in scope_passes (Some (intersectScopes w s)) ''orgdocs:write'' (doc ''/data/a'' Act_write) \<and>
      \<not> scope_passes (Some w) ''orgdocs:write'' (doc ''/data/a'' Act_write)"
  "let w = docs_scope (Some [''*'']) (Some []); s = docs_scope (Some [''/data/**'']) (Some [])
   in scope_passes (Some (intersectScopes w s)) ''orgdocs:write'' (doc ''/data/a'' Act_write) \<and>
      \<not> scope_passes (Some w) ''orgdocs:write'' (doc ''/data/a'' Act_write)"
  by code_simp+

end
