(* ===== verification/Access_Properties.thy ===== *)
theory Access_Properties
  imports Access_Guard Scope_Properties
begin

section \<open>Properties of access control\<close>

text \<open>
  That the check and its explanation agree, which rows give a user access, what revoking access does, and that the
  guard of the API keeps tokens and requests within their project.
\<close>

subsection \<open>Evaluation of grants\<close>

definition grant_ok :: "string \<Rightarrow> resource option \<Rightarrow> raw_grant \<Rightarrow> bool" where
  "grant_ok p res g = (p \<in> set (rg_permissions g) \<and> scope_passes (or_default None (rg_scope_json g)) p res)"

lemma scope_required_iff: "scope_required (evaluateScope sc p res) = scopeRequiredForPermission p"
  by (simp add: evaluateScope_def scopeRequiredForPermission_def prefix_required envdb_required cloud_required
      split: option.split resource_type.split)

lemma evaluate_fold:
  defines "ev \<equiv> (\<lambda>p res st gs. foldl (evaluate_grant p res) st gs)"
  shows "pe_allowed (ev p res st gs) = (pe_allowed st \<or> list_ex (grant_ok p res) gs)"
    and "pe_permissionMatched (ev p res st gs) = (pe_permissionMatched st \<or> list_ex (\<lambda>g. p \<in> set (rg_permissions g)) gs)"
    and "pe_scopeMatched (ev p res st gs) = (pe_scopeMatched st \<or> scopeRequiredForPermission p \<and> list_ex (grant_ok p res) gs)"
    and "pe_grants (ev p res st gs) = pe_grants st @ map (explained_grant p res) gs"
    and "pe_scopeRequired (ev p res st gs) = pe_scopeRequired st"
  unfolding ev_def
  by (induction gs arbitrary: st)
    (auto simp: evaluate_grant_def Let_def grant_ok_def scope_passes_def scope_required_iff)

lemma evaluatePermission_sel:
  shows "pe_allowed (evaluatePermission p gs res) = list_ex (grant_ok p res) gs"
    and "pe_scopeMatched (evaluatePermission p gs res) = list_ex (grant_ok p res) gs"
    and "pe_grants (evaluatePermission p gs res) = map (explained_grant p res) gs"
    and "pe_scopeRequired (evaluatePermission p gs res) = scopeRequiredForPermission p"
  using evaluate_fold [of p res _ gs]
  by (auto simp: evaluatePermission_def Let_def list_ex_iff grant_ok_def)

lemma explained_match:
  "scopeRequiredForPermission p \<Longrightarrow>
    eg_has_permission (explained_grant p res g) \<and> eg_scope_match (explained_grant p res g) = Some True \<longleftrightarrow> grant_ok p res g"
  by (auto simp: explained_grant_def Let_def grant_ok_def scope_passes_def scope_required_iff)

text \<open>
The check and its explanation agree. For every principal, permission and resource \<^verbatim>\<open>can\<close> and \<^verbatim>\<open>explain\<close> reject the
same unknown permissions with the same error; otherwise the explanation says \<^verbatim>\<open>ALLOWED\<close> exactly when the check
allows, names a missing reason exactly when it does not, and reports the same verdict on the resource's scope.
\<close>

theorem can_and_explain_agree:
  "case access_can a now d of
     Inl e \<Rightarrow> access_explain a now d = Inl e
   | Inr c \<Rightarrow> \<exists>x. access_explain a now d = Inr x \<and> (xr_result x = ''ALLOWED'' \<longleftrightarrow> cr_allowed c) \<and>
       (xr_missing_reason x = None \<longleftrightarrow> cr_allowed c) \<and> xr_resource x = cr_resource c"
proof -
  have m: "list_ex (\<lambda>g. eg_has_permission g \<and> eg_scope_match g = Some True) (map (explained_grant p res) gs) = list_ex (grant_ok p res) gs"
    if "scopeRequiredForPermission p" for p res gs
    using explained_match [OF that] by (auto simp: list_ex_iff)
  have e: "(xr_result (explain_for a now d) = ''ALLOWED'') = pe_allowed (evaluate_for a now d) \<and>
      (xr_missing_reason (explain_for a now d) = None) = pe_allowed (evaluate_for a now d) \<and>
      (pe_scopeMatched (evaluate_for a now d) =
        (if scopeRequiredForPermission (ap_permission a)
         then list_ex (\<lambda>g. eg_has_permission g \<and> eg_scope_match g = Some True) (xr_grants (explain_for a now d))
         else xr_result (explain_for a now d) = ''ALLOWED'')) \<and>
      pe_scopeRequired (evaluate_for a now d) = scopeRequiredForPermission (ap_permission a)"
    by (cases "ap_principal_type a")
      (auto simp: evaluate_for_def explain_for_def canUser_def explainUser_def canServicePrincipal_def explainServicePrincipal_def
        canGroup_def explainGroup_def explanation_def denied_def not_found_evaluation_def evaluatePermission_sel m split: option.splits)
  then show ?thesis
    by (auto simp: access_can_def access_explain_def validatePermission_def Let_def split: sum.split)
qed

subsection \<open>Who has access\<close>

text \<open>A binding reaches a user directly, or through a group of the role's org that the user is in.\<close>

definition reaches :: "access_db \<Rightarrow> string \<Rightarrow> access_role \<Rightarrow> access_binding \<Rightarrow> bool" where
  "reaches d user r b \<longleftrightarrow>
     ab_principal_type b = User \<and> ab_principal_id b = user \<or>
     ab_principal_type b = Group \<and>
       (\<exists>g \<in> set (groups d). \<exists>m \<in> set (members d). ag_id g = ab_principal_id b \<and> ag_org_id g = ar_org_id r \<and>
          is_member (ab_principal_id b) User user m)"

definition holds_role :: "string \<Rightarrow> string \<Rightarrow> resource option \<Rightarrow> bool" where
  "holds_role role p res \<longleftrightarrow> p \<in> set (expandPermissions role) \<and>
     scope_passes (if role \<in> set BUILT_IN_ROLES then Some BUILT_IN_ROLE_SCOPE else None) p res"

lemma direct_set:
  "x \<in> set (direct_bindings org t pid d) \<longleftrightarrow> (\<exists>b \<in> set (bindings d). \<exists>r \<in> set (roles d). ar_id r = ab_role_id b \<and> ar_org_id r = org \<and>
     ab_principal_type b = t \<and> ab_principal_id b = pid \<and> x = with_role (Some ''direct'') None None b r)"
  by (auto simp: direct_bindings_def)

lemma inherited_set:
  "x \<in> set (inherited_group_bindings org t pid d) \<longleftrightarrow> (\<exists>b \<in> set (bindings d). \<exists>r \<in> set (roles d). \<exists>g \<in> set (groups d). \<exists>m \<in> set (members d).
     ar_id r = ab_role_id b \<and> ar_org_id r = org \<and> ab_principal_type b = Group \<and> ag_id g = ab_principal_id b \<and>
     ag_org_id g = ar_org_id r \<and> is_member (ab_principal_id b) t pid m \<and> x = with_role (Some ''group'') (Some (ag_id g)) (Some (ag_slug g)) b r)"
  by (auto simp: inherited_group_bindings_def is_member_def) blast+

lemma applicable_grants:
  "list_ex (grant_ok p res) (map (binding_grant org) (listApplicableBindings org User user project d)) \<longleftrightarrow>
    (\<exists>b \<in> set (bindings d). \<exists>r \<in> set (roles d). ar_id r = ab_role_id b \<and> ar_org_id r = org \<and> reaches d user r b \<and>
       for_project project b \<and> p \<in> set (ar_permissions r) \<and> scope_passes (ab_scope_json b) p res)"
    (is "?l \<longleftrightarrow> ?r")
proof
  assume ?l
  then show ?r
    by (auto simp: list_ex_iff listApplicableBindings_def direct_set inherited_set binding_grant_def with_role_def grant_ok_def
        or_default_def reaches_def) blast+
next
  assume ?r
  then obtain b r where br: "b \<in> set (bindings d)" "r \<in> set (roles d)" "ar_id r = ab_role_id b" "ar_org_id r = org" "reaches d user r b"
    "for_project project b" "p \<in> set (ar_permissions r)" "scope_passes (ab_scope_json b) p res" by blast
  have "\<exists>via gid slug. with_role via gid slug b r \<in> set (direct_bindings org User user d @ inherited_group_bindings org User user d)"
    using br(1-5) unfolding reaches_def set_append Un_iff direct_set inherited_set by blast
  then obtain via gid slug where
    "with_role via gid slug b r \<in> set (direct_bindings org User user d @ inherited_group_bindings org User user d)" by blast
  then have "with_role via gid slug b r \<in> set (listApplicableBindings org User user project d)"
    using br(6) by (simp add: listApplicableBindings_def with_role_def)
  then show ?l using br(7,8)
    by (force simp: list_ex_iff binding_grant_def with_role_def grant_ok_def or_default_def)
qed

lemma membership_grant_ok: "grant_ok p res (membership_grant source role) \<longleftrightarrow> holds_role role p res"
  by (simp add: grant_ok_def membership_grant_def holds_role_def or_default_def)

lemma user_access:
  "pe_allowed (canUser org user project p res d) \<longleftrightarrow>
    (\<exists>m. findOrgMembership user org d = Some m \<and> holds_role (mb_role m) p res) \<or>
    (\<exists>pr m. truthy_string project \<and> resolveProject (the project) d = Some pr \<and> pr_org_id pr = org \<and>
       findProjectMembership user (pr_id pr) d = Some m \<and> holds_role (mb_role m) p res) \<or>
    (\<exists>b \<in> set (bindings d). \<exists>r \<in> set (roles d). ar_id r = ab_role_id b \<and> ar_org_id r = org \<and> reaches d user r b \<and>
       for_project project b \<and> p \<in> set (ar_permissions r) \<and> scope_passes (ab_scope_json b) p res)"
  unfolding canUser_def evaluatePermission_sel collectUserGrants_def list_ex_append applicable_grants
  by (auto simp: project_grants_def membership_grant_ok split: option.split if_splits)

text \<open>
C24: Exactly who may. A user is allowed a permission on a resource in an org if and only if the role of their org
membership holds it, or the role of their membership in the addressed project holds it and that project belongs
to the org, or a custom role of this org holds it and is bound, for the org or for this project, to the user or to
a group of this org that the user is in, with a scope that covers the resource. Nothing of another org counts.
\<close>

theorem user_access_characterised:
  "pe_allowed (canUser org user project p res d) \<longleftrightarrow>
    (\<exists>m. findOrgMembership user org d = Some m \<and> holds_role (mb_role m) p res) \<or>
    (\<exists>pr m. truthy_string project \<and> resolveProject (the project) d = Some pr \<and> pr_org_id pr = org \<and>
       findProjectMembership user (pr_id pr) d = Some m \<and> holds_role (mb_role m) p res) \<or>
    (\<exists>b \<in> set (bindings d). \<exists>r \<in> set (roles d). ar_id r = ab_role_id b \<and> ar_org_id r = org \<and> reaches d user r b \<and>
       for_project project b \<and> p \<in> set (ar_permissions r) \<and> scope_passes (ab_scope_json b) p res)"
  by (rule user_access)

subsection \<open>Revoking access\<close>

lemma group_delete_cases:
  assumes "group_delete org i caller d = (Inr (), d')"
  obtains g where "resolveGroup org i d = Some g"
    and "d' = snd (deleteGroup org (ag_id g) (snd (deleteBindingsForPrincipal org Group (ag_id g) d)))"
  using assms by (auto simp: group_delete_def Let_def split: option.splits sum.splits if_splits prod.splits)

lemma exists_role_iff:
  "b \<in> set (bindings (snd (deleteBindingsForPrincipal org t i d))) \<longleftrightarrow> b \<in> set (bindings d) \<and>
    \<not> ((\<exists>r \<in> set (roles d). ar_id r = ab_role_id b \<and> ar_org_id r = org) \<and> ab_principal_type b = t \<and> ab_principal_id b = i)"
  by (auto simp: deleteBindingsForPrincipal_def Let_def)

text \<open>
Deleting a group revokes what it gave. After the deletion no binding of the org names the group, and a user is
allowed exactly what some other source gives: their memberships, their own bindings and their other groups.
\<close>

theorem group_deletion_revokes:
  assumes "group_delete org i caller d = (Inr (), d')" and "resolveGroup org i d = Some g"
  shows "(\<forall>b \<in> set (bindings d'). \<forall>r \<in> set (roles d'). ar_id r = ab_role_id b \<and> ar_org_id r = org \<longrightarrow>
      (ab_principal_type b, ab_principal_id b) \<noteq> (Group, ag_id g)) \<and>
    (pe_allowed (canUser org user project p res d') \<longleftrightarrow>
      pe_allowed (canUser org user project p res
        (d\<lparr>bindings := filter (\<lambda>b. (ab_principal_type b, ab_principal_id b) \<noteq> (Group, ag_id g)) (bindings d)\<rparr>)))"
proof -
  let ?d0 = "d\<lparr>bindings := filter (\<lambda>b. (ab_principal_type b, ab_principal_id b) \<noteq> (Group, ag_id g)) (bindings d)\<rparr>"
  let ?d1 = "snd (deleteBindingsForPrincipal org Group (ag_id g) d)"
  have d': "d' = snd (deleteGroup org (ag_id g) ?d1)"
    using group_delete_cases [OF assms(1)] assms(2) by auto
  have same: "roles d' = roles d" "org_memberships d' = org_memberships d" "project_memberships d' = project_memberships d"
    "project_rows d' = project_rows d" "bindings d' = bindings ?d1"
    by (simp_all add: d' deleteGroup_def deleteBindingsForPrincipal_def Let_def)
  have gm: "x \<in> set (groups d') \<longleftrightarrow> x \<in> set (groups d)" if "ag_id x \<noteq> ag_id g" for x
    using that by (auto simp: d' deleteGroup_def deleteBindingsForPrincipal_def Let_def)
  have mm: "m \<in> set (members d') \<longleftrightarrow> m \<in> set (members d)" if "gm_group_id m \<noteq> ag_id g" for m
    using that by (auto simp: d' deleteGroup_def deleteBindingsForPrincipal_def Let_def)
  have none: "\<forall>b \<in> set (bindings d'). \<forall>r \<in> set (roles d'). ar_id r = ab_role_id b \<and> ar_org_id r = org \<longrightarrow>
      (ab_principal_type b, ab_principal_id b) \<noteq> (Group, ag_id g)"
    using exists_role_iff [of _ org Group "ag_id g" d] by (auto simp: same)
  have reach: "reaches d' user r b = reaches d user r b" if "(ab_principal_type b, ab_principal_id b) \<noteq> (Group, ag_id g)" for r b
  proof -
    have ne: "ab_principal_id b \<noteq> ag_id g" if "ab_principal_type b = Group"
      using that \<open>(ab_principal_type b, ab_principal_id b) \<noteq> (Group, ag_id g)\<close> by simp
    show ?thesis
      using gm mm ne unfolding reaches_def is_member_def Bex_def by (auto; metis)
  qed
  have look: "findOrgMembership user org d' = findOrgMembership user org ?d0"
    "findProjectMembership user x d' = findProjectMembership user x ?d0" "resolveProject x d' = resolveProject x ?d0" for x
    by (simp_all add: findOrgMembership_def findProjectMembership_def resolveProject_def find_project_by_id_def same)
  have "(\<exists>b \<in> set (bindings d'). \<exists>r \<in> set (roles d'). ar_id r = ab_role_id b \<and> ar_org_id r = org \<and> reaches d' user r b \<and>
       for_project project b \<and> p \<in> set (ar_permissions r) \<and> scope_passes (ab_scope_json b) p res) \<longleftrightarrow>
    (\<exists>b \<in> set (bindings ?d0). \<exists>r \<in> set (roles ?d0). ar_id r = ab_role_id b \<and> ar_org_id r = org \<and> reaches ?d0 user r b \<and>
       for_project project b \<and> p \<in> set (ar_permissions r) \<and> scope_passes (ab_scope_json b) p res)"
  proof -
    have d0: "reaches (d\<lparr>bindings := bs\<rparr>) user r b = reaches d user r b" for bs r b by (simp add: reaches_def)
    have "b \<in> set (bindings d') \<and> r \<in> set (roles d') \<and> ar_id r = ab_role_id b \<and> ar_org_id r = org \<and> reaches d' user r b \<longleftrightarrow>
        b \<in> set (bindings ?d0) \<and> r \<in> set (roles ?d0) \<and> ar_id r = ab_role_id b \<and> ar_org_id r = org \<and> reaches ?d0 user r b" for b r
    proof (cases "(ab_principal_type b, ab_principal_id b) = (Group, ag_id g)")
      case True
      then show ?thesis using exists_role_iff [of b org Group "ag_id g" d] by (auto simp: same)
    next
      case False
      then show ?thesis
        using reach [OF False] exists_role_iff [of b org Group "ag_id g" d] by (simp add: d0 same)
    qed
    then show ?thesis by blast
  qed
  then show ?thesis using none unfolding user_access look by simp
qed

text \<open>An org with two owners, a project, a group of one member with a role, and a job.\<close>

definition ex_member :: "string \<Rightarrow> string \<Rightarrow> string \<Rightarrow> membership" where
  "ex_member scope user role = \<lparr>mb_scope_id = scope, mb_user_id = user, mb_role = role, mb_created_at = 0, mb_updated_at = 0\<rparr>"

definition ex_access :: access_db where
  "ex_access =
     \<lparr>roles = [\<lparr>ar_id = ''role_1'', ar_org_id = ''org_1'', ar_name = ''ops'', ar_scope = ''org'', ar_permissions = [''agents:write''],
        ar_description = None, ar_created_by = None, ar_created_at = 0, ar_updated_at = 0\<rparr>],
      bindings = [\<lparr>ab_id = ''bind_1'', ab_role_id = ''role_1'', ab_principal_type = Group, ab_principal_id = ''grp_1'',
        ab_project_id = None, ab_scope_json = None, ab_created_by = None, ab_created_at = 0\<rparr>],
      groups = [\<lparr>ag_id = ''grp_1'', ag_org_id = ''org_1'', ag_name = ''Ops'', ag_slug = ''ops'', ag_description = None,
        ag_created_by = None, ag_created_at = 0, ag_updated_at = 0\<rparr>],
      members = [\<lparr>gm_group_id = ''grp_1'', gm_principal_type = User, gm_principal_id = ''ann'', gm_added_by = None, gm_created_at = 0\<rparr>],
      org_memberships = [ex_member ''org_1'' ''ann'' ''owner'', ex_member ''org_1'' ''bob'' ''owner''],
      project_memberships = [ex_member ''proj_1'' ''ann'' ''member''],
      project_rows = [\<lparr>pr_id = ''proj_1'', pr_slug = ''web'', pr_org_id = ''org_1'', pr_deleted_at = None\<rparr>],
      principals = [], tokens = [],
      owned_rows = [\<lparr>ow_kind = Kind_job, ow_id = ''web-1'', ow_project_id = ''proj_1''\<rparr>]\<rparr>"

definition ex_user :: "string \<Rightarrow> auth_user" where
  "ex_user i = \<lparr>au_user_id = i, au_is_admin = False, au_org_id = None, au_is_job_token = False, au_job_id = None, au_project_id = None,
     au_permissions = None, au_scope = None, au_is_service_principal = False, au_is_service_token = False\<rparr>"

theorem group_deletion_revokes_witness:
  "let d' = snd (group_delete ''org_1'' ''ops'' (Some (ex_user ''bob'')) ex_access)
   in pe_allowed (canUser ''org_1'' ''ann'' None ''agents:write'' None ex_access) \<and>
      \<not> pe_allowed (canUser ''org_1'' ''ann'' None ''agents:write'' None d')"
proof -
  define d' where "d' = snd (group_delete ''org_1'' ''ops'' (Some (ex_user ''bob'')) ex_access)"
  define g where "g = hd (groups ex_access)"
  have "fst (group_delete ''org_1'' ''ops'' (Some (ex_user ''bob'')) ex_access) = Inr ()" by code_simp
  then have del: "group_delete ''org_1'' ''ops'' (Some (ex_user ''bob'')) ex_access = (Inr (), d')" by (simp add: d'_def prod_eq_iff)
  have g: "resolveGroup ''org_1'' ''ops'' ex_access = Some g" unfolding g_def by code_simp
  have "\<not> pe_allowed (canUser ''org_1'' ''ann'' None ''agents:write'' None
      (ex_access\<lparr>bindings := filter (\<lambda>b. (ab_principal_type b, ab_principal_id b) \<noteq> (Group, ag_id g)) (bindings ex_access)\<rparr>))"
    unfolding g_def by code_simp
  moreover have "pe_allowed (canUser ''org_1'' ''ann'' None ''agents:write'' None ex_access)" by code_simp
  ultimately show ?thesis
    using group_deletion_revokes [OF del g, of "''ann''" None "''agents:write''" None] by (simp add: d'_def [symmetric])
qed

lemma org_memberships_frame:
  "roles (d\<lparr>org_memberships := ms\<rparr>) = roles d" "bindings (d\<lparr>org_memberships := ms\<rparr>) = bindings d"
  "groups (d\<lparr>org_memberships := ms\<rparr>) = groups d" "members (d\<lparr>org_memberships := ms\<rparr>) = members d"
  "project_memberships (d\<lparr>org_memberships := ms\<rparr>) = project_memberships d"
  "project_rows (d\<lparr>org_memberships := ms\<rparr>) = project_rows d"
  by simp_all

lemma project_org_memberships: "project_grants org user project (d\<lparr>org_memberships := ms\<rparr>) = project_grants org user project d"
  unfolding project_grants_def resolveProject_def find_project_by_id_def findProjectMembership_def org_memberships_frame by (rule refl)

lemma applicable_org_memberships:
  "listApplicableBindings org t pid project (d\<lparr>org_memberships := ms\<rparr>) = listApplicableBindings org t pid project d"
  unfolding listApplicableBindings_def direct_bindings_def inherited_group_bindings_def org_memberships_frame by (rule refl)

text \<open>
Removing a member of an org. The last owner is refused, so that an org that has an owner keeps one; and the
removal takes away the role in the org and nothing else: the memberships in its projects, the user's bindings
and the groups the user is in give access as before.
\<close>

theorem removed_member_keeps_other_grants:
  assumes "org_removeMember org user d = (Inr (), d')"
    and "distinct (map (\<lambda>m. (mb_scope_id m, mb_user_id m)) (org_memberships d))"
  shows "collectUserGrants org user project d' =
      project_grants org user project d @ map (binding_grant org) (listApplicableBindings org User user project d) \<and>
    ((\<exists>m \<in> set (org_memberships d). mb_scope_id m = org \<and> mb_role m = ''owner'') \<longrightarrow>
     (\<exists>m \<in> set (org_memberships d'). mb_scope_id m = org \<and> mb_role m = ''owner''))"
proof (intro conjI impI)
  let ?gone = "\<lambda>m. mb_scope_id m = org \<and> mb_user_id m = user"
  let ?owner = "\<lambda>m. mb_scope_id m = org \<and> mb_role m = ''owner''"
  have ok: "\<not> last_owner org user (org_memberships d)" and d': "d' = d\<lparr>org_memberships := delete_where ?gone (org_memberships d)\<rparr>"
    using assms(1) by (auto simp: org_removeMember_def removeOrgMembership_def Let_def split: if_splits)
  have "findOrgMembership user org d' = None"
    by (auto simp: findOrgMembership_def find_membership_def d' find_row_None)
  then show "collectUserGrants org user project d' =
      project_grants org user project d @ map (binding_grant org) (listApplicableBindings org User user project d)"
    by (simp add: collectUserGrants_def applicable_org_memberships project_org_memberships d')
  assume "\<exists>m \<in> set (org_memberships d). ?owner m"
  then obtain m where m: "m \<in> set (org_memberships d)" "?owner m" by blast
  show "\<exists>m \<in> set (org_memberships d'). ?owner m"
  proof (cases "mb_user_id m = user")
    case False
    then show ?thesis using m by (auto simp: d')
  next
    case True
    let ?owners = "filter ?owner (org_memberships d)"
    have "m \<in> set ?owners" using m by simp
    then have "\<not> length ?owners \<le> 1" using ok True by (auto simp: last_owner_def Let_def list_ex_iff)
    moreover have "distinct ?owners" using assms(2) by (simp add: distinct_map)
    ultimately have "\<exists>m' \<in> set ?owners. m' \<noteq> m"
      using distinct_card [of ?owners] card_mono [of "{m}" "set ?owners"] by fastforce
    then obtain m' where "m' \<in> set ?owners" "m' \<noteq> m" by blast
    then show ?thesis using m True assms(2) by (auto simp: d' distinct_map inj_on_def)
  qed
qed

theorem removed_member_keeps_other_grants_witness:
  "let d' = snd (org_removeMember ''org_1'' ''ann'' ex_access)
   in map rg_source (collectUserGrants ''org_1'' ''ann'' (Some ''proj_1'') d') =
        [''project membership (proj_1)'', ''custom role '' @ quoted ''ops'' @ '' via group '' @ quoted ''ops'' @ '' on org org_1''] \<and>
      (\<exists>m \<in> set (org_memberships d'). mb_scope_id m = ''org_1'' \<and> mb_role m = ''owner'')"
proof -
  define d' where "d' = snd (org_removeMember ''org_1'' ''ann'' ex_access)"
  have "fst (org_removeMember ''org_1'' ''ann'' ex_access) = Inr ()" by code_simp
  then have r: "org_removeMember ''org_1'' ''ann'' ex_access = (Inr (), d')" by (simp add: d'_def prod_eq_iff)
  have u: "distinct (map (\<lambda>m. (mb_scope_id m, mb_user_id m)) (org_memberships ex_access))" by code_simp
  have o: "\<exists>m \<in> set (org_memberships ex_access). mb_scope_id m = ''org_1'' \<and> mb_role m = ''owner''" by code_simp
  have "map rg_source (project_grants ''org_1'' ''ann'' (Some ''proj_1'') ex_access @
      map (binding_grant ''org_1'') (listApplicableBindings ''org_1'' User ''ann'' (Some ''proj_1'') ex_access)) =
      [''project membership (proj_1)'', ''custom role '' @ quoted ''ops'' @ '' via group '' @ quoted ''ops'' @ '' on org org_1'']"
    by code_simp
  with removed_member_keeps_other_grants [OF r u, of "Some ''proj_1''"] o show ?thesis
    unfolding d'_def [symmetric] Let_def by metis
qed

subsection \<open>The guard\<close>

text \<open>
C25: Tokens stay in their scope. A job, service or service-principal token passes the guard of an endpoint only if the
endpoint names a permission the token carries; and on a route that addresses a job, a run, a build or a thread
by its id, only if that is the token's own job or a job below it, or belongs to the token's project or, for a token
without a project, to its org.
\<close>

theorem token_stays_in_its_scope:
  assumes "canActivate True ep (Some u) rq d = Inr ()" and "\<not> ep_public ep" and "\<not> au_is_admin u" and "is_token u"
  shows "hasAnyPermission (or_default [] (au_permissions u)) (or_default [] (ep_permissions ep)) \<and>
    (\<forall>kind i. extractProjectId rq = None \<longrightarrow> extractResourceRef rq = Some (kind, i) \<longrightarrow>
      kind = Kind_job \<and> (\<exists>j. au_job_id u = Some j \<and> (i = j \<or> starts_with (j @ ''.'') i)) \<or>
      (\<exists>project org. getResourceProjectContext kind i d = Inr (project, org) \<and>
         (au_project_id u = Some project \<or> \<not> truthy_string (au_project_id u) \<and> au_org_id u = Some org)))"
proof -
  have perms: "or_default [] (ep_permissions ep) \<noteq> []" using assms by (auto simp: canActivate_def is_token_def split: if_splits)
  then obtain eff where r: "resolvePermissions u rq d = Inr eff" "hasAnyPermission eff (or_default [] (ep_permissions ep))"
    using assms by (auto simp: canActivate_def split: if_splits sum.splits)
  have eff: "eff = or_default [] (au_permissions u)"
    using r(1) assms(4) by (auto simp: resolvePermissions_def split: option.splits sum.splits if_splits)
  have "kind = Kind_job \<and> (\<exists>j. au_job_id u = Some j \<and> (i = j \<or> starts_with (j @ ''.'') i)) \<or>
      (\<exists>project org. getResourceProjectContext kind i d = Inr (project, org) \<and>
         (au_project_id u = Some project \<or> \<not> truthy_string (au_project_id u) \<and> au_org_id u = Some org))"
    if "extractProjectId rq = None" "extractResourceRef rq = Some (kind, i)" for kind i
  proof -
    have "assertTokenMayAddressResource u (kind, i) d = Inr ()"
      using r(1) assms(4) that by (auto simp: resolvePermissions_def split: sum.splits)
    then show ?thesis
      by (auto simp: assertTokenMayAddressResource_def truthy_string_def split: if_splits sum.splits option.splits)
  qed
  then show ?thesis using r(2) eff by blast
qed

definition ex_job_token :: auth_user where
  "ex_job_token = (ex_user ''agent'')\<lparr>au_is_job_token := True, au_job_id := Some ''api-7'', au_project_id := Some ''proj_1'',
     au_permissions := Some [''jobs:read'']\<rparr>"

definition ex_job_route :: "string \<Rightarrow> http_request" where
  "ex_job_route i = \<lparr>rq_params = [(''job_id'', i)], rq_route_url = Some ''/jobs/:job_id'', rq_url = None, rq_body_org_id = None\<rparr>"

definition ex_endpoint :: "string \<Rightarrow> endpoint" where
  "ex_endpoint p = \<lparr>ep_public = False, ep_permissions = Some [p]\<rparr>"

theorem token_stays_in_its_scope_witness:
  "canActivate True (ex_endpoint ''jobs:read'') (Some ex_job_token) (ex_job_route ''web-1'') ex_access = Inr () \<and>
   getResourceProjectContext Kind_job ''web-1'' ex_access = Inr (''proj_1'', ''org_1'') \<and>
   hasAnyPermission (or_default [] (au_permissions ex_job_token)) [''jobs:read'']"
proof -
  have g: "canActivate True (ex_endpoint ''jobs:read'') (Some ex_job_token) (ex_job_route ''web-1'') ex_access = Inr ()" by code_simp
  have "\<not> ep_public (ex_endpoint ''jobs:read'')" "\<not> au_is_admin ex_job_token" "is_token ex_job_token" by code_simp+
  note token_stays_in_its_scope [OF g this, THEN conjunct1]
  moreover have "or_default [] (ep_permissions (ex_endpoint ''jobs:read'')) = [''jobs:read'']" by code_simp
  moreover have "getResourceProjectContext Kind_job ''web-1'' ex_access = Inr (''proj_1'', ''org_1'')" by code_simp
  ultimately show ?thesis using g by simp
qed

text \<open>
  The check is made for these routes only: on a route that names a project, or an org, a token of another project
  passes with the permissions it carries.
\<close>

lemma token_on_foreign_project_route:
  "canActivate True (ex_endpoint ''jobs:read'') (Some ex_job_token)
     \<lparr>rq_params = [(''project_id'', ''proj_2'')], rq_route_url = None, rq_url = None, rq_body_org_id = None\<rparr> d = Inr ()"
  by (simp add: canActivate_def ex_endpoint_def ex_job_token_def ex_user_def resolvePermissions_def is_token_def extractProjectId_def
      rq_param_def or_default_def hasAnyPermission_def)

text \<open>
The body does not steer. On a route that names a project or one of its resources the verdict of the guard is the
same for every \<^verbatim>\<open>org_id\<close> in the body, for every caller and endpoint; and for a user the permissions are those in
the project that owns what the route addresses.
\<close>

theorem body_does_not_steer:
  assumes "extractProjectId rq \<noteq> None \<or> extractResourceRef rq \<noteq> None"
  shows "canActivate en ep user (rq\<lparr>rq_body_org_id := b\<rparr>) d = canActivate en ep user rq d \<and>
    (\<not> is_token u \<longrightarrow> resolvePermissions u rq d = Inr eff \<longrightarrow>
      (\<exists>org project. permission_context rq d = Inr (Some org, Some project) \<and>
         eff = (if org = [] then expandPermissions ''member'' else getEffectivePermissions (au_user_id u) org (Some project) d)))"
proof -
  have q: "rq_param k (rq\<lparr>rq_body_org_id := b\<rparr>) = rq_param k rq" "rq_path (rq\<lparr>rq_body_org_id := b\<rparr>) = rq_path rq" for k
    by (simp_all add: rq_param_def rq_path_def)
  have p: "extractProjectId (rq\<lparr>rq_body_org_id := b\<rparr>) = extractProjectId rq"
    "extractResourceRef (rq\<lparr>rq_body_org_id := b\<rparr>) = extractResourceRef rq"
    unfolding extractProjectId_def extractResourceRef_def q by (rule refl)+
  have "permission_context (rq\<lparr>rq_body_org_id := b\<rparr>) d = permission_context rq d"
    using assms by (auto simp: permission_context_def p split: option.split)
  then have "resolvePermissions v (rq\<lparr>rq_body_org_id := b\<rparr>) d = resolvePermissions v rq d" for v
    by (simp add: resolvePermissions_def p)
  then have "canActivate en ep user (rq\<lparr>rq_body_org_id := b\<rparr>) d = canActivate en ep user rq d"
    by (simp add: canActivate_def split: option.split)
  moreover have ctxt: "\<exists>org project. o' = Some org \<and> p' = Some project" if "permission_context rq d = Inr (o', p')" for o' p'
    using that assms by (cases "extractProjectId rq"; cases "extractResourceRef rq") (auto simp: permission_context_def split: sum.splits dest: sym)
  moreover have "\<exists>org project. permission_context rq d = Inr (Some org, Some project) \<and>
         eff = (if org = [] then expandPermissions ''member'' else getEffectivePermissions (au_user_id u) org (Some project) d)"
    if h: "\<not> is_token u" "resolvePermissions u rq d = Inr eff"
  proof -
    obtain o' p' where c: "permission_context rq d = Inr (o', p')"
      using h by (cases "permission_context rq d") (auto simp: resolvePermissions_def)
    then obtain org project where "o' = Some org" "p' = Some project" using ctxt by blast
    with c h show ?thesis by (auto simp: resolvePermissions_def truthy_string_def split: if_splits)
  qed
  ultimately show ?thesis by blast
qed

theorem body_does_not_steer_witness:
  "canActivate True (ex_endpoint ''jobs:read'') (Some (ex_user ''ann'')) ((ex_job_route ''web-1'')\<lparr>rq_body_org_id := Some ''org_9''\<rparr>) ex_access = Inr ()"
proof -
  have "extractResourceRef (ex_job_route ''web-1'') = Some (Kind_job, ''web-1'')" by code_simp
  moreover have "canActivate True (ex_endpoint ''jobs:read'') (Some (ex_user ''ann'')) (ex_job_route ''web-1'') ex_access = Inr ()"
    by code_simp
  ultimately show ?thesis using body_does_not_steer [of "ex_job_route ''web-1''" True] by simp
qed

text \<open>
The guard and the access check agree one way. What the guard lets a user do in a project, the access check of the
org that owns the project allows too, for permissions that need no resource scope. The converse fails: the role in
the project replaces the role in the org for the guard, while the access check takes both.
\<close>

theorem guard_implies_can:
  assumes "p \<in> set (getEffectivePermissions user org project d)" and "\<not> scopeRequiredForPermission p"
    and "truthy_string project \<longrightarrow> (\<forall>pr. resolveProject (the project) d = Some pr \<longrightarrow> pr_org_id pr = org)"
  shows "pe_allowed (canUser org user project p res d)"
proof -
  have pass: "scope_passes sc p res" for sc
    using assms(2) scope_required_iff [of sc p res] by (simp add: scope_passes_def Let_def)
  have custom: "\<exists>x \<in> set (listApplicableBindings org User user project d). p \<in> set (br_role_permissions x)"
    if "p \<in> set (getEffectiveCustomPermissions User user org project d)"
    using that by (auto simp: getEffectiveCustomPermissions_def)
  consider "p \<in> set (getEffectiveCustomPermissions User user org project d)"
    | "truthy_string (base_role user org project d)" "p \<in> set (expandPermissions (the (base_role user org project d)))"
    using assms(1) by (auto simp: getEffectivePermissions_def Let_def split: if_splits)
  then have "list_ex (grant_ok p res) (collectUserGrants org user project d)"
  proof cases
    case 1
    then show ?thesis using custom pass by (force simp: collectUserGrants_def list_ex_iff grant_ok_def binding_grant_def)
  next
    case 2
    show ?thesis
    proof (cases "truthy_string (project_role user project d)")
      case True
      then show ?thesis using 2 assms(3) pass
        by (auto simp: base_role_def project_role_def collectUserGrants_def project_grants_def membership_grant_ok holds_role_def
            truthy_string_def split: if_splits option.splits)
    next
      case False
      then show ?thesis using 2 pass
        by (auto simp: base_role_def collectUserGrants_def membership_grant_ok holds_role_def truthy_string_def split: option.splits)
    qed
  qed
  then show ?thesis by (simp add: canUser_def evaluatePermission_sel)
qed

theorem guard_implies_can_witness:
  "''jobs:read'' \<in> set (getEffectivePermissions ''ann'' ''org_1'' (Some ''web'') ex_access) \<and>
   pe_allowed (canUser ''org_1'' ''ann'' (Some ''web'') ''jobs:read'' None ex_access)"
proof -
  have h: "''jobs:read'' \<in> set (getEffectivePermissions ''ann'' ''org_1'' (Some ''web'') ex_access)"
    "\<not> scopeRequiredForPermission ''jobs:read''" by code_simp+
  have "map_option pr_org_id (resolveProject ''web'' ex_access) = Some ''org_1''" by code_simp
  then show ?thesis using guard_implies_can [OF h] h(1) by auto
qed

text \<open>An owner of the org who is a plain member of the project.\<close>

lemma can_exceeds_the_guard:
  "''projects:write'' \<notin> set (getEffectivePermissions ''ann'' ''org_1'' (Some ''proj_1'') ex_access)"
  "pe_allowed (canUser ''org_1'' ''ann'' (Some ''proj_1'') ''projects:write'' None ex_access)"
  by code_simp+

text \<open>A binding for a project reaches requests that give the id of the project and not those that give its slug.\<close>

lemma project_binding_ignores_slug:
  "let d = ex_access\<lparr>bindings := map (\<lambda>b. b\<lparr>ab_project_id := Some ''proj_1''\<rparr>) (bindings ex_access)\<rparr>
   in pe_allowed (canUser ''org_1'' ''ann'' (Some ''proj_1'') ''agents:write'' None d) \<and>
      \<not> pe_allowed (canUser ''org_1'' ''ann'' (Some ''web'') ''agents:write'' None d)"
  by code_simp

end
