(* ===== verification/Expander_Properties.thy ===== *)
theory Expander_Properties
  imports Pipeline_Expander Batch_Properties Access_Properties
begin

section \<open>Properties of the pipeline expander\<close>

text \<open>
  Which steps a run of a single step needs, the graph of jobs an expansion leaves, how the dry run relates to it, and whose
  permissions the tokens of the jobs carry.
\<close>

subsection \<open>Running only one step\<close>

definition step_map :: "jobject list \<Rightarrow> (string \<times> jobject) list" where
  "step_map steps = rev (map (\<lambda>(_, name, step). (name, step)) (labelled steps))"

definition step_names :: "jobject list \<Rightarrow> string list" where
  "step_names steps = map (\<lambda>(_, name, _). name) (labelled steps)"

definition needs :: "(string \<times> jobject) list \<Rightarrow> (string \<times> string) set" where
  "needs m = {(a, b). \<exists>st. map_of m a = Some st \<and> b \<in> set (step_depends_on st)}"

lemma visit_steps_closed:
  assumes "visit_steps m names inc = Inr inc'" "\<forall>n \<in> set inc. n \<in> fst ` set m \<and> needs m `` {n} \<subseteq> set inc \<union> set names"
  shows "set inc \<union> set names \<subseteq> set inc' \<and> (\<forall>n \<in> set inc'. n \<in> fst ` set m \<and> needs m `` {n} \<subseteq> set inc')"
  using assms
proof (induction m names inc rule: visit_steps.induct)
  case (2 m name names inc)
  from 2(3) obtain st where st: "map_of m name = Some st" by (cases "map_of m name") auto
  have dom: "name \<in> fst ` set m" using st by (metis map_of_eq_None_iff option.distinct(1))
  show ?case
  proof (cases "name \<in> set inc")
    case True
    then show ?thesis using 2(1) [OF st True] 2(3,4) st by auto
  next
    case False
    have "needs m `` {name} = set (step_depends_on st)" using st by (auto simp: needs_def)
    then have inv: "\<forall>n \<in> set (inc @ [name]). n \<in> fst ` set m \<and> needs m `` {n} \<subseteq> set (inc @ [name]) \<union> set (step_depends_on st @ names)"
      using 2(4) dom by auto
    have "visit_steps m (step_depends_on st @ names) (inc @ [name]) = Inr inc'" using 2(3) st False by simp
    from 2(2) [OF st False this inv] show ?thesis by auto
  qed
qed auto

lemma visit_steps_reach:
  "visit_steps m names inc = Inr inc' \<Longrightarrow> set inc' \<subseteq> set inc \<union> (needs m)\<^sup>* `` set names"
  "visit_steps m names inc = Inl n \<Longrightarrow> n \<in> (needs m)\<^sup>* `` set names \<and> n \<notin> fst ` set m"
proof (induction m names inc rule: visit_steps.induct)
  case (2 m name names inc)
  { case 1
    from 1 obtain st where st: "map_of m name = Some st" by (cases "map_of m name") auto
    have "set (step_depends_on st) \<subseteq> needs m `` {name}" using st by (auto simp: needs_def)
    then have "(needs m)\<^sup>* `` set (step_depends_on st) \<subseteq> (needs m)\<^sup>* `` {name}" by (auto intro: converse_rtrancl_into_rtrancl)
    moreover have "name \<in> (needs m)\<^sup>* `` {name}" by blast
    ultimately have "insert name ((needs m)\<^sup>* `` set (step_depends_on st @ names)) \<subseteq> (needs m)\<^sup>* `` set (name # names)" by auto
    then show ?case using 2(1) [OF st] 2(3) [OF st] 1 st by (cases "name \<in> set inc") (simp_all, blast+) }
  { case 2
    show ?case
    proof (cases "map_of m name")
      case None
      then have "n = name" "name \<notin> fst ` set m" using 2 by (simp, simp add: map_of_eq_None_iff)
      then show ?thesis by auto
    next
      case (Some st)
      have "set (step_depends_on st) \<subseteq> needs m `` {name}" using Some by (auto simp: needs_def)
      then have "(needs m)\<^sup>* `` set (step_depends_on st) \<subseteq> (needs m)\<^sup>* `` {name}" by (auto intro: converse_rtrancl_into_rtrancl)
      then show ?thesis using "2.IH"(2) [OF Some] "2.IH"(4) [OF Some] 2 Some by (cases "name \<in> set inc") auto
    qed }
qed auto

lemma visit_only:
  defines "needed m only \<equiv> (needs m)\<^sup>* `` {only}"
  shows "visit_steps m [only] [] = Inr inc \<Longrightarrow> set inc = needed m only \<and> needed m only \<subseteq> fst ` set m"
    "visit_steps m [only] [] = Inl n \<Longrightarrow> n \<in> needed m only - fst ` set m"
proof -
  show "set inc = needed m only \<and> needed m only \<subseteq> fst ` set m" if v: "visit_steps m [only] [] = Inr inc"
  proof -
    have c: "only \<in> set inc" "\<And>n. n \<in> set inc \<Longrightarrow> n \<in> fst ` set m \<and> needs m `` {n} \<subseteq> set inc"
      using visit_steps_closed [OF v] by auto
    have "b \<in> set inc" if "(only, b) \<in> (needs m)\<^sup>*" for b
      using that by induction (use c in auto)
    then have "needed m only \<subseteq> set inc" by (auto simp: needed_def)
    moreover have "set inc \<subseteq> needed m only" using visit_steps_reach(1) [OF v] by (auto simp: needed_def)
    ultimately show ?thesis using c(2) by auto
  qed
  show "n \<in> needed m only - fst ` set m" if "visit_steps m [only] [] = Inl n"
    using visit_steps_reach(2) [OF that] by (auto simp: needed_def)
qed

lemma step_map_names: "fst ` set (step_map steps) = set (step_names steps)"
  by (force simp: step_map_def step_names_def)

lemma filterStepsForOnly_unfold:
  "filterStepsForOnly steps only =
     (case visit_steps (step_map steps) [only] [] of
        Inl name \<Rightarrow> Inl (Http (Bad_request (''Pipeline step \"'' @ name @ ''\" not found'')))
      | Inr included \<Rightarrow> Inr (map snd (filter (\<lambda>((_, name, _), _). name \<in> set included) (zip (labelled steps) (named_steps steps)))))"
  by (simp only: filterStepsForOnly_def step_map_def Let_def)

text \<open>
A run of only one step takes exactly the steps it needs. When every step it reaches through dependencies exists, the
  steps that remain are those it reaches, named and in their order; otherwise the run is refused for a name it reaches that
  no step has. Cycles of dependencies do no harm to the selection.
\<close>

theorem only_selects_the_closure:
  "if (needs (step_map steps))\<^sup>* `` {only} \<subseteq> set (step_names steps)
   then filterStepsForOnly steps only =
     Inr (map snd (filter (\<lambda>((_, name, _), _). (only, name) \<in> (needs (step_map steps))\<^sup>*) (zip (labelled steps) (named_steps steps))))
   else \<exists>name. (only, name) \<in> (needs (step_map steps))\<^sup>* \<and> name \<notin> set (step_names steps) \<and>
     filterStepsForOnly steps only = Inl (Http (Bad_request (''Pipeline step \"'' @ name @ ''\" not found'')))"
proof (cases "visit_steps (step_map steps) [only] []")
  case (Inl n)
  then have f: "filterStepsForOnly steps only = Inl (Http (Bad_request (''Pipeline step \"'' @ n @ ''\" not found'')))"
    by (simp only: filterStepsForOnly_unfold sum.case)
  have n: "(only, n) \<in> (needs (step_map steps))\<^sup>*" "n \<notin> set (step_names steps)"
    using visit_only(2) [OF Inl] by (auto simp: step_map_names)
  show ?thesis using f n by (auto intro!: exI [of _ n])
next
  case (Inr inc)
  have "set inc = (needs (step_map steps))\<^sup>* `` {only}" "(needs (step_map steps))\<^sup>* `` {only} \<subseteq> set (step_names steps)"
    using visit_only(1) [OF Inr] by (auto simp: step_map_names)
  then show ?thesis by (simp only: filterStepsForOnly_unfold Inr sum.case Image_singleton_iff if_True)
qed

subsection \<open>The jobs of an expansion\<close>

definition step_created ::
  "expander_ext \<Rightarrow> expansion_context \<Rightarrow> timestamp \<Rightarrow> access_db option \<Rightarrow> nat \<times> string \<times> jobject \<Rightarrow> job \<Rightarrow> bool" where
  "step_created x c now d st j \<longleftrightarrow>
     (\<exists>p scope permissions review.
        plan_step (xq_pipeline_name (cx_request c)) (cx_toolchains c) (cx_by_step c) st = Inr p \<and>
        step_token x c (fst (snd st)) (snd (snd st)) now d = Inr (scope, permissions) \<and>
        review_column (step_review (snd (snd st))) = Inr review \<and>
        j = new_row (step_job (cx_request c) (cx_project_id c) (cx_run_id c) (cx_env_name c) (cx_user_id c) now (j_id j) p
              review scope permissions) now)"

lemma create_step_jobs_effect:
  assumes "create_step_jobs x c now d ls created ids s = (Expanded (created', ids'), s')"
  shows "\<exists>new. created' = created @ new \<and> s' = s\<lparr>jobs := jobs s @ new\<rparr> \<and> list_all2 (step_created x c now d) ls new \<and>
    distinct (map j_id new) \<and> j_id ` set new \<inter> j_id ` set (jobs s) = {} \<and>
    ids' = rev (zip (map (\<lambda>(_, n, _). n) ls) (map j_id new)) @ ids"
  using assms
proof (induction ls arbitrary: created ids s)
  case (Cons l ls)
  obtain i n st where l: "l = (i, n, st)" by (cases l) auto
  let ?plan = "plan_step (xq_pipeline_name (cx_request c)) (cx_toolchains c) (cx_by_step c) (i, n, st)"
  from Cons.prems obtain p where p: "?plan = Inr p" by (cases ?plan) (auto simp: l)
  from Cons.prems p obtain jid rp where g: "generateJobId (cx_project_id c) None (px_hashes x i) s = Some (Inr (jid, rp))"
    by (auto simp: l split: option.splits sum.splits)
  from Cons.prems p g obtain scope perms where t: "step_token x c n st now d = Inr (scope, perms)"
    by (auto simp: l split: sum.splits)
  from Cons.prems p g t obtain review where r: "review_column (step_review st) = Inr review"
    by (auto simp: l split: sum.splits)
  let ?j = "step_job (cx_request c) (cx_project_id c) (cx_run_id c) (cx_env_name c) (cx_user_id c) now jid p review scope perms"
  from Cons.prems p g t r obtain row s1 where cr: "create ?j now s = (Inr row, s1)"
    by (cases "create ?j now s") (auto simp: l split: sum.splits)
  note c1 = create_Inr [OF cr]
  have row: "j_id row = jid" using c1 by (simp add: step_job_def Let_def split: prod.splits)
  have "create_step_jobs x c now d ls (created @ [row]) ((n, jid) # ids) s1 = (Expanded (created', ids'), s')"
    using Cons.prems by (simp add: l p g t r cr)
  from Cons.IH [OF this] obtain new where new: "created' = (created @ [row]) @ new" "s' = s1\<lparr>jobs := jobs s1 @ new\<rparr>"
    "list_all2 (step_created x c now d) ls new" "distinct (map j_id new)" "j_id ` set new \<inter> j_id ` set (jobs s1) = {}"
    "ids' = rev (zip (map (\<lambda>(_, n, _). n) ls) (map j_id new)) @ (n, jid) # ids" by blast
  have "step_created x c now d l row"
    unfolding step_created_def using p t r c1 row by (auto simp: l)
  then show ?case using new c1 row by (intro exI [of _ "row # new"]) (auto simp: l)
qed simp

lemma relate_steps_effect:
  assumes "relate_steps x ids links rels s = (Expanded rels', s')" "\<And>a b. (a, b) \<in> set links \<Longrightarrow> map_of ids a \<noteq> None"
  shows "(\<forall>(a, b) \<in> set links. map_of ids b \<noteq> None) \<and>
    rels' = rels @ map (\<lambda>(a, b). (the (map_of ids a), the (map_of ids b))) links \<and>
    jobs s' = jobs s \<and> pipeline_runs s' = pipeline_runs s \<and>
    relation_triples s' = relation_triples s \<union> (\<lambda>(a, b). (the (map_of ids a), the (map_of ids b), Blocks)) ` set links"
  using assms
proof (induction links arbitrary: rels s)
  case (Cons l links)
  obtain a b where l: "l = (a, b)" by force
  obtain ja where ja: "map_of ids a = Some ja" using Cons.prems(2) [of a b] by (auto simp: l)
  from Cons.prems(1) ja obtain jb where jb: "map_of ids b = Some jb" by (cases "map_of ids b") (auto simp: l)
  from Cons.prems(1) ja jb obtain y s1 where d: "addDependency ja jb ''blocks'' (px_uuids x (a, b)) s = (Inr y, s1)"
    by (cases "addDependency ja jb ''blocks'' (px_uuids x (a, b)) s") (auto simp: l split: sum.splits)
  have rest: "relate_steps x ids links (rels @ [(ja, jb)]) s1 = (Expanded rels', s')" using Cons.prems(1) by (simp add: l ja jb d)
  have runs: "pipeline_runs s1 = pipeline_runs s" using d by (auto simp: addDependency_def split: option.splits if_splits)
  have "\<And>u v. (u, v) \<in> set links \<Longrightarrow> map_of ids u \<noteq> None" using Cons.prems(2) by auto
  from Cons.IH [OF rest this] show ?case using addDependency_Inr [OF d] runs ja jb by (auto simp: l)
qed simp

text \<open>The context in which \<^verbatim>\<open>expandPipeline\<close> creates its jobs.\<close>

lemma persist_run_effect:
  assumes "persist_run x request pl steps byStep userId now d s = (Expanded r, s')"
  shows "\<exists>c ids new s2. cx_request c = request \<and> cx_project_id c = pp_project_id pl \<and> cx_run_id c = px_run_id x \<and> cx_user_id c = userId \<and>
    cx_toolchains c = pp_toolchains pl \<and> cx_by_step c = byStep \<and> cx_env_name c = pp_env_name pl \<and>
    (\<exists>p. find_row (\<lambda>p. p_id p = pp_project_id pl) (projects s) = Some p \<and> cx_org_id c = p_org_id p) \<and>
    parseTokenScope x (obj_get (pp_pipeline pl) ''scope'') (pipeline_path (xq_pipeline_name request) ''scope'') = Inr (cx_scope c) \<and>
    parseTokenPermissions (obj_get (pp_pipeline pl) ''permissions'') (pipeline_path (xq_pipeline_name request) ''permissions'') =
      Inr (cx_permissions c) \<and>
    pipeline_runs s2 = pipeline_runs s @ [er_run r] \<and> pipeline_run.pr_id (er_run r) = px_run_id x \<and>
    pr_status (er_run r) = ''pending'' \<and> pipeline_run.pr_project_id (er_run r) = pp_project_id pl \<and>
    job_relations s2 = job_relations s \<and> jobs s2 = jobs s @ new \<and>
    list_all2 (step_created x c now d) (labelled steps) new \<and> distinct (map j_id new) \<and> j_id ` set new \<inter> j_id ` set (jobs s) = {} \<and>
    ids = rev (zip (step_names steps) (map j_id new)) \<and> er_jobs r = map toJobResponse new \<and>
    relate_steps x ids (step_links (labelled steps)) [] s2 = (Expanded (er_relations r), s')"
proof -
  define run0 where "run0 = \<lparr>pipeline_run.pr_id = px_run_id x, pr_project_id = pp_project_id pl, pr_pipeline_name = xq_pipeline_name request,
            pr_env_name = pp_env_name pl, pr_git_sha = Some (xq_git_sha request), pr_manifest_hash = Some (pp_manifest_hash pl),
            pr_inputs_json = xq_inputs request, pr_step_outputs_json = None, pr_status = ''pending'', pr_started_at = None,
            pr_completed_at = None, pr_error_message = None, pr_requested_by = None, pr_run_mode = Some ''jobs'',
            pr_dedupe_key = xq_dedupe_key request, pr_created_at = now, pr_updated_at = now\<rparr>"
  obtain run s1 where cr: "createRun run0 now s = (Inr run, s1)"
    using assms by (cases "createRun run0 now s") (auto simp: persist_run_def run0_def [symmetric] split: sum.splits)
  have run: "run = run0" "s1 = s\<lparr>pipeline_runs := pipeline_runs s @ [run]\<rparr>"
    using cr by (auto simp: createRun_def run0_def Let_def split: if_splits)
  obtain scope perms p where sc:
    "parseTokenScope x (obj_get (pp_pipeline pl) ''scope'') (pipeline_path (xq_pipeline_name request) ''scope'') = Inr scope"
    "parseTokenPermissions (obj_get (pp_pipeline pl) ''permissions'') (pipeline_path (xq_pipeline_name request) ''permissions'') = Inr perms"
    "find_row (\<lambda>p. p_id p = pp_project_id pl) (projects s1) = Some p"
    using assms
    by (cases "parseTokenScope x (obj_get (pp_pipeline pl) ''scope'') (pipeline_path (xq_pipeline_name request) ''scope'')";
        cases "parseTokenPermissions (obj_get (pp_pipeline pl) ''permissions'') (pipeline_path (xq_pipeline_name request) ''permissions'')";
        cases "find_row (\<lambda>p. p_id p = pp_project_id pl) (projects s1)")
       (simp_all add: persist_run_def run0_def [symmetric] cr)
  define c where "c = \<lparr>cx_request = request, cx_project_id = pp_project_id pl, cx_org_id = p_org_id p, cx_run_id = px_run_id x,
                    cx_env_name = pp_env_name pl, cx_user_id = userId, cx_toolchains = pp_toolchains pl, cx_by_step = byStep,
                    cx_scope = scope, cx_permissions = perms\<rparr>"
  obtain created ids s2 where cj: "create_step_jobs x c now d (labelled steps) [] [] s1 = (Expanded (created, ids), s2)"
    using assms by (auto simp: persist_run_def run0_def [symmetric] cr sc c_def [symmetric] split: prod.splits expansion.splits)
  have r: "relate_steps x ids (step_links (labelled steps)) [] s2 = (Expanded (er_relations r), s')" "er_run r = run"
    "er_jobs r = map toJobResponse created"
    using assms by (auto simp: persist_run_def run0_def [symmetric] cr sc c_def [symmetric] cj split: prod.splits expansion.splits)
  from create_step_jobs_effect [OF cj] obtain new where new: "created = new" "s2 = s1\<lparr>jobs := jobs s1 @ new\<rparr>"
    "list_all2 (step_created x c now d) (labelled steps) new" "distinct (map j_id new)" "j_id ` set new \<inter> j_id ` set (jobs s1) = {}"
    "ids = rev (zip (map (\<lambda>(_, n, _). n) (labelled steps)) (map j_id new))" by auto
  show ?thesis
    using r new run sc by (intro exI [of _ c] exI [of _ ids] exI [of _ new] exI [of _ s2]) (auto simp: c_def run0_def step_names_def)
qed

lemma cancel_frame:
  "jobs (snd (cancelExistingRunForDedupeKey k now s)) = jobs s"
  "job_relations (snd (cancelExistingRunForDedupeKey k now s)) = job_relations s"
  "projects (snd (cancelExistingRunForDedupeKey k now s)) = projects s"
proof -
  have f: "jobs (fold (\<lambda>st s. snd (updateStepRun (st_id st) u now s)) sts t) = jobs t \<and>
      job_relations (fold (\<lambda>st s. snd (updateStepRun (st_id st) u now s)) sts t) = job_relations t \<and>
      projects (fold (\<lambda>st s. snd (updateStepRun (st_id st) u now s)) sts t) = projects t" for u sts t
    by (induction sts arbitrary: t) (simp_all add: updateStepRun_def)
  have u: "updateRun i v now s = (z, t) \<Longrightarrow> jobs t = jobs s \<and> job_relations t = job_relations s \<and> projects t = projects s" for i v z t
    by (auto simp: updateRun_def split: if_splits option.splits)
  show "jobs (snd (cancelExistingRunForDedupeKey k now s)) = jobs s"
    "job_relations (snd (cancelExistingRunForDedupeKey k now s)) = job_relations s"
    "projects (snd (cancelExistingRunForDedupeKey k now s)) = projects s"
    by (auto simp: cancelExistingRunForDedupeKey_def f dest: u split: option.splits prod.splits sum.splits)
qed

definition expansion_inputs ::
  "expander_ext \<Rightarrow> string \<Rightarrow> expand_request \<Rightarrow> project_manifest list \<Rightarrow> db \<Rightarrow> (pipeline_plan \<times> jobject list) option" where
  "expansion_inputs x projectInput request ms s =
     (case load_pipeline x projectInput request ms s of
        Inl _ \<Rightarrow> None
      | Inr pl \<Rightarrow> (case select_steps request (pp_pipeline pl) of Inl _ \<Rightarrow> None | Inr steps \<Rightarrow> Some (pl, steps)))"

lemma expandPipeline_persists:
  assumes "expandPipeline x projectInput request u now ms d s = (Expanded r, s')" "\<not> xq_dry_run request"
  shows "\<exists>pl steps byStep s1. expansion_inputs x projectInput request ms s = Some (pl, steps) \<and>
    resolvePipelineActionRunEnvOverrides (xq_pipeline_name request) (pp_env pl) steps = Inr byStep \<and>
    ensureRemediationPipelinePolicy (xq_pipeline_name request) (pp_pipeline pl) steps = Inr () \<and>
    (if truthy_string (xq_dedupe_key request) then cancelExistingRunForDedupeKey (the (xq_dedupe_key request)) now s else (Inr (), s)) = (Inr (), s1) \<and>
    jobs s1 = jobs s \<and> job_relations s1 = job_relations s \<and> projects s1 = projects s \<and>
    persist_run x request pl steps byStep u now d s1 = (Expanded r, s')"
proof -
  let ?c = "if truthy_string (xq_dedupe_key request) then cancelExistingRunForDedupeKey (the (xq_dedupe_key request)) now s else (Inr (), s)"
  obtain pl where pl: "load_pipeline x projectInput request ms s = Inr pl"
    using assms(1) by (cases "load_pipeline x projectInput request ms s") (auto simp: expandPipeline_def)
  obtain s1 where s1: "?c = (Inr (), s1)"
    using assms(1) by (cases ?c; cases "fst ?c") (auto simp: expandPipeline_def pl)
  obtain steps where st: "select_steps request (pp_pipeline pl) = Inr steps"
    using assms(1) by (cases "select_steps request (pp_pipeline pl)") (auto simp: expandPipeline_def pl s1)
  have po: "ensureRemediationPipelinePolicy (xq_pipeline_name request) (pp_pipeline pl) steps = Inr ()"
    using assms(1) by (cases "ensureRemediationPipelinePolicy (xq_pipeline_name request) (pp_pipeline pl) steps")
      (auto simp: expandPipeline_def pl s1 st)
  obtain byStep where bs: "resolvePipelineActionRunEnvOverrides (xq_pipeline_name request) (pp_env pl) steps = Inr byStep"
    using assms(1) by (cases "resolvePipelineActionRunEnvOverrides (xq_pipeline_name request) (pp_env pl) steps")
      (auto simp: expandPipeline_def pl s1 st po)
  have pr: "persist_run x request pl steps byStep u now d s1 = (Expanded r, s')"
    using assms by (simp add: expandPipeline_def pl s1 st po bs)
  have "jobs s1 = jobs s \<and> job_relations s1 = job_relations s \<and> projects s1 = projects s"
    using s1 cancel_frame [of "the (xq_dedupe_key request)" now s] by (auto split: if_splits)
  then show ?thesis using pl st po bs s1 pr by (auto simp: expansion_inputs_def)
qed

lemma plan_step_fields:
  "plan_step pn tc bs (i, n, st) = Inr p \<Longrightarrow> pl_index p = i \<and> pl_name p = n \<and> pl_step p = st"
  by (auto simp: plan_step_def split: sum.splits)

lemma step_created_fields:
  assumes "step_created x c now d (i, n, st) j"
  shows "j_step_name j = Some n \<and> j_phase j = Ready \<and> j_run_id j = Some (cx_run_id c) \<and> j_project_id j = cx_project_id c \<and>
    j_priority j = min (int i) 4 \<and>
    step_token x c n st now d = Inr (sp_token_scope (j_spec j), sp_token_permissions (j_spec j))"
proof -
  from assms obtain p scope perms review where p: "plan_step (xq_pipeline_name (cx_request c)) (cx_toolchains c) (cx_by_step c) (i, n, st) = Inr p"
    "step_token x c n st now d = Inr (scope, perms)"
    "j = new_row (step_job (cx_request c) (cx_project_id c) (cx_run_id c) (cx_env_name c) (cx_user_id c) now (j_id j) p review scope perms) now"
    by (auto simp: step_created_def)
  let ?j = "new_row (step_job (cx_request c) (cx_project_id c) (cx_run_id c) (cx_env_name c) (cx_user_id c) now (j_id j) p review scope perms) now"
  have "j_step_name j = j_step_name ?j" "j_phase j = j_phase ?j" "j_run_id j = j_run_id ?j" "j_project_id j = j_project_id ?j"
    "j_priority j = j_priority ?j" "j_spec j = j_spec ?j" using p(3) by (blast intro: arg_cong)+
  then show ?thesis
    using plan_step_fields [OF p(1)] p(2) by (simp add: new_row_def step_job_def Let_def split: prod.splits)
qed

lemma labelled_nth: "i < length steps \<Longrightarrow> labelled steps ! i = (i, step_names steps ! i, steps ! i)"
  by (simp add: labelled_def step_names_def)

lemma length_labelled [simp]: "length (labelled steps) = length steps" "length (step_names steps) = length steps"
  by (simp_all add: labelled_def step_names_def)

text \<open>The links of the steps by their positions.\<close>

definition links_of :: "jobject list \<Rightarrow> (nat \<times> string) list" where
  "links_of steps = concat (map (\<lambda>i. map (Pair i) (step_depends_on (steps ! i))) [0..<length steps])"

lemma step_links_positions: "step_links (labelled steps) = map (\<lambda>(i, d). (step_names steps ! i, d)) (links_of steps)"
  by (auto simp: step_links_def links_of_def labelled_def step_names_def map_concat comp_def intro!: arg_cong [where f = concat])

lemma links_of_bound: "(i, d) \<in> set (links_of steps) \<longleftrightarrow> i < length steps \<and> d \<in> set (step_depends_on (steps ! i))"
  by (auto simp: links_of_def)

lemma step_link: "i < length steps \<Longrightarrow> e \<in> set (step_depends_on (steps ! i)) \<Longrightarrow>
    (step_names steps ! i, e) \<in> set (step_links (labelled steps))"
  unfolding step_links_positions set_map
  by (rule image_eqI [of _ _ "(i, e)"]) (simp_all add: links_of_bound)

lemma lookup_name:
  assumes "distinct names" "length js = length names" "k < length names"
  shows "map_of (rev (zip names js)) (names ! k) = Some (js ! k)"
proof (rule map_of_is_SomeI)
  show "distinct (map fst (rev (zip names js)))" using assms by (simp add: rev_map [symmetric])
  show "(names ! k, js ! k) \<in> set (rev (zip names js))" using assms by (auto simp: set_zip)
qed

lemma lookup_unknown: "length js = length names \<Longrightarrow> map_of (rev (zip names js)) n \<noteq> None \<longleftrightarrow> n \<in> set names"
  by (simp add: map_of_eq_None_iff) (metis map_fst_zip list.set_map)

lemma link_triples:
  assumes lk: "\<And>k. k < length steps \<Longrightarrow> map_of ids (step_names steps ! k) = Some (j_id (new ! k))"
    and deps: "\<And>i. i < length steps \<Longrightarrow> set (step_depends_on (steps ! i)) \<subseteq> set (step_names steps)"
  shows "(\<lambda>(a, b). (the (map_of ids a), the (map_of ids b), Blocks)) ` set (step_links (labelled steps)) =
      {(j_id (new ! i), j_id (new ! k), Blocks) | i k. i < length steps \<and> k < length steps \<and> step_names steps ! k \<in> set (step_depends_on (steps ! i))}"
    (is "?A = ?B")
proof
  show "?A \<subseteq> ?B"
  proof
    fix t
    assume "t \<in> ?A"
    then obtain i e where t: "i < length steps" "e \<in> set (step_depends_on (steps ! i))"
      "t = (the (map_of ids (step_names steps ! i)), the (map_of ids e), Blocks)"
      by (auto simp: step_links_positions links_of_bound)
    then obtain k where "k < length steps" "e = step_names steps ! k" using deps [of i] by (auto simp: in_set_conv_nth subset_iff)
    then show "t \<in> ?B" using t lk by auto
  qed
  show "?B \<subseteq> ?A"
  proof
    fix t
    assume "t \<in> ?B"
    then obtain i k where t: "i < length steps" "k < length steps" "step_names steps ! k \<in> set (step_depends_on (steps ! i))"
      "t = (j_id (new ! i), j_id (new ! k), Blocks)" by auto
    then have "(step_names steps ! i, step_names steps ! k) \<in> set (step_links (labelled steps))"
      by (intro step_link)
    then show "t \<in> ?A" using t lk by (intro image_eqI) auto
  qed
qed

lemma expansion_graph:
  assumes run: "expandPipeline x projectInput request u now ms d s = (Expanded r, s')" and dry: "\<not> xq_dry_run request"
    and inp: "expansion_inputs x projectInput request ms s = Some (pl, steps)" and dist: "distinct (step_names steps)"
  shows "\<exists>new. jobs s' = jobs s @ new \<and> length new = length steps \<and> distinct (map j_id new) \<and>
    j_id ` set new \<inter> j_id ` set (jobs s) = {} \<and>
    (\<forall>i < length steps. j_step_name (new ! i) = Some (step_names steps ! i) \<and> j_phase (new ! i) = Ready \<and>
       j_run_id (new ! i) = Some (px_run_id x) \<and> j_project_id (new ! i) = pp_project_id pl \<and>
       set (step_depends_on (steps ! i)) \<subseteq> set (step_names steps)) \<and>
    relation_triples s' = relation_triples s \<union> {(j_id (new ! i), j_id (new ! k), Blocks) | i k.
       i < length steps \<and> k < length steps \<and> step_names steps ! k \<in> set (step_depends_on (steps ! i))} \<and>
    er_run r \<in> set (pipeline_runs s') \<and> pipeline_run.pr_id (er_run r) = px_run_id x \<and> pr_status (er_run r) = ''pending''"
proof -
  from expandPipeline_persists [OF run dry] inp obtain byStep s1 where
    s1: "jobs s1 = jobs s" "job_relations s1 = job_relations s" and
    pr: "persist_run x request pl steps byStep u now d s1 = (Expanded r, s')" by auto
  from persist_run_effect [OF pr] obtain c ids new s2 where
    c: "cx_project_id c = pp_project_id pl" "cx_run_id c = px_run_id x" and
    s2: "pipeline_runs s2 = pipeline_runs s1 @ [er_run r]" "job_relations s2 = job_relations s1" "jobs s2 = jobs s1 @ new" and
    rr: "pipeline_run.pr_id (er_run r) = px_run_id x" "pr_status (er_run r) = ''pending''" and
    new: "list_all2 (step_created x c now d) (labelled steps) new" "distinct (map j_id new)" "j_id ` set new \<inter> j_id ` set (jobs s1) = {}" and
    ids: "ids = rev (zip (step_names steps) (map j_id new))" and
    rel: "relate_steps x ids (step_links (labelled steps)) [] s2 = (Expanded (er_relations r), s')" by blast
  have len: "length new = length steps" using list_all2_lengthD [OF new(1)] by simp
  have lk: "map_of ids (step_names steps ! k) = Some (j_id (new ! k))" if "k < length steps" for k
    using lookup_name [of "step_names steps" "map j_id new" k] dist that len by (simp add: ids)
  have known: "map_of ids n \<noteq> None \<longleftrightarrow> n \<in> set (step_names steps)" for n
    using lookup_unknown [of "map j_id new" "step_names steps" n] len by (simp add: ids)
  have "map_of ids a \<noteq> None" if "(a, b) \<in> set (step_links (labelled steps))" for a b
    using that lk by (auto simp: step_links_positions links_of_bound)
  note re = relate_steps_effect [OF rel this]
  have deps: "set (step_depends_on (steps ! i)) \<subseteq> set (step_names steps)" if "i < length steps" for i
  proof
    fix e
    assume "e \<in> set (step_depends_on (steps ! i))"
    then have "(step_names steps ! i, e) \<in> set (step_links (labelled steps))" using that by (intro step_link)
    then have "map_of ids e \<noteq> None" using conjunct1 [OF re, THEN bspec] by auto
    then show "e \<in> set (step_names steps)" by (simp only: known)
  qed
  have "(\<lambda>(a, b). (the (map_of ids a), the (map_of ids b), Blocks)) ` set (step_links (labelled steps)) =
      {(j_id (new ! i), j_id (new ! k), Blocks) | i k. i < length steps \<and> k < length steps \<and> step_names steps ! k \<in> set (step_depends_on (steps ! i))}"
    using lk deps by (rule link_triples)
  moreover have "j_step_name (new ! i) = Some (step_names steps ! i) \<and> j_phase (new ! i) = Ready \<and>
       j_run_id (new ! i) = Some (px_run_id x) \<and> j_project_id (new ! i) = pp_project_id pl" if "i < length steps" for i
    using step_created_fields [of x c now d i "step_names steps ! i" "steps ! i" "new ! i"] new(1) that c
    by (simp add: list_all2_conv_all_nth labelled_nth)
  ultimately show ?thesis
    using re s1 s2 new(2,3) rr len deps by (intro exI [of _ new]) (simp add: relation_triples_def)
qed

text \<open>
C30: What an expansion leaves. When a run is created for steps with distinct names, the store has gained one ready job per step, in
  the order of the steps and with new ids, that carries the step's name, the run and the project; every dependency names
  a step; the relations gained are exactly those of the job of a step to the jobs of the steps it depends on; and the run is pending.
\<close>

theorem expansion_creates_the_graph:
  assumes run: "expandPipeline x projectInput request u now ms d s = (Expanded r, s')" and dry: "\<not> xq_dry_run request"
    and inp: "expansion_inputs x projectInput request ms s = Some (pl, steps)" and dist: "distinct (step_names steps)"
  shows "\<exists>new. jobs s' = jobs s @ new \<and> length new = length steps \<and> distinct (map j_id new) \<and>
    j_id ` set new \<inter> j_id ` set (jobs s) = {} \<and>
    (\<forall>i < length steps. j_step_name (new ! i) = Some (step_names steps ! i) \<and> j_phase (new ! i) = Ready \<and>
       j_run_id (new ! i) = Some (px_run_id x) \<and> j_project_id (new ! i) = pp_project_id pl \<and>
       set (step_depends_on (steps ! i)) \<subseteq> set (step_names steps)) \<and>
    relation_triples s' = relation_triples s \<union> {(j_id (new ! i), j_id (new ! k), Blocks) | i k.
       i < length steps \<and> k < length steps \<and> step_names steps ! k \<in> set (step_depends_on (steps ! i))} \<and>
    er_run r \<in> set (pipeline_runs s') \<and> pipeline_run.pr_id (er_run r) = px_run_id x \<and> pr_status (er_run r) = ''pending''"
  using assms by (rule expansion_graph)

subsection \<open>An example\<close>

definition ex_script :: "string \<Rightarrow> string list \<Rightarrow> json" where
  "ex_script n ds = JObj ([(''name'', JStr n), (''run'', JStr (''make '' @ n)), (''depends_on'', JArr (map JStr ds))] @
     (if ds = [] then [(''permissions'', JArr [JStr ''jobs:read''])] else []))"

definition ex_pipeline_manifest :: "json list \<Rightarrow> json" where
  "ex_pipeline_manifest steps = JObj [(''pipelines'', JObj [(''ci'', JObj [(''steps'', JArr steps)])])]"

definition ex_expander :: "json list \<Rightarrow> expander_ext" where
  "ex_expander steps = \<lparr>px_yaml = (\<lambda>t. Some (ex_pipeline_manifest steps)), px_scope_schema = Some, px_run_id = ''prun_1'',
     px_hashes = (\<lambda>i. [''h'' @ show_nat i]), px_uuids = (\<lambda>(a, b). a @ ''-'' @ b)\<rparr>"

definition ex_manifests :: "project_manifest list" where
  "ex_manifests = [\<lparr>pm_id = ''man_1'', pm_project_id = ''proj_1'', pm_manifest_yaml = ''m'', pm_manifest_hash = ''x'',
     pm_git_sha = None, pm_created_at = 0, pm_updated_at = 0\<rparr>]"

definition ex_expand_request :: expand_request where
  "ex_expand_request = \<lparr>xq_pipeline_name = ''ci'', xq_env_name = None, xq_git_sha = ''abc'', xq_inputs = None, xq_only = None,
     xq_dedupe_key = None, xq_dry_run = False\<rparr>"

definition ex_expand :: "json list \<Rightarrow> expand_request \<Rightarrow> db \<Rightarrow> expand_response expansion \<times> db" where
  "ex_expand steps request s = expandPipeline (ex_expander steps) ''shop'' request (Some ''ann'') 10 ex_manifests (Some ex_access) s"

definition ex_steps :: "json list" where
  "ex_steps = [ex_script ''build'' [], ex_script ''test'' [''build'']]"

definition expanded :: "expand_response expansion \<times> db \<Rightarrow> bool" where
  "expanded z = (case fst z of Expanded _ \<Rightarrow> True | _ \<Rightarrow> False)"

lemma expandedE:
  assumes "expanded z"
  obtains r where "z = (Expanded r, snd z)"
  using assms by (cases z; cases "fst z") (auto simp: expanded_def)

lemma ex_expanded:
  "let z = ex_expand ex_steps ex_expand_request (bstore ex_batch_db)
   in expanded z \<and> map j_id (jobs (snd z)) = [''shop-h0'', ''shop-h1''] \<and>
      map (sp_token_permissions \<circ> j_spec) (jobs (snd z)) = [Some [''jobs:read''], None]"
  by code_simp

lemma ex_inputs:
  "\<exists>pl steps. expansion_inputs (ex_expander ex_steps) ''shop'' ex_expand_request ex_manifests (bstore ex_batch_db) = Some (pl, steps) \<and>
     distinct (step_names steps) \<and> length steps = 2 \<and> step_names steps ! 0 \<in> set (step_depends_on (steps ! 1))"
proof -
  have "case expansion_inputs (ex_expander ex_steps) ''shop'' ex_expand_request ex_manifests (bstore ex_batch_db) of
      Some (_, steps) \<Rightarrow> distinct (step_names steps) \<and> length steps = 2 \<and>
        step_names steps ! 0 \<in> set (step_depends_on (steps ! 1)) | None \<Rightarrow> False" by code_simp
  then show ?thesis by (auto split: option.splits)
qed

theorem expansion_creates_the_graph_witness:
  "let z = ex_expand ex_steps ex_expand_request (bstore ex_batch_db) in
   expanded z \<and> map j_id (jobs (snd z)) = [''shop-h0'', ''shop-h1''] \<and>
   (\<exists>new. jobs (snd z) = new \<and> length new = 2 \<and>
      (''shop-h1'', ''shop-h0'', Blocks) \<in> relation_triples (snd z))"
proof -
  let ?z = "ex_expand ex_steps ex_expand_request (bstore ex_batch_db)"
  have z: "expanded ?z" "map j_id (jobs (snd ?z)) = [''shop-h0'', ''shop-h1'']" "jobs (bstore ex_batch_db) = []"
    using ex_expanded by (simp_all add: Let_def ex_batch_db_def)
  obtain r where r: "?z = (Expanded r, snd ?z)" using z(1) by (rule expandedE)
  obtain pl steps where i: "expansion_inputs (ex_expander ex_steps) ''shop'' ex_expand_request ex_manifests (bstore ex_batch_db) = Some (pl, steps)"
    "distinct (step_names steps)" "length steps = 2" "step_names steps ! 0 \<in> set (step_depends_on (steps ! 1))"
    using ex_inputs by blast
  have dry: "\<not> xq_dry_run ex_expand_request" by (simp add: ex_expand_request_def)
  from expansion_creates_the_graph [OF r [unfolded ex_expand_def] dry i(1,2)] obtain new where
    new: "jobs (snd ?z) = new" "length new = 2"
      "relation_triples (snd ?z) \<supseteq> {(j_id (new ! i), j_id (new ! k), Blocks) | i k.
       i < 2 \<and> k < 2 \<and> step_names steps ! k \<in> set (step_depends_on (steps ! i))}"
    by (auto simp: ex_expand_def i(3) z(3))
  have "(j_id (new ! 1), j_id (new ! 0), Blocks) \<in> relation_triples (snd ?z)"
    by (rule subsetD [OF new(3)], rule CollectI, rule exI [of _ 1], rule exI [of _ 0]) (use i(4) in simp)
  moreover have "new ! 1 \<in> set new \<and> j_id (new ! 0) = ''shop-h0'' \<and> j_id (new ! 1) = ''shop-h1''"
    using z(2) new(1,2) by (cases new; cases "tl new") auto
  ultimately show ?thesis using z new by (simp add: Let_def)
qed

subsection \<open>Tokens\<close>







text \<open>
  Where no service is injected the check passes whatever is asked for: a user without any right starts a run whose job holds a
  permission the access check refuses the user.
\<close>

lemma unchecked_without_service: "assertActorCanGrantPermissions orgId projectId userId permissions ctxt now None = Inr ()"
  by (simp add: assertActorCanGrantPermissions_def)

lemma unheld_permission_is_granted:
  "let z = expandPipeline (ex_expander ex_steps) ''shop'' ex_expand_request (Some ''eve'') 10 ex_manifests None (bstore ex_batch_db) in
   expanded z \<and> sp_token_permissions (j_spec (jobs (snd z) ! 0)) = Some [''jobs:read''] \<and>
   actor_can ''org_1'' ''proj_1'' ''eve'' ''jobs:read'' None 10 ex_access = Inr False \<and>
   \<not> expanded (expandPipeline (ex_expander ex_steps) ''shop'' ex_expand_request (Some ''eve'') 10 ex_manifests (Some ex_access) (bstore ex_batch_db))"
  by code_simp

subsection \<open>The dry run\<close>

text \<open>The job of the dry run and the job of the run agree but for ids, the run they name and the phase.\<close>

definition previews :: "job_response \<Rightarrow> job_response \<Rightarrow> bool" where
  "previews d j \<longleftrightarrow>
     d\<lparr>jr_id := jr_id j, jr_run_id := jr_run_id j, jr_phase := jr_phase j, jr_labels := jr_labels j, jr_hints := jr_hints j\<rparr> = j \<and>
     obj_del ''pipeline_run_id'' (jr_hints d) = obj_del ''pipeline_run_id'' (jr_hints j) \<and>
     filter (\<lambda>l. \<not> starts_with ''run:'' l) (jr_labels d) = filter (\<lambda>l. \<not> starts_with ''run:'' l) (jr_labels j)"

lemma review_name_column: "review_column r = Inr v \<Longrightarrow> review_name v = r"
  by (auto simp: review_column_def split: if_splits)

lemma step_created_plan:
  assumes "step_created x c now d st j"
  shows "\<exists>p. plan_step (xq_pipeline_name (cx_request c)) (cx_toolchains c) (cx_by_step c) st = Inr p \<and>
    previews (dry_job (cx_request c) (cx_project_id c) runId (cx_env_name c) now p) (toJobResponse j)"
proof -
  obtain i n stp where st: "st = (i, n, stp)" by (cases st) auto
  from assms obtain p scope perms review where p: "plan_step (xq_pipeline_name (cx_request c)) (cx_toolchains c) (cx_by_step c) st = Inr p"
    "review_column (step_review (snd (snd st))) = Inr review"
    "j = new_row (step_job (cx_request c) (cx_project_id c) (cx_run_id c) (cx_env_name c) (cx_user_id c) now (j_id j) p review scope perms) now"
    by (auto simp: step_created_def)
  let ?j = "\<lambda>i. new_row (step_job (cx_request c) (cx_project_id c) (cx_run_id c) (cx_env_name c) (cx_user_id c) now i p review scope perms) now"
  have e: "toJobResponse j = toJobResponse (?j (j_id j))" using p(3) by (rule arg_cong)
  have v: "previews (dry_job (cx_request c) (cx_project_id c) runId (cx_env_name c) now p) (toJobResponse (?j k))" for k
  proof -
    obtain t ds md where dsc: "describePipelineStepExecution (pl_step p) (pl_execution p) (pl_name p) = (t, ds, md)" by (cases "describePipelineStepExecution (pl_step p) (pl_execution p) (pl_name p)")
    have "pl_step p = stp" using plan_step_fields p(1) unfolding st by blast
    then have rv: "review_name review = step_review (pl_step p)" using review_name_column [OF p(2)] by (simp add: st)
    show ?thesis
      by (simp add: previews_def dry_job_def toJobResponse_def step_job_def new_row_def Let_def dsc rv step_hints_def step_labels_def
          obj_del_def starts_with_def json_date_def)
  qed
  have "previews (dry_job (cx_request c) (cx_project_id c) runId (cx_env_name c) now p) (toJobResponse j)"
    by (subst e) (rule v)
  then show ?thesis using p(1) by blast
qed

lemma step_plans:
  assumes "list_all2 (step_created x c now d) ls js"
  shows "\<exists>plans. list_all2 (\<lambda>st p. plan_step (xq_pipeline_name (cx_request c)) (cx_toolchains c) (cx_by_step c) st = Inr p) ls plans \<and>
    list_all2 (\<lambda>p j. previews (dry_job ((cx_request c)\<lparr>xq_dry_run := True\<rparr>) (cx_project_id c) runId (cx_env_name c) now p) (toJobResponse j)) plans js"
  using assms
proof (induction rule: list_all2_induct)
  case (Cons st ls j js)
  have "dry_job ((cx_request c)\<lparr>xq_dry_run := True\<rparr>) = dry_job (cx_request c)" by (simp add: fun_eq_iff dry_job_def)
  then show ?case using step_created_plan [OF Cons(1), of runId] Cons(3) by (auto simp: list_all2_Cons1)
qed simp

lemma plan_steps_all: "list_all2 (\<lambda>st p. plan_step pn tc bs st = Inr p) ls ps \<Longrightarrow> plan_steps pn tc bs ls = Inr ps"
  by (induction ls ps rule: list_all2_induct) simp_all

lemma dry_relations_all:
  "(\<And>i n e. (i, n, e) \<in> set links \<Longrightarrow> map_of indices e = Some (f e)) \<Longrightarrow>
     dry_relations indices links = Inr (map (\<lambda>(i, n, e). (dry_id n i, dry_id e (f e))) links)"
proof (induction links)
  case (Cons l links)
  obtain i n e where l: "l = (i, n, e)" by (cases l) auto
  have "map_of indices e = Some (f e)" using Cons.prems [of i n e] by (simp add: l)
  moreover have "dry_relations indices links = Inr (map (\<lambda>(i, n, e). (dry_id n i, dry_id e (f e))) links)"
    by (rule Cons.IH) (use Cons.prems in auto)
  ultimately show ?case by (simp add: l)
qed simp

definition position :: "string list \<Rightarrow> string \<Rightarrow> nat" where
  "position names n = length (takeWhile (\<lambda>m. m \<noteq> n) names)"

lemma position: "n \<in> set names \<Longrightarrow> position names n < length names \<and> names ! position names n = n"
  by (induction names) (auto simp: position_def)

lemma dry_links:
  "concat (map (\<lambda>(i, name, step). map (\<lambda>e. (i, name, e)) (step_depends_on step)) (labelled steps)) =
     map (\<lambda>(i, e). (i, step_names steps ! i, e)) (links_of steps)"
  by (auto simp: links_of_def labelled_def step_names_def map_concat comp_def intro!: arg_cong [where f = concat])

lemma dry_indices: "map (\<lambda>(i, name, _). (name, i)) (labelled steps) = zip (step_names steps) [0..<length steps]"
  by (auto simp: labelled_def step_names_def zip_map1 zip_same_conv_map)

lemma buildDryRunResponse_relations:
  assumes "list_all2 (\<lambda>st p. plan_step (xq_pipeline_name request) tc bs st = Inr p) (labelled steps) plans"
    and "distinct (step_names steps)" "\<And>i. i < length steps \<Longrightarrow> set (step_depends_on (steps ! i)) \<subseteq> set (step_names steps)"
  shows "\<exists>rd. buildDryRunResponse pid request hash steps env tc bs now = Inr rd \<and>
    er_jobs rd = map (dry_job request pid (''dry-run-'' @ show_int now) env now) plans \<and>
    er_relations rd = map (\<lambda>(i, e). (dry_id (step_names steps ! i) i, dry_id e (position (step_names steps) e))) (links_of steps)"
proof -
  let ?names = "step_names steps"
  have look: "map_of (rev (zip ?names [0..<length steps])) e = Some (position ?names e)"
    if "(i, n, e) \<in> set (map (\<lambda>(i, e). (i, ?names ! i, e)) (links_of steps))" for i n e
  proof -
    have "e \<in> set ?names" using that assms(3) [THEN subsetD] by (auto simp: links_of_bound)
    then show ?thesis using lookup_name [OF assms(2), of "[0..<length steps]" "position ?names e"] position [of e ?names] by auto
  qed
  have rel: "dry_relations (rev (map (\<lambda>(i, name, _). (name, i)) (labelled steps)))
      (concat (map (\<lambda>(i, name, step). map (\<lambda>e. (i, name, e)) (step_depends_on step)) (labelled steps))) =
      Inr (map (\<lambda>(i, e). (dry_id (?names ! i) i, dry_id e (position ?names e))) (links_of steps))"
    unfolding dry_links dry_indices by (subst dry_relations_all [OF look]) (auto simp: comp_def)
  show ?thesis unfolding buildDryRunResponse_def Let_def plan_steps_all [OF assms(1)] rel sum.case by simp
qed

lemma expandPipeline_dry:
  assumes "expansion_inputs x projectInput request ms s = Some (pl, steps)"
    and "resolvePipelineActionRunEnvOverrides (xq_pipeline_name request) (pp_env pl) steps = Inr byStep"
    and "ensureRemediationPipelinePolicy (xq_pipeline_name request) (pp_pipeline pl) steps = Inr ()"
    and "(if truthy_string (xq_dedupe_key request) then cancelExistingRunForDedupeKey (the (xq_dedupe_key request)) now s else (Inr (), s)) = (Inr (), s1)"
    and "buildDryRunResponse (pp_project_id pl) (request\<lparr>xq_dry_run := True\<rparr>) (pp_manifest_hash pl) steps (pp_env_name pl) (pp_toolchains pl) byStep now = Inr rd"
  shows "expandPipeline x projectInput (request\<lparr>xq_dry_run := True\<rparr>) u now ms d s = (Expanded rd, s1)"
proof -
  have l: "load_pipeline x projectInput (request\<lparr>xq_dry_run := True\<rparr>) ms s = load_pipeline x projectInput request ms s"
    by (simp add: load_pipeline_def cong: sum.case_cong option.case_cong)
  have "select_steps (request\<lparr>xq_dry_run := True\<rparr>) p = select_steps request p" for p
    by (simp add: select_steps_def Let_def split: option.split json.split list.split)
  then show ?thesis using assms by (auto simp: expandPipeline_def l expansion_inputs_def split: sum.splits)
qed

text \<open>
C31: The dry run previews the run. If a run for steps with distinct names would be created, the dry run of the same request answers
  with the same jobs, but for their ids, the run they name and their phases, and with the same relations between them, and
  creates no job.
\<close>

theorem dry_run_previews_the_run:
  assumes run: "expandPipeline x projectInput request u now ms d s = (Expanded r, s')" and dry: "\<not> xq_dry_run request"
    and inp: "expansion_inputs x projectInput request ms s = Some (pl, steps)" and dist: "distinct (step_names steps)"
  shows "\<exists>rd s1 links. expandPipeline x projectInput (request\<lparr>xq_dry_run := True\<rparr>) u now ms d s = (Expanded rd, s1) \<and>
    jobs s1 = jobs s \<and> job_relations s1 = job_relations s \<and> list_all2 previews (er_jobs rd) (er_jobs r) \<and>
    (\<forall>(i, k) \<in> set links. i < length (er_jobs r) \<and> k < length (er_jobs r)) \<and>
    er_relations rd = map (\<lambda>(i, k). (jr_id (er_jobs rd ! i), jr_id (er_jobs rd ! k))) links \<and>
    er_relations r = map (\<lambda>(i, k). (jr_id (er_jobs r ! i), jr_id (er_jobs r ! k))) links"
proof -
  let ?names = "step_names steps" and ?rq = "request\<lparr>xq_dry_run := True\<rparr>" and ?run = "''dry-run-'' @ show_int now"
  from expandPipeline_persists [OF run dry] inp obtain byStep s1 where
    e: "resolvePipelineActionRunEnvOverrides (xq_pipeline_name request) (pp_env pl) steps = Inr byStep"
      "ensureRemediationPipelinePolicy (xq_pipeline_name request) (pp_pipeline pl) steps = Inr ()"
      "(if truthy_string (xq_dedupe_key request) then cancelExistingRunForDedupeKey (the (xq_dedupe_key request)) now s else (Inr (), s)) = (Inr (), s1)" and
    s1: "jobs s1 = jobs s" "job_relations s1 = job_relations s" and
    pr: "persist_run x request pl steps byStep u now d s1 = (Expanded r, s')" by (elim exE conjE) auto
  from persist_run_effect [OF pr] obtain c ids new s2 where
    c: "cx_request c = request" "cx_project_id c = pp_project_id pl" "cx_toolchains c = pp_toolchains pl" "cx_by_step c = byStep" "cx_env_name c = pp_env_name pl" and
    new: "list_all2 (step_created x c now d) (labelled steps) new" and
    ids: "ids = rev (zip ?names (map j_id new))" "er_jobs r = map toJobResponse new" and
    rel: "relate_steps x ids (step_links (labelled steps)) [] s2 = (Expanded (er_relations r), s')" by blast
  have len: "length new = length steps" using list_all2_lengthD [OF new] by simp
  from expansion_graph [OF run dry inp dist] have
    deps: "\<And>i. i < length steps \<Longrightarrow> set (step_depends_on (steps ! i)) \<subseteq> set ?names" by blast
  from step_plans [OF new, of ?run] obtain plans where
    plans: "list_all2 (\<lambda>st p. plan_step (xq_pipeline_name ?rq) (pp_toolchains pl) byStep st = Inr p) (labelled steps) plans"
      "list_all2 (\<lambda>p j. previews (dry_job ?rq (pp_project_id pl) ?run (pp_env_name pl) now p) (toJobResponse j)) plans new"
    by (auto simp: c)
  from buildDryRunResponse_relations [OF plans(1) dist deps] obtain rd where
    rd: "buildDryRunResponse (pp_project_id pl) ?rq (pp_manifest_hash pl) steps (pp_env_name pl) (pp_toolchains pl) byStep now = Inr rd"
      "er_jobs rd = map (dry_job ?rq (pp_project_id pl) ?run (pp_env_name pl) now) plans"
      "er_relations rd = map (\<lambda>(i, e). (dry_id (?names ! i) i, dry_id e (position ?names e))) (links_of steps)" by blast
  define links where "links = map (\<lambda>(i, e). (i, position ?names e)) (links_of steps)"
  have lb: "i < length steps \<and> e \<in> set ?names \<and> position ?names e < length steps" if "(i, e) \<in> set (links_of steps)" for i e
    using that deps position [of e ?names] by (auto simp: links_of_bound)
  have lk: "map_of ids (?names ! k) = Some (j_id (new ! k))" if "k < length steps" for k
    using lookup_name [of ?names "map j_id new" k] dist that len by (simp add: ids)
  have jd: "jr_id (er_jobs rd ! k) = dry_id (?names ! k) k" if "k < length steps" for k
    using plans(1) that list_all2_lengthD [OF plans(1)] plan_step_fields [of _ _ _ k "?names ! k" "steps ! k" "plans ! k"]
    by (auto simp: rd(2) list_all2_conv_all_nth labelled_nth dry_job_def Let_def split: prod.splits)
  have jr: "jr_id (er_jobs r ! k) = j_id (new ! k)" if "k < length steps" for k
    using that len by (simp add: ids(2) toJobResponse_def)
  have from_known: "\<And>a b. (a, b) \<in> set (step_links (labelled steps)) \<Longrightarrow> map_of ids a \<noteq> None"
    using lk by (auto simp: step_links_positions links_of_bound)
  have "er_relations r = [] @ map (\<lambda>(a, b). (the (map_of ids a), the (map_of ids b))) (step_links (labelled steps))"
    by (rule conjunct1 [OF conjunct2 [OF relate_steps_effect [OF rel]]]) (erule from_known)
  also have "\<dots> = map (\<lambda>(i, k). (jr_id (er_jobs r ! i), jr_id (er_jobs r ! k))) links"
    unfolding step_links_positions links_def map_map append_Nil
    by (rule map_cong [OF refl]) (auto simp: lk jr dest!: lb, metis lk jr option.sel position)
  finally have rr: "er_relations r = map (\<lambda>(i, k). (jr_id (er_jobs r ! i), jr_id (er_jobs r ! k))) links" .
  have "er_relations rd = map (\<lambda>(i, k). (jr_id (er_jobs rd ! i), jr_id (er_jobs rd ! k))) links"
    unfolding rd(3) links_def map_map
    by (rule map_cong [OF refl]) (auto simp: jd dest!: lb, metis jd position)
  moreover have "list_all2 previews (er_jobs rd) (er_jobs r)" using plans(2) by (simp add: rd(2) ids(2) list_all2_map1 list_all2_map2)
  moreover have "\<forall>(i, k) \<in> set links. i < length (er_jobs r) \<and> k < length (er_jobs r)" using lb len by (auto simp: links_def ids(2))
  ultimately show ?thesis using expandPipeline_dry [OF inp e rd(1)] s1 rr by blast
qed

theorem dry_run_previews_the_run_witness:
  "let z = ex_expand ex_steps ex_expand_request (bstore ex_batch_db);
       y = ex_expand ex_steps (ex_expand_request\<lparr>xq_dry_run := True\<rparr>) (bstore ex_batch_db) in
   expanded z \<and> (\<exists>r rd. fst z = Expanded r \<and> fst y = Expanded rd \<and> jobs (snd y) = [] \<and> list_all2 previews (er_jobs rd) (er_jobs r))"
proof -
  let ?z = "ex_expand ex_steps ex_expand_request (bstore ex_batch_db)"
  have z: "expanded ?z" "jobs (bstore ex_batch_db) = []" using ex_expanded by (auto simp: Let_def ex_batch_db_def)
  obtain r where r: "?z = (Expanded r, snd ?z)" using z(1) by (rule expandedE)
  obtain pl steps where i: "expansion_inputs (ex_expander ex_steps) ''shop'' ex_expand_request ex_manifests (bstore ex_batch_db) = Some (pl, steps)"
    "distinct (step_names steps)" using ex_inputs by blast
  have dry: "\<not> xq_dry_run ex_expand_request" by (simp add: ex_expand_request_def)
  obtain rd s1 where "ex_expand ex_steps (ex_expand_request\<lparr>xq_dry_run := True\<rparr>) (bstore ex_batch_db) = (Expanded rd, s1)"
    "jobs s1 = jobs (bstore ex_batch_db)" "list_all2 previews (er_jobs rd) (er_jobs r)"
    using dry_run_previews_the_run [OF r [unfolded ex_expand_def] dry i, folded ex_expand_def] by blast
  then show ?thesis using z r by (auto simp: Let_def) (metis fst_conv)
qed

subsection \<open>Where the code falls short\<close>

definition ex_plain :: "string \<Rightarrow> string list \<Rightarrow> json" where
  "ex_plain n ds = JObj [(''name'', JStr n), (''run'', JStr ''make''), (''depends_on'', JArr (map JStr ds))]"

text \<open>
  A dependency on a step that does not exist is found only after all jobs are created. The request is refused, but the run and its
  jobs stay, without the relations: the scheduler takes every step at once.
\<close>

lemma unknown_dependency_leaves_ready_jobs:
  "let z = ex_expand [ex_plain ''a'' [], ex_plain ''b'' [''missing'', ''a'']] ex_expand_request (bstore ex_batch_db)
   in fst z = Refused (Http (Bad_request ''Step \"b\" depends on unknown step \"missing\"'')) \<and>
      map j_step_name (getReadyJobs ''proj_1'' None None 20 (snd z)) = [Some ''a'', Some ''b'']"
  by code_simp

text \<open>Steps that depend on each other are expanded, and none of their jobs ever becomes ready to run.\<close>

lemma cyclic_pipeline_is_accepted:
  "let z = ex_expand [ex_plain ''a'' [''b''], ex_plain ''b'' [''a'']] ex_expand_request (bstore ex_batch_db)
   in expanded z \<and> map j_phase (jobs (snd z)) = [Ready, Ready] \<and> getReadyJobs ''proj_1'' None None 20 (snd z) = []"
  by code_simp

text \<open>
  A dry run with the deduplication key of an active run cancels that run. The jobs of a cancelled run keep their
  phase, so they are still scheduled.
\<close>

definition ex_keyed :: expand_request where
  "ex_keyed = ex_expand_request\<lparr>xq_dedupe_key := Some ''main''\<rparr>"

lemma dry_run_cancels_the_active_run:
  "let s1 = snd (ex_expand [ex_plain ''a'' []] ex_keyed (bstore ex_batch_db));
       z = ex_expand [ex_plain ''a'' []] (ex_keyed\<lparr>xq_dry_run := True\<rparr>) s1
   in map pr_status (pipeline_runs s1) = [''pending''] \<and> expanded z \<and> map pr_status (pipeline_runs (snd z)) = [''cancelled''] \<and>
      map j_step_name (getReadyJobs ''proj_1'' None None 20 (snd z)) = [Some ''a'']"
  by code_simp

text \<open>The jobs are ready before their relations exist: another client can take a dependent step in between.\<close>

lemma dependent_step_is_exposed:
  assumes "create_step_jobs x c now d ls [] [] s = (Expanded (created, ids), s')"
  shows "job_relations s' = job_relations s \<and> (\<forall>j \<in> set created. j_phase j = Ready \<and> j \<in> set (jobs s'))"
proof -
  from create_step_jobs_effect [OF assms] have c: "s' = s\<lparr>jobs := jobs s @ created\<rparr>" "list_all2 (step_created x c now d) ls created" by auto
  have "j_phase j = Ready" if "j \<in> set created" for j
    using that c(2) step_created_fields by (metis in_set_conv_nth list_all2_conv_all_nth prod_cases3)
  then show ?thesis using c(1) by auto
qed

end
