(* ===== verification/Budget.thy ===== *)
theory Budget
  imports Pricing "HOL-Library.AList"
begin

section \<open>Budgets of running attempts\<close>

text \<open>
  \<^verbatim>\<open>packages/shared/src/invoke/budget-enforcement.ts\<close> and the readers of \<^verbatim>\<open>invoke/types.ts\<close>: the limits of a job,
  the weighted count of its tokens, and the enforcer that follows the model calls of a harness and has it
  killed. The answers of the database facade are the record \<open>budget_db\<close>; the clock is an argument of
  every check. A handler of the enforcer runs without interruption up to the append of its log, after
  which it changes nothing, so a handler is one step; \<open>logged\<close> says whether that append succeeds. The text
  of a number that is not an integer is the parameter \<open>num\<close>.
\<close>

subsection \<open>Limits of a job\<close>

record max_cost =
  mx_currency :: string
  mx_amount :: rat

definition readPositiveIntHint :: "json option \<Rightarrow> int option" where
  "readPositiveIntHint v = (case v of Some (JNum n) \<Rightarrow> if n \<le> 0 then None else Some \<lfloor>n\<rfloor> | _ \<Rightarrow> None)"

definition readMaxCostHint :: "json option \<Rightarrow> max_cost option" where
  "readMaxCostHint v =
     (case v of
        Some (JObj obj) \<Rightarrow>
          (let currency = (case obj_get obj ''currency'' of Some (JStr t) \<Rightarrow> to_lower (js_trim t) | _ \<Rightarrow> []);
               amount = (case obj_get obj ''amount'' of Some (JNum n) \<Rightarrow> Some n | Some (JStr t) \<Rightarrow> text_number t | _ \<Rightarrow> None)
           in if currency = [] then None
              else case amount of
                  None \<Rightarrow> None
                | Some a \<Rightarrow> if a \<le> 0 then None else Some \<lparr>mx_currency = currency, mx_amount = a\<rparr>)
      | _ \<Rightarrow> None)"

record named_rate_card =
  nr_name :: string
  nr_version :: int
  nr_effective_at :: string
  nr_rates :: rate_card

record budget_config =
  bg_max_tokens :: "int option"
  bg_max_cost :: "max_cost option"
  bg_rate_card :: named_rate_card
  bg_markup_pct :: rat
  bg_currency :: string
  bg_fx :: "fx_rate option"
  bg_resource_class :: "string option"
  bg_requested_vcpu :: "rat option"
  bg_requested_memory_gib :: "rat option"
  bg_execution_started_at :: timestamp

record rate_card_row =
  cw_name :: string
  cw_version :: int
  cw_effective_at :: timestamp
  cw_rates :: rate_card

record exchange_row =
  xr_rate :: string
  xr_fetched_at :: timestamp
  xr_source :: string

record budget_db =
  bb_job :: "string \<Rightarrow> jobject option option"
  bb_setting :: "string \<Rightarrow> string option"
  bb_rate_card :: "string \<Rightarrow> timestamp \<Rightarrow> rate_card_row option"
  bb_exchange :: "string \<Rightarrow> string \<Rightarrow> exchange_row option"
  bb_manifest_defaults :: "string \<Rightarrow> jobject option"
  bb_org_billing :: "string \<Rightarrow> json option"
  bb_execution_start :: "string \<Rightarrow> timestamp option"

definition resolveResourceClassForJob ::
  "budget_db \<Rightarrow> string \<Rightarrow> string \<Rightarrow> string option \<times> resource_class_spec option" where
  "resolveResourceClassForJob db jobId projectId =
     (let resourceClasses = or_default DEFAULT_RESOURCE_CLASSES_V1 (parseResourceClassesV1 (bb_setting db ''resource_classes''));
          name = resolveResourceClassName (Option.bind (bb_job db jobId) id) (bb_manifest_defaults db projectId)
                   (Some DEFAULT_RESOURCE_CLASS_NAME)
      in (name, getResourceClassSpec (Some resourceClasses) name))"

definition system_billing_defaults :: "budget_db \<Rightarrow> billing_defaults" where
  "system_billing_defaults db =
     (case bb_setting db ''billing.defaults'' of
        None \<Rightarrow> DEFAULT_BILLING_DEFAULTS_V1
      | Some t \<Rightarrow> if t = [] then DEFAULT_BILLING_DEFAULTS_V1
          else or_default DEFAULT_BILLING_DEFAULTS_V1 (parseBillingDefaultsV1 t))"

definition rate_card_at :: "budget_db \<Rightarrow> string \<Rightarrow> timestamp \<Rightarrow> named_rate_card" where
  "rate_card_at db name now =
     (case bb_rate_card db name now of
        Some r \<Rightarrow> \<lparr>nr_name = cw_name r, nr_version = cw_version r, nr_effective_at = iso_date (cw_effective_at r),
                  nr_rates = cw_rates r\<rparr>
      | None \<Rightarrow> \<lparr>nr_name = DEFAULT_RATE_CARD_NAME, nr_version = DEFAULT_RATE_CARD_VERSION,
                nr_effective_at = DEFAULT_RATE_CARD_EFFECTIVE_AT, nr_rates = DEFAULT_RATE_CARD_V1\<rparr>)"

definition exchange_snapshot :: "budget_db \<Rightarrow> string \<Rightarrow> fx_rate option" where
  "exchange_snapshot db currency =
     (if currency = ''usd'' then None
      else map_option (\<lambda>r. \<lparr>fx_rate_text = xr_rate r, fx_fetched_at = iso_date (xr_fetched_at r), fx_source = xr_source r\<rparr>)
             (bb_exchange db ''usd'' currency))"

definition no_token_limit :: "int option \<Rightarrow> bool" where
  "no_token_limit maxTokens = (maxTokens = None \<or> maxTokens = Some 0)"

definition resolveBudgetEnforcementConfig ::
  "budget_db \<Rightarrow> string \<Rightarrow> string \<Rightarrow> string \<Rightarrow> timestamp \<Rightarrow> budget_config option" where
  "resolveBudgetEnforcementConfig db jobId projectId attemptId now =
     (case bb_job db jobId of
        None \<Rightarrow> None
      | Some jobHints \<Rightarrow>
          (let hints = or_default [] jobHints;
               maxTokens = readPositiveIntHint (obj_get hints ''max_tokens'');
               maxCost = readMaxCostHint (obj_get hints ''max_cost'')
           in if no_token_limit maxTokens \<and> maxCost = None then None
              else
                (let billing = resolveBillingConfigV1 (system_billing_defaults db) (bb_org_billing db projectId);
                     billingCurrency = to_lower (bd_billing_currency billing);
                     enforcementCurrency = to_lower (or_default billingCurrency (map_option mx_currency maxCost));
                     (className, spec) = resolveResourceClassForJob db jobId projectId
                 in Some \<lparr>bg_max_tokens = maxTokens, bg_max_cost = maxCost,
                      bg_rate_card = rate_card_at db (bd_rate_card_name billing) now,
                      bg_markup_pct = bd_markup_pct billing, bg_currency = enforcementCurrency,
                      bg_fx = exchange_snapshot db enforcementCurrency,
                      bg_resource_class = className, bg_requested_vcpu = map_option rc_vcpu spec,
                      bg_requested_memory_gib = map_option rc_memory_gib spec,
                      bg_execution_started_at = or_default now (bb_execution_start db attemptId)\<rparr>)))"

subsection \<open>Counting tokens\<close>

text \<open>\<^verbatim>\<open>clampTokenCount\<close> has the body of \<^verbatim>\<open>clampNonNegativeInt\<close>.\<close>

definition clampTokenCount :: "rat \<Rightarrow> int" where
  "clampTokenCount n = (if n \<le> 0 then 0 else \<lfloor>n\<rfloor>)"

definition positiveRate :: "bignumber \<Rightarrow> string option \<Rightarrow> rat option" where
  "positiveRate B v =
     (case v of
        None \<Rightarrow> None
      | Some t \<Rightarrow> (case bn_parse B t of None \<Rightarrow> None | Some r \<Rightarrow> if r \<le> 0 then None else Some r))"

definition cacheReadWeightFor :: "bignumber \<Rightarrow> rate_card \<Rightarrow> llm_usage \<Rightarrow> rat option" where
  "cacheReadWeightFor B rateCard e =
     (let rate = getTokenRate rateCard e
      in case (positiveRate B (map_option tr_input rate), positiveRate B (Option.bind rate tr_cache_read)) of
           (Some inputRate, Some cacheReadRate) \<Rightarrow>
             if inputRate \<le> cacheReadRate then None else Some (bn_quot B cacheReadRate inputRate)
         | _ \<Rightarrow> None)"

definition sumTokensRaw :: "token_usage \<Rightarrow> int" where
  "sumTokensRaw u =
     clampTokenCount (tu_input u) + clampTokenCount (tu_output u) + clampTokenCount (tu_cache_read u)
     + clampTokenCount (tu_cache_write u) + clampTokenCount (tu_reasoning u)"

definition sumTokensWeighted :: "token_usage \<Rightarrow> rat option \<Rightarrow> rat" where
  "sumTokensWeighted u cacheReadWeight =
     (let fullWeightTokens = clampTokenCount (tu_input u) + clampTokenCount (tu_output u)
            + clampTokenCount (tu_cache_write u) + clampTokenCount (tu_reasoning u)
      in of_int fullWeightTokens + or_default 1 cacheReadWeight * of_int (clampTokenCount (tu_cache_read u)))"

record token_breakdown =
  tb_total_tokens :: int
  tb_weighted_tokens :: int
  tb_cache_read_tokens :: int
  tb_cache_read_token_weight :: "rat option"
  tb_cache_read_tokens_excluded :: int

definition cache_read_weights :: "bignumber \<Rightarrow> rate_card \<Rightarrow> llm_usage list \<Rightarrow> rat list" where
  "cache_read_weights B rateCard entries =
     remdups (map (\<lambda>e. bn_places B 8 (or_default 1 (cacheReadWeightFor B rateCard e)))
       (filter (\<lambda>e. 0 < clampTokenCount (tu_cache_read (lu_usage e))) entries))"

definition calculateBudgetTokenBreakdown :: "bignumber \<Rightarrow> rate_card \<Rightarrow> llm_usage list \<Rightarrow> token_breakdown" where
  "calculateBudgetTokenBreakdown B rateCard entries =
     (let totalTokens = sum_list (map (\<lambda>e. sumTokensRaw (lu_usage e)) entries);
          cacheReadTokens = sum_list (map (\<lambda>e. clampTokenCount (tu_cache_read (lu_usage e))) entries);
          weightedTokens = sum_list (map (\<lambda>e. sumTokensWeighted (lu_usage e) (cacheReadWeightFor B rateCard e)) entries);
          weightedTokenCount = \<lfloor>weightedTokens\<rfloor>;
          weight = (case cache_read_weights B rateCard entries of
              [w] \<Rightarrow> if w < 1 then Some (of_int (js_round (w * 10000)) / 10000) else None
            | _ \<Rightarrow> None)
      in \<lparr>tb_total_tokens = totalTokens, tb_weighted_tokens = weightedTokenCount,
          tb_cache_read_tokens = cacheReadTokens, tb_cache_read_token_weight = weight,
          tb_cache_read_tokens_excluded = max 0 (totalTokens - weightedTokenCount)\<rparr>)"

definition formatCacheReadWeight :: "rat option \<Rightarrow> string" where
  "formatCacheReadWeight w = (case w of None \<Rightarrow> ''full/mixed'' | Some q \<Rightarrow> js_toFixed 2 q)"

subsection \<open>The enforcer\<close>

record enforcer =
  en_usage :: "(string \<times> llm_usage) list"
  en_killIssued :: bool
  en_summaryAppended :: bool
  en_interval :: bool
  en_exceededError :: "string option"
  en_kills :: nat
  en_logs :: "(string \<times> jobject) list"

definition new_enforcer :: enforcer where
  "new_enforcer = \<lparr>en_usage = [], en_killIssued = False, en_summaryAppended = False, en_interval = False,
     en_exceededError = None, en_kills = 0, en_logs = []\<rparr>"

record budget_state =
  bs_currency :: string
  bs_tokens :: token_breakdown
  bs_estimated_total :: "rat option"
  bs_byok_total :: "rat option"
  bs_billed_total :: rat

definition no_tokens :: token_usage where
  "no_tokens = \<lparr>tu_input = 0, tu_output = 0, tu_cache_read = 0, tu_cache_write = 0, tu_reasoning = 0\<rparr>"

definition read_usage :: "json \<Rightarrow> token_usage" where
  "read_usage u =
     \<lparr>tu_input = number_or_zero (json_get u ''input_tokens''),
      tu_output = number_or_zero (json_get u ''output_tokens''),
      tu_cache_read = number_or_zero (json_get u ''cache_read_tokens''),
      tu_cache_write = number_or_zero (json_get u ''cache_write_tokens''),
      tu_reasoning = number_or_zero (json_get u ''reasoning_tokens'')\<rparr>"

definition add_usage :: "token_usage \<Rightarrow> token_usage \<Rightarrow> token_usage" where
  "add_usage u v =
     \<lparr>tu_input = tu_input u + tu_input v, tu_output = tu_output u + tu_output v,
      tu_cache_read = tu_cache_read u + tu_cache_read v, tu_cache_write = tu_cache_write u + tu_cache_write v,
      tu_reasoning = tu_reasoning u + tu_reasoning v\<rparr>"

definition text_or :: "string \<Rightarrow> json option \<Rightarrow> string" where
  "text_or d v = (case v of Some (JStr t) \<Rightarrow> t | _ \<Rightarrow> d)"

fun source_name :: "usage_source \<Rightarrow> string" where
  "source_name Byok = ''byok''"
| "source_name Managed = ''managed''"

definition usage_key :: "usage_source \<Rightarrow> string \<Rightarrow> string \<Rightarrow> string" where
  "usage_key source provider model = source_name source @ '':'' @ provider @ '':'' @ model"

text \<open>The usage of a line that reports a successful call.\<close>

definition call_usage :: "jobject \<Rightarrow> json option" where
  "call_usage line =
     (if text_or ''ok'' (obj_get line ''status'') = ''ok'' \<and> json_truthy (obj_get line ''usage'')
      then obj_get line ''usage'' else None)"

definition call_source :: "jobject \<Rightarrow> usage_source" where
  "call_source line = (if text_or ''byok'' (obj_get line ''source'') = ''managed'' then Managed else Byok)"

definition record_call :: "jobject \<Rightarrow> (string \<times> llm_usage) list \<Rightarrow> (string \<times> llm_usage) list" where
  "record_call line agg =
     (case call_usage line of
        None \<Rightarrow> agg
      | Some u \<Rightarrow>
          (let provider = text_or ''unknown'' (obj_get line ''provider'');
               model = text_or ''unknown'' (obj_get line ''model'');
               source = call_source line;
               key = usage_key source provider model;
               existing = or_default \<lparr>lu_provider = provider, lu_model = model, lu_source = source, lu_usage = no_tokens\<rparr>
                            (map_of agg key)
           in AList.update key (existing\<lparr>lu_usage := add_usage (lu_usage existing) (read_usage u)\<rparr>) agg))"

definition elapsed_usage :: "budget_config \<Rightarrow> timestamp \<Rightarrow> compute_usage" where
  "elapsed_usage cfg now =
     (let elapsedSeconds = max 0 (of_int (now - bg_execution_started_at cfg) / 1000)
      in \<lparr>cu_resource_class = bg_resource_class cfg,
          cu_vcpu_seconds = or_default 0 (bg_requested_vcpu cfg) * elapsedSeconds,
          cu_memory_gib_seconds = or_default 0 (bg_requested_memory_gib cfg) * elapsedSeconds\<rparr>)"

definition estimateState :: "bignumber \<Rightarrow> budget_config \<Rightarrow> timestamp \<Rightarrow> enforcer \<Rightarrow> budget_state" where
  "estimateState B cfg now e =
     (let currency = bg_currency cfg;
          fxRate = (if currency = ''usd'' then Some 1
                    else text_number (or_default ''1'' (map_option fx_rate_text (bg_fx cfg))));
          entries = map snd (en_usage e);
          (base, billed) = calculateBilledCost B (nr_rates (bg_rate_card cfg)) entries (Some (elapsed_usage cfg now))
                             (bg_markup_pct cfg) currency (bg_fx cfg);
          billedTotal = or_default 0 (text_number (mo_amount (bl_total billed)));
          byokUsd = or_default 0 (text_number (mo_amount (bc_llm_byok base)));
          byokTotal = map_option (\<lambda>r. byokUsd * r) fxRate
      in \<lparr>bs_currency = currency,
          bs_tokens = calculateBudgetTokenBreakdown B (nr_rates (bg_rate_card cfg)) entries,
          bs_estimated_total = map_option (\<lambda>b. billedTotal + b) byokTotal,
          bs_byok_total = byokTotal, bs_billed_total = billedTotal\<rparr>)"

definition fixed_or_nan :: "rat option \<Rightarrow> string" where
  "fixed_or_nan x = (case x of None \<Rightarrow> ''NaN'' | Some q \<Rightarrow> js_toFixed 6 q)"

definition max_cost_json :: "max_cost option \<Rightarrow> json" where
  "max_cost_json m =
     (case m of None \<Rightarrow> JNull | Some c \<Rightarrow> JObj [(''currency'', JStr (mx_currency c)), (''amount'', JNum (mx_amount c))])"

definition state_fields :: "budget_config \<Rightarrow> budget_state \<Rightarrow> jobject" where
  "state_fields cfg st =
     [(''max_tokens'', case bg_max_tokens cfg of None \<Rightarrow> JNull | Some n \<Rightarrow> JNum (of_int n)),
      (''max_cost'', max_cost_json (bg_max_cost cfg)),
      (''currency'', JStr (bs_currency st)),
      (''estimated_total'', JStr (fixed_or_nan (bs_estimated_total st))),
      (''estimated_byok_total'', JStr (fixed_or_nan (bs_byok_total st))),
      (''estimated_billed_total'', JStr (js_toFixed 6 (bs_billed_total st))),
      (''total_tokens'', JNum (of_int (tb_total_tokens (bs_tokens st)))),
      (''weighted_tokens'', JNum (of_int (tb_weighted_tokens (bs_tokens st)))),
      (''cache_read_tokens'', JNum (of_int (tb_cache_read_tokens (bs_tokens st)))),
      (''cache_read_token_weight'', case tb_cache_read_token_weight (bs_tokens st) of None \<Rightarrow> JNull | Some w \<Rightarrow> JNum w),
      (''cache_read_tokens_excluded'', JNum (of_int (tb_cache_read_tokens_excluded (bs_tokens st))))]"

definition append_log :: "bool \<Rightarrow> string \<Rightarrow> jobject \<Rightarrow> enforcer \<Rightarrow> enforcer" where
  "append_log logged type content e = (if logged then e\<lparr>en_logs := en_logs e @ [(type, content)]\<rparr> else e)"

definition stop_checks :: "enforcer \<Rightarrow> enforcer" where
  "stop_checks e = e\<lparr>en_interval := False\<rparr>"

definition startPeriodicCheck :: "enforcer \<Rightarrow> enforcer" where
  "startPeriodicCheck e = e\<lparr>en_interval := True\<rparr>"

definition exceeded_message :: "(rat \<Rightarrow> string) \<Rightarrow> budget_config \<Rightarrow> string \<Rightarrow> budget_state \<Rightarrow> string" where
  "exceeded_message num cfg reason st =
     join_with '' '' (
       [''BUDGET_EXCEEDED: '' @ reason]
       @ (case bg_max_tokens cfg of None \<Rightarrow> [] | Some n \<Rightarrow> if n = 0 then [] else [''max_tokens='' @ show_int n])
       @ (case bg_max_cost cfg of None \<Rightarrow> [] | Some c \<Rightarrow> [''max_cost='' @ mx_currency c @ '' '' @ num (mx_amount c)])
       @ [''est_total='' @ bs_currency st @ '' '' @ fixed_or_nan (bs_estimated_total st),
          ''weighted_tokens='' @ show_int (tb_weighted_tokens (bs_tokens st)),
          ''cache_read='' @ show_int (tb_cache_read_tokens (bs_tokens st))
            @ ''(w='' @ formatCacheReadWeight (tb_cache_read_token_weight (bs_tokens st)) @ '')''])"

definition triggerExceeded ::
  "(rat \<Rightarrow> string) \<Rightarrow> budget_config \<Rightarrow> string \<Rightarrow> string \<Rightarrow> budget_state \<Rightarrow> bool \<Rightarrow> enforcer \<Rightarrow> enforcer" where
  "triggerExceeded num cfg reason trigger st logged e =
     (if en_killIssued e then e
      else
        (let e = e\<lparr>en_killIssued := True\<rparr>;
             e = e\<lparr>en_exceededError := Some (exceeded_message num cfg reason st)\<rparr>;
             e = stop_checks e;
             e = e\<lparr>en_kills := Suc (en_kills e)\<rparr>
         in append_log logged ''budget.exceeded''
              ((''trigger'', JStr trigger) # (''reason'', JStr reason) # state_fields cfg st) e))"

definition tokens_exceeded :: "budget_config \<Rightarrow> budget_state \<Rightarrow> bool" where
  "tokens_exceeded cfg st =
     (case bg_max_tokens cfg of None \<Rightarrow> False | Some n \<Rightarrow> n \<noteq> 0 \<and> n \<le> tb_weighted_tokens (bs_tokens st))"

definition cost_exceeded :: "budget_config \<Rightarrow> budget_state \<Rightarrow> bool" where
  "cost_exceeded cfg st =
     (case (bg_max_cost cfg, bs_estimated_total st) of
        (Some c, Some t) \<Rightarrow> bs_currency st = mx_currency c \<and> mx_amount c \<le> t
      | _ \<Rightarrow> False)"

definition enforce ::
  "bignumber \<Rightarrow> (rat \<Rightarrow> string) \<Rightarrow> budget_config \<Rightarrow> string \<Rightarrow> timestamp \<Rightarrow> bool \<Rightarrow> enforcer \<Rightarrow> enforcer" where
  "enforce B num cfg trigger now logged e =
     (if en_killIssued e then e
      else
        (let st = estimateState B cfg now e
         in if tokens_exceeded cfg st then triggerExceeded num cfg ''max_tokens exceeded'' trigger st logged e
            else if cost_exceeded cfg st then triggerExceeded num cfg ''max_cost exceeded'' trigger st logged e
            else e))"

definition processLlmCall ::
  "bignumber \<Rightarrow> (rat \<Rightarrow> string) \<Rightarrow> budget_config \<Rightarrow> jobject \<Rightarrow> timestamp \<Rightarrow> bool \<Rightarrow> enforcer \<Rightarrow> enforcer" where
  "processLlmCall B num cfg line now logged e =
     enforce B num cfg ''llm.call'' now logged (e\<lparr>en_usage := record_call line (en_usage e)\<rparr>)"

definition periodic_check ::
  "bignumber \<Rightarrow> (rat \<Rightarrow> string) \<Rightarrow> budget_config \<Rightarrow> timestamp \<Rightarrow> bool \<Rightarrow> enforcer \<Rightarrow> enforcer" where
  "periodic_check B num cfg now logged e = (if en_interval e then enforce B num cfg ''timer'' now logged e else e)"

definition appendSummary ::
  "bignumber \<Rightarrow> budget_config \<Rightarrow> string \<Rightarrow> timestamp \<Rightarrow> bool \<Rightarrow> enforcer \<Rightarrow> enforcer" where
  "appendSummary B cfg trigger now logged e =
     (if en_summaryAppended e then e
      else append_log logged ''budget.summary'' ((''trigger'', JStr trigger) # state_fields cfg (estimateState B cfg now e))
             (e\<lparr>en_summaryAppended := True\<rparr>))"

inductive enforcer_step ::
  "bignumber \<Rightarrow> (rat \<Rightarrow> string) \<Rightarrow> budget_config \<Rightarrow> enforcer \<Rightarrow> enforcer \<Rightarrow> bool"
  for B num cfg where
  model_call: "enforcer_step B num cfg e (processLlmCall B num cfg line now logged e)"
| timer: "enforcer_step B num cfg e (periodic_check B num cfg now logged e)"
| start: "enforcer_step B num cfg e (startPeriodicCheck e)"
| halt: "enforcer_step B num cfg e (stop_checks e)"
| summary: "enforcer_step B num cfg e (appendSummary B cfg trigger now logged e)"

end
