(* ===== verification/Receipts.thy ===== *)
theory Receipts
  imports Budget
begin

section \<open>Receipts of attempts\<close>

text \<open>
  \<^verbatim>\<open>packages/shared/src/pricing/receipt/assemble-attempt-receipt.ts\<close>: the receipt of an attempt, from its job, its
  times and its logs. Reading a date from a text is the parameter \<open>date_of\<close>. Durations are in
  milliseconds.
\<close>

subsection \<open>What goes in\<close>

record log_like =
  ll_type :: string
  ll_content :: jobject

record receipt_job =
  rj_id :: string
  rj_project_id :: string
  rj_created_at :: timestamp
  rj_ready_at :: "timestamp option"
  rj_defer_until :: "timestamp option"
  rj_phase :: string
  rj_hints :: "jobject option"

record receipt_attempt =
  ra_id :: string
  ra_started_at :: timestamp
  ra_execution_started_at :: "timestamp option"
  ra_ended_at :: "timestamp option"
  ra_duration_ms :: "rat option"
  ra_runtime_meta :: "jobject option"

record requested_class =
  rq_name :: "string option"
  rq_vcpu :: "rat option"
  rq_memory_gib :: "rat option"

record receipt_input =
  ri_job :: receipt_job
  ri_attempt :: receipt_attempt
  ri_org_id :: string
  ri_logs :: "log_like list"
  ri_resource_class :: "requested_class option"
  ri_rate_card :: named_rate_card
  ri_markup_pct :: rat
  ri_billing_currency :: string
  ri_fx :: "fx_rate option"

subsection \<open>What comes out\<close>

record receipt_timing =
  rt_created_at :: string
  rt_ready_at :: "string option"
  rt_claimed_at :: string
  rt_execution_started_at :: string
  rt_ended_at :: "string option"
  rt_wall_ms :: "int option"
  rt_billable_ms :: "rat option"

record receipt_phases =
  rp_queue_wait_ms :: "int option"
  rp_orchestrator_ms :: "int option"
  rp_runner_ms :: "rat option"
  rp_workspace_ms :: "rat option"
  rp_secrets_ms :: "rat option"
  rp_hooks_ms :: "rat option"
  rp_harness_ms :: "rat option"

record model_usage =
  mu_provider :: string
  mu_model :: string
  mu_source :: usage_source
  mu_calls :: nat
  mu_usage :: token_usage

record receipt_llm =
  rl_total_calls :: nat
  rl_totals :: token_usage
  rl_by_model :: "model_usage list"

record receipt_compute =
  rx_runtime :: string
  rx_resource_class :: "string option"
  rx_vcpu :: "rat option"
  rx_memory_gib :: "rat option"
  rx_vcpu_seconds :: rat
  rx_memory_gib_seconds :: rat

record receipt_auth =
  au_harness :: "string option"
  au_source :: "string option"
  au_secret_key :: "string option"
  au_scope_type :: "string option"
  au_scope_id :: "string option"

record fx_snapshot =
  fs_from_currency :: string
  fs_to_currency :: string
  fs_rate :: string
  fs_fetched_at :: string
  fs_source :: string

record llm_rate_line =
  lr_provider :: string
  lr_model :: string
  lr_source :: usage_source
  lr_input :: string
  lr_output :: string
  lr_cache_read :: "string option"
  lr_cache_write :: "string option"
  lr_reasoning :: "string option"

record execution_receipt =
  er_attempt_id :: string
  er_job_id :: string
  er_project_id :: string
  er_org_id :: string
  er_timing :: receipt_timing
  er_phases :: receipt_phases
  er_llm :: receipt_llm
  er_compute :: receipt_compute
  er_auth :: "receipt_auth option"
  er_rate_card_name :: string
  er_rate_card_version :: int
  er_rate_card_effective_at :: string
  er_markup_pct :: rat
  er_billing_currency :: string
  er_fx :: "fx_snapshot option"
  er_base :: base_cost
  er_llm_rates :: "llm_rate_line list"
  er_compute_rates :: "applied_compute_rate option"
  er_billed :: billed_cost

record materialized_totals =
  mt_base_total_usd :: string
  mt_billed_total :: string
  mt_billed_currency :: string

subsection \<open>Reading the logs\<close>

definition msBetween :: "timestamp option \<Rightarrow> timestamp option \<Rightarrow> int option" where
  "msBetween a b = (case (a, b) of (Some x, Some y) \<Rightarrow> Some (y - x) | _ \<Rightarrow> None)"

definition maxDate :: "timestamp option \<Rightarrow> timestamp option \<Rightarrow> timestamp option" where
  "maxDate a b =
     (case a of
        None \<Rightarrow> b
      | Some x \<Rightarrow> (case b of None \<Rightarrow> a | Some y \<Rightarrow> if y \<le> x then a else b))"

definition readNumber :: "json option \<Rightarrow> rat option" where
  "readNumber v =
     (case v of
        Some (JNum n) \<Rightarrow> Some n
      | Some (JStr t) \<Rightarrow> if js_trim t = [] then None else text_number t
      | _ \<Rightarrow> None)"

definition readString :: "json option \<Rightarrow> string option" where
  "readString v = (case v of Some (JStr t) \<Rightarrow> if t = [] then None else Some t | _ \<Rightarrow> None)"

definition AUTH_SELECTED_LOG_TYPES :: "string list" where
  "AUTH_SELECTED_LOG_TYPES = [''claude_auth_selected'', ''codex_auth_selected'']"

definition detectAuthSelection :: "log_like list \<Rightarrow> receipt_auth option" where
  "detectAuthSelection logs =
     map_option (\<lambda>l. let c = ll_content l in
        \<lparr>au_harness = readString (obj_get c ''harness''), au_source = readString (obj_get c ''source''),
         au_secret_key = readString (obj_get c ''secret_key''), au_scope_type = readString (obj_get c ''scope_type''),
         au_scope_id = readString (obj_get c ''scope_id'')\<rparr>)
       (find (\<lambda>l. ll_type l \<in> set AUTH_SELECTED_LOG_TYPES) (rev logs))"

definition findLifecycleDurationMs :: "log_like list \<Rightarrow> string \<Rightarrow> rat option" where
  "findLifecycleDurationMs logs type =
     Option.bind (find (\<lambda>l. ll_type l = type) (rev logs)) (\<lambda>l. readNumber (obj_get (ll_content l) ''duration_ms''))"

definition sumLifecycleDurationMs :: "log_like list \<Rightarrow> string \<Rightarrow> rat option" where
  "sumLifecycleDurationMs logs type =
     (let entries = filter (\<lambda>l. ll_type l = type) logs
      in if entries = [] then None
         else Some (sum_list (map (\<lambda>l. or_default 0 (readNumber (obj_get (ll_content l) ''duration_ms''))) entries)))"

definition findFirstLifecycleTs :: "(string \<Rightarrow> timestamp option) \<Rightarrow> log_like list \<Rightarrow> string \<Rightarrow> timestamp option" where
  "findFirstLifecycleTs date_of logs type =
     (case find (\<lambda>l. ll_type l = type) logs of
        None \<Rightarrow> None
      | Some l \<Rightarrow> (case obj_get (ll_content l) ''ts'' of Some (JStr t) \<Rightarrow> date_of t | _ \<Rightarrow> None))"

definition json_field :: "json option \<Rightarrow> string \<Rightarrow> json option" where
  "json_field v k = Option.bind v (\<lambda>j. json_get j k)"

definition text_of :: "json option \<Rightarrow> string option" where
  "text_of v = (case v of Some (JStr t) \<Rightarrow> Some t | _ \<Rightarrow> None)"

definition detectHarnessIdentity :: "log_like list \<Rightarrow> string option \<times> string option" where
  "detectHarnessIdentity logs =
     (case find (\<lambda>l. ll_type l = ''lifecycle_harness_start'') logs of
        None \<Rightarrow> (None, None)
      | Some start \<Rightarrow>
          (let meta = obj_get (ll_content start) ''meta'';
               opts = json_field meta ''harness_options''
           in (text_of (json_field meta ''harness''),
               coalesce (text_of (json_field meta ''model'')) (text_of (json_field opts ''model'')))))"

definition legacy_usage :: "log_like \<Rightarrow> json option" where
  "legacy_usage l = json_field (json_field (obj_get (ll_content l) ''raw'') ''message'') ''usage''"

definition extractLegacyTokenUsage :: "log_like list \<Rightarrow> nat \<times> token_usage" where
  "extractLegacyTokenUsage logs =
     (let entries = filter (\<lambda>l. legacy_usage l \<noteq> None) logs
      in (length entries,
          foldl (\<lambda>acc l. case legacy_usage l of
                   Some u \<Rightarrow> if json_truthy (Some u) then add_usage acc (read_usage u) else acc
                 | None \<Rightarrow> acc) no_tokens entries))"

subsection \<open>Usage by model\<close>

text \<open>One \<^verbatim>\<open>llm.call\<close> log, counted under the key of its provider and model; a receipt counts every call as one on the customer's own key.\<close>

definition count_call :: "log_like \<Rightarrow> (string \<times> model_usage) list \<Rightarrow> (string \<times> model_usage) list" where
  "count_call l agg =
     (let c = ll_content l;
          provider = text_or ''unknown'' (obj_get c ''provider'');
          model = text_or ''unknown'' (obj_get c ''model'');
          key = usage_key Byok provider model;
          existing = or_default \<lparr>mu_provider = provider, mu_model = model, mu_source = Byok, mu_calls = 0, mu_usage = no_tokens\<rparr>
                       (map_of agg key);
          existing = existing\<lparr>mu_calls := Suc (mu_calls existing)\<rparr>;
          existing = (case call_usage c of
              None \<Rightarrow> existing
            | Some u \<Rightarrow> existing\<lparr>mu_usage := add_usage (mu_usage existing) (read_usage u)\<rparr>)
      in AList.update key existing agg)"

definition llm_call_logs :: "log_like list \<Rightarrow> log_like list" where
  "llm_call_logs logs = filter (\<lambda>l. ll_type l = ''llm.call'') logs"

definition legacy_model_usage :: "log_like list \<Rightarrow> model_usage" where
  "legacy_model_usage logs =
     (let (calls, u) = extractLegacyTokenUsage logs; (harness, model) = detectHarnessIdentity logs
      in \<lparr>mu_provider = inferProviderName harness, mu_model = or_default ''unknown'' model, mu_source = Byok,
          mu_calls = calls, mu_usage = u\<rparr>)"

definition usage_by_model :: "log_like list \<Rightarrow> (string \<times> model_usage) list" where
  "usage_by_model logs =
     (if llm_call_logs logs \<noteq> [] then fold count_call (llm_call_logs logs) []
      else (let m = legacy_model_usage logs in [(usage_key Byok (mu_provider m) (mu_model m), m)]))"

definition total_calls :: "log_like list \<Rightarrow> nat" where
  "total_calls logs =
     (if llm_call_logs logs \<noteq> [] then length (llm_call_logs logs) else fst (extractLegacyTokenUsage logs))"

definition llm_usage_of :: "model_usage \<Rightarrow> llm_usage" where
  "llm_usage_of m = \<lparr>lu_provider = mu_provider m, lu_model = mu_model m, lu_source = mu_source m, lu_usage = mu_usage m\<rparr>"

definition sum_usages :: "token_usage list \<Rightarrow> token_usage" where
  "sum_usages us = foldl add_usage no_tokens us"

subsection \<open>The receipt\<close>

definition ready_time :: "receipt_job \<Rightarrow> timestamp option" where
  "ready_time job = coalesce (rj_ready_at job) (if rj_phase job = ''ready'' then Some (rj_created_at job) else None)"

definition execution_start :: "(string \<Rightarrow> timestamp option) \<Rightarrow> receipt_input \<Rightarrow> timestamp" where
  "execution_start date_of i =
     or_default (ra_started_at (ri_attempt i))
       (coalesce (ra_execution_started_at (ri_attempt i))
         (findFirstLifecycleTs date_of (ri_logs i) ''lifecycle_workspace_start''))"

definition billable_ms :: "(string \<Rightarrow> timestamp option) \<Rightarrow> receipt_input \<Rightarrow> rat option" where
  "billable_ms date_of i =
     (case ra_ended_at (ri_attempt i) of
        Some ended \<Rightarrow> Some (max 0 (of_int (ended - execution_start date_of i)))
      | None \<Rightarrow> ra_duration_ms (ri_attempt i))"

definition receipt_resource_class :: "receipt_input \<Rightarrow> string option" where
  "receipt_resource_class i =
     coalesce (Option.bind (ri_resource_class i) rq_name)
       (text_of (Option.bind (rj_hints (ri_job i)) (\<lambda>h. obj_get h ''resource_class'')))"

definition receipt_compute_usage :: "(string \<Rightarrow> timestamp option) \<Rightarrow> receipt_input \<Rightarrow> compute_usage option" where
  "receipt_compute_usage date_of i =
     map_option (\<lambda>ms. let billableSeconds = ms / 1000 in
        \<lparr>cu_resource_class = receipt_resource_class i,
         cu_vcpu_seconds = or_default 0 (Option.bind (ri_resource_class i) rq_vcpu) * billableSeconds,
         cu_memory_gib_seconds = or_default 0 (Option.bind (ri_resource_class i) rq_memory_gib) * billableSeconds\<rparr>)
       (billable_ms date_of i)"

definition receipt_timing_of :: "(string \<Rightarrow> timestamp option) \<Rightarrow> receipt_input \<Rightarrow> receipt_timing" where
  "receipt_timing_of date_of i =
     (let job = ri_job i; attempt = ri_attempt i; claimedAt = ra_started_at attempt; endedAt = ra_ended_at attempt
      in \<lparr>rt_created_at = iso_date (rj_created_at job), rt_ready_at = map_option iso_date (ready_time job),
          rt_claimed_at = iso_date claimedAt, rt_execution_started_at = iso_date (execution_start date_of i),
          rt_ended_at = map_option iso_date endedAt,
          rt_wall_ms = map_option (\<lambda>t. t - claimedAt) endedAt, rt_billable_ms = billable_ms date_of i\<rparr>)"

definition receipt_phases_of :: "(string \<Rightarrow> timestamp option) \<Rightarrow> receipt_input \<Rightarrow> receipt_phases" where
  "receipt_phases_of date_of i =
     (let job = ri_job i; claimedAt = ra_started_at (ri_attempt i); logs = ri_logs i;
          queueStart = maxDate (Some (or_default (rj_created_at job) (ready_time job))) (rj_defer_until job)
      in \<lparr>rp_queue_wait_ms = msBetween queueStart (Some claimedAt),
          rp_orchestrator_ms = msBetween (Some claimedAt) (Some (execution_start date_of i)),
          rp_runner_ms = findLifecycleDurationMs logs ''lifecycle_runner_end'',
          rp_workspace_ms = findLifecycleDurationMs logs ''lifecycle_workspace_end'',
          rp_secrets_ms = findLifecycleDurationMs logs ''lifecycle_secrets_end'',
          rp_hooks_ms = sumLifecycleDurationMs logs ''lifecycle_hook_end'',
          rp_harness_ms = findLifecycleDurationMs logs ''lifecycle_harness_end''\<rparr>)"

definition receipt_llm_of :: "log_like list \<Rightarrow> receipt_llm" where
  "receipt_llm_of logs =
     (let agg = map snd (usage_by_model logs)
      in \<lparr>rl_total_calls = total_calls logs, rl_totals = sum_usages (map mu_usage agg), rl_by_model = agg\<rparr>)"

definition receipt_compute_of :: "(string \<Rightarrow> timestamp option) \<Rightarrow> receipt_input \<Rightarrow> receipt_compute" where
  "receipt_compute_of date_of i =
     (let compute = receipt_compute_usage date_of i
      in \<lparr>rx_runtime = (if Option.bind (ra_runtime_meta (ri_attempt i)) (\<lambda>m. obj_get m ''runtime'') = Some (JStr ''k8s'')
                        then ''k8s'' else ''local''),
          rx_resource_class = receipt_resource_class i,
          rx_vcpu = Option.bind (ri_resource_class i) rq_vcpu,
          rx_memory_gib = Option.bind (ri_resource_class i) rq_memory_gib,
          rx_vcpu_seconds = or_default 0 (map_option cu_vcpu_seconds compute),
          rx_memory_gib_seconds = or_default 0 (map_option cu_memory_gib_seconds compute)\<rparr>)"

definition llm_rate_line_of :: "rate_card \<Rightarrow> llm_usage \<Rightarrow> llm_rate_line" where
  "llm_rate_line_of rateCard e =
     (let rate = getTokenRate rateCard e
      in \<lparr>lr_provider = lu_provider e, lr_model = lu_model e, lr_source = lu_source e,
          lr_input = or_default ''0'' (map_option tr_input rate), lr_output = or_default ''0'' (map_option tr_output rate),
          lr_cache_read = Option.bind rate tr_cache_read, lr_cache_write = Option.bind rate tr_cache_write,
          lr_reasoning = Option.bind rate tr_reasoning\<rparr>)"

definition assembleAttemptReceiptV2 ::
  "bignumber \<Rightarrow> (string \<Rightarrow> timestamp option) \<Rightarrow> receipt_input \<Rightarrow> execution_receipt \<times> materialized_totals" where
  "assembleAttemptReceiptV2 B date_of i =
     (let rates = nr_rates (ri_rate_card i);
          llmUsage = map (llm_usage_of \<circ> snd) (usage_by_model (ri_logs i));
          compute = receipt_compute_usage date_of i;
          (base, billed) = calculateBilledCost B rates llmUsage compute (ri_markup_pct i) (ri_billing_currency i) (ri_fx i);
          receipt = \<lparr>er_attempt_id = ra_id (ri_attempt i), er_job_id = rj_id (ri_job i),
            er_project_id = rj_project_id (ri_job i), er_org_id = ri_org_id i,
            er_timing = receipt_timing_of date_of i, er_phases = receipt_phases_of date_of i,
            er_llm = receipt_llm_of (ri_logs i), er_compute = receipt_compute_of date_of i,
            er_auth = detectAuthSelection (ri_logs i),
            er_rate_card_name = nr_name (ri_rate_card i), er_rate_card_version = nr_version (ri_rate_card i),
            er_rate_card_effective_at = nr_effective_at (ri_rate_card i), er_markup_pct = ri_markup_pct i,
            er_billing_currency = ri_billing_currency i,
            er_fx = map_option (\<lambda>f. \<lparr>fs_from_currency = ''usd'', fs_to_currency = ri_billing_currency i,
                      fs_rate = fx_rate_text f, fs_fetched_at = fx_fetched_at f, fs_source = fx_source f\<rparr>) (ri_fx i),
            er_base = base, er_llm_rates = map (llm_rate_line_of rates) llmUsage,
            er_compute_rates = Option.bind compute (\<lambda>u. fst (estimateComputeCostUsd B rates u)),
            er_billed = billed\<rparr>
      in (receipt, \<lparr>mt_base_total_usd = mo_amount (bc_total base), mt_billed_total = mo_amount (bl_total billed),
                    mt_billed_currency = mo_currency (bl_total billed)\<rparr>))"

end
