(* ===== verification/Pricing_Properties.thy ===== *)
theory Pricing_Properties
  imports Receipts
begin

section \<open>Bills, budgets and receipts\<close>

text \<open>
  What the prices of attempts guarantee: the lines of a bill add up, the use of a customer's own model key is
  never billed, a receipt counts every model call once, the enforcer kills a harness at most once and exactly when
  a limit is reached, and it counts the tokens the receipt will show.
\<close>

subsection \<open>Rate cards with readable rates\<close>

definition rate_ok :: "bignumber \<Rightarrow> string \<Rightarrow> bool" where
  "rate_ok B t = (case bn_parse B t of None \<Rightarrow> False | Some r \<Rightarrow> 0 \<le> r)"

definition optional_rate_ok :: "bignumber \<Rightarrow> string option \<Rightarrow> bool" where
  "optional_rate_ok B v = (case v of None \<Rightarrow> True | Some t \<Rightarrow> rate_ok B t)"

definition token_rate_ok :: "bignumber \<Rightarrow> token_rate \<Rightarrow> bool" where
  "token_rate_ok B r =
     (rate_ok B (tr_input r) \<and> rate_ok B (tr_output r) \<and> optional_rate_ok B (tr_cache_read r) \<and>
      optional_rate_ok B (tr_cache_write r) \<and> optional_rate_ok B (tr_reasoning r))"

definition card_ok :: "bignumber \<Rightarrow> rate_card \<Rightarrow> bool" where
  "card_ok B rateCard =
     (list_all (\<lambda>(_, models). list_all (\<lambda>(_, r). token_rate_ok B r) models) (rk_byok rateCard) \<and>
      list_all (\<lambda>(_, models). list_all (\<lambda>(_, r). token_rate_ok B r) models) (rk_managed rateCard) \<and>
      list_all (\<lambda>(_, r). rate_ok B (cr_vcpu_hour r) \<and> rate_ok B (cr_memory_gib_hour r)) (rk_compute rateCard))"

lemma rate_okE:
  assumes "rate_ok B t"
  obtains r where "bn_parse B t = Some r" "0 \<le> r"
  using assms by (auto simp: rate_ok_def split: option.splits)

lemma token_rate_of_card:
  assumes "card_ok B rateCard" "getTokenRate rateCard e = Some r"
  shows "token_rate_ok B r"
proof -
  have "\<exists>p models n. (p, models) \<in> set (rk_byok rateCard) \<union> set (rk_managed rateCard) \<and> (n, r) \<in> set models"
    using assms(2)
    by (auto simp: getTokenRate_def coalesce_def Let_def split: option.splits if_splits dest!: map_of_SomeD)
  then show ?thesis using assms(1) by (fastforce simp: card_ok_def list_all_iff)
qed

lemma compute_rate_of_card:
  assumes "card_ok B rateCard" "compute_rate_for rateCard c = Some r"
  shows "rate_ok B (cr_vcpu_hour r) \<and> rate_ok B (cr_memory_gib_hour r)"
proof -
  have "\<exists>n. (n, r) \<in> set (rk_compute rateCard)"
    using assms(2)
    by (auto simp: compute_rate_for_def coalesce_def split: option.splits if_splits dest!: map_of_SomeD)
  then show ?thesis using assms(1) by (fastforce simp: card_ok_def list_all_iff)
qed

context decimal_arithmetic
begin

lemma rate_ok_default: "optional_rate_ok B v \<Longrightarrow> rate_ok B d \<Longrightarrow> rate_ok B (or_default d v)"
  by (cases v) (simp_all add: or_default_def optional_rate_ok_def)

lemma zero_rate_ok: "rate_ok B ''0''"
  using parse_zero by (simp add: rate_ok_def)

lemma per_million_ok: "rate_ok B t \<Longrightarrow> 0 \<le> n \<Longrightarrow> \<exists>c. per_million B t n = Some c \<and> 0 \<le> c"
  by (auto simp: per_million_def quot_nonneg elim!: rate_okE)

lemma per_hour_ok: "rate_ok B t \<Longrightarrow> \<exists>c. per_hour B t n = Some c \<and> 0 \<le> c"
  by (auto simp: per_hour_def quot_nonneg elim!: rate_okE)

lemma per_million_none: "rate_ok B t \<Longrightarrow> per_million B t 0 = Some 0"
  by (auto simp: per_million_def quot_zero elim!: rate_okE)

lemma token_rates_ok:
  assumes "token_rate_ok B r"
  shows "rate_ok B (tr_input r)" "rate_ok B (tr_output r)" "rate_ok B (or_default ''0'' (tr_cache_read r))"
    "rate_ok B (or_default ''0'' (tr_cache_write r))" "rate_ok B (or_default (tr_output r) (tr_reasoning r))"
  using assms rate_ok_default zero_rate_ok by (simp_all add: token_rate_ok_def)

lemma clamp_nonneg: "0 \<le> clampNonNegativeInt n"
  by (simp add: clampNonNegativeInt_def)

lemma usage_cost_ok:
  assumes "token_rate_ok B r"
  shows "\<exists>c. usage_cost B r (clamp_usage u) = Some c \<and> 0 \<le> c"
proof -
  note ok = token_rates_ok [OF assms]
  have pos: "\<exists>c. per_million B t (of_int (clampNonNegativeInt n)) = Some c \<and> 0 \<le> c" if "rate_ok B t" for t n
    using that clamp_nonneg by (intro per_million_ok) simp_all
  from pos [OF ok(1), of "tu_input u"] pos [OF ok(2), of "tu_output u"] pos [OF ok(3), of "tu_cache_read u"]
    pos [OF ok(4), of "tu_cache_write u"] pos [OF ok(5), of "tu_reasoning u"]
  show ?thesis by (auto simp: usage_cost_def clamp_usage_def)
qed

lemma usage_cost_none: "token_rate_ok B r \<Longrightarrow> usage_cost B r (clamp_usage no_tokens) = Some 0"
  using token_rates_ok
  by (simp add: usage_cost_def clamp_usage_def clampNonNegativeInt_def no_tokens_def per_million_none)

lemma model_cost_ok:
  assumes "card_ok B rateCard"
  shows "\<exists>c. mc_cost_usd (model_cost_of B rateCard e) = Some c \<and> 0 \<le> c"
  using usage_cost_ok token_rate_of_card [OF assms]
  by (auto simp: model_cost_of_def Let_def split: option.split)

lemma compute_cost_ok:
  assumes "card_ok B rateCard"
  shows "\<exists>c. compute_cost B rateCard u = Some c \<and> 0 \<le> c"
proof (cases u)
  case (Some v)
  show ?thesis
  proof (cases "compute_rate_for rateCard (cu_resource_class v)")
    case (Some r)
    then have "rate_ok B (cr_vcpu_hour r)" "rate_ok B (cr_memory_gib_hour r)"
      using compute_rate_of_card [OF assms] by blast+
    from per_hour_ok [OF this(1), of "cu_vcpu_seconds v"] per_hour_ok [OF this(2), of "cu_memory_gib_seconds v"]
    show ?thesis
      using \<open>u = Some v\<close> Some by (auto simp: compute_cost_def estimateComputeCostUsd_def)
  qed (simp add: Some compute_cost_def estimateComputeCostUsd_def)
qed (simp add: compute_cost_def)

end

subsection \<open>Sums of costs\<close>

lemma sum_costs_Some:
  assumes "\<And>c. c \<in> set cs \<Longrightarrow> mc_cost_usd c \<noteq> None"
  shows "sum_costs cs = Some (sum_list (map (the \<circ> mc_cost_usd) cs))"
proof -
  have "foldl (\<lambda>acc c. bn_plus acc (mc_cost_usd c)) (Some a) cs = Some (a + sum_list (map (the \<circ> mc_cost_usd) cs))" for a
    using assms
  proof (induction cs arbitrary: a)
    case (Cons c cs)
    then obtain x where "mc_cost_usd c = Some x" by fastforce
    with Cons show ?case by (simp add: add.assoc)
  qed simp
  then show ?thesis by (simp add: sum_costs_def)
qed

lemma sum_list_partition:
  "sum_list (map f xs) = sum_list (map f (filter P xs)) + sum_list (map f (filter (\<lambda>x. \<not> P x) xs))"
  for f :: "'a \<Rightarrow> rat"
  by (induction xs) simp_all

text \<open>The number an amount of money denotes.\<close>

definition amount :: "money \<Rightarrow> rat option" where
  "amount m = text_number (mo_amount m)"

text \<open>The parts of a sum agree with it up to the rounding of the three amounts.\<close>

definition adds_up :: "money \<Rightarrow> money \<Rightarrow> money \<Rightarrow> bool" where
  "adds_up whole a b =
     (case (amount whole, amount a, amount b) of
        (Some w, Some x, Some y) \<Rightarrow> \<bar>w - (x + y)\<bar> \<le> 3 / (2 * 10 ^ 6)
      | _ \<Rightarrow> False)"

context decimal_arithmetic
begin

lemma amount_money: "amount (money_of B currency (Some a)) = Some (bn_places B 6 a)"
  by (simp add: amount_def money_of_def formatAmount_def amount_reads)

lemma rounded_adds_up:
  assumes "w = a + b"
  shows "adds_up (money_of B c (Some w)) (money_of B c (Some a)) (money_of B c (Some b))"
proof -
  have "\<bar>bn_places B 6 w - (bn_places B 6 a + bn_places B 6 b)\<bar> \<le> 3 / (2 * 10 ^ 6)"
    using places_near [of 6 w] places_near [of 6 a] places_near [of 6 b] assms by linarith
  then show ?thesis by (simp add: adds_up_def amount_money)
qed

lemma llm_costs_split:
  assumes "card_ok B rateCard"
  obtains m k where "lc_managed_usd (estimateLlmCostUsd B rateCard us) = Some m"
    "lc_byok_usd (estimateLlmCostUsd B rateCard us) = Some k"
    "lc_total_usd (estimateLlmCostUsd B rateCard us) = Some (m + k)" "0 \<le> m" "0 \<le> k"
proof -
  let ?cs = "map (model_cost_of B rateCard) us"
  let ?sum = "\<lambda>cs. sum_list (map (the \<circ> mc_cost_usd) cs)"
  have some: "mc_cost_usd c \<noteq> None" and pos: "0 \<le> the (mc_cost_usd c)" if "c \<in> set ?cs" for c
    using model_cost_ok [OF assms] that by (auto simp: image_iff) (metis option.sel)
  have nonneg: "0 \<le> ?sum (filter P ?cs)" for P
    using pos by (intro sum_list_nonneg) auto
  have split: "?sum ?cs = ?sum (filter (\<lambda>c. mc_source c = Managed) ?cs) + ?sum (filter (\<lambda>c. mc_source c \<noteq> Managed) ?cs)"
    by (rule sum_list_partition)
  show thesis
    using that [of "?sum (filter (\<lambda>c. mc_source c = Managed) ?cs)" "?sum (filter (\<lambda>c. mc_source c \<noteq> Managed) ?cs)"]
      nonneg split some sum_costs_Some [of ?cs] sum_costs_Some [of "filter _ ?cs"]
    by (simp add: estimateLlmCostUsd_def Let_def del: filter_map)
qed

lemma bill_adds_up:
  assumes "card_ok B rateCard" "fx_factor B currency fx = Some f"
    "calculateBilledCost B rateCard us cu markup currency fx = (base, billed)"
  shows "adds_up (bl_total billed) (bl_llm billed) (bl_compute billed) \<and>
    adds_up (bc_total base) (bc_llm base) (bc_compute base) \<and>
    adds_up (bc_llm base) (bc_llm_managed base) (bc_llm_byok base)"
proof -
  obtain m k where llm: "lc_managed_usd (estimateLlmCostUsd B rateCard us) = Some m"
    "lc_byok_usd (estimateLlmCostUsd B rateCard us) = Some k"
    "lc_total_usd (estimateLlmCostUsd B rateCard us) = Some (m + k)"
    using llm_costs_split [OF assms(1)] by metis
  obtain c where c: "compute_cost B rateCard cu = Some c" using compute_cost_ok [OF assms(1)] by blast
  define g where "g = 1 + bn_quot B markup 100"
  have "markup_factor B markup = Some g" by (simp add: markup_factor_def g_def)
  with assms(2,3) llm c have
    "base = \<lparr>bc_llm = money_of B ''usd'' (Some (m + k)), bc_llm_byok = money_of B ''usd'' (Some k),
       bc_llm_managed = money_of B ''usd'' (Some m), bc_compute = money_of B ''usd'' (Some c),
       bc_total = money_of B ''usd'' (Some (m + k + c))\<rparr>"
    "billed = \<lparr>bl_total = money_of B currency (Some ((m + c) * g * f)), bl_llm = money_of B currency (Some (m * g * f)),
       bl_compute = money_of B currency (Some (c * g * f))\<rparr>"
    by (simp_all add: calculateBilledCost_def Let_def)
  then show ?thesis by (simp add: rounded_adds_up ring_distribs)
qed

end

subsection \<open>Bills\<close>

text \<open>C37: On every rate card with readable rates, the lines of a bill (model usage and compute) add up to its
  total, in US dollars and in the billing currency with markup and exchange rate, and so do the two parts of the
  model usage, up to the rounding of the printed amounts to six places.\<close>

theorem bill_lines_add_up:
  assumes "decimal_arithmetic B" "card_ok B rateCard" "fx_factor B currency fx \<noteq> None"
    "calculateBilledCost B rateCard us cu markup currency fx = (base, billed)"
  shows "adds_up (bl_total billed) (bl_llm billed) (bl_compute billed) \<and>
    adds_up (bc_total base) (bc_llm base) (bc_compute base) \<and>
    adds_up (bc_llm base) (bc_llm_managed base) (bc_llm_byok base)"
  using assms decimal_arithmetic.bill_adds_up by blast

definition ex_usage :: "usage_source \<Rightarrow> string \<Rightarrow> string \<Rightarrow> rat \<Rightarrow> rat \<Rightarrow> rat \<Rightarrow> llm_usage" where
  "ex_usage source provider model i out r =
     \<lparr>lu_provider = provider, lu_model = model, lu_source = source,
      lu_usage = \<lparr>tu_input = i, tu_output = out, tu_cache_read = r, tu_cache_write = 0, tu_reasoning = 0\<rparr>\<rparr>"

definition ex_usages :: "llm_usage list" where
  "ex_usages =
     [ex_usage Byok ''anthropic'' ''anthropic/claude-sonnet-4-6-20260101'' 1234 567 89000,
      ex_usage Managed ''platform'' ''deepseek-r1'' 1001 77 3]"

definition ex_compute :: compute_usage where
  "ex_compute = \<lparr>cu_resource_class = Some ''job.c2'', cu_vcpu_seconds = 1234 / 10, cu_memory_gib_seconds = 2468 / 10\<rparr>"

definition ex_bill :: "base_cost \<times> billed_cost" where
  "ex_bill = calculateBilledCost twenty_places DEFAULT_RATE_CARD_V1 ex_usages (Some ex_compute) 20 ''eur''
     (Some \<lparr>fx_rate_text = ''0.92'', fx_fetched_at = [], fx_source = []\<rparr>)"

lemma default_card_ok: "card_ok twenty_places DEFAULT_RATE_CARD_V1"
  by code_simp

theorem bill_lines_add_up_witness:
  "adds_up (bl_total (snd ex_bill)) (bl_llm (snd ex_bill)) (bl_compute (snd ex_bill)) \<and>
   adds_up (bc_total (fst ex_bill)) (bc_llm (fst ex_bill)) (bc_compute (fst ex_bill))"
proof -
  have "fx_factor twenty_places ''eur'' (Some \<lparr>fx_rate_text = ''0.92'', fx_fetched_at = [], fx_source = []\<rparr>) \<noteq> None"
    by code_simp
  moreover have "calculateBilledCost twenty_places DEFAULT_RATE_CARD_V1 ex_usages (Some ex_compute) 20 ''eur''
      (Some \<lparr>fx_rate_text = ''0.92'', fx_fetched_at = [], fx_source = []\<rparr>) = (fst ex_bill, snd ex_bill)"
    by (simp add: ex_bill_def)
  ultimately show ?thesis
    using bill_lines_add_up [OF twenty.decimal_arithmetic_axioms default_card_ok] by blast
qed

subsection \<open>Own keys are never billed\<close>

lemma managed_costs:
  "lc_managed_usd (estimateLlmCostUsd B rateCard us) =
   lc_managed_usd (estimateLlmCostUsd B rateCard (filter (\<lambda>e. lu_source e = Managed) us))"
  by (simp add: estimateLlmCostUsd_def filter_map comp_def model_cost_of_def Let_def)

lemma billed_without_byok:
  "snd (calculateBilledCost B rateCard us cu markup currency fx) =
   snd (calculateBilledCost B rateCard (filter (\<lambda>e. lu_source e = Managed) us) cu markup currency fx)"
  by (simp add: calculateBilledCost_def Let_def managed_costs [of B rateCard us])

text \<open>What one log of a call adds to the tokens of its key.\<close>

definition call_tokens :: "log_like \<Rightarrow> token_usage" where
  "call_tokens l = (case call_usage (ll_content l) of None \<Rightarrow> no_tokens | Some u \<Rightarrow> read_usage u)"

definition call_provider :: "log_like \<Rightarrow> string" where
  "call_provider l = text_or ''unknown'' (obj_get (ll_content l) ''provider'')"

definition call_model :: "log_like \<Rightarrow> string" where
  "call_model l = text_or ''unknown'' (obj_get (ll_content l) ''model'')"

definition call_key :: "log_like \<Rightarrow> string" where
  "call_key l = usage_key Byok (call_provider l) (call_model l)"

definition next_entry :: "log_like \<Rightarrow> model_usage option \<Rightarrow> model_usage" where
  "next_entry l prior =
     (let e = or_default \<lparr>mu_provider = call_provider l, mu_model = call_model l, mu_source = Byok, mu_calls = 0,
                           mu_usage = no_tokens\<rparr> prior
      in e\<lparr>mu_calls := Suc (mu_calls e), mu_usage := add_usage (mu_usage e) (call_tokens l)\<rparr>)"

lemma add_usage_none [simp]: "add_usage no_tokens u = u" "add_usage u no_tokens = u"
  by (simp_all add: add_usage_def no_tokens_def)

lemma count_call_eq: "count_call l agg = AList.update (call_key l) (next_entry l (map_of agg (call_key l))) agg"
  by (simp add: count_call_def call_key_def call_provider_def call_model_def next_entry_def call_tokens_def Let_def
      split: option.split)

lemma next_entry_simps [simp]:
  "mu_source (next_entry l p) = (case p of None \<Rightarrow> Byok | Some e \<Rightarrow> mu_source e)"
  "mu_provider (next_entry l p) = (case p of None \<Rightarrow> call_provider l | Some e \<Rightarrow> mu_provider e)"
  "mu_model (next_entry l p) = (case p of None \<Rightarrow> call_model l | Some e \<Rightarrow> mu_model e)"
  "mu_calls (next_entry l p) = Suc (case p of None \<Rightarrow> 0 | Some e \<Rightarrow> mu_calls e)"
  "mu_usage (next_entry l p) = (case p of None \<Rightarrow> call_tokens l | Some e \<Rightarrow> add_usage (mu_usage e) (call_tokens l))"
  by (simp_all add: next_entry_def Let_def or_default_def split: option.split)

text \<open>The entries after counting some logs, as a map from keys.\<close>

lemma counted_map:
  "map_of (fold count_call (ls @ [l]) agg) =
   (map_of (fold count_call ls agg)) (call_key l \<mapsto> next_entry l (map_of (fold count_call ls agg) (call_key l)))"
  by (simp add: count_call_eq update_conv')

lemma counted_distinct: "distinct (map fst (fold count_call ls []))"
  by (induction ls rule: rev_induct) (simp_all add: count_call_eq distinct_update)

lemma counted_source: "map_of (fold count_call ls []) k = Some m \<Longrightarrow> mu_source m = Byok"
proof (induction ls arbitrary: k m rule: rev_induct)
  case (snoc l ls)
  then show ?case by (auto simp only: counted_map next_entry_simps fun_upd_apply split: if_splits option.splits)
qed simp

lemma usage_by_model_byok: "m \<in> set (map snd (usage_by_model logs)) \<Longrightarrow> mu_source m = Byok"
  using counted_source [OF map_of_is_SomeI, OF counted_distinct]
  by (auto simp: usage_by_model_def legacy_model_usage_def Let_def split: if_splits prod.splits)

text \<open>The bill of a receipt is for compute alone: whatever models the attempt called, it is the bill of an
  attempt that called none. More generally, what is billed does not depend on the usage on a customer's own key.\<close>

theorem own_keys_are_never_billed:
  "er_billed (fst (assembleAttemptReceiptV2 B date_of i)) =
     snd (calculateBilledCost B (nr_rates (ri_rate_card i)) [] (receipt_compute_usage date_of i)
       (ri_markup_pct i) (ri_billing_currency i) (ri_fx i)) \<and>
   snd (calculateBilledCost B rateCard us cu markup currency fx) =
     snd (calculateBilledCost B rateCard (filter (\<lambda>e. lu_source e = Managed) us) cu markup currency fx)"
proof -
  let ?us = "map (llm_usage_of \<circ> snd) (usage_by_model (ri_logs i))"
  have "lu_source (llm_usage_of (snd p)) = Byok" if "p \<in> set (usage_by_model (ri_logs i))" for p
    using usage_by_model_byok [of "snd p" "ri_logs i"] that by (simp add: llm_usage_of_def)
  then have "filter (\<lambda>e. lu_source e = Managed) ?us = []"
    by (simp add: filter_empty_conv)
  then have none: "snd (calculateBilledCost B (nr_rates (ri_rate_card i)) ?us cu' mk cur fx') =
      snd (calculateBilledCost B (nr_rates (ri_rate_card i)) [] cu' mk cur fx')" for cu' mk cur fx'
    by (metis billed_without_byok)
  have "er_billed (fst (assembleAttemptReceiptV2 B date_of i)) =
      snd (calculateBilledCost B (nr_rates (ri_rate_card i)) ?us (receipt_compute_usage date_of i)
        (ri_markup_pct i) (ri_billing_currency i) (ri_fx i))"
    by (simp add: assembleAttemptReceiptV2_def Let_def split_beta del: map_map)
  then show ?thesis using none billed_without_byok [of B rateCard us cu markup currency fx] by simp
qed

subsection \<open>Receipts count every call\<close>

lemma add_usage_assoc: "add_usage (add_usage a b) c = add_usage a (add_usage b c)"
  by (simp add: add_usage_def add.assoc)

lemma sum_usages_Nil [simp]: "sum_usages [] = no_tokens"
  by (simp add: sum_usages_def)

lemma sum_usages_Cons [simp]: "sum_usages (u # us) = add_usage u (sum_usages us)"
proof -
  have shift: "foldl add_usage a us = add_usage a (foldl add_usage no_tokens us)" for a us
  proof (induction us arbitrary: a)
    case (Cons u us)
    show ?case using Cons.IH [of "add_usage a u"] Cons.IH [of u] by (simp add: add_usage_assoc)
  qed simp
  show ?thesis using shift [of u us] by (simp add: sum_usages_def)
qed

lemma sum_usages_append: "sum_usages (us @ vs) = add_usage (sum_usages us) (sum_usages vs)"
  by (induction us) (simp_all add: add_usage_assoc)

definition calls_of :: "string \<Rightarrow> log_like list \<Rightarrow> log_like list" where
  "calls_of k ls = filter (\<lambda>l. call_key l = k) ls"

text \<open>The entry of a key has counted exactly the calls with that key, and has the provider and the model of the first of them.\<close>

lemma counted_entries:
  "(case map_of (fold count_call ls []) k of
      None \<Rightarrow> calls_of k ls = []
    | Some m \<Rightarrow> calls_of k ls \<noteq> [] \<and> mu_calls m = length (calls_of k ls) \<and>
        mu_usage m = sum_usages (map call_tokens (calls_of k ls)) \<and>
        mu_provider m = call_provider (hd (calls_of k ls)) \<and> mu_model m = call_model (hd (calls_of k ls)))"
proof (induction ls arbitrary: k rule: rev_induct)
  case (snoc l ls)
  show ?case
    using snoc [of k]
    by (auto simp: counted_map sum_usages_append calls_of_def simp del: fold_append split: option.splits)
qed (simp add: calls_of_def)

definition line_key :: "model_usage \<Rightarrow> string" where
  "line_key m = usage_key Byok (mu_provider m) (mu_model m)"

lemma counted_line:
  assumes "(k, m) \<in> set (fold count_call ls [])"
  shows "line_key m = k \<and> calls_of k ls \<noteq> [] \<and> mu_calls m = length (calls_of k ls) \<and>
    mu_usage m = sum_usages (map call_tokens (calls_of k ls)) \<and>
    mu_provider m = call_provider (hd (calls_of k ls)) \<and> mu_model m = call_model (hd (calls_of k ls))"
proof -
  have e: "calls_of k ls \<noteq> [] \<and> mu_calls m = length (calls_of k ls) \<and>
    mu_usage m = sum_usages (map call_tokens (calls_of k ls)) \<and>
    mu_provider m = call_provider (hd (calls_of k ls)) \<and> mu_model m = call_model (hd (calls_of k ls))"
    using counted_entries [where ls = ls and k = k] map_of_is_SomeI [OF counted_distinct assms] by simp
  then have "hd (calls_of k ls) \<in> set (calls_of k ls)" by simp
  then have "call_key (hd (calls_of k ls)) = k" by (simp add: calls_of_def)
  then show ?thesis using e by (simp add: line_key_def call_key_def)
qed

lemma counted_line_keys: "map line_key (map snd (fold count_call ls [])) = map fst (fold count_call ls [])"
  using counted_line by fastforce

lemma usage_key_inject:
  assumes "usage_key s p m = usage_key s p' m'" "CHR '':'' \<notin> set p" "CHR '':'' \<notin> set p'"
  shows "p = p' \<and> m = m'"
proof -
  have e: "p @ CHR '':'' # m = p' @ CHR '':'' # m'" using assms(1) by (simp add: usage_key_def)
  have "takeWhile (\<lambda>c. c \<noteq> CHR '':'') (q @ CHR '':'' # n) = q" if "CHR '':'' \<notin> set q" for q n
    using that by (induction q) auto
  then have "p = p'" using arg_cong [OF e, of "takeWhile (\<lambda>c. c \<noteq> CHR '':'')"] assms(2,3) by simp
  then show ?thesis using e by simp
qed

text \<open>An additive quantity of the entries sums to what the calls contribute.\<close>

lemma update_sum:
  fixes f :: "'a \<Rightarrow> 'b :: ab_group_add"
  assumes "distinct (map fst agg)"
  shows "sum_list (map (f \<circ> snd) (AList.update k m agg)) =
    sum_list (map (f \<circ> snd) agg) - (case map_of agg k of None \<Rightarrow> 0 | Some e \<Rightarrow> f e) + f m"
  using assms
proof (induction agg)
  case (Cons p agg)
  then show ?case
    by (cases p) (auto simp: algebra_simps map_of_eq_None_iff split: option.split)
qed simp

lemma counted_sum:
  fixes f :: "model_usage \<Rightarrow> 'b :: ab_group_add"
  assumes "\<And>l p. f (next_entry l p) = (case p of None \<Rightarrow> 0 | Some e \<Rightarrow> f e) + g l"
  shows "sum_list (map (f \<circ> snd) (fold count_call ls [])) = sum_list (map g ls)"
proof (induction ls rule: rev_induct)
  case (snoc l ls)
  have "sum_list (map (f \<circ> snd) (fold count_call (ls @ [l]) [])) = sum_list (map (f \<circ> snd) (fold count_call ls [])) + g l"
    using update_sum [OF counted_distinct, of f] assms by (simp add: count_call_eq)
  then show ?case by (simp only: snoc map_append sum_list_append) simp
qed simp

lemma sum_usages_fields:
  "tu_input (sum_usages us) = sum_list (map tu_input us)" "tu_output (sum_usages us) = sum_list (map tu_output us)"
  "tu_cache_read (sum_usages us) = sum_list (map tu_cache_read us)"
  "tu_cache_write (sum_usages us) = sum_list (map tu_cache_write us)"
  "tu_reasoning (sum_usages us) = sum_list (map tu_reasoning us)"
  by (induction us) (simp_all add: no_tokens_def add_usage_def)

lemma counted_usage: "sum_usages (map (mu_usage \<circ> snd) (fold count_call ls [])) = sum_usages (map call_tokens ls)"
proof -
  have "sum_list (map (q \<circ> mu_usage \<circ> snd) (fold count_call ls [])) = sum_list (map (q \<circ> call_tokens) ls)"
    if "\<And>u v. q (add_usage u v) = q u + q v" for q :: "token_usage \<Rightarrow> rat"
    using counted_sum [of "q \<circ> mu_usage" "q \<circ> call_tokens" ls] that by (simp add: comp_def split: option.split)
  from this [of tu_input] this [of tu_output] this [of tu_cache_read] this [of tu_cache_write] this [of tu_reasoning]
  show ?thesis by (intro token_usage.equality) (simp_all add: sum_usages_fields add_usage_def comp_assoc)
qed

lemma of_nat_sum_list': "int (sum_list ns) = sum_list (map int ns)"
  by (induction ns) simp_all

lemma counted_number: "sum_list (map (mu_calls \<circ> snd) (fold count_call ls [])) = length ls"
proof -
  have "sum_list (map ((int \<circ> mu_calls) \<circ> snd) (fold count_call ls [])) = sum_list (map (\<lambda>_. 1) ls)"
    by (rule counted_sum) (simp split: option.split)
  then have "int (sum_list (map (mu_calls \<circ> snd) (fold count_call ls []))) = int (length ls)"
    by (simp add: comp_def sum_list_triv of_nat_sum_list')
  then show ?thesis by simp
qed

lemma counted_keys: "set (map fst (fold count_call ls [])) = set (map call_key ls)"
  by (induction ls rule: rev_induct) (auto simp: count_call_eq dom_update simp flip: image_set)

text \<open>Calls whose providers have no colon have the same key only when provider and model are the same.\<close>

lemma calls_of_names:
  assumes "\<And>l. l \<in> set ls \<Longrightarrow> CHR '':'' \<notin> set (call_provider l)" "calls_of k ls \<noteq> []" "h = hd (calls_of k ls)"
  shows "calls_of k ls = filter (\<lambda>l. call_provider l = call_provider h \<and> call_model l = call_model h) ls"
proof -
  have "h \<in> set (calls_of k ls)" using assms(2,3) by simp
  then have h: "h \<in> set ls" "call_key h = k" by (auto simp: calls_of_def)
  have "call_key l = k \<longleftrightarrow> call_provider l = call_provider h \<and> call_model l = call_model h" if "l \<in> set ls" for l
    using usage_key_inject [of Byok "call_provider l" "call_model l" "call_provider h" "call_model h"] assms(1) h that
    by (auto simp: call_key_def)
  then show ?thesis by (auto simp: calls_of_def intro!: filter_cong)
qed

text \<open>
C38: A receipt of an attempt that logged model calls counts each of them once: its total of calls is their number and its token
  totals are the sums over the successful ones. Its lines have distinct keys, exactly those of the calls, a key being
  \<^verbatim>\<open>byok:\<close>, the provider, a colon and the model. A line counts exactly the calls with its key, and names the provider and
  the model of the first of them. When no provider has a colon, those are exactly the calls of the line's provider and model.
\<close>

theorem receipt_counts_every_call:
  assumes "llm_call_logs (ri_logs i) \<noteq> []"
    "fst (assembleAttemptReceiptV2 B date_of i) = receipt" "llm_call_logs (ri_logs i) = calls"
  shows "rl_total_calls (er_llm receipt) = length calls \<and>
    rl_totals (er_llm receipt) = sum_usages (map call_tokens calls) \<and>
    distinct (map line_key (rl_by_model (er_llm receipt))) \<and>
    set (map line_key (rl_by_model (er_llm receipt))) = set (map call_key calls) \<and>
    (\<forall>m \<in> set (rl_by_model (er_llm receipt)).
       mu_calls m = length (calls_of (line_key m) calls) \<and>
       mu_usage m = sum_usages (map call_tokens (calls_of (line_key m) calls)) \<and>
       mu_provider m = call_provider (hd (calls_of (line_key m) calls)) \<and>
       mu_model m = call_model (hd (calls_of (line_key m) calls)) \<and>
       ((\<forall>l \<in> set calls. CHR '':'' \<notin> set (call_provider l)) \<longrightarrow>
         calls_of (line_key m) calls = filter (\<lambda>l. call_provider l = mu_provider m \<and> call_model l = mu_model m) calls))"
proof -
  let ?agg = "fold count_call calls []"
  have agg: "usage_by_model (ri_logs i) = ?agg" using assms by (simp add: usage_by_model_def)
  have llm: "er_llm receipt = receipt_llm_of (ri_logs i)"
    by (simp add: assms(2) [symmetric] assembleAttemptReceiptV2_def Let_def split_beta)
  have lines: "rl_by_model (er_llm receipt) = map snd ?agg" by (simp add: llm receipt_llm_of_def agg Let_def)
  have totals: "rl_total_calls (er_llm receipt) = length calls" "rl_totals (er_llm receipt) = sum_usages (map call_tokens calls)"
    using assms counted_usage [of calls] by (simp_all add: llm receipt_llm_of_def agg total_calls_def Let_def)
  have keys: "distinct (map line_key (map snd ?agg)) \<and> set (map line_key (map snd ?agg)) = set (map call_key calls)"
    unfolding counted_line_keys using counted_distinct counted_keys by blast
  have "mu_calls m = length (calls_of (line_key m) calls) \<and>
       mu_usage m = sum_usages (map call_tokens (calls_of (line_key m) calls)) \<and>
       mu_provider m = call_provider (hd (calls_of (line_key m) calls)) \<and>
       mu_model m = call_model (hd (calls_of (line_key m) calls)) \<and>
       ((\<forall>l \<in> set calls. CHR '':'' \<notin> set (call_provider l)) \<longrightarrow>
         calls_of (line_key m) calls = filter (\<lambda>l. call_provider l = mu_provider m \<and> call_model l = mu_model m) calls)"
    if m: "m \<in> set (map snd ?agg)" for m
  proof -
    from m obtain k where k: "(k, m) \<in> set ?agg" by auto
    note e = counted_line [OF k]
    show ?thesis using e calls_of_names [of calls k "hd (calls_of k calls)"] by auto
  qed
  then show ?thesis using totals keys unfolding lines by blast
qed

definition ex_call :: "string \<Rightarrow> string \<Rightarrow> string \<Rightarrow> rat \<Rightarrow> log_like" where
  "ex_call model status source n =
     \<lparr>ll_type = ''llm.call'',
      ll_content = [(''provider'', JStr ''anthropic''), (''model'', JStr model), (''status'', JStr status),
        (''source'', JStr source), (''usage'', JObj [(''input_tokens'', JNum n), (''output_tokens'', JStr ''12'')])]\<rparr>"

definition ex_logs :: "log_like list" where
  "ex_logs = [ex_call ''claude-opus-5'' ''error'' ''byok'' 5, \<lparr>ll_type = ''lifecycle_harness_end'', ll_content = []\<rparr>,
     ex_call ''claude-sonnet-5'' ''ok'' ''byok'' 1000, ex_call ''claude-sonnet-5'' ''ok'' ''byok'' 500]"

definition ex_receipt_input :: receipt_input where
  "ex_receipt_input =
     \<lparr>ri_job = \<lparr>rj_id = ''job'', rj_project_id = ''proj'', rj_created_at = 0, rj_ready_at = None, rj_defer_until = None,
                rj_phase = ''active'', rj_hints = None\<rparr>,
      ri_attempt = \<lparr>ra_id = ''att'', ra_started_at = 1000, ra_execution_started_at = None, ra_ended_at = Some 61000,
                    ra_duration_ms = None, ra_runtime_meta = None\<rparr>,
      ri_org_id = ''org'', ri_logs = ex_logs, ri_resource_class = None,
      ri_rate_card = \<lparr>nr_name = ''default'', nr_version = 1, nr_effective_at = [], nr_rates = DEFAULT_RATE_CARD_V1\<rparr>,
      ri_markup_pct = 20, ri_billing_currency = ''usd'', ri_fx = None\<rparr>"

definition ex_receipt :: execution_receipt where
  "ex_receipt = fst (assembleAttemptReceiptV2 twenty_places (\<lambda>_. None) ex_receipt_input)"

theorem receipt_counts_every_call_witness:
  "rl_total_calls (er_llm ex_receipt) = 3 \<and> tu_input (rl_totals (er_llm ex_receipt)) = 1500 \<and>
   line_key ` set (rl_by_model (er_llm ex_receipt)) = {''byok:anthropic:claude-opus-5'', ''byok:anthropic:claude-sonnet-5''}"
proof -
  let ?calls = "llm_call_logs (ri_logs ex_receipt_input)"
  have c: "?calls \<noteq> []" "length ?calls = 3" "tu_input (sum_usages (map call_tokens ?calls)) = 1500"
    "set (map call_key ?calls) = {''byok:anthropic:claude-opus-5'', ''byok:anthropic:claude-sonnet-5''}"
    by code_simp+
  have r: "fst (assembleAttemptReceiptV2 twenty_places (\<lambda>_. None) ex_receipt_input) = ex_receipt"
    by (simp add: ex_receipt_def)
  note p = receipt_counts_every_call [OF c(1) r refl]
  have "line_key ` set (rl_by_model (er_llm ex_receipt)) = set (map call_key ?calls)" using p by simp
  moreover have "rl_total_calls (er_llm ex_receipt) = length ?calls" "rl_totals (er_llm ex_receipt) = sum_usages (map call_tokens ?calls)"
    using p by blast+
  ultimately show ?thesis using c by simp
qed

subsection \<open>Weighted tokens\<close>

lemma clampTokenCount_nonneg: "0 \<le> clampTokenCount n"
  by (simp add: clampTokenCount_def)

context decimal_arithmetic
begin

lemma weight_bounds: "0 \<le> or_default 1 (cacheReadWeightFor B rateCard e) \<and> or_default 1 (cacheReadWeightFor B rateCard e) \<le> 1"
proof (cases "cacheReadWeightFor B rateCard e")
  case (Some w)
  then obtain inp cr where "w = bn_quot B cr inp" "0 < cr" "cr < inp"
    by (auto simp: cacheReadWeightFor_def positiveRate_def Let_def split: option.splits if_splits)
  then show ?thesis
    using Some quot_mono [of inp cr inp] quot_self [of inp] quot_nonneg [of inp cr] by (simp add: or_default_def)
qed (simp add: or_default_def)

lemma weighted_usage_bounds:
  "of_int (sumTokensRaw u - clampTokenCount (tu_cache_read u)) \<le> sumTokensWeighted u (cacheReadWeightFor B rateCard e) \<and>
   sumTokensWeighted u (cacheReadWeightFor B rateCard e) \<le> of_int (sumTokensRaw u)"
proof -
  let ?w = "or_default 1 (cacheReadWeightFor B rateCard e)" and ?c = "rat_of_int (clampTokenCount (tu_cache_read u))"
  have w: "0 \<le> ?w" "?w \<le> 1" and c: "0 \<le> ?c"
    using weight_bounds [of rateCard e] clampTokenCount_nonneg [of "tu_cache_read u"] by simp_all
  have "0 \<le> ?w * ?c" "?w * ?c \<le> 1 * ?c"
    using w c by (simp, intro mult_right_mono)
  then show ?thesis by (simp add: sumTokensWeighted_def sumTokensRaw_def Let_def)
qed

lemma weighted_sum_bounds:
  "of_int (sum_list (map (\<lambda>e. sumTokensRaw (lu_usage e)) es) - sum_list (map (\<lambda>e. clampTokenCount (tu_cache_read (lu_usage e))) es))
     \<le> sum_list (map (\<lambda>e. sumTokensWeighted (lu_usage e) (cacheReadWeightFor B rateCard e)) es) \<and>
   sum_list (map (\<lambda>e. sumTokensWeighted (lu_usage e) (cacheReadWeightFor B rateCard e)) es)
     \<le> of_int (sum_list (map (\<lambda>e. sumTokensRaw (lu_usage e)) es))"
proof (induction es)
  case (Cons e es)
  then show ?case using weighted_usage_bounds [of "lu_usage e" rateCard e] by simp
qed simp

lemma breakdown_bounds:
  assumes "calculateBudgetTokenBreakdown B rateCard es = t"
  shows "tb_total_tokens t - tb_cache_read_tokens t \<le> tb_weighted_tokens t \<and> tb_weighted_tokens t \<le> tb_total_tokens t \<and>
    tb_cache_read_tokens_excluded t = tb_total_tokens t - tb_weighted_tokens t \<and>
    tb_cache_read_tokens_excluded t \<le> tb_cache_read_tokens t"
proof -
  let ?w = "sum_list (map (\<lambda>e. sumTokensWeighted (lu_usage e) (cacheReadWeightFor B rateCard e)) es)"
  let ?t = "sum_list (map (\<lambda>e. sumTokensRaw (lu_usage e)) es)"
  let ?c = "sum_list (map (\<lambda>e. clampTokenCount (tu_cache_read (lu_usage e))) es)"
  have "?t - ?c \<le> \<lfloor>?w\<rfloor>" using weighted_sum_bounds [of es rateCard] by (simp add: le_floor_iff)
  moreover have "\<lfloor>?w\<rfloor> \<le> ?t" using weighted_sum_bounds [of es rateCard] by (simp add: floor_le_iff)
  ultimately show ?thesis using assms by (auto simp: calculateBudgetTokenBreakdown_def Let_def)
qed

end

text \<open>The weighted count of tokens that a budget limits lies between the count without the tokens read from a
  cache and the full count, and what is left out of it is exactly the difference to the full count.\<close>

theorem weighted_tokens_bounded:
  assumes "decimal_arithmetic B" "calculateBudgetTokenBreakdown B rateCard es = t"
  shows "tb_total_tokens t - tb_cache_read_tokens t \<le> tb_weighted_tokens t \<and> tb_weighted_tokens t \<le> tb_total_tokens t \<and>
    tb_cache_read_tokens_excluded t = tb_total_tokens t - tb_weighted_tokens t \<and>
    tb_cache_read_tokens_excluded t \<le> tb_cache_read_tokens t"
  using assms decimal_arithmetic.breakdown_bounds by blast

definition ex_breakdown :: token_breakdown where
  "ex_breakdown = calculateBudgetTokenBreakdown twenty_places DEFAULT_RATE_CARD_V1 ex_usages"

theorem weighted_tokens_bounded_witness:
  "tb_weighted_tokens ex_breakdown \<le> tb_total_tokens ex_breakdown \<and>
   tb_total_tokens ex_breakdown - tb_cache_read_tokens ex_breakdown \<le> tb_weighted_tokens ex_breakdown"
  using weighted_tokens_bounded [OF twenty.decimal_arithmetic_axioms, of DEFAULT_RATE_CARD_V1 ex_usages ex_breakdown]
  by (simp add: ex_breakdown_def)

subsection \<open>The enforcer\<close>

text \<open>A limit is reached by the usage recorded so far, at the time of a check.\<close>

definition over_budget :: "bignumber \<Rightarrow> budget_config \<Rightarrow> timestamp \<Rightarrow> enforcer \<Rightarrow> bool" where
  "over_budget B cfg now e = (let st = estimateState B cfg now e in tokens_exceeded cfg st \<or> cost_exceeded cfg st)"

lemma triggerExceeded_simps:
  assumes "\<not> en_killIssued e"
  shows "en_killIssued (triggerExceeded num cfg r t st ok e)" "en_kills (triggerExceeded num cfg r t st ok e) = Suc (en_kills e)"
    "en_exceededError (triggerExceeded num cfg r t st ok e) \<noteq> None" "\<not> en_interval (triggerExceeded num cfg r t st ok e)"
    "en_usage (triggerExceeded num cfg r t st ok e) = en_usage e"
    "en_summaryAppended (triggerExceeded num cfg r t st ok e) = en_summaryAppended e"
    "map fst (en_logs (triggerExceeded num cfg r t st ok e)) = map fst (en_logs e) @ (if ok then [''budget.exceeded''] else [])"
  using assms by (simp_all add: triggerExceeded_def append_log_def stop_checks_def Let_def)

lemma enforce_cases:
  "en_killIssued e \<or> \<not> over_budget B cfg now e \<Longrightarrow> enforce B num cfg t now ok e = e"
  "\<not> en_killIssued e \<Longrightarrow> over_budget B cfg now e \<Longrightarrow>
     \<exists>r st. enforce B num cfg t now ok e = triggerExceeded num cfg r t st ok e"
  by (auto simp: enforce_def over_budget_def Let_def)

text \<open>The state of an enforcer: it has killed the harness at most once, and then has an error, no running timer
  that matters, and at most one log of it; it has written at most one summary.\<close>

definition enforcer_inv :: "enforcer \<Rightarrow> bool" where
  "enforcer_inv e =
     (en_kills e = (if en_killIssued e then 1 else 0) \<and> (en_exceededError e \<noteq> None) = en_killIssued e \<and>
      count_list (map fst (en_logs e)) ''budget.exceeded'' \<le> en_kills e \<and>
      count_list (map fst (en_logs e)) ''budget.summary'' \<le> (if en_summaryAppended e then 1 else 0))"

lemma enforce_inv:
  assumes "enforcer_inv e"
  shows "enforcer_inv (enforce B num cfg t now ok e)"
proof (cases "en_killIssued e \<or> \<not> over_budget B cfg now e")
  case False
  then obtain r st where "enforce B num cfg t now ok e = triggerExceeded num cfg r t st ok e" "\<not> en_killIssued e"
    using enforce_cases(2) by blast
  then show ?thesis using assms by (auto simp: enforcer_inv_def triggerExceeded_simps)
qed (use assms enforce_cases(1) in simp)

inductive_cases enforcer_stepE: "enforcer_step B num cfg e e'"

interpretation enf: run_invariant "enforcer_step B num cfg" enforcer_inv
proof
  fix e e' assume step: "enforcer_step B num cfg e e'" and inv: "enforcer_inv e"
  have usage: "enforcer_inv (e\<lparr>en_usage := u\<rparr>)" for u using inv by (simp add: enforcer_inv_def)
  from step show "enforcer_inv e'"
  proof cases
    case (model_call line now logged)
    then show ?thesis using enforce_inv [OF usage] by (simp add: processLlmCall_def)
  next
    case (timer now logged)
    then show ?thesis using enforce_inv [OF inv] inv by (simp add: periodic_check_def)
  next
    case (summary trigger now logged)
    then show ?thesis using inv by (auto simp: appendSummary_def append_log_def enforcer_inv_def split: if_splits)
  qed (use inv in \<open>auto simp: startPeriodicCheck_def stop_checks_def enforcer_inv_def\<close>)
qed

text \<open>C39: Through every sequence of model calls, timer checks, starts, stops and summaries the enforcer has the
  harness killed at most once, it reports an error exactly when it has done so, and it logs the excess and the
  summary at most once each.\<close>

theorem harness_is_killed_once:
  assumes "(enforcer_step B num cfg)\<^sup>*\<^sup>* new_enforcer e"
  shows "en_kills e \<le> 1 \<and> (en_killIssued e \<longleftrightarrow> en_kills e = 1) \<and> (en_exceededError e \<noteq> None \<longleftrightarrow> en_killIssued e) \<and>
    count_list (map fst (en_logs e)) ''budget.exceeded'' \<le> en_kills e \<and>
    count_list (map fst (en_logs e)) ''budget.summary'' \<le> 1"
proof -
  have "enforcer_inv new_enforcer" by (simp add: enforcer_inv_def new_enforcer_def)
  then have "enforcer_inv e" using enf.run_keeps assms by blast
  then show ?thesis by (auto simp: enforcer_inv_def split: if_splits)
qed

definition ex_config :: budget_config where
  "ex_config = \<lparr>bg_max_tokens = Some 1000, bg_max_cost = None,
     bg_rate_card = \<lparr>nr_name = ''default'', nr_version = 1, nr_effective_at = [], nr_rates = DEFAULT_RATE_CARD_V1\<rparr>,
     bg_markup_pct = 20, bg_currency = ''usd'', bg_fx = None, bg_resource_class = None, bg_requested_vcpu = None,
     bg_requested_memory_gib = None, bg_execution_started_at = 0\<rparr>"

definition ex_killed :: enforcer where
  "ex_killed = processLlmCall twenty_places (\<lambda>_. []) ex_config (ll_content (ex_call ''local'' ''ok'' ''byok'' 1000)) 5 True new_enforcer"

lemma ex_killed_issued: "en_killIssued ex_killed"
proof -
  let ?e = "new_enforcer\<lparr>en_usage := record_call (ll_content (ex_call ''local'' ''ok'' ''byok'' 1000)) []\<rparr>"
  have "1000 \<le> tb_weighted_tokens (calculateBudgetTokenBreakdown twenty_places DEFAULT_RATE_CARD_V1 (map snd (en_usage ?e)))"
    by code_simp
  then have "tokens_exceeded ex_config (estimateState twenty_places ex_config 5 ?e)"
    by (simp add: tokens_exceeded_def estimateState_def ex_config_def Let_def split_beta)
  then show ?thesis
    by (simp add: ex_killed_def processLlmCall_def enforce_def triggerExceeded_simps new_enforcer_def Let_def)
qed

theorem harness_is_killed_once_witness:
  "en_kills ex_killed \<le> 1 \<and> en_killIssued ex_killed"
proof -
  have "(enforcer_step twenty_places (\<lambda>_. []) ex_config)\<^sup>*\<^sup>* new_enforcer ex_killed"
    unfolding ex_killed_def by (rule r_into_rtranclp) (rule enforcer_step.model_call)
  from harness_is_killed_once [OF this] show ?thesis using ex_killed_issued by simp
qed

lemma enforce_exact:
  "en_killIssued (enforce B num cfg t now logged e) = (en_killIssued e \<or> over_budget B cfg now e)"
  "en_usage (enforce B num cfg t now logged e) = en_usage e"
proof -
  have "en_killIssued (enforce B num cfg t now logged e) = (en_killIssued e \<or> over_budget B cfg now e) \<and>
      en_usage (enforce B num cfg t now logged e) = en_usage e"
  proof (cases "en_killIssued e \<or> \<not> over_budget B cfg now e")
    case False
    then show ?thesis using enforce_cases(2) [of e B cfg now num t logged] triggerExceeded_simps by metis
  qed (use enforce_cases(1) in auto)
  then show "en_killIssued (enforce B num cfg t now logged e) = (en_killIssued e \<or> over_budget B cfg now e)"
    "en_usage (enforce B num cfg t now logged e) = en_usage e" by blast+
qed

text \<open>A check of a running harness kills it exactly when a limit is reached: after a model call, counting that
  call, and at a timer check. A harness that is killed stays so, and further calls change only the recorded usage.\<close>

theorem budget_is_enforced_exactly:
  "en_killIssued (processLlmCall B num cfg line now logged e) =
     (en_killIssued e \<or> over_budget B cfg now (e\<lparr>en_usage := record_call line (en_usage e)\<rparr>)) \<and>
   en_usage (processLlmCall B num cfg line now logged e) = record_call line (en_usage e) \<and>
   en_killIssued (periodic_check B num cfg now logged e) = (en_killIssued e \<or> en_interval e \<and> over_budget B cfg now e)"
  by (simp add: processLlmCall_def periodic_check_def enforce_exact)

subsection \<open>The enforcer and the receipt\<close>

text \<open>The entries of the enforcer are those of the receipt, without the models that had no successful call.\<close>

definition same_entry :: "llm_usage option \<Rightarrow> model_usage option \<Rightarrow> bool" where
  "same_entry u m =
     (case m of
        None \<Rightarrow> u = None
      | Some m \<Rightarrow> (case u of None \<Rightarrow> mu_usage m = no_tokens | Some u \<Rightarrow> u = llm_usage_of m))"

definition own_key_call :: "log_like \<Rightarrow> bool" where
  "own_key_call l = (call_source (ll_content l) = Byok \<and> CHR '':'' \<notin> set (call_provider l))"

definition record_log :: "log_like \<Rightarrow> (string \<times> llm_usage) list \<Rightarrow> (string \<times> llm_usage) list" where
  "record_log l agg = record_call (ll_content l) agg"

lemma record_log_eq:
  assumes "own_key_call l"
  shows "record_log l agg =
    (case call_usage (ll_content l) of
       None \<Rightarrow> agg
     | Some u \<Rightarrow>
         (let e = or_default \<lparr>lu_provider = call_provider l, lu_model = call_model l, lu_source = Byok, lu_usage = no_tokens\<rparr>
                    (map_of agg (call_key l))
          in AList.update (call_key l) (e\<lparr>lu_usage := add_usage (lu_usage e) (read_usage u)\<rparr>) agg))"
  using assms
  by (simp add: record_log_def record_call_def own_key_call_def call_key_def call_provider_def call_model_def Let_def
      split: option.split)

lemma counted_names:
  assumes "list_all own_key_call ls" "map_of (fold count_call ls []) k = Some m"
  shows "k = usage_key Byok (mu_provider m) (mu_model m) \<and> CHR '':'' \<notin> set (mu_provider m)"
  using assms
proof (induction ls arbitrary: k m rule: rev_induct)
  case (snoc l ls)
  then show ?case
    by (auto simp: counted_map own_key_call_def call_key_def simp del: fold_append split: if_splits option.splits)
qed simp

lemma same_entries:
  assumes "list_all own_key_call ls"
  shows "same_entry (map_of (fold record_log ls []) k) (map_of (fold count_call ls []) k)"
  using assms
proof (induction ls arbitrary: k rule: rev_induct)
  case (snoc l ls)
  let ?E = "map_of (fold record_log ls [])" and ?A = "map_of (fold count_call ls [])" and ?k = "call_key l"
  have own: "own_key_call l" and rest: "list_all own_key_call ls" using snoc.prems by simp_all
  have IH: "same_entry (?E k) (?A k)" for k using snoc.IH rest by blast
  have names: "mu_provider m = call_provider l \<and> mu_model m = call_model l \<and> mu_source m = Byok" if "?A ?k = Some m" for m
    using counted_names [OF rest that] usage_key_inject [of Byok "call_provider l" "call_model l" "mu_provider m" "mu_model m"]
      counted_source [OF that] own by (simp add: call_key_def own_key_call_def)
  show ?case
  proof (cases "k = ?k")
    case False
    then show ?thesis
      using IH [of k] own
      by (simp add: record_log_eq count_call_eq [of l] update_conv' Let_def split: option.split)
  next
    case True
    note step = record_log_eq [OF own, of "fold record_log ls []"] count_call_eq [of l "fold count_call ls []"]
    show ?thesis
    proof (cases "?A ?k")
      case None
      then have "?E ?k = None" using IH [of ?k] by (simp add: same_entry_def)
      then show ?thesis
        using None True
        by (simp add: step update_conv' Let_def same_entry_def llm_usage_of_def or_default_def call_tokens_def
            next_entry_def split: option.split)
    next
      case (Some m)
      have "same_entry (?E ?k) (Some m)" using IH [of ?k] Some by simp
      then show ?thesis
        using Some True names [OF Some]
        by (cases "?E ?k"; cases "call_usage (ll_content l)")
          (simp_all add: step update_conv' Let_def same_entry_def llm_usage_of_def or_default_def call_tokens_def
            next_entry_def)
    qed
  qed
qed (simp add: same_entry_def)

lemma recorded_distinct: "list_all own_key_call ls \<Longrightarrow> distinct (map fst (fold record_log ls []))"
  by (induction ls rule: rev_induct) (auto simp: record_log_eq Let_def distinct_update split: option.split)

lemma sum_over_keys:
  fixes f :: "'a \<Rightarrow> 'b :: comm_monoid_add"
  assumes "distinct (map fst xs)" "finite K" "set (map fst xs) \<subseteq> K"
  shows "sum_list (map (f \<circ> snd) xs) = (\<Sum>k\<in>K. case map_of xs k of None \<Rightarrow> 0 | Some v \<Rightarrow> f v)"
proof -
  have "sum_list (map (f \<circ> snd) xs) = (\<Sum>k\<in>set (map fst xs). case map_of xs k of None \<Rightarrow> 0 | Some v \<Rightarrow> f v)"
    using assms(1)
  proof (induction xs)
    case (Cons p xs)
    then have "(\<Sum>k\<in>set (map fst xs). case map_of (p # xs) k of None \<Rightarrow> 0 | Some v \<Rightarrow> f v) =
        (\<Sum>k\<in>set (map fst xs). case map_of xs k of None \<Rightarrow> 0 | Some v \<Rightarrow> f v)"
      by (intro sum.cong) (auto simp: image_iff)
    then show ?case using Cons by (cases p) simp
  qed simp
  also have "\<dots> = (\<Sum>k\<in>K. case map_of xs k of None \<Rightarrow> 0 | Some v \<Rightarrow> f v)"
  proof (rule sum.mono_neutral_left)
    have "map_of xs k = None" if "k \<in> K - set (map fst xs)" for k
      using that by (simp add: map_of_eq_None_iff)
    then show "\<forall>k \<in> K - set (map fst xs). (case map_of xs k of None \<Rightarrow> 0 | Some v \<Rightarrow> f v) = 0" by simp
  qed (use assms in auto)
  finally show ?thesis .
qed

lemma same_sums:
  fixes f :: "llm_usage \<Rightarrow> 'b :: comm_monoid_add"
  assumes "list_all own_key_call ls" "\<And>u. lu_usage u = no_tokens \<Longrightarrow> f u = 0"
  shows "sum_list (map (f \<circ> snd) (fold record_log ls [])) = sum_list (map (f \<circ> llm_usage_of \<circ> snd) (fold count_call ls []))"
proof -
  let ?E = "fold record_log ls []" and ?A = "fold count_call ls []"
  let ?K = "set (map fst ?E) \<union> set (map fst ?A)"
  have "sum_list (map (f \<circ> snd) ?E) = (\<Sum>k\<in>?K. case map_of ?E k of None \<Rightarrow> 0 | Some v \<Rightarrow> f v)"
    by (rule sum_over_keys) (simp_all add: recorded_distinct [OF assms(1)])
  also have "\<dots> = (\<Sum>k\<in>?K. case map_of ?A k of None \<Rightarrow> 0 | Some v \<Rightarrow> (f \<circ> llm_usage_of) v)"
  proof (rule sum.cong)
    fix k
    show "(case map_of ?E k of None \<Rightarrow> 0 | Some v \<Rightarrow> f v) = (case map_of ?A k of None \<Rightarrow> 0 | Some v \<Rightarrow> (f \<circ> llm_usage_of) v)"
      using same_entries [OF assms(1), of k] assms(2)
      by (auto simp: same_entry_def llm_usage_of_def split: option.splits)
  qed simp
  also have "\<dots> = sum_list (map (f \<circ> llm_usage_of \<circ> snd) ?A)"
    by (rule sum_over_keys [symmetric]) (simp_all add: counted_distinct)
  finally show ?thesis .
qed

lemma byok_cost_sum:
  assumes "decimal_arithmetic B" "card_ok B rateCard" "\<And>u. u \<in> set us \<Longrightarrow> lu_source u = Byok"
  shows "lc_byok_usd (estimateLlmCostUsd B rateCard us) =
    Some (sum_list (map (the \<circ> mc_cost_usd \<circ> model_cost_of B rateCard) us))"
proof -
  have "filter (\<lambda>c. mc_source c \<noteq> Managed) (map (model_cost_of B rateCard) us) = map (model_cost_of B rateCard) us"
    using assms(3) by (auto simp: filter_id_conv model_cost_of_def Let_def)
  moreover have "mc_cost_usd c \<noteq> None" if "c \<in> set (map (model_cost_of B rateCard) us)" for c
    using decimal_arithmetic.model_cost_ok [OF assms(1,2)] that by force
  ultimately show ?thesis
    using sum_costs_Some [of "map (model_cost_of B rateCard) us"]
    by (simp add: estimateLlmCostUsd_def Let_def comp_assoc)
qed

lemma unused_model_cost:
  assumes "decimal_arithmetic B" "card_ok B rateCard" "lu_usage u = no_tokens"
  shows "mc_cost_usd (model_cost_of B rateCard u) = Some 0"
  using decimal_arithmetic.usage_cost_none [OF assms(1)] token_rate_of_card [OF assms(2)] assms(3)
  by (simp add: model_cost_of_def Let_def split: option.split)

lemma unused_tokens:
  "clampTokenCount 0 = 0" "sumTokensRaw no_tokens = 0" "sumTokensWeighted no_tokens w = 0" "tu_cache_read no_tokens = 0"
  by (simp_all add: sumTokensRaw_def sumTokensWeighted_def clampTokenCount_def no_tokens_def)

lemma recorded_source:
  assumes "list_all own_key_call ls" "u \<in> set (map snd (fold record_log ls []))"
  shows "lu_source u = Byok"
proof -
  obtain k where "(k, u) \<in> set (fold record_log ls [])" using assms(2) by auto
  then have "map_of (fold record_log ls []) k = Some u" by (rule map_of_is_SomeI [OF recorded_distinct [OF assms(1)]])
  then show ?thesis
    using same_entries [OF assms(1), of k] counted_source [of ls k]
    by (auto simp: same_entry_def llm_usage_of_def split: option.splits)
qed

text \<open>An enforcer that has seen the calls of some logs, each at a time of its own and with or without its log written.\<close>

definition watched ::
  "bignumber \<Rightarrow> (rat \<Rightarrow> string) \<Rightarrow> budget_config \<Rightarrow> (log_like \<times> timestamp \<times> bool) list \<Rightarrow> enforcer" where
  "watched B num cfg seen =
     fold (\<lambda>(l, now, logged). processLlmCall B num cfg (ll_content l) now logged) seen new_enforcer"

lemma watched_usage: "en_usage (watched B num cfg seen) = fold record_log (map fst seen) []"
proof -
  have "en_usage (fold (\<lambda>(l, now, logged). processLlmCall B num cfg (ll_content l) now logged) seen e) =
      fold record_log (map fst seen) (en_usage e)" for e
    by (induction seen arbitrary: e) (auto simp: processLlmCall_def enforce_exact record_log_def)
  then show ?thesis by (simp add: watched_def new_enforcer_def)
qed

text \<open>C40: The enforcer that watches an attempt and the receipt assembled from its logs agree, when the calls are on
  the customer's own keys: the same cost of the model usage on every rate card with readable rates, and the same
  counts of all tokens, of weighted tokens and of tokens read from a cache.\<close>

theorem budget_counts_what_the_receipt_shows:
  assumes "decimal_arithmetic B" "card_ok B rateCard" "list_all own_key_call (llm_call_logs logs)"
    "map fst seen = llm_call_logs logs" "llm_call_logs logs \<noteq> []"
    "map snd (en_usage (watched B num cfg seen)) = spent" "map (llm_usage_of \<circ> snd) (usage_by_model logs) = shown"
  shows "lc_byok_usd (estimateLlmCostUsd B rateCard spent) = lc_byok_usd (estimateLlmCostUsd B rateCard shown) \<and>
    tb_total_tokens (calculateBudgetTokenBreakdown B rateCard spent) = tb_total_tokens (calculateBudgetTokenBreakdown B rateCard shown) \<and>
    tb_weighted_tokens (calculateBudgetTokenBreakdown B rateCard spent) = tb_weighted_tokens (calculateBudgetTokenBreakdown B rateCard shown) \<and>
    tb_cache_read_tokens (calculateBudgetTokenBreakdown B rateCard spent) = tb_cache_read_tokens (calculateBudgetTokenBreakdown B rateCard shown)"
proof -
  let ?ls = "llm_call_logs logs"
  have spent: "spent = map snd (fold record_log ?ls [])" using assms(4,6) by (simp add: watched_usage)
  have agg: "usage_by_model logs = fold count_call ?ls []" using assms(5) by (simp add: usage_by_model_def)
  have shown: "shown = map (llm_usage_of \<circ> snd) (fold count_call ?ls [])" using assms(7) agg by simp
  have sums: "sum_list (map f spent) = sum_list (map f shown)" if "\<And>u. lu_usage u = no_tokens \<Longrightarrow> f u = 0"
    for f :: "llm_usage \<Rightarrow> 'x :: comm_monoid_add"
    using same_sums [OF assms(3), of f] that by (simp add: spent shown comp_assoc)
  have "lu_source u = Byok" if "u \<in> set shown" for u
    using that usage_by_model_byok [of _ logs] by (auto simp: shown agg llm_usage_of_def)
  moreover have "lu_source u = Byok" if "u \<in> set spent" for u
    using that recorded_source [OF assms(3)] by (simp add: spent)
  ultimately have "lc_byok_usd (estimateLlmCostUsd B rateCard spent) = lc_byok_usd (estimateLlmCostUsd B rateCard shown)"
    using sums [of "the \<circ> mc_cost_usd \<circ> model_cost_of B rateCard"] unused_model_cost [OF assms(1,2)]
    by (simp add: byok_cost_sum [OF assms(1,2)])
  moreover have "sum_list (map (\<lambda>e. sumTokensRaw (lu_usage e)) spent) = sum_list (map (\<lambda>e. sumTokensRaw (lu_usage e)) shown)"
    by (rule sums) (simp add: unused_tokens)
  moreover have "sum_list (map (\<lambda>e. clampTokenCount (tu_cache_read (lu_usage e))) spent) =
      sum_list (map (\<lambda>e. clampTokenCount (tu_cache_read (lu_usage e))) shown)"
    by (rule sums) (simp add: unused_tokens)
  moreover have "sum_list (map (\<lambda>e. sumTokensWeighted (lu_usage e) (cacheReadWeightFor B rateCard e)) spent) =
      sum_list (map (\<lambda>e. sumTokensWeighted (lu_usage e) (cacheReadWeightFor B rateCard e)) shown)"
    by (rule sums) (simp add: unused_tokens)
  ultimately show ?thesis by (simp add: calculateBudgetTokenBreakdown_def Let_def)
qed

definition ex_seen :: "(log_like \<times> timestamp \<times> bool) list" where
  "ex_seen = map (\<lambda>l. (l, 7, True)) (llm_call_logs ex_logs)"

theorem budget_counts_what_the_receipt_shows_witness:
  "tb_total_tokens (calculateBudgetTokenBreakdown twenty_places DEFAULT_RATE_CARD_V1
     (map snd (en_usage (watched twenty_places (\<lambda>_. []) ex_config ex_seen)))) = 1524"
proof -
  have "list_all own_key_call (llm_call_logs ex_logs)" "map fst ex_seen = llm_call_logs ex_logs" "llm_call_logs ex_logs \<noteq> []"
    "tb_total_tokens (calculateBudgetTokenBreakdown twenty_places DEFAULT_RATE_CARD_V1
      (map (llm_usage_of \<circ> snd) (usage_by_model ex_logs))) = 1524"
    by code_simp+
  then show ?thesis
    using budget_counts_what_the_receipt_shows [OF twenty.decimal_arithmetic_axioms default_card_ok, of ex_logs ex_seen
        "\<lambda>_. []" ex_config, OF _ _ _ refl refl] by simp
qed

end
