(* ===== verification/Spec2Isabelle.thy ===== *)
theory Spec2Isabelle
  imports Workflow_Properties Job_Properties Loop_Properties Control_Properties Outcome_Properties
    Template_Properties Router_Properties Overlay_Properties Access_Properties Expander_Properties
    Pricing_Properties
begin

text \<open>
  Verification of Eve Horizon, a platform that runs jobs of coding agents, pipelines and workflows for
  projects of organisations. The platform is a set of services over one Postgres database: the API
  (\<^verbatim>\<open>apps/api\<close>) accepts requests and writes rows, the orchestrator (\<^verbatim>\<open>apps/orchestrator\<close>) claims jobs and
  events and drives them to their end, workers and agent runtimes execute what the orchestrator sends
  them, and \<^verbatim>\<open>packages/db\<close> and \<^verbatim>\<open>packages/shared\<close> hold the queries and the pure logic they have in common.
  What makes the platform correct is in the queries, in the loop of the orchestrator and in the pure
  functions that decide what runs, who may do it and what it costs; these are what the theories model.

  How the parts are modelled.

\<^item> A table is a list of rows in insertion order and a row is a \<^verbatim>\<open>record\<close>; the SQL statements of the
  sources are the operations of \<open>Prelude\<close> (\<open>update_where\<close>, \<open>find_row\<close>, \<open>order_by\<close>, ...). An operation
  takes the database and returns its result with the new database. Errors are values: \<open>Inl\<close> of an error.
\<^item> A method that runs several statements is split where another client can act in between when a
  property depends on it (\<open>claim_after_read\<close>, \<open>updatePhase_read\<close>/\<open>_check\<close>/\<open>_write\<close>, \<open>acquireGates\<close> with
  the interference \<open>env\<close>, \<open>ledger_transact\<close>, the two halves of the creation of an event).
\<^item> Generated ids, the clock, random hashes, HTTP calls, environment variables and what other components
  do while a call waits are arguments, so a theorem holds for every value of them.
\<^item> JSON is a datatype, objects are association lists, JavaScript numbers are rationals or integers
  where the code uses them so; \<^verbatim>\<open>undefined\<close> and \<^verbatim>\<open>null\<close> are \<open>None\<close> unless the code tells them apart.

  The theories, by part of the system.

\<^item> Jobs. \<open>Job_Model\<close> has the rows; \<open>Job_Crud\<close>, \<open>Job_Attempts\<close>, \<open>Job_Hierarchy\<close>, \<open>Job_Claim\<close>,
  \<open>Job_Scheduling\<close>, \<open>Job_Review\<close> and \<open>Job_Ids\<close> are the modules of \<^verbatim>\<open>packages/db/src/queries/jobs\<close> of the same
  names, \<open>Job_Gates\<close> is \<^verbatim>\<open>gates.ts\<close>. \<open>Job_Lifecycle\<close> joins their operations into one step relation with
  the invariant \<open>store_wf\<close>; \<open>Job_Properties\<close> has what the store guarantees.
\<^item> Pipelines, logs, events, money. \<open>Pipeline_Runs\<close> is \<^verbatim>\<open>pipeline-runs.ts\<close> and \<^verbatim>\<open>execution-logs.ts\<close>, \<open>Events\<close> is
  \<^verbatim>\<open>events.ts\<close> and \<^verbatim>\<open>ingest-records.ts\<close>, \<open>Ledger\<close> is \<^verbatim>\<open>balance-ledger.ts\<close>; \<open>World\<close> puts the tables together with
  the state of the orchestrator. \<open>Event_Properties\<close> and \<open>Ledger_Properties\<close> have their theorems.
\<^item> Orchestrator loop (\<^verbatim>\<open>apps/orchestrator/src/loop\<close>). \<open>Concurrency\<close> has the limiter, the cgroup metrics and the
  tuner; \<open>Dispatch\<close> has the ticks and the dispatches in flight as interleaved steps, and the dispatch loop of a
  tick with claims that are functions of everything others can change while they wait (the limiter, the stop flag, the world); \<open>Loop_Control\<close> has the
  pure decisions of \<^verbatim>\<open>loop.service.ts\<close>, \<open>Loop_Store\<close> what it writes, \<open>Job_Process\<close> the processing of one job,
  \<open>Recovery\<close> the sweeps of \<^verbatim>\<open>recovery.service.ts\<close> and the tick; \<open>Json_Parse\<close> is the \<^verbatim>\<open>JSON.parse\<close> the loop uses.
  \<open>Loop_Properties\<close>, \<open>Control_Properties\<close>, \<open>Process_Properties\<close>, \<open>Recovery_Properties\<close> and
  \<open>Outcome_Properties\<close> have their theorems.
\<^item> Templates, triggers and events. \<open>Templates\<close> is \<^verbatim>\<open>packages/shared/src/templates\<close>, \<open>Triggers\<close> the trigger matcher,
  \<open>Event_Router\<close> the router with the deliveries over app links; \<open>Template_Properties\<close>, \<open>Trigger_Properties\<close>
  and \<open>Router_Properties\<close> have their theorems.
\<^item> Configuration. \<open>Overlay\<close> is \<^verbatim>\<open>overlay-merge.ts\<close>; \<open>Overlay_Properties\<close> compares it with RFC 7396.
\<^item> Access control (\<^verbatim>\<open>apps/api/src/auth\<close>). \<open>Access_Scopes\<close> has the resource scopes and their intersection,
  \<open>Access_Store\<close> the rows of roles, bindings, groups, memberships and service principals, \<open>Access\<close> the
  check and its explanation, \<open>Access_Guard\<close> the guard of the API and the minting of job tokens;
  \<open>Scope_Properties\<close> and \<open>Access_Properties\<close> have their theorems.
\<^item> Batches and pipelines (\<^verbatim>\<open>apps/api/src/jobs\<close>, \<^verbatim>\<open>apps/api/src/pipelines\<close>). \<open>Job_Graph\<close> has the two graph
  algorithms of \<^verbatim>\<open>job-batch.service.ts\<close> (the depth-first search for a cycle and the Kahn loop that orders the
  jobs), \<open>Job_Batch\<close> the rest of that service with \<^verbatim>\<open>batch-jobs.ts\<close>, \<open>Step_Execution\<close> is \<^verbatim>\<open>step-execution.ts\<close> with
  the environment overrides of \<^verbatim>\<open>schemas/job.ts\<close>, \<open>Pipeline_Expander\<close> is \<^verbatim>\<open>pipeline-expander.service.ts\<close> over the
  manifests of \<^verbatim>\<open>project-manifests.ts\<close>; \<open>Batch_Properties\<close> and \<open>Expander_Properties\<close> have their theorems.
\<^item> Workflows (\<^verbatim>\<open>apps/api/src/workflows/workflows.service.ts\<close>). \<open>Workflow_Graph\<close> has the validation of the steps
  (\<^verbatim>\<open>validateStepGraph\<close>, \<^verbatim>\<open>parseStepCondition\<close>, \<^verbatim>\<open>detectCycleInGraph\<close>), \<open>Workflow_Retry\<close> the retry of failed steps or from a step
  as the transaction it is; \<open>Workflow_Properties\<close> has their theorems. Invocation and the rest of that service are not modelled.
\<^item> Prices and budgets (\<^verbatim>\<open>packages/shared/src/pricing\<close>, \<^verbatim>\<open>invoke/budget-enforcement.ts\<close>). \<open>Pricing\<close> has the provider registry,
  the rate cards and the cost calculator, \<open>Receipts\<close> the receipt of an attempt, \<open>Budget\<close> the limits of a job and
  the enforcer that watches its harness; \<open>Pricing_Properties\<close> has their theorems.

  What the lemmas show. The store of jobs keeps its keys, references and attempt numbers through every
  sequence of operations. By all operations but \<^verbatim>\<open>requeueReady\<close>, which has no guard, closed jobs stay closed and a job that requires
  review is done only by leaving the review phase. The failure of an open job has an exact effect on every
  other job. A claim of a job with at most one pending attempt is exclusive; gates are leases, taken all or none, that last
  for the seconds asked for. The dispatcher conserves its slots under every
  interleaving, and the dispatch loop ends when no work is added; a processed attempt is settled and its gates are released on
  every path. Balances are the sums of their transactions, and a source is booked once; an event is claimed once until it
  is set back to pending. A template is parsed, checked and
  evaluated as its grammar says. On routes that address a resource by id and name no project, a token reaches only its own job
  tree, project or org (on the others the guard makes no such check, \<open>token_on_foreign_project_route\<close>); merged scopes
  narrow when they declare the same kinds of resources with all their lists (\<open>merge_can_widen\<close> shows where not); and
  the access check agrees with its explanation. A batch that passes validation is acyclic and bounded in depth, and it is
  created as the jobs and the edges it names, once for each idempotency key. The expansion of a pipeline
  whose step names are distinct, which the code does not check, creates exactly the jobs of the selected steps and their
  dependencies, and its dry run previews them; the tokens carry what the step or the pipeline declares, and these are permissions the
  caller holds only where an access service is injected, which the module of the pipelines does not do
  (\<open>unheld_permission_is_granted\<close>). The steps of a workflow are accepted exactly when their graph is well formed; a retry replaces
  exactly the failed steps, or a step and all that wait for it, keeps the relations, and leaves a workflow that goes on. The lines of a bill add up, the use of a
  customer's own model keys is never billed, a receipt counts every model call once, and the enforcer kills a
  harness at most once, exactly when a limit is reached, and counts what the receipt will show of calls on own keys.

  Interfaces. \<open>run_invariant\<close> (\<open>Prelude\<close>) is an invariant kept by a step relation; it is interpreted for the
  job store, the orchestrator, the event log, the calls that leave a claimed event claimed, pipeline runs, the ledger and the router. \<open>store_update\<close> and its
  extension \<open>lawful_update\<close> (\<open>Job_Lifecycle\<close>) are the contract of an operation on the job store and are
  interpreted for each of them. \<open>semaphore\<close> (\<open>Concurrency\<close>) is the contract of the limiter the dispatcher
  relies on, \<open>lease\<close> (\<open>Job_Gates\<close>) the abstract lease that gate acquisition implements. \<open>decimal_arithmetic\<close> (\<open>Pricing\<close>) is what
  the documentation of the package \<^verbatim>\<open>bignumber.js\<close> promises; it is interpreted for that behaviour in its default
  configuration.

  Bounds. The recursive queries take a fuel: the failure cascade gets the number of relations plus one, and
  the lemmas show that this always suffices; the hierarchy query may run forever on a cyclic table, which is the
  value \<open>None\<close>. The JSON parser has the fuel twice the length of the text plus one, since every call
  consumes a character or opens a value. The searches of \<open>Job_Graph\<close> and \<open>Pipeline_Expander\<close> are total, by the
  number of nodes not yet visited. The retries of \<^verbatim>\<open>generateJobId\<close> and the polls of \<^verbatim>\<open>drain\<close> are the
  lists of what they observe.

  Not modelled. Lost connections to the database: a statement fails only on a constraint of its table, so the handlers that catch
  other errors of a single update, in \<^verbatim>\<open>handleProcessJobError\<close> and \<^verbatim>\<open>processEvent\<close>, have no branch. The remaining services of the API, which are controllers over the same queries; the worker,
  the deployer and the agent runtime, which are git, Kubernetes and process I/O; the chat gateway
  and the sign-on pages, which are protocol adapters; the command line client; the cron services that poll
  Kubernetes or cloud providers; token signatures and the YAML parser, which are third-party code.
\<close>

end
